(* ===== verification/Prelude.thy ===== *)
theory Prelude
  imports Main
begin

text \<open>
  Shared vocabulary of the development: Go's fallible results, the shape of the
  validation errors of \<^verbatim>\<open>backend/internal/domain/errors.go\<close>, finite tables keyed by an
  identifier (a SQL table, a Go map whose order is fixed by the model) and a generic
  transition system with its invariant rule.
\<close>

named_theorems go_simps \<open>equations of the Go library functions used by component proofs\<close>

named_theorems inv_intros \<open>preservation lemmas of the component invariants\<close>

section \<open>Results\<close>

text \<open>A Go function that returns \<open>(T, error)\<close> returns \<open>Inl\<close> of the error or \<open>Inr\<close> of the value.\<close>

type_synonym ('e, 'a) result = "'e + 'a"

definition is_ok :: "('e, 'a) result \<Rightarrow> bool" where
  "is_ok r = (case r of Inl _ \<Rightarrow> False | Inr _ \<Rightarrow> True)"

lemma is_ok_simps [simp]: "is_ok (Inr a)" "\<not> is_ok (Inl e)"
  by (simp_all add: is_ok_def)

lemma is_ok_iff: "is_ok r \<longleftrightarrow> (\<exists>a. r = Inr a)"
  by (cases r) auto

text \<open>
  A formatted message keeps its format string and its arguments; the rendering of
  \<^verbatim>\<open>fmt.Sprintf\<close> is not needed by any property.
\<close>

datatype msg_arg = AStr string | AInt int

record message =
  fmt_of :: string
  args_of :: "msg_arg list"

definition msg :: "string \<Rightarrow> message" where
  "msg f = \<lparr>fmt_of = f, args_of = []\<rparr>"

definition msgf :: "string \<Rightarrow> msg_arg list \<Rightarrow> message" where
  "msgf f as = \<lparr>fmt_of = f, args_of = as\<rparr>"

section \<open>Tables\<close>

text \<open>
  A table is an association list without repeated keys: \<open>tget\<close> is a lookup by key,
  \<open>tput\<close> inserts or replaces in place, \<open>tdel\<close> deletes. The order of the list is the
  order of iteration the model fixes for a Go map or a table scan.
\<close>

type_synonym ('k, 'v) table = "('k \<times> 'v) list"

definition tkeys :: "('k, 'v) table \<Rightarrow> 'k list" where
  "tkeys t = map fst t"

definition tget :: "('k, 'v) table \<Rightarrow> 'k \<Rightarrow> 'v option" where
  "tget t k = map_of t k"

fun tput :: "'k \<Rightarrow> 'v \<Rightarrow> ('k, 'v) table \<Rightarrow> ('k, 'v) table" where
  "tput k v [] = [(k, v)]"
| "tput k v ((k', v') # t) = (if k = k' then (k, v) # t else (k', v') # tput k v t)"

definition tdel :: "'k \<Rightarrow> ('k, 'v) table \<Rightarrow> ('k, 'v) table" where
  "tdel k t = filter (\<lambda>(k', _). k' \<noteq> k) t"

definition table_ok :: "('k, 'v) table \<Rightarrow> bool" where
  "table_ok t = distinct (tkeys t)"

lemma tget_Nil [simp]: "tget [] k = None"
  by (simp add: tget_def)

lemma tget_Cons [simp]: "tget ((k', v) # t) k = (if k = k' then Some v else tget t k)"
  by (simp add: tget_def)

lemma tget_put [simp]: "tget (tput k v t) k' = (if k' = k then Some v else tget t k')"
  by (induction k v t rule: tput.induct) auto

lemma tget_del [simp]: "tget (tdel k t) k' = (if k' = k then None else tget t k')"
  by (induction t) (auto simp: tdel_def)

lemma tkeys_put: "tkeys (tput k v t) = (if k \<in> set (tkeys t) then tkeys t else tkeys t @ [k])"
  by (induction k v t rule: tput.induct) (auto simp: tkeys_def)

lemma set_tkeys_put [simp]: "set (tkeys (tput k v t)) = insert k (set (tkeys t))"
  by (auto simp: tkeys_put)

lemma set_tkeys_del [simp]: "set (tkeys (tdel k t)) = set (tkeys t) - {k}"
  by (force simp: tkeys_def tdel_def)

lemma tget_None_iff: "tget t k = None \<longleftrightarrow> k \<notin> set (tkeys t)"
  by (simp add: tget_def tkeys_def map_of_eq_None_iff)

lemma tget_Some_key: "tget t k = Some v \<Longrightarrow> k \<in> set (tkeys t)"
  by (metis option.distinct(1) tget_None_iff)

lemma tget_Some_mem: "tget t k = Some v \<Longrightarrow> (k, v) \<in> set t"
  by (simp add: tget_def map_of_SomeD)

lemma tget_iff_mem: "table_ok t \<Longrightarrow> tget t k = Some v \<longleftrightarrow> (k, v) \<in> set t"
  by (simp add: tget_def table_ok_def tkeys_def)

lemma table_ok_Nil [simp]: "table_ok []"
  by (simp add: table_ok_def tkeys_def)

lemma table_ok_put [simp, intro]: "table_ok t \<Longrightarrow> table_ok (tput k v t)"
  by (auto simp: table_ok_def tkeys_put)

lemma distinct_tkeys_filter: "distinct (tkeys t) \<Longrightarrow> distinct (tkeys (filter P t))"
  by (induction t) (auto simp: tkeys_def)

lemma table_ok_filter: "table_ok t \<Longrightarrow> table_ok (filter P t)"
  by (simp add: table_ok_def distinct_tkeys_filter)

lemma table_ok_del [simp, intro]: "table_ok t \<Longrightarrow> table_ok (tdel k t)"
  unfolding tdel_def by (rule table_ok_filter)

lemma length_tput: "length (tput k v t) = (if k \<in> set (tkeys t) then length t else Suc (length t))"
  by (induction k v t rule: tput.induct) (auto simp: tkeys_def)

lemma length_tdel_le: "length (tdel k t) \<le> length t"
  by (simp add: tdel_def)

lemma length_tdel_less: "k \<in> set (tkeys t) \<Longrightarrow> length (tdel k t) < length t"
proof -
  assume "k \<in> set (tkeys t)"
  then obtain v where "(k, v) \<in> set t" by (auto simp: tkeys_def)
  then show ?thesis unfolding tdel_def by (rule length_filter_less) simp
qed

lemma set_tput_subset: "set (tput k v t) \<subseteq> insert (k, v) (set t)"
  by (induction k v t rule: tput.induct) auto

lemma set_tdel: "set (tdel k t) = {p \<in> set t. fst p \<noteq> k}"
  by (auto simp: tdel_def)

lemma tget_filter:
  "table_ok t \<Longrightarrow> tget (filter (\<lambda>(_, v). P v) t) n = (case tget t n of None \<Rightarrow> None | Some v \<Rightarrow> if P v then Some v else None)"
proof (induction t)
  case (Cons p t)
  obtain k v where p: "p = (k, v)" by fastforce
  from Cons.prems p have "table_ok t" "k \<notin> set (tkeys t)" by (auto simp: table_ok_def tkeys_def)
  moreover from this have "tget t k = None" by (simp add: tget_None_iff)
  ultimately show ?case using Cons.IH p by auto
qed simp

lemma tget_map_value: "tget (map (\<lambda>(i, x). (i, f x)) t) i = map_option f (tget t i)"
  by (induction t) auto

lemma table_ok_map_value: "table_ok (map (\<lambda>(i, x). (i, f x)) t) = table_ok t"
  by (simp add: table_ok_def tkeys_def case_prod_beta comp_def)

section \<open>Transition systems\<close>

text \<open>
  Every stateful component is a machine: an initial state and a step relation. The
  locale states once that an invariant of the steps holds in every reachable state;
  each component interprets it on its own steps.
\<close>

inductive reach :: "('s \<Rightarrow> 's \<Rightarrow> bool) \<Rightarrow> 's \<Rightarrow> 's \<Rightarrow> bool" for step :: "'s \<Rightarrow> 's \<Rightarrow> bool" where
  reach_refl: "reach step s s"
| reach_step: "reach step s t \<Longrightarrow> step t u \<Longrightarrow> reach step s u"

lemma reach_trans: "reach step t u \<Longrightarrow> reach step s t \<Longrightarrow> reach step s u"
  by (induction rule: reach.induct) (auto intro: reach.intros)

locale machine =
  fixes start :: 's
    and step :: "'s \<Rightarrow> 's \<Rightarrow> bool"
    and inv :: "'s \<Rightarrow> bool"
  assumes inv_start: "inv start"
    and inv_step: "inv s \<Longrightarrow> step s t \<Longrightarrow> inv t"
begin

lemma inv_reach_from: "reach step s t \<Longrightarrow> inv s \<Longrightarrow> inv t"
  by (induction rule: reach.induct) (auto dest: inv_step)

lemma inv_reachable: "reach step start t \<Longrightarrow> inv t"
  using inv_reach_from inv_start by blast

end

text \<open>A machine whose steps also respect a preorder between the states they join.\<close>

locale monotone_machine = machine +
  fixes ord :: "'s \<Rightarrow> 's \<Rightarrow> bool"
  assumes ord_refl: "ord s s"
    and ord_trans: "ord s t \<Longrightarrow> ord t u \<Longrightarrow> ord s u"
    and ord_step: "inv s \<Longrightarrow> step s t \<Longrightarrow> ord s t"
begin

lemma ord_reach: "reach step s t \<Longrightarrow> inv s \<Longrightarrow> ord s t"
proof (induction rule: reach.induct)
  case (reach_refl s)
  show ?case by (rule ord_refl)
next
  case (reach_step s t u)
  then have "inv t" using inv_reach_from by blast
  with reach_step show ?case using ord_step ord_trans by blast
qed

end

section \<open>Lists\<close>

lemma takeWhile_dropWhile_len: "length (dropWhile P xs) \<le> length xs"
  by (rule length_dropWhile_le)

lemma drop_pos_less: "xs \<noteq> [] \<Longrightarrow> 0 < n \<Longrightarrow> length (drop n xs) < length xs"
  by (cases xs) auto

definition contains :: "'a list \<Rightarrow> 'a \<Rightarrow> bool" where
  "contains xs x = (\<exists>y\<in>set xs. y = x)"

lemma contains_iff [simp]: "contains xs x \<longleftrightarrow> x \<in> set xs"
  by (auto simp: contains_def)

end
