(* ===== verification/Go_Text.thy ===== *)
theory Go_Text
  imports Prelude
begin

text \<open>
  The part of Go's string library the sources use. A Go string is a sequence of bytes,
  here a \<open>char list\<close>; \<open>runes\<close> is what \<^verbatim>\<open>for _, r := range s\<close> iterates over, with an
  invalid byte read as U+FFFD of width one. Case mapping above ASCII is Unicode data the
  repository does not hold: \<open>to_lower\<close> takes it as the argument \<open>uni\<close>.
\<close>

section \<open>Bytes and runes\<close>

type_synonym rune = nat

definition byte :: "char \<Rightarrow> nat" where
  "byte c = of_char c"

definition rune_error :: rune where
  "rune_error = 0xFFFD"

definition is_cont :: "nat \<Rightarrow> bool" where
  "is_cont b = (0x80 \<le> b \<and> b \<le> 0xBF)"

definition second3_ok :: "nat \<Rightarrow> nat \<Rightarrow> bool" where
  "second3_ok b0 b1 = ((if b0 = 0xE0 then 0xA0 else 0x80) \<le> b1 \<and> b1 \<le> (if b0 = 0xED then 0x9F else 0xBF))"

definition second4_ok :: "nat \<Rightarrow> nat \<Rightarrow> bool" where
  "second4_ok b0 b1 = ((if b0 = 0xF0 then 0x90 else 0x80) \<le> b1 \<and> b1 \<le> (if b0 = 0xF4 then 0x8F else 0xBF))"

text \<open>The rune at the front of a byte sequence and the bytes it takes (\<^verbatim>\<open>utf8.DecodeRune\<close>).\<close>

fun decode_rune :: "nat list \<Rightarrow> rune \<times> nat" where
  "decode_rune [] = (rune_error, 0)"
| "decode_rune (b0 # bs) =
    (if b0 < 0x80 then (b0, 1)
     else if 0xC2 \<le> b0 \<and> b0 \<le> 0xDF then
       (case bs of
          b1 # _ \<Rightarrow> if is_cont b1 then ((b0 - 0xC0) * 64 + (b1 - 0x80), 2) else (rune_error, 1)
        | [] \<Rightarrow> (rune_error, 1))
     else if 0xE0 \<le> b0 \<and> b0 \<le> 0xEF then
       (case bs of
          b1 # b2 # _ \<Rightarrow>
            if second3_ok b0 b1 \<and> is_cont b2
            then ((b0 - 0xE0) * 4096 + (b1 - 0x80) * 64 + (b2 - 0x80), 3) else (rune_error, 1)
        | _ \<Rightarrow> (rune_error, 1))
     else if 0xF0 \<le> b0 \<and> b0 \<le> 0xF4 then
       (case bs of
          b1 # b2 # b3 # _ \<Rightarrow>
            if second4_ok b0 b1 \<and> is_cont b2 \<and> is_cont b3
            then ((b0 - 0xF0) * 262144 + (b1 - 0x80) * 4096 + (b2 - 0x80) * 64 + (b3 - 0x80), 4)
            else (rune_error, 1)
        | _ \<Rightarrow> (rune_error, 1))
     else (rune_error, 1))"

lemma decode_rune_size: "bs \<noteq> [] \<Longrightarrow> 0 < snd (decode_rune bs)"
  by (cases bs) (auto split: list.splits)

function runes_of :: "nat list \<Rightarrow> rune list" where
  "runes_of bs =
    (if bs = [] then []
     else fst (decode_rune bs) # runes_of (drop (snd (decode_rune bs)) bs))"
  by pat_completeness auto
termination
  by (relation "measure length") (use decode_rune_size in \<open>auto intro: drop_pos_less\<close>)

declare runes_of.simps [simp del]

definition runes :: "string \<Rightarrow> rune list" where
  "runes s = runes_of (map byte s)"

definition rune_count :: "string \<Rightarrow> nat" where
  "rune_count s = length (runes s)"

lemma runes_of_Nil [simp]: "runes_of [] = []"
  by (simp add: runes_of.simps)

lemma runes_Nil [simp]: "runes [] = []"
  by (simp add: runes_def)

lemma runes_of_ascii: "b < 0x80 \<Longrightarrow> runes_of (b # bs) = b # runes_of bs"
  by (simp add: runes_of.simps [of "b # bs"])

lemma runes_ascii_Cons: "byte c < 0x80 \<Longrightarrow> runes (c # s) = byte c # runes s"
  by (simp add: runes_def runes_of_ascii)

definition ascii :: "string \<Rightarrow> bool" where
  "ascii s = list_all (\<lambda>c. byte c < 0x80) s"

lemma ascii_Cons [simp]: "ascii (c # s) \<longleftrightarrow> byte c < 0x80 \<and> ascii s"
  and ascii_Nil [simp]: "ascii []"
  and ascii_append [simp]: "ascii (s @ t) \<longleftrightarrow> ascii s \<and> ascii t"
  by (auto simp: ascii_def)

lemma runes_ascii: "ascii s \<Longrightarrow> runes s = map byte s"
  by (induction s) (auto simp: runes_ascii_Cons)

lemma rune_count_ascii: "ascii s \<Longrightarrow> rune_count s = length s"
  by (simp add: rune_count_def runes_ascii)

lemma runes_of_length: "length (runes_of bs) \<le> length bs"
proof (induction bs rule: runes_of.induct)
  case (1 bs)
  show ?case
  proof (cases "bs = []")
    case False
    then have "length (drop (snd (decode_rune bs)) bs) < length bs"
      using decode_rune_size drop_pos_less by blast
    with "1" False show ?thesis by (simp add: runes_of.simps [of bs])
  qed simp
qed

lemma rune_count_le: "rune_count s \<le> length s"
  unfolding rune_count_def runes_def using runes_of_length [of "map byte s"] by simp

text \<open>\<^verbatim>\<open>utf8.AppendRune\<close>: a surrogate or a value above 10FFFF is written as U+FFFD.\<close>

definition encode_rune :: "rune \<Rightarrow> string" where
  "encode_rune r0 =
    (let r = (if r0 > 0x10FFFF \<or> (0xD800 \<le> r0 \<and> r0 \<le> 0xDFFF) then rune_error else r0) in
     map char_of
      (if r < 0x80 then [r]
       else if r < 0x800 then [0xC0 + r div 64, 0x80 + r mod 64]
       else if r < 0x10000 then [0xE0 + r div 4096, 0x80 + (r div 64) mod 64, 0x80 + r mod 64]
       else [0xF0 + r div 262144, 0x80 + (r div 4096) mod 64, 0x80 + (r div 64) mod 64, 0x80 + r mod 64]))"

section \<open>Character classes\<close>

text \<open>\<^verbatim>\<open>unicode.IsControl\<close> is exactly the category Cc: C0, DEL and C1.\<close>

definition is_control :: "rune \<Rightarrow> bool" where
  "is_control r = (r < 0x20 \<or> (0x7F \<le> r \<and> r < 0xA0))"

definition has_control :: "string \<Rightarrow> bool" where
  "has_control s = list_ex is_control (runes s)"

definition is_lower_c :: "rune \<Rightarrow> bool" where
  "is_lower_c r = (97 \<le> r \<and> r \<le> 122)"

definition is_upper_c :: "rune \<Rightarrow> bool" where
  "is_upper_c r = (65 \<le> r \<and> r \<le> 90)"

definition is_digit_c :: "rune \<Rightarrow> bool" where
  "is_digit_c r = (48 \<le> r \<and> r \<le> 57)"

section \<open>Prefixes, cutting and splitting\<close>

definition has_prefix :: "'a list \<Rightarrow> 'a list \<Rightarrow> bool" where
  "has_prefix w s = (take (length w) s = w)"

definition has_suffix :: "'a list \<Rightarrow> 'a list \<Rightarrow> bool" where
  "has_suffix w s = has_prefix (rev w) (rev s)"

lemma has_prefix_iff: "has_prefix w s \<longleftrightarrow> (\<exists>t. s = w @ t)"
  unfolding has_prefix_def by (metis append_eq_conv_conj append_take_drop_id)

lemma has_prefix_append [simp]: "has_prefix w (w @ s)"
  by (auto simp: has_prefix_iff)

lemma has_prefix_take: "has_prefix w (take n s) \<Longrightarrow> has_prefix w s"
  unfolding has_prefix_iff by (metis append.assoc append_take_drop_id)

definition trim_prefix :: "'a list \<Rightarrow> 'a list \<Rightarrow> 'a list" where
  "trim_prefix w s = (if has_prefix w s then drop (length w) s else s)"

definition cut_prefix :: "'a list \<Rightarrow> 'a list \<Rightarrow> 'a list option" where
  "cut_prefix w s = (if has_prefix w s then Some (drop (length w) s) else None)"

lemma cut_prefix_Some: "cut_prefix w s = Some t \<longleftrightarrow> s = w @ t"
  by (auto simp: cut_prefix_def has_prefix_iff)

text \<open>\<^verbatim>\<open>strings.Cut\<close> on a one-byte separator.\<close>

fun cut :: "'a \<Rightarrow> 'a list \<Rightarrow> ('a list \<times> 'a list) option" where
  "cut c [] = None"
| "cut c (x # xs) =
    (if x = c then Some ([], xs)
     else (case cut c xs of None \<Rightarrow> None | Some (a, b) \<Rightarrow> Some (x # a, b)))"

lemma cut_Some: "cut c s = Some (a, b) \<longleftrightarrow> s = a @ c # b \<and> c \<notin> set a"
proof (induction s arbitrary: a)
  case (Cons x xs)
  show ?case
  proof (cases "x = c")
    case True
    then show ?thesis by (cases a) auto
  next
    case False
    show ?thesis
    proof (cases a)
      case Nil
      with False show ?thesis by (auto split: option.splits)
    next
      case (Cons y ys)
      have "cut c (x # xs) = Some (a, b) \<longleftrightarrow> y = x \<and> cut c xs = Some (ys, b)"
        using False Cons by (auto split: option.splits)
      with Cons.IH [of ys] False Cons show ?thesis by auto
    qed
  qed
qed simp

lemma cut_None: "cut c s = None \<longleftrightarrow> c \<notin> set s"
  by (induction s) (auto split: option.splits)

text \<open>\<^verbatim>\<open>strings.Split\<close> on a one-byte separator: never empty.\<close>

fun split_on :: "'a \<Rightarrow> 'a list \<Rightarrow> 'a list list" where
  "split_on c [] = [ [] ]"
| "split_on c (x # xs) =
    (if x = c then [] # split_on c xs
     else (case split_on c xs of [] \<Rightarrow> [ [x] ] | p # ps \<Rightarrow> (x # p) # ps))"

lemma split_on_nonempty [simp]: "split_on c s \<noteq> []"
  by (cases s) (auto split: list.splits)

lemma split_on_notin: "c \<notin> set s \<Longrightarrow> split_on c s = [s]"
  by (induction s) auto

lemma split_on_append: "c \<notin> set a \<Longrightarrow> split_on c (a @ c # b) = a # split_on c b"
  by (induction a) auto

lemma split_on_no_sep: "p \<in> set (split_on c s) \<Longrightarrow> c \<notin> set p"
proof (induction s arbitrary: p)
  case (Cons x xs)
  then show ?case by (cases "split_on c xs") (auto split: if_splits)
qed simp

fun join_with :: "'a list \<Rightarrow> 'a list list \<Rightarrow> 'a list" where
  "join_with sep [] = []"
| "join_with sep [p] = p"
| "join_with sep (p # ps) = p @ sep @ join_with sep ps"

lemma join_with_Cons: "ps \<noteq> [] \<Longrightarrow> join_with sep (p # ps) = p @ sep @ join_with sep ps"
  by (cases ps) auto

lemma join_split: "join_with [c] (split_on c s) = s"
proof (induction s)
  case (Cons x xs)
  show ?case
  proof (cases "split_on c xs")
    case Nil
    then show ?thesis by (metis split_on_nonempty)
  next
    case (Cons p ps)
    with Cons.IH show ?thesis by (cases ps) auto
  qed
qed simp

lemma split_join:
  "ps \<noteq> [] \<Longrightarrow> \<forall>p\<in>set ps. c \<notin> set p \<Longrightarrow> split_on c (join_with [c] ps) = ps"
proof (induction ps)
  case (Cons p ps)
  then show ?case
    by (cases "ps = []") (simp_all add: split_on_notin join_with_Cons split_on_append)
qed simp

lemma set_join_with: "set (join_with sep ps) \<subseteq> set sep \<union> \<Union> (set ` set ps)"
proof (induction ps)
  case (Cons p ps)
  then show ?case by (cases "ps = []") (auto simp: join_with_Cons)
qed simp

fun contains_sub :: "'a list \<Rightarrow> 'a list \<Rightarrow> bool" where
  "contains_sub w [] = (w = [])"
| "contains_sub w (x # xs) = (has_prefix w (x # xs) \<or> contains_sub w xs)"

lemma contains_sub_single: "contains_sub [c] s \<longleftrightarrow> c \<in> set s"
  by (induction s) (auto simp: has_prefix_iff)

section \<open>Trimming\<close>

text \<open>Removes, while there is one, a leading member of \<open>ws\<close>.\<close>

function trim_front :: "'a list list \<Rightarrow> 'a list \<Rightarrow> 'a list" where
  "trim_front ws s =
    (case List.find (\<lambda>w. w \<noteq> [] \<and> has_prefix w s) ws of
       None \<Rightarrow> s
     | Some w \<Rightarrow> trim_front ws (drop (length w) s))"
  by pat_completeness auto
termination
proof (relation "measure (\<lambda>(ws, s). length s)")
  fix ws :: "'a list list" and s w :: "'a list"
  assume "List.find (\<lambda>w. w \<noteq> [] \<and> has_prefix w s) ws = Some w"
  then have "w \<noteq> []" "has_prefix w s" by (auto simp: find_Some_iff)
  then show "((ws, drop (length w) s), ws, s) \<in> measure (\<lambda>(ws, s). length s)"
    by (auto simp: has_prefix_iff)
qed simp

declare trim_front.simps [simp del]

definition trim_back :: "'a list list \<Rightarrow> 'a list \<Rightarrow> 'a list" where
  "trim_back ws s = rev (trim_front (map rev ws) (rev s))"

lemma trim_front_none:
  "w \<in> set ws \<Longrightarrow> w \<noteq> [] \<Longrightarrow> \<not> has_prefix w (trim_front ws s)"
proof (induction ws s rule: trim_front.induct)
  case (1 ws s)
  show ?case
  proof (cases "List.find (\<lambda>w. w \<noteq> [] \<and> has_prefix w s) ws")
    case None
    then have "trim_front ws s = s" by (simp add: trim_front.simps [of ws s])
    with None "1.prems" show ?thesis by (auto simp: find_None_iff)
  next
    case (Some v)
    with "1" show ?thesis by (simp add: trim_front.simps [of ws s])
  qed
qed

lemma trim_front_suffix: "\<exists>p. s = p @ trim_front ws s"
proof (induction ws s rule: trim_front.induct)
  case (1 ws s)
  show ?case
  proof (cases "List.find (\<lambda>w. w \<noteq> [] \<and> has_prefix w s) ws")
    case None
    then show ?thesis by (simp add: trim_front.simps [of ws s])
  next
    case (Some v)
    then have "has_prefix v s" by (auto simp: find_Some_iff)
    then obtain t where t: "s = v @ t" by (auto simp: has_prefix_iff)
    from "1" [OF Some] obtain p where "drop (length v) s = p @ trim_front ws (drop (length v) s)" by blast
    then have "s = (v @ p) @ trim_front ws (drop (length v) s)"
      using t by auto
    moreover from Some have "trim_front ws s = trim_front ws (drop (length v) s)"
      by (simp add: trim_front.simps [of ws s])
    ultimately show ?thesis by metis
  qed
qed

lemma trim_front_id: "(\<And>w. w \<in> set ws \<Longrightarrow> w \<noteq> [] \<Longrightarrow> \<not> has_prefix w s) \<Longrightarrow> trim_front ws s = s"
  by (auto simp: trim_front.simps [of ws s] find_Some_iff split: option.splits)

lemma trim_back_none:
  "w \<in> set ws \<Longrightarrow> w \<noteq> [] \<Longrightarrow> \<not> has_suffix w (trim_back ws s)"
  using trim_front_none [of "rev w" "map rev ws" "rev s"] by (auto simp: has_suffix_def trim_back_def)

lemma trim_back_prefix: "\<exists>q. s = trim_back ws s @ q"
proof -
  from trim_front_suffix [of "rev s" "map rev ws"]
  obtain p where "rev s = p @ trim_front (map rev ws) (rev s)" by blast
  then have "s = rev (trim_front (map rev ws) (rev s)) @ rev p"
    by (metis rev_append rev_rev_ident)
  then show ?thesis by (auto simp: trim_back_def)
qed

lemma trim_back_id: "(\<And>w. w \<in> set ws \<Longrightarrow> w \<noteq> [] \<Longrightarrow> \<not> has_suffix w s) \<Longrightarrow> trim_back ws s = s"
  unfolding trim_back_def by (subst trim_front_id) (auto simp: has_suffix_def)

text \<open>The UTF-8 encodings of the white space of \<^verbatim>\<open>unicode.IsSpace\<close>.\<close>

definition space_seqs :: "string list" where
  "space_seqs =
    [ [CHR 0x09], [CHR 0x0A], [CHR 0x0B], [CHR 0x0C], [CHR 0x0D], [CHR 0x20],
      [CHR 0xC2, CHR 0x85], [CHR 0xC2, CHR 0xA0], [CHR 0xE1, CHR 0x9A, CHR 0x80],
      [CHR 0xE2, CHR 0x80, CHR 0x80], [CHR 0xE2, CHR 0x80, CHR 0x81], [CHR 0xE2, CHR 0x80, CHR 0x82],
      [CHR 0xE2, CHR 0x80, CHR 0x83], [CHR 0xE2, CHR 0x80, CHR 0x84], [CHR 0xE2, CHR 0x80, CHR 0x85],
      [CHR 0xE2, CHR 0x80, CHR 0x86], [CHR 0xE2, CHR 0x80, CHR 0x87], [CHR 0xE2, CHR 0x80, CHR 0x88],
      [CHR 0xE2, CHR 0x80, CHR 0x89], [CHR 0xE2, CHR 0x80, CHR 0x8A], [CHR 0xE2, CHR 0x80, CHR 0xA8],
      [CHR 0xE2, CHR 0x80, CHR 0xA9], [CHR 0xE2, CHR 0x80, CHR 0xAF], [CHR 0xE2, CHR 0x81, CHR 0x9F],
      [CHR 0xE3, CHR 0x80, CHR 0x80] ]"

definition trim_space :: "string \<Rightarrow> string" where
  "trim_space s = trim_back space_seqs (trim_front space_seqs s)"

definition trim_chars :: "char list \<Rightarrow> string \<Rightarrow> string" where
  "trim_chars cs s = trim_back (map (\<lambda>c. [c]) cs) (trim_front (map (\<lambda>c. [c]) cs) s)"

definition trim_left_chars :: "char list \<Rightarrow> string \<Rightarrow> string" where
  "trim_left_chars cs s = trim_front (map (\<lambda>c. [c]) cs) s"

lemma set_trim_front: "set (trim_front ws s) \<subseteq> set s"
  using trim_front_suffix [of s ws] by (metis set_append sup_ge2)

lemma set_trim_back: "set (trim_back ws s) \<subseteq> set s"
  using trim_back_prefix [of s ws] by (metis set_append sup_ge1)

lemma length_trim_front: "length (trim_front ws s) \<le> length s"
  using trim_front_suffix [of s ws] by (metis length_append le_add2)

lemma length_trim_back: "length (trim_back ws s) \<le> length s"
  using trim_back_prefix [of s ws] by (metis length_append le_add1)

lemma set_trim_chars: "set (trim_chars cs s) \<subseteq> set s"
  unfolding trim_chars_def using set_trim_front set_trim_back by (metis order_trans)

lemma trim_left_skip: "c \<in> set cs \<Longrightarrow> trim_left_chars cs (c # s) = trim_left_chars cs s"
proof -
  assume c: "c \<in> set cs"
  have "List.find (\<lambda>w. w \<noteq> [] \<and> has_prefix w (c # s)) (map (\<lambda>c. [c]) cs) = Some [c]"
    using c by (induction cs) (auto simp: has_prefix_def)
  then show ?thesis unfolding trim_left_chars_def by (subst trim_front.simps) simp
qed

lemma trim_left_stop: "c \<notin> set cs \<Longrightarrow> trim_left_chars cs (c # s) = c # s"
  unfolding trim_left_chars_def by (rule trim_front_id) (auto simp: has_prefix_def)

lemma trim_left_Nil [simp]: "trim_left_chars cs [] = []"
  unfolding trim_left_chars_def by (rule trim_front_id) (auto simp: has_prefix_def)

lemma length_trim_chars: "length (trim_chars cs s) \<le> length s"
  unfolding trim_chars_def using length_trim_front length_trim_back by (metis order_trans)

lemma trim_chars_ends:
  assumes "trim_chars cs s \<noteq> []"
  shows "hd (trim_chars cs s) \<notin> set cs \<and> last (trim_chars cs s) \<notin> set cs"
proof -
  let ?ws = "map (\<lambda>c. [c]) cs" and ?f = "trim_front (map (\<lambda>c. [c]) cs) s"
  obtain q where q: "?f = trim_chars cs s @ q"
    using trim_back_prefix [of ?f ?ws] unfolding trim_chars_def by blast
  have "\<not> has_prefix [c] ?f" if "c \<in> set cs" for c
    using that by (intro trim_front_none) auto
  then have "hd ?f \<notin> set cs" using q assms
    by (metis append_is_Nil_conv has_prefix_iff list.exhaust_sel append_Cons append_Nil)
  then have h: "hd (trim_chars cs s) \<notin> set cs" using q assms by simp
  have "\<not> has_suffix [c] (trim_chars cs s)" if "c \<in> set cs" for c
    unfolding trim_chars_def using that by (intro trim_back_none) auto
  moreover have "has_suffix [last (trim_chars cs s)] (trim_chars cs s)"
    using assms by (metis append_butlast_last_id has_prefix_iff has_suffix_def rev.simps(2) rev_append rev_rev_ident
        append_Nil rev.simps(1) append_Cons)
  ultimately show ?thesis using h by blast
qed

text \<open>Equations that evaluate trimming on a literal.\<close>

lemmas trim_eval =
  trim_space_def trim_chars_def trim_left_chars_def trim_back_def trim_front.simps space_seqs_def has_prefix_def

text \<open>No white space at either end.\<close>

definition trimmed :: "string \<Rightarrow> bool" where
  "trimmed s = (\<forall>w\<in>set space_seqs. \<not> has_prefix w s \<and> \<not> has_suffix w s)"

lemma space_seqs_nonempty: "w \<in> set space_seqs \<Longrightarrow> w \<noteq> []"
  by (auto simp: space_seqs_def)

lemma trimmed_trim_space: "trimmed (trim_space s)"
proof -
  have "\<not> has_suffix w (trim_space s)" if "w \<in> set space_seqs" for w
    unfolding trim_space_def using that by (intro trim_back_none space_seqs_nonempty)
  moreover have "\<not> has_prefix w (trim_space s)" if w: "w \<in> set space_seqs" for w
  proof
    assume "has_prefix w (trim_space s)"
    moreover obtain q where "trim_front space_seqs s = trim_space s @ q"
      using trim_back_prefix unfolding trim_space_def by blast
    ultimately have "has_prefix w (trim_front space_seqs s)"
      by (auto simp: has_prefix_iff)
    with trim_front_none [OF w space_seqs_nonempty [OF w]] show False by blast
  qed
  ultimately show ?thesis by (auto simp: trimmed_def)
qed

lemma trim_space_id: "trimmed s \<Longrightarrow> trim_space s = s"
  unfolding trim_space_def trimmed_def by (simp add: trim_front_id trim_back_id)

lemma trim_space_eq_iff: "trim_space s = s \<longleftrightarrow> trimmed s"
  using trim_space_id trimmed_trim_space by metis

lemma trim_space_idem [simp]: "trim_space (trim_space s) = trim_space s"
  by (simp add: trim_space_id trimmed_trim_space)

text \<open>A string of graphic ASCII characters has nothing to trim.\<close>

lemma space_seqs_not_graphic: "w \<in> set space_seqs \<Longrightarrow> c \<in> set w \<Longrightarrow> \<not> (32 < byte c \<and> byte c < 127)"
  by (auto simp: space_seqs_def byte_def)

lemma trimmed_graphic:
  assumes "\<forall>c\<in>set s. 32 < byte c \<and> byte c < 127"
  shows "trimmed s"
  unfolding trimmed_def
proof
  fix w :: string assume w: "w \<in> set space_seqs"
  obtain c where c: "c \<in> set w" using space_seqs_nonempty [OF w] by (cases w) auto
  with w have "c \<notin> set s" using assms space_seqs_not_graphic by blast
  with c show "\<not> has_prefix w s \<and> \<not> has_suffix w s"
    unfolding has_suffix_def has_prefix_iff
    by (metis Un_iff set_append set_rev rev_rev_ident)
qed

section \<open>Case\<close>

definition lower_rune :: "(rune \<Rightarrow> rune) \<Rightarrow> rune \<Rightarrow> rune" where
  "lower_rune uni r = (if r < 0x80 then (if is_upper_c r then r + 32 else r) else uni r)"

definition to_lower :: "(rune \<Rightarrow> rune) \<Rightarrow> string \<Rightarrow> string" where
  "to_lower uni s = concat (map (\<lambda>r. encode_rune (lower_rune uni r)) (runes s))"

definition lower_char :: "char \<Rightarrow> char" where
  "lower_char c = (if is_upper_c (byte c) then char_of (byte c + 32) else c)"

lemma encode_rune_ascii: "r < 0x80 \<Longrightarrow> encode_rune r = [char_of r]"
  by (simp add: encode_rune_def)

lemma to_lower_ascii: "ascii s \<Longrightarrow> to_lower uni s = map lower_char s"
proof (induction s)
  case (Cons c s)
  then have "encode_rune (lower_rune uni (byte c)) = [lower_char c]"
    by (auto simp: lower_rune_def lower_char_def encode_rune_ascii is_upper_c_def byte_def)
  with Cons show ?case by (simp add: to_lower_def runes_ascii_Cons)
qed (simp add: to_lower_def)

text \<open>Equations that evaluate rune counts and lower case on an ASCII literal.\<close>

lemmas ascii_eval =
  runes_ascii rune_count_ascii to_lower_ascii has_control_def is_control_def
  byte_def lower_char_def is_upper_c_def char_of_def bit_0 Let_def

text \<open>
  \<^verbatim>\<open>strings.EqualFold\<close> against an ASCII string none of whose letters has a non-ASCII
  folding (the letters k and s do).
\<close>

definition equal_fold :: "string \<Rightarrow> string \<Rightarrow> bool" where
  "equal_fold s t = (map lower_char s = map lower_char t)"

text \<open>Equality under the \<^verbatim>\<open>NOCASE\<close> collation of SQLite, which folds ASCII letters only.\<close>

definition same_name :: "string \<Rightarrow> string \<Rightarrow> bool" where
  "same_name a b = (map lower_char a = map lower_char b)"

section \<open>Numbers\<close>

text \<open>Two's complement wrap-around of \<^verbatim>\<open>int64\<close> and \<^verbatim>\<open>time.Duration\<close>.\<close>

definition wrap64 :: "int \<Rightarrow> int" where
  "wrap64 x = (x + 2 ^ 63) mod 2 ^ 64 - 2 ^ 63"

lemma wrap64_id: "- (2 ^ 63) \<le> x \<Longrightarrow> x < 2 ^ 63 \<Longrightarrow> wrap64 x = x"
  by (simp add: wrap64_def)

lemma wrap64_range: "- (2 ^ 63) \<le> wrap64 x \<and> wrap64 x < 2 ^ 63"
  by (simp add: wrap64_def)

definition digit_char :: "nat \<Rightarrow> char" where
  "digit_char n = char_of (48 + n)"

fun nat_str :: "nat \<Rightarrow> string" where
  "nat_str n = (if n < 10 then [digit_char n] else nat_str (n div 10) @ [digit_char (n mod 10)])"

declare nat_str.simps [simp del]

definition itoa :: "int \<Rightarrow> string" where
  "itoa i = (if i < 0 then CHR ''-'' # nat_str (nat (- i)) else nat_str (nat i))"

definition digit_val :: "char \<Rightarrow> nat option" where
  "digit_val c = (if is_digit_c (byte c) then Some (byte c - 48) else None)"

fun digits_val :: "nat \<Rightarrow> string \<Rightarrow> nat option" where
  "digits_val acc [] = Some acc"
| "digits_val acc (c # cs) =
    (case digit_val c of None \<Rightarrow> None | Some d \<Rightarrow> digits_val (10 * acc + d) cs)"

text \<open>\<^verbatim>\<open>strconv.ParseUint(s, 10, bits)\<close> and \<^verbatim>\<open>ParseInt(s, 10, 64)\<close> (also \<^verbatim>\<open>Atoi\<close>).\<close>

definition parse_uint :: "nat \<Rightarrow> string \<Rightarrow> nat option" where
  "parse_uint bits s =
    (if s = [] then None
     else case digits_val 0 s of
       None \<Rightarrow> None
     | Some n \<Rightarrow> if n < 2 ^ bits then Some n else None)"

definition parse_int64 :: "string \<Rightarrow> int option" where
  "parse_int64 s =
    (let (neg, d) = (case s of [] \<Rightarrow> (False, [])
                     | c # cs \<Rightarrow> if c = CHR ''-'' then (True, cs)
                                 else if c = CHR ''+'' then (False, cs) else (False, s))
     in if d = [] then None
        else case digits_val 0 d of
          None \<Rightarrow> None
        | Some n \<Rightarrow>
            if neg then (if n \<le> 2 ^ 63 then Some (- int n) else None)
            else (if n < 2 ^ 63 then Some (int n) else None))"

lemma byte_digit_char: "n < 10 \<Longrightarrow> byte (digit_char n) = 48 + n"
  by (simp add: byte_def digit_char_def)

lemma digit_val_char: "n < 10 \<Longrightarrow> digit_val (digit_char n) = Some n"
  by (simp add: digit_val_def byte_digit_char is_digit_c_def)

lemma digits_val_append:
  "digits_val acc (s @ t) = (case digits_val acc s of None \<Rightarrow> None | Some n \<Rightarrow> digits_val n t)"
  by (induction s arbitrary: acc) (auto split: option.splits)

lemma nat_str_nonempty [simp]: "nat_str n \<noteq> []"
  by (simp add: nat_str.simps [of n])

lemma digits_val_nat_str: "digits_val 0 (nat_str n) = Some n"
proof (induction n rule: nat_str.induct)
  case (1 n)
  show ?case
  proof (cases "n < 10")
    case True
    then show ?thesis by (simp add: nat_str.simps [of n] digit_val_char)
  next
    case False
    with "1" show ?thesis
      by (simp add: nat_str.simps [of n] digits_val_append digit_val_char)
  qed
qed

lemma parse_uint_nat_str: "n < 2 ^ b \<Longrightarrow> parse_uint b (nat_str n) = Some n"
  by (simp add: parse_uint_def digits_val_nat_str)

lemma nat_str_inj: "nat_str a = nat_str b \<Longrightarrow> a = b"
  by (metis digits_val_nat_str option.inject)

lemma nat_str_digits: "c \<in> set (nat_str n) \<Longrightarrow> is_digit_c (byte c)"
proof (induction n rule: nat_str.induct)
  case (1 n)
  then show ?case
    by (auto simp: nat_str.simps [of n] byte_digit_char is_digit_c_def split: if_splits)
qed

lemma nat_str_hd: "0 < n \<Longrightarrow> hd (nat_str n) \<noteq> CHR ''0''"
proof (induction n rule: nat_str.induct)
  case (1 n)
  show ?case
  proof (cases "n < 10")
    case True
    then have "byte (hd (nat_str n)) \<noteq> byte (CHR ''0'')"
      using "1.prems" by (simp add: nat_str.simps [of n] byte_digit_char) (simp add: byte_def)
    then show ?thesis by metis
  next
    case False
    with "1" show ?thesis by (simp add: nat_str.simps [of n])
  qed
qed

lemma nat_str_short: "n < 10 \<Longrightarrow> length (nat_str n) = 1"
  by (simp add: nat_str.simps [of n])

lemma digits_val_Some_digits: "digits_val a s = Some n \<Longrightarrow> list_all (\<lambda>c. is_digit_c (byte c)) s"
  by (induction s arbitrary: a) (auto simp: digit_val_def split: option.splits if_splits)

lemma digits_val_total: "list_all (\<lambda>c. is_digit_c (byte c)) s \<Longrightarrow> \<exists>n. digits_val a s = Some n"
  by (induction s arbitrary: a) (auto simp: digit_val_def)

lemma digit_val_hd: "digit_val c = Some d \<Longrightarrow> d < 10 \<and> digit_char d = c"
  by (auto simp: digit_val_def is_digit_c_def digit_char_def byte_def split: if_splits)

lemma digit_val_zero: "digit_val c = Some 0 \<Longrightarrow> c = CHR ''0''"
  using digit_val_hd [of c 0] by (simp add: digit_char_def char_of_def bit_0)

text \<open>A digit string without a leading zero is how its value is printed.\<close>

lemma nat_str_digits_val:
  assumes "list_all (\<lambda>c. is_digit_c (byte c)) s" "s \<noteq> []" "hd s \<noteq> CHR ''0''"
  shows "\<exists>n. digits_val 0 s = Some n \<and> nat_str n = s \<and> 0 < n"
  using assms
proof (induction s rule: rev_induct)
  case (snoc c s)
  then obtain d where d: "digit_val c = Some d" by (auto simp: digit_val_def)
  have dc: "d < 10" "digit_char d = c" using digit_val_hd [OF d] by auto
  show ?case
  proof (cases "s = []")
    case True
    with snoc.prems d dc show ?thesis using digit_val_zero [of c] by (cases d) (auto simp: nat_str.simps)
  next
    case False
    then obtain n where n: "digits_val 0 s = Some n" "nat_str n = s" "0 < n"
      using snoc by auto
    then have "digits_val 0 (s @ [c]) = Some (10 * n + d)" by (simp add: digits_val_append d)
    moreover have "nat_str (10 * n + d) = nat_str n @ [c]"
      using n(3) dc by (simp add: nat_str.simps [of "10 * n + d"])
    ultimately show ?thesis using n by auto
  qed
qed simp

lemma nat_str_length: "n < 10 ^ k \<Longrightarrow> 0 < k \<Longrightarrow> length (nat_str n) \<le> k"
proof (induction k arbitrary: n)
  case (Suc k)
  show ?case
  proof (cases "n < 10")
    case False
    then have "0 < k" using Suc.prems by (cases k) auto
    moreover have "n div 10 < 10 ^ k" using Suc.prems by (simp add: div_less_iff_less_mult mult.commute)
    ultimately show ?thesis using Suc.IH False by (simp add: nat_str.simps [of n])
  qed (simp add: nat_str_short)
qed simp

lemma nat_str_long: "10 \<le> n \<Longrightarrow> 2 \<le> length (nat_str n)"
  by (simp add: nat_str.simps [of n] Suc_le_eq)

end
