(* ===== verification/Domain_Errors.thy ===== *)
theory Domain_Errors
  imports Go_Text
begin

text \<open>
  The error values of \<^verbatim>\<open>backend/internal/domain/errors.go\<close>. A nil error is \<open>None\<close>; the
  validation error collects one entry per field problem, in the order they are added.
\<close>

record field_error =
  fe_field :: string
  fe_message :: message

datatype error =
    ErrNotFound
  | ValidationError "field_error list"
  | ConflictError string message
  | RejectedError string message
  | OtherError message

definition add_field :: "string \<Rightarrow> message \<Rightarrow> field_error list \<Rightarrow> field_error list" where
  "add_field field m v = v @ [\<lparr>fe_field = field, fe_message = m\<rparr>]"

definition verr :: "field_error list \<Rightarrow> error option" where
  "verr v = (if v = [] then None else Some (ValidationError v))"

definition invalid :: "string \<Rightarrow> message \<Rightarrow> error" where
  "invalid field m = ValidationError (add_field field m [])"

definition conflict :: "string \<Rightarrow> message \<Rightarrow> error" where
  "conflict field m = ConflictError field m"

lemma verr_None [simp]: "verr v = None \<longleftrightarrow> v = []"
  by (simp add: verr_def)

lemma add_field_nonempty [simp]: "add_field f m v \<noteq> []"
  by (simp add: add_field_def)

text \<open>Adding under a condition, as the validators do.\<close>

definition add_if :: "bool \<Rightarrow> string \<Rightarrow> message \<Rightarrow> field_error list \<Rightarrow> field_error list" where
  "add_if b field m v = (if b then add_field field m v else v)"

lemma add_if_empty [simp]: "add_if b f m v = [] \<longleftrightarrow> \<not> b \<and> v = []"
  by (simp add: add_if_def)

end
