(* ===== verification/Domain_Camera.thy ===== *)
theory Domain_Camera
  imports Domain_Errors
begin

text \<open>
  \<^verbatim>\<open>backend/internal/domain/camera.go\<close>: the lifecycle states of a camera and the moves
  between them, the checks of names and tags, the slug of a namespace name and the wait
  before an automatic restart.
\<close>

section \<open>Lifecycle\<close>

text \<open>The Go type is a string: \<open>StateOther\<close> is any string that is not a known state.\<close>

datatype camera_state =
    StateStopped | StateProvisioning | StateStarting | StateRunning
  | StateDegraded | StateRestarting | StateStopping | StateError | StateOther string

fun transitions :: "camera_state \<Rightarrow> camera_state list option" where
  "transitions StateStopped = Some [StateProvisioning]"
| "transitions StateProvisioning = Some [StateStarting, StateError, StateStopping]"
| "transitions StateStarting = Some [StateRunning, StateError, StateStopping]"
| "transitions StateRunning = Some [StateDegraded, StateRestarting, StateStopping, StateError]"
| "transitions StateDegraded = Some [StateRunning, StateStopping, StateError]"
| "transitions StateRestarting = Some [StateStarting, StateStopping, StateError]"
| "transitions StateStopping = Some [StateStopped, StateError]"
| "transitions StateError = Some [StateProvisioning, StateStopping, StateStopped]"
| "transitions (StateOther s) = None"

definition valid_state :: "camera_state \<Rightarrow> bool" where
  "valid_state s = (transitions s \<noteq> None)"

definition can_transition :: "camera_state \<Rightarrow> camera_state \<Rightarrow> bool" where
  "can_transition s n = (case transitions s of None \<Rightarrow> False | Some l \<Rightarrow> contains l n)"

definition active :: "camera_state \<Rightarrow> bool" where
  "active s = (s = StateRunning \<or> s = StateDegraded)"

definition settled :: "camera_state \<Rightarrow> bool" where
  "settled s = (case s of StateStopped \<Rightarrow> True | StateRunning \<Rightarrow> True | StateDegraded \<Rightarrow> True
     | StateError \<Rightarrow> True | _ \<Rightarrow> False)"

datatype desired_state = DesiredRunning | DesiredStopped

lemma active_settled: "active s \<Longrightarrow> settled s"
  by (auto simp: active_def settled_def)

lemma can_transition_valid: "can_transition s n \<Longrightarrow> valid_state s \<and> valid_state n"
  by (cases s) (auto simp: can_transition_def valid_state_def)

text \<open>A walk of the lifecycle: consecutive states are allowed moves.\<close>

fun lifecycle_walk :: "camera_state list \<Rightarrow> bool" where
  "lifecycle_walk (s # t # ps) = (can_transition s t \<and> lifecycle_walk (t # ps))"
| "lifecycle_walk _ = True"

lemma can_transition_active:
  "can_transition s n \<Longrightarrow> active n \<Longrightarrow> s = StateStarting \<or> active s"
  by (cases s) (auto simp: can_transition_def active_def)

lemma walk_needs_starting:
  "lifecycle_walk ps \<Longrightarrow> ps \<noteq> [] \<Longrightarrow> \<not> active (hd ps) \<Longrightarrow> active (last ps) \<Longrightarrow> StateStarting \<in> set ps"
proof (induction ps rule: lifecycle_walk.induct)
  case (1 s t ps)
  then have m: "can_transition s t" and w: "lifecycle_walk (t # ps)" by simp_all
  show ?case
  proof (cases "active t")
    case True
    with m "1.prems" can_transition_active show ?thesis by auto
  next
    case False
    with "1.IH" w "1.prems" show ?thesis by auto
  qed
qed auto

text \<open>The only way for a camera to become active (Running or Degraded) from a state that
  is not is through Starting: every walk of the lifecycle from an inactive state to an
  active one visits Starting, and Running is entered only from Starting or Degraded.
\<close>

theorem active_only_through_starting:
  assumes "lifecycle_walk ps" and "ps \<noteq> []" and "\<not> active (hd ps)" and "active (last ps)"
  shows "StateStarting \<in> set ps \<and> (\<forall>s. can_transition s StateRunning \<longrightarrow> s = StateStarting \<or> s = StateDegraded)"
proof -
  have "s = StateStarting \<or> s = StateDegraded" if "can_transition s StateRunning" for s
    using that by (cases s) (auto simp: can_transition_def)
  with walk_needs_starting [OF assms] show ?thesis by blast
qed

theorem active_only_through_starting_witness:
  "StateStarting \<in> set [StateStopped, StateProvisioning, StateStarting, StateRunning]"
  using active_only_through_starting
    [of "[StateStopped, StateProvisioning, StateStarting, StateRunning]"]
  by (simp add: can_transition_def active_def)

section \<open>Names and tags\<close>

definition MaxCameraNameLength :: nat where "MaxCameraNameLength = 64"

definition validate_camera_name :: "string \<Rightarrow> error option" where
  "validate_camera_name name =
    (let trimmed_name = trim_space name in
     if trimmed_name = [] then Some (invalid ''name'' (msg ''is required''))
     else if trimmed_name \<noteq> name then Some (invalid ''name'' (msg ''must not start or end with spaces''))
     else if rune_count name > MaxCameraNameLength
       then Some (invalid ''name'' (msgf ''must be at most %d characters'' [AInt (int MaxCameraNameLength)]))
     else if has_control name then Some (invalid ''name'' (msg ''must not contain control characters''))
     else None)"

lemma validate_camera_name_ok:
  "validate_camera_name n = None \<longleftrightarrow>
     n \<noteq> [] \<and> trimmed n \<and> rune_count n \<le> MaxCameraNameLength \<and> \<not> has_control n"
  unfolding validate_camera_name_def Let_def trim_space_eq_iff [symmetric] by auto

definition MaxCameraTags :: nat where "MaxCameraTags = 20"
definition MaxTagLength :: nat where "MaxTagLength = 32"

text \<open>
  The loop of \<^verbatim>\<open>NormalizeTags\<close>: \<open>seen\<close> is the map of lower-cased tags, \<open>out\<close> the tags
  kept so far.
\<close>

fun normalize_tags_loop ::
  "(rune \<Rightarrow> rune) \<Rightarrow> string list \<Rightarrow> string list \<Rightarrow> string list \<Rightarrow> error + string list" where
  "normalize_tags_loop uni [] seen out = Inr out"
| "normalize_tags_loop uni (t0 # ts) seen out =
    (let t = trim_space t0 in
     if t = [] \<or> contains seen (to_lower uni t) then normalize_tags_loop uni ts seen out
     else if rune_count t > MaxTagLength
       then Inl (invalid ''tags'' (msgf ''%q is longer than %d characters'' [AStr t, AInt (int MaxTagLength)]))
     else if has_control t \<or> contains_sub '','' t
       then Inl (invalid ''tags'' (msgf ''%q must not contain commas or control characters'' [AStr t]))
     else normalize_tags_loop uni ts (to_lower uni t # seen) (out @ [t]))"

definition normalize_tags :: "(rune \<Rightarrow> rune) \<Rightarrow> string list \<Rightarrow> error + string list" where
  "normalize_tags uni tags =
    (case normalize_tags_loop uni tags [] [] of
       Inl e \<Rightarrow> Inl e
     | Inr out \<Rightarrow>
         if length out > MaxCameraTags
         then Inl (invalid ''tags'' (msgf ''a camera can have at most %d tags'' [AInt (int MaxCameraTags)]))
         else Inr out)"

definition tag_ok :: "string \<Rightarrow> bool" where
  "tag_ok t = (t \<noteq> [] \<and> trimmed t \<and> rune_count t \<le> MaxTagLength \<and> \<not> has_control t \<and> \<not> contains_sub '','' t)"

lemma normalize_tags_loop_ok:
  "normalize_tags_loop uni ts seen out = Inr res \<Longrightarrow>
   list_all tag_ok out \<Longrightarrow> distinct (map (to_lower uni) out) \<Longrightarrow> set seen = set (map (to_lower uni) out) \<Longrightarrow>
   list_all tag_ok res \<and> distinct (map (to_lower uni) res)
   \<and> (\<exists>more. res = out @ more \<and> set more \<subseteq> trim_space ` set ts)"
proof (induction uni ts seen out rule: normalize_tags_loop.induct)
  case (2 uni t0 ts seen out)
  let ?t = "trim_space t0"
  show ?case
  proof (cases "?t = [] \<or> contains seen (to_lower uni ?t)")
    case True
    with "2.IH"(1) [OF refl True] "2.prems" show ?thesis by (auto simp: Let_def)
  next
    case False
    with "2.prems"(1) have c: "\<not> rune_count ?t > MaxTagLength" "\<not> (has_control ?t \<or> contains_sub '','' ?t)"
      and r: "normalize_tags_loop uni ts (to_lower uni ?t # seen) (out @ [?t]) = Inr res"
      by (auto simp: Let_def split: if_splits)
    have "tag_ok ?t" using False c trimmed_trim_space by (auto simp: tag_ok_def)
    with "2.IH"(2) [OF refl False c r] "2.prems" False show ?thesis by auto
  qed
qed simp

lemma normalize_tags_loop_fix:
  "list_all tag_ok ts \<Longrightarrow> distinct (map (to_lower uni) ts) \<Longrightarrow>
   set seen \<inter> set (map (to_lower uni) ts) = {} \<Longrightarrow>
   normalize_tags_loop uni ts seen out = Inr (out @ ts)"
proof (induction ts arbitrary: seen out)
  case (Cons t ts)
  then have "trim_space t = t" by (simp add: tag_ok_def trim_space_id)
  with Cons show ?case by (auto simp: tag_ok_def Let_def)
qed simp

text \<open>A successful NormalizeTags returns at most 20 tags, each a trimmed form of an input
  tag, not empty, at most 32 characters, without commas or control characters, no two
  equal when case is ignored; and normalizing the result again returns it unchanged.
\<close>

theorem normalize_tags_sound:
  assumes "normalize_tags uni tags = Inr out"
  shows "length out \<le> MaxCameraTags \<and> list_all tag_ok out \<and> distinct (map (to_lower uni) out)
    \<and> set out \<subseteq> trim_space ` set tags \<and> normalize_tags uni out = Inr out"
proof -
  from assms have l: "normalize_tags_loop uni tags [] [] = Inr out" and n: "length out \<le> MaxCameraTags"
    by (auto simp: normalize_tags_def split: sum.splits if_splits)
  from normalize_tags_loop_ok [OF l] have ok: "list_all tag_ok out" "distinct (map (to_lower uni) out)"
    "set out \<subseteq> trim_space ` set tags" by auto
  moreover have "normalize_tags uni out = Inr out"
    using normalize_tags_loop_fix [of out uni "[]" "[]"] ok n by (simp add: normalize_tags_def)
  ultimately show ?thesis using n by blast
qed

theorem normalize_tags_sound_witness:
  "normalize_tags id ['' Gate'', ''gate'', ''''] = Inr [''Gate''] \<and> normalize_tags id [''Gate''] = Inr [''Gate'']"
proof -
  have h: "normalize_tags id ['' Gate'', ''gate'', ''''] = Inr [''Gate'']"
    by (simp add: normalize_tags_def trim_eval ascii_eval MaxTagLength_def MaxCameraTags_def)
  from normalize_tags_sound [OF h] h show ?thesis by blast
qed

section \<open>Slugs\<close>

definition slug_char :: "rune \<Rightarrow> char option" where
  "slug_char r =
    (if is_lower_c r \<or> is_digit_c r then Some (char_of r)
     else if r = 0xE1 \<or> r = 0xE0 \<or> r = 0xE4 \<or> r = 0xE2 then Some (CHR ''a'')
     else if r = 0xE9 \<or> r = 0xE8 \<or> r = 0xEB \<or> r = 0xEA then Some (CHR ''e'')
     else if r = 0xED \<or> r = 0xEC \<or> r = 0xEF \<or> r = 0xEE then Some (CHR ''i'')
     else if r = 0xF3 \<or> r = 0xF2 \<or> r = 0xF6 \<or> r = 0xF4 then Some (CHR ''o'')
     else if r = 0xFA \<or> r = 0xF9 \<or> r = 0xFC \<or> r = 0xFB then Some (CHR ''u'')
     else if r = 0xF1 then Some (CHR ''n'')
     else None)"

fun slug_loop :: "int \<Rightarrow> rune list \<Rightarrow> string \<Rightarrow> bool \<Rightarrow> string" where
  "slug_loop mx [] b dash = b"
| "slug_loop mx (r # rs) b dash =
    (let (b', dash') =
       (case slug_char r of
          Some c \<Rightarrow> (b @ [c], False)
        | None \<Rightarrow> if \<not> dash \<and> b \<noteq> [] then (b @ [CHR ''-''], True) else (b, dash))
     in if mx \<le> int (length b') then b' else slug_loop mx rs b' dash')"

text \<open>\<open>None\<close> is the panic of \<^verbatim>\<open>s[:max]\<close> for a negative \<open>max\<close>.\<close>

definition slug :: "(rune \<Rightarrow> rune) \<Rightarrow> string \<Rightarrow> int \<Rightarrow> string option" where
  "slug uni name mx =
    (let s = slug_loop mx (runes (to_lower uni name)) [] False in
     if mx < int (length s)
     then (if mx < 0 then None else Some (trim_chars ''-'' (take (nat mx) s)))
     else Some (trim_chars ''-'' s))"

definition slug_alphabet :: "char \<Rightarrow> bool" where
  "slug_alphabet c = (is_lower_c (byte c) \<or> is_digit_c (byte c) \<or> c = CHR ''-'')"

lemma slug_char_alphabet: "slug_char r = Some c \<Longrightarrow> slug_alphabet c"
proof (cases "is_lower_c r \<or> is_digit_c r")
  case True
  moreover assume "slug_char r = Some c"
  ultimately have "c = char_of r" by (simp add: slug_char_def)
  moreover have "r < 256" using True by (auto simp: is_lower_c_def is_digit_c_def)
  ultimately show ?thesis using True by (auto simp: slug_alphabet_def byte_def)
next
  case False
  moreover assume "slug_char r = Some c"
  ultimately have "c \<in> set ''aeioun''" by (simp add: slug_char_def split: if_splits)
  then show ?thesis by (auto simp: slug_alphabet_def is_lower_c_def byte_def)
qed

lemma slug_loop_alphabet:
  "list_all slug_alphabet b \<Longrightarrow> list_all slug_alphabet (slug_loop mx rs b dash)"
proof (induction mx rs b dash rule: slug_loop.induct)
  case (2 mx r rs b dash)
  show ?case
  proof (cases "slug_char r")
    case None
    have "slug_alphabet (CHR ''-'')" by (simp add: slug_alphabet_def)
    with None "2.prems" "2.IH" [OF refl] show ?thesis by auto
  next
    case (Some c)
    then have "slug_alphabet c" by (rule slug_char_alphabet)
    with Some "2.prems" "2.IH" [OF refl] show ?thesis by auto
  qed
qed simp

text \<open>Slug never panics for a non-negative limit: it returns at most \<open>max\<close> characters,
  all lower-case ASCII letters, digits or dashes, and neither begins nor ends with a dash.
\<close>

theorem slug_well_formed:
  assumes "0 \<le> mx"
  shows "\<exists>s. slug uni name mx = Some s \<and> int (length s) \<le> mx \<and> list_all slug_alphabet s
    \<and> (s \<noteq> [] \<longrightarrow> hd s \<noteq> CHR ''-'' \<and> last s \<noteq> CHR ''-'')"
proof -
  let ?l = "slug_loop mx (runes (to_lower uni name)) [] False"
  define t where "t = (if mx < int (length ?l) then take (nat mx) ?l else ?l)"
  have "list_all slug_alphabet ?l" by (rule slug_loop_alphabet) simp
  then have t: "list_all slug_alphabet t" "int (length t) \<le> mx"
    unfolding t_def using assms by (auto simp: list_all_iff dest: in_set_takeD)
  have "slug uni name mx = Some (trim_chars ''-'' t)"
    using assms by (simp add: slug_def t_def)
  moreover have "list_all slug_alphabet (trim_chars ''-'' t)"
    using t(1) set_trim_chars by (force simp: list_all_iff)
  moreover have "int (length (trim_chars ''-'' t)) \<le> mx"
    using t(2) length_trim_chars [of "''-''" t] by simp
  ultimately show ?thesis using trim_chars_ends [of "''-''" t] by auto
qed

theorem slug_well_formed_witness:
  "\<exists>s. slug id ''Front Door!'' 30 = Some s \<and> length s \<le> 30 \<and> list_all slug_alphabet s"
  using slug_well_formed [of 30 id "''Front Door!''"] by auto

section \<open>Automatic restarts\<close>

definition MaxAutoRetries :: nat where "MaxAutoRetries = 5"

definition second_ns :: int where "second_ns = 1000000000"
definition minute_ns :: int where "minute_ns = 60 * second_ns"

text \<open>The wait is a \<^verbatim>\<open>time.Duration\<close>: doubling it wraps around at 64 bits.\<close>

definition retry_backoff :: "int \<Rightarrow> int" where
  "retry_backoff attempt0 =
    (let attempt = (if attempt0 < 1 then 1 else attempt0);
         d = ((\<lambda>d. wrap64 (d * 2)) ^^ nat (attempt - 1)) (2 * second_ns)
     in if d > minute_ns then minute_ns else d)"

lemma backoff_doubling:
  "n \<le> 32 \<Longrightarrow> ((\<lambda>d. wrap64 (d * 2)) ^^ n) (2 * second_ns) = 2 * second_ns * 2 ^ n"
proof (induction n)
  case (Suc n)
  have "(2::int) ^ n \<le> 2 ^ 31" using Suc.prems by (intro power_increasing) auto
  then have "2 * second_ns * 2 ^ n * 2 < 2 ^ 63" by (simp add: second_ns_def)
  moreover have "(0::int) \<le> 2 * second_ns * 2 ^ n * 2" by (simp add: second_ns_def)
  ultimately show ?case using Suc by (simp add: wrap64_id algebra_simps)
qed simp

text \<open>For every attempt the supervisor makes, and up to the 33rd, the wait doubles from
  two seconds and is capped at one minute, so it grows and stays within those bounds; the
  34th doubling overflows the 64-bit duration and the wait would be negative, which the
  limit of five automatic retries keeps out of reach.
\<close>

theorem retry_backoff_spec:
  assumes "1 \<le> a" and "a \<le> b" and "b \<le> 33"
  shows "retry_backoff a = min minute_ns (2 * second_ns * 2 ^ nat (a - 1))
    \<and> 2 * second_ns \<le> retry_backoff a \<and> retry_backoff a \<le> retry_backoff b
    \<and> retry_backoff b \<le> minute_ns \<and> retry_backoff 34 < 0 \<and> MaxAutoRetries \<le> 33"
proof -
  have eq: "retry_backoff c = min minute_ns (2 * second_ns * 2 ^ nat (c - 1))" if "1 \<le> c" "c \<le> 33" for c
  proof -
    have "nat (c - 1) \<le> 32" using that by simp
    then show ?thesis using that
      by (simp add: retry_backoff_def backoff_doubling min_def Let_def)
  qed
  define x y :: int where "x = 2 ^ nat (a - 1)" and "y = 2 ^ nat (b - 1)"
  have "x \<le> y" unfolding x_def y_def using assms by (intro power_increasing) auto
  moreover have "1 \<le> x" by (simp add: x_def)
  moreover have "retry_backoff 34 < 0" by code_simp
  moreover have "retry_backoff a = min minute_ns (2 * second_ns * x)" "retry_backoff b = min minute_ns (2 * second_ns * y)"
    unfolding x_def y_def using eq assms by auto
  ultimately show ?thesis unfolding x_def [symmetric]
    by (auto simp: second_ns_def minute_ns_def MaxAutoRetries_def min_def)
qed

theorem retry_backoff_spec_witness:
  "retry_backoff 1 = 2 * second_ns \<and> retry_backoff 1 \<le> retry_backoff 5"
  using retry_backoff_spec [of 1 5] by (simp add: min_def second_ns_def minute_ns_def)

end
