(* ===== verification/Domain_Network.thy ===== *)
theory Domain_Network
  imports Domain_Errors "HOL-Library.Word"
begin

unbundle bit_operations_syntax

text \<open>
  \<^verbatim>\<open>backend/internal/domain/network.go\<close>: the network identity of a camera, netmasks and
  MAC addresses. An IPv4 address is a 32-bit word, the four bytes of \<^verbatim>\<open>As4\<close> from the
  high byte down; a MAC address is a list of 8-bit words. SHA-256 is the argument \<open>sha\<close>
  of \<open>derive_mac\<close>.
\<close>

type_synonym ip4 = "32 word"
type_synonym hwaddr = "8 word list"

datatype addr = NoAddr | Addr4 ip4 | Addr6 "128 word" string

definition is4 :: "addr \<Rightarrow> bool" where
  "is4 a = (case a of Addr4 _ \<Rightarrow> True | _ \<Rightarrow> False)"

definition addr_valid :: "addr \<Rightarrow> bool" where
  "addr_valid a = (a \<noteq> NoAddr)"

definition top_bits :: "nat \<Rightarrow> ip4 \<Rightarrow> ip4" where
  "top_bits n a = drop_bit (32 - n) a"

text \<open>0.0.0.0, 127.0.0.0/8, 224.0.0.0/4 and 169.254.0.0/16.\<close>

definition special_unicast :: "ip4 \<Rightarrow> bool" where
  "special_unicast a = (a = 0 \<or> top_bits 8 a = 127 \<or> top_bits 4 a = 14 \<or> top_bits 16 a = 0xA9FE)"

section \<open>Prefixes\<close>

definition masked :: "ip4 \<Rightarrow> nat \<Rightarrow> ip4" where
  "masked a bits = a AND NOT (mask (32 - bits))"

definition prefix_contains :: "ip4 \<Rightarrow> nat \<Rightarrow> ip4 \<Rightarrow> bool" where
  "prefix_contains p bits a = (masked a bits = masked p bits)"

definition LastAddr :: "ip4 \<Rightarrow> nat \<Rightarrow> ip4" where
  "LastAddr p bits = masked p bits OR (push_bit (32 - bits) 1 - 1)"

lemma LastAddr_mask: "LastAddr p bits = masked p bits OR mask (32 - bits)"
  by (simp add: LastAddr_def mask_eq_exp_minus_1 push_bit_eq_mult)

lemma uint_masked: "uint (masked a bits) = uint a - uint a mod 2 ^ (32 - bits)"
proof -
  let ?k = "32 - bits"
  have s: "(a AND mask ?k) + masked a bits = a"
  proof -
    have "(a AND mask ?k) + masked a bits = (a AND mask ?k) OR masked a bits"
      unfolding masked_def by (rule disjunctive_add) (auto simp: bit_simps)
    also have "\<dots> = a" by (auto simp: masked_def bit_eq_iff bit_simps)
    finally show ?thesis .
  qed
  then have "masked a bits = a - (a AND mask ?k)" by (metis add_diff_cancel_left')
  also have "a AND mask ?k = take_bit ?k a" by (simp add: take_bit_eq_mask)
  finally have m: "masked a bits = a - take_bit ?k a" .
  have u: "uint (take_bit ?k a) = uint a mod 2 ^ ?k"
    by (subst unsigned_take_bit_eq) (simp add: take_bit_eq_mod)
  have "uint (take_bit ?k a) \<le> uint a" unfolding u by (simp add: zmod_le_nonneg_dividend)
  then have "take_bit ?k a \<le> a" by (simp add: word_le_def)
  then show ?thesis unfolding m u [symmetric] by (rule uint_minus_simple_alt [THEN iffD1])
qed

lemma uint_LastAddr:
  "uint (LastAddr p bits) = uint p - uint p mod 2 ^ (32 - bits) + 2 ^ (32 - bits) - 1"
proof -
  let ?k = "32 - bits"
  have d: "masked p bits AND mask ?k = 0"
    unfolding masked_def by (simp add: ac_simps bit_eq_iff bit_simps)
  have k: "?k \<le> 32" by simp
  have um: "uint (mask ?k :: ip4) = 2 ^ ?k - 1"
    by (subst uint_mask_eq) (simp add: min.absorb2 mask_eq_exp_minus_1)
  have "uint (LastAddr p bits) = uint (masked p bits) OR uint (mask ?k :: ip4)"
    unfolding LastAddr_mask by (simp add: unsigned_or_eq)
  also have "uint (masked p bits) AND uint (mask ?k :: ip4) = 0"
    using d by (metis unsigned_0 unsigned_and_eq)
  then have "uint (masked p bits) OR uint (mask ?k :: ip4) = uint (masked p bits) + uint (mask ?k :: ip4)"
    by (metis disjunctive_add bit_and_iff bit_0_eq bot_apply bot_boolE)
  finally show ?thesis by (simp add: uint_masked um)
qed

lemma masked_idem [simp]: "masked (masked a n) n = masked a n"
  by (simp add: masked_def ac_simps)

lemma masked_LastAddr: "masked (LastAddr p n) n = masked p n"
  unfolding LastAddr_mask masked_def by (simp add: bit_eq_iff bit_simps) blast

text \<open>Strictly inside the prefix: neither its first address nor its last.\<close>

definition host_of :: "ip4 \<Rightarrow> nat \<Rightarrow> ip4 \<Rightarrow> bool" where
  "host_of p bits a = (prefix_contains p bits a \<and> a \<noteq> masked p bits \<and> a \<noteq> LastAddr p bits)"

lemma host_of_iff:
  "host_of p bits a \<longleftrightarrow>
     (\<exists>off. 0 < off \<and> off < 2 ^ (32 - bits) - 1 \<and> uint a = uint (masked p bits) + off)"
proof
  let ?s = "2 ^ (32 - bits) :: int"
  have last: "uint (LastAddr p bits) = uint (masked p bits) + ?s - 1"
    by (simp add: uint_masked uint_LastAddr)
  {
    assume h: "host_of p bits a"
    define off where "off = uint a mod ?s"
    from h have m: "masked a bits = masked p bits" by (simp add: host_of_def prefix_contains_def)
    then have a: "uint a = uint (masked p bits) + off"
      using uint_masked [of a bits] by (simp add: off_def)
    have "0 \<le> off" "off < ?s" by (auto simp: off_def)
    moreover have "off \<noteq> 0" using h a by (metis add.right_neutral host_of_def word_uint_eq_iff)
    moreover have "off \<noteq> ?s - 1" using h a last by (metis host_of_def word_uint_eq_iff add_diff_eq)
    ultimately show "\<exists>off. 0 < off \<and> off < ?s - 1 \<and> uint a = uint (masked p bits) + off"
      using a by (intro exI [of _ off]) auto
  }
  assume "\<exists>off. 0 < off \<and> off < ?s - 1 \<and> uint a = uint (masked p bits) + off"
  then obtain off where off: "0 < off" "off < ?s - 1" and a: "uint a = uint (masked p bits) + off" by blast
  have "uint (masked p bits) mod ?s = 0" unfolding uint_masked
    by (simp add: minus_mod_eq_mult_div)
  then have "uint a mod ?s = off" using off a by (simp add: mod_add_left_eq [symmetric, of "uint (masked p bits)"])
  then have "uint (masked a bits) = uint (masked p bits)" using a by (simp add: uint_masked [of a])
  then have "masked a bits = masked p bits" by (simp add: word_uint_eq_iff)
  moreover have "a \<noteq> masked p bits" "a \<noteq> LastAddr p bits" using a off last by auto
  ultimately show "host_of p bits a" by (simp add: host_of_def prefix_contains_def)
qed

section \<open>Addresses as text\<close>

text \<open>
  \<^verbatim>\<open>netip.ParseAddr\<close> followed by \<^verbatim>\<open>Is4\<close>: four decimal octets without leading zeros. A
  text with a colon or a zone parses, if at all, to an address that is not IPv4.
\<close>

definition octet_val :: "string \<Rightarrow> nat option" where
  "octet_val s =
    (if s = [] \<or> (1 < length s \<and> hd s = CHR ''0'') then None
     else case digits_val 0 s of None \<Rightarrow> None | Some n \<Rightarrow> if n \<le> 255 then Some n else None)"

definition ip4_of_octets :: "nat \<Rightarrow> nat \<Rightarrow> nat \<Rightarrow> nat \<Rightarrow> ip4" where
  "ip4_of_octets a b c d = of_nat a * 2 ^ 24 + of_nat b * 2 ^ 16 + of_nat c * 2 ^ 8 + of_nat d"

definition parse_ip4 :: "string \<Rightarrow> ip4 option" where
  "parse_ip4 s =
    (case map octet_val (split_on (CHR ''.'') s) of
       [Some a, Some b, Some c, Some d] \<Rightarrow> Some (ip4_of_octets a b c d)
     | _ \<Rightarrow> None)"

definition ip4_octet :: "ip4 \<Rightarrow> nat \<Rightarrow> nat" where
  "ip4_octet a i = unat (drop_bit (8 * (3 - i)) a) mod 256"

definition ip4_str :: "ip4 \<Rightarrow> string" where
  "ip4_str a = join_with ''.'' (map (\<lambda>i. nat_str (ip4_octet a i)) [0, 1, 2, 3])"

section \<open>Netmasks\<close>

definition cidr_mask :: "nat \<Rightarrow> ip4" where
  "cidr_mask n = NOT (mask (32 - n))"

text \<open>\<^verbatim>\<open>net.IPMask.Size\<close>: the length of a contiguous mask.\<close>

definition mask_size :: "ip4 \<Rightarrow> nat option" where
  "mask_size m = List.find (\<lambda>n. cidr_mask n = m) [0..<33]"

text \<open>
  \<^verbatim>\<open>fmt.Sscanf(s, "%d", &n)\<close>: leading space is skipped, then a sign and the longest run
  of digits are read; whatever follows them is not looked at.
\<close>

definition scan_int :: "string \<Rightarrow> int option" where
  "scan_int s0 =
    (let s = trim_front (filter (\<lambda>w. w \<noteq> [CHR 0x0A]) space_seqs) s0;
         (sign, d) = (case s of [] \<Rightarrow> ([], [])
                      | c # cs \<Rightarrow> if c = CHR ''-'' \<or> c = CHR ''+'' then ([c], cs) else ([], s));
         ds = takeWhile (\<lambda>c. is_digit_c (byte c)) d
     in if ds = [] then None else parse_int64 (sign @ ds))"

definition MaskToPrefix :: "string \<Rightarrow> message + int" where
  "MaskToPrefix mask0 =
    (let m = trim_prefix ''/'' (trim_space mask0) in
     if m = [] then Inl (msg ''empty netmask'')
     else if \<not> contains_sub ''.'' m then
       (case scan_int m of
          None \<Rightarrow> Inl (msgf ''invalid prefix length %q'' [AStr m])
        | Some n \<Rightarrow> if n < 0 \<or> n > 32 then Inl (msgf ''invalid prefix length %q'' [AStr m]) else Inr n)
     else
       (case parse_ip4 m of
          None \<Rightarrow> Inl (msgf ''invalid netmask %q'' [AStr m])
        | Some a \<Rightarrow>
            (case mask_size a of
               None \<Rightarrow> Inl (msgf ''netmask %q is not contiguous'' [AStr m])
             | Some ones \<Rightarrow> Inr (int ones))))"

text \<open>\<^verbatim>\<open>net.CIDRMask\<close> of a length out of range is nil, printed as <nil>.\<close>

definition PrefixToMask :: "int \<Rightarrow> string" where
  "PrefixToMask prefix =
    (if prefix < 0 \<or> prefix > 32 then ''<nil>'' else ip4_str (cidr_mask (nat prefix)))"

lemma octet_val_nat_str: "n < 256 \<Longrightarrow> octet_val (nat_str n) = Some n"
  using nat_str_hd [of n] nat_str_short [of n]
  by (cases "n = 0") (auto simp: octet_val_def digits_val_nat_str)

lemma ip4_of_octet: "ip4_of_octets (ip4_octet a 0) (ip4_octet a 1) (ip4_octet a 2) (ip4_octet a 3) = a"
proof -
  define u where "u = unat a"
  have u: "u < 2 ^ 32" unfolding u_def using unsigned_less [of a, where ?'a = nat] by simp
  have d: "unat (drop_bit k a) = u div 2 ^ k" for k
    unfolding u_def unat_drop_bit_eq by (simp add: drop_bit_eq_div)
  have "u = u div 2 ^ 24 mod 256 * 2 ^ 24 + u div 2 ^ 16 mod 256 * 2 ^ 16 + u div 2 ^ 8 mod 256 * 2 ^ 8 + u mod 256"
  proof -
    define v where "v = u div 256"
    define w where "w = v div 256"
    define x where "x = w div 256"
    have e: "u div 2 ^ 8 = v" "u div 2 ^ 16 = w" "u div 2 ^ 24 = x"
      by (simp_all add: v_def w_def x_def div_mult2_eq [symmetric])
    have x: "x mod 256 = x" using u by (simp add: x_def w_def v_def div_mult2_eq [symmetric])
    have "v * 256 + u mod 256 = u" "w * 256 + v mod 256 = v" "x * 256 + w mod 256 = w"
      unfolding v_def w_def x_def by (rule div_mult_mod_eq)+
    then show ?thesis unfolding e x by simp
  qed
  then have "of_nat u = (of_nat (u div 2 ^ 24 mod 256 * 2 ^ 24 + u div 2 ^ 16 mod 256 * 2 ^ 16
      + u div 2 ^ 8 mod 256 * 2 ^ 8 + u mod 256) :: ip4)" by (rule arg_cong)
  also have "of_nat u = a" by (simp add: u_def)
  finally show ?thesis unfolding ip4_of_octets_def ip4_octet_def d by simp
qed

lemma ip4_octet_less: "ip4_octet a i < 256"
  by (simp add: ip4_octet_def)

lemma dot_not_digit: "CHR ''.'' \<notin> set (nat_str n)"
  using nat_str_digits [of "CHR ''.''" n] by (auto simp: is_digit_c_def byte_def)

text \<open>Reading an address in its printed form gives the address.\<close>

lemma parse_ip4_str: "parse_ip4 (ip4_str a) = Some a"
proof -
  have "split_on (CHR ''.'') (ip4_str a) = map (\<lambda>i. nat_str (ip4_octet a i)) [0, 1, 2, 3]"
    unfolding ip4_str_def by (rule split_join) (use dot_not_digit in auto)
  then show ?thesis
    using ip4_of_octet [of a] by (simp add: parse_ip4_def octet_val_nat_str ip4_octet_less)
qed

lemma ip4_str_chars: "c \<in> set (ip4_str a) \<Longrightarrow> c = CHR ''.'' \<or> is_digit_c (byte c)"
  using set_join_with [of "''.''" "map (\<lambda>i. nat_str (ip4_octet a i)) [0, 1, 2, 3]"] nat_str_digits
  unfolding ip4_str_def by fastforce

lemma ip4_str_graphic: "c \<in> set (ip4_str a) \<Longrightarrow> 32 < byte c \<and> byte c < 127 \<and> c \<noteq> CHR ''/''"
  using ip4_str_chars [of c a] by (auto simp: is_digit_c_def byte_def)

lemma ip4_str_dot: "CHR ''.'' \<in> set (ip4_str a)"
  by (simp add: ip4_str_def)

lemma cidr_mask_inj: "m \<le> 32 \<Longrightarrow> n \<le> 32 \<Longrightarrow> cidr_mask m = cidr_mask n \<Longrightarrow> m = n"
proof -
  assume le: "m \<le> 32" "n \<le> 32" and "cidr_mask m = cidr_mask n"
  then have "(mask (32 - m) :: ip4) = mask (32 - n)" by (simp add: cidr_mask_def)
  then have "uint (mask (32 - m) :: ip4) = uint (mask (32 - n) :: ip4)" by (rule arg_cong)
  then have "(mask (32 - m) :: int) = mask (32 - n)"
    by (simp only: uint_mask_eq) (simp add: min.absorb2)
  then have "(2 :: int) ^ (32 - m) = 2 ^ (32 - n)" by (simp add: mask_eq_exp_minus_1)
  then show "m = n" using le by simp
qed

lemma mask_size_cidr: "n \<le> 32 \<Longrightarrow> mask_size (cidr_mask n) = Some n"
proof -
  assume n: "n \<le> 32"
  then have "n \<in> set [0..<33]" by (simp del: upt_Suc)
  then have "mask_size (cidr_mask n) \<noteq> None" unfolding mask_size_def find_None_iff by blast
  then obtain m where m: "mask_size (cidr_mask n) = Some m" by blast
  then have "m \<le> 32" "cidr_mask m = cidr_mask n"
    by (auto simp: mask_size_def find_Some_iff simp del: upt_Suc)
  with m n show ?thesis using cidr_mask_inj by metis
qed

text \<open>Reading back the dotted mask that \<^verbatim>\<open>PrefixToMask\<close> prints gives the prefix length, for
  every length an IPv4 prefix can have.\<close>

theorem mask_roundtrip:
  assumes "0 \<le> n" "n \<le> 32"
  shows "MaskToPrefix (PrefixToMask n) = Inr n"
proof -
  let ?s = "ip4_str (cidr_mask (nat n))"
  have "trim_space ?s = ?s" using ip4_str_graphic by (intro trim_space_id trimmed_graphic) blast
  moreover have "trim_prefix ''/'' ?s = ?s"
    using ip4_str_graphic [of "CHR ''/''" "cidr_mask (nat n)"] by (auto simp: trim_prefix_def has_prefix_iff)
  moreover have "contains_sub ''.'' ?s" using ip4_str_dot by (simp add: contains_sub_single)
  moreover have "?s \<noteq> []" using ip4_str_dot by (metis list.set(1) empty_iff)
  ultimately show ?thesis
    using assms by (simp add: PrefixToMask_def MaskToPrefix_def parse_ip4_str mask_size_cidr)
qed

theorem mask_roundtrip_witness: "MaskToPrefix (PrefixToMask 24) = Inr 24"
  using mask_roundtrip [of 24] by simp

section \<open>MAC addresses\<close>

text \<open>\<^verbatim>\<open>net.ParseMAC\<close>: pairs of hex digits separated by colons or dashes, or groups of four
  separated by dots, for 6, 8 or 20 bytes.\<close>

definition hex_val :: "char \<Rightarrow> nat option" where
  "hex_val c =
    (let b = byte c in
     if is_digit_c b then Some (b - 48)
     else if 97 \<le> b \<and> b \<le> 102 then Some (b - 87)
     else if 65 \<le> b \<and> b \<le> 70 then Some (b - 55) else None)"

definition hex_pair :: "char \<Rightarrow> char \<Rightarrow> 8 word option" where
  "hex_pair a b =
    (case (hex_val a, hex_val b) of (Some x, Some y) \<Rightarrow> Some (of_nat (x * 16 + y)) | _ \<Rightarrow> None)"

fun mac_pairs :: "char \<Rightarrow> string \<Rightarrow> hwaddr option" where
  "mac_pairs e [a, b] = map_option (\<lambda>x. [x]) (hex_pair a b)"
| "mac_pairs e (a # b # c # s) =
    (if c \<noteq> e then None
     else case (hex_pair a b, mac_pairs e s) of (Some x, Some xs) \<Rightarrow> Some (x # xs) | _ \<Rightarrow> None)"
| "mac_pairs e _ = None"

fun mac_quads :: "string \<Rightarrow> hwaddr option" where
  "mac_quads [a, b, c, d] =
    (case (hex_pair a b, hex_pair c d) of (Some x, Some y) \<Rightarrow> Some [x, y] | _ \<Rightarrow> None)"
| "mac_quads (a # b # c # d # e # s) =
    (if e \<noteq> CHR ''.'' then None
     else case (hex_pair a b, hex_pair c d, mac_quads s) of
            (Some x, Some y, Some xs) \<Rightarrow> Some (x # y # xs) | _ \<Rightarrow> None)"
| "mac_quads _ = None"

definition net_parse_mac :: "string \<Rightarrow> hwaddr option" where
  "net_parse_mac s =
    (if length s < 14 then None
     else if s ! 2 = CHR '':'' \<or> s ! 2 = CHR ''-'' then
       (if (length s + 1) div 3 \<in> {6, 8, 20} then mac_pairs (s ! 2) s else None)
     else if s ! 4 = CHR ''.'' then
       (if 2 * (length s + 1) div 5 \<in> {6, 8, 20} then mac_quads s else None)
     else None)"

definition ParseMAC :: "string \<Rightarrow> message + hwaddr" where
  "ParseMAC s =
    (case net_parse_mac s of
       None \<Rightarrow> Inl (msgf ''invalid MAC address %q'' [AStr s])
     | Some hw \<Rightarrow>
         if length hw \<noteq> 6 then Inl (msgf ''MAC address %q must have 6 bytes'' [AStr s])
         else if hd hw AND 1 \<noteq> 0 then Inl (msgf ''MAC address %q is multicast'' [AStr s])
         else if list_all (\<lambda>b. b = 0) hw then Inl (msgf ''MAC address %q is all zeros'' [AStr s])
         else Inr hw)"

definition DeriveMAC :: "(string \<Rightarrow> hwaddr) \<Rightarrow> string \<Rightarrow> hwaddr \<Rightarrow> hwaddr" where
  "DeriveMAC sha cameraID oui =
    (let mac = take 6 (sha (''mockvision-mac:'' @ cameraID)) in
     if length oui = 3 then
       (let mac = oui @ drop 3 mac in mac[0 := mac ! 0 AND NOT 1])
     else mac[0 := (mac ! 0 OR 2) AND NOT 1])"

definition replace_char :: "char \<Rightarrow> char \<Rightarrow> string \<Rightarrow> string" where
  "replace_char a b = map (\<lambda>c. if c = a then b else c)"

definition ParseOUI :: "string \<Rightarrow> message + hwaddr" where
  "ParseOUI s0 =
    (let s = replace_char (CHR ''-'') (CHR '':'') (trim_space s0) in
     case net_parse_mac (s @ '':00:00:00'') of
       None \<Rightarrow> Inl (msgf ''invalid OUI %q'' [AStr s])
     | Some hw \<Rightarrow> Inr (take 3 hw))"

text \<open>\<^verbatim>\<open>HardwareAddr.String\<close>: lower-case pairs separated by colons.\<close>

definition hex_char :: "nat \<Rightarrow> char" where
  "hex_char n = (if n < 10 then char_of (48 + n) else char_of (87 + n))"

definition byte_hex :: "8 word \<Rightarrow> string" where
  "byte_hex b = [hex_char (unat b div 16), hex_char (unat b mod 16)]"

definition hw_str :: "hwaddr \<Rightarrow> string" where
  "hw_str hw = join_with '':'' (map byte_hex hw)"

lemma hex_val_char: "n < 16 \<Longrightarrow> hex_val (hex_char n) = Some n"
  by (auto simp: hex_val_def hex_char_def byte_def is_digit_c_def)

lemma hex_pair_byte: "hex_pair (hex_char (unat b div 16)) (hex_char (unat b mod 16)) = Some b"
proof -
  have "unat b < 256" using unsigned_less [of b, where ?'a = nat] by simp
  then have "unat b div 16 < 16" by simp
  then show ?thesis by (simp add: hex_pair_def hex_val_char)
qed

lemma mac_pairs_hw_str: "hw \<noteq> [] \<Longrightarrow> mac_pairs (CHR '':'') (hw_str hw) = Some hw"
proof (induction hw)
  case (Cons b hw)
  then show ?case
    by (cases "hw = []") (simp_all add: hw_str_def join_with_Cons byte_hex_def hex_pair_byte)
qed simp

lemma length_hw_str: "hw \<noteq> [] \<Longrightarrow> length (hw_str hw) + 1 = 3 * length hw"
proof (induction hw)
  case (Cons b hw)
  then show ?case by (cases "hw = []") (simp_all add: hw_str_def join_with_Cons byte_hex_def)
qed simp

lemma net_parse_mac_hw_str:
  assumes "length hw = 6"
  shows "net_parse_mac (hw_str hw) = Some hw"
proof -
  have ne: "hw \<noteq> []" "tl hw \<noteq> []" using assms by (cases hw; cases "tl hw"; simp)+
  then have "hw_str hw ! 2 = CHR '':''"
    by (cases hw) (simp_all add: hw_str_def join_with_Cons byte_hex_def)
  moreover have "length (hw_str hw) = 17" using length_hw_str [OF ne(1)] assms by simp
  ultimately show ?thesis using mac_pairs_hw_str [OF ne(1)] by (simp add: net_parse_mac_def)
qed

lemma DeriveMAC_length:
  "6 \<le> length (sha (''mockvision-mac:'' @ cam)) \<Longrightarrow> length (DeriveMAC sha cam oui) = 6"
  by (simp add: DeriveMAC_def Let_def)

lemma clear_low_bit: "(w AND NOT 1) AND (1 :: 'a :: len word) = 0"
  by (simp add: bit_eq_iff bit_simps) blast

text \<open>The MAC a camera gets from its id is always a unicast address; without a vendor OUI it
  is locally administered and its text passes \<^verbatim>\<open>ParseMAC\<close>, which gives the same address back.\<close>

theorem DeriveMAC_sound:
  assumes "6 \<le> length (sha (''mockvision-mac:'' @ cam))"
  shows "hd (DeriveMAC sha cam oui) AND 1 = 0 \<and>
    (if length oui = 3 then take 2 (drop 1 (DeriveMAC sha cam oui)) = drop 1 oui
     else hd (DeriveMAC sha cam oui) AND 2 = 2 \<and>
          ParseMAC (hw_str (DeriveMAC sha cam oui)) = Inr (DeriveMAC sha cam oui))"
proof -
  let ?m = "DeriveMAC sha cam oui"
  obtain a r where t: "take 6 (sha (''mockvision-mac:'' @ cam)) = a # r"
    using assms by (cases "take 6 (sha (''mockvision-mac:'' @ cam))") auto
  have ou: "?m = (hd oui AND NOT 1) # tl oui @ drop 3 (a # r)" if "length oui = 3"
    unfolding DeriveMAC_def t Let_def using that by (cases oui) simp_all
  have no: "?m = ((a OR 2) AND NOT 1) # r" if "length oui \<noteq> 3"
    unfolding DeriveMAC_def t Let_def using that by simp
  have low: "hd ?m AND 1 = 0"
    by (cases "length oui = 3") (simp_all only: ou no list.sel clear_low_bit not_False_eq_True)
  have tail: "take 2 (drop 1 ?m) = drop 1 oui" if "length oui = 3"
    using ou [OF that] that by (cases oui) (simp_all add: drop_Suc)
  have two: "hd ?m AND 2 = 2" if "length oui \<noteq> 3"
  proof -
    have "(2 :: 8 word) AND NOT 1 = 2" by (simp add: and_not_numerals)
    then show ?thesis unfolding no [OF that]
      by (simp add: bit_eq_iff bit_simps) blast
  qed
  have "ParseMAC (hw_str ?m) = Inr ?m" if "length oui \<noteq> 3"
  proof -
    have "hd ?m \<noteq> 0" using two [OF that] by auto
    then show ?thesis using DeriveMAC_length [of sha cam oui] assms low
      by (cases ?m) (auto simp: ParseMAC_def net_parse_mac_hw_str)
  qed
  with low tail two show ?thesis by simp
qed

theorem DeriveMAC_sound_witness:
  "ParseMAC (hw_str (DeriveMAC (\<lambda>_. replicate 32 0) ''cam'' [])) =
     Inr (DeriveMAC (\<lambda>_. replicate 32 0) ''cam'' [])"
  using DeriveMAC_sound [of "\<lambda>_. replicate 32 0" "''cam''" "[]"] by simp

section \<open>Network identities\<close>

datatype net_mode = NetMacvlan | NetIPvlan | NetModeOther string
datatype ip_mode = IPStatic | IPDHCP | IPModeOther string

record NetIdentity =
  nid_Mode :: net_mode
  nid_ParentIf :: string
  nid_MAC :: string
  nid_IPMode :: ip_mode
  nid_IP :: addr
  nid_Prefix :: int
  nid_Gateway :: addr
  nid_DNS :: "addr list"

definition prefix_ok :: "int \<Rightarrow> bool" where
  "prefix_ok n = (1 \<le> n \<and> n \<le> 30)"

text \<open>The static branch of \<^verbatim>\<open>Validate\<close>: the address, its prefix, the gateway, and that the
  address is neither end of its prefix.\<close>

definition validate_ip :: "addr \<Rightarrow> field_error list \<Rightarrow> field_error list" where
  "validate_ip ip v =
    (case ip of
       Addr4 a \<Rightarrow> add_if (special_unicast a) ''network.ip'' (msg ''must be a unicast address usable on the LAN'') v
     | _ \<Rightarrow> add_field ''network.ip'' (msg ''must be an IPv4 address'') v)"

definition validate_gateway :: "addr \<Rightarrow> int \<Rightarrow> addr \<Rightarrow> field_error list \<Rightarrow> field_error list" where
  "validate_gateway ip prefix gw v =
    (case gw of
       NoAddr \<Rightarrow> v
     | Addr6 _ _ \<Rightarrow> add_field ''network.gateway'' (msg ''must be an IPv4 address'') v
     | Addr4 g \<Rightarrow>
         (case ip of
            Addr4 a \<Rightarrow>
              if prefix_ok prefix then
                add_if (gw = ip) ''network.gateway'' (msg ''must differ from the camera IP'')
                 (add_if (\<not> prefix_contains a (nat prefix) g) ''network.gateway''
                   (msgf ''must be inside %s'' [AStr (ip4_str (masked a (nat prefix))), AInt prefix]) v)
              else v
          | _ \<Rightarrow> v))"

definition validate_not_end :: "addr \<Rightarrow> int \<Rightarrow> field_error list \<Rightarrow> field_error list" where
  "validate_not_end ip prefix v =
    (case ip of
       Addr4 a \<Rightarrow>
         add_if (prefix_ok prefix \<and> (a = masked a (nat prefix) \<or> a = LastAddr a (nat prefix))) ''network.ip''
           (msgf ''must not be the network or broadcast address of %s''
             [AStr (ip4_str (masked a (nat prefix))), AInt prefix]) v
     | _ \<Rightarrow> v)"

definition identity_errors :: "NetIdentity \<Rightarrow> field_error list" where
  "identity_errors n =
    (let v = (case nid_Mode n of
                NetModeOther _ \<Rightarrow> add_field ''network.mode'' (msg ''must be macvlan or ipvlan'') []
              | _ \<Rightarrow> []);
         v = (case ParseMAC (nid_MAC n) of Inl e \<Rightarrow> add_field ''network.mac'' e v | Inr _ \<Rightarrow> v);
         v = (case nid_IPMode n of
                IPStatic \<Rightarrow>
                  validate_not_end (nid_IP n) (nid_Prefix n)
                    (validate_gateway (nid_IP n) (nid_Prefix n) (nid_Gateway n)
                      (add_if (\<not> prefix_ok (nid_Prefix n)) ''network.netmask''
                        (msg ''prefix length must be between 1 and 30'')
                        (validate_ip (nid_IP n) v)))
              | IPDHCP \<Rightarrow> add_field ''network.ip_mode'' (msg ''dhcp is not supported yet'') v
              | IPModeOther _ \<Rightarrow> add_field ''network.ip_mode'' (msg ''must be static or dhcp'') v)
     in foldl (\<lambda>v d. add_if (\<not> is4 d) ''network.dns'' (msgf ''%s is not an IPv4 address'' []) v) v (nid_DNS n))"

definition NetIdentity_Validate :: "NetIdentity \<Rightarrow> error option" where
  "NetIdentity_Validate n = verr (identity_errors n)"

lemma foldl_add_if_nil:
  "foldl (\<lambda>v d. add_if (P d) f (m d) v) v ds = [] \<longleftrightarrow> v = [] \<and> (\<forall>d\<in>set ds. \<not> P d)"
  by (induction ds arbitrary: v) auto

lemma validate_ip_nil: "validate_ip ip v = [] \<longleftrightarrow> v = [] \<and> (\<exists>a. ip = Addr4 a \<and> \<not> special_unicast a)"
  by (auto simp: validate_ip_def split: addr.splits)

lemma validate_gateway_nil:
  "validate_gateway (Addr4 a) p gw v = [] \<longleftrightarrow>
     v = [] \<and> (case gw of NoAddr \<Rightarrow> True | Addr6 _ _ \<Rightarrow> False
              | Addr4 g \<Rightarrow> prefix_ok p \<longrightarrow> prefix_contains a (nat p) g \<and> g \<noteq> a)"
  by (auto simp: validate_gateway_def split: addr.splits)

lemma validate_gateway_keeps: "validate_gateway ip p gw v = [] \<Longrightarrow> v = []"
  by (auto simp: validate_gateway_def split: addr.splits if_splits)

lemma validate_not_end_other [simp]: "\<not> is4 ip \<Longrightarrow> validate_not_end ip p v = v"
  by (auto simp: validate_not_end_def is4_def split: addr.splits)

lemma is4_simps [simp]: "is4 (Addr4 a)" "\<not> is4 NoAddr" "\<not> is4 (Addr6 b z)"
  by (simp_all add: is4_def)

lemma validate_not_end_nil:
  "prefix_contains a (nat p) a \<Longrightarrow> validate_not_end (Addr4 a) p v = [] \<longleftrightarrow>
     v = [] \<and> (prefix_ok p \<longrightarrow> host_of a (nat p) a)"
  by (auto simp: validate_not_end_def host_of_def)

lemma prefix_contains_self [simp]: "prefix_contains a n a"
  by (simp add: prefix_contains_def)

lemma ParseMAC_unicast:
  assumes "ParseMAC s = Inr hw"
  shows "length hw = 6 \<and> hd hw AND 1 = 0 \<and> (\<exists>b\<in>set hw. b \<noteq> 0)"
  using assms by (auto simp: ParseMAC_def list_all_iff split: option.splits if_splits)

text \<open>An identity is accepted exactly when its mode is known, its MAC is a unicast address,
  its addressing is static, its IPv4 address is a usable host address of its own prefix, the gateway
  (when there is one) is another IPv4 address of that prefix and every DNS server is IPv4.\<close>

theorem NetIdentity_Validate_iff:
  "NetIdentity_Validate n = None \<longleftrightarrow>
     (\<forall>m. nid_Mode n \<noteq> NetModeOther m) \<and> is_ok (ParseMAC (nid_MAC n)) \<and>
     nid_IPMode n = IPStatic \<and> prefix_ok (nid_Prefix n) \<and>
     (\<exists>a. nid_IP n = Addr4 a \<and> \<not> special_unicast a \<and> host_of a (nat (nid_Prefix n)) a \<and>
        (nid_Gateway n = NoAddr \<or>
         (\<exists>g. nid_Gateway n = Addr4 g \<and> g \<noteq> a \<and> prefix_contains a (nat (nid_Prefix n)) g))) \<and>
     list_all is4 (nid_DNS n)"
  unfolding NetIdentity_Validate_def identity_errors_def Let_def verr_None foldl_add_if_nil
  by (cases "nid_Mode n"; cases "ParseMAC (nid_MAC n)"; cases "nid_IPMode n"; cases "nid_IP n";
      cases "nid_Gateway n")
    (auto simp: list_all_iff validate_ip_nil validate_gateway_nil validate_not_end_nil dest!: validate_gateway_keeps)

end
