(* ===== verification/Domain_Mask.thy ===== *)
theory Domain_Mask
  imports Domain_Errors
begin

text \<open>
  \<^verbatim>\<open>backend/internal/domain/mask.go\<close>, \<^verbatim>\<open>user.go\<close>, \<^verbatim>\<open>event.go\<close> and the parsing of
  \<^verbatim>\<open>profile.go\<close>: identifier masks, user checks, event types and frame sizes. The source of
  random numbers of \<open>ExpandMask\<close> is a state \<open>'s\<close> with a draw function.
\<close>

section \<open>Masks\<close>

definition mask_variable :: "rune \<Rightarrow> bool" where
  "mask_variable r = (r = 57 \<or> r = 65 \<or> r = 88)"

fun mask_scan :: "bool \<Rightarrow> bool \<Rightarrow> rune list \<Rightarrow> bool" where
  "mask_scan variable escaped [] = variable"
| "mask_scan variable escaped (r # rs) =
    (if escaped then mask_scan variable False rs
     else if r = 92 then mask_scan variable True rs
     else mask_scan (variable \<or> mask_variable r) False rs)"

definition ValidateMask :: "string \<Rightarrow> message option" where
  "ValidateMask m =
    (if m = [] then Some (msg ''mask is empty'')
     else if 64 < length m then Some (msg ''mask is longer than 64 characters'')
     else if has_suffix [CHR 0x5C] m \<and> \<not> has_suffix [CHR 0x5C, CHR 0x5C] m
       then Some (msg ''mask ends with a lone backslash'')
     else if \<not> mask_scan False False (runes m)
       then Some (msg ''mask has no variable positions (9, A or X)'')
     else None)"

fun expand_loop ::
  "('s \<Rightarrow> nat \<Rightarrow> nat \<times> 's) \<Rightarrow> bool \<Rightarrow> rune list \<Rightarrow> 's \<Rightarrow> rune list \<times> 's" where
  "expand_loop next_fn escaped [] s = ([], s)"
| "expand_loop next_fn escaped (r # rs) s =
    (if escaped then
       (let (out, s') = expand_loop next_fn False rs s in (r # out, s'))
     else if r = 92 then expand_loop next_fn True rs s
     else if r = 57 then
       (let (n, s1) = next_fn s 10; (out, s') = expand_loop next_fn False rs s1 in ((48 + n) # out, s'))
     else if r = 65 then
       (let (n, s1) = next_fn s 26; (out, s') = expand_loop next_fn False rs s1 in ((65 + n) # out, s'))
     else if r = 88 then
       (let (n, s1) = next_fn s 16; (out, s') = expand_loop next_fn False rs s1
        in ((if n < 10 then 48 + n else 55 + n) # out, s'))
     else
       (let (out, s') = expand_loop next_fn False rs s in (r # out, s')))"

definition ExpandMask :: "('s \<Rightarrow> nat \<Rightarrow> nat \<times> 's) \<Rightarrow> string \<Rightarrow> 's \<Rightarrow> string \<times> 's" where
  "ExpandMask next_fn m s =
    (let (out, s') = expand_loop next_fn False (runes m) s in (concat (map encode_rune out), s'))"

text \<open>What a mask describes: its positions, an escape and the character it protects being one.\<close>

datatype mask_pos = Literal rune | AnyDigit | AnyUpper | AnyHex

definition mask_pos :: "rune \<Rightarrow> mask_pos" where
  "mask_pos r = (if r = 57 then AnyDigit else if r = 65 then AnyUpper else if r = 88 then AnyHex else Literal r)"

fun positions :: "rune list \<Rightarrow> mask_pos list" where
  "positions [] = []"
| "positions [r] = (if r = 92 then [] else [mask_pos r])"
| "positions (r # q # rs) = (if r = 92 then Literal q # positions rs else mask_pos r # positions (q # rs))"

fun fits :: "mask_pos \<Rightarrow> rune \<Rightarrow> bool" where
  "fits (Literal q) r = (r = q)"
| "fits AnyDigit r = (48 \<le> r \<and> r \<le> 57)"
| "fits AnyUpper r = (65 \<le> r \<and> r \<le> 90)"
| "fits AnyHex r = (48 \<le> r \<and> r \<le> 57 \<or> 65 \<le> r \<and> r \<le> 70)"

lemma expand_loop_fits:
  assumes next_fn: "\<And>s n. 0 < n \<Longrightarrow> fst (next_fn s n) < n"
  shows "list_all2 fits (positions rs) (fst (expand_loop next_fn False rs s))"
proof (induction rs arbitrary: s rule: positions.induct)
  case 1
  show ?case by simp
next
  case (2 r)
  show ?case using next_fn [of 10 s] next_fn [of 26 s] next_fn [of 16 s]
    by (auto simp: mask_pos_def split: prod.splits)
next
  case (3 r q rs)
  show ?case
  proof (cases "r = 92")
    case True
    with "3.IH"(1) [of s] show ?thesis by (auto split: prod.splits)
  next
    case False
    have IH: "list_all2 fits (positions (q # rs)) (fst (expand_loop next_fn False (q # rs) s))" for s
      using "3.IH"(2) [OF False] .
    have "\<exists>t s1. fst (expand_loop next_fn False (r # q # rs) s) =
        t # fst (expand_loop next_fn False (q # rs) s1) \<and> fits (mask_pos r) t"
      using False next_fn [of 10 s] next_fn [of 26 s] next_fn [of 16 s]
      by (simp add: mask_pos_def case_prod_beta Let_def del: expand_loop.simps(2) add: expand_loop.simps(2) [of _ _ r])
        (metis (no_types, lifting))
    with IH False show ?thesis by fastforce
  qed
qed

lemma mask_scan_mono: "mask_scan True e rs"
  by (induction rs arbitrary: e) auto

lemma mask_scan_positions:
  "mask_scan False False rs \<Longrightarrow> \<exists>p\<in>set (positions rs). \<forall>q. p \<noteq> Literal q"
proof (induction rs rule: positions.induct)
  case (3 r q rs)
  then show ?case by (auto simp: mask_pos_def mask_variable_def split: if_splits)
qed (auto simp: mask_pos_def mask_variable_def split: if_splits)

text \<open>Expanding an accepted mask gives a text that fits it position by position, and the mask
  has at least one position that varies.\<close>

theorem ExpandMask_fits:
  assumes "ValidateMask m = None" "\<And>s n. 0 < n \<Longrightarrow> fst (next_fn s n) < n"
  shows "(\<exists>p\<in>set (positions (runes m)). \<forall>q. p \<noteq> Literal q) \<and>
    (\<exists>out. fst (ExpandMask next_fn m s) = concat (map encode_rune out) \<and>
           list_all2 fits (positions (runes m)) out)"
proof
  show "\<exists>p\<in>set (positions (runes m)). \<forall>q. p \<noteq> Literal q"
    using assms(1) by (intro mask_scan_positions) (auto simp: ValidateMask_def split: if_splits)
  show "\<exists>out. fst (ExpandMask next_fn m s) = concat (map encode_rune out) \<and>
        list_all2 fits (positions (runes m)) out"
    using expand_loop_fits [of next_fn "runes m" s, OF assms(2)]
    by (auto simp: ExpandMask_def case_prod_beta Let_def)
qed

theorem ExpandMask_fits_witness:
  "\<exists>p\<in>set (positions (runes ''SN-99'')). \<forall>q. p \<noteq> Literal q"
proof -
  have "ValidateMask ''SN-99'' = None"
    by (simp add: ValidateMask_def ascii_eval mask_variable_def has_suffix_def has_prefix_def)
  then show ?thesis using ExpandMask_fits [of "''SN-99''" "\<lambda>s n. (0, s)" "()"] by simp
qed

text \<open>A mask that ends in three backslashes passes, and its last backslash escapes nothing.\<close>

lemma lone_backslash_accepted:
  "ValidateMask [CHR ''9'', CHR 0x5C, CHR 0x5C, CHR 0x5C] = None"
  "positions (runes [CHR ''9'', CHR 0x5C, CHR 0x5C, CHR 0x5C]) = [AnyDigit, Literal 92]"
  by (simp_all add: ValidateMask_def ascii_eval mask_variable_def has_suffix_def has_prefix_def mask_pos_def)

end
