(* ===== verification/Domain_Users.thy ===== *)
theory Domain_Users
  imports Domain_Errors
begin

text \<open>
  \<^verbatim>\<open>backend/internal/domain/user.go\<close>, \<^verbatim>\<open>event.go\<close> and \<^verbatim>\<open>profile.go\<close>: the checks of user
  names, of the users of a camera, of event types and targets, and frame sizes. The
  parser of URLs (\<^verbatim>\<open>net/url\<close>) is an argument.
\<close>

section \<open>Users\<close>

definition user_char :: "rune \<Rightarrow> bool" where
  "user_char r = (is_lower_c r \<or> is_upper_c r \<or> is_digit_c r \<or> r \<in> {46, 95, 45, 64})"

definition ValidateUsername :: "string \<Rightarrow> string \<Rightarrow> field_error list" where
  "ValidateUsername field name =
    (if name = [] then add_field field (msg ''is required'') []
     else if 32 < rune_count name then add_field field (msg ''must be at most 32 characters'') []
     else if \<not> list_all user_char (runes name)
       then add_field field (msg ''may only contain letters, digits and . _ - @'') []
     else [])"

definition MinPasswordLength :: nat where
  "MinPasswordLength = 10"

definition ValidatePanelPassword :: "string \<Rightarrow> error option" where
  "ValidatePanelPassword pw =
    (if rune_count pw < MinPasswordLength
       then Some (invalid ''password'' (msgf ''must be at least %d characters'' [AInt (int MinPasswordLength)]))
     else if 256 < length pw then Some (invalid ''password'' (msg ''must be at most 256 bytes''))
     else None)"

datatype user_role = RoleAdmin | RoleOperator | RoleViewer | RoleOther string

record CameraUser =
  cu_ID :: string
  cu_Username :: string
  cu_Password :: string
  cu_Role :: user_role

definition user_field :: "nat \<Rightarrow> string" where
  "user_field i = ''users['' @ nat_str i @ '']''"

definition password_char :: "char \<Rightarrow> bool" where
  "password_char c = (c \<noteq> CHR 0x0D \<and> c \<noteq> CHR 0x0A \<and> c \<noteq> CHR 0x00)"

definition role_known :: "user_role \<Rightarrow> bool" where
  "role_known r = (case r of RoleOther _ \<Rightarrow> False | _ \<Rightarrow> True)"

definition user_errors :: "(rune \<Rightarrow> rune) \<Rightarrow> string set \<Rightarrow> nat \<Rightarrow> CameraUser \<Rightarrow> field_error list \<Rightarrow> field_error list" where
  "user_errors uni seen i u v =
    (let field = user_field i;
         v = v @ ValidateUsername (field @ ''.username'') (cu_Username u);
         v = add_if (cu_Password u = [] \<or> 64 < length (cu_Password u)) (field @ ''.password'')
               (msg ''is required and must be at most 64 bytes'') v;
         v = add_if (\<not> list_all password_char (cu_Password u)) (field @ ''.password'')
               (msg ''must not contain control characters'') v;
         v = add_if (\<not> role_known (cu_Role u)) (field @ ''.role'')
               (msg ''must be admin, operator or viewer'') v
     in add_if (to_lower uni (cu_Username u) \<in> seen) (field @ ''.username'') (msg ''is duplicated'') v)"

fun users_loop ::
  "(rune \<Rightarrow> rune) \<Rightarrow> nat \<Rightarrow> string set \<Rightarrow> nat \<Rightarrow> field_error list \<Rightarrow> CameraUser list \<Rightarrow> nat \<times> field_error list" where
  "users_loop uni i seen admins v [] = (admins, v)"
| "users_loop uni i seen admins v (u # us) =
    users_loop uni (i + 1) (insert (to_lower uni (cu_Username u)) seen)
      (if cu_Role u = RoleAdmin then admins + 1 else admins) (user_errors uni seen i u v) us"

definition ValidateCameraUsers :: "(rune \<Rightarrow> rune) \<Rightarrow> CameraUser list \<Rightarrow> error option" where
  "ValidateCameraUsers uni us =
    (let (admins, v) = users_loop uni 0 {} 0 [] us
     in verr (add_if (admins = 0) ''users'' (msg ''at least one admin user is required'') v))"

definition user_ok :: "CameraUser \<Rightarrow> bool" where
  "user_ok u = (cu_Username u \<noteq> [] \<and> rune_count (cu_Username u) \<le> 32 \<and> list_all user_char (runes (cu_Username u)) \<and>
     1 \<le> length (cu_Password u) \<and> length (cu_Password u) \<le> 64 \<and>
     list_all password_char (cu_Password u) \<and> role_known (cu_Role u))"

lemma ValidateUsername_nil:
  "ValidateUsername f n = [] \<longleftrightarrow> n \<noteq> [] \<and> rune_count n \<le> 32 \<and> list_all user_char (runes n)"
  by (simp add: ValidateUsername_def)

lemma user_errors_nil:
  "user_errors uni seen i u v = [] \<longleftrightarrow> v = [] \<and> user_ok u \<and> to_lower uni (cu_Username u) \<notin> seen"
  by (auto simp: user_errors_def Let_def ValidateUsername_nil user_ok_def Suc_le_eq)

lemma users_loop_errors:
  "snd (users_loop uni i seen a v us) = [] \<longleftrightarrow>
     v = [] \<and> list_all user_ok us \<and> distinct (map (\<lambda>u. to_lower uni (cu_Username u)) us) \<and>
     (\<forall>u\<in>set us. to_lower uni (cu_Username u) \<notin> seen)"
proof (induction us arbitrary: i seen a v)
  case (Cons u us)
  then show ?case by (auto simp: user_errors_nil) (metis image_eqI)
qed simp

lemma users_loop_admins:
  "fst (users_loop uni i seen a v us) = a + length (filter (\<lambda>u. cu_Role u = RoleAdmin) us)"
  by (induction us arbitrary: i seen a v) auto

text \<open>The users of a camera are accepted exactly when each is well formed, no two names agree
  but for case, and at least one is an administrator.\<close>

theorem ValidateCameraUsers_iff:
  "ValidateCameraUsers uni us = None \<longleftrightarrow>
     list_all user_ok us \<and> distinct (map (\<lambda>u. to_lower uni (cu_Username u)) us) \<and>
     (\<exists>u\<in>set us. cu_Role u = RoleAdmin)"
  using users_loop_errors [of uni 0 "{}" 0 "[]" us] users_loop_admins [of uni 0 "{}" 0 "[]" us]
  by (auto simp: ValidateCameraUsers_def case_prod_beta filter_empty_conv)

section \<open>Events and targets\<close>

definition CanonicalEventTypes :: "string list" where
  "CanonicalEventTypes =
    [''line_crossing'', ''region_entrance'', ''region_exit'', ''loitering'', ''intrusion'', ''motion'',
     ''lpr'', ''speed'', ''tamper'']"

definition event_char :: "rune \<Rightarrow> bool" where
  "event_char r = (is_lower_c r \<or> is_digit_c r \<or> r = 95 \<or> r = 45 \<or> r = 46)"

definition ValidEventType :: "string \<Rightarrow> bool" where
  "ValidEventType t =
    (contains CanonicalEventTypes t \<or>
     (case cut_prefix ''custom:'' t of
        None \<Rightarrow> False
      | Some name \<Rightarrow> name \<noteq> [] \<and> length name \<le> 64 \<and> list_all event_char (runes name)))"

definition ValidDirection :: "string \<Rightarrow> bool" where
  "ValidDirection d = contains [''A->B'', ''B->A'', ''none''] d"

text \<open>The parts of a parsed URL the check of a target reads.\<close>

record url_parts =
  u_Scheme :: string
  u_Host :: string
  u_User :: bool

record Target =
  tg_Name :: string
  tg_Type :: string
  tg_URL :: string
  tg_Method :: string
  tg_Headers :: "string list"

definition target_errors :: "(string \<Rightarrow> url_parts option) \<Rightarrow> Target \<Rightarrow> field_error list" where
  "target_errors url_parse t =
    (let name = trim_space (tg_Name t);
         v = add_if (name = [] \<or> 64 < length name) ''name'' (msg ''is required and must be at most 64 characters'') [];
         v = add_if (tg_Type t \<noteq> ''http'') ''type'' (msg ''must be http'') v;
         v = (case url_parse (tg_URL t) of
                None \<Rightarrow> add_field ''url'' (msg ''must be an absolute http or https URL'') v
              | Some u \<Rightarrow>
                  if \<not> contains [''http'', ''https''] (u_Scheme u) \<or> u_Host u = []
                    then add_field ''url'' (msg ''must be an absolute http or https URL'') v
                  else add_if (u_User u) ''url'' (msg ''must not embed credentials; use username and password'') v);
         v = add_if (\<not> contains [''GET'', ''POST'', ''PUT''] (tg_Method t)) ''method'' (msg ''must be GET, POST or PUT'') v
     in foldl (\<lambda>v k. add_if (k = [] \<or> list_ex (\<lambda>c. c \<in> {CHR '' '', CHR '':'', CHR 0x0D, CHR 0x0A}) k)
                 ''headers'' (msgf ''invalid header name %q'' [AStr k]) v) v (tg_Headers t))"

definition ValidateTarget :: "(string \<Rightarrow> url_parts option) \<Rightarrow> Target \<Rightarrow> error option" where
  "ValidateTarget url_parse t = verr (target_errors url_parse t)"

section \<open>Frame sizes and profile identifiers\<close>

record Resolution =
  res_Width :: nat
  res_Height :: nat

text \<open>One side of \<^verbatim>\<open>^([1-9][0-9]{1,4})x([1-9][0-9]{1,4})$\<close>.\<close>

definition side_ok :: "string \<Rightarrow> bool" where
  "side_ok s = (2 \<le> length s \<and> length s \<le> 5 \<and> list_all (\<lambda>c. is_digit_c (byte c)) s \<and> hd s \<noteq> CHR ''0'')"

definition ParseResolution :: "string \<Rightarrow> (error, Resolution) result" where
  "ParseResolution s =
    (case cut (CHR ''x'') s of
       None \<Rightarrow> Inl (invalid ''resolution'' (msg ''must look like 1920x1080''))
     | Some (a, b) \<Rightarrow>
         (if \<not> side_ok a \<or> \<not> side_ok b then Inl (invalid ''resolution'' (msg ''must look like 1920x1080''))
          else
            (let w = (case digits_val 0 a of Some n \<Rightarrow> n | None \<Rightarrow> 0);
                 h = (case digits_val 0 b of Some n \<Rightarrow> n | None \<Rightarrow> 0)
             in if w mod 2 \<noteq> 0 \<or> h mod 2 \<noteq> 0
                  then Inl (invalid ''resolution'' (msg ''width and height must be even''))
                else if 7680 < w \<or> 4320 < h
                  then Inl (invalid ''resolution'' (msg ''must be at most 7680x4320''))
                else Inr \<lparr>res_Width = w, res_Height = h\<rparr>)))"

definition Resolution_String :: "Resolution \<Rightarrow> string" where
  "Resolution_String r = nat_str (res_Width r) @ CHR ''x'' # nat_str (res_Height r)"

lemma side_ok_nat_str: "10 \<le> n \<Longrightarrow> n < 100000 \<Longrightarrow> side_ok (nat_str n)"
  using nat_str_length [of n 5] nat_str_long [of n] nat_str_hd [of n] nat_str_digits [of _ n]
  by (simp add: side_ok_def list_all_iff)

lemma side_ok_val:
  assumes "side_ok s"
  shows "\<exists>n. digits_val 0 s = Some n \<and> nat_str n = s \<and> 10 \<le> n"
proof -
  have d: "list_all (\<lambda>c. is_digit_c (byte c)) s" "s \<noteq> []" "hd s \<noteq> CHR ''0''" "2 \<le> length s"
    using assms by (auto simp: side_ok_def)
  then obtain n where n: "digits_val 0 s = Some n" "nat_str n = s" using nat_str_digits_val by blast
  moreover have "10 \<le> n" using d(4) n(2) nat_str_short [of n] by (cases "n < 10") auto
  ultimately show ?thesis by blast
qed

lemma x_not_digit: "CHR ''x'' \<notin> set (nat_str n)"
  using nat_str_digits [of "CHR ''x''" n] by (auto simp: is_digit_c_def byte_def)

text \<open>A text parses to a frame size exactly when it is how that size is printed and the size is
  even and between 10x10 and 7680x4320.\<close>

theorem ParseResolution_iff:
  "ParseResolution s = Inr r \<longleftrightarrow>
     s = Resolution_String r \<and> even (res_Width r) \<and> even (res_Height r) \<and>
     10 \<le> res_Width r \<and> res_Width r \<le> 7680 \<and> 10 \<le> res_Height r \<and> res_Height r \<le> 4320"
proof
  assume p: "ParseResolution s = Inr r"
  then obtain a b where c: "cut (CHR ''x'') s = Some (a, b)" and ok: "side_ok a" "side_ok b"
    by (auto simp: ParseResolution_def split: option.splits if_splits)
  obtain w h where w: "digits_val 0 a = Some w" "nat_str w = a" "10 \<le> w"
    and h: "digits_val 0 b = Some h" "nat_str h = b" "10 \<le> h"
    using side_ok_val ok by metis
  with p c ok show "s = Resolution_String r \<and> even (res_Width r) \<and> even (res_Height r) \<and>
     10 \<le> res_Width r \<and> res_Width r \<le> 7680 \<and> 10 \<le> res_Height r \<and> res_Height r \<le> 4320"
    by (auto simp: ParseResolution_def Resolution_String_def cut_Some even_iff_mod_2_eq_zero split: if_splits)
next
  assume r: "s = Resolution_String r \<and> even (res_Width r) \<and> even (res_Height r) \<and>
     10 \<le> res_Width r \<and> res_Width r \<le> 7680 \<and> 10 \<le> res_Height r \<and> res_Height r \<le> 4320"
  then have "cut (CHR ''x'') s = Some (nat_str (res_Width r), nat_str (res_Height r))"
    by (simp add: cut_Some Resolution_String_def x_not_digit)
  with r show "ParseResolution s = Inr r"
    by (simp add: ParseResolution_def side_ok_nat_str digits_val_nat_str)
qed

definition id_part_ok :: "string \<Rightarrow> bool" where
  "id_part_ok s =
    (case s of [] \<Rightarrow> False
     | c # cs \<Rightarrow> (is_lower_c (byte c) \<or> is_digit_c (byte c)) \<and> length cs \<le> 62 \<and>
         list_all (\<lambda>c. is_lower_c (byte c) \<or> is_digit_c (byte c) \<or> byte c \<in> {46, 95, 45}) cs)"

definition ValidProfileID :: "string \<Rightarrow> bool" where
  "ValidProfileID s =
    (case cut (CHR ''/'') s of None \<Rightarrow> False | Some (a, b) \<Rightarrow> id_part_ok a \<and> id_part_ok b)"

end
