(* ===== verification/Go_Float.thy ===== *)
theory Go_Float
  imports Complex_Main Prelude
begin

text \<open>
  Go's \<^verbatim>\<open>float64\<close> arithmetic on the values the sources compute: every operation is the
  exact rational one followed by \<open>fl\<close>, round to nearest with ties to even at 53 bits.
  Overflow to infinity, subnormal numbers and NaN are outside the model: the quantities
  here (percentages, tokens, byte counts, seconds) are far from both ends of the range.
\<close>

type_synonym float64 = rat

section \<open>Rounding to an integer, ties to even\<close>

definition round_even :: "rat \<Rightarrow> int" where
  "round_even q =
    (let n = \<lfloor>q\<rfloor>; d = q - of_int n in
     if d < 1/2 then n else if 1/2 < d then n + 1 else if even n then n else n + 1)"

lemma round_even_int [simp]: "round_even (of_int n) = n"
  by (simp add: round_even_def)

lemma round_even_bounds: "\<lfloor>q\<rfloor> \<le> round_even q \<and> round_even q \<le> \<lfloor>q\<rfloor> + 1"
  by (auto simp: round_even_def Let_def)

lemma round_even_mono:
  assumes "p \<le> q" shows "round_even p \<le> round_even q"
proof -
  have le: "\<lfloor>p\<rfloor> \<le> \<lfloor>q\<rfloor>" using assms by (rule floor_mono)
  show ?thesis
  proof (cases "\<lfloor>p\<rfloor> = \<lfloor>q\<rfloor>")
    case True
    then have "p - of_int \<lfloor>p\<rfloor> \<le> q - of_int \<lfloor>q\<rfloor>" using assms by simp
    with True show ?thesis by (auto simp: round_even_def Let_def)
  next
    case False
    with le have "\<lfloor>p\<rfloor> + 1 \<le> \<lfloor>q\<rfloor>" by simp
    with round_even_bounds [of p] round_even_bounds [of q] show ?thesis by linarith
  qed
qed

lemma round_even_upper: "q \<le> of_int n \<Longrightarrow> round_even q \<le> n"
  using round_even_mono [of q "of_int n"] by simp

lemma round_even_lower: "of_int n \<le> q \<Longrightarrow> n \<le> round_even q"
  using round_even_mono [of "of_int n" q] by simp

section \<open>The binary exponent\<close>

text \<open>
  \<open>bexp q\<close> is the \<open>e\<close> with \<open>2 powi e \<le> q < 2 powi (e + 1)\<close>, found by scaling \<open>q\<close>
  into the interval from 1 to 2.
\<close>

function up_exp :: "rat \<Rightarrow> nat" where
  "up_exp q = (if 2 \<le> q then Suc (up_exp (q / 2)) else 0)"
  by pat_completeness auto
termination
proof (relation "measure (\<lambda>q. nat \<lfloor>q\<rfloor>)")
  fix q :: rat
  assume q: "2 \<le> q"
  have "q / 2 \<le> q - 1" using q by simp
  then have "\<lfloor>q / 2\<rfloor> \<le> \<lfloor>q\<rfloor> - 1" by (metis floor_mono floor_diff_one)
  moreover have "2 \<le> \<lfloor>q\<rfloor>" using q by (simp add: le_floor_iff)
  ultimately show "(q / 2, q) \<in> measure (\<lambda>q. nat \<lfloor>q\<rfloor>)" by simp
qed simp

function down_exp :: "rat \<Rightarrow> nat" where
  "down_exp q = (if 0 < q \<and> q < 1 then Suc (down_exp (2 * q)) else 0)"
  by pat_completeness auto
termination
proof (relation "measure (\<lambda>q. nat \<lceil>1 / q\<rceil>)")
  fix q :: rat
  assume q: "0 < q \<and> q < 1"
  have one: "1 < 1 / q" using q by (simp add: field_simps)
  show "(2 * q, q) \<in> measure (\<lambda>q. nat \<lceil>1 / q\<rceil>)"
  proof -
    have e: "1 / (2 * q) = (1 / q) / 2" by simp
    have "\<lceil>x / 2\<rceil> < \<lceil>x\<rceil>" if one: "1 < x" for x :: rat
    proof (cases "x \<le> 2")
      case True
      then have "\<lceil>x / 2\<rceil> \<le> 1" by (simp add: ceiling_le_iff)
      moreover have "1 < \<lceil>x\<rceil>" using one by (simp add: less_ceiling_iff)
      ultimately show ?thesis by (rule le_less_trans)
    next
      case False
      then have "x / 2 \<le> x - 1" by simp
      then have "\<lceil>x / 2\<rceil> \<le> \<lceil>x\<rceil> - 1" by (metis ceiling_mono ceiling_diff_one)
      then show ?thesis by simp
    qed
    then have "\<lceil>(1 / q) / 2\<rceil> < \<lceil>1 / q\<rceil>" using one .
    moreover have "0 < \<lceil>1 / q\<rceil>" using q by (simp add: less_ceiling_iff)
    ultimately show ?thesis by (simp add: e)
  qed
qed simp

declare up_exp.simps [simp del] down_exp.simps [simp del]

definition bexp :: "rat \<Rightarrow> int" where
  "bexp q = (if 1 \<le> q then int (up_exp q) else - int (down_exp q))"

lemma up_exp_spec: "1 \<le> q \<Longrightarrow> 2 ^ up_exp q \<le> q \<and> q < 2 * 2 ^ up_exp q"
proof (induction q rule: up_exp.induct)
  case (1 q)
  show ?case
  proof (cases "2 \<le> q")
    case True
    with "1.IH" have "2 ^ up_exp (q / 2) \<le> q / 2 \<and> q / 2 < 2 * 2 ^ up_exp (q / 2)" by simp
    with True show ?thesis by (simp add: up_exp.simps [of q])
  next
    case False
    with "1.prems" show ?thesis by (simp add: up_exp.simps [of q])
  qed
qed

lemma down_exp_spec: "0 < q \<Longrightarrow> q < 2 \<Longrightarrow> 1 \<le> q * 2 ^ down_exp q \<and> q * 2 ^ down_exp q < 2"
proof (induction q rule: down_exp.induct)
  case (1 q)
  show ?case
  proof (cases "q < 1")
    case True
    with "1" have "1 \<le> 2 * q * 2 ^ down_exp (2 * q) \<and> 2 * q * 2 ^ down_exp (2 * q) < 2" by simp
    with True "1.prems" show ?thesis by (simp add: down_exp.simps [of q] mult.assoc mult.left_commute)
  next
    case False
    with "1.prems" show ?thesis by (simp add: down_exp.simps [of q])
  qed
qed

lemma bexp_spec:
  assumes "0 < q" shows "2 powi bexp q \<le> q \<and> q < 2 powi (bexp q + 1)"
proof (cases "1 \<le> q")
  case True
  then show ?thesis using up_exp_spec [of q]
    by (simp add: bexp_def power_int_add)
next
  case False
  with assms have s: "1 \<le> q * 2 ^ down_exp q" "q * 2 ^ down_exp q < 2"
    using down_exp_spec [of q] by auto
  have p: "(0::rat) < 2 ^ down_exp q" by simp
  have e: "(2::rat) powi bexp q = 1 / 2 ^ down_exp q"
    using False by (simp add: bexp_def power_int_minus divide_inverse)
  have "2 powi (bexp q + 1) = 2 * (2::rat) powi bexp q"
    by (simp add: power_int_add)
  moreover have "1 / 2 ^ down_exp q \<le> q" "q < 2 * (1 / 2 ^ down_exp q)"
    using s p by (simp_all add: field_simps)
  ultimately show ?thesis using e by simp
qed

lemma bexp_mono:
  assumes "0 < p" "p \<le> q" shows "bexp p \<le> bexp q"
proof (rule ccontr)
  assume "\<not> bexp p \<le> bexp q"
  then have le: "bexp q + 1 \<le> bexp p" by simp
  have "q < 2 powi (bexp q + 1)" using bexp_spec [of q] assms by simp
  also have "(2::rat) powi (bexp q + 1) \<le> 2 powi bexp p"
    using le by (intro power_int_increasing) auto
  also have "\<dots> \<le> p" using bexp_spec [of p] assms by simp
  finally show False using assms by simp
qed

section \<open>Rounding to 53 bits\<close>

definition ulp :: "rat \<Rightarrow> rat" where
  "ulp q = 2 powi (bexp q - 52)"

definition fl :: "rat \<Rightarrow> float64" where
  "fl q =
    (if q = 0 then 0
     else if 0 < q then of_int (round_even (q / ulp q)) * ulp q
     else - (of_int (round_even (- q / ulp (- q))) * ulp (- q)))"

lemma ulp_pos [simp]: "0 < ulp q"
  by (simp add: ulp_def)

lemma ulp_nonzero [simp]: "ulp q \<noteq> 0"
  by (simp add: ulp_def)

lemma fl_zero [simp]: "fl 0 = 0"
  by (simp add: fl_def)

lemma fl_minus: "fl (- q) = - fl q"
  by (simp add: fl_def)

lemma powi_ulp: "2 powi bexp q / ulp q = 2 ^ 52"
  by (simp add: ulp_def power_int_diff)

text \<open>The rounded value stays in the closed binade of the exact one.\<close>

lemma fl_binade:
  assumes "0 < q" shows "2 powi bexp q \<le> fl q \<and> fl q \<le> 2 powi (bexp q + 1)"
proof -
  have lo: "(of_int (2 ^ 52) :: rat) \<le> q / ulp q"
  proof -
    have "2 powi bexp q / ulp q \<le> q / ulp q"
      using bexp_spec [OF assms] by (intro divide_right_mono) (auto intro: less_imp_le)
    then show ?thesis unfolding powi_ulp by simp
  qed
  have "q / ulp q \<le> 2 powi (bexp q + 1) / ulp q"
    using bexp_spec [OF assms] by (intro divide_right_mono) (auto intro: less_imp_le)
  also have "\<dots> = 2 * (2 powi bexp q / ulp q)" by (simp add: power_int_add)
  also have "\<dots> = of_int (2 ^ 53)" unfolding powi_ulp by simp
  finally have hi: "q / ulp q \<le> of_int (2 ^ 53)" .
  have l: "(2 ^ 52 :: int) \<le> round_even (q / ulp q)" using lo by (rule round_even_lower)
  have h: "round_even (q / ulp q) \<le> (2 ^ 53 :: int)" using hi by (rule round_even_upper)
  have f: "fl q = of_int (round_even (q / ulp q)) * ulp q" using assms by (simp add: fl_def)
  have e1: "(2::rat) powi bexp q = of_int (2 ^ 52) * ulp q"
    using powi_ulp [of q] by (simp add: field_simps)
  have e2: "(2::rat) powi (bexp q + 1) = of_int (2 ^ 53) * ulp q"
    using e1 by (simp add: power_int_add)
  have "of_int (2 ^ 52) * ulp q \<le> of_int (round_even (q / ulp q)) * ulp q"
    using l by (intro mult_right_mono) (simp_all only: of_int_le_iff ulp_pos less_imp_le)
  moreover have "of_int (round_even (q / ulp q)) * ulp q \<le> of_int (2 ^ 53) * ulp q"
    using h by (intro mult_right_mono) (simp_all only: of_int_le_iff ulp_pos less_imp_le)
  ultimately show ?thesis unfolding f e1 e2 by simp
qed

lemma fl_pos: "0 < q \<Longrightarrow> 0 < fl q"
  using fl_binade [of q] by (metis less_le_trans zero_less_numeral zero_less_power_int)

lemma fl_mono_pos:
  assumes "0 < p" "p \<le> q" shows "fl p \<le> fl q"
proof -
  have q: "0 < q" using assms by simp
  show ?thesis
  proof (cases "bexp p = bexp q")
    case True
    then have u: "ulp p = ulp q" by (simp add: ulp_def)
    have "round_even (p / ulp q) \<le> round_even (q / ulp q)"
      using assms by (intro round_even_mono divide_right_mono) (auto intro: less_imp_le)
    then show ?thesis using assms q u by (simp add: fl_def mult_right_mono less_imp_le)
  next
    case False
    with bexp_mono [OF assms] have "bexp p + 1 \<le> bexp q" by simp
    then have "(2::rat) powi (bexp p + 1) \<le> 2 powi bexp q"
      by (intro power_int_increasing) auto
    with fl_binade [OF assms(1)] fl_binade [OF q] show ?thesis by linarith
  qed
qed

theorem fl_mono: "p \<le> q \<Longrightarrow> fl p \<le> fl q"
proof -
  assume le: "p \<le> q"
  consider "0 < p" | "p = 0" | "p < 0" "0 \<le> q" | "p < 0" "q < 0" by linarith
  then show ?thesis
  proof cases
    case 1
    then show ?thesis using fl_mono_pos le by blast
  next
    case 2
    then show ?thesis using fl_pos [of q] le by (cases "q = 0") auto
  next
    case 3
    then have "fl p < 0" using fl_pos [of "- p"] by (simp add: fl_minus)
    moreover have "0 \<le> fl q" using 3 fl_pos [of q] by (cases "q = 0") auto
    ultimately show ?thesis by simp
  next
    case 4
    then have "fl (- q) \<le> fl (- p)" using le by (intro fl_mono_pos) auto
    then show ?thesis by (simp add: fl_minus)
  qed
qed

lemma fl_nonneg: "0 \<le> q \<Longrightarrow> 0 \<le> fl q"
  using fl_mono [of 0 q] by simp

text \<open>Integers of at most 53 bits are represented exactly.\<close>

lemma fl_of_int_exact:
  assumes "\<bar>n\<bar> < 2 ^ 53" shows "fl (of_int n) = of_int n"
proof -
  have pos: "fl (of_int m) = of_int m" if "0 < m" "m < 2 ^ 53" for m :: int
  proof -
    let ?q = "of_int m :: rat"
    have q: "0 < ?q" using that by simp
    have "bexp ?q \<le> 52"
    proof (rule ccontr)
      assume "\<not> bexp ?q \<le> 52"
      then have "(2::rat) powi 53 \<le> 2 powi bexp ?q" by (intro power_int_increasing) auto
      also have "\<dots> \<le> ?q" using bexp_spec [OF q] by simp
      finally have "(2 ^ 53 :: rat) \<le> of_int m" by simp
      then have "(2 ^ 53 :: int) \<le> m" by (metis of_int_le_iff of_int_numeral of_int_power)
      with that show False by simp
    qed
    moreover have "0 \<le> bexp ?q" using that by (simp add: bexp_def)
    ultimately have "?q / ulp ?q = of_int (m * 2 ^ nat (52 - bexp ?q))"
    proof -
      assume b: "bexp ?q \<le> 52"
      have "ulp ?q = 1 / 2 powi (52 - bexp ?q)"
        unfolding ulp_def by (metis minus_diff_eq power_int_minus divide_inverse mult_1)
      also have "(2::rat) powi (52 - bexp ?q) = 2 ^ nat (52 - bexp ?q)"
        using b by (simp add: power_int_def)
      finally show ?thesis by simp
    qed
    then have "round_even (?q / ulp ?q) = m * 2 ^ nat (52 - bexp ?q)"
      by (simp only: round_even_int)
    then have "fl ?q = (?q / ulp ?q) * ulp ?q"
      using \<open>?q / ulp ?q = _\<close> q by (simp add: fl_def)
    also have "\<dots> = ?q" by simp
    finally show ?thesis .
  qed
  consider "n = 0" | "0 < n" | "0 < - n" by linarith
  then show ?thesis
  proof cases
    case 3
    then have "fl (of_int (- n)) = of_int (- n)" using assms by (intro pos) auto
    then show ?thesis by (simp add: fl_minus)
  qed (use pos assms in auto)
qed

lemma fl_of_nat_exact: "n < 2 ^ 53 \<Longrightarrow> fl (of_nat n) = of_nat n"
  using fl_of_int_exact [of "int n"] by simp

section \<open>The operations\<close>

definition fadd :: "float64 \<Rightarrow> float64 \<Rightarrow> float64" where "fadd a b = fl (a + b)"
definition fsub :: "float64 \<Rightarrow> float64 \<Rightarrow> float64" where "fsub a b = fl (a - b)"
definition fmul :: "float64 \<Rightarrow> float64 \<Rightarrow> float64" where "fmul a b = fl (a * b)"
definition fdiv :: "float64 \<Rightarrow> float64 \<Rightarrow> float64" where "fdiv a b = fl (a / b)"
definition float_of_nat :: "nat \<Rightarrow> float64" where "float_of_nat n = fl (of_nat n)"
definition float_of_int :: "int \<Rightarrow> float64" where "float_of_int n = fl (of_int n)"

lemma fadd_mono: "a \<le> c \<Longrightarrow> b \<le> d \<Longrightarrow> fadd a b \<le> fadd c d"
  unfolding fadd_def by (intro fl_mono add_mono)

lemma fmul_mono: "0 \<le> a \<Longrightarrow> 0 \<le> b \<Longrightarrow> a \<le> c \<Longrightarrow> b \<le> d \<Longrightarrow> fmul a b \<le> fmul c d"
  unfolding fmul_def by (intro fl_mono mult_mono) auto

lemma fdiv_mono: "0 \<le> a \<Longrightarrow> a \<le> c \<Longrightarrow> 0 < b \<Longrightarrow> fdiv a b \<le> fdiv c b"
  unfolding fdiv_def by (intro fl_mono divide_right_mono) auto

lemma float_of_nat_mono: "m \<le> n \<Longrightarrow> float_of_nat m \<le> float_of_nat n"
  unfolding float_of_nat_def by (intro fl_mono) simp

lemma float_of_nat_nonneg [simp]: "0 \<le> float_of_nat n"
  unfolding float_of_nat_def by (intro fl_nonneg) simp

lemma float_of_nat_pos: "0 < n \<Longrightarrow> 0 < float_of_nat n"
  unfolding float_of_nat_def by (intro fl_pos) simp

lemma fmul_nonneg: "0 \<le> a \<Longrightarrow> 0 \<le> b \<Longrightarrow> 0 \<le> fmul a b"
  unfolding fmul_def by (intro fl_nonneg) simp

lemma fdiv_nonneg: "0 \<le> a \<Longrightarrow> 0 \<le> b \<Longrightarrow> 0 \<le> fdiv a b"
  unfolding fdiv_def by (intro fl_nonneg) simp

lemma fadd_nonneg: "0 \<le> a \<Longrightarrow> 0 \<le> b \<Longrightarrow> 0 \<le> fadd a b"
  unfolding fadd_def by (intro fl_nonneg) simp

end
