(* ===== verification/Domain_Admission.thy ===== *)
theory Domain_Admission
  imports Domain_Errors Go_Float "HOL-Library.Word"
begin

text \<open>
  \<^verbatim>\<open>backend/internal/domain/admission.go\<close>: the node policies that decide whether a camera
  may be created or started. Byte counts are 64-bit words, so the sum of the memory in use
  and the cost of the camera wraps as in Go; percentages are rounded floats (Go_Float).
\<close>

record AdmissionLimits =
  al_MaxCameras :: int
  al_MaxRAMPercent :: float64
  al_MaxCPUPercent :: float64

definition DefaultAdmissionLimits :: AdmissionLimits where
  "DefaultAdmissionLimits = \<lparr>al_MaxCameras = 100, al_MaxRAMPercent = 85, al_MaxCPUPercent = 80\<rparr>"

record NodeUsage =
  nu_Cameras :: int
  nu_MemTotal :: "64 word"
  nu_MemUsed :: "64 word"
  nu_CPUPercent :: float64
  nu_CPUCount :: int

record CameraCost =
  cc_RAM :: "64 word"
  cc_CPUPercent :: float64

definition float_of_word :: "64 word \<Rightarrow> float64" where
  "float_of_word w = float_of_nat (unat w)"

text \<open>\<^verbatim>\<open>%.0f\<close> and \<^verbatim>\<open>%.1f\<close>: the exact decimal rounding of the float, halves to even.\<close>

definition fmt_f0 :: "float64 \<Rightarrow> string" where
  "fmt_f0 q = itoa (round_even q)"

definition fmt_f1 :: "float64 \<Rightarrow> string" where
  "fmt_f1 q =
    (let t = round_even (\<bar>q\<bar> * 10)
     in (if q < 0 then ''-'' else []) @ itoa (t div 10) @ ''.'' @ itoa (t mod 10))"

text \<open>The loop of \<^verbatim>\<open>HumanBytes\<close>: \<open>m\<close> counts down by 1024 while \<open>div\<close> and \<open>exp\<close> grow.\<close>

function human_loop :: "nat \<Rightarrow> nat \<Rightarrow> nat \<Rightarrow> nat \<times> nat" where
  "human_loop m d e = (if m \<ge> 1024 then human_loop (m div 1024) (d * 1024) (e + 1) else (d, e))"
  by pat_completeness auto
termination by (relation "measure (\<lambda>(m, d, e). m)") auto

declare human_loop.simps [simp del]

definition HumanBytes :: "64 word \<Rightarrow> string" where
  "HumanBytes n =
    (if unat n < 1024 then nat_str (unat n) @ '' B''
     else
       (let (d, e) = human_loop (unat n div 1024) 1024 0
        in fmt_f1 (fdiv (float_of_word n) (float_of_nat d)) @ '' '' @ [''KMGTPE'' ! e] @ ''iB''))"

definition ram_projected :: "NodeUsage \<Rightarrow> CameraCost \<Rightarrow> float64" where
  "ram_projected u c = fmul (fdiv (float_of_word (nu_MemUsed u + cc_RAM c)) (float_of_word (nu_MemTotal u))) 100"

definition cpu_projected :: "NodeUsage \<Rightarrow> CameraCost \<Rightarrow> float64" where
  "cpu_projected u c =
    fadd (nu_CPUPercent u) (fdiv (cc_CPUPercent c) (float_of_int (if nu_CPUCount u < 1 then 1 else nu_CPUCount u)))"

definition AdmitStart :: "AdmissionLimits \<Rightarrow> NodeUsage \<Rightarrow> CameraCost \<Rightarrow> error option" where
  "AdmitStart l u c =
    (if 0 < nu_MemTotal u \<and> 0 < al_MaxRAMPercent l \<and> al_MaxRAMPercent l < ram_projected u c then
       Some (RejectedError ''ram''
         (msgf ''projected RAM usage would be %.1f%% (%s of %s), above the %.0f%% limit''
           [AStr (fmt_f1 (ram_projected u c)), AStr (HumanBytes (nu_MemUsed u + cc_RAM c)),
            AStr (HumanBytes (nu_MemTotal u)), AStr (fmt_f0 (al_MaxRAMPercent l))]))
     else if 0 < al_MaxCPUPercent l \<and> al_MaxCPUPercent l < cpu_projected u c then
       Some (RejectedError ''cpu''
         (msgf ''sustained CPU usage would be %.1f%%, above the %.0f%% limit''
           [AStr (fmt_f1 (cpu_projected u c)), AStr (fmt_f0 (al_MaxCPUPercent l))]))
     else None)"

definition AdmitCreate :: "AdmissionLimits \<Rightarrow> NodeUsage \<Rightarrow> CameraCost \<Rightarrow> error option" where
  "AdmitCreate l u c =
    (if 0 < al_MaxCameras l \<and> al_MaxCameras l \<le> nu_Cameras u then
       Some (RejectedError ''max_cameras''
         (msgf ''the node already has %d cameras, the configured maximum is %d''
           [AInt (nu_Cameras u), AInt (al_MaxCameras l)]))
     else AdmitStart l u c)"

section \<open>Bounds of the unit index\<close>

lemma human_loop_bound:
  "m < 1024 ^ Suc k \<Longrightarrow> snd (human_loop m d e) \<le> e + k"
proof (induction m d e arbitrary: k rule: human_loop.induct)
  case (1 m d e)
  show ?case
  proof (cases "m \<ge> 1024")
    case True
    then have "0 < k" using "1.prems" by (cases k) auto
    then obtain j where k: "k = Suc j" by (cases k) auto
    have "m div 1024 < 1024 ^ Suc j" using "1.prems" k by (simp add: div_less_iff_less_mult mult.commute)
    from "1.IH" [OF True this] show ?thesis using True k by (simp add: human_loop.simps [of m])
  qed (simp add: human_loop.simps [of m])
qed

lemma human_loop_power:
  "fst (human_loop m (1024 ^ Suc e) e) = 1024 ^ Suc (snd (human_loop m (1024 ^ Suc e) e))"
proof (induction m "1024 ^ Suc e :: nat" e rule: human_loop.induct)
  case (1 m e)
  then show ?case by (simp add: human_loop.simps [of m] mult.commute)
qed

lemma human_loop_fits:
  "m < 1024 ^ k \<Longrightarrow> d * m \<le> n \<Longrightarrow> fst (human_loop m d e) \<le> max d n"
proof (induction m d e arbitrary: k rule: human_loop.induct)
  case (1 m d e)
  show ?case
  proof (cases "m \<ge> 1024")
    case True
    have "d * 1024 * (m div 1024) \<le> d * m" by (simp add: mult.assoc)
    then have le: "d * 1024 * (m div 1024) \<le> n" using "1.prems" by linarith
    have "d * 1024 \<le> d * m" using True by simp
    then have "d * 1024 \<le> n" using "1.prems" by linarith
    moreover have "m div 1024 < 1024 ^ k"
      using "1.prems"(1) by (meson div_le_dividend le_less_trans)
    ultimately show ?thesis using "1.IH" [OF True _ le] True by (simp add: human_loop.simps [of m])
  qed (simp add: human_loop.simps [of m])
qed

text \<open>Formatting any 64-bit byte count takes a unit that exists: the index into the six unit
  letters is in range, the divisor is that power of 1024 and is not above the count.\<close>

theorem HumanBytes_unit:
  assumes "1024 \<le> unat (n :: 64 word)"
  shows "let (d, e) = human_loop (unat n div 1024) 1024 0 in
    e < length ''KMGTPE'' \<and> d = 1024 ^ Suc e \<and> d \<le> unat n"
proof -
  have "unat n < 2 ^ 64" by (rule order_less_le_trans [OF unsigned_less]) simp
  then have "unat n div 1024 < 1024 ^ Suc 5" by simp
  then have e: "snd (human_loop (unat n div 1024) 1024 0) \<le> 5"
    using human_loop_bound [of "unat n div 1024" 5 1024 0] by simp
  have d: "fst (human_loop (unat n div 1024) 1024 0) = 1024 ^ Suc (snd (human_loop (unat n div 1024) 1024 0))"
    using human_loop_power [of "unat n div 1024" 0] by simp
  have "fst (human_loop (unat n div 1024) 1024 0) \<le> max 1024 (unat n)"
    by (rule human_loop_fits [of _ 6]) (use \<open>unat n div 1024 < 1024 ^ Suc 5\<close> in auto)
  with e d assms show ?thesis by (simp add: case_prod_beta Let_def)
qed

theorem HumanBytes_unit_witness: "let (d, e) = human_loop (unat (5000000 :: 64 word) div 1024) 1024 0 in
    e < length ''KMGTPE'' \<and> d = 1024 ^ Suc e \<and> d \<le> unat (5000000 :: 64 word)"
  by (rule HumanBytes_unit) simp

section \<open>Admission is monotone\<close>

definition less_loaded :: "NodeUsage \<Rightarrow> CameraCost \<Rightarrow> NodeUsage \<Rightarrow> CameraCost \<Rightarrow> bool" where
  "less_loaded u c u' c' =
    (nu_Cameras u \<le> nu_Cameras u' \<and> nu_MemTotal u = nu_MemTotal u' \<and> nu_CPUCount u = nu_CPUCount u' \<and>
     unat (nu_MemUsed u) + unat (cc_RAM c) \<le> unat (nu_MemUsed u') + unat (cc_RAM c') \<and>
     unat (nu_MemUsed u') + unat (cc_RAM c') < 2 ^ 64 \<and>
     nu_CPUPercent u \<le> nu_CPUPercent u' \<and> 0 \<le> cc_CPUPercent c \<and> cc_CPUPercent c \<le> cc_CPUPercent c')"

lemma ram_projected_mono:
  assumes "less_loaded u c u' c'" "0 < nu_MemTotal u"
  shows "ram_projected u c \<le> ram_projected u' c'"
proof -
  have s: "unat (nu_MemUsed u + cc_RAM c) = unat (nu_MemUsed u) + unat (cc_RAM c)"
    "unat (nu_MemUsed u' + cc_RAM c') = unat (nu_MemUsed u') + unat (cc_RAM c')"
    using assms(1) by (auto simp: less_loaded_def unat_word_ariths)
  have "0 < unat (nu_MemTotal u)" using assms(2) by (simp add: word_less_nat_alt)
  then have p: "0 < float_of_word (nu_MemTotal u)" by (simp add: float_of_word_def float_of_nat_pos)
  have "float_of_word (nu_MemUsed u + cc_RAM c) \<le> float_of_word (nu_MemUsed u' + cc_RAM c')"
    unfolding float_of_word_def s using assms(1) by (intro float_of_nat_mono) (simp add: less_loaded_def)
  then have "fdiv (float_of_word (nu_MemUsed u + cc_RAM c)) (float_of_word (nu_MemTotal u))
      \<le> fdiv (float_of_word (nu_MemUsed u' + cc_RAM c')) (float_of_word (nu_MemTotal u))"
    using p by (intro fdiv_mono) (simp_all add: float_of_word_def)
  moreover have "0 \<le> fdiv (float_of_word (nu_MemUsed u + cc_RAM c)) (float_of_word (nu_MemTotal u))"
    by (intro fdiv_nonneg) (simp_all add: float_of_word_def)
  ultimately show ?thesis using assms(1)
    unfolding ram_projected_def less_loaded_def by (intro fmul_mono) auto
qed

lemma cpu_projected_mono:
  assumes "less_loaded u c u' c'"
  shows "cpu_projected u c \<le> cpu_projected u' c'"
proof -
  let ?n = "if nu_CPUCount u < 1 then 1 else nu_CPUCount u"
  have "float_of_int ?n = float_of_nat (nat ?n)" by (simp add: float_of_int_def float_of_nat_def of_nat_nat)
  then have "0 < float_of_int ?n" using float_of_nat_pos [of "nat ?n"] by simp
  with assms show ?thesis
    unfolding cpu_projected_def less_loaded_def by (auto intro!: fadd_mono fdiv_mono)
qed

text \<open>Admission is monotone: a start or a creation that the node admits is also admitted with
  less memory and CPU in use, fewer cameras and a cheaper camera, rounding of the percentages included.\<close>

theorem admission_monotone:
  assumes "less_loaded u c u' c'"
  shows "(AdmitStart l u' c' = None \<longrightarrow> AdmitStart l u c = None) \<and>
    (AdmitCreate l u' c' = None \<longrightarrow> AdmitCreate l u c = None)"
proof
  show s: "AdmitStart l u' c' = None \<longrightarrow> AdmitStart l u c = None"
    using assms ram_projected_mono [OF assms] cpu_projected_mono [OF assms]
    by (auto simp: AdmitStart_def less_loaded_def split: if_splits)
  show "AdmitCreate l u' c' = None \<longrightarrow> AdmitCreate l u c = None"
    using s assms by (auto simp: AdmitCreate_def less_loaded_def split: if_splits)
qed

definition sample_usage :: "64 word \<Rightarrow> NodeUsage" where
  "sample_usage used = \<lparr>nu_Cameras = 3, nu_MemTotal = 1024, nu_MemUsed = used, nu_CPUPercent = 10, nu_CPUCount = 4\<rparr>"

theorem admission_monotone_witness:
  "AdmitStart DefaultAdmissionLimits (sample_usage 256) \<lparr>cc_RAM = 128, cc_CPUPercent = 2\<rparr> = None"
proof -
  let ?c = "\<lparr>cc_RAM = 128, cc_CPUPercent = 2\<rparr>"
  have "less_loaded (sample_usage 256) ?c (sample_usage 384) ?c"
    by (simp add: less_loaded_def sample_usage_def)
  moreover have "fmul (fdiv 512 1024) 100 \<le> 85" "fadd 10 (fdiv 2 4) \<le> 80" by (code_simp, code_simp)
  then have "AdmitStart DefaultAdmissionLimits (sample_usage 384) ?c = None"
    using fl_of_nat_exact [of 512] fl_of_nat_exact [of 1024] fl_of_nat_exact [of 4]
    by (simp add: AdmitStart_def DefaultAdmissionLimits_def sample_usage_def ram_projected_def
        cpu_projected_def float_of_word_def float_of_nat_def float_of_int_def)
  ultimately show ?thesis using admission_monotone by blast
qed

end
