(* ===== verification/Go_Time.thy ===== *)
theory Go_Time
  imports Go_Text
begin

text \<open>
  Instants and durations as nanoseconds; the zero \<^verbatim>\<open>time.Time\<close> is the first instant of
  year 1. The conversions of \<^verbatim>\<open>backend/internal/store/store.go\<close> between instants and the
  millisecond columns of the database.
\<close>

type_synonym instant = int
type_synonym duration = int

definition zero_time :: instant where
  "zero_time = - 62135596800 * 10 ^ 9"

definition milli :: duration where "milli = 10 ^ 6"

definition unix_milli :: "instant \<Rightarrow> int" where
  "unix_milli t = t div 10 ^ 6"

definition store_Time :: "int \<Rightarrow> instant" where
  "store_Time ms = (if ms = 0 then zero_time else ms * 10 ^ 6)"

definition NullMillis :: "instant \<Rightarrow> int option" where
  "NullMillis t = (if t = zero_time then None else Some (unix_milli t))"

definition NullTime :: "int option \<Rightarrow> instant" where
  "NullTime v = (case v of None \<Rightarrow> zero_time | Some ms \<Rightarrow> store_Time ms)"

definition NullString :: "string \<Rightarrow> string option" where
  "NullString s = (if s = [] then None else Some s)"

text \<open>What an optional instant becomes when it is stored and read back.\<close>

lemma NullTime_NullMillis:
  "unix_milli t \<noteq> 0 \<Longrightarrow> t \<noteq> zero_time \<Longrightarrow> NullTime (NullMillis t) = t - t mod 10 ^ 6"
  by (simp add: NullTime_def NullMillis_def store_Time_def unix_milli_def minus_mod_eq_div_mult)

lemma store_Time_milli: "ms \<noteq> 0 \<Longrightarrow> unix_milli (store_Time ms) = ms"
  by (simp add: store_Time_def unix_milli_def)

end
