(* ===== verification/Job_Store.thy ===== *)
theory Job_Store
  imports Domain_Errors Go_Time Go_Float "HOL-Library.List_Lexorder" "HOL-Library.Char_ord"
begin

text \<open>
  The tables \<^verbatim>\<open>jobs\<close> and \<^verbatim>\<open>job_events\<close> (\<^verbatim>\<open>database/migrations/00003_jobs.sql\<close>) and the
  queries of \<^verbatim>\<open>backend/internal/store/db/jobs.sql.go\<close>: the primary keys, the unique index on
  the key of an open job and the cascade of a deletion are part of the model. A
  statement that breaks a constraint gives \<open>None\<close>. The JSON columns hold the value that was encoded.
\<close>

datatype status = Queued | Running | Waiting | Completed | Failed | Canceled | Interrupted

fun Final :: "status \<Rightarrow> bool" where
  "Final s = (s = Completed \<or> s = Failed \<or> s = Canceled)"

fun Busy :: "status \<Rightarrow> bool" where
  "Busy s = (s = Queued \<or> s = Running \<or> s = Waiting)"

definition open_status :: "status \<Rightarrow> bool" where
  "open_status s = contains [Queued, Running, Waiting, Interrupted] s"

lemma open_or_final: "open_status s \<longleftrightarrow> \<not> Final s"
  by (cases s) (auto simp: open_status_def)

definition status_name :: "status \<Rightarrow> string" where
  "status_name s =
    (case s of Queued \<Rightarrow> ''queued'' | Running \<Rightarrow> ''running'' | Waiting \<Rightarrow> ''waiting'' | Completed \<Rightarrow> ''completed''
     | Failed \<Rightarrow> ''failed'' | Canceled \<Rightarrow> ''canceled'' | Interrupted \<Rightarrow> ''interrupted'')"

record option_row =
  opt_ID :: string
  opt_Label :: string

record question =
  q_ID :: string
  q_Text :: string
  q_Options :: "option_row list"
  q_Default :: string
  q_ExpiresAt :: instant

record job_row =
  r_Type :: string
  r_Title :: string
  r_Status :: status
  r_Progress :: float64
  r_Step :: string
  r_ParamsJson :: string
  r_CheckpointJson :: string
  r_QuestionJson :: "question option"
  r_ResultJson :: string
  r_DedupeKey :: "string option"
  r_CreatedBy :: string
  r_CreatedAt :: int
  r_StartedAt :: "int option"
  r_FinishedAt :: "int option"
  r_Error :: message

datatype ev_data =
    EvStatus "(string \<times> message) list"
  | EvStep string float64
  | EvLog message
  | EvQuestion question
  | EvAnswer string string string

record job_event =
  e_JobID :: string
  e_Seq :: int
  e_At :: int
  e_Data :: ev_data

record job_db =
  d_jobs :: "(string, job_row) table"
  d_events :: "job_event list"

section \<open>Queries\<close>

definition CountQueuedJobs :: "job_db \<Rightarrow> nat" where
  "CountQueuedJobs d = length (filter (\<lambda>(i, r). r_Status r = Queued) (d_jobs d))"

definition GetJob :: "job_db \<Rightarrow> string \<Rightarrow> job_row option" where
  "GetJob d i = tget (d_jobs d) i"

definition holds_key :: "string option \<Rightarrow> job_row \<Rightarrow> bool" where
  "holds_key key r = (key \<noteq> None \<and> r_DedupeKey r = key \<and> open_status (r_Status r))"

definition GetOpenJobByKey :: "job_db \<Rightarrow> string option \<Rightarrow> (string \<times> job_row) option" where
  "GetOpenJobByKey d key = List.find (\<lambda>(i, r). holds_key key r) (d_jobs d)"

definition by_id :: "(string \<times> job_row) list \<Rightarrow> (string \<times> job_row) list" where
  "by_id rows = sort_key fst rows"

definition ListJobsByStatus :: "job_db \<Rightarrow> status \<Rightarrow> nat \<Rightarrow> (string \<times> job_row) list" where
  "ListJobsByStatus d st limit = take limit (by_id (filter (\<lambda>(i, r). r_Status r = st) (d_jobs d)))"

definition status_matches :: "string \<Rightarrow> status \<Rightarrow> bool" where
  "status_matches f s =
    (f = [] \<or> f = status_name s \<or> (f = ''active'' \<and> open_status s) \<or> (f = ''finished'' \<and> Final s))"

definition ListJobs :: "job_db \<Rightarrow> string \<Rightarrow> string \<Rightarrow> string \<Rightarrow> nat \<Rightarrow> (string \<times> job_row) list" where
  "ListJobs d cursor typ st limit =
    take limit (rev (by_id (filter (\<lambda>(i, r). (cursor = [] \<or> i < cursor) \<and> (typ = [] \<or> r_Type r = typ) \<and>
      status_matches st (r_Status r)) (d_jobs d))))"

definition ListFinishedJobsBefore :: "job_db \<Rightarrow> int option \<Rightarrow> string list" where
  "ListFinishedJobsBefore d before =
    map fst (filter (\<lambda>(i, r). Final (r_Status r) \<and>
      (case (r_FinishedAt r, before) of (Some f, Some b) \<Rightarrow> f < b | _ \<Rightarrow> False)) (d_jobs d))"

definition ListJobEvents :: "job_db \<Rightarrow> string \<Rightarrow> int \<Rightarrow> nat \<Rightarrow> job_event list" where
  "ListJobEvents d i after limit =
    take limit (sort_key e_Seq (filter (\<lambda>e. e_JobID e = i \<and> after < e_Seq e) (d_events d)))"

definition MaxJobEventSeq :: "job_db \<Rightarrow> string \<Rightarrow> int" where
  "MaxJobEventSeq d i =
    (case map e_Seq (filter (\<lambda>e. e_JobID e = i) (d_events d)) of [] \<Rightarrow> 0 | n # ns \<Rightarrow> foldl max n ns)"

section \<open>Statements\<close>

definition key_free :: "job_db \<Rightarrow> string \<Rightarrow> string option \<Rightarrow> bool" where
  "key_free d i key = (\<not> list_ex (\<lambda>(k, r). k \<noteq> i \<and> holds_key key r) (d_jobs d))"

definition InsertJob ::
  "job_db \<Rightarrow> string \<Rightarrow> string \<Rightarrow> string \<Rightarrow> string \<Rightarrow> string option \<Rightarrow> string \<Rightarrow> int \<Rightarrow> job_db option" where
  "InsertJob d i typ title params key by created =
    (if tget (d_jobs d) i \<noteq> None \<or> \<not> key_free d i key then None
     else Some (d\<lparr>d_jobs := tput i
       \<lparr>r_Type = typ, r_Title = title, r_Status = Queued, r_Progress = 0, r_Step = [], r_ParamsJson = params,
        r_CheckpointJson = ''{}'', r_QuestionJson = None, r_ResultJson = ''{}'', r_DedupeKey = key,
        r_CreatedBy = by, r_CreatedAt = created, r_StartedAt = None, r_FinishedAt = None, r_Error = msg []\<rparr>
       (d_jobs d)\<rparr>))"

record job_update =
  up_Status :: status
  up_Progress :: float64
  up_Step :: string
  up_CheckpointJson :: string
  up_QuestionJson :: "question option"
  up_ResultJson :: string
  up_StartedAt :: "int option"
  up_FinishedAt :: "int option"
  up_Error :: message

definition apply_update :: "job_update \<Rightarrow> job_row \<Rightarrow> job_row" where
  "apply_update u r =
    r\<lparr>r_Status := up_Status u, r_Progress := up_Progress u, r_Step := up_Step u,
      r_CheckpointJson := up_CheckpointJson u, r_QuestionJson := up_QuestionJson u,
      r_ResultJson := up_ResultJson u, r_StartedAt := up_StartedAt u, r_FinishedAt := up_FinishedAt u,
      r_Error := up_Error u\<rparr>"

text \<open>An update of a row that is gone changes nothing and is no error.\<close>

definition UpdateJob :: "job_db \<Rightarrow> string \<Rightarrow> job_update \<Rightarrow> job_db option" where
  "UpdateJob d i u =
    (case tget (d_jobs d) i of
       None \<Rightarrow> Some d
     | Some r \<Rightarrow>
         if open_status (up_Status u) \<and> \<not> key_free d i (r_DedupeKey r) then None
         else Some (d\<lparr>d_jobs := tput i (apply_update u r) (d_jobs d)\<rparr>))"

definition DeleteJob :: "job_db \<Rightarrow> string \<Rightarrow> job_db" where
  "DeleteJob d i = d\<lparr>d_jobs := tdel i (d_jobs d), d_events := filter (\<lambda>e. e_JobID e \<noteq> i) (d_events d)\<rparr>"

definition InsertJobEvent :: "job_db \<Rightarrow> job_event \<Rightarrow> job_db option" where
  "InsertJobEvent d e =
    (if tget (d_jobs d) (e_JobID e) = None \<or>
        list_ex (\<lambda>f. e_JobID f = e_JobID e \<and> e_Seq f = e_Seq e) (d_events d) then None
     else Some (d\<lparr>d_events := d_events d @ [e]\<rparr>))"

section \<open>The constraints as an invariant\<close>

definition one_open_per_key :: "job_db \<Rightarrow> bool" where
  "one_open_per_key d =
    (\<forall>i r j q. tget (d_jobs d) i = Some r \<longrightarrow> tget (d_jobs d) j = Some q \<longrightarrow>
       r_DedupeKey r \<noteq> None \<longrightarrow> r_DedupeKey r = r_DedupeKey q \<longrightarrow>
       open_status (r_Status r) \<longrightarrow> open_status (r_Status q) \<longrightarrow> i = j)"

definition db_ok :: "job_db \<Rightarrow> bool" where
  "db_ok d = (table_ok (d_jobs d) \<and> one_open_per_key d)"

lemma key_free_get:
  "table_ok (d_jobs d) \<Longrightarrow> key_free d i key \<longleftrightarrow>
     (\<forall>k r. tget (d_jobs d) k = Some r \<longrightarrow> k \<noteq> i \<longrightarrow> \<not> holds_key key r)"
  by (auto simp: key_free_def list_ex_iff tget_iff_mem)

lemma put_ok:
  assumes d: "db_ok d" and r: "open_status (r_Status r) \<longrightarrow> key_free d i (r_DedupeKey r)"
  shows "db_ok (d\<lparr>d_jobs := tput i r (d_jobs d)\<rparr>)"
proof -
  have t: "table_ok (d_jobs d)" and o: "one_open_per_key d" using d by (auto simp: db_ok_def)
  have free: "\<not> open_status (r_Status q)"
    if "open_status (r_Status r)" "r_DedupeKey r \<noteq> None" "tget (d_jobs d) k = Some q" "k \<noteq> i"
       "r_DedupeKey q = r_DedupeKey r" for k q
  proof -
    have "\<not> holds_key (r_DedupeKey r) q"
      using r that(1,3,4) key_free_get [OF t, of i "r_DedupeKey r"] by blast
    with that show ?thesis by (simp add: holds_key_def)
  qed
  have "one_open_per_key (d\<lparr>d_jobs := tput i r (d_jobs d)\<rparr>)"
    unfolding one_open_per_key_def
  proof (intro allI impI)
    fix a p b q
    assume a: "tget (d_jobs (d\<lparr>d_jobs := tput i r (d_jobs d)\<rparr>)) a = Some p"
      and b: "tget (d_jobs (d\<lparr>d_jobs := tput i r (d_jobs d)\<rparr>)) b = Some q"
      and k: "r_DedupeKey p \<noteq> None" "r_DedupeKey p = r_DedupeKey q"
        "open_status (r_Status p)" "open_status (r_Status q)"
    show "a = b"
    proof (rule ccontr)
      assume ne: "a \<noteq> b"
      consider "a = i" | "b = i" | "a \<noteq> i" "b \<noteq> i" by blast
      then show False
      proof cases
        case 1
        with a b ne have "p = r" "tget (d_jobs d) b = Some q" "b \<noteq> i" by auto
        with free [of b q] k show False by metis
      next
        case 2
        with a b ne have "q = r" "tget (d_jobs d) a = Some p" "a \<noteq> i" by auto
        with free [of a p] k show False by metis
      next
        case 3
        with a b have "tget (d_jobs d) a = Some p" "tget (d_jobs d) b = Some q" by auto
        with o k ne show False unfolding one_open_per_key_def by blast
      qed
    qed
  qed
  with t show ?thesis by (simp add: db_ok_def)
qed

lemma InsertJob_ok: "db_ok d \<Longrightarrow> InsertJob d i ty ti p key b a = Some d' \<Longrightarrow> db_ok d'"
  unfolding InsertJob_def by (auto simp: put_ok split: if_splits)

lemma UpdateJob_ok: "db_ok d \<Longrightarrow> UpdateJob d i u = Some d' \<Longrightarrow> db_ok d'"
  unfolding UpdateJob_def by (auto simp: put_ok apply_update_def split: if_splits option.splits)

lemma DeleteJob_ok: "db_ok d \<Longrightarrow> db_ok (DeleteJob d i)"
  unfolding db_ok_def one_open_per_key_def DeleteJob_def by auto

lemma InsertJobEvent_ok: "db_ok d \<Longrightarrow> InsertJobEvent d e = Some d' \<Longrightarrow> db_ok d'"
  unfolding db_ok_def one_open_per_key_def InsertJobEvent_def by (auto split: if_splits)

lemmas statements_ok [inv_intros] = InsertJob_ok UpdateJob_ok DeleteJob_ok InsertJobEvent_ok

lemma UpdateJob_get:
  "UpdateJob d i u = Some d' \<Longrightarrow>
   GetJob d' k = (if k = i then map_option (apply_update u) (GetJob d i) else GetJob d k)"
  by (auto simp: UpdateJob_def GetJob_def split: option.splits if_splits)

lemma UpdateJob_events: "UpdateJob d i u = Some d' \<Longrightarrow> d_events d' = d_events d"
  by (auto simp: UpdateJob_def split: option.splits if_splits)

lemma InsertJobEvent_get: "InsertJobEvent d e = Some d' \<Longrightarrow> d_jobs d' = d_jobs d"
  by (auto simp: InsertJobEvent_def split: if_splits)

lemma GetOpenJobByKey_Some:
  "table_ok (d_jobs d) \<Longrightarrow> GetOpenJobByKey d key = Some (i, r) \<Longrightarrow>
   GetJob d i = Some r \<and> holds_key key r"
  by (auto simp: GetOpenJobByKey_def GetJob_def find_Some_iff tget_iff_mem) (metis fst_conv nth_mem snd_conv case_prod_conv prod.collapse)+

lemma GetOpenJobByKey_None:
  "GetOpenJobByKey d key = None \<Longrightarrow> key_free d i key"
  by (auto simp: GetOpenJobByKey_def key_free_def find_None_iff list_ex_iff)

lemma MaxJobEventSeq_ge:
  "e \<in> set (d_events d) \<Longrightarrow> e_JobID e = i \<Longrightarrow> e_Seq e \<le> MaxJobEventSeq d i"
proof -
  have le: "\<forall>x\<in>set (n # ns). x \<le> foldl max n ns" for n :: int and ns
  proof (induction ns arbitrary: n)
    case (Cons a ns)
    from Cons.IH [of "max n a"] show ?case by auto
  qed simp
  assume "e \<in> set (d_events d)" "e_JobID e = i"
  then have "e_Seq e \<in> set (map e_Seq (filter (\<lambda>e. e_JobID e = i) (d_events d)))" by auto
  then show ?thesis unfolding MaxJobEventSeq_def using le
    by (cases "map e_Seq (filter (\<lambda>e. e_JobID e = i) (d_events d))") auto
qed

lemma set_by_id [simp]: "set (by_id rows) = set rows"
  by (simp add: by_id_def)

lemma ListJobsByStatus_get:
  "table_ok (d_jobs d) \<Longrightarrow> (i, r) \<in> set (ListJobsByStatus d st n) \<Longrightarrow>
   GetJob d i = Some r \<and> r_Status r = st"
  unfolding ListJobsByStatus_def GetJob_def
  by (auto dest!: in_set_takeD simp: tget_iff_mem)

lemma ListJobsByStatus_distinct:
  "table_ok (d_jobs d) \<Longrightarrow> distinct (map fst (ListJobsByStatus d st n))"
proof -
  assume "table_ok (d_jobs d)"
  then have "distinct (map fst (filter (\<lambda>(i, r). r_Status r = st) (d_jobs d)))"
    using distinct_tkeys_filter by (auto simp: table_ok_def tkeys_def)
  then have "distinct (map fst (by_id (filter (\<lambda>(i, r). r_Status r = st) (d_jobs d))))"
    unfolding distinct_map by (simp add: by_id_def del: sort_key_simps)
  then show ?thesis unfolding ListJobsByStatus_def take_map [symmetric] by (rule distinct_take)
qed

end
