(* ===== verification/Job_Runner.thy ===== *)
theory Job_Runner
  imports Job_Store
begin

text \<open>
  \<^verbatim>\<open>backend/internal/worker\<close> (\<^verbatim>\<open>runner.go\<close>, \<^verbatim>\<open>job.go\<close>, \<^verbatim>\<open>run.go\<close>): the runner of background
  jobs. Every operation holds the runner's mutex, so each is one function of the state; what
  a handler reports through its \<^verbatim>\<open>Run\<close> is an operation of its own. A statement of the
  database can fail: \<open>rn_faults\<close> says of the coming statements which do. \<open>rn_issued\<close> are the
  identifiers \<^verbatim>\<open>ulid.Make\<close> has given out, and \<open>rn_blocked\<close> the channels a \<^verbatim>\<open>Wait\<close> is
  blocked on. Handlers and the encoding of their values are not under \<^verbatim>\<open>src\<close> of this
  component: a step takes what they return.
\<close>

section \<open>Jobs\<close>

record Job =
  j_ID :: string
  j_Type :: string
  j_Title :: string
  j_Status :: status
  j_Progress :: float64
  j_Step :: string
  j_Question :: "question option"
  j_Result :: string
  j_Error :: message
  j_CreatedBy :: string
  j_CreatedAt :: instant
  j_StartedAt :: "instant option"
  j_FinishedAt :: "instant option"
  j_params :: string
  j_checkpoint :: string

text \<open>The configuration: which types are registered and whether each has a cleanup, and
  \<^verbatim>\<open>json.Valid\<close>.\<close>

record config =
  c_kinds :: "(string, bool) table"
  c_valid :: "string \<Rightarrow> bool"

definition no_error :: message where
  "no_error = msg []"

definition opt_time :: "int option \<Rightarrow> instant option" where
  "opt_time v = (if NullTime v = zero_time then None else Some (NullTime v))"

definition jobFrom :: "config \<Rightarrow> string \<times> job_row \<Rightarrow> Job" where
  "jobFrom c = (\<lambda>(i, r).
    \<lparr>j_ID = i, j_Type = r_Type r, j_Title = r_Title r, j_Status = r_Status r, j_Progress = r_Progress r,
     j_Step = r_Step r, j_Question = r_QuestionJson r,
     j_Result = (if c_valid c (r_ResultJson r) then r_ResultJson r else ''{}''), j_Error = r_Error r,
     j_CreatedBy = r_CreatedBy r, j_CreatedAt = store_Time (r_CreatedAt r),
     j_StartedAt = opt_time (r_StartedAt r), j_FinishedAt = opt_time (r_FinishedAt r),
     j_params = r_ParamsJson r, j_checkpoint = r_CheckpointJson r\<rparr>)"

definition update_of :: "Job \<Rightarrow> job_update" where
  "update_of j =
    \<lparr>up_Status = j_Status j, up_Progress = j_Progress j, up_Step = j_Step j,
     up_CheckpointJson = (if j_checkpoint j = [] then ''{}'' else j_checkpoint j),
     up_QuestionJson = j_Question j,
     up_ResultJson = (if j_Result j = [] then ''{}'' else j_Result j),
     up_StartedAt = (case j_StartedAt j of None \<Rightarrow> None | Some t \<Rightarrow> NullMillis t),
     up_FinishedAt = (case j_FinishedAt j of None \<Rightarrow> None | Some t \<Rightarrow> NullMillis t),
     up_Error = j_Error j\<rparr>"

section \<open>The state of the runner\<close>

datatype cause = CauseShutdown | CauseCanceled

record execution =
  ex_job :: Job
  ex_cause :: "cause option"
  ex_answer :: "string option"
  ex_lastSave :: instant

datatype publication = PubJob Job | PubEvent string job_event | PubForget string

record runner =
  rn_db :: job_db
  rn_faults :: "bool list"
  rn_running :: "(string, execution) table"
  rn_waiters :: "(string, nat list) table"
  rn_closed :: "nat list"
  rn_blocked :: "nat list"
  rn_next :: nat
  rn_seqs :: "(string, int) table"
  rn_stopping :: bool
  rn_kick :: bool
  rn_pubs :: "publication list"
  rn_cleaned :: "Job list"
  rn_issued :: "string list"

definition New :: "job_db \<Rightarrow> bool list \<Rightarrow> runner" where
  "New d faults =
    \<lparr>rn_db = d, rn_faults = faults, rn_running = [], rn_waiters = [], rn_closed = [], rn_blocked = [],
     rn_next = 0, rn_seqs = [], rn_stopping = False, rn_kick = False, rn_pubs = [], rn_cleaned = [],
     rn_issued = tkeys (d_jobs d)\<rparr>"

definition Known :: "config \<Rightarrow> string \<Rightarrow> bool" where
  "Known c typ = (tget (c_kinds c) typ \<noteq> None)"

definition has_cleanup :: "config \<Rightarrow> string \<Rightarrow> bool" where
  "has_cleanup c typ = (tget (c_kinds c) typ = Some True)"

definition MaxQueued :: nat where
  "MaxQueued = 500"

definition db_error :: error where
  "db_error = OtherError (msg ''database error'')"

definition fault :: "runner \<Rightarrow> bool" where
  "fault s = (case rn_faults s of [] \<Rightarrow> False | f # _ \<Rightarrow> f)"

definition asked :: "runner \<Rightarrow> runner" where
  "asked s = s\<lparr>rn_faults := tl (rn_faults s)\<rparr>"

definition wake :: "runner \<Rightarrow> runner" where
  "wake s = s\<lparr>rn_kick := True\<rparr>"

definition publish :: "publication \<Rightarrow> runner \<Rightarrow> runner" where
  "publish p s = s\<lparr>rn_pubs := rn_pubs s @ [p]\<rparr>"

definition save :: "Job \<Rightarrow> runner \<Rightarrow> error option \<times> runner" where
  "save j s =
    (if fault s then (Some db_error, asked s)
     else case UpdateJob (rn_db s) (j_ID j) (update_of j) of
       None \<Rightarrow> (Some db_error, asked s)
     | Some d \<Rightarrow> (None, publish (PubJob j) ((asked s)\<lparr>rn_db := d\<rparr>)))"

definition insert_event :: "job_event \<Rightarrow> runner \<Rightarrow> runner" where
  "insert_event e s =
    (if fault s then asked s
     else case InsertJobEvent (rn_db s) e of
       None \<Rightarrow> asked s
     | Some d \<Rightarrow> publish (PubEvent (''job:'' @ e_JobID e) e) ((asked s)\<lparr>rn_db := d\<rparr>))"

definition event :: "instant \<Rightarrow> string \<Rightarrow> ev_data \<Rightarrow> runner \<Rightarrow> runner" where
  "event now i d s =
    (let add = (\<lambda>n s. insert_event \<lparr>e_JobID = i, e_Seq = n, e_At = unix_milli now, e_Data = d\<rparr>
                        (s\<lparr>rn_seqs := tput i n (rn_seqs s)\<rparr>)) in
     case tget (rn_seqs s) i of
       Some n \<Rightarrow> add (n + 1) s
     | None \<Rightarrow>
         if fault s then asked s
         else add (MaxJobEventSeq (rn_db s) i + 1) (asked s))"

definition ev_status :: "status \<Rightarrow> message \<Rightarrow> ev_data" where
  "ev_status st err =
    EvStatus ((''status'', msg (status_name st)) # (if err = no_error then [] else [(''error'', err)]))"

definition ev_reason :: "status \<Rightarrow> string \<Rightarrow> ev_data" where
  "ev_reason st reason = EvStatus [(''status'', msg (status_name st)), (''reason'', msg reason)]"

definition waiting_on :: "runner \<Rightarrow> string \<Rightarrow> nat list" where
  "waiting_on s i = (case tget (rn_waiters s) i of None \<Rightarrow> [] | Some chs \<Rightarrow> chs)"

definition finishLocked :: "Job \<Rightarrow> runner \<Rightarrow> runner" where
  "finishLocked j s =
    (if Busy (j_Status j) then s
     else
       (let s = s\<lparr>rn_closed := rn_closed s @ waiting_on s (j_ID j),
                  rn_waiters := tdel (j_ID j) (rn_waiters s)\<rparr>
        in if Final (j_Status j)
           then publish (PubForget (''job:'' @ j_ID j)) (s\<lparr>rn_seqs := tdel (j_ID j) (rn_seqs s)\<rparr>)
           else s))"

section \<open>Dispatch and execution\<close>

definition mark_running :: "instant \<Rightarrow> Job \<Rightarrow> Job" where
  "mark_running now j =
    j\<lparr>j_Status := Running, j_Error := no_error,
      j_StartedAt := (case j_StartedAt j of None \<Rightarrow> Some now | Some t \<Rightarrow> Some t)\<rparr>"

definition dispatch_row :: "config \<Rightarrow> instant \<Rightarrow> runner \<Rightarrow> string \<times> job_row \<Rightarrow> runner" where
  "dispatch_row c now s row =
    (let j = jobFrom c row in
     if \<not> Known c (j_Type j) then
       (let err = msgf ''unknown job type %q'' [AStr (j_Type j)];
            j = j\<lparr>j_Status := Failed, j_Error := err, j_FinishedAt := Some now\<rparr>
        in event now (j_ID j) (ev_status Failed err) (snd (save j s)))
     else
       (let j = mark_running now j in
        case save j s of
          (Some e, s) \<Rightarrow> s
        | (None, s) \<Rightarrow>
            (let s = event now (j_ID j) (ev_status Running no_error) s
             in s\<lparr>rn_running := tput (j_ID j)
                  \<lparr>ex_job = j, ex_cause = None, ex_answer = None, ex_lastSave = zero_time\<rparr> (rn_running s)\<rparr>)))"

definition busy_count :: "runner \<Rightarrow> nat" where
  "busy_count s = length (filter (\<lambda>(i, ex). j_Status (ex_job ex) \<noteq> Waiting) (rn_running s))"

definition dispatch :: "config \<Rightarrow> int \<Rightarrow> instant \<Rightarrow> runner \<Rightarrow> runner" where
  "dispatch c max_running now s =
    (if rn_stopping s then s
     else
       (let free = max_running - int (busy_count s) in
        if free \<le> 0 then s
        else if fault s then asked s
        else foldl (dispatch_row c now) (asked s) (ListJobsByStatus (rn_db s) Queued (nat free))))"

text \<open>How a handler returns: the marshalled result, when there is one, and the error.\<close>

datatype handler_error = ErrUnanswered | ErrStopped | HandlerError message

definition err_text :: "handler_error \<Rightarrow> message" where
  "err_text e =
    (case e of ErrUnanswered \<Rightarrow> msg ''nobody answered the job's question in time''
     | ErrStopped \<Rightarrow> msg ''stopped at the user's request''
     | HandlerError m \<Rightarrow> m)"

definition canceled_text :: message where
  "canceled_text = msg ''canceled by the user''"

definition outcome :: "cause option \<Rightarrow> handler_error option \<Rightarrow> status \<times> message" where
  "outcome cause err =
    (case err of
       None \<Rightarrow> (Completed, no_error)
     | Some e \<Rightarrow>
         if cause = Some CauseShutdown then (Interrupted, no_error)
         else if cause = Some CauseCanceled then (Canceled, canceled_text)
         else if e = ErrUnanswered \<or> e = ErrStopped then (Canceled, err_text e)
         else (Failed, err_text e))"

definition end_job :: "instant \<Rightarrow> string option \<Rightarrow> handler_error option \<Rightarrow> execution \<Rightarrow> Job" where
  "end_job now result err ex =
    (let j = ex_job ex; (st, e) = outcome (ex_cause ex) err
     in j\<lparr>j_Question := None,
          j_Result := (case result of None \<Rightarrow> j_Result j | Some raw \<Rightarrow> raw),
          j_Status := st, j_Error := e,
          j_Progress := (if st = Completed then 1 else j_Progress j),
          j_FinishedAt := (if Final st then Some now else j_FinishedAt j)\<rparr>)"

definition execute_end ::
  "config \<Rightarrow> instant \<Rightarrow> string \<Rightarrow> string option \<Rightarrow> handler_error option \<Rightarrow> runner \<Rightarrow> runner" where
  "execute_end c now i result err s =
    (case tget (rn_running s) i of
       None \<Rightarrow> s
     | Some ex \<Rightarrow>
         (let j = end_job now result err ex;
              s = snd (save j s);
              s = event now (j_ID j) (ev_status (j_Status j) (j_Error j)) s;
              s = finishLocked j (s\<lparr>rn_running := tdel (j_ID j) (rn_running s)\<rparr>);
              s = (if Final (j_Status j) \<and> has_cleanup c (j_Type j)
                   then s\<lparr>rn_cleaned := rn_cleaned s @ [j]\<rparr> else s)
          in wake s))"

section \<open>The operations of the panel\<close>

record spec =
  sp_Type :: string
  sp_Title :: string
  sp_Params :: "(error, string) result option"
  sp_Key :: string
  sp_CreatedBy :: string

definition requeueLocked :: "instant \<Rightarrow> Job \<Rightarrow> runner \<Rightarrow> (error option \<times> Job) \<times> runner" where
  "requeueLocked now j s =
    (let j = j\<lparr>j_Status := Queued, j_Error := no_error\<rparr> in
     case save j s of
       (Some e, s) \<Rightarrow> ((Some e, j), s)
     | (None, s) \<Rightarrow> ((None, j), wake (event now (j_ID j) (ev_reason Queued ''resumed'') s)))"

definition new_job :: "spec \<Rightarrow> string \<Rightarrow> instant \<Rightarrow> string \<Rightarrow> Job" where
  "new_job sp params now newid =
    \<lparr>j_ID = newid, j_Type = sp_Type sp, j_Title = sp_Title sp, j_Status = Queued, j_Progress = 0, j_Step = [],
     j_Question = None, j_Result = ''{}'', j_Error = no_error, j_CreatedBy = sp_CreatedBy sp,
     j_CreatedAt = store_Time (unix_milli now), j_StartedAt = None, j_FinishedAt = None,
     j_params = params, j_checkpoint = ''{}''\<rparr>"

definition submit_new ::
  "instant \<Rightarrow> string \<Rightarrow> spec \<Rightarrow> string \<Rightarrow> runner \<Rightarrow> (error, Job \<times> bool) result \<times> runner" where
  "submit_new now newid sp params s =
    (if fault s then (Inl db_error, asked s)
     else if MaxQueued \<le> CountQueuedJobs (rn_db s) then
       (Inl (conflict [] (msgf ''the job queue is full (%d jobs waiting); try again when some have run''
               [AInt (int (CountQueuedJobs (rn_db s)))])), asked s)
     else
       (let s = (asked s)\<lparr>rn_issued := newid # rn_issued s\<rparr> in
        if fault s then (Inl db_error, asked s)
        else case InsertJob (rn_db s) newid (sp_Type sp) (sp_Title sp) params (NullString (sp_Key sp))
                    (sp_CreatedBy sp) (unix_milli now) of
          None \<Rightarrow> (Inl db_error, asked s)
        | Some d \<Rightarrow>
            (let j = new_job sp params now newid;
                 s = event now newid (ev_status Queued no_error) ((asked s)\<lparr>rn_db := d\<rparr>)
             in (Inr (j, True), wake (publish (PubJob j) s)))))"

definition Submit ::
  "config \<Rightarrow> instant \<Rightarrow> string \<Rightarrow> spec \<Rightarrow> runner \<Rightarrow> (error, Job \<times> bool) result \<times> runner" where
  "Submit c now newid sp s =
    (if \<not> Known c (sp_Type sp) then
       (Inl (invalid ''type'' (msgf ''unknown job type %q'' [AStr (sp_Type sp)])), s)
     else case (case sp_Params sp of None \<Rightarrow> Inr ''{}'' | Some r \<Rightarrow> r) of
       Inl e \<Rightarrow> (Inl e, s)
     | Inr params \<Rightarrow>
         if sp_Key sp = [] then submit_new now newid sp params s
         else if fault s then (Inl db_error, asked s)
         else case GetOpenJobByKey (rn_db s) (NullString (sp_Key sp)) of
           None \<Rightarrow> submit_new now newid sp params (asked s)
         | Some row \<Rightarrow>
             (let j = jobFrom c row in
              if j_Status j = Interrupted then
                (case requeueLocked now j (asked s) of
                   ((Some e, j), s) \<Rightarrow> (Inl e, s)
                 | ((None, j), s) \<Rightarrow> (Inr (j, False), s))
              else (Inr (j, False), asked s)))"

definition Get :: "config \<Rightarrow> string \<Rightarrow> runner \<Rightarrow> (error, Job) result \<times> runner" where
  "Get c i s =
    (case tget (rn_running s) i of
       Some ex \<Rightarrow> (Inr (ex_job ex), s)
     | None \<Rightarrow>
         if fault s then (Inl db_error, asked s)
         else case GetJob (rn_db s) i of
           None \<Rightarrow> (Inl ErrNotFound, asked s)
         | Some r \<Rightarrow> (Inr (jobFrom c (i, r)), asked s))"

definition known_filter :: "string \<Rightarrow> bool" where
  "known_filter f = contains ([] # ''active'' # ''finished'' # map status_name
     [Queued, Running, Waiting, Completed, Failed, Canceled, Interrupted]) f"

definition page_limit :: "int \<Rightarrow> int \<Rightarrow> int \<Rightarrow> nat" where
  "page_limit most dflt n = nat (if n \<le> 0 \<or> most < n then dflt else n)"

definition List_jobs ::
  "config \<Rightarrow> string \<Rightarrow> string \<Rightarrow> string \<Rightarrow> int \<Rightarrow> runner \<Rightarrow> (error, Job list \<times> string) result \<times> runner" where
  "List_jobs c st typ cursor limit s =
    (if \<not> known_filter st then (Inl (invalid ''status'' (msgf ''unknown status %q'' [AStr st])), s)
     else if fault s then (Inl db_error, asked s)
     else
       (let n = page_limit 200 50 limit;
            rows = ListJobs (rn_db s) cursor typ st (n + 1);
            page = take n rows;
            next_cursor = (if n < length rows then fst (last page) else [])
        in (Inr (map (\<lambda>(i, r). case tget (rn_running s) i of Some ex \<Rightarrow> ex_job ex
                                | None \<Rightarrow> jobFrom c (i, r)) page, next_cursor), asked s)))"

definition Events :: "string \<Rightarrow> int \<Rightarrow> int \<Rightarrow> runner \<Rightarrow> (error, job_event list) result \<times> runner" where
  "Events i after limit s =
    (if fault s then (Inl db_error, asked s)
     else (Inr (ListJobEvents (rn_db s) i after (page_limit 1000 500 limit)), asked s))"

definition Cancel :: "config \<Rightarrow> instant \<Rightarrow> string \<Rightarrow> runner \<Rightarrow> (Job option \<times> error option) \<times> runner" where
  "Cancel c now i s =
    (case tget (rn_running s) i of
       Some ex \<Rightarrow>
         ((Some (ex_job ex), None),
          s\<lparr>rn_running := tput i (ex\<lparr>ex_cause := (case ex_cause ex of None \<Rightarrow> Some CauseCanceled | Some k \<Rightarrow> Some k)\<rparr>)
              (rn_running s)\<rparr>)
     | None \<Rightarrow>
         if fault s then ((None, Some db_error), asked s)
         else case GetJob (rn_db s) i of
           None \<Rightarrow> ((None, Some ErrNotFound), asked s)
         | Some r \<Rightarrow>
             (let j = jobFrom c (i, r); s = asked s in
              if j_Status j \<noteq> Queued \<and> j_Status j \<noteq> Interrupted then
                ((Some j, Some (conflict [] (msgf ''the job is %s and cannot be canceled''
                    [AStr (status_name (j_Status j))]))), s)
              else
                (let j = j\<lparr>j_Status := Canceled, j_Error := canceled_text, j_FinishedAt := Some now, j_Question := None\<rparr> in
                 case save j s of
                   (Some e, s) \<Rightarrow> ((Some j, Some e), s)
                 | (None, s) \<Rightarrow>
                     (let s = event now i (ev_status Canceled canceled_text) s;
                          s = finishLocked j s;
                          s = (if has_cleanup c (j_Type j) then s\<lparr>rn_cleaned := rn_cleaned s @ [j]\<rparr> else s)
                      in ((Some j, None), s)))))"

definition Resume :: "config \<Rightarrow> instant \<Rightarrow> string \<Rightarrow> runner \<Rightarrow> (Job option \<times> error option) \<times> runner" where
  "Resume c now i s =
    (if fault s then ((None, Some db_error), asked s)
     else case GetJob (rn_db s) i of
       None \<Rightarrow> ((None, Some ErrNotFound), asked s)
     | Some r \<Rightarrow>
         (let j = jobFrom c (i, r) in
          if j_Status j \<noteq> Interrupted then
            ((Some j, Some (conflict [] (msgf ''only an interrupted job can be resumed; this one is %s''
                [AStr (status_name (j_Status j))]))), asked s)
          else if \<not> Known c (j_Type j) then
            ((Some j, Some (conflict [] (msgf ''unknown job type %q'' [AStr (j_Type j)]))), asked s)
          else
            (case requeueLocked now j (asked s) of ((e, j), s) \<Rightarrow> ((Some j, e), s))))"

definition Answer :: "string \<Rightarrow> string \<Rightarrow> runner \<Rightarrow> (Job option \<times> error option) \<times> runner" where
  "Answer i answer s =
    (let refuse = (if fault s then ((None, Some db_error), asked s)
                   else if GetJob (rn_db s) i = None then ((None, Some ErrNotFound), asked s)
                   else ((None, Some (conflict [] (msg ''the job is not waiting for an answer''))), asked s))
     in case tget (rn_running s) i of
       None \<Rightarrow> refuse
     | Some ex \<Rightarrow>
         if j_Status (ex_job ex) \<noteq> Waiting then refuse
         else case j_Question (ex_job ex) of
           None \<Rightarrow> refuse
         | Some q \<Rightarrow>
             if \<not> list_ex (\<lambda>opt. opt_ID opt = answer) (q_Options q) then
               ((Some (ex_job ex), Some (invalid ''answer'' (msg ''must be one of the question's options''))), s)
             else if ex_answer ex \<noteq> None then
               ((Some (ex_job ex), Some (conflict [] (msg ''the question was already answered''))), s)
             else
               ((Some (ex_job ex), None),
                s\<lparr>rn_running := tput i (ex\<lparr>ex_answer := Some answer\<rparr>) (rn_running s)\<rparr>))"

definition prune_cancel :: "config \<Rightarrow> instant \<Rightarrow> instant \<Rightarrow> runner \<Rightarrow> string \<times> job_row \<Rightarrow> runner" where
  "prune_cancel c now before s = (\<lambda>(i, r).
    if store_Time (r_CreatedAt r) < before then snd (Cancel c now i s) else s)"

fun prune_delete :: "string list \<Rightarrow> runner \<Rightarrow> error option \<times> runner" where
  "prune_delete [] s = (None, s)"
| "prune_delete (i # ids) s =
    (if fault s then (Some db_error, asked s)
     else prune_delete ids ((asked s)\<lparr>rn_db := DeleteJob (rn_db s) i\<rparr>))"

definition Prune :: "config \<Rightarrow> instant \<Rightarrow> instant \<Rightarrow> runner \<Rightarrow> (error, nat) result \<times> runner" where
  "Prune c now before s =
    (if fault s then (Inl db_error, asked s)
     else
       (let s = foldl (prune_cancel c now before) (asked s) (ListJobsByStatus (rn_db s) Interrupted 10000) in
        if fault s then (Inl db_error, asked s)
        else
          (let ids = ListFinishedJobsBefore (rn_db s) (NullMillis before) in
           case prune_delete ids (asked s) of
             (Some e, s) \<Rightarrow> (Inl e, s)
           | (None, s) \<Rightarrow> (Inr (length ids), s))))"

section \<open>Start and stop of the node\<close>

fun recover_rows :: "config \<Rightarrow> instant \<Rightarrow> (string \<times> job_row) list \<Rightarrow> runner \<Rightarrow> error option \<times> runner" where
  "recover_rows c now [] s = (None, s)"
| "recover_rows c now (row # rows) s =
    (let j = (jobFrom c row)\<lparr>j_Status := Interrupted, j_Question := None\<rparr> in
     case save j s of
       (Some e, s) \<Rightarrow> (Some e, s)
     | (None, s) \<Rightarrow>
         recover_rows c now rows
           (event now (j_ID j) (ev_reason Interrupted ''the node stopped while the job ran'') s))"

fun recover_loop :: "config \<Rightarrow> instant \<Rightarrow> status list \<Rightarrow> runner \<Rightarrow> error option \<times> runner" where
  "recover_loop c now [] s = (None, s)"
| "recover_loop c now (st # sts) s =
    (if fault s then (Some db_error, asked s)
     else case recover_rows c now (ListJobsByStatus (rn_db s) st 100000) (asked s) of
       (Some e, s) \<Rightarrow> (Some e, s)
     | (None, s) \<Rightarrow> recover_loop c now sts s)"

definition Recover :: "config \<Rightarrow> instant \<Rightarrow> runner \<Rightarrow> error option \<times> runner" where
  "Recover c now s = recover_loop c now [Running, Waiting] s"

definition shutdown_cause :: "execution \<Rightarrow> execution" where
  "shutdown_cause ex = ex\<lparr>ex_cause := (case ex_cause ex of None \<Rightarrow> Some CauseShutdown | Some k \<Rightarrow> Some k)\<rparr>"

text \<open>The end of \<^verbatim>\<open>Run\<close>: no more dispatch, and every running job is told to stop.\<close>

definition stop_running :: "runner \<Rightarrow> runner" where
  "stop_running s =
    s\<lparr>rn_stopping := True, rn_running := map (\<lambda>(i, ex). (i, shutdown_cause ex)) (rn_running s)\<rparr>"

section \<open>Waiting for a job\<close>

text \<open>\<^verbatim>\<open>Wait\<close> registers a channel, looks at the job and, while it is busy, blocks until the
  channel is closed; on every return it takes its channel out.\<close>

definition wait_register :: "string \<Rightarrow> runner \<Rightarrow> nat \<times> runner" where
  "wait_register i s =
    (rn_next s, s\<lparr>rn_waiters := tput i (waiting_on s i @ [rn_next s]) (rn_waiters s), rn_next := rn_next s + 1\<rparr>)"

definition wait_leave :: "string \<Rightarrow> nat \<Rightarrow> runner \<Rightarrow> runner" where
  "wait_leave i ch s =
    (let rest = filter (\<lambda>x. x \<noteq> ch) (waiting_on s i) in
     s\<lparr>rn_waiters := (if rest = [] then tdel i (rn_waiters s) else tput i rest (rn_waiters s)),
       rn_blocked := filter (\<lambda>x. x \<noteq> ch) (rn_blocked s)\<rparr>)"

definition wait_check :: "config \<Rightarrow> string \<Rightarrow> nat \<Rightarrow> runner \<Rightarrow> (error, Job) result option \<times> runner" where
  "wait_check c i ch s =
    (case Get c i s of
       (Inl e, s) \<Rightarrow> (Some (Inl e), wait_leave i ch s)
     | (Inr j, s) \<Rightarrow>
         if Busy (j_Status j) then (None, s\<lparr>rn_blocked := ch # rn_blocked s\<rparr>)
         else (Some (Inr j), wait_leave i ch s))"

definition wait_wake :: "config \<Rightarrow> string \<Rightarrow> nat \<Rightarrow> runner \<Rightarrow> (error, Job) result option \<times> runner" where
  "wait_wake c i ch s =
    (if ch \<in> set (rn_closed s) then (case Get c i s of (r, s) \<Rightarrow> (Some r, wait_leave i ch s))
     else (None, s))"

section \<open>What a handler reports\<close>

definition clamp :: "float64 \<Rightarrow> float64" where
  "clamp p = (if p < 0 then 0 else if 1 < p then 1 else p)"

definition set_job :: "execution \<Rightarrow> Job \<Rightarrow> runner \<Rightarrow> runner" where
  "set_job ex j s = s\<lparr>rn_running := tput (j_ID j) (ex\<lparr>ex_job := j\<rparr>) (rn_running s)\<rparr>"

definition run_Save :: "execution \<Rightarrow> (error, string) result \<Rightarrow> runner \<Rightarrow> error option \<times> runner" where
  "run_Save ex raw s =
    (case raw of
       Inl e \<Rightarrow> (Some e, s)
     | Inr cp \<Rightarrow> (let j = (ex_job ex)\<lparr>j_checkpoint := cp\<rparr> in save j (set_job ex j s)))"

definition run_Step :: "instant \<Rightarrow> execution \<Rightarrow> string \<Rightarrow> float64 \<Rightarrow> runner \<Rightarrow> runner" where
  "run_Step now ex nm p s =
    (let j = (ex_job ex)\<lparr>j_Step := nm, j_Progress := clamp p\<rparr>
     in event now (j_ID j) (EvStep nm (clamp p)) (snd (save j (set_job (ex\<lparr>ex_lastSave := now\<rparr>) j s))))"

definition run_Progress :: "instant \<Rightarrow> execution \<Rightarrow> float64 \<Rightarrow> runner \<Rightarrow> runner" where
  "run_Progress now ex p s =
    (if clamp p < j_Progress (ex_job ex) then s
     else
       (let j = (ex_job ex)\<lparr>j_Progress := clamp p\<rparr> in
        if now - ex_lastSave ex < 10 ^ 9 then publish (PubJob j) (set_job ex j s)
        else snd (save j (set_job (ex\<lparr>ex_lastSave := now\<rparr>) j s))))"

definition run_Logf :: "instant \<Rightarrow> execution \<Rightarrow> message \<Rightarrow> runner \<Rightarrow> runner" where
  "run_Logf now ex m s = event now (j_ID (ex_job ex)) (EvLog m) s"

text \<open>\<^verbatim>\<open>Checkpoint\<close>: \<open>decode\<close> is the decoding into the caller's variable.\<close>

definition run_Checkpoint :: "(string \<Rightarrow> 'v option) \<Rightarrow> execution \<Rightarrow> 'v option" where
  "run_Checkpoint decode ex =
    (let cp = j_checkpoint (ex_job ex) in if cp = [] \<or> cp = ''{}'' \<or> cp = ''null'' then None else decode cp)"

text \<open>\<^verbatim>\<open>Ask\<close> up to its wait, and after an answer or the expiry; when the job is told to stop
  it returns with the cause and changes nothing.\<close>

definition ask_begin :: "instant \<Rightarrow> string \<Rightarrow> execution \<Rightarrow> question \<Rightarrow> duration \<Rightarrow> runner \<Rightarrow> runner" where
  "ask_begin now qid ex q timeout s =
    (let q = q\<lparr>q_ID := qid, q_ExpiresAt := now + timeout\<rparr>;
         j = (ex_job ex)\<lparr>j_Status := Waiting, j_Question := Some q\<rparr>
     in wake (event now (j_ID j) (EvQuestion q) (snd (save j (set_job (ex\<lparr>ex_answer := None\<rparr>) j s)))))"

definition ask_end ::
  "instant \<Rightarrow> execution \<Rightarrow> question \<Rightarrow> string \<Rightarrow> string \<Rightarrow> runner \<Rightarrow> string option \<times> runner" where
  "ask_end now ex q answer by_whom s =
    (let j = (ex_job ex)\<lparr>j_Status := Running, j_Question := None\<rparr>;
         s = event now (j_ID j) (EvAnswer (q_ID q) answer by_whom) (snd (save j (set_job ex j s)))
     in (if answer = [] then None else Some answer, s))"

text \<open>When the answer and the expiry are both there, either may be taken.\<close>

definition ask_return :: "instant \<Rightarrow> bool \<Rightarrow> execution \<Rightarrow> question \<Rightarrow> runner \<Rightarrow> string option \<times> runner" where
  "ask_return now expired ex q s =
    (if expired then ask_end now ex q (q_Default q) ''timeout'' s
     else case ex_answer ex of
       Some a \<Rightarrow> ask_end now (ex\<lparr>ex_answer := None\<rparr>) q a ''user'' s
     | None \<Rightarrow> (None, s))"

end
