(* ===== verification/Job_Safety.thy ===== *)
theory Job_Safety
  imports Job_Runner
begin

text \<open>
  Safety of the job runner: the invariant that ties the running jobs, the rows of the
  database and the sequence numbers of the histories together, and the order that keeps
  finished jobs as they are. \<open>good s t\<close> says that a change keeps both.
\<close>

section \<open>Invariant and order\<close>

definition row :: "runner \<Rightarrow> string \<Rightarrow> job_row option" where
  "row s i = GetJob (rn_db s) i"

definition history :: "runner \<Rightarrow> string \<Rightarrow> int list" where
  "history s i = map e_Seq (filter (\<lambda>e. e_JobID e = i) (d_events (rn_db s)))"

definition history_ok :: "runner \<Rightarrow> bool" where
  "history_ok s =
    (\<forall>i. sorted_wrt (<) (history s i) \<and> (history s i \<noteq> [] \<longrightarrow> row s i \<noteq> None) \<and>
         (\<forall>n. tget (rn_seqs s) i = Some n \<longrightarrow> (\<forall>m\<in>set (history s i). m \<le> n)))"

definition in_progress :: "status \<Rightarrow> bool" where
  "in_progress s = (s = Running \<or> s = Waiting)"

definition ex_ok :: "runner \<Rightarrow> string \<Rightarrow> execution \<Rightarrow> bool" where
  "ex_ok s i ex =
    (j_ID (ex_job ex) = i \<and> in_progress (j_Status (ex_job ex)) \<and>
     (j_Status (ex_job ex) = Waiting \<longrightarrow> j_Question (ex_job ex) \<noteq> None) \<and>
     (\<exists>r. row s i = Some r \<and> in_progress (r_Status r)))"

definition running_ok :: "runner \<Rightarrow> bool" where
  "running_ok s = (table_ok (rn_running s) \<and> (\<forall>i ex. tget (rn_running s) i = Some ex \<longrightarrow> ex_ok s i ex))"

definition rinv :: "runner \<Rightarrow> bool" where
  "rinv s = (db_ok (rn_db s) \<and> history_ok s \<and> running_ok s \<and> (\<forall>i. row s i \<noteq> None \<longrightarrow> i \<in> set (rn_issued s)))"

definition kept :: "runner \<Rightarrow> runner \<Rightarrow> bool" where
  "kept s t =
    (set (rn_issued s) \<subseteq> set (rn_issued t) \<and>
     (\<forall>i\<in>set (rn_issued s). row s i = None \<longrightarrow> row t i = None) \<and>
     (\<forall>i r. row s i = Some r \<longrightarrow> Final (r_Status r) \<longrightarrow>
        row t i = Some r \<or> row t i = None \<and> i \<in> set (rn_issued t)))"

definition good :: "runner \<Rightarrow> runner \<Rightarrow> bool" where
  "good s t = (rinv s \<longrightarrow> rinv t \<and> kept s t)"

lemma kept_refl [simp]: "kept s s"
  by (simp add: kept_def)

lemma kept_trans: "kept s t \<Longrightarrow> kept t u \<Longrightarrow> kept s u"
  unfolding kept_def by (metis subsetD subset_trans)

lemma good_refl [simp]: "good s s"
  by (simp add: good_def)

lemma good_trans: "good s t \<Longrightarrow> (rinv t \<Longrightarrow> good t u) \<Longrightarrow> good s u"
  unfolding good_def using kept_trans by blast

text \<open>Fields that no part of the invariant reads.\<close>

lemma rinv_cong:
  "rn_db t = rn_db s \<Longrightarrow> rn_seqs t = rn_seqs s \<Longrightarrow> rn_running t = rn_running s \<Longrightarrow>
   rn_issued t = rn_issued s \<Longrightarrow> rinv t = rinv s"
  by (simp add: rinv_def history_ok_def history_def row_def running_ok_def ex_ok_def)

lemma kept_cong:
  "rn_db t = rn_db s \<Longrightarrow> rn_issued t = rn_issued s \<Longrightarrow> kept s t"
  by (simp add: kept_def row_def)

lemma good_cong:
  "rn_db t = rn_db s \<Longrightarrow> rn_seqs t = rn_seqs s \<Longrightarrow> rn_running t = rn_running s \<Longrightarrow>
   rn_issued t = rn_issued s \<Longrightarrow> good s t"
  unfolding good_def using rinv_cong kept_cong by blast

lemma good_asked [simp]: "good s (asked s)"
  by (rule good_cong) (simp_all add: asked_def)

lemma good_wake [simp]: "good s (wake s)"
  by (rule good_cong) (simp_all add: wake_def)

lemma good_publish [simp]: "good s (publish p s)"
  by (rule good_cong) (simp_all add: publish_def)

section \<open>Frames of the primitives\<close>

lemma asked_frame [simp]:
  "rn_db (asked s) = rn_db s" "rn_running (asked s) = rn_running s" "rn_waiters (asked s) = rn_waiters s"
  "rn_closed (asked s) = rn_closed s" "rn_blocked (asked s) = rn_blocked s" "rn_seqs (asked s) = rn_seqs s"
  "rn_issued (asked s) = rn_issued s" "rn_stopping (asked s) = rn_stopping s" "rn_next (asked s) = rn_next s"
  by (simp_all add: asked_def)

lemma row_asked [simp]: "row (asked s) i = row s i"
  by (simp add: row_def)

lemma wake_frame [simp]:
  "rn_db (wake s) = rn_db s" "rn_running (wake s) = rn_running s" "rn_waiters (wake s) = rn_waiters s"
  "rn_closed (wake s) = rn_closed s" "rn_blocked (wake s) = rn_blocked s" "rn_issued (wake s) = rn_issued s"
  "row (wake s) i = row s i" "rn_next (wake s) = rn_next s"
  by (simp_all add: wake_def row_def)

lemma publish_frame [simp]:
  "rn_db (publish p s) = rn_db s" "rn_running (publish p s) = rn_running s"
  "rn_waiters (publish p s) = rn_waiters s" "rn_closed (publish p s) = rn_closed s"
  "rn_blocked (publish p s) = rn_blocked s" "rn_seqs (publish p s) = rn_seqs s"
  "rn_issued (publish p s) = rn_issued s" "row (publish p s) i = row s i"
  "rn_stopping (publish p s) = rn_stopping s" "rn_next (publish p s) = rn_next s"
  by (simp_all add: publish_def row_def)

lemma save_frame [simp]:
  "rn_running (snd (save j s)) = rn_running s" "rn_waiters (snd (save j s)) = rn_waiters s"
  "rn_closed (snd (save j s)) = rn_closed s" "rn_blocked (snd (save j s)) = rn_blocked s"
  "rn_seqs (snd (save j s)) = rn_seqs s" "rn_issued (snd (save j s)) = rn_issued s"
  "rn_next (snd (save j s)) = rn_next s" "rn_stopping (snd (save j s)) = rn_stopping s"
  by (simp_all add: save_def split: option.splits)

lemma save_running:
  "save j (s\<lparr>rn_running := R\<rparr>) = (fst (save j s), (snd (save j s))\<lparr>rn_running := R\<rparr>)"
  by (simp add: save_def fault_def asked_def publish_def split: option.splits list.splits)

lemma row_save:
  "row (snd (save j s)) i =
     (if i = j_ID j \<and> fst (save j s) = None then map_option (apply_update (update_of j)) (row s i) else row s i)"
  by (auto simp: save_def row_def UpdateJob_get split: option.splits)

lemma row_save_other [simp]: "i \<noteq> j_ID j \<Longrightarrow> row (snd (save j s)) i = row s i"
  by (simp add: row_save)

lemma history_save [simp]: "history (snd (save j s)) i = history s i"
  by (auto simp: save_def history_def UpdateJob_events split: option.splits)

lemma insert_event_frame [simp]:
  "rn_running (insert_event e s) = rn_running s" "rn_waiters (insert_event e s) = rn_waiters s"
  "rn_closed (insert_event e s) = rn_closed s" "rn_blocked (insert_event e s) = rn_blocked s"
  "rn_seqs (insert_event e s) = rn_seqs s" "rn_issued (insert_event e s) = rn_issued s"
  "rn_next (insert_event e s) = rn_next s" "rn_stopping (insert_event e s) = rn_stopping s"
  by (simp_all add: insert_event_def split: option.splits)

lemma d_jobs_insert_event [simp]: "d_jobs (rn_db (insert_event e s)) = d_jobs (rn_db s)"
  by (auto simp: insert_event_def dest: InsertJobEvent_get split: option.splits)

lemma event_frame [simp]:
  "rn_running (event now i d s) = rn_running s" "rn_waiters (event now i d s) = rn_waiters s"
  "rn_closed (event now i d s) = rn_closed s" "rn_blocked (event now i d s) = rn_blocked s"
  "rn_issued (event now i d s) = rn_issued s" "d_jobs (rn_db (event now i d s)) = d_jobs (rn_db s)"
  "rn_next (event now i d s) = rn_next s" "rn_stopping (event now i d s) = rn_stopping s"
  by (simp_all add: event_def Let_def split: option.splits)

lemma row_event [simp]: "row (event now i d s) k = row s k"
  by (simp add: row_def GetJob_def)

lemma event_running:
  "event now i d (s\<lparr>rn_running := R\<rparr>) = (event now i d s)\<lparr>rn_running := R\<rparr>"
  by (simp add: event_def insert_event_def fault_def asked_def publish_def Let_def
      split: option.splits list.splits)

lemma finish_frame [simp]:
  "rn_db (finishLocked j s) = rn_db s" "rn_running (finishLocked j s) = rn_running s"
  "rn_issued (finishLocked j s) = rn_issued s" "row (finishLocked j s) i = row s i"
  "rn_blocked (finishLocked j s) = rn_blocked s"
  by (simp_all add: finishLocked_def Let_def publish_def row_def)

section \<open>The primitives are good\<close>

lemma apply_update_simps [simp]:
  "r_Status (apply_update (update_of j) r) = j_Status j"
  "r_DedupeKey (apply_update (update_of j) r) = r_DedupeKey r"
  "r_Type (apply_update (update_of j) r) = r_Type r"
  by (simp_all add: apply_update_def update_of_def)

lemma save_db_ok: "db_ok (rn_db s) \<Longrightarrow> db_ok (rn_db (snd (save j s)))"
  by (auto simp: save_def dest: UpdateJob_ok split: option.splits)

lemma good_save:
  assumes nf: "\<And>r. row s (j_ID j) = Some r \<Longrightarrow> \<not> Final (r_Status r)"
    and run: "tget (rn_running s) (j_ID j) \<noteq> None \<Longrightarrow> in_progress (j_Status j)"
  shows "good s (snd (save j s))"
proof -
  {
    assume i: "rinv s"
    have h: "history_ok (snd (save j s))"
      using i by (auto simp: rinv_def history_ok_def row_save)
    have "ex_ok (snd (save j s)) k ex" if "tget (rn_running s) k = Some ex" for k ex
    proof -
      have "ex_ok s k ex" using i that by (auto simp: rinv_def running_ok_def)
      then show ?thesis using run that by (auto simp: ex_ok_def row_save)
    qed
    then have r: "running_ok (snd (save j s))"
      using i by (auto simp: rinv_def running_ok_def)
    have "rinv (snd (save j s))"
      using i h r save_db_ok by (auto simp: rinv_def row_save split: if_splits)
    moreover have "kept s (snd (save j s))"
      using nf by (auto simp: kept_def row_save)
    ultimately have "rinv (snd (save j s)) \<and> kept s (snd (save j s))" ..
  }
  then show ?thesis by (simp add: good_def)
qed

lemma history_insert_event:
  "history (insert_event e s) i = history s i \<or>
   (i = e_JobID e \<and> row s i \<noteq> None \<and> history (insert_event e s) i = history s i @ [e_Seq e])"
  by (auto simp: insert_event_def history_def InsertJobEvent_def row_def GetJob_def split: option.splits)

text \<open>An event with a sequence number above the recorded ones keeps the histories.\<close>

lemma history_ok_insert:
  assumes "history_ok s" "\<And>m. m \<in> set (history s (e_JobID e)) \<Longrightarrow> m < e_Seq e"
  shows "history_ok (insert_event e (s\<lparr>rn_seqs := tput (e_JobID e) (e_Seq e) (rn_seqs s)\<rparr>))"
proof -
  let ?s = "s\<lparr>rn_seqs := tput (e_JobID e) (e_Seq e) (rn_seqs s)\<rparr>"
  have h: "history ?s i = history s i" "row ?s i = row s i" "row (insert_event e ?s) i = row s i" for i
    by (simp_all add: history_def row_def GetJob_def)
  have ok: "sorted_wrt (<) (history s i)" "history s i \<noteq> [] \<Longrightarrow> row s i \<noteq> None"
    "tget (rn_seqs s) i = Some n \<Longrightarrow> m \<in> set (history s i) \<Longrightarrow> m \<le> n" for i n m
    using assms(1) by (auto simp: history_ok_def)
  show ?thesis unfolding history_ok_def h
  proof (intro allI conjI impI)
    fix i
    consider "history (insert_event e ?s) i = history s i"
      | "i = e_JobID e" "row s i \<noteq> None" "history (insert_event e ?s) i = history s i @ [e_Seq e]"
      using history_insert_event [of e ?s i] h by auto
    note c = this
    show "sorted_wrt (<) (history (insert_event e ?s) i)"
      using c ok(1) assms(2) by cases (auto simp: sorted_wrt_append)
    show "row s i \<noteq> None" if "history (insert_event e ?s) i \<noteq> []"
      using c ok(2) that by cases auto
    fix n
    assume n: "tget (rn_seqs (insert_event e ?s)) i = Some n"
    have "m \<le> n" if m: "m \<in> set (history (insert_event e ?s) i)" for m
      using c
    proof cases
      case 1
      with n m ok(3) [of i n m] assms(2) [of m] show ?thesis by (auto split: if_splits)
    next
      case 2
      with n m assms(2) [of m] show ?thesis by auto
    qed
    then show "\<forall>m\<in>set (history (insert_event e ?s) i). m \<le> n" by blast
  qed
qed

lemma db_ok_insert_event: "db_ok (rn_db s) \<Longrightarrow> db_ok (rn_db (insert_event e s))"
  by (auto simp: insert_event_def dest: InsertJobEvent_ok split: option.splits)

lemma MaxJobEventSeq_history: "m \<in> set (history s i) \<Longrightarrow> m \<le> MaxJobEventSeq (rn_db s) i"
  unfolding history_def using MaxJobEventSeq_ge by auto

lemma rinv_same_rows:
  "rinv s \<Longrightarrow> d_jobs (rn_db t) = d_jobs (rn_db s) \<Longrightarrow> rn_running t = rn_running s \<Longrightarrow>
   rn_issued t = rn_issued s \<Longrightarrow> db_ok (rn_db t) \<Longrightarrow> history_ok t \<Longrightarrow> rinv t"
  by (simp add: rinv_def running_ok_def ex_ok_def row_def GetJob_def)

lemma kept_same_rows:
  "d_jobs (rn_db t) = d_jobs (rn_db s) \<Longrightarrow> rn_issued t = rn_issued s \<Longrightarrow> kept s t"
  by (simp add: kept_def row_def GetJob_def)

lemma good_event [simp]: "good s (event now i d s)"
proof -
  {
    assume v: "rinv s"
    then have h: "history_ok s" by (simp add: rinv_def)
    have "history_ok (event now i d s)"
    proof (cases "tget (rn_seqs s) i")
      case (Some n)
      have "m < n + 1" if "m \<in> set (history s i)" for m
        using h Some that by (force simp: history_ok_def)
      with history_ok_insert [OF h, of "\<lparr>e_JobID = i, e_Seq = n + 1, e_At = unix_milli now, e_Data = d\<rparr>"] Some
      show ?thesis by (simp add: event_def)
    next
      case None
      have ha: "history_ok (asked s)"
        using h by (simp add: history_ok_def history_def row_def)
      have hs: "history (asked s) i = history s i" by (simp add: history_def)
      have "m < MaxJobEventSeq (rn_db s) i + 1" if "m \<in> set (history s i)" for m
        using MaxJobEventSeq_history [OF that] by simp
      with history_ok_insert [OF ha, of "\<lparr>e_JobID = i, e_Seq = MaxJobEventSeq (rn_db s) i + 1,
          e_At = unix_milli now, e_Data = d\<rparr>"] None ha hs
      show ?thesis by (simp add: event_def)
    qed
    moreover have "db_ok (rn_db (event now i d s))"
      using v by (simp add: rinv_def event_def Let_def db_ok_insert_event split: option.split)
    ultimately have "rinv (event now i d s)"
      using rinv_same_rows [OF v, of "event now i d s"] by simp
    moreover have "kept s (event now i d s)" by (rule kept_same_rows) simp_all
    ultimately have "rinv (event now i d s) \<and> kept s (event now i d s)" ..
  }
  then show ?thesis by (simp add: good_def)
qed

lemma good_finish [simp]: "good s (finishLocked j s)"
proof -
  have "history_ok s \<Longrightarrow> history_ok (finishLocked j s)"
    by (auto simp: history_ok_def history_def finishLocked_def Let_def publish_def row_def split: if_splits)
  then have "rinv (finishLocked j s)" if "rinv s"
    using that rinv_same_rows [OF that, of "finishLocked j s"] by (simp add: rinv_def)
  moreover have "kept s (finishLocked j s)" by (rule kept_same_rows) simp_all
  ultimately show ?thesis by (simp add: good_def)
qed

text \<open>Changes of the running jobs.\<close>

lemma good_running:
  assumes "table_ok R" "\<And>i ex. rinv s \<Longrightarrow> tget R i = Some ex \<Longrightarrow> ex_ok s i ex"
  shows "good s (s\<lparr>rn_running := R\<rparr>)"
proof -
  let ?t = "s\<lparr>rn_running := R\<rparr>"
  have e: "row ?t i = row s i" "history ?t i = history s i" for i by (simp_all add: row_def history_def)
  then have x: "ex_ok ?t i ex = ex_ok s i ex" for i ex by (simp add: ex_ok_def)
  have "history_ok ?t = history_ok s" unfolding history_ok_def e by simp
  moreover have "running_ok ?t" if "rinv s" using assms that by (simp add: running_ok_def x)
  moreover have "kept s ?t" by (rule kept_same_rows) simp_all
  ultimately show ?thesis by (simp add: good_def rinv_def e)
qed

lemma good_tdel: "good s (s\<lparr>rn_running := tdel i (rn_running s)\<rparr>)"
proof -
  { assume "rinv s"
    then have "good s (s\<lparr>rn_running := tdel i (rn_running s)\<rparr>)"
      by (intro good_running) (auto simp: rinv_def running_ok_def split: if_splits) }
  then show ?thesis by (auto simp: good_def)
qed

lemma good_put:
  assumes "rinv s \<Longrightarrow> ex_ok s i ex"
  shows "good s (s\<lparr>rn_running := tput i ex (rn_running s)\<rparr>)"
proof -
  { assume "rinv s"
    then have "good s (s\<lparr>rn_running := tput i ex (rn_running s)\<rparr>)"
      using assms by (intro good_running) (auto simp: rinv_def running_ok_def split: if_splits) }
  then show ?thesis by (auto simp: good_def)
qed

lemma running_ex_ok: "rinv s \<Longrightarrow> tget (rn_running s) i = Some ex \<Longrightarrow> ex_ok s i ex"
  by (simp add: rinv_def running_ok_def)

text \<open>A step under the invariant.\<close>

lemma goodI: "(rinv s \<Longrightarrow> good s t) \<Longrightarrow> good s t"
  by (simp add: good_def)

end
