(* ===== verification/Job_Machine.thy ===== *)
theory Job_Machine
  imports Job_Safety
begin

text \<open>
  The job runner as a machine: every operation keeps the invariant and the finished jobs,
  the bound on the jobs that run, and what \<^verbatim>\<open>Submit\<close> does.
\<close>

section \<open>Every operation is good\<close>

lemma jobFrom_simps [simp]:
  "j_ID (jobFrom c (i, r)) = i" "j_Status (jobFrom c (i, r)) = r_Status r" "j_Type (jobFrom c (i, r)) = r_Type r"
  by (simp_all add: jobFrom_def)

lemma mark_running_simps [simp]:
  "j_ID (mark_running now j) = j_ID j" "j_Status (mark_running now j) = Running"
  "j_Type (mark_running now j) = j_Type j"
  by (simp_all add: mark_running_def)

lemma not_running_row: "rinv s \<Longrightarrow> row s i = Some r \<Longrightarrow> \<not> in_progress (r_Status r) \<Longrightarrow> tget (rn_running s) i = None"
  using running_ex_ok [of s i] by (cases "tget (rn_running s) i") (auto simp: ex_ok_def)

lemma good_save_event:
  "good s (snd (save j s)) \<Longrightarrow> good s (event now i d (snd (save j s)))"
  by (rule good_trans) auto

lemma good_dispatch_row:
  assumes r: "row s i = Some r" "r_Status r = Queued"
  shows "good s (dispatch_row c now s (i, r))"
proof (rule goodI)
  assume v: "rinv s"
  have nr: "tget (rn_running s) i = None" using not_running_row [OF v r(1)] r(2) by (simp add: in_progress_def)
  have sv: "good s (snd (save j s))" if "j_ID j = i" for j
    using that r nr by (intro good_save) auto
  show ?thesis
  proof (cases "Known c (r_Type r)")
    case False
    then show ?thesis by (simp add: dispatch_row_def Let_def good_save_event sv)
  next
    case True
    let ?j = "mark_running now (jobFrom c (i, r))"
    obtain e t where st: "save ?j s = (e, t)" by (cases "save ?j s")
    have t: "good s t" using sv [of ?j] st by simp
    show ?thesis
    proof (cases e)
      case (Some x)
      with True st t show ?thesis by (simp add: dispatch_row_def)
    next
      case None
      let ?u = "event now i (ev_status Running no_error) t"
      let ?ex = "\<lparr>ex_job = ?j, ex_cause = None, ex_answer = None, ex_lastSave = zero_time\<rparr>"
      have "row t i = map_option (apply_update (update_of ?j)) (row s i)"
        using row_save [of ?j s i] st None by simp
      then have "ex_ok ?u i ?ex" using r by (simp add: ex_ok_def in_progress_def)
      then have "good ?u (?u\<lparr>rn_running := tput i ?ex (rn_running ?u)\<rparr>)" by (intro good_put)
      moreover have "good s ?u" using t by (rule good_trans) simp
      ultimately have "good s (?u\<lparr>rn_running := tput i ?ex (rn_running ?u)\<rparr>)"
        using good_trans by blast
      then show ?thesis using True st None by (simp add: dispatch_row_def Let_def)
    qed
  qed
qed

lemma row_dispatch_row_other [simp]:
  "k \<noteq> i \<Longrightarrow> row (dispatch_row c now s (i, r)) k = row s k"
proof -
  assume k: "k \<noteq> i"
  let ?j = "mark_running now (jobFrom c (i, r))"
  obtain e t where st: "save ?j s = (e, t)" by (cases "save ?j s")
  have "row t k = row s k" using row_save_other [of k ?j s] k st by simp
  then show ?thesis using k st
    by (cases e) (simp_all add: dispatch_row_def Let_def row_def [of "_\<lparr>rn_running := _\<rparr>"] row_def [symmetric])
qed

lemma good_dispatch_rows:
  "distinct (map fst rows) \<Longrightarrow> (\<And>i r. (i, r) \<in> set rows \<Longrightarrow> row s i = Some r \<and> r_Status r = Queued) \<Longrightarrow>
   good s (foldl (dispatch_row c now) s rows)"
proof (induction rows arbitrary: s)
  case (Cons p rows)
  obtain i r where p: "p = (i, r)" by (cases p)
  have "good s (dispatch_row c now s p)" using Cons.prems(2) p by (auto intro!: good_dispatch_row)
  moreover have "good (dispatch_row c now s p) (foldl (dispatch_row c now) (dispatch_row c now s p) rows)"
  proof (rule Cons.IH)
    show "distinct (map fst rows)" using Cons.prems(1) by simp
    fix k q assume k: "(k, q) \<in> set rows"
    then have "k \<noteq> i" using Cons.prems(1) p by force
    then show "row (dispatch_row c now s p) k = Some q \<and> r_Status q = Queued"
      using Cons.prems(2) [of k q] k p by simp
  qed
  ultimately show ?case by (simp add: good_trans)
qed simp

lemma listed_rows:
  "rinv s \<Longrightarrow> (i, r) \<in> set (ListJobsByStatus (rn_db s) st n) \<Longrightarrow> row s i = Some r \<and> r_Status r = st"
  unfolding row_def rinv_def db_ok_def using ListJobsByStatus_get by blast

lemma listed_distinct: "rinv s \<Longrightarrow> distinct (map fst (ListJobsByStatus (rn_db s) st n))"
  unfolding rinv_def db_ok_def using ListJobsByStatus_distinct by blast

lemma good_dispatch: "good s (dispatch c m now s)"
proof (rule goodI)
  assume v: "rinv s"
  have "good (asked s) (foldl (dispatch_row c now) (asked s)
      (ListJobsByStatus (rn_db s) Queued (nat (m - int (busy_count s)))))"
    using listed_rows [OF v] listed_distinct [OF v] by (intro good_dispatch_rows) auto
  then have "good s (foldl (dispatch_row c now) (asked s)
      (ListJobsByStatus (rn_db s) Queued (nat (m - int (busy_count s)))))"
    using good_trans [OF good_asked] by blast
  then show ?thesis by (simp add: dispatch_def Let_def)
qed

lemma outcome_not_progress: "\<not> in_progress (fst (outcome k e))"
  by (auto simp: outcome_def in_progress_def split: option.splits)

lemma end_job_simps [simp]:
  "j_ID (end_job now res e ex) = j_ID (ex_job ex)" "j_Type (end_job now res e ex) = j_Type (ex_job ex)"
  "j_Status (end_job now res e ex) = fst (outcome (ex_cause ex) e)"
  by (simp_all add: end_job_def Let_def case_prod_beta)

lemma good_cleaned [simp]: "good s (s\<lparr>rn_cleaned := l\<rparr>)"
  by (rule good_cong) simp_all

lemma good_execute_end: "good s (execute_end c now i res e s)"
proof (cases "tget (rn_running s) i")
  case None
  then show ?thesis by (simp add: execute_end_def)
next
  case (Some ex)
  show ?thesis
  proof (rule goodI)
    assume v: "rinv s"
    have ok: "ex_ok s i ex" using running_ex_ok [OF v Some] .
    let ?j = "end_job now res e ex"
    let ?R = "tdel i (rn_running s)"
    let ?s0 = "s\<lparr>rn_running := ?R\<rparr>"
    let ?d = "ev_status (j_Status ?j) (j_Error ?j)"
    have id: "j_ID (ex_job ex) = i" using ok by (simp add: ex_ok_def)
    have r0: "row ?s0 k = row s k" for k by (simp add: row_def)
    have "good ?s0 (snd (save ?j ?s0))"
      using ok by (intro good_save) (auto simp: ex_ok_def r0 in_progress_def)
    then have "good ?s0 (event now i ?d (snd (save ?j ?s0)))" by (rule good_save_event)
    then have 1: "good s (event now i ?d (snd (save ?j ?s0)))"
      using good_trans [OF good_tdel] by blast
    have eq: "event now i ?d (snd (save ?j ?s0)) = (event now i ?d (snd (save ?j s)))\<lparr>rn_running := ?R\<rparr>"
      by (simp add: save_running event_running)
    let ?u = "(event now i ?d (snd (save ?j s)))\<lparr>rn_running := ?R\<rparr>"
    have "good s (finishLocked ?j ?u)" using 1 unfolding eq by (rule good_trans) simp
    then have "good s (if Final (j_Status ?j) \<and> has_cleanup c (j_Type ?j)
        then (finishLocked ?j ?u)\<lparr>rn_cleaned := rn_cleaned (finishLocked ?j ?u) @ [?j]\<rparr> else finishLocked ?j ?u)"
      (is "good s ?f") by (auto intro: good_trans)
    then have "good s (wake ?f)" by (rule good_trans) simp
    then show ?thesis
      by (simp only: execute_end_def Some option.case Let_def end_job_simps id event_frame save_frame)
  qed
qed

lemma good_extend:
  "good s t \<Longrightarrow> good s (event now i d t)" "good s t \<Longrightarrow> good s (wake t)"
  "good s t \<Longrightarrow> good s (publish p t)" "good s t \<Longrightarrow> good s (finishLocked j t)"
  "good s t \<Longrightarrow> good s (asked t)" "good s t \<Longrightarrow> good s (t\<lparr>rn_cleaned := l\<rparr>)"
  by (erule good_trans, simp)+

lemma good_requeue:
  assumes "row s (j_ID j) = Some r" "r_Status r = Interrupted"
  shows "good s (snd (requeueLocked now j s))"
proof (rule goodI)
  assume v: "rinv s"
  let ?j = "j\<lparr>j_Status := Queued, j_Error := no_error\<rparr>"
  have "tget (rn_running s) (j_ID j) = None"
    using not_running_row [OF v assms(1)] assms(2) by (simp add: in_progress_def)
  then have sv: "good s (snd (save ?j s))" using assms by (intro good_save) auto
  obtain e t where st: "save ?j s = (e, t)" by (cases "save ?j s")
  then have "good s t" using sv by simp
  moreover then have "good s (wake (event now (j_ID j) (ev_reason Queued ''resumed'') t))"
    by (intro good_extend)
  ultimately show ?thesis using st by (cases e) (simp_all add: requeueLocked_def Let_def)
qed

lemma history_row: "rinv s \<Longrightarrow> row s i = None \<Longrightarrow> history s i = []"
  unfolding rinv_def history_ok_def by blast

lemma good_insert:
  assumes fresh: "newid \<notin> set (rn_issued s)"
    and ins: "InsertJob (rn_db s) newid ty ti p key b a = Some d"
  shows "good s (s\<lparr>rn_db := d, rn_issued := newid # rn_issued s\<rparr>)"
proof (rule goodI)
  assume v: "rinv s"
  let ?t = "s\<lparr>rn_db := d, rn_issued := newid # rn_issued s\<rparr>"
  have new: "row s newid = None" using v fresh unfolding rinv_def by blast
  define r where "r = \<lparr>r_Type = ty, r_Title = ti, r_Status = Queued, r_Progress = 0, r_Step = [], r_ParamsJson = p,
        r_CheckpointJson = ''{}'', r_QuestionJson = None, r_ResultJson = ''{}'', r_DedupeKey = key,
        r_CreatedBy = b, r_CreatedAt = a, r_StartedAt = None, r_FinishedAt = None, r_Error = msg []\<rparr>"
  have r: "d = (rn_db s)\<lparr>d_jobs := tput newid r (d_jobs (rn_db s))\<rparr>"
    using ins by (simp add: InsertJob_def r_def split: if_splits)
  have row: "row ?t i = (if i = newid then Some r else row s i)" for i
    using r by (simp add: row_def GetJob_def)
  have h: "history ?t i = history s i" for i using r by (simp add: history_def)
  have "ex_ok ?t i ex" if "tget (rn_running s) i = Some ex" for i ex
  proof -
    have "ex_ok s i ex" using running_ex_ok v that by blast
    then show ?thesis using new by (auto simp: ex_ok_def row)
  qed
  then have "running_ok ?t" using v by (auto simp: rinv_def running_ok_def)
  moreover have "history_ok ?t" using v unfolding rinv_def history_ok_def h row by simp
  moreover have "db_ok d" using v ins InsertJob_ok unfolding rinv_def by blast
  ultimately have "rinv ?t" using v unfolding rinv_def row by auto
  moreover have "kept s ?t" using fresh new unfolding kept_def row by auto
  ultimately show "good s ?t" by (simp add: good_def)
qed

lemma good_issued [simp]: "good s (s\<lparr>rn_issued := i # rn_issued s\<rparr>)"
  if "row s i = None"
proof -
  let ?t = "s\<lparr>rn_issued := i # rn_issued s\<rparr>"
  have "row ?t k = row s k" "history ?t k = history s k" "ex_ok ?t k ex = ex_ok s k ex" for k ex
    by (simp_all add: row_def history_def ex_ok_def)
  then show ?thesis by (auto simp: good_def rinv_def history_ok_def running_ok_def kept_def)
qed

lemma good_submit_new:
  assumes fresh: "newid \<notin> set (rn_issued s)"
  shows "good s (snd (submit_new now newid sp params s))"
proof (rule goodI)
  assume v: "rinv s"
  then have new: "row s newid = None" using fresh unfolding rinv_def by blast
  let ?u = "(asked s)\<lparr>rn_issued := newid # rn_issued s\<rparr>"
  have gu: "good s ?u"
    using good_trans [OF good_asked, of s ?u] good_issued [of "asked s" newid] new by simp
  show ?thesis
  proof (cases "fault s \<or> MaxQueued \<le> CountQueuedJobs (rn_db s) \<or> fault ?u")
    case True
    have "good s (asked ?u)" using gu by (rule good_trans) simp
    with True show ?thesis by (auto simp: submit_new_def Let_def)
  next
    case False
    let ?ins = "InsertJob (rn_db s) newid (sp_Type sp) (sp_Title sp) params (NullString (sp_Key sp))
                    (sp_CreatedBy sp) (unix_milli now)"
    show ?thesis
    proof (cases ?ins)
      case None
      have "good s (asked ?u)" using gu by (rule good_trans) simp
      with None False show ?thesis by (simp add: submit_new_def Let_def)
    next
      case (Some d)
      have "(asked ?u)\<lparr>rn_db := d\<rparr> = (asked (asked s))\<lparr>rn_db := d, rn_issued := newid # rn_issued s\<rparr>"
        by (simp add: asked_def)
      moreover have "good (asked (asked s)) ((asked (asked s))\<lparr>rn_db := d, rn_issued := newid # rn_issued s\<rparr>)"
        using good_insert [of newid "asked (asked s)"] fresh Some by simp
      ultimately have g: "good s ((asked ?u)\<lparr>rn_db := d\<rparr>)"
        using good_trans [OF good_trans [OF good_asked good_asked]] by simp
      have "good s (wake (publish p (event now newid e ((asked ?u)\<lparr>rn_db := d\<rparr>))))" for p e
        by (intro good_extend g)
      with Some False show ?thesis by (simp add: submit_new_def Let_def)
    qed
  qed
qed

lemma open_row:
  "rinv s \<Longrightarrow> GetOpenJobByKey (rn_db s) key = Some (i, r) \<Longrightarrow> row s i = Some r"
  unfolding rinv_def db_ok_def row_def using GetOpenJobByKey_Some by blast

lemma good_Submit:
  assumes fresh: "newid \<notin> set (rn_issued s)"
  shows "good s (snd (Submit c now newid sp s))"
proof (rule goodI)
  assume v: "rinv s"
  have n: "good s (snd (submit_new now newid sp params s))" for params
    using good_submit_new fresh by blast
  have na: "good s (snd (submit_new now newid sp params (asked s)))" for params
    using good_trans [OF good_asked] good_submit_new [of newid "asked s"] fresh by simp
  show ?thesis
  proof (cases "GetOpenJobByKey (rn_db s) (NullString (sp_Key sp))")
    case None
    with n na show ?thesis by (simp add: Submit_def split: sum.split option.split)
  next
    case (Some p)
    obtain i r where p: "p = (i, r)" by (cases p)
    have row: "row (asked s) i = Some r" using open_row [OF v] Some p by simp
    have "good s (snd (requeueLocked now (jobFrom c p) (asked s)))" if "r_Status r = Interrupted"
      using good_trans [OF good_asked] good_requeue [of "asked s" "jobFrom c p" r] row that p by simp
    with Some p n show ?thesis
      by (simp add: Submit_def Let_def case_prod_beta split: sum.split option.split prod.split)
  qed
qed

lemma good_Cancel: "good s (snd (Cancel c now i s))"
proof (rule goodI)
  assume v: "rinv s"
  show ?thesis
  proof (cases "tget (rn_running s) i")
    case (Some ex)
    have "good s (s\<lparr>rn_running := tput i (ex\<lparr>ex_cause := k\<rparr>) (rn_running s)\<rparr>)" for k
      using running_ex_ok [OF v Some] by (intro good_put) (simp add: ex_ok_def)
    with Some show ?thesis by (simp add: Cancel_def)
  next
    case nr: None
    show ?thesis
    proof (cases "fault s \<or> GetJob (rn_db s) i = None")
      case True
      with nr show ?thesis by (auto simp: Cancel_def)
    next
      case False
      then obtain r where r: "row s i = Some r" and f: "\<not> fault s" by (auto simp: row_def)
      then have gj: "GetJob (rn_db s) i = Some r" by (simp add: row_def)
      show ?thesis
      proof (cases "r_Status r \<noteq> Queued \<and> r_Status r \<noteq> Interrupted")
        case True
        with nr f gj show ?thesis by (simp add: Cancel_def Let_def)
      next
        case stop: False
        let ?j = "(jobFrom c (i, r))\<lparr>j_Status := Canceled, j_Error := canceled_text, j_FinishedAt := Some now, j_Question := None\<rparr>"
        have "good (asked s) (snd (save ?j (asked s)))"
          using r nr stop by (intro good_save) auto
        then have sv: "good s (snd (save ?j (asked s)))" using good_trans [OF good_asked] by blast
        obtain e t where st: "save ?j (asked s) = (e, t)" by (cases "save ?j (asked s)")
        have t: "good s t" using sv st by simp
        let ?u = "finishLocked ?j (event now i (ev_status Canceled canceled_text) t)"
        have u: "good s ?u" by (intro good_extend t)
        have w: "good s (?u\<lparr>rn_cleaned := l\<rparr>)" for l using u by (rule good_trans) simp
        show ?thesis
        proof (cases e)
          case (Some x)
          with t nr f gj stop st show ?thesis by (simp add: Cancel_def Let_def)
        next
          case None
          with u w nr f gj stop st show ?thesis by (simp add: Cancel_def Let_def)
        qed
      qed
    qed
  qed
qed

lemma good_Resume: "good s (snd (Resume c now i s))"
proof (cases "fault s \<or> GetJob (rn_db s) i = None")
  case True
  then show ?thesis by (auto simp: Resume_def)
next
  case False
  then obtain r where r: "row (asked s) i = Some r" "GetJob (rn_db s) i = Some r" and f: "\<not> fault s"
    by (auto simp: row_def)
  have "good s (snd (requeueLocked now (jobFrom c (i, r)) (asked s)))" if "r_Status r = Interrupted"
    using good_trans [OF good_asked] good_requeue [of "asked s" "jobFrom c (i, r)" r] r that by simp
  with r f show ?thesis by (simp add: Resume_def Let_def case_prod_beta)
qed

lemma good_Answer: "good s (snd (Answer i a s))"
proof (rule goodI)
  assume v: "rinv s"
  show ?thesis
  proof (cases "tget (rn_running s) i")
    case (Some ex)
    have "good s (s\<lparr>rn_running := tput i (ex\<lparr>ex_answer := k\<rparr>) (rn_running s)\<rparr>)" for k
      using running_ex_ok [OF v Some] by (intro good_put) (simp add: ex_ok_def)
    with Some show ?thesis by (simp add: Answer_def Let_def split: option.split)
  qed (simp add: Answer_def Let_def)
qed

lemma good_delete:
  assumes "\<And>r. row s i = Some r \<Longrightarrow> Final (r_Status r)"
  shows "good s (s\<lparr>rn_db := DeleteJob (rn_db s) i\<rparr>)"
proof (rule goodI)
  assume v: "rinv s"
  let ?t = "s\<lparr>rn_db := DeleteJob (rn_db s) i\<rparr>"
  have row: "row ?t k = (if k = i then None else row s k)" for k
    by (simp add: row_def GetJob_def DeleteJob_def)
  have h: "history ?t k = (if k = i then [] else history s k)" for k
    by (auto simp: history_def DeleteJob_def intro: arg_cong [of _ _ "map e_Seq"] filter_cong)
  have "ex_ok ?t k ex" if "tget (rn_running s) k = Some ex" for k ex
  proof -
    have "ex_ok s k ex" using running_ex_ok v that by blast
    then show ?thesis using assms by (auto simp: ex_ok_def row in_progress_def)
  qed
  then have "running_ok ?t" using v by (auto simp: rinv_def running_ok_def)
  moreover have "history_ok ?t" using v unfolding rinv_def history_ok_def h row by simp
  moreover have "db_ok (rn_db ?t)" using v DeleteJob_ok unfolding rinv_def by simp
  ultimately have "rinv ?t" using v unfolding rinv_def row by auto
  moreover have "kept s ?t" using v unfolding kept_def row rinv_def by auto
  ultimately show "good s ?t" by (simp add: good_def)
qed

lemma good_prune_delete:
  "(\<And>i r. i \<in> set ids \<Longrightarrow> row s i = Some r \<Longrightarrow> Final (r_Status r)) \<Longrightarrow> good s (snd (prune_delete ids s))"
proof (induction ids arbitrary: s)
  case (Cons i ids)
  let ?t = "(asked s)\<lparr>rn_db := DeleteJob (rn_db s) i\<rparr>"
  have row: "row ?t k = (if k = i then None else row s k)" for k
    by (simp add: row_def GetJob_def DeleteJob_def)
  have "good (asked s) ?t" using good_delete [of "asked s" i] Cons.prems [of i] by simp
  then have "good s ?t" using good_trans [OF good_asked] by blast
  moreover have "good ?t (snd (prune_delete ids ?t))"
    by (rule Cons.IH) (use Cons.prems in \<open>auto simp: row split: if_splits\<close>)
  ultimately have "good s (snd (prune_delete ids ?t))" using good_trans by blast
  then show ?case by simp
qed simp

lemma finished_rows:
  "rinv s \<Longrightarrow> i \<in> set (ListFinishedJobsBefore (rn_db s) b) \<Longrightarrow> row s i = Some r \<Longrightarrow> Final (r_Status r)"
proof -
  assume v: "rinv s" and i: "i \<in> set (ListFinishedJobsBefore (rn_db s) b)" and r: "row s i = Some r"
  from i obtain q where q: "(i, q) \<in> set (d_jobs (rn_db s))" "Final (r_Status q)"
    by (auto simp: ListFinishedJobsBefore_def)
  have "tget (d_jobs (rn_db s)) i = Some q"
    using v q(1) by (simp add: rinv_def db_ok_def tget_iff_mem)
  with r q show "Final (r_Status r)" by (simp add: row_def GetJob_def)
qed

lemma good_foldl: "(\<And>s x. good s (f s x)) \<Longrightarrow> good s (foldl f s xs)"
proof (induction xs arbitrary: s)
  case (Cons x xs)
  then show ?case using good_trans [of s "f s x"] by simp
qed simp

lemma good_Prune: "good s (snd (Prune c now before s))"
proof -
  let ?rows = "ListJobsByStatus (rn_db s) Interrupted 10000"
  let ?t = "foldl (prune_cancel c now before) (asked s) ?rows"
  have "good s (prune_cancel c now before s x)" for s x
    by (cases x) (simp add: prune_cancel_def good_Cancel)
  then have "good (asked s) ?t" by (rule good_foldl)
  then have t: "good s ?t" using good_trans [OF good_asked] by blast
  have "good ?t (snd (prune_delete (ListFinishedJobsBefore (rn_db ?t) b) (asked ?t)))" for b
  proof (rule goodI)
    assume "rinv ?t"
    then have "good (asked ?t) (snd (prune_delete (ListFinishedJobsBefore (rn_db ?t) b) (asked ?t)))"
      using finished_rows by (intro good_prune_delete) auto
    then show "good ?t (snd (prune_delete (ListFinishedJobsBefore (rn_db ?t) b) (asked ?t)))"
      using good_trans [OF good_asked] by blast
  qed
  then have d: "good s (snd (prune_delete (ListFinishedJobsBefore (rn_db ?t) b) (asked ?t)))" for b
    using good_trans [OF t] by blast
  have "good s (asked ?t)" by (intro good_extend t)
  with d show ?thesis
    by (simp add: Prune_def Let_def case_prod_beta split: option.split)
qed

definition idle :: "runner \<Rightarrow> bool" where
  "idle s = (rn_running s = [])"

lemma idle_save_event: "idle s \<Longrightarrow> idle (event now i d (snd (save j s)))"
  by (simp add: idle_def)

lemma good_recover_rows:
  "rn_running s = [] \<Longrightarrow> (\<And>i r q. (i, r) \<in> set rows \<Longrightarrow> row s i = Some q \<Longrightarrow> \<not> Final (r_Status q)) \<Longrightarrow>
   good s (snd (recover_rows c now rows s)) \<and> rn_running (snd (recover_rows c now rows s)) = []"
proof (induction rows arbitrary: s)
  case (Cons p rows)
  obtain i r where p: "p = (i, r)" by (cases p)
  let ?j = "(jobFrom c p)\<lparr>j_Status := Interrupted, j_Question := None\<rparr>"
  have sv: "good s (snd (save ?j s))"
    using Cons.prems p by (intro good_save) auto
  obtain e t where st: "save ?j s = (e, t)" by (cases "save ?j s")
  have t: "good s t" "rn_running t = []" using sv st Cons.prems(1) save_frame(1) [of ?j s] by simp_all
  show ?case
  proof (cases e)
    case (Some x)
    with t st p show ?thesis by (simp add: Let_def)
  next
    case None
    let ?u = "event now i (ev_reason Interrupted ''the node stopped while the job ran'') t"
    have u: "good s ?u" using t by (intro good_extend)
    have "row t k = (if k = i then map_option (apply_update (update_of ?j)) (row s k) else row s k)" for k
      using row_save [of ?j s k] st None p by simp
    then have "\<not> Final (r_Status q)" if "(k, r') \<in> set rows" "row t k = Some q" for k r' q
      using Cons.prems(2) [of k r' q] that by (auto split: if_splits)
    then have IH: "good ?u (snd (recover_rows c now rows ?u)) \<and> rn_running (snd (recover_rows c now rows ?u)) = []"
      using t by (intro Cons.IH) auto
    then have "good s (snd (recover_rows c now rows ?u))" using good_trans [OF u] by blast
    with IH None st p show ?thesis by (simp add: Let_def)
  qed
qed simp

lemma good_recover_loop:
  "rn_running s = [] \<Longrightarrow> (\<And>st. st \<in> set sts \<Longrightarrow> \<not> Final st) \<Longrightarrow>
   good s (snd (recover_loop c now sts s)) \<and> rn_running (snd (recover_loop c now sts s)) = []"
proof (induction sts arbitrary: s)
  case (Cons st sts)
  let ?rows = "ListJobsByStatus (rn_db s) st 100000"
  obtain e t where rt: "recover_rows c now ?rows (asked s) = (e, t)" by fastforce
  have rr: "good (asked s) t \<and> rn_running t = []" if "rinv s"
    using good_recover_rows [of "asked s" ?rows c now] listed_rows [OF that, of _ _ st 100000] Cons.prems rt
    by fastforce
  have run: "rn_running t = []"
  proof -
    have "rn_running (snd (recover_rows c now rows u)) = []" if "rn_running u = []" for rows u
      using that
    proof (induction rows arbitrary: u)
      case (Cons p rows)
      let ?j = "(jobFrom c p)\<lparr>j_Status := Interrupted, j_Question := None\<rparr>"
      obtain e v where s: "save ?j u = (e, v)" by fastforce
      then have "rn_running v = []" using save_frame(1) [of ?j u] Cons.prems by simp
      with s Cons.IH show ?case by (cases e) (simp_all add: Let_def)
    qed simp
    from this [of "asked s" ?rows] show ?thesis using Cons.prems(1) rt by simp
  qed
  have t: "good s t" using rr good_trans [OF good_asked] by (blast intro: goodI)
  have IH: "good t (snd (recover_loop c now sts t)) \<and> rn_running (snd (recover_loop c now sts t)) = []"
    using Cons.prems(2) run by (intro Cons.IH) auto
  then have "good s (snd (recover_loop c now sts t))" using good_trans [OF t] by blast
  with IH t run rt Cons.prems(1) show ?case by (cases e) simp_all
qed simp

lemma good_Recover: "rn_running s = [] \<Longrightarrow> good s (snd (Recover c now s))"
  unfolding Recover_def by (rule conjunct1 [OF good_recover_loop]) auto

lemma good_stop: "good s (stop_running s)"
proof (rule goodI)
  assume v: "rinv s"
  let ?R = "map (\<lambda>(i, ex). (i, shutdown_cause ex)) (rn_running s)"
  have "ex_ok s i (shutdown_cause ex) = ex_ok s i ex" for i ex
    by (simp add: ex_ok_def shutdown_cause_def)
  then have "good s (s\<lparr>rn_running := ?R\<rparr>)"
    using v running_ex_ok [OF v]
    by (intro good_running) (auto simp: tget_map_value table_ok_map_value rinv_def running_ok_def)
  moreover have "good (s\<lparr>rn_running := ?R\<rparr>) (stop_running s)"
    by (rule good_cong) (simp_all add: stop_running_def)
  ultimately show "good s (stop_running s)" using good_trans by blast
qed

lemma good_Get: "good s (snd (Get c i s))"
  by (auto simp: Get_def split: option.split)

lemma good_wait_leave [simp]: "good s (wait_leave i ch s)"
  by (rule good_cong) (simp_all add: wait_leave_def Let_def)

lemma good_wait_register: "good s (snd (wait_register i s))"
  by (rule good_cong) (simp_all add: wait_register_def)

lemma good_wait_check: "good s (snd (wait_check c i ch s))"
proof -
  obtain r t where g: "Get c i s = (r, t)" by fastforce
  then have t: "good s t" using good_Get [of s c i] by simp
  have "good t (t\<lparr>rn_blocked := b\<rparr>)" for b by (rule good_cong) simp_all
  then have "good s (t\<lparr>rn_blocked := b\<rparr>)" for b using good_trans [OF t] by blast
  moreover have "good s (wait_leave i ch t)" using t by (rule good_trans) simp
  ultimately show ?thesis by (simp add: wait_check_def g split: sum.split)
qed

lemma good_wait_wake: "good s (snd (wait_wake c i ch s))"
proof -
  obtain r t where g: "Get c i s = (r, t)" by fastforce
  then have "good s t" using good_Get [of s c i] by simp
  then have "good s (wait_leave i ch t)" by (rule good_trans) simp
  then show ?thesis by (simp add: wait_wake_def g)
qed

lemma good_set_job:
  assumes "tget (rn_running s) (j_ID j) = Some ex0" "in_progress (j_Status j)"
    "j_Status j = Waiting \<Longrightarrow> j_Question j \<noteq> None"
  shows "good s (set_job ex j s)"
proof (rule goodI)
  assume v: "rinv s"
  have "ex_ok s (j_ID j) (ex\<lparr>ex_job := j\<rparr>)"
    using running_ex_ok [OF v assms(1)] assms by (simp add: ex_ok_def)
  then show "good s (set_job ex j s)" unfolding set_job_def by (intro good_put)
qed

text \<open>A report of a running job: the job in memory changes and is saved.\<close>

lemma good_report:
  assumes ex0: "tget (rn_running s) (j_ID j) = Some ex0" and "in_progress (j_Status j)"
    "j_Status j = Waiting \<Longrightarrow> j_Question j \<noteq> None"
  shows "good s (snd (save j (set_job ex j s)))"
proof (rule goodI)
  assume v: "rinv s"
  have r: "row (set_job ex j s) k = row s k" for k by (simp add: set_job_def row_def)
  have "\<not> Final (r_Status r)" if "row s (j_ID j) = Some r" for r
    using running_ex_ok [OF v ex0] that by (auto simp: ex_ok_def in_progress_def)
  then have "good (set_job ex j s) (snd (save j (set_job ex j s)))"
    using assms by (intro good_save) (auto simp: r)
  then show "good s (snd (save j (set_job ex j s)))"
    using good_trans [OF good_set_job [OF assms]] by blast
qed

lemma running_job:
  "rinv s \<Longrightarrow> tget (rn_running s) i = Some ex \<Longrightarrow>
   tget (rn_running s) (j_ID (ex_job ex)) = Some ex \<and> in_progress (j_Status (ex_job ex)) \<and>
   (j_Status (ex_job ex) = Waiting \<longrightarrow> j_Question (ex_job ex) \<noteq> None)"
  using running_ex_ok [of s i ex] by (auto simp: ex_ok_def)

lemma good_run_Save: "tget (rn_running s) i = Some ex \<Longrightarrow> good s (snd (run_Save ex raw s))"
  by (rule goodI, frule (1) running_job)
    (auto simp: run_Save_def Let_def intro!: good_report split: sum.split)

lemma good_run_Step: "tget (rn_running s) i = Some ex \<Longrightarrow> good s (run_Step now ex nm p s)"
  by (rule goodI, frule (1) running_job)
    (auto simp: run_Step_def Let_def intro!: good_extend(1) good_report)

lemma good_run_Progress: "tget (rn_running s) i = Some ex \<Longrightarrow> good s (run_Progress now ex p s)"
  by (rule goodI, frule (1) running_job)
    (auto simp: run_Progress_def Let_def intro!: good_extend(3) good_report good_set_job)

lemma good_ask_begin: "tget (rn_running s) i = Some ex \<Longrightarrow> good s (ask_begin now qid ex q tmo s)"
  by (rule goodI, frule (1) running_job)
    (auto simp: ask_begin_def Let_def in_progress_def intro!: good_extend(1,2) good_report)

lemma good_ask_return: "tget (rn_running s) i = Some ex \<Longrightarrow> good s (snd (ask_return now expired ex q s))"
  by (rule goodI, frule (1) running_job)
    (auto simp: ask_return_def ask_end_def Let_def in_progress_def intro!: good_extend(1) good_report
      split: option.split)

section \<open>The machine\<close>

text \<open>The node ends, in order or not, and starts again over the same database; the statements of the new process
  fail as \<open>faults\<close> says. Identifiers are ULIDs: one that was used is not drawn again.\<close>

definition restart_node :: "bool list \<Rightarrow> runner \<Rightarrow> runner" where
  "restart_node faults s = (New (rn_db s) faults)\<lparr>rn_issued := rn_issued s\<rparr>"

lemma good_restart: "good s (restart_node faults s)"
  by (auto simp: good_def restart_node_def rinv_def New_def history_ok_def history_def row_def running_ok_def kept_def)

inductive runner_step :: "config \<Rightarrow> runner \<Rightarrow> runner \<Rightarrow> bool" for c :: config where
  submit: "newid \<notin> set (rn_issued s) \<Longrightarrow> runner_step c s (snd (Submit c now newid sp s))"
| dispatch: "runner_step c s (dispatch c m now s)"
| finish: "runner_step c s (execute_end c now i res e s)"
| get: "runner_step c s (snd (Get c i s))"
| list: "runner_step c s (snd (List_jobs c st typ cur size_n s))"
| events: "runner_step c s (snd (Events i after size_n s))"
| cancel: "runner_step c s (snd (Cancel c now i s))"
| resume: "runner_step c s (snd (Resume c now i s))"
| answer: "runner_step c s (snd (Answer i a s))"
| prune: "runner_step c s (snd (Prune c now before s))"
| recover: "rn_running s = [] \<Longrightarrow> rn_waiters s = [] \<Longrightarrow> runner_step c s (snd (Recover c now s))"
| stop: "runner_step c s (stop_running s)"
| restart: "runner_step c s (restart_node faults s)"
| wait: "runner_step c s (snd (wait_register i s))"
| check: "ch \<in> set (waiting_on s i) \<Longrightarrow> runner_step c s (snd (wait_check c i ch s))"
| woken: "runner_step c s (snd (wait_wake c i ch s))"
| give_up: "runner_step c s (wait_leave i ch s)"
| save: "tget (rn_running s) i = Some ex \<Longrightarrow> runner_step c s (snd (run_Save ex raw s))"
| step: "tget (rn_running s) i = Some ex \<Longrightarrow> runner_step c s (run_Step now ex nm p s)"
| progress: "tget (rn_running s) i = Some ex \<Longrightarrow> runner_step c s (run_Progress now ex p s)"
| log: "tget (rn_running s) i = Some ex \<Longrightarrow> runner_step c s (run_Logf now ex m s)"
| ask: "tget (rn_running s) i = Some ex \<Longrightarrow> runner_step c s (ask_begin now qid ex q tmo s)"
| asked: "tget (rn_running s) i = Some ex \<Longrightarrow> runner_step c s (snd (ask_return now expired ex q s))"

lemma good_step: "runner_step c s t \<Longrightarrow> good s t"
proof (induction rule: runner_step.induct)
  case (submit newid)
  then show ?case by (rule good_Submit)
next
  case list
  show ?case by (simp add: List_jobs_def Let_def)
next
  case events
  show ?case by (simp add: Events_def)
next
  case recover
  then show ?case by (simp add: good_Recover)
next
  case restart
  show ?case by (rule good_restart)
next
  case log
  show ?case by (simp add: run_Logf_def)
qed (auto intro: good_dispatch good_execute_end good_Get good_Cancel good_Resume good_Answer good_Prune
  good_stop good_wait_register good_wait_check good_wait_wake good_run_Save good_run_Step
  good_run_Progress good_ask_begin good_ask_return)

definition start_db :: "job_db \<Rightarrow> bool" where
  "start_db d = (db_ok d \<and> (\<forall>i. sorted_wrt (<) (map e_Seq (filter (\<lambda>e. e_JobID e = i) (d_events d)))) \<and>
     (\<forall>e\<in>set (d_events d). GetJob d (e_JobID e) \<noteq> None))"

lemma rinv_New: "start_db d \<Longrightarrow> rinv (New d faults)"
proof -
  assume d: "start_db d"
  have "map e_Seq (filter (\<lambda>e. e_JobID e = i) (d_events d)) \<noteq> [] \<Longrightarrow> GetJob d i \<noteq> None" for i
    using d by (auto simp: start_db_def filter_empty_conv)
  with d show ?thesis
    by (auto simp: rinv_def New_def history_ok_def history_def row_def running_ok_def start_db_def
        GetJob_def tget_Some_key)
qed

text \<open>The empty database; the machine of one configuration starts from it.\<close>

definition empty_db :: job_db where
  "empty_db = \<lparr>d_jobs = [], d_events = []\<rparr>"

lemma start_empty: "start_db empty_db"
  by (simp add: start_db_def empty_db_def db_ok_def one_open_per_key_def)

interpretation jr: monotone_machine "New empty_db faults" "runner_step c" rinv kept for faults c
proof
  show "rinv (New empty_db faults)" by (rule rinv_New [OF start_empty])
  show "rinv s \<Longrightarrow> runner_step c s t \<Longrightarrow> rinv t" for s t using good_step [of c s t] by (simp add: good_def)
  show "rinv s \<Longrightarrow> runner_step c s t \<Longrightarrow> kept s t" for s t using good_step [of c s t] by (simp add: good_def)
  show "kept s t \<Longrightarrow> kept t u \<Longrightarrow> kept s u" for s t u by (rule kept_trans)
qed simp

section \<open>Properties\<close>

text \<open>C17. In every state the runner reaches from an empty database, whatever statements fail, in
  whatever order its operations run and however often the node restarts: no two open jobs share a key, the history of each job is
  numbered in strictly increasing order, and every running job is the row of the same identifier
  and that row is running or waiting.\<close>

theorem runner_invariant:
  assumes "reach (runner_step c) (New empty_db faults) s"
  shows "one_open_per_key (rn_db s) \<and> (\<forall>i. sorted_wrt (<) (history s i)) \<and>
    (\<forall>i ex. tget (rn_running s) i = Some ex \<longrightarrow>
       j_ID (ex_job ex) = i \<and> (\<exists>r. GetJob (rn_db s) i = Some r \<and> in_progress (r_Status r)))"
proof -
  have v: "rinv s" using jr.inv_reachable [OF assms] .
  then have "db_ok (rn_db s)" "history_ok s" by (simp_all add: rinv_def)
  with running_ex_ok [OF v] show ?thesis
    by (auto simp: db_ok_def history_ok_def ex_ok_def row_def)
qed

definition encode_spec :: spec where
  "encode_spec = \<lparr>sp_Type = ''encode'', sp_Title = [], sp_Params = None, sp_Key = ''k'', sp_CreatedBy = []\<rparr>"

definition sample_config :: config where
  "sample_config = \<lparr>c_kinds = [(''encode'', True)], c_valid = (\<lambda>_. True)\<rparr>"

definition submitted :: runner where
  "submitted = snd (Submit sample_config 0 ''J1'' encode_spec (New empty_db []))"

lemma submitted_reach: "reach (runner_step sample_config) (New empty_db []) submitted"
  unfolding submitted_def
  by (rule reach_step [OF reach_refl], rule runner_step.submit) (simp add: New_def empty_db_def tkeys_def)

theorem runner_invariant_witness: "one_open_per_key (rn_db submitted)"
  using runner_invariant [OF submitted_reach] by simp

text \<open>A job that is over never changes again: once its row is completed, failed or canceled,
  every later state has the same row or has deleted it.\<close>

theorem finished_jobs_kept:
  assumes "reach (runner_step c) (New empty_db faults) s" "reach (runner_step c) s t"
    and "GetJob (rn_db s) i = Some r" "Final (r_Status r)"
  shows "GetJob (rn_db t) i = Some r \<or> GetJob (rn_db t) i = None"
  using jr.ord_reach [OF assms(2) jr.inv_reachable [OF assms(1)]] assms(3,4)
  unfolding kept_def row_def by metis

definition canceled :: runner where
  "canceled = snd (Cancel sample_config 0 ''J1'' submitted)"

lemma canceled_row: "\<exists>r. GetJob (rn_db canceled) ''J1'' = Some r \<and> Final (r_Status r)"
proof -
  have "map_option (\<lambda>r. Final (r_Status r)) (GetJob (rn_db canceled) ''J1'') = Some True" by code_simp
  then show ?thesis by auto
qed

theorem finished_jobs_kept_witness:
  "GetJob (rn_db (snd (Resume sample_config 0 ''J1'' canceled))) ''J1'' = GetJob (rn_db canceled) ''J1'' \<or>
   GetJob (rn_db (snd (Resume sample_config 0 ''J1'' canceled))) ''J1'' = None"
proof -
  have "reach (runner_step sample_config) (New empty_db []) canceled"
    unfolding canceled_def by (rule reach_step [OF submitted_reach], rule runner_step.cancel)
  moreover have "reach (runner_step sample_config) canceled (snd (Resume sample_config 0 ''J1'' canceled))"
    by (rule reach_step [OF reach_refl], rule runner_step.resume)
  ultimately show ?thesis using finished_jobs_kept canceled_row by metis
qed

section \<open>Filling the free slots\<close>

lemma key_free_self:
  assumes v: "rinv s" and r: "row s i = Some r" "open_status (r_Status r)"
  shows "key_free (rn_db s) i (r_DedupeKey r)"
proof -
  have t: "table_ok (d_jobs (rn_db s))" and o: "one_open_per_key (rn_db s)"
    using v by (auto simp: rinv_def db_ok_def)
  have "\<not> holds_key (r_DedupeKey r) q" if q: "tget (d_jobs (rn_db s)) k = Some q" "k \<noteq> i" for k q
    using o r q unfolding one_open_per_key_def holds_key_def row_def GetJob_def by metis
  then show ?thesis by (simp add: key_free_get [OF t])
qed

lemma save_open_ok:
  assumes "rinv s" "row s (j_ID j) = Some r" "open_status (r_Status r)" "rn_faults s = []"
  shows "fst (save j s) = None"
  using key_free_self [OF assms(1-3)] assms(2,4)
  by (auto simp: save_def fault_def UpdateJob_def row_def GetJob_def split: option.split)

lemma faults_frame:
  "rn_faults s = [] \<Longrightarrow> rn_faults (asked s) = []" "rn_faults s = [] \<Longrightarrow> rn_faults (snd (save j s)) = []"
  "rn_faults s = [] \<Longrightarrow> rn_faults (event now i d s) = []"
  by (simp_all add: asked_def save_def fault_def publish_def event_def insert_event_def Let_def split: option.split)

lemma filter_tput_new:
  "k \<notin> set (tkeys t) \<Longrightarrow> filter P (tput k v t) = filter P t @ (if P (k, v) then [(k, v)] else [])"
  by (induction k v t rule: tput.induct) (auto simp: tkeys_def)

lemma dispatch_row_starts:
  assumes v: "rinv s" and r: "row s i = Some r" "r_Status r = Queued" and f: "rn_faults s = []"
    and k: "Known c (r_Type r)"
  shows "busy_count (dispatch_row c now s (i, r)) = busy_count s + 1 \<and>
    rn_faults (dispatch_row c now s (i, r)) = [] \<and>
    set (tkeys (rn_running (dispatch_row c now s (i, r)))) = insert i (set (tkeys (rn_running s)))"
proof -
  let ?j = "mark_running now (jobFrom c (i, r))"
  have o: "open_status (r_Status r)" using r by (simp add: open_status_def)
  obtain t where st: "save ?j s = (None, t)"
    using save_open_ok [OF v, of ?j r] r(1) o f by (cases "save ?j s") auto
  have t: "rn_running t = rn_running s" "rn_faults t = []"
    using save_frame(1) [of ?j s] faults_frame(2) [OF f, of ?j] st by simp_all
  have "tget (rn_running s) i = None" using not_running_row [OF v r(1)] r(2) by (simp add: in_progress_def)
  then have "i \<notin> set (tkeys (rn_running s))" by (simp add: tget_None_iff)
  with st t k faults_frame(3) [OF t(2)] show ?thesis
    by (simp add: dispatch_row_def Let_def busy_count_def filter_tput_new)
qed

lemma dispatch_rows_start:
  "rinv s \<Longrightarrow> rn_faults s = [] \<Longrightarrow> distinct (map fst rows) \<Longrightarrow>
   (\<And>i r. (i, r) \<in> set rows \<Longrightarrow> row s i = Some r \<and> r_Status r = Queued \<and> Known c (r_Type r)) \<Longrightarrow>
   busy_count (foldl (dispatch_row c now) s rows) = busy_count s + length rows \<and>
   set (tkeys (rn_running (foldl (dispatch_row c now) s rows))) = set (map fst rows) \<union> set (tkeys (rn_running s))"
proof (induction rows arbitrary: s)
  case (Cons p rows)
  obtain i r where p: "p = (i, r)" by (cases p)
  let ?t = "dispatch_row c now s p"
  have r: "row s i = Some r" "r_Status r = Queued" "Known c (r_Type r)" using Cons.prems(4) p by auto
  have 1: "busy_count ?t = busy_count s + 1 \<and> rn_faults ?t = [] \<and>
      set (tkeys (rn_running ?t)) = insert i (set (tkeys (rn_running s)))"
    using dispatch_row_starts [OF Cons.prems(1) r(1,2) Cons.prems(2) r(3)] p by simp
  have v: "rinv ?t" using good_dispatch_row [OF r(1,2)] Cons.prems(1) p by (simp add: good_def)
  have "busy_count (foldl (dispatch_row c now) ?t rows) = busy_count ?t + length rows \<and>
    set (tkeys (rn_running (foldl (dispatch_row c now) ?t rows))) = set (map fst rows) \<union> set (tkeys (rn_running ?t))"
  proof (rule Cons.IH)
    show "rinv ?t" "rn_faults ?t = []" "distinct (map fst rows)" using v 1 Cons.prems(3) by auto
    fix k q assume k: "(k, q) \<in> set rows"
    then have "k \<noteq> i" using Cons.prems(3) p by force
    then show "row ?t k = Some q \<and> r_Status q = Queued \<and> Known c (r_Type q)"
      using Cons.prems(4) [of k q] k p by simp
  qed
  with 1 p show ?case by auto
qed simp

lemma length_listed: "length (ListJobsByStatus d st n) = min n (length (filter (\<lambda>(i, r). r_Status r = st) (d_jobs d)))"
  by (simp add: ListJobsByStatus_def by_id_def)

text \<open>When no statement fails and every queued type is registered, a dispatch fills the free
  slots: the number of jobs that run and do not wait for an answer becomes the number that ran
  plus the queued ones, up to the limit, and never goes past the limit; the oldest queued jobs are the ones started.\<close>

theorem dispatch_fills_slots:
  assumes "rinv s" "rn_faults s = []" "\<not> rn_stopping s"
    and "\<And>i r. row s i = Some r \<Longrightarrow> r_Status r = Queued \<Longrightarrow> Known c (r_Type r)"
  shows "int (busy_count (dispatch c m now s)) =
      max (int (busy_count s)) (min m (int (busy_count s) + int (CountQueuedJobs (rn_db s)))) \<and>
    set (tkeys (rn_running (dispatch c m now s))) =
      set (map fst (ListJobsByStatus (rn_db s) Queued (nat (m - int (busy_count s))))) \<union> set (tkeys (rn_running s))"
proof (cases "m - int (busy_count s) \<le> 0")
  case True
  then have "ListJobsByStatus (rn_db s) Queued (nat (m - int (busy_count s))) = []"
    by (simp add: ListJobsByStatus_def)
  with True assms(3) show ?thesis by (simp add: dispatch_def)
next
  case False
  let ?rows = "ListJobsByStatus (rn_db s) Queued (nat (m - int (busy_count s)))"
  have d: "dispatch c m now s = foldl (dispatch_row c now) (asked s) ?rows"
    using False assms(2,3) by (simp add: dispatch_def fault_def)
  have "rinv (asked s)" using assms(1) good_asked [of s] by (simp add: good_def)
  then have "busy_count (foldl (dispatch_row c now) (asked s) ?rows) = busy_count (asked s) + length ?rows \<and>
      set (tkeys (rn_running (foldl (dispatch_row c now) (asked s) ?rows))) =
        set (map fst ?rows) \<union> set (tkeys (rn_running (asked s)))"
    using listed_rows [OF assms(1)] listed_distinct [OF assms(1)] assms(2) assms(4)
    by (intro dispatch_rows_start) (simp_all add: faults_frame(1), blast)
  moreover have "busy_count (asked s) = busy_count s" by (simp add: busy_count_def)
  ultimately show ?thesis unfolding d length_listed CountQueuedJobs_def
    using False by (auto simp: min_def max_def)
qed

theorem dispatch_fills_slots_witness:
  "int (busy_count (dispatch sample_config 2 5 submitted)) =
      max (int (busy_count submitted)) (min 2 (int (busy_count submitted) + int (CountQueuedJobs (rn_db submitted))))"
proof -
  have v: "rinv submitted" using jr.inv_reachable [OF submitted_reach] .
  have f: "rn_faults submitted = [] \<and> \<not> rn_stopping submitted" by code_simp
  have "map (\<lambda>(i, r). r_Type r) (d_jobs (rn_db submitted)) = [''encode'']" by code_simp
  then have "Known sample_config (r_Type r)" if "row submitted i = Some r" for i r
    using that by (auto simp: row_def GetJob_def sample_config_def Known_def dest!: tget_Some_mem)
  then show ?thesis using dispatch_fills_slots [OF v, of sample_config 2 5] f by blast
qed

section \<open>Submit\<close>

lemma row_wake_publish_event: "row (wake (publish p (event now i d t))) k = row t k"
  by simp

lemma submit_new_result:
  assumes "submit_new now newid sp params s = (Inr (j, fresh), t)" "table_ok (d_jobs (rn_db s))"
  shows "fresh \<and> j_ID j = newid \<and> j_Status j = Queued \<and> CountQueuedJobs (rn_db s) < MaxQueued \<and>
    row s newid = None \<and> (\<exists>r. row t newid = Some r \<and> r_Status r = Queued \<and> r_DedupeKey r = NullString (sp_Key sp)) \<and>
    (\<forall>i. i \<noteq> newid \<longrightarrow> row t i = row s i)"
proof -
  let ?u = "(asked s)\<lparr>rn_issued := newid # rn_issued s\<rparr>"
  let ?ins = "InsertJob (rn_db s) newid (sp_Type sp) (sp_Title sp) params (NullString (sp_Key sp))
                    (sp_CreatedBy sp) (unix_milli now)"
  have a: "\<not> fault s" "\<not> MaxQueued \<le> CountQueuedJobs (rn_db s)" "\<not> fault ?u"
    using assms(1) by (auto simp: submit_new_def Let_def split: if_splits)
  then obtain d where d: "?ins = Some d"
    using assms(1) by (cases ?ins) (auto simp: submit_new_def Let_def)
  then have t: "j = new_job sp params now newid" "fresh"
    "t = wake (publish (PubJob j) (event now newid (ev_status Queued no_error) ((asked ?u)\<lparr>rn_db := d\<rparr>)))"
    using a assms(1) by (auto simp: submit_new_def Let_def)
  have "row t k = GetJob d k" for k unfolding t by (simp add: row_def [of "_\<lparr>rn_db := _\<rparr>"])
  moreover have "row s newid = None" using d by (auto simp: InsertJob_def row_def GetJob_def split: if_splits)
  ultimately show ?thesis using a d t by (auto simp: InsertJob_def row_def GetJob_def new_job_def split: if_splits)
qed

text \<open>C19. A submission that succeeds either joins the one open job of its key - then every other row stays,
  and so does that of the job, but one that was interrupted is queued again, without its error, and the
  rest of its row as the job says - or, when its key has no open job, adds exactly one queued row
  under the new identifier, and the queue was below its bound.\<close>

theorem Submit_joins_or_queues:
  assumes "rinv s" "Submit c now newid sp s = (Inr (j, fresh), t)"
  shows "if fresh
    then j_ID j = newid \<and> j_Status j = Queued \<and> CountQueuedJobs (rn_db s) < MaxQueued \<and> row s newid = None \<and>
      (\<exists>r. row t newid = Some r \<and> r_Status r = Queued \<and> r_DedupeKey r = NullString (sp_Key sp)) \<and>
      (\<forall>i. i \<noteq> newid \<longrightarrow> row t i = row s i) \<and>
      (\<forall>i r. row s i = Some r \<longrightarrow> \<not> holds_key (NullString (sp_Key sp)) r)
    else \<exists>r. row s (j_ID j) = Some r \<and> holds_key (NullString (sp_Key sp)) r \<and>
      (if r_Status r = Interrupted
       then j = (jobFrom c (j_ID j, r))\<lparr>j_Status := Queued, j_Error := no_error\<rparr> \<and>
         (\<exists>r'. row t (j_ID j) = Some r' \<and> r' = apply_update (update_of j) r \<and> r_Status r' = Queued \<and> r_Error r' = no_error \<and>
            r_Type r' = r_Type r \<and> r_DedupeKey r' = r_DedupeKey r)
       else j = jobFrom c (j_ID j, r) \<and> row t (j_ID j) = Some r) \<and>
      (\<forall>i. i \<noteq> j_ID j \<longrightarrow> row t i = row s i)"
proof -
  have tb: "table_ok (d_jobs (rn_db s))" using assms(1) by (simp add: rinv_def db_ok_def)
  obtain params where p: "(case sp_Params sp of None \<Rightarrow> Inr ''{}'' | Some r \<Rightarrow> r) = Inr params"
    and k: "Known c (sp_Type sp)"
    using assms(2) by (auto simp: Submit_def split: if_splits sum.splits)
  show ?thesis
  proof (cases "sp_Key sp = []")
    case True
    then have "submit_new now newid sp params s = (Inr (j, fresh), t)"
      using assms(2) k p by (simp add: Submit_def)
    from submit_new_result [OF this tb] True show ?thesis
      by (auto simp: NullString_def holds_key_def)
  next
    case key: False
    then have f: "\<not> fault s" using assms(2) k p by (auto simp: Submit_def split: if_splits)
    show ?thesis
    proof (cases "GetOpenJobByKey (rn_db s) (NullString (sp_Key sp))")
      case None
      then have "submit_new now newid sp params (asked s) = (Inr (j, fresh), t)"
        using assms(2) k p key f by (simp add: Submit_def)
      from submit_new_result [OF this] tb
      have new: "fresh \<and> j_ID j = newid \<and> j_Status j = Queued \<and> CountQueuedJobs (rn_db s) < MaxQueued \<and>
        row s newid = None \<and> (\<exists>r. row t newid = Some r \<and> r_Status r = Queued \<and> r_DedupeKey r = NullString (sp_Key sp)) \<and>
        (\<forall>i. i \<noteq> newid \<longrightarrow> row t i = row s i)" by simp
      have "\<not> holds_key (NullString (sp_Key sp)) r" if "row s i = Some r" for i r
        using None that by (auto simp: GetOpenJobByKey_def find_None_iff row_def GetJob_def dest: tget_Some_mem)
      with new show ?thesis by simp
    next
      case (Some q)
      obtain i r where q: "q = (i, r)" by (cases q)
      have r: "row s i = Some r" "holds_key (NullString (sp_Key sp)) r"
        using GetOpenJobByKey_Some [OF tb] Some q by (auto simp: row_def)
      show ?thesis
      proof (cases "r_Status r = Interrupted")
        case False
        then have j: "j = jobFrom c (i, r) \<and> \<not> fresh \<and> t = asked s"
          using assms(2) k p key f Some q by (auto simp: Submit_def Let_def)
        then have "j_ID j = i" by simp
        with j r False show ?thesis by (intro if_not_P [THEN iffD2]) auto
      next
        case True
        let ?j = "(jobFrom c (i, r))\<lparr>j_Status := Queued, j_Error := no_error\<rparr>"
        obtain e u where st: "save ?j (asked s) = (e, u)" by fastforce
        have j: "j = ?j \<and> \<not> fresh \<and> t = wake (event now i (ev_reason Queued ''resumed'') u) \<and> e = None"
          using assms(2) k p key f Some q True st
          by (cases e) (auto simp: Submit_def Let_def requeueLocked_def)
        then have t: "row t n = (if n = i then map_option (apply_update (update_of j)) (row s n) else row s n)" for n
          using row_save [of ?j "asked s" n] st by simp
        have "j_ID j = i" "j = (jobFrom c (j_ID j, r))\<lparr>j_Status := Queued, j_Error := no_error\<rparr>" using j by simp_all
        moreover have "row t i = Some (apply_update (update_of j) r)" using t r by simp
        moreover have "r_Status (apply_update (update_of j) r) = Queued" "r_Error (apply_update (update_of j) r) = no_error"
          "r_Type (apply_update (update_of j) r) = r_Type r" "r_DedupeKey (apply_update (update_of j) r) = r_DedupeKey r"
          using j by (simp_all add: apply_update_def update_of_def)
        ultimately show ?thesis using j r True t by auto
      qed
    qed
  qed
qed

theorem Submit_joins_or_queues_witness:
  "\<exists>r. row submitted ''J1'' = Some r \<and> holds_key (NullString ''k'') r"
proof -
  have v: "rinv submitted" using jr.inv_reachable [OF submitted_reach] .
  have "map_option (\<lambda>(j, fresh). (j_ID j, fresh))
      (case fst (Submit sample_config 7 ''J2'' encode_spec submitted) of Inl e \<Rightarrow> None | Inr x \<Rightarrow> Some x)
      = Some (''J1'', False)" by code_simp
  then obtain j where "fst (Submit sample_config 7 ''J2'' encode_spec submitted) = Inr (j, False)" "j_ID j = ''J1''"
    by (auto split: sum.splits)
  then show ?thesis
    using Submit_joins_or_queues [OF v, of sample_config 7 "''J2''" encode_spec j False]
    by (metis (no_types, lifting) encode_spec_def prod.collapse spec.select_convs(4))
qed

end
