(* ===== verification/Job_Wait.thy ===== *)
theory Job_Wait
  imports Job_Machine
begin

text \<open>
  No wakeup is lost: a call of \<^verbatim>\<open>Wait\<close> that blocks is either signalled or its job is
  still busy. The exception the code leaves is \<^verbatim>\<open>dispatch\<close> failing a queued job of a type
  that is not registered: it wakes nobody. Types are checked when a job is submitted, so this takes
  a job stored by a node with other types: where none is stored at the start, none ever is.
\<close>

declare Final.simps [simp del] Busy.simps [simp del]

definition busy_row :: "runner \<Rightarrow> string \<Rightarrow> bool" where
  "busy_row s i = (\<exists>r. row s i = Some r \<and> Busy (r_Status r))"

definition wok :: "runner \<Rightarrow> bool" where
  "wok s = (\<forall>ch\<in>set (rn_blocked s). ch \<in> set (rn_closed s) \<or> (\<exists>i. ch \<in> set (waiting_on s i) \<and> busy_row s i))"

text \<open>Steps that touch no waiter and end no job.\<close>

definition quiet :: "runner \<Rightarrow> runner \<Rightarrow> bool" where
  "quiet s t =
    (rn_waiters t = rn_waiters s \<and> rn_closed t = rn_closed s \<and> rn_blocked t = rn_blocked s \<and>
     (\<forall>i. busy_row s i \<longrightarrow> busy_row t i))"

lemma quiet_wok: "quiet s t \<Longrightarrow> wok s \<Longrightarrow> wok t"
  unfolding quiet_def wok_def waiting_on_def by metis

lemma quiet_trans: "quiet s t \<Longrightarrow> quiet t u \<Longrightarrow> quiet s u"
  by (simp add: quiet_def)

lemma quiet_refl [simp]: "quiet s s"
  by (simp add: quiet_def)

lemma busy_row_cong: "rn_db t = rn_db s \<Longrightarrow> busy_row t i = busy_row s i"
  by (simp add: busy_row_def row_def)

lemma quiet_primitives [simp]:
  "quiet s (asked s)" "quiet s (wake s)" "quiet s (publish p s)" "quiet s (event now i d s)"
  "quiet s (s\<lparr>rn_running := R\<rparr>)" "quiet s (s\<lparr>rn_cleaned := l\<rparr>)" "quiet s (s\<lparr>rn_issued := ids\<rparr>)"
  by (simp_all add: quiet_def busy_row_def row_def [of "_\<lparr>rn_running := _\<rparr>"] row_def [of "_\<lparr>rn_cleaned := _\<rparr>"]
      row_def [of "_\<lparr>rn_issued := _\<rparr>"] flip: row_def)

lemma quiet_extend:
  "quiet s t \<Longrightarrow> quiet s (event now i d t)" "quiet s t \<Longrightarrow> quiet s (wake t)"
  "quiet s t \<Longrightarrow> quiet s (publish p t)" "quiet s t \<Longrightarrow> quiet s (asked t)"
  "quiet s t \<Longrightarrow> quiet s (t\<lparr>rn_running := R\<rparr>)" "quiet s t \<Longrightarrow> quiet s (t\<lparr>rn_cleaned := l\<rparr>)"
  by (erule quiet_trans, simp)+

lemma quiet_save: "Busy (j_Status j) \<or> \<not> busy_row s (j_ID j) \<Longrightarrow> quiet s (snd (save j s))"
  by (auto simp: quiet_def busy_row_def row_save)

lemma quiet_save_pair: "save j s = (e, t) \<Longrightarrow> Busy (j_Status j) \<Longrightarrow> quiet s t"
  using quiet_save [of j s] by simp

lemma Busy_simps [simp]: "Busy Queued" "Busy Running" "Busy Waiting" "\<not> Busy Canceled" "\<not> Busy Interrupted"
  by (simp_all add: Busy.simps)

lemma wok_extend:
  "wok s \<Longrightarrow> wok (wake s)" "wok s \<Longrightarrow> wok (s\<lparr>rn_cleaned := l\<rparr>)" "wok s \<Longrightarrow> wok (asked s)"
  by (erule quiet_wok [rotated], simp)+

section \<open>Ending a job\<close>

lemma wok_finish:
  assumes w: "wok s" and n: "\<not> Busy (j_Status j)"
    and t: "rn_waiters t = rn_waiters s" "rn_closed t = rn_closed s" "rn_blocked t = rn_blocked s"
      "\<And>i. i \<noteq> j_ID j \<Longrightarrow> busy_row s i \<Longrightarrow> busy_row t i"
  shows "wok (finishLocked j t)"
proof -
  let ?u = "finishLocked j t"
  have u: "rn_blocked ?u = rn_blocked s" "set (rn_closed ?u) = set (rn_closed s) \<union> set (waiting_on s (j_ID j))"
    "\<And>i. i \<noteq> j_ID j \<Longrightarrow> waiting_on ?u i = waiting_on s i" "\<And>i. busy_row ?u i = busy_row t i"
    using n t by (simp_all add: finishLocked_def Let_def publish_def waiting_on_def busy_row_def row_def)
  show ?thesis unfolding wok_def
  proof
    fix ch assume "ch \<in> set (rn_blocked ?u)"
    then have "ch \<in> set (rn_closed s) \<or> (\<exists>i. ch \<in> set (waiting_on s i) \<and> busy_row s i)"
      using w u(1) by (simp add: wok_def)
    then show "ch \<in> set (rn_closed ?u) \<or> (\<exists>i. ch \<in> set (waiting_on ?u i) \<and> busy_row ?u i)"
    proof
      assume "\<exists>i. ch \<in> set (waiting_on s i) \<and> busy_row s i"
      then obtain i where i: "ch \<in> set (waiting_on s i)" "busy_row s i" by blast
      show ?thesis
      proof (cases "i = j_ID j")
        case True
        with i u(2) show ?thesis by simp
      next
        case False
        with i u(3,4) t(4) show ?thesis by metis
      qed
    qed (simp add: u(2))
  qed
qed

lemma busy_save_other: "i \<noteq> j_ID j \<Longrightarrow> busy_row (snd (save j s)) i = busy_row s i"
  by (simp add: busy_row_def)

lemma busy_event [simp]: "busy_row (event now i d s) k = busy_row s k"
  by (simp add: busy_row_def)

lemma outcome_not_busy: "\<not> Busy (fst (outcome k e))"
  by (auto simp: outcome_def Busy.simps split: option.splits)

lemma wok_execute_end: 
  assumes v: "rinv s" and w: "wok s"
  shows "wok (execute_end c now i res e s)"
proof (cases "tget (rn_running s) i")
  case None
  with w show ?thesis by (simp add: execute_end_def)
next
  case (Some ex)
  let ?j = "end_job now res e ex"
  let ?t = "(event now (j_ID ?j) (ev_status (j_Status ?j) (j_Error ?j)) (snd (save ?j s)))
      \<lparr>rn_running := tdel (j_ID ?j) (rn_running (event now (j_ID ?j) (ev_status (j_Status ?j) (j_Error ?j)) (snd (save ?j s))))\<rparr>"
  have "wok (finishLocked ?j ?t)"
  proof (rule wok_finish [OF w])
    fix k assume k: "k \<noteq> j_ID ?j" "busy_row s k"
    then have "busy_row (snd (save ?j s)) k" using busy_save_other [of k ?j s] by simp
    then show "busy_row ?t k" by (subst busy_row_cong [of ?t "event _ _ _ (snd (save ?j s))"]) simp_all
  qed (simp_all add: outcome_not_busy)
  then have "wok (wake (if Final (j_Status ?j) \<and> has_cleanup c (j_Type ?j)
      then (finishLocked ?j ?t)\<lparr>rn_cleaned := rn_cleaned (finishLocked ?j ?t) @ [?j]\<rparr> else finishLocked ?j ?t))"
    by (simp add: wok_extend)
  with Some show ?thesis by (simp only: execute_end_def option.case Let_def)
qed

lemma wok_Cancel: "rinv s \<Longrightarrow> wok s \<Longrightarrow> wok (snd (Cancel c now i s))"
proof -
  assume v: "rinv s" and w: "wok s"
  have wa: "wok (asked s)" using w quiet_primitives(1) quiet_wok by blast
  show ?thesis
  proof (cases "tget (rn_running s) i")
    case (Some ex)
    with w show ?thesis by (simp add: Cancel_def quiet_wok [OF quiet_primitives(5)])
  next
    case nr: None
    show ?thesis
    proof (cases "GetJob (rn_db s) i")
      case None
      with nr wa show ?thesis by (simp add: Cancel_def)
    next
      case (Some r)
      let ?j = "(jobFrom c (i, r))\<lparr>j_Status := Canceled, j_Error := canceled_text, j_FinishedAt := Some now, j_Question := None\<rparr>"
      obtain e t where st: "save ?j (asked s) = (e, t)" by fastforce
      have fr: "rn_waiters t = rn_waiters s" "rn_closed t = rn_closed s" "rn_blocked t = rn_blocked s"
        using save_frame(2-4) [of ?j "asked s"] st by simp_all
      have other: "busy_row t k" if "k \<noteq> i" "busy_row s k" for k
        using busy_save_other [of k ?j "asked s"] st that by (simp add: busy_row_def)
      have same: "quiet s t" if "e = Some x" for x
        using row_save [of ?j "asked s"] st that fr by (simp add: quiet_def busy_row_def)
      have "wok (finishLocked ?j (event now i (ev_status Canceled canceled_text) t))"
        by (rule wok_finish [OF w]) (use fr other in simp_all)
      then have fin: "wok (finishLocked ?j (event now i (ev_status Canceled canceled_text) t))"
        "wok ((finishLocked ?j (event now i (ev_status Canceled canceled_text) t))\<lparr>rn_cleaned := l\<rparr>)" for l
        by (auto intro: quiet_wok [rotated])
      show ?thesis using nr Some wa st fin quiet_wok [OF same w]
        by (cases e) (simp_all add: Cancel_def Let_def)
    qed
  qed
qed

section \<open>The other operations\<close>

lemma quiet_requeue: "quiet s (snd (requeueLocked now j s))"
proof -
  let ?j = "j\<lparr>j_Status := Queued, j_Error := no_error\<rparr>"
  obtain e t where st: "save ?j s = (e, t)" by fastforce
  then have "quiet s t" by (rule quiet_save_pair) simp
  then have "quiet s (wake (event now (j_ID j) d t))" "quiet s t" for d by (auto intro: quiet_extend)
  with st show ?thesis by (cases e) (simp_all add: requeueLocked_def Let_def)
qed

lemma quiet_insert:
  "InsertJob (rn_db s) newid ty ti p key b a = Some d \<Longrightarrow> quiet s (s\<lparr>rn_db := d\<rparr>)"
  by (auto simp: quiet_def busy_row_def row_def GetJob_def InsertJob_def split: if_splits)

lemma quiet_submit_new: "quiet s (snd (submit_new now newid sp params s))"
proof -
  let ?u = "(asked s)\<lparr>rn_issued := newid # rn_issued s\<rparr>"
  have u: "quiet s ?u" using quiet_trans [OF quiet_primitives(1) quiet_primitives(7)] by blast
  have "quiet s (wake (publish p (event now newid e ((asked ?u)\<lparr>rn_db := d\<rparr>))))"
    if "InsertJob (rn_db s) newid (sp_Type sp) (sp_Title sp) params (NullString (sp_Key sp))
          (sp_CreatedBy sp) (unix_milli now) = Some d" for d p e
  proof (intro quiet_extend)
    have "quiet (asked ?u) ((asked ?u)\<lparr>rn_db := d\<rparr>)" using that by (intro quiet_insert) simp
    moreover have "quiet s (asked ?u)" by (intro quiet_extend u)
    ultimately show "quiet s ((asked ?u)\<lparr>rn_db := d\<rparr>)" using quiet_trans by blast
  qed
  moreover have "quiet s (asked ?u)" by (intro quiet_extend u)
  ultimately show ?thesis by (auto simp: submit_new_def Let_def split: option.split)
qed

lemma quiet_Submit: "quiet s (snd (Submit c now newid sp s))"
proof -
  have a: "quiet s (snd (submit_new now newid sp params (asked s)))" for params
    using quiet_trans [OF quiet_primitives(1) quiet_submit_new] by blast
  have r: "quiet s (snd (requeueLocked now j (asked s)))" for j
    using quiet_trans [OF quiet_primitives(1) quiet_requeue] by blast
  show ?thesis using a r
    by (simp add: Submit_def Let_def case_prod_beta quiet_submit_new split: sum.split option.split prod.split)
qed

lemma quiet_Resume: "quiet s (snd (Resume c now i s))"
  using quiet_trans [OF quiet_primitives(1) quiet_requeue]
  by (simp add: Resume_def Let_def case_prod_beta split: option.split)

lemma quiet_dispatch_row: "Known c (r_Type r) \<Longrightarrow> quiet s (dispatch_row c now s (i, r))"
proof -
  assume k: "Known c (r_Type r)"
  let ?j = "mark_running now (jobFrom c (i, r))"
  obtain e t where st: "save ?j s = (e, t)" by fastforce
  then have "quiet s t" by (rule quiet_save_pair) simp
  then have "quiet s ((event now i d t)\<lparr>rn_running := R\<rparr>)" "quiet s t" for d R by (auto intro: quiet_extend)
  with k st show ?thesis by (cases e) (simp_all add: dispatch_row_def Let_def)
qed

text \<open>Every job stored has a registered type. No operation stores one of another type.\<close>

definition types_known :: "config \<Rightarrow> runner \<Rightarrow> bool" where
  "types_known c s = (\<forall>i r. row s i = Some r \<longrightarrow> Known c (r_Type r))"

lemma types_cong: "rn_db t = rn_db s \<Longrightarrow> types_known c t = types_known c s"
  by (simp add: types_known_def row_def)

lemma types_row: "(\<And>i. row t i = row s i) \<Longrightarrow> types_known c t = types_known c s"
  by (simp add: types_known_def)

lemma types_fields [simp]:
  "types_known c (asked s) = types_known c s" "types_known c (wake s) = types_known c s" "types_known c (publish p s) = types_known c s"
  "types_known c (event now i d s) = types_known c s" "types_known c (s\<lparr>rn_running := R\<rparr>) = types_known c s"
  "types_known c (s\<lparr>rn_cleaned := l\<rparr>) = types_known c s" "types_known c (s\<lparr>rn_issued := l2\<rparr>) = types_known c s"
  "types_known c (s\<lparr>rn_blocked := l3\<rparr>) = types_known c s" "types_known c (wait_leave i ch s) = types_known c s"
  "types_known c (set_job ex j s) = types_known c s" "types_known c (finishLocked j s) = types_known c s"
  by (rule types_cong, simp add: wait_leave_def set_job_def finishLocked_def Let_def | rule types_row, simp)+

lemma types_save [simp]: "types_known c (snd (save j s)) = types_known c s"
  by (auto simp: types_known_def row_save apply_update_def split: if_splits)

lemma types_saved: "save j s = (e, t) \<Longrightarrow> types_known c t = types_known c s"
  using types_save [of c j s] by simp

lemma types_dispatch_row [simp]: "types_known c (dispatch_row c' now s p) = types_known c s"
  by (auto simp: dispatch_row_def Let_def case_prod_beta dest!: types_saved split: option.split prod.splits)

lemma types_dispatch [simp]: "types_known c (dispatch c' m now s) = types_known c s"
proof -
  have "types_known c (foldl (dispatch_row c' now) t rows) = types_known c t" for t rows
    by (induction rows arbitrary: t) simp_all
  then show ?thesis by (simp add: dispatch_def Let_def)
qed

lemma types_execute_end [simp]: "types_known c (execute_end c' now i res e s) = types_known c s"
  by (simp add: execute_end_def Let_def split: option.split)

lemma types_requeue [simp]: "types_known c (snd (requeueLocked now j s)) = types_known c s"
  by (auto simp: requeueLocked_def Let_def dest!: types_saved split: option.split prod.splits)

lemma types_Get [simp]: "types_known c (snd (Get c' i s)) = types_known c s"
  by (simp add: Get_def split: option.split)

lemma types_Cancel [simp]: "types_known c (snd (Cancel c' now i s)) = types_known c s"
  by (auto simp: Cancel_def Let_def dest!: types_saved split: option.split prod.splits)

lemma types_Resume [simp]: "types_known c (snd (Resume c' now i s)) = types_known c s"
  using types_requeue [of c now _ "asked s"]
  by (simp add: Resume_def Let_def case_prod_beta split: option.split)

lemma types_Answer [simp]: "types_known c (snd (Answer i a s)) = types_known c s"
  by (simp add: Answer_def Let_def split: option.split)

lemma types_delete: "types_known c s \<Longrightarrow> types_known c (s\<lparr>rn_db := DeleteJob (rn_db s) i\<rparr>)"
  by (simp add: types_known_def row_def GetJob_def DeleteJob_def)

lemma types_prune_delete: "types_known c s \<Longrightarrow> types_known c (snd (prune_delete ids s))"
proof (induction ids arbitrary: s)
  case (Cons i ids)
  have "types_known c ((asked s)\<lparr>rn_db := DeleteJob (rn_db (asked s)) i\<rparr>)" by (rule types_delete) (simp add: Cons.prems)
  with Cons show ?case by simp
qed simp

lemma types_Prune: "types_known c s \<Longrightarrow> types_known c (snd (Prune c' now before s))"
proof -
  assume k: "types_known c s"
  have "types_known c (foldl (prune_cancel c' now before) t rows) = types_known c t" for t rows
  proof (induction rows arbitrary: t)
    case (Cons p rows)
    then show ?case by (cases p) (simp add: prune_cancel_def)
  qed simp
  with k types_prune_delete show ?thesis
    by (simp add: Prune_def Let_def case_prod_beta split: option.split)
qed

lemma types_Recover [simp]: "types_known c (snd (Recover c' now s)) = types_known c s"
proof -
  have rows: "types_known c (snd (recover_rows c' now rows t)) = types_known c t" for rows t
  proof (induction rows arbitrary: t)
    case (Cons p rows)
    then show ?case by (auto simp: Let_def dest!: types_saved split: option.split prod.splits)
  qed simp
  have "types_known c (snd (recover_loop c' now sts t)) = types_known c t" for sts t
  proof (induction sts arbitrary: t)
    case (Cons st sts)
    obtain e u where r: "recover_rows c' now (ListJobsByStatus (rn_db t) st 100000) (asked t) = (e, u)" by fastforce
    with rows [of "ListJobsByStatus (rn_db t) st 100000" "asked t"] have "types_known c u = types_known c t" by simp
    with r Cons.IH show ?case by (cases e) simp_all
  qed simp
  then show ?thesis unfolding Recover_def .
qed

lemma types_submit_new:
  assumes "types_known c s" "Known c (sp_Type sp)"
  shows "types_known c (snd (submit_new now newid sp params s))"
proof -
  have "types_known c (t\<lparr>rn_db := d\<rparr>)"
    if "InsertJob (rn_db s) newid (sp_Type sp) (sp_Title sp) params key who at0 = Some d" for t d key who at0
    using that assms by (auto simp: types_known_def row_def GetJob_def InsertJob_def split: if_splits)
  with assms show ?thesis by (auto simp: submit_new_def Let_def split: option.split)
qed

lemma types_Submit: "types_known c s \<Longrightarrow> types_known c (snd (Submit c now newid sp s))"
  using types_requeue [of c now _ "asked s"] types_submit_new [of c _ sp]
  by (simp add: Submit_def Let_def case_prod_beta split: sum.split option.split prod.split)

lemma types_step: "runner_step c s t \<Longrightarrow> types_known c s \<Longrightarrow> types_known c t"
proof (induction rule: runner_step.induct)
  case submit
  then show ?case by (simp add: types_Submit)
next
  case prune
  then show ?case by (simp add: types_Prune)
next
  case stop
  then show ?case by (simp add: stop_running_def types_known_def row_def)
next
  case restart
  then show ?case by (simp add: restart_node_def New_def types_known_def row_def)
next
  case wait
  then show ?case by (simp add: wait_register_def types_known_def row_def)
next
  case check
  then show ?case using types_Get [of c c] by (simp add: wait_check_def case_prod_beta split: sum.split)
next
  case woken
  then show ?case using types_Get [of c c] by (simp add: wait_wake_def case_prod_beta)
next
  case (asked s i ex now expired q)
  then show ?case by (auto simp: ask_return_def ask_end_def Let_def split: option.split)
qed (auto simp: List_jobs_def Events_def Let_def run_Save_def run_Step_def run_Progress_def run_Logf_def ask_begin_def
  split: sum.split)

lemma quiet_dispatch: "rinv s \<Longrightarrow> types_known c s \<Longrightarrow> quiet s (dispatch c m now s)"
proof -
  assume v: "rinv s" and k: "types_known c s"
  let ?rows = "ListJobsByStatus (rn_db s) Queued (nat (m - int (busy_count s)))"
  have "quiet u (foldl (dispatch_row c now) u rows)" if "\<forall>p\<in>set rows. Known c (r_Type (snd p))" for u rows
    using that
  proof (induction rows arbitrary: u)
    case (Cons p rows)
    then have "quiet u (dispatch_row c now u p)" by (cases p) (simp add: quiet_dispatch_row)
    with Cons show ?case using quiet_trans by fastforce
  qed simp
  moreover have "\<forall>p\<in>set ?rows. Known c (r_Type (snd p))"
    using listed_rows [OF v] k unfolding types_known_def by (metis prod.collapse)
  ultimately have "quiet s (foldl (dispatch_row c now) (asked s) ?rows)"
    using quiet_trans [OF quiet_primitives(1)] by blast
  then show ?thesis by (simp add: dispatch_def Let_def)
qed

lemma quiet_delete: "(\<And>r. row s i = Some r \<Longrightarrow> Final (r_Status r)) \<Longrightarrow> quiet s (s\<lparr>rn_db := DeleteJob (rn_db s) i\<rparr>)"
  by (auto simp: quiet_def busy_row_def row_def GetJob_def DeleteJob_def Busy.simps Final.simps)

lemma quiet_prune_delete:
  "(\<And>i r. i \<in> set ids \<Longrightarrow> row s i = Some r \<Longrightarrow> Final (r_Status r)) \<Longrightarrow> quiet s (snd (prune_delete ids s))"
proof (induction ids arbitrary: s)
  case (Cons i ids)
  let ?t = "(asked s)\<lparr>rn_db := DeleteJob (rn_db s) i\<rparr>"
  have row: "row ?t k = (if k = i then None else row s k)" for k
    by (simp add: row_def GetJob_def DeleteJob_def)
  have "quiet (asked s) ?t" using quiet_delete [of "asked s" i] Cons.prems [of i] by simp
  then have "quiet s ?t" using quiet_trans [OF quiet_primitives(1)] by blast
  moreover have "quiet ?t (snd (prune_delete ids ?t))"
    by (rule Cons.IH) (use Cons.prems in \<open>auto simp: row split: if_splits\<close>)
  ultimately have "quiet s (snd (prune_delete ids ?t))" using quiet_trans by blast
  then show ?case by simp
qed simp

lemma wok_prune_cancel:
  "rinv s \<and> wok s \<Longrightarrow> rinv (foldl (prune_cancel c now before) s rows) \<and> wok (foldl (prune_cancel c now before) s rows)"
proof (induction rows arbitrary: s)
  case (Cons p rows)
  have "rinv (prune_cancel c now before s p) \<and> wok (prune_cancel c now before s p)"
    using Cons.prems good_Cancel [of s c now "fst p"] wok_Cancel [of s c now "fst p"]
    by (cases p) (simp add: prune_cancel_def good_def)
  then show ?case using Cons.IH by simp
qed simp

lemma wok_Prune: "rinv s \<Longrightarrow> wok s \<Longrightarrow> wok (snd (Prune c now before s))"
proof -
  assume v: "rinv s" and w: "wok s"
  let ?t = "foldl (prune_cancel c now before) (asked s) (ListJobsByStatus (rn_db s) Interrupted 10000)"
  have a: "rinv (asked s) \<and> wok (asked s)"
    using v w good_asked [of s] quiet_wok [OF quiet_primitives(1)] by (simp add: good_def)
  then have t: "rinv ?t \<and> wok ?t" by (rule wok_prune_cancel)
  have ta: "wok (asked ?t)" using t quiet_wok [OF quiet_primitives(1)] by blast
  have "quiet (asked ?t) (snd (prune_delete (ListFinishedJobsBefore (rn_db ?t) b) (asked ?t)))" for b
    using finished_rows t by (intro quiet_prune_delete) auto
  then have "wok (snd (prune_delete (ListFinishedJobsBefore (rn_db ?t) b) (asked ?t)))" for b
    using ta quiet_wok by blast
  with a ta show ?thesis by (simp add: Prune_def Let_def case_prod_beta split: option.split)
qed

lemma quiet_report: "in_progress (j_Status j) \<Longrightarrow> quiet s (snd (save j (set_job ex j s)))"
proof -
  assume "in_progress (j_Status j)"
  then have "quiet (set_job ex j s) (snd (save j (set_job ex j s)))"
    by (intro quiet_save) (auto simp: in_progress_def Busy.simps)
  moreover have "quiet s (set_job ex j s)" by (simp add: set_job_def)
  ultimately show ?thesis using quiet_trans by blast
qed

lemma running_in_progress:
  "rinv s \<Longrightarrow> tget (rn_running s) i = Some ex \<Longrightarrow> in_progress (j_Status (ex_job ex))"
  using running_job by blast

lemma wok_wait_leave: "wok s \<Longrightarrow> wok (wait_leave i ch s)"
  unfolding wok_def
proof
  let ?t = "wait_leave i ch s"
  assume w: "\<forall>ch\<in>set (rn_blocked s). ch \<in> set (rn_closed s) \<or> (\<exists>i. ch \<in> set (waiting_on s i) \<and> busy_row s i)"
  fix x assume x: "x \<in> set (rn_blocked ?t)"
  then have x: "x \<in> set (rn_blocked s)" "x \<noteq> ch" by (auto simp: wait_leave_def Let_def)
  have t: "rn_closed ?t = rn_closed s" "\<And>k. busy_row ?t k = busy_row s k"
    by (simp_all add: wait_leave_def Let_def busy_row_def row_def)
  have "set (waiting_on s k) - {ch} \<subseteq> set (waiting_on ?t k)" for k
    by (auto simp: wait_leave_def Let_def waiting_on_def filter_empty_conv)
  then have k: "x \<in> set (waiting_on s k) \<Longrightarrow> x \<in> set (waiting_on ?t k)" for k using x(2) by blast
  from w x(1) consider "x \<in> set (rn_closed s)" | k where "x \<in> set (waiting_on s k)" "busy_row s k" by blast
  then show "x \<in> set (rn_closed ?t) \<or> (\<exists>i. x \<in> set (waiting_on ?t i) \<and> busy_row ?t i)"
    by cases (auto simp: t intro: k)
qed

lemma Get_frame: "rn_waiters (snd (Get c i s)) = rn_waiters s" "rn_closed (snd (Get c i s)) = rn_closed s"
  "rn_blocked (snd (Get c i s)) = rn_blocked s" "rn_db (snd (Get c i s)) = rn_db s"
  by (simp_all add: Get_def split: option.split)

lemma quiet_Get: "quiet s (snd (Get c i s))"
  by (simp add: quiet_def Get_frame busy_row_def row_def)

lemma Get_busy: "rinv s \<Longrightarrow> Get c i s = (Inr j, t) \<Longrightarrow> Busy (j_Status j) \<Longrightarrow> busy_row s i"
  using running_ex_ok [of s i]
  by (auto simp: Get_def busy_row_def ex_ok_def in_progress_def row_def split: option.splits if_splits)

lemma wok_wait_check:
  assumes v: "rinv s" and w: "wok s" and ch: "ch \<in> set (waiting_on s i)"
  shows "wok (snd (wait_check c i ch s))"
proof -
  obtain r t where g: "Get c i s = (r, t)" by fastforce
  then have t: "wok t" "rn_waiters t = rn_waiters s" "rn_closed t = rn_closed s"
    "rn_blocked t = rn_blocked s" "rn_db t = rn_db s"
    using quiet_wok [OF quiet_Get w, of c i] Get_frame [of c i s] by simp_all
  have "wok (t\<lparr>rn_blocked := ch # rn_blocked t\<rparr>)" if "r = Inr j" "Busy (j_Status j)" for j
  proof -
    have "busy_row s i" using Get_busy [OF v] g that by blast
    then have "busy_row t i" "ch \<in> set (waiting_on t i)" using ch t by (simp_all add: busy_row_def row_def waiting_on_def)
    with t(1) show ?thesis by (auto simp: wok_def waiting_on_def busy_row_def row_def)
  qed
  with t(1) show ?thesis by (simp add: wait_check_def g wok_wait_leave split: sum.split)
qed

lemma wok_wait_register: "wok s \<Longrightarrow> wok (snd (wait_register i s))"
proof -
  assume w: "wok s"
  let ?t = "snd (wait_register i s)"
  have "rn_blocked ?t = rn_blocked s" "rn_closed ?t = rn_closed s" "\<And>k. busy_row ?t k = busy_row s k"
    "\<And>k. set (waiting_on s k) \<subseteq> set (waiting_on ?t k)"
    by (auto simp: wait_register_def busy_row_def row_def waiting_on_def)
  with w show ?thesis unfolding wok_def by (metis subsetD)
qed

lemma wok_stop: "wok s \<Longrightarrow> wok (stop_running s)"
  by (simp add: wok_def stop_running_def waiting_on_def busy_row_def row_def)

text \<open>At the start of the node nobody waits; \<^verbatim>\<open>Recover\<close> touches no waiter.\<close>

lemma recover_rows_frame:
  "rn_blocked (snd (recover_rows c now rows s)) = rn_blocked s \<and>
   rn_closed (snd (recover_rows c now rows s)) = rn_closed s"
proof (induction rows arbitrary: s)
  case (Cons p rows)
  let ?j = "(jobFrom c p)\<lparr>j_Status := Interrupted, j_Question := None\<rparr>"
  obtain e t where st: "save ?j s = (e, t)" by fastforce
  then have "rn_blocked t = rn_blocked s" "rn_closed t = rn_closed s"
    using save_frame(3,4) [of ?j s] by simp_all
  with st Cons.IH show ?case by (cases e) (simp_all add: Let_def)
qed simp

lemma recover_loop_frame:
  "rn_blocked (snd (recover_loop c now sts s)) = rn_blocked s \<and>
   rn_closed (snd (recover_loop c now sts s)) = rn_closed s"
proof (induction sts arbitrary: s)
  case (Cons st sts)
  obtain e t where r: "recover_rows c now (ListJobsByStatus (rn_db s) st 100000) (asked s) = (e, t)" by fastforce
  then have "rn_blocked t = rn_blocked s" "rn_closed t = rn_closed s"
    using recover_rows_frame [of c now "ListJobsByStatus (rn_db s) st 100000" "asked s"] by simp_all
  with r Cons.IH show ?case by (cases e) simp_all
qed simp

section \<open>No lost wakeup\<close>

definition winv :: "config \<Rightarrow> runner \<Rightarrow> bool" where
  "winv c s = (rinv s \<and> types_known c s \<and> wok s)"

lemma wok_step: "runner_step c s t \<Longrightarrow> types_known c s \<Longrightarrow> rinv s \<Longrightarrow> wok s \<Longrightarrow> wok t"
proof (induction rule: runner_step.induct)
  case submit
  then show ?case using quiet_wok [OF quiet_Submit] by blast
next
  case dispatch
  then show ?case using quiet_wok [OF quiet_dispatch] by blast
next
  case finish
  then show ?case using wok_execute_end by blast
next
  case get
  then show ?case using quiet_wok [OF quiet_Get] by blast
next
  case list
  then show ?case by (simp add: List_jobs_def Let_def wok_extend)
next
  case events
  then show ?case by (simp add: Events_def wok_extend)
next
  case cancel
  then show ?case using wok_Cancel by blast
next
  case resume
  then show ?case using quiet_wok [OF quiet_Resume] by blast
next
  case answer
  then show ?case
    by (simp add: Answer_def Let_def wok_extend quiet_wok [OF quiet_primitives(5)] split: option.split)
next
  case prune
  then show ?case using wok_Prune by blast
next
  case (recover s now)
  then show ?case using recover_loop_frame [of c now "[Running, Waiting]" s]
    by (auto simp: wok_def Recover_def waiting_on_def)
next
  case stop
  then show ?case using wok_stop by blast
next
  case restart
  then show ?case by (simp add: wok_def restart_node_def New_def)
next
  case wait
  then show ?case using wok_wait_register by blast
next
  case check
  then show ?case using wok_wait_check by blast
next
  case (woken s i ch)
  then have "wok (snd (Get c i s))" using quiet_wok [OF quiet_Get] by blast
  with woken show ?case by (simp add: wait_wake_def case_prod_beta wok_wait_leave)
next
  case give_up
  then show ?case using wok_wait_leave by blast
next
  case (save s i ex raw)
  then have "quiet s (snd (run_Save ex raw s))"
    using running_in_progress by (auto simp: run_Save_def Let_def intro!: quiet_report split: sum.split)
  with save show ?case using quiet_wok by blast
next
  case (step s i ex now nm p)
  then have "quiet s (run_Step now ex nm p s)"
    using running_in_progress by (auto simp: run_Step_def Let_def intro!: quiet_extend(1) quiet_report)
  with step show ?case using quiet_wok by blast
next
  case (progress s i ex now p)
  then have "quiet s (run_Progress now ex p s)"
    using running_in_progress
    by (auto simp: run_Progress_def Let_def set_job_def [of ex] intro!: quiet_extend(3) quiet_report)
  with progress show ?case using quiet_wok by blast
next
  case (log s i ex now m)
  then show ?case by (simp add: run_Logf_def quiet_wok [OF quiet_primitives(4)])
next
  case (ask s i ex now qid q tmo)
  then have "quiet s (ask_begin now qid ex q tmo s)"
    by (auto simp: ask_begin_def Let_def in_progress_def intro!: quiet_extend(1,2) quiet_report)
  with ask show ?case using quiet_wok by blast
next
  case (asked s i ex now expired q)
  then have "quiet s (snd (ask_return now expired ex q s))"
    by (auto simp: ask_return_def ask_end_def Let_def in_progress_def intro!: quiet_extend(1) quiet_report
        split: option.split)
  with asked show ?case using quiet_wok by blast
qed

text \<open>The databases a node may start from: their rows are in order and their types are registered.\<close>

definition stored_jobs :: "config \<Rightarrow> job_db \<Rightarrow> bool" where
  "stored_jobs c d = (start_db d \<and> list_all (\<lambda>(i, r). Known c (r_Type r)) (d_jobs d))"

lemma winv_New: "stored_jobs c d \<Longrightarrow> winv c (New d faults)"
  using rinv_New [of d faults]
  by (auto simp: stored_jobs_def winv_def wok_def New_def types_known_def row_def GetJob_def list_all_iff dest!: tget_Some_mem)

lemma winv_step: "winv c s \<Longrightarrow> runner_step c s t \<Longrightarrow> winv c t"
  using good_step [of c s t] wok_step [of c s t] types_step [of c s t] by (auto simp: winv_def good_def)

lemma stored_empty: "stored_jobs c empty_db"
  using start_empty by (simp add: stored_jobs_def) (simp add: empty_db_def)

interpretation jw: machine "New empty_db faults" "runner_step c" "winv c" for faults c
  by unfold_locales (rule winv_New [OF stored_empty], rule winv_step)


definition blocked_run :: runner where
  "blocked_run = snd (wait_check sample_config ''J1'' 0 (snd (wait_register ''J1'' submitted)))"


text \<open>What the premise on the stored jobs excludes: failing a queued job of an unregistered type does
  not signal the channel a call waits on.\<close>

lemma unknown_type_wakes_nobody:
  "rn_closed (dispatch_row c now s (i, r)) = rn_closed s \<and> rn_waiters (dispatch_row c now s (i, r)) = rn_waiters s"
  if "\<not> Known c (r_Type r)"
  using that by (simp add: dispatch_row_def Let_def)

end
