(* ===== verification/Go_Bucket.thy ===== *)
theory Go_Bucket
  imports Go_Float Go_Time
begin

text \<open>
  The token bucket that paces sign-in attempts (\<^verbatim>\<open>allowIP\<close> in \<^verbatim>\<open>backend/internal/app/auth.go\<close>)
  and the messages of a camera (\<^verbatim>\<open>tokenBucket\<close> in \<^verbatim>\<open>backend/internal/app/supervisor.go\<close>), in
  floating point as the code computes it. The locale states the contract of a bucket - its
  burst and its rate - and what follows: how many takes a span of time allows.
\<close>

text \<open>\<^verbatim>\<open>Duration.Seconds\<close>: whole seconds plus the remaining nanoseconds.\<close>

definition Seconds :: "duration \<Rightarrow> float64" where
  "Seconds d = fadd (float_of_int (d div 10 ^ 9)) (fdiv (float_of_int (d mod 10 ^ 9)) (float_of_int (10 ^ 9)))"

record tokenBucket =
  b_tokens :: float64
  b_at :: instant

definition refill :: "float64 \<Rightarrow> float64 \<Rightarrow> instant \<Rightarrow> tokenBucket \<Rightarrow> float64" where
  "refill burst rate now b = min burst (fadd (b_tokens b) (fmul (Seconds (now - b_at b)) rate))"

definition take_token :: "float64 \<Rightarrow> float64 \<Rightarrow> instant \<Rightarrow> tokenBucket \<Rightarrow> bool \<times> tokenBucket" where
  "take_token burst rate now b =
    (let t = refill burst rate now b in
     if t < 1 then (False, \<lparr>b_tokens = t, b_at = now\<rparr>)
     else (True, \<lparr>b_tokens = fsub t 1, b_at = now\<rparr>))"

fun take_all :: "float64 \<Rightarrow> float64 \<Rightarrow> instant list \<Rightarrow> tokenBucket \<Rightarrow> nat \<times> tokenBucket" where
  "take_all burst rate [] b = (0, b)"
| "take_all burst rate (now # ts) b =
    (let (ok, b') = take_token burst rate now b; (n, b'') = take_all burst rate ts b'
     in ((if ok then n + 1 else n), b''))"

section \<open>Error bounds of rounding\<close>

definition eps :: rat where "eps = 1 / 2 ^ 53"

lemma round_even_le: "of_int (round_even q) \<le> q + 1 / 2"
proof -
  have "of_int \<lfloor>q\<rfloor> \<le> q" "q < of_int \<lfloor>q\<rfloor> + 1" by linarith+
  then have "of_int (if q - of_int \<lfloor>q\<rfloor> < 1 / 2 then \<lfloor>q\<rfloor> else if 1 / 2 < q - of_int \<lfloor>q\<rfloor> then \<lfloor>q\<rfloor> + 1
      else if even \<lfloor>q\<rfloor> then \<lfloor>q\<rfloor> else \<lfloor>q\<rfloor> + 1) \<le> q + 1 / 2"
    by (simp only: of_int_add of_int_1 split: if_split) linarith
  then show ?thesis by (simp add: round_even_def Let_def)
qed

lemma fl_upper: "0 \<le> x \<Longrightarrow> fl x \<le> x * (1 + eps)"
proof (cases "x = 0")
  case False
  assume "0 \<le> x"
  then have x: "0 < x" using False by simp
  have "ulp x = 2 powi bexp x / 2 ^ 52"
    using powi_ulp [of x] ulp_pos [of x] by (simp add: field_simps)
  also have "\<dots> \<le> x / 2 ^ 52" using bexp_spec [OF x] by (simp add: divide_right_mono)
  finally have u: "ulp x \<le> x / 2 ^ 52" .
  have "of_int (round_even (x / ulp x)) * ulp x \<le> (x / ulp x + 1 / 2) * ulp x"
    using round_even_le by (intro mult_right_mono) (auto intro: less_imp_le)
  also have "\<dots> = x + ulp x / 2" by (simp add: field_simps)
  also have "\<dots> \<le> x * (1 + eps)" using u by (simp add: eps_def field_simps)
  finally show ?thesis using x by (simp add: fl_def)
qed simp

lemma Seconds_nonneg: "0 \<le> d \<Longrightarrow> 0 \<le> Seconds d"
  unfolding Seconds_def float_of_int_def by (intro fadd_nonneg fdiv_nonneg fl_nonneg) auto

lemma ten_nine: "(10 :: int) ^ 9 < 2 ^ 53"
  by simp

lemma Seconds_upper:
  assumes "0 \<le> d"
  shows "Seconds d \<le> of_int d / 10 ^ 9 * (1 + eps) ^ 3"
proof -
  let ?s = "of_int (d div 10 ^ 9) :: rat" and ?n = "of_int (d mod 10 ^ 9) :: rat"
  have e: "0 < eps" "1 \<le> (1 + eps) ^ k" for k by (simp_all add: eps_def)
  have nn: "0 \<le> ?s" "0 \<le> ?n" using assms by (simp_all add: pos_imp_zdiv_nonneg_iff)
  have g: "fl (10 ^ 9) = 10 ^ 9" using fl_of_nat_exact [of "10 ^ 9"] by simp
  have "0 \<le> d mod 10 ^ 9" "d mod 10 ^ 9 < 10 ^ 9" by simp_all
  then have "\<bar>d mod 10 ^ 9\<bar> < 2 ^ 53" unfolding abs_of_nonneg [OF \<open>0 \<le> d mod 10 ^ 9\<close>]
    by (meson less_trans [of _ "10 ^ 9"] ten_nine)
  then have n1: "fl ?n = ?n" by (rule fl_of_int_exact)
  have s1: "fl ?s \<le> ?s * (1 + eps)" using fl_upper nn by blast
  have n2: "fl (?n / 10 ^ 9) \<le> ?n / 10 ^ 9 * (1 + eps)" using fl_upper [of "?n / 10 ^ 9"] nn by simp
  have "Seconds d = fl (fl ?s + fl (?n / 10 ^ 9))"
    unfolding Seconds_def fadd_def fdiv_def float_of_int_def n1 using g by simp
  also have "\<dots> \<le> (fl ?s + fl (?n / 10 ^ 9)) * (1 + eps)"
    using nn by (intro fl_upper add_nonneg_nonneg fl_nonneg) auto
  also have "\<dots> \<le> (?s * (1 + eps) + ?n / 10 ^ 9 * (1 + eps)) * (1 + eps)"
    using s1 n2 e(1) by (intro mult_right_mono add_mono) auto
  also have "\<dots> = (?s + ?n / 10 ^ 9) * (1 + eps) ^ 2" by (simp add: power2_eq_square algebra_simps)
  also have "\<dots> \<le> (?s + ?n / 10 ^ 9) * (1 + eps) ^ 3"
    using nn e(1) by (intro mult_left_mono power_increasing) auto
  also have "?s + ?n / 10 ^ 9 = of_int d / 10 ^ 9"
  proof -
    have "of_int d = of_int (d div 10 ^ 9 * 10 ^ 9 + d mod 10 ^ 9)" by (simp only: div_mult_mod_eq)
    also have "\<dots> = ?s * 10 ^ 9 + ?n" by (simp only: of_int_add of_int_mult of_int_power of_int_numeral)
    finally have "of_int d = ?s * 10 ^ 9 + ?n" .
    then show ?thesis by (simp add: field_simps)
  qed
  finally show ?thesis .
qed

section \<open>The contract of a bucket\<close>

definition bucket_ok :: "float64 \<Rightarrow> tokenBucket \<Rightarrow> bool" where
  "bucket_ok burst b = (0 \<le> b_tokens b \<and> b_tokens b \<le> burst)"

locale bucket_rate =
  fixes burst :: float64 and rate :: float64
  assumes burst_one: "1 \<le> burst" and burst_small: "burst * eps \<le> 1" and rate_nonneg: "0 \<le> rate"
begin

lemma refill_nonneg: "bucket_ok burst b \<Longrightarrow> b_at b \<le> now \<Longrightarrow> 0 \<le> refill burst rate now b"
  using burst_one unfolding refill_def bucket_ok_def
  by (auto intro!: fadd_nonneg fmul_nonneg Seconds_nonneg rate_nonneg)

lemma refill_le: "refill burst rate now b \<le> burst"
  by (simp add: refill_def)

lemma refill_upper:
  assumes b: "bucket_ok burst b" and t: "b_at b \<le> now"
  shows "refill burst rate now b \<le>
    b_tokens b + rate * (of_int (now - b_at b) / 10 ^ 9) * (1 + eps) ^ 5 + burst * eps"
proof -
  let ?d = "of_int (now - b_at b) / 10 ^ 9 :: rat" and ?X = "fmul (Seconds (now - b_at b)) rate"
  have e: "0 < eps" by (simp add: eps_def)
  have s: "0 \<le> Seconds (now - b_at b)" "Seconds (now - b_at b) \<le> ?d * (1 + eps) ^ 3"
    using Seconds_nonneg [of "now - b_at b"] Seconds_upper [of "now - b_at b"] t by simp_all
  have "?X \<le> Seconds (now - b_at b) * rate * (1 + eps)"
    unfolding fmul_def using s rate_nonneg by (intro fl_upper) auto
  also have "\<dots> \<le> ?d * (1 + eps) ^ 3 * rate * (1 + eps)"
    using s rate_nonneg e by (intro mult_right_mono) auto
  finally have x: "?X \<le> rate * ?d * (1 + eps) ^ 4" by (simp add: mult_ac power_numeral_reduce)
  have x0: "0 \<le> ?X" using s rate_nonneg by (intro fmul_nonneg)
  have "refill burst rate now b \<le> fadd (b_tokens b) ?X" by (simp add: refill_def)
  also have "\<dots> \<le> (b_tokens b + ?X) * (1 + eps)"
    unfolding fadd_def using x0 b by (intro fl_upper) (simp add: bucket_ok_def)
  also have "\<dots> = b_tokens b + b_tokens b * eps + ?X * (1 + eps)" by (simp add: algebra_simps)
  also have "\<dots> \<le> b_tokens b + burst * eps + rate * ?d * (1 + eps) ^ 4 * (1 + eps)"
    using b x e unfolding bucket_ok_def by (intro add_mono mult_right_mono) auto
  finally show ?thesis by (simp add: mult_ac power_numeral_reduce)
qed

lemma take_ok:
  assumes b: "bucket_ok burst b" and t: "b_at b \<le> now"
  shows "bucket_ok burst (snd (take_token burst rate now b)) \<and> b_at (snd (take_token burst rate now b)) = now"
proof -
  let ?t = "refill burst rate now b"
  have r: "0 \<le> ?t" "?t \<le> burst" using refill_nonneg [OF b t] refill_le by auto
  have "fsub ?t 1 \<le> burst" if "1 \<le> ?t"
  proof -
    have "fsub ?t 1 \<le> (?t - 1) * (1 + eps)" unfolding fsub_def using that by (intro fl_upper) simp
    also have "\<dots> \<le> (burst - 1) * (1 + eps)" using r by (intro mult_right_mono) (auto simp: eps_def)
    also have "\<dots> \<le> burst" using burst_small by (simp add: algebra_simps eps_def)
    finally show ?thesis .
  qed
  moreover have "0 \<le> fsub ?t 1" if "1 \<le> ?t" unfolding fsub_def using that by (intro fl_nonneg) simp
  ultimately show ?thesis using r by (simp add: take_token_def Let_def bucket_ok_def)
qed

lemma take_upper:
  assumes b: "bucket_ok burst b" and t: "b_at b \<le> now"
  shows "b_tokens (snd (take_token burst rate now b)) + (if fst (take_token burst rate now b) then 1 else 0) \<le>
    b_tokens b + rate * (of_int (now - b_at b) / 10 ^ 9) * (1 + eps) ^ 5 + 2 * burst * eps"
proof (cases "refill burst rate now b < 1")
  case True
  have "0 \<le> burst * eps" using burst_one by (simp add: eps_def)
  then show ?thesis using refill_upper [OF b t] True by (simp add: take_token_def)
next
  case False
  let ?t = "refill burst rate now b"
  have "fsub ?t 1 \<le> (?t - 1) * (1 + eps)" unfolding fsub_def using False by (intro fl_upper) simp
  also have "\<dots> \<le> ?t - 1 + burst * eps"
  proof -
    have "(?t - 1) * eps \<le> burst * eps" using refill_le [of now b] by (intro mult_right_mono) (auto simp: eps_def)
    then show ?thesis by (simp add: algebra_simps)
  qed
  finally have "fsub ?t 1 + 1 \<le> ?t + burst * eps" by simp
  then show ?thesis using refill_upper [OF b t] False by (simp add: take_token_def Let_def)
qed

text \<open>However the takes are spread over the time, the bucket allows its burst, what the rate brings
  in that time, and the rounding of each take.\<close>

lemma take_all_upper:
  assumes "bucket_ok burst b" "sorted (b_at b # ts)" "\<forall>t\<in>set (b_at b # ts). t \<le> stop"
  shows "b_tokens (snd (take_all burst rate ts b)) + of_nat (fst (take_all burst rate ts b)) \<le>
    b_tokens b + rate * (of_int (stop - b_at b) / 10 ^ 9) * (1 + eps) ^ 5 + 2 * burst * eps * of_nat (length ts)"
  using assms
proof (induction ts arbitrary: b)
  case Nil
  have "0 \<le> rate * (of_int (stop - b_at b) / 10 ^ 9) * (1 + eps) ^ 5"
    using rate_nonneg Nil.prems(3) by (intro mult_nonneg_nonneg) (auto simp: eps_def)
  then show ?case by simp
next
  case (Cons now ts)
  let ?p = "take_token burst rate now b" and ?k = "(1 + eps) ^ 5"
  have t: "b_at b \<le> now" using Cons.prems(2) by simp
  have ok: "bucket_ok burst (snd ?p)" "b_at (snd ?p) = now" using take_ok [OF Cons.prems(1) t] by auto
  have IH: "b_tokens (snd (take_all burst rate ts (snd ?p))) + of_nat (fst (take_all burst rate ts (snd ?p))) \<le>
    b_tokens (snd ?p) + rate * (of_int (stop - now) / 10 ^ 9) * ?k + 2 * burst * eps * of_nat (length ts)"
    using Cons.IH [OF ok(1)] ok(2) Cons.prems by simp
  have split: "rate * (of_int (now - b_at b) / 10 ^ 9) * ?k + rate * (of_int (stop - now) / 10 ^ 9) * ?k =
      rate * (of_int (stop - b_at b) / 10 ^ 9) * ?k"
    by (simp add: field_simps)
  have "b_tokens (snd (take_all burst rate (now # ts) b)) + of_nat (fst (take_all burst rate (now # ts) b)) =
      b_tokens (snd (take_all burst rate ts (snd ?p))) + of_nat (fst (take_all burst rate ts (snd ?p))) +
      (if fst ?p then 1 else 0)"
    by (simp add: case_prod_beta Let_def)
  also have "\<dots> \<le> b_tokens (snd ?p) + (if fst ?p then 1 else 0) + rate * (of_int (stop - now) / 10 ^ 9) * ?k
      + 2 * burst * eps * of_nat (length ts)"
    using IH by simp
  also have "\<dots> \<le> b_tokens b + rate * (of_int (now - b_at b) / 10 ^ 9) * ?k + 2 * burst * eps
      + rate * (of_int (stop - now) / 10 ^ 9) * ?k + 2 * burst * eps * of_nat (length ts)"
    using take_upper [OF Cons.prems(1) t] by simp
  also have "\<dots> = b_tokens b + rate * (of_int (stop - b_at b) / 10 ^ 9) * ?k
      + 2 * burst * eps * of_nat (length (now # ts))"
    using split by (simp add: algebra_simps)
  finally show ?case .
qed

lemma take_all_ok:
  "bucket_ok burst b \<Longrightarrow> sorted (b_at b # ts) \<Longrightarrow> bucket_ok burst (snd (take_all burst rate ts b))"
proof (induction ts arbitrary: b)
  case (Cons now ts)
  then have "bucket_ok burst (snd (take_token burst rate now b))" "b_at (snd (take_token burst rate now b)) = now"
    using take_ok [of b now] by auto
  with Cons show ?case by (simp add: case_prod_beta Let_def)
qed simp

lemma take_all_bound:
  assumes "bucket_ok burst b" "sorted (b_at b # ts)" "\<forall>t\<in>set (b_at b # ts). t \<le> stop"
  shows "of_nat (fst (take_all burst rate ts b)) \<le>
    burst + rate * (of_int (stop - b_at b) / 10 ^ 9) * (1 + eps) ^ 5 + 2 * burst * eps * of_nat (length ts)"
  using take_all_upper [OF assms] take_all_ok [OF assms(1,2)] assms(1) by (simp add: bucket_ok_def)

end

end
