(* ===== verification/Login_Guard.thy ===== *)
theory Login_Guard
  imports Go_Bucket Domain_Network Job_Store
begin

text \<open>
  The login guard of \<^verbatim>\<open>backend/internal/app/auth.go\<close>: locks per account and address, the
  bucket of attempts per address, the evictions that bound both maps, and the limiter of
  concurrent password hashes. The clock is an argument. \<open>v6\<close> is the key of a text that is
  not an IPv4 address (\<^verbatim>\<open>netip\<close> on IPv6: its /64, or the text itself).
\<close>

section \<open>State\<close>

record loginEntry =
  le_failures :: nat
  le_until :: instant
  le_last :: instant

record loginGuard =
  lg_entries :: "(string, loginEntry) table"
  lg_ips :: "(string, tokenBucket) table"

definition newLoginGuard :: loginGuard where
  "newLoginGuard = \<lparr>lg_entries = [], lg_ips = []\<rparr>"

definition maxGuardEntries :: nat where "maxGuardEntries = 10000"
definition ipBurst :: float64 where "ipBurst = 10"
definition ipRate :: float64 where "ipRate = fl (1 / 6)"

section \<open>Locks\<close>

definition locked :: "instant \<Rightarrow> string \<Rightarrow> loginGuard \<Rightarrow> instant option" where
  "locked now key g =
    (case tget (lg_entries g) key of
       None \<Rightarrow> None
     | Some e \<Rightarrow> if le_until e < now then None else Some (le_until e))"

text \<open>The candidates of an eviction: unlocked entries first, oldest failure first.\<close>

definition by_worth :: "instant \<Rightarrow> (string, loginEntry) table \<Rightarrow> (string \<times> loginEntry) list" where
  "by_worth now t =
    sort_key (\<lambda>(k, e). now < le_until e) (sort_key (\<lambda>(k, e). le_last e) t)"

definition tenth :: "nat \<Rightarrow> nat" where
  "tenth n = max (n div 10) 1"

definition evictEntries :: "instant \<Rightarrow> (string, loginEntry) table \<Rightarrow> (string, loginEntry) table" where
  "evictEntries now t = fold (\<lambda>k t. tdel k t) (map fst (take (tenth (length t)) (by_worth now t))) t"

definition lock_time :: "nat \<Rightarrow> duration" where
  "lock_time failures =
    (let lock = push_bit (min (failures - 5) 5) (30 * 10 ^ 9)
     in if lock > 15 * 60 * 10 ^ 9 then 15 * 60 * 10 ^ 9 else lock)"

definition fail_entry :: "instant \<Rightarrow> loginEntry \<Rightarrow> loginEntry" where
  "fail_entry now e =
    (let n = le_failures e + 1; e = e\<lparr>le_failures := n, le_last := now\<rparr>
     in if 5 \<le> n then e\<lparr>le_until := now + lock_time n\<rparr> else e)"

definition fail :: "instant \<Rightarrow> string \<Rightarrow> loginGuard \<Rightarrow> loginGuard" where
  "fail now key g =
    (case tget (lg_entries g) key of
       None \<Rightarrow>
         (let t = (if maxGuardEntries \<le> length (lg_entries g) then evictEntries now (lg_entries g) else lg_entries g);
              e = \<lparr>le_failures = 0, le_until = zero_time, le_last = zero_time\<rparr>
          in g\<lparr>lg_entries := tput key (fail_entry now e) t\<rparr>)
     | Some e \<Rightarrow> g\<lparr>lg_entries := tput key (fail_entry now e) (lg_entries g)\<rparr>)"

section \<open>Attempts of an address\<close>

definition ipKey :: "(string \<Rightarrow> string) \<Rightarrow> string \<Rightarrow> string" where
  "ipKey v6 ip = (case parse_ip4 ip of Some a \<Rightarrow> ip4_str a | None \<Rightarrow> v6 ip)"

definition evictBuckets :: "instant \<Rightarrow> (string, tokenBucket) table \<Rightarrow> (string, tokenBucket) table" where
  "evictBuckets now t =
    (let t = filter (\<lambda>(k, b). \<not> ipBurst \<le> fadd (b_tokens b) (fmul (Seconds (now - b_at b)) ipRate)) t in
     if length t < maxGuardEntries then t
     else fold (\<lambda>k t. tdel k t) (map fst (take (tenth (length t)) (sort_key (\<lambda>(k, b). b_at b) t))) t)"

definition retry_after :: "float64 \<Rightarrow> duration" where
  "retry_after tokens = \<lfloor>fmul (fdiv (fsub 1 tokens) ipRate) (10 ^ 9)\<rfloor>"

definition allowIP :: "(string \<Rightarrow> string) \<Rightarrow> instant \<Rightarrow> string \<Rightarrow> loginGuard \<Rightarrow> duration option \<times> loginGuard" where
  "allowIP v6 now ip g =
    (let key = ipKey v6 ip;
         (t, b) = (case tget (lg_ips g) key of
            Some b \<Rightarrow> (lg_ips g, b)
          | None \<Rightarrow>
              (if maxGuardEntries \<le> length (lg_ips g) then evictBuckets now (lg_ips g) else lg_ips g,
               \<lparr>b_tokens = ipBurst, b_at = now\<rparr>));
         (ok, b) = take_token ipBurst ipRate now b
     in (if ok then None else Some (retry_after (b_tokens b)), g\<lparr>lg_ips := tput key b t\<rparr>))"

definition success :: "(string \<Rightarrow> string) \<Rightarrow> string \<Rightarrow> string \<Rightarrow> loginGuard \<Rightarrow> loginGuard" where
  "success v6 key ip g =
    (let g = g\<lparr>lg_entries := tdel key (lg_entries g)\<rparr> in
     case tget (lg_ips g) (ipKey v6 ip) of
       None \<Rightarrow> g
     | Some b \<Rightarrow> g\<lparr>lg_ips := tput (ipKey v6 ip) (b\<lparr>b_tokens := min ipBurst (fadd (b_tokens b) 1)\<rparr>) (lg_ips g)\<rparr>)"

section \<open>The bounds of both maps\<close>

lemma tdel_fold_get: "tget (fold (\<lambda>k t. tdel k t) ks t) k = (if k \<in> set ks then None else tget t k)"
  by (induction ks arbitrary: t) auto

lemma tdel_fold_ok: "table_ok t \<Longrightarrow> table_ok (fold (\<lambda>k t. tdel k t) ks t)"
  by (induction ks arbitrary: t) auto

lemma tdel_fold_length: "length (fold (\<lambda>k t. tdel k t) ks t) \<le> length t"
proof (induction ks arbitrary: t)
  case (Cons k ks)
  show ?case using Cons.IH [of "tdel k t"] length_tdel_le [of k t] by simp
qed simp

lemma tdel_fold_less: "ks \<noteq> [] \<Longrightarrow> hd ks \<in> set (tkeys t) \<Longrightarrow> length (fold (\<lambda>k t. tdel k t) ks t) < length t"
proof (cases ks)
  case (Cons k ks')
  assume "hd ks \<in> set (tkeys t)"
  then have "length (tdel k t) < length t" using Cons length_tdel_less by fastforce
  then show ?thesis using tdel_fold_length [of ks' "tdel k t"] Cons by simp
qed simp

lemma set_by_worth: "set (by_worth now t) = set t"
  by (simp add: by_worth_def)

lemma length_by_worth: "length (by_worth now t) = length t"
  by (simp add: by_worth_def)

lemma evict_hd:
  assumes "xs \<noteq> []" "set xs = set t"
  shows "map fst (take (tenth n) xs) \<noteq> [] \<and> hd (map fst (take (tenth n) xs)) \<in> set (tkeys t)"
proof -
  obtain x ys where xs: "xs = x # ys" using assms(1) by (cases xs) auto
  obtain m where m: "tenth n = Suc m" by (cases "tenth n") (auto simp: tenth_def max_def split: if_splits)
  have "x \<in> set t" using assms(2) xs by auto
  then show ?thesis by (auto simp: xs m tkeys_def)
qed

lemma evictEntries_less: "t \<noteq> [] \<Longrightarrow> length (evictEntries now t) < length t"
  unfolding evictEntries_def
  using evict_hd [of "by_worth now t" t "length t"] set_by_worth [of now t] length_by_worth [of now t]
  by (intro tdel_fold_less) (auto simp flip: length_greater_0_conv)

lemma evictBuckets_less: "length t = maxGuardEntries \<Longrightarrow> length (evictBuckets now t) < maxGuardEntries"
proof -
  assume l: "length t = maxGuardEntries"
  define u where "u = filter (\<lambda>(k, b). \<not> ipBurst \<le> fadd (b_tokens b) (fmul (Seconds (now - b_at b)) ipRate)) t"
  have le: "length u \<le> maxGuardEntries" unfolding u_def using l length_filter_le [of _ t] by simp
  show ?thesis
  proof (cases "length u < maxGuardEntries")
    case True
    then show ?thesis by (simp add: evictBuckets_def u_def [symmetric])
  next
    case False
    let ?ks = "map fst (take (tenth (length u)) (sort_key (\<lambda>(k, b). b_at b) u))"
    have "u \<noteq> []" using False by (auto simp: maxGuardEntries_def)
    then have "?ks \<noteq> [] \<and> hd ?ks \<in> set (tkeys u)"
      by (intro evict_hd) (auto simp flip: length_greater_0_conv)
    then have "length (fold (\<lambda>k t. tdel k t) ?ks u) < length u" using tdel_fold_less by blast
    then show ?thesis using le False by (simp add: evictBuckets_def u_def [symmetric])
  qed
qed

definition guard_ok :: "loginGuard \<Rightarrow> bool" where
  "guard_ok g = (table_ok (lg_entries g) \<and> table_ok (lg_ips g) \<and>
     length (lg_entries g) \<le> maxGuardEntries \<and> length (lg_ips g) \<le> maxGuardEntries)"

inductive guard_step :: "loginGuard \<Rightarrow> loginGuard \<Rightarrow> bool" where
  "guard_step g (fail now key g)"
| "guard_step g (snd (allowIP v6 now ip g))"
| "guard_step g (success v6 key ip g)"

lemma tput_bound: "length t < n \<or> (k \<in> set (tkeys t) \<and> length t \<le> n) \<Longrightarrow> length (tput k v t) \<le> n"
  by (auto simp: length_tput)

lemma guard_fail: "guard_ok g \<Longrightarrow> guard_ok (fail now key g)"
proof -
  assume g: "guard_ok g"
  have ev: "length (evictEntries now (lg_entries g)) < maxGuardEntries" if "maxGuardEntries \<le> length (lg_entries g)"
    using evictEntries_less [of "lg_entries g" now] that g
    by (cases "lg_entries g = []") (auto simp: guard_ok_def maxGuardEntries_def)
  show ?thesis using g ev tget_Some_key [of "lg_entries g" key]
    by (auto simp: fail_def guard_ok_def Let_def evictEntries_def [of now "lg_entries g"] tdel_fold_ok
        intro!: tput_bound split: option.split)
qed

lemma guard_allow: "guard_ok g \<Longrightarrow> guard_ok (snd (allowIP v6 now ip g))"
proof -
  assume g: "guard_ok g"
  have ev: "length (evictBuckets now (lg_ips g)) < maxGuardEntries" if "maxGuardEntries \<le> length (lg_ips g)"
    using evictBuckets_less [of "lg_ips g" now] that g by (simp add: guard_ok_def)
  have ok: "table_ok (evictBuckets now (lg_ips g))"
    using g by (simp add: guard_ok_def evictBuckets_def Let_def tdel_fold_ok table_ok_filter)
  show ?thesis using g ev ok tget_Some_key [of "lg_ips g" "ipKey v6 ip"]
    by (auto simp: allowIP_def guard_ok_def Let_def case_prod_beta intro!: tput_bound split: option.split)
qed

lemma guard_success: "guard_ok g \<Longrightarrow> guard_ok (success v6 key ip g)"
  using length_tdel_le [of key "lg_entries g"] tget_Some_key [of "lg_ips g" "ipKey v6 ip"]
  by (auto simp: success_def guard_ok_def Let_def intro!: tput_bound split: option.split)

interpretation lg: machine newLoginGuard guard_step guard_ok
proof
  show "guard_ok newLoginGuard" by (simp add: guard_ok_def newLoginGuard_def)
  show "guard_ok g \<Longrightarrow> guard_step g h \<Longrightarrow> guard_ok h" for g h
    by (auto elim!: guard_step.cases intro: guard_fail guard_allow guard_success)
qed

text \<open>Whatever clients do, the guard never keeps more than 10,000 locks nor 10,000 buckets.\<close>

theorem guard_bounded:
  assumes "reach guard_step newLoginGuard g"
  shows "length (lg_entries g) \<le> maxGuardEntries \<and> length (lg_ips g) \<le> maxGuardEntries"
  using lg.inv_reachable [OF assms] by (simp add: guard_ok_def)

theorem guard_bounded_witness:
  "length (lg_entries (fail 5 ''admin|10.0.0.1'' newLoginGuard)) \<le> maxGuardEntries"
proof -
  have "reach guard_step newLoginGuard (fail 5 ''admin|10.0.0.1'' newLoginGuard)"
    by (rule reach_step [OF reach_refl], rule guard_step.intros)
  then show ?thesis using guard_bounded by blast
qed

section \<open>Eviction spares the locks\<close>

definition is_locked :: "instant \<Rightarrow> loginEntry \<Rightarrow> bool" where
  "is_locked now e = (now < le_until e)"

lemma sorted_by_worth: "sorted (map (\<lambda>(k, e). is_locked now e) (by_worth now t))"
  by (simp add: by_worth_def is_locked_def)

text \<open>Making room in a full guard never clears a lock while an account that is not locked could
  go: if a locked entry is evicted, no unlocked entry is left, so flooding the guard with accounts
  cannot unlock the account under attack.\<close>

theorem evict_spares_locked:
  assumes "table_ok t" "tget t k = Some e" "is_locked now e" "tget (evictEntries now t) k = None"
    and "tget (evictEntries now t) k' = Some e'"
  shows "is_locked now e'"
proof -
  let ?n = "tenth (length t)" and ?xs = "by_worth now t"
  let ?ks = "map fst (take ?n ?xs)"
  have g: "tget (evictEntries now t) i = (if i \<in> set ?ks then None else tget t i)" for i
    by (simp add: evictEntries_def tdel_fold_get)
  have mem: "(i, x) \<in> set ?xs \<longleftrightarrow> tget t i = Some x" for i x
    using assms(1) by (simp add: set_by_worth tget_iff_mem)
  have "k \<in> set ?ks" using assms(2,4) by (simp add: g split: if_splits)
  then obtain e1 where "(k, e1) \<in> set (take ?n ?xs)" by auto
  moreover then have "e1 = e" using in_set_takeD mem assms(2) by fastforce
  ultimately have k: "(k, e) \<in> set (take ?n ?xs)" by simp
  have "k' \<notin> set ?ks" "(k', e') \<in> set ?xs" using assms(5) by (auto simp: g mem split: if_splits)
  moreover have "set ?xs = set (take ?n ?xs) \<union> set (drop ?n ?xs)" by (simp flip: set_append)
  ultimately have k': "(k', e') \<in> set (drop ?n ?xs)" by force
  have "sorted (map (\<lambda>(k, e). is_locked now e) (take ?n ?xs) @ map (\<lambda>(k, e). is_locked now e) (drop ?n ?xs))"
    using sorted_by_worth [of now t] by (simp flip: map_append)
  then have "is_locked now e \<le> is_locked now e'"
    using k k' unfolding sorted_append by force
  with assms(3) show ?thesis by simp
qed

definition sample_entries :: "(string, loginEntry) table" where
  "sample_entries =
    [(''a'', \<lparr>le_failures = 5, le_until = 90, le_last = 1\<rparr>), (''b'', \<lparr>le_failures = 6, le_until = 80, le_last = 2\<rparr>)]"

theorem evict_spares_locked_witness: "is_locked 10 \<lparr>le_failures = 6, le_until = 80, le_last = 2\<rparr>"
proof -
  have e: "evictEntries 10 sample_entries = [(''b'', \<lparr>le_failures = 6, le_until = 80, le_last = 2\<rparr>)]"
    by (simp add: evictEntries_def by_worth_def sample_entries_def tenth_def tdel_def)
  show ?thesis
    by (rule evict_spares_locked [of sample_entries "''a''" "\<lparr>le_failures = 5, le_until = 90, le_last = 1\<rparr>" 10 "''b''"])
      (simp_all add: e, simp_all add: sample_entries_def table_ok_def tkeys_def is_locked_def)
qed

section \<open>The schedule of locks\<close>

fun fail_all :: "instant list \<Rightarrow> string \<Rightarrow> loginGuard \<Rightarrow> loginGuard" where
  "fail_all [] key g = g"
| "fail_all (now # ts) key g = fail_all ts key (fail now key g)"

lemma lock_time_range: "5 \<le> n \<Longrightarrow> 30 * 10 ^ 9 \<le> lock_time n \<and> lock_time n \<le> 15 * 60 * 10 ^ 9"
  by (simp add: lock_time_def Let_def push_bit_eq_mult)

lemma fail_all_entry:
  "tget (lg_entries g) key = Some e \<Longrightarrow>
   \<exists>e'. tget (lg_entries (fail_all ts key g)) key = Some e' \<and> le_failures e' = le_failures e + length ts \<and>
     le_until e' = (if ts \<noteq> [] \<and> 5 \<le> le_failures e + length ts
                    then last ts + lock_time (le_failures e + length ts)
                    else le_until e)"
proof (induction ts arbitrary: g e)
  case (Cons now ts)
  have f: "tget (lg_entries (fail now key g)) key = Some (fail_entry now e)"
    using Cons.prems by (simp add: fail_def)
  have n: "le_failures (fail_entry now e) = le_failures e + 1"
    "le_until (fail_entry now e) = (if 5 \<le> le_failures e + 1 then now + lock_time (le_failures e + 1) else le_until e)"
    by (simp_all add: fail_entry_def Let_def)
  from Cons.IH [OF f] show ?case by (cases "ts = []") (auto simp: n)
qed simp

text \<open>An account and address that start with no failure are locked exactly from the fifth failed
  attempt on: after n failures, the last at time t, the pair is locked until t plus 30 seconds
  doubled with every further failure, at most 15 minutes, and not before.\<close>

theorem lock_schedule:
  assumes "tget (lg_entries g) key = None" "ts \<noteq> []" "0 \<le> now"
  shows "locked now key (fail_all ts key g) =
    (if 5 \<le> length ts \<and> now \<le> last ts + lock_time (length ts)
     then Some (last ts + lock_time (length ts)) else None)"
proof -
  obtain t0 ts' where ts: "ts = t0 # ts'" using assms(2) by (cases ts) auto
  let ?e = "\<lparr>le_failures = 0, le_until = zero_time, le_last = zero_time\<rparr>"
  have "tget (lg_entries (fail t0 key g)) key = Some (fail_entry t0 ?e)"
    using assms(1) by (simp add: fail_def Let_def)
  moreover have "fail_entry t0 ?e = \<lparr>le_failures = 1, le_until = zero_time, le_last = t0\<rparr>"
    by (simp add: fail_entry_def Let_def)
  ultimately obtain e' where e: "tget (lg_entries (fail_all ts key g)) key = Some e'"
    "le_until e' = (if ts' \<noteq> [] \<and> 5 \<le> length ts then last ts' + lock_time (length ts) else zero_time)"
    using fail_all_entry [of "fail t0 key g" key "fail_entry t0 ?e" ts'] by (auto simp: ts)
  have "zero_time < now" using assms(3) by (simp add: zero_time_def)
  with e show ?thesis by (cases "ts' = []") (auto simp: locked_def ts)
qed

theorem lock_schedule_witness:
  "locked 40000000000 ''k'' (fail_all [1, 2, 3, 4, 5, 6] ''k'' newLoginGuard) = Some 60000000006"
  by (subst lock_schedule) (simp_all add: newLoginGuard_def lock_time_def Let_def push_bit_eq_mult)

section \<open>The rate of attempts of an address\<close>

lemma ipRate_bounds: "0 \<le> ipRate \<and> ipRate \<le> 1 / 6 * (1 + eps)"
  unfolding ipRate_def using fl_upper [of "1 / 6"] fl_nonneg [of "1 / 6"] by simp

interpretation ip: bucket_rate ipBurst ipRate
  by unfold_locales (use ipRate_bounds in \<open>simp_all add: ipBurst_def eps_def\<close>)

fun attempts :: "(string \<Rightarrow> string) \<Rightarrow> string \<Rightarrow> instant list \<Rightarrow> loginGuard \<Rightarrow> nat" where
  "attempts v6 ip [] g = 0"
| "attempts v6 ip (now # ts) g =
    (case allowIP v6 now ip g of (r, g') \<Rightarrow> (if r = None then 1 else 0) + attempts v6 ip ts g')"

lemma attempts_take:
  "tget (lg_ips g) (ipKey v6 ip) = Some b \<Longrightarrow> attempts v6 ip ts g = fst (take_all ipBurst ipRate ts b)"
proof (induction ts arbitrary: g b)
  case (Cons now ts)
  let ?p = "take_token ipBurst ipRate now b"
  have a: "allowIP v6 now ip g = (if fst ?p then None else Some (retry_after (b_tokens (snd ?p))),
      g\<lparr>lg_ips := tput (ipKey v6 ip) (snd ?p) (lg_ips g)\<rparr>)"
    using Cons.prems by (simp add: allowIP_def Let_def case_prod_beta)
  have "attempts v6 ip ts (g\<lparr>lg_ips := tput (ipKey v6 ip) (snd ?p) (lg_ips g)\<rparr>) =
      fst (take_all ipBurst ipRate ts (snd ?p))"
    by (rule Cons.IH) simp
  then show ?case by (simp add: a case_prod_beta Let_def)
qed simp

lemma attempts_new:
  assumes "tget (lg_ips g) (ipKey v6 ip) = None"
  shows "attempts v6 ip (now # ts) g = fst (take_all ipBurst ipRate (now # ts) \<lparr>b_tokens = ipBurst, b_at = now\<rparr>)"
proof -
  let ?p = "take_token ipBurst ipRate now \<lparr>b_tokens = ipBurst, b_at = now\<rparr>"
  obtain t where a: "allowIP v6 now ip g = (if fst ?p then None else Some (retry_after (b_tokens (snd ?p))),
      g\<lparr>lg_ips := tput (ipKey v6 ip) (snd ?p) t\<rparr>)"
    using assms by (simp add: allowIP_def Let_def case_prod_beta)
  have "attempts v6 ip ts (g\<lparr>lg_ips := tput (ipKey v6 ip) (snd ?p) t\<rparr>) =
      fst (take_all ipBurst ipRate ts (snd ?p))"
    by (rule attempts_take) simp
  then show ?thesis by (simp add: a case_prod_beta Let_def)
qed

text \<open>However its attempts are spread, an address the guard does not know gets through at most
  its burst of ten, one per six seconds of the span the attempts take, and the rounding of the
  floating-point bucket (less than 10^-13 per attempt).\<close>

theorem attempts_bounded:
  assumes "tget (lg_ips g) (ipKey v6 ip) = None" "sorted (now # ts)" "\<forall>t\<in>set (now # ts). t \<le> stop"
  shows "of_nat (attempts v6 ip (now # ts) g) \<le>
    10 + of_int (stop - now) / (6 * 10 ^ 9) * (1 + eps) ^ 6 + of_nat (length (now # ts)) / 10 ^ 13"
proof -
  let ?b = "\<lparr>b_tokens = ipBurst, b_at = now\<rparr>" and ?d = "of_int (stop - now) / 10 ^ 9 :: rat"
  have d: "0 \<le> ?d" using assms(3) by simp
  have "of_nat (attempts v6 ip (now # ts) g) \<le>
      ipBurst + ipRate * ?d * (1 + eps) ^ 5 + 2 * ipBurst * eps * of_nat (length (now # ts))"
    unfolding attempts_new [OF assms(1)]
    using ip.take_all_bound [of ?b "now # ts" stop] assms by (simp add: bucket_ok_def ipBurst_def)
  also have "ipRate * ?d * (1 + eps) ^ 5 \<le> (1 / 6 * (1 + eps)) * ?d * (1 + eps) ^ 5"
    using ipRate_bounds d by (intro mult_right_mono) (auto simp: eps_def)
  also have "(1 / 6 * (1 + eps)) * ?d * (1 + eps) ^ 5 = of_int (stop - now) / (6 * 10 ^ 9) * (1 + eps) ^ 6"
    by (simp add: power_numeral_reduce)
  finally have m: "of_nat (attempts v6 ip (now # ts) g) \<le> ipBurst + of_int (stop - now) / (6 * 10 ^ 9) * (1 + eps) ^ 6
      + 2 * ipBurst * eps * of_nat (length (now # ts))" by simp
  have "2 * ipBurst * eps * of_nat (length (now # ts)) \<le> 1 / 10 ^ 13 * of_nat (length (now # ts))"
    by (rule mult_right_mono) (simp_all add: ipBurst_def eps_def)
  then have "2 * ipBurst * eps * of_nat (length (now # ts)) \<le> of_nat (length (now # ts)) / 10 ^ 13"
    by simp
  from order_trans [OF m add_left_mono [OF this]] show ?thesis by (simp only: ipBurst_def)
qed

theorem attempts_bounded_witness:
  "of_nat (attempts (\<lambda>s. s) ''10.0.0.1'' [5, 5, 7] newLoginGuard) \<le>
    10 + of_int (7 - 5) / (6 * 10 ^ 9) * (1 + eps) ^ 6 + of_nat (length [5, 5, 7 :: int]) / 10 ^ 13"
  by (rule attempts_bounded) (simp_all add: newLoginGuard_def)

end
