(* ===== verification/Sessions.thy ===== *)
theory Sessions
  imports Login_Guard Domain_Users
begin

text \<open>
  Sign-in of \<^verbatim>\<open>backend/internal/app/auth.go\<close> and \<^verbatim>\<open>tokens.go\<close>: the first administrator, panel
  sessions, API tokens and the limiter of password hashes. The tables are those of
  \<^verbatim>\<open>auth.sql.go\<close> and \<^verbatim>\<open>tokens.sql.go\<close>; \<open>a_faults\<close> says which coming statement fails. Argon2id,
  SHA-256, random numbers and identifiers are arguments.
\<close>

datatype auth_error =
    ErrUnauthenticated | ErrSetupDone | ErrSetupCode | LockedError instant | RateLimitError duration
  | ErrBusy | ErrInvalidToken | AuthError error

record user_row =
  ur_Username :: string
  ur_PasswordHash :: string
  ur_Role :: string
  ur_Disabled :: bool
  ur_CreatedAt :: int

record session_row =
  sr_UserID :: string
  sr_ExpiresAt :: int
  sr_Ip :: string
  sr_UserAgent :: string
  sr_CreatedAt :: int

record token_row =
  tr_UserID :: string
  tr_Name :: string
  tr_TokenHash :: string
  tr_Prefix :: string
  tr_Scopes :: "string list"
  tr_ExpiresAt :: "int option"
  tr_LastUsedAt :: "int option"
  tr_LastUsedIp :: string
  tr_CreatedAt :: int

record auth =
  a_users :: "(string, user_row) table"
  a_sessions :: "(string, session_row) table"
  a_tokens :: "(string, token_row) table"
  a_faults :: "bool list"
  a_guard :: loginGuard
  a_code :: string
  a_file :: "string option"
  a_audit :: "string list"

text \<open>What the component takes from outside: the key of non-IPv4 texts, \<^verbatim>\<open>verifyPassword\<close> and
  \<^verbatim>\<open>hashPassword\<close> over Argon2id, the hex SHA-256 of a token, and Unicode lower case.\<close>

record auth_env =
  env_v6 :: "string \<Rightarrow> string"
  env_verify :: "string \<Rightarrow> string \<Rightarrow> bool"
  env_hash :: "string \<Rightarrow> string"
  env_tokenID :: "string \<Rightarrow> string"
  env_lower :: "rune \<Rightarrow> rune"
  env_upper :: "string \<Rightarrow> string"

definition afault :: "auth \<Rightarrow> bool" where
  "afault s = (case a_faults s of [] \<Rightarrow> False | f # _ \<Rightarrow> f)"

definition aasked :: "auth \<Rightarrow> auth" where
  "aasked s = s\<lparr>a_faults := tl (a_faults s)\<rparr>"

definition audit :: "string \<Rightarrow> auth \<Rightarrow> auth" where
  "audit action s = s\<lparr>a_audit := a_audit s @ [action]\<rparr>"

definition auth_db_error :: auth_error where
  "auth_db_error = AuthError (OtherError (msg ''database error''))"

lemma aasked_frame [simp]:
  "a_users (aasked s) = a_users s" "a_sessions (aasked s) = a_sessions s" "a_tokens (aasked s) = a_tokens s"
  "a_guard (aasked s) = a_guard s" "a_code (aasked s) = a_code s" "a_file (aasked s) = a_file s"
  by (simp_all add: aasked_def)

lemma audit_frame [simp]:
  "a_users (audit x s) = a_users s" "a_sessions (audit x s) = a_sessions s" "a_guard (audit x s) = a_guard s"
  by (simp_all add: audit_def)

section \<open>Sessions\<close>

definition SessionTTL :: duration where "SessionTTL = 12 * 3600 * 10 ^ 9"
definition SessionMaxLifetime :: duration where "SessionMaxLifetime = 7 * 24 * 3600 * 10 ^ 9"

definition hour :: duration where "hour = 3600 * 10 ^ 9"

record User =
  us_ID :: string
  us_Username :: string
  us_Role :: string

record TokenInfo =
  ti_ID :: string
  ti_Name :: string
  ti_Scopes :: "string list"
  ti_ExpiresAt :: instant

record Session =
  se_User :: User
  se_ExpiresAt :: instant
  se_Token :: "TokenInfo option"
  se_Extended :: bool

text \<open>\<open>raw\<close> is the random token.\<close>

definition newSession ::
  "auth_env \<Rightarrow> instant \<Rightarrow> string \<Rightarrow> User \<Rightarrow> string \<Rightarrow> string \<Rightarrow> auth \<Rightarrow> (auth_error, string \<times> Session) result \<times> auth" where
  "newSession env now raw u ip ua s =
    (let expiry = now + SessionTTL in
     if afault s \<or> tget (a_sessions s) (env_tokenID env raw) \<noteq> None then (Inl auth_db_error, aasked s)
     else
       (Inr (raw, \<lparr>se_User = u, se_ExpiresAt = expiry, se_Token = None, se_Extended = False\<rparr>),
        (aasked s)\<lparr>a_sessions := tput (env_tokenID env raw)
          \<lparr>sr_UserID = us_ID u, sr_ExpiresAt = unix_milli expiry, sr_Ip = ip, sr_UserAgent = take 200 ua,
           sr_CreatedAt = unix_milli now\<rparr> (a_sessions s)\<rparr>))"

definition GetSession :: "string \<Rightarrow> auth \<Rightarrow> (session_row \<times> user_row) option" where
  "GetSession i s =
    (case tget (a_sessions s) i of
       None \<Rightarrow> None
     | Some r \<Rightarrow> (case tget (a_users s) (sr_UserID r) of None \<Rightarrow> None | Some u \<Rightarrow> Some (r, u)))"

definition session_over :: "instant \<Rightarrow> session_row \<Rightarrow> user_row \<Rightarrow> bool" where
  "session_over now r u =
    (store_Time (sr_ExpiresAt r) < now \<or> store_Time (sr_CreatedAt r) + SessionMaxLifetime < now \<or> ur_Disabled u)"

definition Authenticate :: "auth_env \<Rightarrow> instant \<Rightarrow> string \<Rightarrow> auth \<Rightarrow> (auth_error, Session) result \<times> auth" where
  "Authenticate env now token s =
    (if token = [] \<or> 100 < length token then (Inl ErrUnauthenticated, s)
     else
       (let i = env_tokenID env token in
        if afault s then (Inl ErrUnauthenticated, aasked s)
        else case GetSession i s of
          None \<Rightarrow> (Inl ErrUnauthenticated, aasked s)
        | Some (r, u) \<Rightarrow>
            (if session_over now r u then (Inl ErrUnauthenticated, aasked s)
             else
               (let expiry = store_Time (sr_ExpiresAt r);
                    limit = store_Time (sr_CreatedAt r) + SessionMaxLifetime;
                    further = (if now + SessionTTL < limit then now + SessionTTL else limit);
                    extend = (expiry - now < SessionTTL - hour \<and> expiry < further);
                    user = \<lparr>us_ID = sr_UserID r, us_Username = ur_Username u, us_Role = ur_Role u\<rparr>;
                    sess = \<lparr>se_User = user, se_ExpiresAt = (if extend then further else expiry),
                            se_Token = None, se_Extended = extend\<rparr>;
                    s = aasked s
                in (Inr sess,
                    if \<not> extend then s
                    else if afault s then aasked s
                    else (aasked s)\<lparr>a_sessions := tput i (r\<lparr>sr_ExpiresAt := unix_milli further\<rparr>) (a_sessions s)\<rparr>)))))"

definition CheckSession :: "auth_env \<Rightarrow> instant \<Rightarrow> string \<Rightarrow> auth \<Rightarrow> auth_error option \<times> auth" where
  "CheckSession env now token s =
    (if token = [] \<or> 100 < length token then (Some ErrUnauthenticated, s)
     else if afault s then (Some ErrUnauthenticated, aasked s)
     else case GetSession (env_tokenID env token) s of
       None \<Rightarrow> (Some ErrUnauthenticated, aasked s)
     | Some (r, u) \<Rightarrow> (if session_over now r u then Some ErrUnauthenticated else None, aasked s))"

definition Logout :: "auth_env \<Rightarrow> string \<Rightarrow> auth \<Rightarrow> auth_error option \<times> auth" where
  "Logout env token s =
    (if afault s then (Some auth_db_error, aasked s)
     else (None, (aasked s)\<lparr>a_sessions := tdel (env_tokenID env token) (a_sessions s)\<rparr>))"

section \<open>The first administrator\<close>

definition SetupRequired :: "auth \<Rightarrow> (auth_error, bool) result \<times> auth" where
  "SetupRequired s = (if afault s then Inl auth_db_error else Inr (a_users s = []), aasked s)"

text \<open>\<^verbatim>\<open>SetupCode\<close>: \<open>fresh\<close> is the code made of random bytes, \<open>writable\<close> says whether its file can
  be written.\<close>

definition SetupCode :: "string \<Rightarrow> bool \<Rightarrow> auth \<Rightarrow> (auth_error, string) result \<times> auth" where
  "SetupCode fresh writable s =
    (case SetupRequired s of
       (Inl e, s) \<Rightarrow> (Inl e, s)
     | (Inr required, s) \<Rightarrow>
         if \<not> required then (Inr [], s)
         else if a_code s \<noteq> [] then (Inr (a_code s), s)
         else
           (let stored = (case a_file s of None \<Rightarrow> [] | Some b \<Rightarrow> trim_space b) in
            if 16 \<le> length stored then (Inr stored, s\<lparr>a_code := stored\<rparr>)
            else if \<not> writable then (Inl (AuthError (OtherError (msg ''cannot write the setup code''))), s)
            else (Inr fresh, s\<lparr>a_file := Some (fresh @ [CHR 0x0A]), a_code := fresh\<rparr>)))"

definition checkSetupCode :: "auth_env \<Rightarrow> string \<Rightarrow> bool \<Rightarrow> string \<Rightarrow> auth \<Rightarrow> auth_error option \<times> auth" where
  "checkSetupCode env fresh writable given s =
    (case SetupCode fresh writable s of
       (Inl e, s) \<Rightarrow> (Some e, s)
     | (Inr code, s) \<Rightarrow>
         (let given = env_upper env (filter (\<lambda>c. c \<noteq> CHR '' '') (trim_space given))
          in (if code = [] \<or> code \<noteq> given then Some ErrSetupCode else None, s)))"

text \<open>What a call meets from outside: the random values, the new identifier, whether the limiter of
  hashes is busy.\<close>

record setup_input =
  si_username :: string
  si_password :: string
  si_code :: string
  si_ip :: string
  si_ua :: string
  si_fresh :: string
  si_writable :: bool
  si_busy :: bool
  si_newid :: string
  si_raw :: string

definition create_admin :: "auth_env \<Rightarrow> instant \<Rightarrow> setup_input \<Rightarrow> auth \<Rightarrow> (auth_error, string \<times> Session) result \<times> auth" where
  "create_admin env now x s =
    (if afault s then (Inl auth_db_error, aasked s)
     else if a_users s \<noteq> [] then (Inl ErrSetupDone, aasked s)
     else
       (let s = aasked s in
        if afault s then (Inl auth_db_error, aasked s)
        else
          (let s = (aasked s)\<lparr>a_users := [(si_newid x,
                     \<lparr>ur_Username = si_username x, ur_PasswordHash = env_hash env (si_password x), ur_Role = ''admin'',
                      ur_Disabled = False, ur_CreatedAt = unix_milli now\<rparr>)], a_code := [], a_file := None\<rparr>
           in newSession env now (si_raw x) \<lparr>us_ID = si_newid x, us_Username = si_username x, us_Role = ''admin''\<rparr>
                (si_ip x) (si_ua x) (audit ''auth.setup'' s))))"

definition Setup :: "auth_env \<Rightarrow> instant \<Rightarrow> setup_input \<Rightarrow> auth \<Rightarrow> (auth_error, string \<times> Session) result \<times> auth" where
  "Setup env now x s =
    (if ValidateUsername ''username'' (si_username x) \<noteq> []
       then (Inl (AuthError (ValidationError (ValidateUsername ''username'' (si_username x)))), s)
     else case ValidatePanelPassword (si_password x) of
       Some e \<Rightarrow> (Inl (AuthError e), s)
     | None \<Rightarrow>
         (case SetupRequired s of
            (Inl e, s) \<Rightarrow> (Inl e, s)
          | (Inr required, s) \<Rightarrow>
              if \<not> required then (Inl ErrSetupDone, s)
              else (case allowIP (env_v6 env) now (si_ip x) (a_guard s) of
                (Some d, g) \<Rightarrow> (Inl (RateLimitError d), s\<lparr>a_guard := g\<rparr>)
              | (None, g) \<Rightarrow>
                  (case checkSetupCode env (si_fresh x) (si_writable x) (si_code x) (s\<lparr>a_guard := g\<rparr>) of
                     (Some e, s) \<Rightarrow> (Inl e, s)
                   | (None, s) \<Rightarrow>
                       if si_busy x then (Inl ErrBusy, s) else create_admin env now x s))))"

section \<open>Signing in\<close>

definition GetUserByUsername :: "string \<Rightarrow> auth \<Rightarrow> (string \<times> user_row) option" where
  "GetUserByUsername name s = List.find (\<lambda>(i, u). same_name (ur_Username u) name) (a_users s)"

definition login_key :: "auth_env \<Rightarrow> string \<Rightarrow> string \<Rightarrow> string" where
  "login_key env username ip = to_lower (env_lower env) username @ ''|'' @ ip"

definition Login ::
  "auth_env \<Rightarrow> instant \<Rightarrow> string \<Rightarrow> string \<Rightarrow> string \<Rightarrow> string \<Rightarrow> bool \<Rightarrow> string \<Rightarrow> auth \<Rightarrow>
   (auth_error, string \<times> Session) result \<times> auth" where
  "Login env now username password ip ua busy raw s =
    (let key = login_key env username ip in
     case locked now key (a_guard s) of
       Some until_t \<Rightarrow> (Inl (LockedError until_t), s)
     | None \<Rightarrow>
         (case allowIP (env_v6 env) now ip (a_guard s) of
            (Some d, g) \<Rightarrow> (Inl (RateLimitError d), s\<lparr>a_guard := g\<rparr>)
          | (None, g) \<Rightarrow>
              (let s = s\<lparr>a_guard := g\<rparr>;
                   found = (if afault s then None else GetUserByUsername username s);
                   s = aasked s;
                   failed = s\<lparr>a_guard := fail now key (a_guard s)\<rparr>
               in if busy then (Inl ErrBusy, s)
                  else case found of
                    None \<Rightarrow> (Inl ErrUnauthenticated, failed)
                  | Some (i, u) \<Rightarrow>
                      if \<not> env_verify env (ur_PasswordHash u) password \<or> ur_Disabled u
                        then (Inl ErrUnauthenticated, audit ''auth.login_failed'' failed)
                      else newSession env now raw \<lparr>us_ID = i, us_Username = ur_Username u, us_Role = ur_Role u\<rparr> ip ua
                             (audit ''auth.login'' (s\<lparr>a_guard := success (env_v6 env) key ip (a_guard s)\<rparr>)))))"

section \<open>API tokens\<close>

definition MaxTokenDays :: int where "MaxTokenDays = 3650"

definition CanWrite :: "TokenInfo \<Rightarrow> bool" where
  "CanWrite t = contains (ti_Scopes t) ''write''"

fun normalizeScopes_loop :: "bool \<Rightarrow> string list \<Rightarrow> (message, bool) result" where
  "normalizeScopes_loop w [] = Inr w"
| "normalizeScopes_loop w (sc # scs) =
    (if sc = ''read'' then normalizeScopes_loop w scs
     else if sc = ''write'' then normalizeScopes_loop True scs
     else Inl (msgf ''unknown scope %s; use read or write'' [AStr sc]))"

definition normalizeScopes :: "string list \<Rightarrow> (message, string list) result" where
  "normalizeScopes scs =
    (case normalizeScopes_loop False scs of
       Inl e \<Rightarrow> Inl e
     | Inr w \<Rightarrow> Inr (if w then [''read'', ''write''] else [''read'']))"

record token_input =
  tn_Name :: string
  tn_Scopes :: "string list"
  tn_ExpiresInDays :: "int option"

definition token_errors :: "token_input \<Rightarrow> string \<Rightarrow> field_error list" where
  "token_errors x name =
    (let v = (if name = [] then add_field ''name'' (msg ''is required'') []
              else if 64 < rune_count name then add_field ''name'' (msg ''must be at most 64 characters'') []
              else add_if (has_control name) ''name'' (msg ''must not contain control characters'') []);
         v = (case normalizeScopes (tn_Scopes x) of Inl e \<Rightarrow> add_field ''scopes'' e v | Inr _ \<Rightarrow> v)
     in (case tn_ExpiresInDays x of None \<Rightarrow> v
         | Some d \<Rightarrow> add_if (d < 1 \<or> d > MaxTokenDays) ''expires_in_days''
             (msgf ''must be between 1 and %d, or empty for a token that does not expire'' [AInt MaxTokenDays]) v))"

text \<open>\<open>add_days\<close> is \<^verbatim>\<open>Time.AddDate\<close> in the node's time zone; \<open>secret\<close> is the prefix and the random part.\<close>

definition CreateToken ::
  "auth_env \<Rightarrow> (instant \<Rightarrow> int \<Rightarrow> instant) \<Rightarrow> instant \<Rightarrow> string \<Rightarrow> string \<Rightarrow> string \<Rightarrow> token_input \<Rightarrow> auth \<Rightarrow>
   (auth_error, token_row \<times> string) result \<times> auth" where
  "CreateToken env add_days now newid secret actor x s =
    (if actor = [] then (Inl ErrUnauthenticated, s)
     else
       (let name = trim_space (tn_Name x); v = token_errors x name in
        if v \<noteq> [] then (Inl (AuthError (ValidationError v)), s)
        else
          (let expires = (case tn_ExpiresInDays x of None \<Rightarrow> zero_time | Some d \<Rightarrow> add_days now d);
               scopes = (case normalizeScopes (tn_Scopes x) of Inl _ \<Rightarrow> [] | Inr l \<Rightarrow> l);
               r = \<lparr>tr_UserID = actor, tr_Name = name, tr_TokenHash = env_tokenID env secret,
                    tr_Prefix = take 12 secret, tr_Scopes = scopes, tr_ExpiresAt = NullMillis expires,
                    tr_LastUsedAt = None, tr_LastUsedIp = [], tr_CreatedAt = unix_milli now\<rparr>;
               unique = (tget (a_tokens s) newid = None \<and>
                 \<not> list_ex (\<lambda>(i, q). tr_TokenHash q = tr_TokenHash r \<or> (tr_UserID q = actor \<and> tr_Name q = name)) (a_tokens s))
           in if afault s then (Inl auth_db_error, aasked s)
              else if \<not> unique then
                (Inl (AuthError (conflict ''name'' (msgf ''you already have a token named %q'' [AStr name]))), aasked s)
              else (Inr (r, secret), audit ''token.create'' ((aasked s)\<lparr>a_tokens := tput newid r (a_tokens s)\<rparr>)))))"

definition RevokeToken :: "string \<Rightarrow> string \<Rightarrow> auth \<Rightarrow> auth_error option \<times> auth" where
  "RevokeToken actor i s =
    (let own = (\<lambda>s. case tget (a_tokens s) i of None \<Rightarrow> False | Some r \<Rightarrow> tr_UserID r = actor) in
     if afault s then (Some auth_db_error, aasked s)
     else if \<not> own s then (Some (AuthError ErrNotFound), aasked s)
     else
       (let s = aasked s in
        if afault s then (Some auth_db_error, aasked s)
        else (None, audit ''token.revoke'' ((aasked s)\<lparr>a_tokens := tdel i (a_tokens s)\<rparr>))))"

definition GetAPITokenByHash :: "string \<Rightarrow> auth \<Rightarrow> (string \<times> token_row \<times> user_row) option" where
  "GetAPITokenByHash h s =
    (case List.find (\<lambda>(i, r). tr_TokenHash r = h) (a_tokens s) of
       None \<Rightarrow> None
     | Some (i, r) \<Rightarrow> (case tget (a_users s) (tr_UserID r) of None \<Rightarrow> None | Some u \<Rightarrow> Some (i, r, u)))"

definition token_over :: "instant \<Rightarrow> token_row \<Rightarrow> user_row \<Rightarrow> bool" where
  "token_over now r u =
    ((NullTime (tr_ExpiresAt r) \<noteq> zero_time \<and> NullTime (tr_ExpiresAt r) < now) \<or> ur_Disabled u)"

definition bearer_form :: "string \<Rightarrow> bool" where
  "bearer_form secret = (has_prefix ''mvt_'' secret \<and> length secret \<le> 100)"

definition AuthenticateToken :: "auth_env \<Rightarrow> instant \<Rightarrow> string \<Rightarrow> string \<Rightarrow> auth \<Rightarrow> (auth_error, Session) result \<times> auth" where
  "AuthenticateToken env now secret ip s =
    (if \<not> bearer_form secret then (Inl ErrInvalidToken, s)
     else if afault s then (Inl ErrInvalidToken, aasked s)
     else case GetAPITokenByHash (env_tokenID env secret) s of
       None \<Rightarrow> (Inl ErrInvalidToken, aasked s)
     | Some (i, r, u) \<Rightarrow>
         (if token_over now r u then (Inl ErrInvalidToken, aasked s)
          else
            (let s = aasked s; used = NullTime (tr_LastUsedAt r);
                 touch = (used = zero_time \<or> 60 * 10 ^ 9 < now - used);
                 t = (if \<not> touch then s else if afault s then aasked s
                      else (aasked s)\<lparr>a_tokens := tput i (r\<lparr>tr_LastUsedAt := NullMillis now, tr_LastUsedIp := ip\<rparr>) (a_tokens s)\<rparr>)
             in (Inr \<lparr>se_User = \<lparr>us_ID = tr_UserID r, us_Username = ur_Username u, us_Role = ur_Role u\<rparr>,
                      se_ExpiresAt = zero_time,
                      se_Token = Some \<lparr>ti_ID = i, ti_Name = tr_Name r, ti_Scopes = tr_Scopes r,
                                       ti_ExpiresAt = NullTime (tr_ExpiresAt r)\<rparr>,
                      se_Extended = False\<rparr>, t))))"

definition CheckToken :: "auth_env \<Rightarrow> instant \<Rightarrow> string \<Rightarrow> auth \<Rightarrow> auth_error option \<times> auth" where
  "CheckToken env now secret s =
    (if \<not> bearer_form secret then (Some ErrInvalidToken, s)
     else if afault s then (Some ErrInvalidToken, aasked s)
     else case GetAPITokenByHash (env_tokenID env secret) s of
       None \<Rightarrow> (Some ErrInvalidToken, aasked s)
     | Some (i, r, u) \<Rightarrow> (if token_over now r u then Some ErrInvalidToken else None, aasked s))"

section \<open>Properties of sign-in\<close>

text \<open>What has to hold for a sign-in: the pair is not locked, the address has an attempt left, the limiter
  of hashes has room, both statements succeed, the account exists, is enabled, its password verifies
  and the number drawn is not taken.\<close>

definition may_sign_in ::
  "auth_env \<Rightarrow> instant \<Rightarrow> string \<Rightarrow> string \<Rightarrow> string \<Rightarrow> bool \<Rightarrow> string \<Rightarrow> auth \<Rightarrow> string \<Rightarrow> user_row \<Rightarrow> bool" where
  "may_sign_in env now username password ip busy raw s i u =
    (locked now (login_key env username ip) (a_guard s) = None \<and>
     fst (allowIP (env_v6 env) now ip (a_guard s)) = None \<and> \<not> busy \<and> \<not> afault s \<and> \<not> afault (aasked s) \<and>
     tget (a_sessions s) (env_tokenID env raw) = None \<and> GetUserByUsername username s = Some (i, u) \<and>
     env_verify env (ur_PasswordHash u) password \<and> \<not> ur_Disabled u)"

text \<open>C38. A sign-in that may succeed does, for that account and no other, and stores one session of it that
  ends in twelve hours; one that may not fails and leaves the sessions as they are.\<close>

theorem Login_iff:
  "case Login env now username password ip ua busy raw s of
     (Inr (token, sess), t) \<Rightarrow>
       (\<exists>i u. may_sign_in env now username password ip busy raw s i u \<and> token = raw \<and>
          se_User sess = \<lparr>us_ID = i, us_Username = ur_Username u, us_Role = ur_Role u\<rparr> \<and>
          se_ExpiresAt sess = now + SessionTTL \<and>
          a_sessions t = tput (env_tokenID env raw)
            \<lparr>sr_UserID = i, sr_ExpiresAt = unix_milli (now + SessionTTL), sr_Ip = ip, sr_UserAgent = take 200 ua,
             sr_CreatedAt = unix_milli now\<rparr> (a_sessions s))
   | (Inl e, t) \<Rightarrow> (\<nexists>i u. may_sign_in env now username password ip busy raw s i u) \<and> a_sessions t = a_sessions s"
proof -
  obtain w g where a: "allowIP (env_v6 env) now ip (a_guard s) = (w, g)" by fastforce
  have f: "afault (s\<lparr>a_guard := h\<rparr>) = afault s" "aasked (s\<lparr>a_guard := h\<rparr>) = (aasked s)\<lparr>a_guard := h\<rparr>"
    "afault (audit x s') = afault s'" "GetUserByUsername username (s\<lparr>a_guard := h\<rparr>) = GetUserByUsername username s" for h x s'
    by (simp_all add: afault_def aasked_def audit_def GetUserByUsername_def)
  have f2: "afault ((aasked s)\<lparr>a_guard := h\<rparr>) = afault (aasked s)" for h by (simp add: afault_def)
  show ?thesis
    by (cases "locked now (login_key env username ip) (a_guard s)"; cases w; cases "afault s";
        cases "GetUserByUsername username s")
      (auto simp: Login_def may_sign_in_def Let_def a f f2 newSession_def split: if_splits)
qed

lemma GetSession_asked [simp]: "GetSession i (aasked s) = GetSession i s"
  by (simp add: GetSession_def split: option.split)

section \<open>The life of a session\<close>

text \<open>\<^verbatim>\<open>DeleteExpiredSessions\<close>, of the retention of \<^verbatim>\<open>service.go\<close>.\<close>

definition DeleteExpiredSessions :: "instant \<Rightarrow> auth \<Rightarrow> auth" where
  "DeleteExpiredSessions now s =
    (if afault s then aasked s
     else (aasked s)\<lparr>a_sessions := fold tdel
        (map fst (filter (\<lambda>(i, r). sr_ExpiresAt r < unix_milli now) (a_sessions s))) (a_sessions s)\<rparr>)"

text \<open>The calls of the component in the order they are made, each with what it meets from outside.\<close>

datatype sign_call =
    DoAuthenticate instant string
  | DoCheckSession instant string
  | DoLogout string
  | DoLogin instant string string string string bool string
  | DoSetup instant setup_input
  | DoSetupCode string bool
  | DoCreateToken "instant \<Rightarrow> int \<Rightarrow> instant" instant string string string token_input
  | DoRevokeToken string string
  | DoAuthenticateToken instant string string
  | DoCheckToken instant string
  | DoRetention instant

fun sign_do :: "auth_env \<Rightarrow> sign_call \<Rightarrow> auth \<Rightarrow> auth" where
  "sign_do env (DoAuthenticate now token) s = snd (Authenticate env now token s)"
| "sign_do env (DoCheckSession now token) s = snd (CheckSession env now token s)"
| "sign_do env (DoLogout token) s = snd (Logout env token s)"
| "sign_do env (DoLogin now username password ip ua busy raw) s = snd (Login env now username password ip ua busy raw s)"
| "sign_do env (DoSetup now x) s = snd (Setup env now x s)"
| "sign_do env (DoSetupCode fresh writable) s = snd (SetupCode fresh writable s)"
| "sign_do env (DoCreateToken add_days now newid secret actor x) s = snd (CreateToken env add_days now newid secret actor x s)"
| "sign_do env (DoRevokeToken actor i) s = snd (RevokeToken actor i s)"
| "sign_do env (DoAuthenticateToken now secret ip) s = snd (AuthenticateToken env now secret ip s)"
| "sign_do env (DoCheckToken now secret) s = snd (CheckToken env now secret s)"
| "sign_do env (DoRetention now) s = DeleteExpiredSessions now s"

fun token_drawn :: "sign_call \<Rightarrow> string option" where
  "token_drawn (DoLogin now username password ip ua busy raw) = Some raw"
| "token_drawn (DoSetup now x) = Some (si_raw x)"
| "token_drawn _ = None"

definition sign_run :: "auth_env \<Rightarrow> sign_call list \<Rightarrow> auth \<Rightarrow> auth" where
  "sign_run env cs s = fold (sign_do env) cs s"

text \<open>The row at an identifier, when it is there, keeps the time it was opened.\<close>

definition opened_at :: "string \<Rightarrow> int \<Rightarrow> auth \<Rightarrow> bool" where
  "opened_at i c s = (case tget (a_sessions s) i of None \<Rightarrow> True | Some r \<Rightarrow> sr_CreatedAt r = c)"

lemma opened_same: "a_sessions t = a_sessions s \<Longrightarrow> opened_at i c s \<Longrightarrow> opened_at i c t"
  by (simp add: opened_at_def)

lemma opened_newSession:
  "opened_at i c s \<Longrightarrow> env_tokenID env raw \<noteq> i \<Longrightarrow> opened_at i c (snd (newSession env now raw u ip ua s))"
  by (auto simp: opened_at_def newSession_def Let_def split: if_splits)

lemma opened_Authenticate: "opened_at i c s \<Longrightarrow> opened_at i c (snd (Authenticate env now token s))"
  by (auto simp: opened_at_def Authenticate_def Let_def GetSession_def split: option.splits if_splits)

lemma opened_CheckSession: "opened_at i c s \<Longrightarrow> opened_at i c (snd (CheckSession env now token s))"
  by (auto simp: opened_at_def CheckSession_def split: option.splits if_splits)

lemma tget_tdels: "tget (fold tdel ks t) i = (if i \<in> set ks then None else tget t i)"
  by (induction ks arbitrary: t) auto

lemma opened_Logout: "opened_at i c s \<Longrightarrow> opened_at i c (snd (Logout env token s))"
  by (auto simp: opened_at_def Logout_def)

lemma opened_retention: "opened_at i c s \<Longrightarrow> opened_at i c (DeleteExpiredSessions now s)"
  by (simp add: opened_at_def DeleteExpiredSessions_def tget_tdels)

lemma opened_Login:
  assumes "opened_at i c s" "env_tokenID env raw \<noteq> i"
  shows "opened_at i c (snd (Login env now username password ip ua busy raw s))"
proof -
  obtain w g where a: "allowIP (env_v6 env) now ip (a_guard s) = (w, g)" by fastforce
  have n: "opened_at i c (snd (newSession env now raw u ip ua (audit act (aasked (s\<lparr>a_guard := g\<rparr>)\<lparr>a_guard := h\<rparr>))))" for u act h
    by (rule opened_newSession [OF opened_same [OF _ assms(1)] assms(2)]) simp
  show ?thesis
    by (cases "locked now (login_key env username ip) (a_guard s)"; cases w)
      (auto simp: Login_def Let_def a n intro!: opened_same [OF _ assms(1)] split: option.split)
qed

lemma opened_Setup:
  assumes "opened_at i c s" "env_tokenID env (si_raw x) \<noteq> i"
  shows "opened_at i c (snd (Setup env now x s))"
proof -
  have r: "SetupRequired s' = (q, t) \<Longrightarrow> a_sessions t = a_sessions s'" for s' q t
    by (auto simp: SetupRequired_def)
  have k: "checkSetupCode env (si_fresh x) (si_writable x) (si_code x) s' = (q, t) \<Longrightarrow> a_sessions t = a_sessions s'" for s' q t
    by (auto simp: checkSetupCode_def SetupCode_def SetupRequired_def Let_def split: prod.splits sum.splits if_splits)
  have c: "opened_at i c (snd (create_admin env now x s'))" if "a_sessions s' = a_sessions s" for s'
    using opened_same [OF that assms(1)] by (auto simp: create_admin_def Let_def intro!: opened_newSession assms(2) intro: opened_same)
  show ?thesis
    by (auto simp: Setup_def assms(1) dest!: r k intro: c opened_same [OF _ assms(1)]
        split: option.split sum.split prod.split)
qed

lemma opened_tokens:
  "a_sessions (snd (CreateToken env add_days now newid secret actor x s)) = a_sessions s"
  "a_sessions (snd (RevokeToken actor j s)) = a_sessions s"
  "a_sessions (snd (AuthenticateToken env now secret ip s)) = a_sessions s"
  "a_sessions (snd (CheckToken env now secret s)) = a_sessions s"
  "a_sessions (snd (SetupCode fresh writable s)) = a_sessions s"
  by (simp_all add: CreateToken_def RevokeToken_def AuthenticateToken_def CheckToken_def SetupCode_def SetupRequired_def
      Let_def split: option.split prod.split)

lemma opened_do:
  "opened_at i c s \<Longrightarrow> (\<And>raw. token_drawn x = Some raw \<Longrightarrow> env_tokenID env raw \<noteq> i) \<Longrightarrow> opened_at i c (sign_do env x s)"
  by (cases x) (auto simp: opened_tokens intro: opened_Authenticate opened_CheckSession opened_Logout opened_Login
      opened_Setup opened_retention opened_same)

lemma opened_run:
  "opened_at i c s \<Longrightarrow> (\<And>x raw. x \<in> set cs \<Longrightarrow> token_drawn x = Some raw \<Longrightarrow> env_tokenID env raw \<noteq> i) \<Longrightarrow>
   opened_at i c (sign_run env cs s)"
proof (induction cs arbitrary: s)
  case (Cons x cs)
  from Cons.prems have "opened_at i c (sign_do env x s)" by (intro opened_do) auto
  then have "opened_at i c (sign_run env cs (sign_do env x s))" by (rule Cons.IH) (erule (1) Cons.prems(2) [OF list.set_intros(2)])
  then show ?case by (simp add: sign_run_def)
qed (simp add: sign_run_def)

lemma opened_over:
  assumes "opened_at (env_tokenID env token) c s" "store_Time c + SessionMaxLifetime < now"
  shows "fst (Authenticate env now token s) = Inl ErrUnauthenticated" "fst (CheckSession env now token s) = Some ErrUnauthenticated"
  using assms by (auto simp: opened_at_def Authenticate_def CheckSession_def Let_def GetSession_def session_over_def
      split: option.splits)

text \<open>C39. A session a request is accepted with is accepted for a WebSocket too, and its user is enabled;
  the request leaves an expiry that has not passed; and whatever calls come after it, uses of this and
  of other sessions, sign-ins, sign-outs and tokens, at any times, once seven days have passed since the session was opened
  every request and every check with it is refused, provided no later sign-in draws a token of the same
  identifier, a SHA-256 of 32 random bytes.\<close>

theorem session_lifetime:
  assumes "Authenticate env now token s = (Inr sess, t)"
  shows "fst (CheckSession env now token s) = None \<and> now \<le> se_ExpiresAt sess \<and>
    (\<exists>r u. GetSession (env_tokenID env token) s = Some (r, u) \<and> us_ID (se_User sess) = sr_UserID r \<and> \<not> ur_Disabled u \<and>
       now \<le> store_Time (sr_CreatedAt r) + SessionMaxLifetime \<and>
       (\<forall>cs later. (\<forall>x\<in>set cs. \<forall>raw. token_drawn x = Some raw \<longrightarrow> env_tokenID env raw \<noteq> env_tokenID env token) \<longrightarrow>
          store_Time (sr_CreatedAt r) + SessionMaxLifetime < later \<longrightarrow>
          fst (Authenticate env later token (sign_run env cs t)) = Inl ErrUnauthenticated \<and>
          fst (CheckSession env later token (sign_run env cs t)) = Some ErrUnauthenticated))"
proof -
  let ?i = "env_tokenID env token"
  have tok: "\<not> (token = [] \<or> 100 < length token)" "\<not> afault s"
    using assms by (auto simp: Authenticate_def Let_def split: if_splits)
  obtain r u where g: "GetSession ?i s = Some (r, u)"
    using assms tok by (cases "GetSession ?i s") (auto simp: Authenticate_def Let_def)
  have live: "\<not> session_over now r u"
    using assms tok g by (auto simp: Authenticate_def Let_def split: if_splits)
  have e: "now \<le> se_ExpiresAt sess" "us_ID (se_User sess) = sr_UserID r"
    using assms tok g live by (auto simp: Authenticate_def Let_def session_over_def split: if_splits)
  have "tget (a_sessions s) ?i = Some r"
    using g by (auto simp: GetSession_def split: option.splits)
  then have "opened_at ?i (sr_CreatedAt r) s" by (simp add: opened_at_def)
  then have o: "opened_at ?i (sr_CreatedAt r) t" using opened_Authenticate [of _ _ s env now token] assms by simp
  have "fst (CheckSession env now token s) = None"
    using tok g live by (simp add: CheckSession_def)
  moreover have "now \<le> store_Time (sr_CreatedAt r) + SessionMaxLifetime" "\<not> ur_Disabled u"
    using live by (auto simp: session_over_def)
  moreover note opened_over [OF opened_run [OF o]]
  ultimately show ?thesis using e g by (intro conjI exI [of _ r] exI [of _ u]) auto
qed

definition sample_env :: auth_env where
  "sample_env = \<lparr>env_v6 = (\<lambda>s. s), env_verify = (\<lambda>h p. h = p), env_hash = (\<lambda>p. p), env_tokenID = (\<lambda>t. t),
     env_lower = (\<lambda>r. r), env_upper = (\<lambda>s. s)\<rparr>"

definition sample_auth :: auth where
  "sample_auth = \<lparr>a_users = [(''U1'', \<lparr>ur_Username = ''admin'', ur_PasswordHash = ''pw'', ur_Role = ''admin'',
       ur_Disabled = False, ur_CreatedAt = 1\<rparr>)],
     a_sessions = [(''T'', \<lparr>sr_UserID = ''U1'', sr_ExpiresAt = 43200001, sr_Ip = [], sr_UserAgent = [], sr_CreatedAt = 1\<rparr>)],
     a_tokens = [], a_faults = [], a_guard = newLoginGuard, a_code = [], a_file = None, a_audit = []\<rparr>"

theorem session_lifetime_witness:
  "fst (CheckSession sample_env (10 ^ 9) ''T'' sample_auth) = None \<and>
   fst (Authenticate sample_env (700000 * 10 ^ 9) ''T'' (sign_run sample_env
     [DoAuthenticate (30000 * 10 ^ 9) ''T'', DoLogin (30001 * 10 ^ 9) ''admin'' ''pw'' ''10.0.0.1'' [] False ''R'']
     (snd (Authenticate sample_env (10 ^ 9) ''T'' sample_auth)))) = Inl ErrUnauthenticated"
proof -
  have g: "GetSession ''T'' sample_auth = Some (snd (hd (a_sessions sample_auth)), snd (hd (a_users sample_auth)))"
    by (simp add: sample_auth_def GetSession_def)
  have c: "store_Time (sr_CreatedAt (snd (hd (a_sessions sample_auth)))) + SessionMaxLifetime < 700000 * 10 ^ 9"
    by (simp add: sample_auth_def store_Time_def SessionMaxLifetime_def)
  have "is_ok (fst (Authenticate sample_env (10 ^ 9) ''T'' sample_auth))"
    by (simp add: Authenticate_def Let_def sample_auth_def sample_env_def afault_def GetSession_def
        session_over_def store_Time_def SessionMaxLifetime_def)
  then obtain sess t where t: "Authenticate sample_env (10 ^ 9) ''T'' sample_auth = (Inr sess, t)"
    by (metis is_ok_iff prod.collapse)
  have i: "env_tokenID sample_env x = x" for x by (simp add: sample_env_def)
  let ?cs = "[DoAuthenticate (30000 * 10 ^ 9) ''T'', DoLogin (30001 * 10 ^ 9) ''admin'' ''pw'' ''10.0.0.1'' [] False ''R'']"
  have n: "\<forall>x\<in>set ?cs. \<forall>raw. token_drawn x = Some raw \<longrightarrow> env_tokenID sample_env raw \<noteq> env_tokenID sample_env ''T''"
    by (simp add: i)
  have "fst (Authenticate sample_env later ''T'' (sign_run sample_env ?cs t)) = Inl ErrUnauthenticated"
    if "store_Time (sr_CreatedAt (snd (hd (a_sessions sample_auth)))) + SessionMaxLifetime < later" for later
    using session_lifetime [OF t] n that unfolding i g option.inject by blast
  from this [OF c] show ?thesis unfolding t snd_conv by (rule conjI [OF conjunct1 [OF session_lifetime [OF t]]])
qed

lemma SetupRequired_users: "SetupRequired s = (r, t) \<Longrightarrow> a_users t = a_users s"
  by (auto simp: SetupRequired_def)

lemma checkSetupCode_users: "checkSetupCode env fresh w given s = (r, t) \<Longrightarrow> a_users t = a_users s"
  by (auto simp: checkSetupCode_def SetupCode_def SetupRequired_def Let_def split: prod.splits sum.splits if_splits)

lemma newSession_users: "newSession env now raw u ip ua s = (r, t) \<Longrightarrow> a_users t = a_users s"
  by (auto simp: newSession_def Let_def split: if_splits)

text \<open>The first-run setup creates the administrator once: it changes the users only when there were
  none, then there is exactly one, with the administrator's role and the given name, and once a
  user exists every later setup fails and changes no user.\<close>

theorem Setup_once:
  "if a_users s \<noteq> []
   then \<not> is_ok (fst (Setup env now x s)) \<and> a_users (snd (Setup env now x s)) = a_users s
   else a_users (snd (Setup env now x s)) = [] \<or>
     (\<exists>u. a_users (snd (Setup env now x s)) = [(si_newid x, u)] \<and> ur_Role u = ''admin'' \<and>
        ur_Username u = si_username x)"
proof -
  have c: "a_users (snd (create_admin env now x s')) = a_users s' \<or>
      (a_users s' = [] \<and> (\<exists>u. a_users (snd (create_admin env now x s')) = [(si_newid x, u)] \<and> ur_Role u = ''admin'' \<and>
      ur_Username u = si_username x))" for s'
    by (auto simp: create_admin_def Let_def newSession_def split: if_splits)
  have q: "SetupRequired s' = (Inr True, t) \<Longrightarrow> a_users s' = []" for s' t
    by (auto simp: SetupRequired_def split: if_splits)
  show ?thesis
  proof (cases "a_users s = []")
    case True
    then show ?thesis
      using c by (auto simp: Setup_def dest!: SetupRequired_users checkSetupCode_users
          split: option.split sum.split prod.split) (metis (no_types, lifting))
  next
    case False
    then show ?thesis
      by (auto simp: Setup_def SetupRequired_def split: option.split)
  qed
qed

lemma find_tput_new:
  "k \<notin> set (tkeys t) \<Longrightarrow> \<forall>q\<in>set t. \<not> P q \<Longrightarrow> P (k, v) \<Longrightarrow> List.find P (tput k v t) = Some (k, v)"
  by (induction k v t rule: tput.induct) (auto simp: tkeys_def)

lemma normalizeScopes_loop_ok:
  "normalizeScopes_loop w scs = Inr v \<Longrightarrow> v = (w \<or> ''write'' \<in> set scs) \<and> set scs \<subseteq> {''read'', ''write''}"
  by (induction w scs rule: normalizeScopes_loop.induct) (auto split: if_splits)

lemma normalizeScopes_write:
  "normalizeScopes scs = Inr l \<Longrightarrow> (''write'' \<in> set l \<longleftrightarrow> ''write'' \<in> set scs) \<and> ''read'' \<in> set l \<and> set l \<subseteq> {''read'', ''write''}"
  by (auto simp: normalizeScopes_def dest: normalizeScopes_loop_ok split: sum.splits if_splits)

text \<open>The secret of a new token signs its owner in until it expires, with exactly the rights asked
  for: it may write when the write scope was asked for, and only then.\<close>

theorem token_grants:
  assumes c: "CreateToken env add_days now newid secret actor x s = (Inr (r, secret'), t)"
    and u: "tget (a_users s) actor = Some u" "\<not> token_over later r u" "\<not> afault t" "bearer_form secret"
  shows "secret' = secret \<and>
    (\<exists>sess tok. fst (AuthenticateToken env later secret ip t) = Inr sess \<and> us_ID (se_User sess) = actor \<and>
       se_Token sess = Some tok \<and> (CanWrite tok \<longleftrightarrow> ''write'' \<in> set (tn_Scopes x)) \<and>
       set (ti_Scopes tok) \<subseteq> {''read'', ''write''})"
proof -
  have v: "token_errors x (trim_space (tn_Name x)) = []" "actor \<noteq> []" "\<not> afault s"
    using c by (auto simp: CreateToken_def Let_def split: if_splits)
  then obtain l where l: "normalizeScopes (tn_Scopes x) = Inr l"
    by (cases "normalizeScopes (tn_Scopes x)") (auto simp: token_errors_def Let_def split: option.splits if_splits)
  have new: "tget (a_tokens s) newid = None" "\<forall>q\<in>set (a_tokens s). tr_TokenHash (snd q) \<noteq> env_tokenID env secret"
    and r: "tr_TokenHash r = env_tokenID env secret" "tr_UserID r = actor" "tr_Scopes r = l" "secret' = secret"
    and t: "a_tokens t = tput newid r (a_tokens s)" "a_users t = a_users s"
    using c v l by (auto simp: CreateToken_def Let_def list_ex_iff audit_def split: if_splits)
  have "List.find (\<lambda>(i, q). tr_TokenHash q = env_tokenID env secret) (a_tokens t) = Some (newid, r)"
    unfolding t using new r by (intro find_tput_new) (auto simp: tget_None_iff)
  then have "GetAPITokenByHash (env_tokenID env secret) t = Some (newid, r, u)"
    using u(1) r t by (simp add: GetAPITokenByHash_def)
  then show ?thesis
    using u r normalizeScopes_write [OF l] by (simp add: AuthenticateToken_def Let_def CanWrite_def)
qed

definition ask_write :: token_input where
  "ask_write = \<lparr>tn_Name = ''ci'', tn_Scopes = [''write''], tn_ExpiresInDays = None\<rparr>"

theorem token_grants_witness:
  "\<exists>sess tok. fst (AuthenticateToken sample_env 9 ''mvt_0123456789'' [] (snd (CreateToken sample_env (\<lambda>t d. t) 5 ''K1''
      ''mvt_0123456789'' ''U1'' ask_write sample_auth))) = Inr sess \<and> se_Token sess = Some tok \<and> CanWrite tok"
proof -
  let ?c = "CreateToken sample_env (\<lambda>t d. t) 5 ''K1'' ''mvt_0123456789'' ''U1'' ask_write sample_auth"
  have n: "normalizeScopes [''write''] = Inr [''read'', ''write'']" by (simp add: normalizeScopes_def)
  have tr: "trim_space ''ci'' = ''ci''" by (rule trim_space_id, rule trimmed_graphic) (simp add: byte_def)
  have v: "token_errors ask_write ''ci'' = []"
    by (simp add: token_errors_def ask_write_def n ascii_eval)
  obtain r where r: "fst ?c = Inr (r, ''mvt_0123456789'')" "tr_ExpiresAt r = None"
    using v tr by (simp add: CreateToken_def Let_def ask_write_def n sample_auth_def afault_def NullMillis_def)
  have "tget (a_users sample_auth) ''U1'' = Some (snd (hd (a_users sample_auth)))"
    "\<not> ur_Disabled (snd (hd (a_users sample_auth)))" by (simp_all add: sample_auth_def)
  moreover have "\<not> afault (snd ?c)"
    using v tr by (simp add: CreateToken_def Let_def ask_write_def n sample_auth_def afault_def audit_def aasked_def)
  ultimately have "\<exists>sess tok. fst (AuthenticateToken sample_env 9 ''mvt_0123456789'' [] (snd ?c)) = Inr sess \<and>
      us_ID (se_User sess) = ''U1'' \<and> se_Token sess = Some tok \<and>
      (CanWrite tok \<longleftrightarrow> ''write'' \<in> set (tn_Scopes ask_write)) \<and> set (ti_Scopes tok) \<subseteq> {''read'', ''write''}"
    using token_grants [of sample_env "\<lambda>t d. t" 5 "''K1''" "''mvt_0123456789''" "''U1''" ask_write sample_auth r
        "''mvt_0123456789''" "snd ?c" "snd (hd (a_users sample_auth))" 9 "[]"] r
    by (simp add: prod_eq_iff token_over_def NullTime_def bearer_form_def has_prefix_def)
  then show ?thesis by (auto simp: ask_write_def)
qed

section \<open>The limiter of password hashes\<close>

text \<open>A call of \<^verbatim>\<open>do\<close> arrives, is refused or waits for a slot, and gives its place back in a later
  step: the counter is not taken back in the step that refuses.\<close>

record hashLimiter =
  hl_pending :: nat
  hl_refused :: nat
  hl_waiting :: nat
  hl_running :: nat

definition maxConcurrentHashes :: nat where "maxConcurrentHashes = 2"
definition maxPendingHashes :: nat where "maxPendingHashes = 16"

definition newHashLimiter :: hashLimiter where
  "newHashLimiter = \<lparr>hl_pending = 0, hl_refused = 0, hl_waiting = 0, hl_running = 0\<rparr>"

definition hash_arrive :: "hashLimiter \<Rightarrow> hashLimiter" where
  "hash_arrive h =
    (let p = hl_pending h + 1 in
     if maxPendingHashes < p then h\<lparr>hl_pending := p, hl_refused := hl_refused h + 1\<rparr>
     else h\<lparr>hl_pending := p, hl_waiting := hl_waiting h + 1\<rparr>)"

inductive hash_step :: "hashLimiter \<Rightarrow> hashLimiter \<Rightarrow> bool" where
  "hash_step h (hash_arrive h)"
| "0 < hl_refused h \<Longrightarrow> hash_step h (h\<lparr>hl_pending := hl_pending h - 1, hl_refused := hl_refused h - 1\<rparr>)"
| "0 < hl_waiting h \<Longrightarrow> hl_running h < maxConcurrentHashes \<Longrightarrow>
   hash_step h (h\<lparr>hl_waiting := hl_waiting h - 1, hl_running := hl_running h + 1\<rparr>)"
| "0 < hl_waiting h \<Longrightarrow> hash_step h (h\<lparr>hl_pending := hl_pending h - 1, hl_waiting := hl_waiting h - 1\<rparr>)"
| "0 < hl_running h \<Longrightarrow> hash_step h (h\<lparr>hl_pending := hl_pending h - 1, hl_running := hl_running h - 1\<rparr>)"

definition hash_ok :: "hashLimiter \<Rightarrow> bool" where
  "hash_ok h = (hl_pending h = hl_refused h + hl_waiting h + hl_running h \<and>
     hl_running h \<le> maxConcurrentHashes \<and> hl_waiting h + hl_running h \<le> maxPendingHashes)"

interpretation hl: machine newHashLimiter hash_step hash_ok
proof
  show "hash_ok newHashLimiter" by (simp add: hash_ok_def newHashLimiter_def)
  show "hash_ok h \<Longrightarrow> hash_step h h' \<Longrightarrow> hash_ok h'" for h h'
    by (auto elim!: hash_step.cases simp: hash_ok_def hash_arrive_def Let_def)
qed

text \<open>However sign-ins interleave, at most two password hashes run at once and at most sixteen
  calls run or wait, so the memory they take is bounded.\<close>

theorem hashes_bounded:
  assumes "reach hash_step newHashLimiter h"
  shows "hl_running h \<le> 2 \<and> hl_waiting h + hl_running h \<le> 16"
  using hl.inv_reachable [OF assms] by (simp add: hash_ok_def maxConcurrentHashes_def maxPendingHashes_def)

theorem hashes_bounded_witness: "hl_running (hash_arrive newHashLimiter) \<le> 2"
proof -
  have "reach hash_step newHashLimiter (hash_arrive newHashLimiter)"
    by (rule reach_step [OF reach_refl], rule hash_step.intros)
  then show ?thesis using hashes_bounded by blast
qed

end
