(* ===== verification/Bulk.thy ===== *)
theory Bulk
  imports Domain_Network Domain_Camera
begin

text \<open>
  \<^verbatim>\<open>backend/internal/app/bulk.go\<close>: the filter of the camera list, the selection of a bulk
  action, the name of a copy and the search of the next free address of a subnet. Lower
  case and case folding beyond ASCII are arguments.
\<close>

section \<open>The filter\<close>

record CameraFilter =
  cf_Query :: string
  cf_State :: string
  cf_Profile :: string
  cf_Tag :: string

text \<open>The fields of a camera the filter reads.\<close>

record camera_fields =
  cv_Name :: string
  cv_IP :: string
  cv_MAC :: string
  cv_Serial :: string
  cv_Tags :: "string list"
  cv_State :: string
  cv_ProfileID :: string
  cv_ProfileVersion :: string

definition Match :: "(string \<Rightarrow> string \<Rightarrow> bool) \<Rightarrow> (rune \<Rightarrow> rune) \<Rightarrow> CameraFilter \<Rightarrow> camera_fields \<Rightarrow> bool" where
  "Match fold_eq uni f c =
    (if cf_State f \<noteq> [] \<and> cv_State c \<noteq> cf_State f then False
     else if cf_Profile f \<noteq> [] \<and> cv_ProfileID c \<noteq> cf_Profile f \<and>
       cv_ProfileID c @ ''@'' @ cv_ProfileVersion c \<noteq> cf_Profile f then False
     else if cf_Tag f \<noteq> [] \<and> \<not> list_ex (\<lambda>t. fold_eq t (cf_Tag f)) (cv_Tags c) then False
     else
       (let q = to_lower uni (trim_space (cf_Query f)) in
        if q \<noteq> [] then
          list_ex (\<lambda>s. contains_sub q (to_lower uni s)) ([cv_Name c, cv_IP c, cv_MAC c, cv_Serial c] @ cv_Tags c)
        else True))"

section \<open>Bulk actions\<close>

datatype bulk_action = BulkStart | BulkStop | BulkRestart | BulkClone | BulkDelete | BulkOther string

definition MaxBulkCameras :: nat where "MaxBulkCameras = 200"

fun bulk_ids :: "string set \<Rightarrow> string list \<Rightarrow> string list" where
  "bulk_ids seen [] = []"
| "bulk_ids seen (i # ids) =
    (if i \<noteq> [] \<and> i \<notin> seen then i # bulk_ids (insert i seen) ids else bulk_ids seen ids)"

text \<open>Every operation is a goroutine behind a semaphore of four (of one for clones): they begin in
  some order \<open>order\<close> of the positions, and each stores its result at its own. \<open>run\<close> is the camera
  operation, taken as one step.\<close>

definition bulk_run :: "(string \<Rightarrow> 's \<Rightarrow> 'r \<times> 's) \<Rightarrow> string list \<Rightarrow> nat list \<Rightarrow> 's \<Rightarrow> 'r option list \<times> 's" where
  "bulk_run run ids order s =
    fold (\<lambda>i (out, s). case run (ids ! i) s of (r, s') \<Rightarrow> (out[i := Some r], s')) order (replicate (length ids) None, s)"

definition BulkCameras ::
  "(bulk_action \<Rightarrow> string \<Rightarrow> 's \<Rightarrow> 'r \<times> 's) \<Rightarrow> (nat \<Rightarrow> nat list) \<Rightarrow> bulk_action \<Rightarrow> string list \<Rightarrow> 's \<Rightarrow>
   (error, (string \<times> 'r option) list) result \<times> 's" where
  "BulkCameras op schedule action ids0 s =
    (case action of
       BulkOther _ \<Rightarrow> (Inl (invalid ''action'' (msg ''must be start, stop, restart, clone or delete'')), s)
     | _ \<Rightarrow>
         (let ids = bulk_ids {} ids0 in
          if ids = [] then (Inl (invalid ''ids'' (msg ''select at least one camera'')), s)
          else if MaxBulkCameras < length ids then
            (Inl (invalid ''ids'' (msgf ''at most %d cameras at once'' [AInt (int MaxBulkCameras)])), s)
          else
            (case bulk_run (op action) ids (schedule (length ids)) s of (out, s) \<Rightarrow> (Inr (zip ids out), s))))"

lemma bulk_ids_set: "set (bulk_ids seen ids) = set ids - {[]} - seen"
  by (induction seen ids rule: bulk_ids.induct) auto

lemma bulk_ids_distinct: "distinct (bulk_ids seen ids)"
  by (induction seen ids rule: bulk_ids.induct) (auto simp: bulk_ids_set)

lemma bulk_run_length: "length (fst (bulk_run run ids order s)) = length ids"
proof -
  have "length (fst (fold (\<lambda>i (out, s). case run (ids ! i) s of (r, s') \<Rightarrow> (out[i := Some r], s')) order (out, s))) = length out"
    for out s
    by (induction order arbitrary: out s) (auto simp: case_prod_beta)
  then show ?thesis by (simp add: bulk_run_def)
qed

lemma bulk_run_done:
  assumes "i \<in> set order" "i < length ids"
  shows "fst (bulk_run run ids order s) ! i \<noteq> None"
proof -
  have "fst (fold (\<lambda>i (out, s). case run (ids ! i) s of (r, s') \<Rightarrow> (out[i := Some r], s')) order (out, s)) ! i \<noteq> None"
    if "i \<in> set order \<or> out ! i \<noteq> None" "i < length out" for out s
    using that
  proof (induction order arbitrary: out s)
    case (Cons j js)
    then show ?case by (cases "j = i") (auto simp: case_prod_beta nth_list_update)
  qed simp
  then show ?thesis using assms unfolding bulk_run_def by simp
qed

lemma BulkCameras_accepted:
  assumes "BulkCameras op schedule action ids0 s = (Inr out, t)"
  defines "ids \<equiv> bulk_ids {} ids0"
  shows "out = zip ids (fst (bulk_run (op action) ids (schedule (length ids)) s)) \<and> length ids \<le> MaxBulkCameras"
proof -
  have known: "\<not> (\<exists>a. action = BulkOther a)" using assms by (auto simp: BulkCameras_def)
  have n: "\<not> MaxBulkCameras < length ids" "ids \<noteq> []"
    using assms known by (cases action; simp add: BulkCameras_def Let_def split: if_splits)+
  have "BulkCameras op schedule action ids0 s =
      (case bulk_run (op action) ids (schedule (length ids)) s of (out, s) \<Rightarrow> (Inr (zip ids out), s))"
    using known n unfolding ids_def by (cases action) (simp_all only: BulkCameras_def Let_def bulk_action.case if_False not_False_eq_True, auto)
  with assms n show ?thesis by (simp only: split_beta) simp
qed

text \<open>A bulk action that is accepted answers for every camera that was named, once each and with
  an outcome for all of them; names that are empty or repeated are dropped.\<close>

theorem BulkCameras_answers:
  assumes "BulkCameras op schedule action ids0 s = (Inr out, t)" "set (schedule (length out)) = {..<length out}"
  shows "set (map fst out) = set ids0 - {[]} \<and> distinct (map fst out) \<and> length out \<le> MaxBulkCameras \<and>
    (\<forall>p\<in>set out. snd p \<noteq> None)"
proof -
  let ?ids = "bulk_ids {} ids0"
  let ?order = "schedule (length ?ids)"
  have o: "out = zip ?ids (fst (bulk_run (op action) ?ids ?order s))" "length ?ids \<le> MaxBulkCameras"
    using BulkCameras_accepted [OF assms(1)] by auto
  have len: "length out = length ?ids" using o(1) by (simp add: bulk_run_length)
  have all: "set ?order = {..<length ?ids}" using assms(2) by (simp only: len)
  have "snd p \<noteq> None" if "p \<in> set out" for p
  proof -
    from that obtain i where i: "i < length out" "out ! i = p" by (auto simp: in_set_conv_nth)
    then have "snd p = fst (bulk_run (op action) ?ids ?order s) ! i" using o(1) len by (auto simp: bulk_run_length)
    with bulk_run_done [of i ?order ?ids "op action" s] i all len show ?thesis by auto
  qed
  moreover have "map fst out = ?ids" using o(1) by (simp add: bulk_run_length)
  ultimately show ?thesis using o(2) len by (simp add: bulk_ids_set bulk_ids_distinct)
qed

theorem BulkCameras_answers_witness:
  "\<exists>out t. BulkCameras (\<lambda>a i s. (i, s)) (\<lambda>n. [0..<n]) BulkStop [''a'', '''', ''b'', ''a''] (0 :: nat) = (Inr out, t) \<and>
    set (map fst out) = {''a'', ''b''}"
proof -
  let ?out = "[(''a'', Some ''a''), (''b'', Some ''b'')]"
  have ids: "bulk_ids {} [''a'', '''', ''b'', ''a''] = [''a'', ''b'']" by simp
  have "bulk_run (\<lambda>i s. (i, s)) [''a'', ''b''] [0, 1] (0 :: nat) = ([Some ''a'', Some ''b''], 0)"
    by (simp add: bulk_run_def numeral_2_eq_2)
  moreover have "[0..<length [''a'', ''b'']] = [0, 1]" by (simp add: upt_conv_Cons)
  ultimately have r: "BulkCameras (\<lambda>a i s. (i, s)) (\<lambda>n. [0..<n]) BulkStop [''a'', '''', ''b'', ''a''] (0 :: nat) = (Inr ?out, 0)"
    unfolding BulkCameras_def bulk_action.case ids by (simp only: Let_def MaxBulkCameras_def) simp
  have "set [0..<length ?out] = {..<length ?out}" by (rule atLeast_upt [symmetric])
  from BulkCameras_answers [of "\<lambda>a i s. (i, s)" "\<lambda>n. [0..<n]", OF r this] r show ?thesis by auto
qed

section \<open>The next free address\<close>

text \<open>All arithmetic of the loop is on \<^verbatim>\<open>uint64\<close>; the address keeps the low 32 bits.\<close>

definition host_off :: "int \<Rightarrow> int \<Rightarrow> int \<Rightarrow> int \<Rightarrow> int" where
  "host_off cur first sz i = ((cur - first + i) mod 2 ^ 64) mod sz"

function nextHost_loop :: "int \<Rightarrow> int \<Rightarrow> int \<Rightarrow> ip4 set \<Rightarrow> int \<Rightarrow> ip4 option" where
  "nextHost_loop cur first sz used i =
    (if i < sz then
       (let off = host_off cur first sz i in
        if off = 0 \<or> off = sz - 1 then nextHost_loop cur first sz used (i + 1)
        else if of_int (first + off) \<notin> used then Some (of_int (first + off))
        else nextHost_loop cur first sz used (i + 1))
     else None)"
  by pat_completeness auto
termination by (relation "measure (\<lambda>(cur, first, sz, used, i). nat (sz - i))") auto

declare nextHost_loop.simps [simp del]

definition nextHost :: "ip4 \<Rightarrow> nat \<Rightarrow> ip4 \<Rightarrow> ip4 set \<Rightarrow> ip4 option" where
  "nextHost p bits from_addr used =
    (let sz = 2 ^ (32 - bits) in
     if sz < 4 then None else nextHost_loop (uint from_addr) (uint (masked p bits)) sz used 1)"

definition host_at :: "int \<Rightarrow> int \<Rightarrow> int \<Rightarrow> ip4 set \<Rightarrow> int \<Rightarrow> bool" where
  "host_at cur first sz used i =
    (let off = host_off cur first sz i in off \<noteq> 0 \<and> off \<noteq> sz - 1 \<and> of_int (first + off) \<notin> used)"

lemma nextHost_loop_spec:
  "case nextHost_loop cur first sz used i of
     None \<Rightarrow> \<forall>j. i \<le> j \<longrightarrow> j < sz \<longrightarrow> \<not> host_at cur first sz used j
   | Some a \<Rightarrow> \<exists>j. i \<le> j \<and> j < sz \<and> host_at cur first sz used j \<and> a = of_int (first + host_off cur first sz j) \<and>
       (\<forall>k. i \<le> k \<longrightarrow> k < j \<longrightarrow> \<not> host_at cur first sz used k)"
proof (induction cur first sz used i rule: nextHost_loop.induct)
  case (1 cur first sz used i)
  have step: "i \<le> k \<Longrightarrow> k \<noteq> i \<Longrightarrow> i + 1 \<le> k" for k :: int by simp
  show ?case
  proof (cases "i < sz")
    case False
    then show ?thesis by (simp add: nextHost_loop.simps [of _ _ _ _ i])
  next
    case True
    show ?thesis
    proof (cases "host_at cur first sz used i")
      case h: True
      then have "nextHost_loop cur first sz used i = Some (of_int (first + host_off cur first sz i))"
        using True by (simp add: nextHost_loop.simps [of _ _ _ _ i] host_at_def Let_def)
      with h True show ?thesis by auto
    next
      case h: False
      then have e: "nextHost_loop cur first sz used i = nextHost_loop cur first sz used (i + 1)"
        using True by (auto simp: nextHost_loop.simps [of _ _ _ _ i] host_at_def Let_def)
      have IH: "case nextHost_loop cur first sz used (i + 1) of
         None \<Rightarrow> \<forall>j. i + 1 \<le> j \<longrightarrow> j < sz \<longrightarrow> \<not> host_at cur first sz used j
       | Some a \<Rightarrow> \<exists>j. i + 1 \<le> j \<and> j < sz \<and> host_at cur first sz used j \<and> a = of_int (first + host_off cur first sz j) \<and>
           (\<forall>k. i + 1 \<le> k \<longrightarrow> k < j \<longrightarrow> \<not> host_at cur first sz used k)"
        using "1.IH" True h unfolding host_at_def Let_def by blast
      show ?thesis unfolding e
      proof (cases "nextHost_loop cur first sz used (i + 1)")
        case None
        with IH h step show "case nextHost_loop cur first sz used (i + 1) of
             None \<Rightarrow> \<forall>j. i \<le> j \<longrightarrow> j < sz \<longrightarrow> \<not> host_at cur first sz used j
           | Some a \<Rightarrow> \<exists>j. i \<le> j \<and> j < sz \<and> host_at cur first sz used j \<and> a = of_int (first + host_off cur first sz j) \<and>
               (\<forall>k. i \<le> k \<longrightarrow> k < j \<longrightarrow> \<not> host_at cur first sz used k)" by (auto, metis)
      next
        case (Some a)
        with IH obtain j where j: "i + 1 \<le> j" "j < sz" "host_at cur first sz used j"
          "a = of_int (first + host_off cur first sz j)" "\<forall>k. i + 1 \<le> k \<longrightarrow> k < j \<longrightarrow> \<not> host_at cur first sz used k" by auto
        have below: "\<forall>k. i \<le> k \<longrightarrow> k < j \<longrightarrow> \<not> host_at cur first sz used k" using j(5) h step by metis
        have "i \<le> j" using j(1) by simp
        with Some j below show "case nextHost_loop cur first sz used (i + 1) of
             None \<Rightarrow> \<forall>j. i \<le> j \<longrightarrow> j < sz \<longrightarrow> \<not> host_at cur first sz used j
           | Some a \<Rightarrow> \<exists>j. i \<le> j \<and> j < sz \<and> host_at cur first sz used j \<and> a = of_int (first + host_off cur first sz j) \<and>
               (\<forall>k. i \<le> k \<longrightarrow> k < j \<longrightarrow> \<not> host_at cur first sz used k)" by (simp only: option.case) blast
      qed
    qed
  qed
qed

text \<open>How far a host is after another, going up and wrapping around the subnet.\<close>

definition steps_after :: "nat \<Rightarrow> ip4 \<Rightarrow> ip4 \<Rightarrow> int" where
  "steps_after bits a b = (uint b - uint a) mod 2 ^ (32 - bits)"

lemma prefix_offset:
  assumes "prefix_contains p bits a"
  shows "uint a = uint (masked p bits) + uint a mod 2 ^ (32 - bits)"
  using uint_masked [of a bits] assms by (simp add: prefix_contains_def)

lemma host_off_simp: "host_off cur first (2 ^ k) i = (cur - first + i) mod 2 ^ k" if "k \<le> 64"
  unfolding host_off_def by (rule mod_mod_cancel) (rule le_imp_power_dvd [OF that])

lemma subnet_word:
  assumes "0 \<le> off" "off < 2 ^ (32 - bits)"
  shows "uint (of_int (uint (masked p bits) + off) :: ip4) = uint (masked p bits) + off"
proof -
  have "uint (masked p bits) + 2 ^ (32 - bits) - 1 = uint (LastAddr p bits)"
    by (simp add: uint_masked uint_LastAddr)
  also have "\<dots> < 2 ^ 32" using uint_lt2p [of "LastAddr p bits"] by simp
  finally have "uint (masked p bits) + off < 2 ^ 32" using assms by linarith
  moreover have "0 \<le> uint (masked p bits) + off" using assms by simp
  ultimately have "(uint (masked p bits) + off) mod 2 ^ LENGTH(32) = uint (masked p bits) + off" by simp
  then show ?thesis by (simp only: uint_word_of_int)
qed

lemma host_off_from:
  assumes contains: "prefix_contains p bits a"
  shows "host_off (uint a) (uint (masked p bits)) (2 ^ (32 - bits)) j = (uint a mod 2 ^ (32 - bits) + j) mod 2 ^ (32 - bits)"
proof -
  have "uint a - uint (masked p bits) = uint a mod 2 ^ (32 - bits)" using prefix_offset [OF contains] by linarith
  then show ?thesis by (simp only: host_off_simp)
qed

lemma host_at_iff:
  assumes contains: "prefix_contains p bits a" and j: "0 < j" "j < 2 ^ (32 - bits)"
    and b: "b = of_int (uint (masked p bits) + host_off (uint a) (uint (masked p bits)) (2 ^ (32 - bits)) j)"
  shows "(host_at (uint a) (uint (masked p bits)) (2 ^ (32 - bits)) used j \<longleftrightarrow> host_of p bits b \<and> b \<notin> used) \<and>
    b \<noteq> a \<and> steps_after bits a b = j"
proof -
  let ?sz = "2 ^ (32 - bits) :: int"
  let ?off = "host_off (uint a) (uint (masked p bits)) ?sz j"
  let ?f = "uint a mod ?sz"
  have off: "?off = (?f + j) mod ?sz" by (rule host_off_from [OF contains])
  have r: "0 \<le> ?off" "?off < ?sz" unfolding off by simp_all
  have u: "uint b = uint (masked p bits) + ?off" unfolding b using r by (rule subnet_word)
  have h: "host_of p bits b \<longleftrightarrow> ?off \<noteq> 0 \<and> ?off \<noteq> ?sz - 1"
    using r unfolding host_of_iff u by auto
  have d: "steps_after bits a b = j"
  proof -
    have "uint b - uint a = ?off - ?f" using u prefix_offset [OF contains] by simp
    then have "steps_after bits a b = ((?f + j) - ?f) mod ?sz"
      unfolding steps_after_def by (simp add: off mod_diff_left_eq)
    then show ?thesis using j by simp
  qed
  have "b \<noteq> a" using d j by (auto simp: steps_after_def)
  moreover have "host_at (uint a) (uint (masked p bits)) ?sz used j \<longleftrightarrow> ?off \<noteq> 0 \<and> ?off \<noteq> ?sz - 1 \<and> b \<notin> used"
    unfolding host_at_def Let_def b by (rule refl)
  ultimately show ?thesis using h d by blast
qed

lemma host_reached:
  assumes contains: "prefix_contains p bits a" and h: "host_of p bits b" and ne: "b \<noteq> a"
  shows "0 < steps_after bits a b \<and> steps_after bits a b < 2 ^ (32 - bits) \<and>
    b = of_int (uint (masked p bits) + host_off (uint a) (uint (masked p bits)) (2 ^ (32 - bits)) (steps_after bits a b))"
proof -
  let ?sz = "2 ^ (32 - bits) :: int"
  have pb: "prefix_contains p bits b" using h by (simp add: host_of_def)
  have ub: "uint b = uint (masked p bits) + uint b mod ?sz" by (rule prefix_offset [OF pb])
  have ua: "uint a = uint (masked p bits) + uint a mod ?sz" by (rule prefix_offset [OF contains])
  have "host_off (uint a) (uint (masked p bits)) ?sz (steps_after bits a b) = (uint a mod ?sz + (uint b - uint a)) mod ?sz"
    unfolding host_off_from [OF contains] steps_after_def by (simp add: mod_simps)
  also have "\<dots> = (uint a + (uint b - uint a)) mod ?sz" by (simp add: mod_simps)
  also have "\<dots> = uint b mod ?sz" by simp
  finally have o: "host_off (uint a) (uint (masked p bits)) ?sz (steps_after bits a b) = uint b mod ?sz" .
  have "steps_after bits a b \<noteq> 0"
  proof
    assume "steps_after bits a b = 0"
    then have "uint b mod ?sz = uint a mod ?sz" unfolding steps_after_def by (simp add: mod_eq_dvd_iff mod_0_imp_dvd)
    then have "uint b = uint a" using ua ub by simp
    with ne show False by (metis word_of_int_uint)
  qed
  moreover have "0 \<le> steps_after bits a b" "steps_after bits a b < ?sz" by (simp_all add: steps_after_def)
  moreover have "b = of_int (uint (masked p bits) + uint b mod ?sz)" using ub by (metis word_of_int_uint)
  ultimately show ?thesis unfolding o by simp
qed

lemma no_hosts: "\<not> 4 \<le> (2 :: int) ^ (32 - bits) \<Longrightarrow> bits \<le> 32 \<Longrightarrow> \<not> host_of p bits b"
proof -
  assume small: "\<not> 4 \<le> (2 :: int) ^ (32 - bits)" and "bits \<le> 32"
  have "32 - bits < 2"
  proof (rule ccontr)
    assume "\<not> 32 - bits < 2"
    then have "(2 :: int) ^ 2 \<le> 2 ^ (32 - bits)" by (intro power_increasing) auto
    with small show False by simp
  qed
  then consider "32 - bits = 0" | "32 - bits = 1" by linarith
  then show ?thesis unfolding host_of_iff by cases auto
qed

text \<open>C40. The address given to a copy is a host of the subnet that nothing uses, other than the
  source's own, and the nearest such after it (going up and wrapping around); when the search gives
  up, no other host of the subnet is free.\<close>

theorem nextHost_nearest:
  assumes "prefix_contains p bits a" "bits \<le> 32"
  shows "case nextHost p bits a used of
      None \<Rightarrow> \<forall>b. host_of p bits b \<longrightarrow> b = a \<or> b \<in> used
    | Some b \<Rightarrow> host_of p bits b \<and> b \<noteq> a \<and> b \<notin> used \<and>
        (\<forall>c. host_of p bits c \<longrightarrow> c \<noteq> a \<longrightarrow> c \<notin> used \<longrightarrow> steps_after bits a b \<le> steps_after bits a c)"
proof (cases "(2 :: int) ^ (32 - bits) < 4")
  case True
  then show ?thesis using no_hosts [of bits] assms(2) by (auto simp: nextHost_def)
next
  case False
  let ?sz = "2 ^ (32 - bits) :: int" and ?first = "uint (masked p bits)"
  let ?at = "host_at (uint a) ?first ?sz used"
  have n: "nextHost p bits a used = nextHost_loop (uint a) ?first ?sz used 1"
    using False by (simp add: nextHost_def)
  have free: "?at (steps_after bits a c)" if c: "host_of p bits c" "c \<noteq> a" "c \<notin> used" for c
    using host_reached [OF assms(1) c(1,2)] host_at_iff [OF assms(1), where j = "steps_after bits a c" and b = c and used = used] c by blast
  show ?thesis
  proof (cases "nextHost_loop (uint a) ?first ?sz used 1")
    case None
    then have none: "\<forall>j. 1 \<le> j \<longrightarrow> j < ?sz \<longrightarrow> \<not> ?at j"
      using nextHost_loop_spec [where cur = "uint a" and first = ?first and sz = ?sz and used = used and i = 1] by simp
    have "b = a \<or> b \<in> used" if "host_of p bits b" for b
      using none free [of b] host_reached [OF assms(1) that] that by force
    then show ?thesis by (simp add: n None)
  next
    case (Some b)
    then obtain j where j: "1 \<le> j" "j < ?sz" "?at j" "b = of_int (?first + host_off (uint a) ?first ?sz j)"
      "\<forall>k. 1 \<le> k \<longrightarrow> k < j \<longrightarrow> \<not> ?at k"
      using nextHost_loop_spec [where cur = "uint a" and first = ?first and sz = ?sz and used = used and i = 1] by auto
    have b: "host_of p bits b" "b \<notin> used" "b \<noteq> a" "steps_after bits a b = j"
      using host_at_iff [OF assms(1), where j = j and b = b and used = used] j by auto
    have "j \<le> steps_after bits a c" if "host_of p bits c" "c \<noteq> a" "c \<notin> used" for c
    proof (rule ccontr)
      assume "\<not> j \<le> steps_after bits a c"
      moreover have "1 \<le> steps_after bits a c" using host_reached [OF assms(1) that(1,2)] by simp
      ultimately show False using j(5) free [OF that] by auto
    qed
    with b show ?thesis by (simp add: n Some)
  qed
qed

theorem nextHost_nearest_witness:
  "case nextHost 0xC0A80100 24 0xC0A801FE {0xC0A80101} of
      None \<Rightarrow> \<forall>b. host_of 0xC0A80100 24 b \<longrightarrow> b = 0xC0A801FE \<or> b \<in> {0xC0A80101}
    | Some b \<Rightarrow> host_of 0xC0A80100 24 b \<and> b \<noteq> 0xC0A801FE \<and> b \<notin> {0xC0A80101} \<and>
        (\<forall>c. host_of 0xC0A80100 24 c \<longrightarrow> c \<noteq> 0xC0A801FE \<longrightarrow> c \<notin> {0xC0A80101} \<longrightarrow>
           steps_after 24 0xC0A801FE b \<le> steps_after 24 0xC0A801FE c)"
  by (rule nextHost_nearest) (simp_all add: prefix_contains_def masked_def word_eq_iff_unsigned mask_eq_decr_exp)

end
