(* ===== verification/Live_Hub.thy ===== *)
theory Live_Hub
  imports Go_Text
begin

text \<open>
  Live updates: \<^verbatim>\<open>backend/internal/api/hub.go\<close> (topics and their numbered messages) and the client
  of \<^verbatim>\<open>ws.go\<close> (its topics, its bounded queue). \<open>wc_sent\<close> is what the writer has taken from the
  queue. A topic would need \<open>2 ^ 64\<close> messages to wrap its numbers, which are naturals here.
\<close>

section \<open>Topics\<close>

record Message =
  m_Topic :: string
  m_Seq :: nat
  m_Type :: string
  m_At :: int
  m_Data :: string

definition bufferSize :: "string \<Rightarrow> nat" where
  "bufferSize topic =
    (if topic = ''node'' then 1
     else if has_prefix ''camera:'' topic \<or> has_prefix ''job:'' topic then 200
     else 1000)"

definition fixedTopics :: "string list" where
  "fixedTopics = [''node'', ''cameras'', ''events'', ''profiles'', ''audit'', ''jobs'']"

definition validID :: "string \<Rightarrow> bool" where
  "validID i = (length i = 26 \<and> list_all (\<lambda>r. is_digit_c r \<or> is_upper_c r) (runes i))"

definition validTopic :: "string \<Rightarrow> bool" where
  "validTopic name =
    (if contains fixedTopics name then True
     else case cut_prefix ''camera:'' name of
       Some i \<Rightarrow> validID i
     | None \<Rightarrow> (case cut_prefix ''job:'' name of Some i \<Rightarrow> validID i | None \<Rightarrow> False))"

record topicState =
  ts_seq :: nat
  ts_buf :: "Message list"

definition no_topic :: topicState where
  "no_topic = \<lparr>ts_seq = 0, ts_buf = []\<rparr>"

section \<open>Clients\<close>

record wsClient =
  wc_topics :: "string list"
  wc_queue :: "Message list"
  wc_sent :: "Message list"
  wc_gone :: "string option"
  wc_session :: string
  wc_tokenID :: string

definition wsQueue :: nat where "wsQueue = 4096"
definition maxTopics :: nat where "maxTopics = 256"

definition newWSClient :: "string \<Rightarrow> string \<Rightarrow> wsClient" where
  "newWSClient session tok =
    \<lparr>wc_topics = [], wc_queue = [], wc_sent = [], wc_gone = None, wc_session = session, wc_tokenID = tok\<rparr>"

definition subscribed :: "wsClient \<Rightarrow> string \<Rightarrow> bool" where
  "subscribed c topic = contains (wc_topics c) topic"

definition addTopic :: "string \<Rightarrow> wsClient \<Rightarrow> bool \<times> wsClient" where
  "addTopic topic c =
    (if \<not> subscribed c topic \<and> maxTopics \<le> length (wc_topics c) then (False, c)
     else (True, if subscribed c topic then c else c\<lparr>wc_topics := wc_topics c @ [topic]\<rparr>))"

definition removeTopic :: "string \<Rightarrow> wsClient \<Rightarrow> wsClient" where
  "removeTopic topic c = c\<lparr>wc_topics := filter (\<lambda>t. t \<noteq> topic) (wc_topics c)\<rparr>"

definition end_client :: "string \<Rightarrow> wsClient \<Rightarrow> wsClient" where
  "end_client reason c = (if wc_gone c = None then c\<lparr>wc_gone := Some reason\<rparr> else c)"

definition kill :: "wsClient \<Rightarrow> wsClient" where
  "kill = end_client ''too slow; reconnect and resync''"

definition push :: "Message \<Rightarrow> wsClient \<Rightarrow> wsClient" where
  "push m c = (if length (wc_queue c) < wsQueue then c\<lparr>wc_queue := wc_queue c @ [m]\<rparr> else kill c)"

text \<open>The writer of \<^verbatim>\<open>serveWS\<close> takes one message from the queue.\<close>

definition take_message :: "wsClient \<Rightarrow> wsClient" where
  "take_message c =
    (case wc_queue c of [] \<Rightarrow> c | m # q \<Rightarrow> c\<lparr>wc_queue := q, wc_sent := wc_sent c @ [m]\<rparr>)"

section \<open>The hub\<close>

record Hub =
  hub_topics :: "(string, topicState) table"
  hub_clients :: "(nat, wsClient) table"

definition NewHub :: Hub where
  "NewHub = \<lparr>hub_topics = [], hub_clients = []\<rparr>"

definition topic_of :: "Hub \<Rightarrow> string \<Rightarrow> topicState" where
  "topic_of h name = (case tget (hub_topics h) name of None \<Rightarrow> no_topic | Some t \<Rightarrow> t)"

definition each_client :: "(wsClient \<Rightarrow> wsClient) \<Rightarrow> Hub \<Rightarrow> Hub" where
  "each_client f h = h\<lparr>hub_clients := map (\<lambda>(i, c). (i, f c)) (hub_clients h)\<rparr>"

definition on_client :: "nat \<Rightarrow> (wsClient \<Rightarrow> wsClient) \<Rightarrow> Hub \<Rightarrow> Hub" where
  "on_client i f h =
    (case tget (hub_clients h) i of None \<Rightarrow> h | Some c \<Rightarrow> h\<lparr>hub_clients := tput i (f c) (hub_clients h)\<rparr>)"

text \<open>\<open>raw\<close> is the JSON of the data, \<open>None\<close> when it cannot be encoded.\<close>

definition Publish :: "string \<Rightarrow> string \<Rightarrow> string option \<Rightarrow> int \<Rightarrow> Hub \<Rightarrow> Hub" where
  "Publish topic typ raw now h =
    (case raw of
       None \<Rightarrow> h
     | Some raw \<Rightarrow>
         (let t = topic_of h topic;
              m = \<lparr>m_Topic = topic, m_Seq = ts_seq t + 1, m_Type = typ, m_At = now, m_Data = raw\<rparr>;
              buf = ts_buf t @ [m];
              buf = (if bufferSize topic < length buf then drop (length buf - bufferSize topic) buf else buf);
              h = h\<lparr>hub_topics := tput topic \<lparr>ts_seq = ts_seq t + 1, ts_buf = buf\<rparr> (hub_topics h)\<rparr>
          in each_client (\<lambda>c. if subscribed c topic then push m c else c) h))"

definition Forget :: "string \<Rightarrow> Hub \<Rightarrow> Hub" where
  "Forget topic h = h\<lparr>hub_topics := tdel topic (hub_topics h)\<rparr>"

definition disconnect :: "(wsClient \<Rightarrow> bool) \<Rightarrow> string \<Rightarrow> Hub \<Rightarrow> Hub" where
  "disconnect matches reason h = each_client (\<lambda>c. if matches c then end_client reason c else c) h"

definition add_client :: "nat \<Rightarrow> wsClient \<Rightarrow> Hub \<Rightarrow> Hub" where
  "add_client i c h = h\<lparr>hub_clients := tput i c (hub_clients h)\<rparr>"

definition remove_client :: "nat \<Rightarrow> Hub \<Rightarrow> Hub" where
  "remove_client i h = h\<lparr>hub_clients := tdel i (hub_clients h)\<rparr>"

text \<open>What a client receives first on a topic it subscribes to.\<close>

definition catch_up :: "string \<Rightarrow> nat option \<Rightarrow> int \<Rightarrow> topicState \<Rightarrow> Message list" where
  "catch_up name resume now t =
    (let notice = (\<lambda>typ. [\<lparr>m_Topic = name, m_Seq = ts_seq t, m_Type = typ, m_At = now, m_Data = []\<rparr>]) in
     case resume of
       None \<Rightarrow> notice ''subscribed''
     | Some lst \<Rightarrow>
         (if ts_seq t \<le> lst then notice ''subscribed''
          else if ts_buf t \<noteq> [] \<and> m_Seq (hd (ts_buf t)) \<le> lst + 1 then filter (\<lambda>m. lst < m_Seq m) (ts_buf t)
          else notice ''resync''))"

definition subscribe_one :: "(string, nat) table \<Rightarrow> int \<Rightarrow> Hub \<Rightarrow> string \<Rightarrow> wsClient \<Rightarrow> wsClient" where
  "subscribe_one since now h name c =
    (if \<not> validTopic name then c
     else case addTopic name c of
       (False, c) \<Rightarrow> c
     | (True, c) \<Rightarrow> fold push (catch_up name (tget since name) now (topic_of h name)) c)"

definition subscribe :: "nat \<Rightarrow> string list \<Rightarrow> (string, nat) table \<Rightarrow> int \<Rightarrow> Hub \<Rightarrow> Hub" where
  "subscribe i names since now h = on_client i (fold (subscribe_one since now h) names) h"

text \<open>What the reader of \<^verbatim>\<open>serveWS\<close> does with an operation of the client.\<close>

definition op_subscribe :: "nat \<Rightarrow> string list \<Rightarrow> (string, nat) table \<Rightarrow> int \<Rightarrow> Hub \<Rightarrow> Hub" where
  "op_subscribe i names since now h = subscribe i (take maxTopics names) since now h"

definition op_unsubscribe :: "nat \<Rightarrow> string list \<Rightarrow> Hub \<Rightarrow> Hub" where
  "op_unsubscribe i names h = on_client i (fold removeTopic names) h"

section \<open>Operations as steps\<close>

datatype hub_op =
    HPublish string string "string option" int
  | HForget string
  | HDisconnect "wsClient \<Rightarrow> bool" string
  | HAdd nat string string
  | HRemove nat
  | HSubscribe nat "string list" "(string, nat) table" int
  | HUnsubscribe nat "string list"
  | HTake nat

fun hub_do :: "hub_op \<Rightarrow> Hub \<Rightarrow> Hub" where
  "hub_do (HPublish topic typ raw now) h = Publish topic typ raw now h"
| "hub_do (HForget topic) h = Forget topic h"
| "hub_do (HDisconnect matches reason) h = disconnect matches reason h"
| "hub_do (HAdd i session tok) h = add_client i (newWSClient session tok) h"
| "hub_do (HRemove i) h = remove_client i h"
| "hub_do (HSubscribe i names since now) h = op_subscribe i names since now h"
| "hub_do (HUnsubscribe i names) h = op_unsubscribe i names h"
| "hub_do (HTake i) h = on_client i take_message h"

definition hub_step :: "Hub \<Rightarrow> Hub \<Rightarrow> bool" where
  "hub_step h h' \<longleftrightarrow> (\<exists>op. h' = hub_do op h)"

definition client_ok :: "wsClient \<Rightarrow> bool" where
  "client_ok c = (length (wc_queue c) \<le> wsQueue \<and> length (wc_topics c) \<le> maxTopics \<and> distinct (wc_topics c) \<and>
     list_all validTopic (wc_topics c))"

definition topic_ok :: "string \<Rightarrow> topicState \<Rightarrow> bool" where
  "topic_ok name t = (length (ts_buf t) \<le> bufferSize name \<and> length (ts_buf t) \<le> ts_seq t \<and>
     map m_Seq (ts_buf t) = [Suc (ts_seq t - length (ts_buf t))..<Suc (ts_seq t)] \<and>
     (\<forall>m\<in>set (ts_buf t). m_Topic m = name))"

definition hub_ok :: "Hub \<Rightarrow> bool" where
  "hub_ok h = ((\<forall>(name, t)\<in>set (hub_topics h). topic_ok name t) \<and> (\<forall>(i, c)\<in>set (hub_clients h). client_ok c))"

lemma client_frame [simp]:
  "wc_topics (push m c) = wc_topics c"
  "wc_topics (end_client r c) = wc_topics c"
  "wc_topics (take_message c) = wc_topics c"
  by (auto simp: push_def kill_def end_client_def take_message_def split: list.split)

lemma push_ok [intro]: "client_ok c \<Longrightarrow> client_ok (push m c)"
  by (auto simp: client_ok_def push_def kill_def end_client_def)

lemma end_client_ok [intro]: "client_ok c \<Longrightarrow> client_ok (end_client r c)"
  by (auto simp: client_ok_def end_client_def)

lemma take_message_ok [intro]: "client_ok c \<Longrightarrow> client_ok (take_message c)"
  by (auto simp: client_ok_def take_message_def split: list.split)

lemma fold_push_ok: "client_ok c \<Longrightarrow> client_ok (fold push ms c)"
  by (induction ms arbitrary: c) auto

lemma subscribe_one_ok: "client_ok c \<Longrightarrow> client_ok (subscribe_one since now h name c)"
  by (auto simp: subscribe_one_def addTopic_def subscribed_def client_ok_def intro!: fold_push_ok [unfolded client_ok_def])

lemma fold_subscribe_ok: "client_ok c \<Longrightarrow> client_ok (fold (subscribe_one since now h) names c)"
  by (induction names arbitrary: c) (auto intro: subscribe_one_ok)

lemma fold_remove_ok: "client_ok c \<Longrightarrow> client_ok (fold removeTopic names c)"
proof (induction names arbitrary: c)
  case (Cons n ns)
  have "client_ok (removeTopic n c)" using Cons.prems
    by (auto simp: client_ok_def removeTopic_def list_all_iff intro: order_trans [OF length_filter_le])
  then show ?case using Cons.IH by simp
qed simp

lemma on_client_ok: "hub_ok h \<Longrightarrow> (\<And>c. client_ok c \<Longrightarrow> client_ok (f c)) \<Longrightarrow> hub_ok (on_client i f h)"
  using set_tput_subset [of i _ "hub_clients h"]
  by (fastforce simp: hub_ok_def on_client_def dest: tget_Some_mem split: option.split)

lemma each_client_ok: "hub_ok h \<Longrightarrow> (\<And>c. client_ok c \<Longrightarrow> client_ok (f c)) \<Longrightarrow> hub_ok (each_client f h)"
  by (fastforce simp: hub_ok_def each_client_def)

lemma bufferSize_pos: "0 < bufferSize topic"
  by (simp add: bufferSize_def)

lemma no_topic_ok: "topic_ok name no_topic"
  by (simp add: topic_ok_def no_topic_def)

lemma topic_of_ok: "hub_ok h \<Longrightarrow> topic_ok name (topic_of h name)"
  unfolding topic_of_def
  by (cases "tget (hub_topics h) name") (auto simp: hub_ok_def no_topic_ok dest: tget_Some_mem)

lemma topic_ok_push:
  assumes ok: "topic_ok topic t" and m: "m_Topic m = topic" "m_Seq m = ts_seq t + 1"
    and buf: "buf = drop k (ts_buf t @ [m])" "length buf \<le> bufferSize topic" "k \<le> length (ts_buf t)"
  shows "topic_ok topic \<lparr>ts_seq = ts_seq t + 1, ts_buf = buf\<rparr>"
proof -
  let ?n = "length (ts_buf t)"
  have s: "map m_Seq (ts_buf t) = [Suc (ts_seq t - ?n)..<Suc (ts_seq t)]" "?n \<le> ts_seq t"
    using ok by (simp_all only: topic_ok_def)
  have "map m_Seq (ts_buf t @ [m]) = [Suc (ts_seq t - ?n)..<Suc (Suc (ts_seq t))]"
    using s m by simp
  then have "map m_Seq buf = [Suc (ts_seq t - ?n) + k..<Suc (Suc (ts_seq t))]"
    unfolding buf(1) drop_map [symmetric] by (simp only: drop_upt)
  moreover have l: "length buf = Suc ?n - k" using buf(1) by simp
  then have "Suc (ts_seq t - ?n) + k = Suc (Suc (ts_seq t) - length buf)" using buf(3) s(2) by simp
  ultimately have "map m_Seq buf = [Suc (Suc (ts_seq t) - length buf)..<Suc (Suc (ts_seq t))]" by (simp only:)
  moreover have "\<forall>x\<in>set buf. m_Topic x = topic"
    using ok m buf(1) by (auto simp: topic_ok_def dest: in_set_dropD)
  ultimately show ?thesis using buf(2) l s(2) unfolding topic_ok_def by (simp del: upt_Suc)
qed

lemma keep_last: "(if n < length xs then drop (length xs - n) xs else xs) = drop (length xs - n) xs"
  by simp

lemma Publish_ok: "hub_ok h \<Longrightarrow> hub_ok (Publish topic typ raw now h)"
proof (cases raw)
  case (Some r)
  assume h: "hub_ok h"
  let ?t = "topic_of h topic"
  let ?m = "\<lparr>m_Topic = topic, m_Seq = ts_seq ?t + 1, m_Type = typ, m_At = now, m_Data = r\<rparr>"
  let ?all = "ts_buf ?t @ [?m]"
  let ?k = "length ?all - bufferSize topic"
  have t: "topic_ok topic ?t" by (rule topic_of_ok [OF h])
  have ok: "topic_ok topic \<lparr>ts_seq = ts_seq ?t + 1, ts_buf = drop ?k ?all\<rparr>"
    using bufferSize_pos [of topic] by (intro topic_ok_push [OF t, of ?m _ ?k]) auto
  let ?h = "h\<lparr>hub_topics := tput topic \<lparr>ts_seq = ts_seq ?t + 1, ts_buf = drop ?k ?all\<rparr> (hub_topics h)\<rparr>"
  have "hub_ok ?h"
    using h ok set_tput_subset [of topic _ "hub_topics h"] by (fastforce simp: hub_ok_def)
  then have "hub_ok (each_client (\<lambda>c. if subscribed c topic then push ?m c else c) ?h)"
    by (rule each_client_ok) auto
  then show ?thesis unfolding Publish_def Some option.case Let_def keep_last .
qed (simp add: Publish_def)

lemma hub_do_ok: "hub_ok h \<Longrightarrow> hub_ok (hub_do op h)"
proof (cases op)
  case (HForget topic)
  assume "hub_ok h"
  then show ?thesis by (auto simp: HForget Forget_def hub_ok_def set_tdel)
next
  case (HAdd i session tok)
  assume "hub_ok h"
  moreover have "client_ok (newWSClient session tok)" by (simp add: client_ok_def newWSClient_def)
  ultimately show ?thesis using set_tput_subset [of i "newWSClient session tok" "hub_clients h"]
    by (fastforce simp: HAdd add_client_def hub_ok_def)
next
  case (HRemove i)
  assume "hub_ok h"
  then show ?thesis by (auto simp: HRemove remove_client_def hub_ok_def set_tdel)
qed (auto simp: disconnect_def op_subscribe_def subscribe_def op_unsubscribe_def
    intro!: Publish_ok each_client_ok on_client_ok fold_subscribe_ok fold_remove_ok)

interpretation hub: machine NewHub hub_step hub_ok
proof
  show "hub_ok NewHub" by (simp add: hub_ok_def NewHub_def)
  show "hub_ok h \<Longrightarrow> hub_step h h' \<Longrightarrow> hub_ok h'" for h h'
    by (auto simp: hub_step_def intro: hub_do_ok)
qed

text \<open>In every reachable state of the hub a topic keeps at most its number of messages, which are
  the last ones published, numbered without gaps up to the newest; and a client holds at most
  4096 queued messages and 256 topics, all of them topics that exist.\<close>

theorem hub_invariant:
  assumes "reach hub_step NewHub h"
  shows "hub_ok h"
  by (rule hub.inv_reachable [OF assms])

theorem hub_invariant_witness: "hub_ok (hub_do (HPublish ''node'' ''metrics'' (Some ''1'') 5) NewHub)"
proof (rule hub_invariant)
  show "reach hub_step NewHub (hub_do (HPublish ''node'' ''metrics'' (Some ''1'') 5) NewHub)"
    by (rule reach_step [OF reach_refl]) (auto simp: hub_step_def simp del: hub_do.simps)
qed

section \<open>What a client receives\<close>

text \<open>Everything a client has on one topic, in order, and what it has beyond an earlier state.\<close>

definition received :: "string \<Rightarrow> wsClient \<Rightarrow> Message list" where
  "received name c = filter (\<lambda>m. m_Topic m = name) (wc_sent c @ wc_queue c)"

lemma received_push:
  "wc_gone (push m c) = None \<Longrightarrow>
   wc_gone c = None \<and> received name (push m c) = received name c @ (if m_Topic m = name then [m] else [])"
  by (auto simp: push_def kill_def end_client_def received_def split: if_splits)

lemma received_fold_push:
  "wc_gone (fold push ms c) = None \<Longrightarrow>
   wc_gone c = None \<and> received name (fold push ms c) = received name c @ filter (\<lambda>m. m_Topic m = name) ms"
proof (induction ms arbitrary: c)
  case (Cons m ms)
  then have f: "wc_gone (push m c) = None"
    "received name (fold push (m # ms) c) = received name (push m c) @ filter (\<lambda>m. m_Topic m = name) ms" by auto
  with received_push [OF f(1), of name] show ?case by auto
qed simp

lemma received_take [simp]: "received name (take_message c) = received name c" "wc_gone (take_message c) = wc_gone c"
  by (auto simp: take_message_def received_def split: list.split)

lemma received_end [simp]: "received name (end_client r c) = received name c"
  by (simp add: end_client_def received_def)

text \<open>The operations that concern the subscription of client \<open>i\<close> to \<open>name\<close>, or restart the topic.\<close>

fun concerns :: "nat \<Rightarrow> string \<Rightarrow> hub_op \<Rightarrow> bool" where
  "concerns i name (HForget topic) = (topic = name)"
| "concerns i name (HAdd j _ _) = (j = i)"
| "concerns i name (HRemove j) = (j = i)"
| "concerns i name (HSubscribe j names _ _) = (j = i \<and> name \<in> set names)"
| "concerns i name (HUnsubscribe j names) = (j = i \<and> name \<in> set names)"
| "concerns i name _ = False"

text \<open>The client follows the topic: it has everything published after number \<open>s0\<close>, unless it was
  disconnected.\<close>

definition follows :: "nat \<Rightarrow> string \<Rightarrow> Message list \<Rightarrow> nat \<Rightarrow> Hub \<Rightarrow> bool" where
  "follows i name base s0 h =
    (\<exists>c. tget (hub_clients h) i = Some c \<and> name \<in> set (wc_topics c) \<and> s0 \<le> ts_seq (topic_of h name) \<and>
       (wc_gone c = None \<longrightarrow> (\<exists>live. received name c = base @ live \<and>
          map m_Seq live = [Suc s0..<Suc (ts_seq (topic_of h name))])))"

lemma tget_map: "tget (map (\<lambda>(i, c). (i, f c)) t) i = map_option f (tget t i)"
  by (induction t) auto

lemma on_client_other: "i \<noteq> j \<Longrightarrow> tget (hub_clients (on_client j f h)) i = tget (hub_clients h) i"
  by (simp add: on_client_def split: option.split)

lemma on_client_same:
  "tget (hub_clients h) i = Some c \<Longrightarrow> tget (hub_clients (on_client i f h)) i = Some (f c)"
  by (simp add: on_client_def)

lemma on_client_topics [simp]: "topic_of (on_client j f h) name = topic_of h name"
  by (simp add: on_client_def topic_of_def split: option.split)

lemma follows_client:
  assumes "follows i name base s0 h" "topic_of h' name = topic_of h name"
    and "\<And>c. tget (hub_clients h) i = Some c \<Longrightarrow> \<exists>d. tget (hub_clients h') i = Some d \<and>
      (name \<in> set (wc_topics c) \<longrightarrow> name \<in> set (wc_topics d)) \<and>
      (wc_gone d = None \<longrightarrow> wc_gone c = None \<and> received name d = received name c)"
  shows "follows i name base s0 h'"
proof -
  from assms(1) obtain c where c: "tget (hub_clients h) i = Some c" "name \<in> set (wc_topics c)"
    "s0 \<le> ts_seq (topic_of h name)"
    "wc_gone c = None \<longrightarrow> (\<exists>live. received name c = base @ live \<and> map m_Seq live = [Suc s0..<Suc (ts_seq (topic_of h name))])"
    unfolding follows_def by (elim exE conjE) (rule that)
  from assms(3) [OF c(1)] obtain d where "tget (hub_clients h') i = Some d" "name \<in> set (wc_topics d)"
    "wc_gone d = None \<longrightarrow> wc_gone c = None \<and> received name d = received name c"
    using c(2) by (elim exE conjE) (rule that, simp_all)
  then show ?thesis unfolding follows_def assms(2) using c(3,4) by (intro exI [of _ d] conjI impI) simp_all
qed

lemma received_subscribe_other:
  "name \<notin> set names \<Longrightarrow> (\<forall>n. \<forall>m\<in>set (ts_buf (topic_of h n)). m_Topic m = n) \<Longrightarrow>
   wc_gone (fold (subscribe_one since now h) names c) = None \<Longrightarrow>
   wc_gone c = None \<and> received name (fold (subscribe_one since now h) names c) = received name c"
proof (induction names arbitrary: c)
  case (Cons n ns)
  let ?c = "subscribe_one since now h n c"
  have step: "wc_gone ?c = None \<Longrightarrow> wc_gone c = None \<and> received name ?c = received name c"
  proof -
    assume g: "wc_gone ?c = None"
    have ne: "m_Topic m \<noteq> name" if "m \<in> set (catch_up n (tget since n) now (topic_of h n))" for m
      using that Cons.prems(1,2) by (auto simp: catch_up_def Let_def split: option.splits if_splits)
    then have f: "filter (\<lambda>m. m_Topic m = name) (catch_up n (tget since n) now (topic_of h n)) = []"
      by (simp add: filter_empty_conv)
    obtain ok d where a: "addTopic n c = (ok, d)" by fastforce
    then have d: "wc_gone d = wc_gone c" "received name d = received name c"
      by (auto simp: addTopic_def received_def split: if_splits)
    show ?thesis
      using g d a f received_fold_push [of "catch_up n (tget since n) now (topic_of h n)" d name]
      by (auto simp: subscribe_one_def split: if_splits bool.splits)
  qed
  from Cons.IH [of ?c] Cons.prems step show ?case by auto
qed simp

lemma topics_subscribe: "name \<in> set (wc_topics c) \<Longrightarrow> name \<in> set (wc_topics (fold (subscribe_one since now h) names c))"
proof (induction names arbitrary: c)
  case (Cons n ns)
  have fp: "wc_topics (fold push ms d) = wc_topics d" for ms d by (induction ms arbitrary: d) auto
  have "name \<in> set (wc_topics (subscribe_one since now h n c))"
    using Cons.prems by (auto simp: subscribe_one_def addTopic_def fp)
  then show ?case using Cons.IH by simp
qed simp

lemma topics_remove: "wc_topics (fold removeTopic names c) = filter (\<lambda>t. t \<notin> set names) (wc_topics c) \<and>
  wc_gone (fold removeTopic names c) = wc_gone c \<and> received name (fold removeTopic names c) = received name c"
  by (induction names arbitrary: c) (auto simp: removeTopic_def received_def intro: filter_cong)

lemma follows_publish:
  assumes f: "follows i name base s0 h"
  shows "follows i name base s0 (Publish topic typ raw now h)"
proof (cases raw)
  case None
  with f show ?thesis by (simp add: Publish_def)
next
  case (Some r)
  from f obtain c where c: "tget (hub_clients h) i = Some c" "name \<in> set (wc_topics c)"
    "s0 \<le> ts_seq (topic_of h name)"
    "wc_gone c = None \<longrightarrow> (\<exists>live. received name c = base @ live \<and> map m_Seq live = [Suc s0..<Suc (ts_seq (topic_of h name))])"
    unfolding follows_def by (elim exE conjE) (rule that)
  let ?m = "\<lparr>m_Topic = topic, m_Seq = ts_seq (topic_of h topic) + 1, m_Type = typ, m_At = now, m_Data = r\<rparr>"
  let ?h = "Publish topic typ raw now h"
  let ?d = "if subscribed c topic then push ?m c else c"
  have d: "tget (hub_clients ?h) i = Some ?d"
    unfolding Publish_def Some option.case Let_def each_client_def by (simp add: tget_map c(1))
  have s: "ts_seq (topic_of ?h name) = (if topic = name then ts_seq (topic_of h name) + 1 else ts_seq (topic_of h name))"
    unfolding Publish_def Some option.case Let_def each_client_def topic_of_def by simp
  have "\<exists>live. received name ?d = base @ live \<and> map m_Seq live = [Suc s0..<Suc (ts_seq (topic_of ?h name))]"
    if g: "wc_gone ?d = None"
  proof (cases "subscribed c topic")
    case True
    then have g': "wc_gone (push ?m c) = None" using g by simp
    note r = received_push [OF g', of name]
    then obtain live where l: "received name c = base @ live" "map m_Seq live = [Suc s0..<Suc (ts_seq (topic_of h name))]"
      using c(4) by blast
    show ?thesis
    proof (cases "topic = name")
      case True
      then have "received name ?d = base @ (live @ [?m])" using r l \<open>subscribed c topic\<close> by simp
      moreover have "map m_Seq (live @ [?m]) = [Suc s0..<Suc (ts_seq (topic_of ?h name))]"
        using l(2) s True c(3) by simp
      ultimately show ?thesis by blast
    next
      case False
      then show ?thesis using r l s \<open>subscribed c topic\<close> by simp
    qed
  next
    case False
    then have "topic \<noteq> name" using c(2) by (auto simp: subscribed_def)
    then show ?thesis using c(4) g False s by simp
  qed
  moreover have "name \<in> set (wc_topics ?d)" using c(2) by simp
  moreover have "s0 \<le> ts_seq (topic_of ?h name)" using c(3) s by simp
  ultimately show ?thesis unfolding follows_def using d by (intro exI [of _ ?d] conjI impI)
qed

lemma follows_do:
  assumes f: "follows i name base s0 h" and ok: "hub_ok h" and c: "\<not> concerns i name op"
  shows "follows i name base s0 (hub_do op h)"
proof -
  have bufs: "\<forall>n. \<forall>m\<in>set (ts_buf (topic_of h n)). m_Topic m = n"
    using topic_of_ok [OF ok] by (simp add: topic_ok_def)
  have sub: "follows i name base s0 (on_client j g h)"
    if "j = i \<Longrightarrow> \<forall>c. (name \<in> set (wc_topics c) \<longrightarrow> name \<in> set (wc_topics (g c))) \<and>
        (wc_gone (g c) = None \<longrightarrow> wc_gone c = None \<and> received name (g c) = received name c)" for j g
  proof (rule follows_client [OF f])
    fix c assume "tget (hub_clients h) i = Some c"
    then show "\<exists>d. tget (hub_clients (on_client j g h)) i = Some d \<and>
      (name \<in> set (wc_topics c) \<longrightarrow> name \<in> set (wc_topics d)) \<and>
      (wc_gone d = None \<longrightarrow> wc_gone c = None \<and> received name d = received name c)"
      using that by (cases "j = i") (auto simp: on_client_same on_client_other)
  qed simp
  show ?thesis
  proof (cases op)
    case (HPublish topic ty raw now)
    then show ?thesis using follows_publish [OF f] by simp
  next
    case (HForget topic)
    with c show ?thesis by (auto intro!: follows_client [OF f] simp: Forget_def topic_of_def)
  next
    case (HDisconnect matches reason)
    then show ?thesis
      by (auto intro!: follows_client [OF f] simp: disconnect_def each_client_def topic_of_def tget_map)
        (auto simp: end_client_def split: if_splits)
  next
    case (HAdd j session tok)
    with c show ?thesis by (auto intro!: follows_client [OF f] simp: add_client_def topic_of_def)
  next
    case (HRemove j)
    with c show ?thesis by (auto intro!: follows_client [OF f] simp: remove_client_def topic_of_def)
  next
    case (HSubscribe j names since now)
    with c have "j = i \<Longrightarrow> name \<notin> set (take maxTopics names)" using in_set_takeD by fastforce
    then show ?thesis unfolding HSubscribe hub_do.simps op_subscribe_def subscribe_def
      by (intro sub allI conjI impI topics_subscribe)
        (blast dest: received_subscribe_other [OF _ bufs])+
  next
    case (HUnsubscribe j names)
    with c show ?thesis unfolding HUnsubscribe hub_do.simps op_unsubscribe_def
      by (intro sub) (auto simp: topics_remove)
  next
    case (HTake j)
    then show ?thesis by (auto intro!: sub)
  qed
qed

definition hub_run :: "hub_op list \<Rightarrow> Hub \<Rightarrow> Hub" where
  "hub_run ops h = fold hub_do ops h"

lemma follows_run:
  "follows i name base s0 h \<Longrightarrow> hub_ok h \<Longrightarrow> \<forall>op\<in>set ops. \<not> concerns i name op \<Longrightarrow> follows i name base s0 (hub_run ops h)"
  unfolding hub_run_def
proof (induction ops arbitrary: h)
  case (Cons op ops)
  then show ?case using follows_do [of i name base s0 h op] hub_do_ok [of h op] by simp
qed simp

lemma catch_up_covers:
  assumes t: "topic_ok name t" and l: "lst < ts_seq t" "ts_buf t \<noteq> []" "m_Seq (hd (ts_buf t)) \<le> lst + 1"
  shows "map m_Seq (filter (\<lambda>m. lst < m_Seq m) (ts_buf t)) = [Suc lst..<Suc (ts_seq t)]"
proof -
  let ?first = "Suc (ts_seq t - length (ts_buf t))"
  have s: "map m_Seq (ts_buf t) = [?first..<Suc (ts_seq t)]" using t by (simp only: topic_ok_def)
  have "m_Seq (hd (ts_buf t)) = hd [?first..<Suc (ts_seq t)]" using s l(2) by (metis list.map_sel(1))
  moreover have "?first < Suc (ts_seq t)" using l by (cases "ts_buf t") auto
  ultimately have first: "?first \<le> Suc lst" using l(3) by (simp add: upt_conv_Cons del: upt_Suc)
  have "map m_Seq (filter (\<lambda>m. lst < m_Seq m) (ts_buf t)) = filter (\<lambda>n. lst < n) [?first..<Suc (ts_seq t)]"
    unfolding s [symmetric] by (simp add: filter_map o_def)
  also have "[?first..<Suc (ts_seq t)] = [?first..<Suc lst] @ [Suc lst..<Suc (ts_seq t)]"
    using first l(1) using upt_add_eq_append [of ?first "Suc lst" "ts_seq t - lst"] by simp
  also have "filter (\<lambda>n. lst < n) \<dots> = [Suc lst..<Suc (ts_seq t)]"
    by (simp add: filter_empty_conv del: upt_Suc)
  finally show ?thesis .
qed

text \<open>What subscribing to one topic gives: a notice with the current number, or the messages after the
  last one the client saw.\<close>

definition caught_up :: "nat option \<Rightarrow> nat \<Rightarrow> nat \<Rightarrow> Message list \<Rightarrow> bool" where
  "caught_up resume s0 final new =
    ((\<exists>lst. resume = Some lst \<and> map m_Seq new = [Suc lst..<Suc final]) \<or>
     (\<exists>n rest. new = n # rest \<and> m_Seq n = s0 \<and> map m_Seq rest = [Suc s0..<Suc final] \<and>
        (m_Type n = ''resync'' \<or> (m_Type n = ''subscribed'' \<and> (case resume of None \<Rightarrow> True | Some lst \<Rightarrow> s0 \<le> lst)))))"

lemma catch_up_follows:
  assumes t: "topic_ok name t" and live: "map m_Seq live = [Suc (ts_seq t)..<Suc final]" "ts_seq t \<le> final"
  shows "caught_up resume (ts_seq t) final (catch_up name resume now t @ live)"
proof (cases "\<exists>lst. resume = Some lst \<and> lst < ts_seq t \<and> ts_buf t \<noteq> [] \<and> m_Seq (hd (ts_buf t)) \<le> lst + 1")
  case True
  then obtain lst where l: "resume = Some lst" "lst < ts_seq t" "ts_buf t \<noteq> []" "m_Seq (hd (ts_buf t)) \<le> lst + 1" by blast
  then have "map m_Seq (catch_up name resume now t @ live) = [Suc lst..<Suc (ts_seq t)] @ [Suc (ts_seq t)..<Suc final]"
    using catch_up_covers [OF t l(2-4)] live(1) by (simp add: catch_up_def del: upt_Suc)
  also have "\<dots> = [Suc lst..<Suc final]"
    using upt_add_eq_append [of "Suc lst" "Suc (ts_seq t)" "final - ts_seq t"] l(2) live(2) by (simp del: upt_Suc)
  finally show ?thesis using l(1) unfolding caught_up_def by blast
next
  case False
  then show ?thesis using live(1)
    by (cases resume) (auto simp: catch_up_def caught_up_def Let_def simp del: upt_Suc)
qed

text \<open>C34. A subscription loses nothing: after subscribing to a topic, whatever the hub and its other
  clients do, a client that is still connected has received exactly the messages after the last one
  it had seen, in order and without gap, or a notice with the number it starts from followed by all
  later messages; the notice asks it to reload when it had missed something.\<close>

theorem subscribe_gapless:
  assumes ok: "hub_ok h" and c: "tget (hub_clients h) i = Some c" "validTopic name"
    and room: "subscribed c name \<or> length (wc_topics c) < maxTopics"
    and ops: "\<forall>op\<in>set ops. \<not> concerns i name op"
    and r: "h' = hub_run ops (hub_do (HSubscribe i [name] since now) h)"
    and d: "tget (hub_clients h') i = Some d" "wc_gone d = None"
  shows "\<exists>new. received name d = received name c @ new \<and>
    caught_up (tget since name) (ts_seq (topic_of h name)) (ts_seq (topic_of h' name)) new"
proof -
  let ?t = "topic_of h name" and ?h1 = "hub_do (HSubscribe i [name] since now) h"
  let ?first = "catch_up name (tget since name) now ?t"
  obtain c1 where c1: "addTopic name c = (True, c1)" "name \<in> set (wc_topics c1)" "wc_gone c1 = wc_gone c"
    "received name c1 = received name c"
    using room by (auto simp: addTopic_def subscribed_def received_def)
  have fp: "wc_topics (fold push ms d) = wc_topics d" for ms d by (induction ms arbitrary: d) auto
  have t: "topic_ok name ?t" by (rule topic_of_ok [OF ok])
  have f: "filter (\<lambda>m. m_Topic m = name) ?first = ?first"
    using t by (auto simp: catch_up_def Let_def topic_ok_def filter_id_conv split: option.split)
  have g: "tget (hub_clients ?h1) i = Some (fold push ?first c1)"
    using c c1(1) by (simp add: op_subscribe_def subscribe_def on_client_def maxTopics_def subscribe_one_def)
  have s: "topic_of ?h1 name = ?t" by (simp add: op_subscribe_def subscribe_def)
  have "follows i name (received name c @ ?first) (ts_seq ?t) ?h1"
    unfolding follows_def s
    using g c1 fp received_fold_push [of ?first c1 name] f by (intro exI [of _ "fold push ?first c1"]) simp
  then have "follows i name (received name c @ ?first) (ts_seq ?t) h'"
    unfolding r by (rule follows_run [OF _ hub_do_ok [OF ok] ops])
  then obtain live where live: "received name d = (received name c @ ?first) @ live"
    "map m_Seq live = [Suc (ts_seq ?t)..<Suc (ts_seq (topic_of h' name))]" "ts_seq ?t \<le> ts_seq (topic_of h' name)"
    using d unfolding follows_def by (elim exE conjE) (simp del: upt_Suc, blast)
  from catch_up_follows [OF t live(2,3)] live(1) show ?thesis by (metis append.assoc)
qed

theorem subscribe_gapless_witness:
  "\<exists>h d new. received ''node'' d = new \<and> tget (hub_clients h) 7 = Some d \<and>
    caught_up (Some 0) 1 (ts_seq (topic_of h ''node'')) new"
proof -
  let ?c = "newWSClient ''s'' []"
  let ?pub = "HPublish ''node'' ''metrics'' (Some ''1'') 5"
  let ?h = "hub_do ?pub (hub_do (HAdd 7 ''s'' []) NewHub)"
  let ?since = "[(''node'', 0 :: nat)]"
  let ?h' = "hub_run [?pub] (hub_do (HSubscribe 7 [''node''] ?since 6) ?h)"
  have ok: "hub_ok ?h" by (intro hub_do_ok) (simp add: hub_ok_def NewHub_def)
  have c: "tget (hub_clients ?h) 7 = Some ?c"
    by (simp add: Publish_def Let_def each_client_def add_client_def NewHub_def newWSClient_def subscribed_def)
  have v: "validTopic ''node''" by (simp add: validTopic_def fixedTopics_def)
  have room: "subscribed ?c ''node'' \<or> length (wc_topics ?c) < maxTopics" by (simp add: newWSClient_def maxTopics_def)
  obtain d where d: "tget (hub_clients ?h') 7 = Some d" "wc_gone d = None"
    by (simp add: hub_run_def Publish_def Let_def each_client_def add_client_def NewHub_def newWSClient_def subscribed_def
        op_subscribe_def subscribe_def on_client_def subscribe_one_def addTopic_def maxTopics_def v catch_up_def topic_of_def
        no_topic_def bufferSize_def push_def wsQueue_def)
  have s: "ts_seq (topic_of ?h ''node'') = 1" "received ''node'' ?c = []"
    by (simp_all add: Publish_def Let_def each_client_def add_client_def NewHub_def topic_of_def no_topic_def received_def newWSClient_def)
  from subscribe_gapless [OF ok c v room _ refl d] s d show ?thesis by fastforce
qed

end
