(* ===== verification/Ipc_Conn.thy ===== *)
theory Ipc_Conn
  imports Go_Text
begin

text \<open>
  The protocol between the main service and a camera process,
  \<^verbatim>\<open>backend/internal/ipc/conn.go\<close>: the framing of messages as lines over a buffered reader, and one
  end of a connection with its pending requests and its inbox. Encoding and decoding of JSON are
  arguments.
\<close>

section \<open>Lines\<close>

definition MaxMessageSize :: nat where "MaxMessageSize = 2 ^ 20"

definition newline :: char where "newline = CHR 0x0A"

datatype read_error = EOF | ErrBufferFull

text \<open>\<^verbatim>\<open>bufio.Reader.ReadSlice\<close> of a reader of \<open>n\<close> bytes: up to the delimiter, or a full buffer, or what
  is left before the end of the stream.\<close>

definition ReadSlice :: "nat \<Rightarrow> string \<Rightarrow> string \<times> read_error option \<times> string" where
  "ReadSlice n s =
    (let k = length (takeWhile (\<lambda>c. c \<noteq> newline) s) in
     if k < n \<and> k < length s then (take (k + 1) s, None, drop (k + 1) s)
     else if n \<le> length s then (take n s, Some ErrBufferFull, drop n s)
     else (s, Some EOF, []))"

datatype line_error = ErrTooLarge | ReadError read_error

text \<open>The loop that skips the rest of a long line.\<close>

function skip_line :: "nat \<Rightarrow> read_error option \<Rightarrow> string \<Rightarrow> read_error option \<times> string" where
  "skip_line n err s =
    (if err = Some ErrBufferFull \<and> 0 < n
     then (case ReadSlice n s of (_, err, s) \<Rightarrow> skip_line n err s)
     else (err, s))"
  by pat_completeness auto
termination
  by (relation "measure (\<lambda>(n, err, s). if err = Some ErrBufferFull then Suc (length s) else 0)")
    (auto simp: ReadSlice_def Let_def split: if_splits)

function readLine_loop :: "nat \<Rightarrow> string \<Rightarrow> string \<Rightarrow> (line_error, string) result \<times> string" where
  "readLine_loop n buf s =
    (case ReadSlice n s of (chunk, err, s') \<Rightarrow>
       if MaxMessageSize + 1 < length buf + length chunk then
         (case skip_line n err s' of
            (Some e, s'') \<Rightarrow> (Inl (ReadError e), s'')
          | (None, s'') \<Rightarrow> (Inl ErrTooLarge, s''))
       else if err = Some ErrBufferFull \<and> 0 < n then readLine_loop n (buf @ chunk) s'
       else case err of
         Some e \<Rightarrow> (Inl (ReadError e), s')
       | None \<Rightarrow> (Inr (butlast (buf @ chunk)), s'))"
  by pat_completeness auto
termination
  by (relation "measure (\<lambda>(n, buf, s). length s)")
    (auto simp: ReadSlice_def Let_def split: if_splits)

declare skip_line.simps [simp del] readLine_loop.simps [simp del]

text \<open>The reader of a connection holds 64 KiB.\<close>

definition bufSize :: nat where "bufSize = 2 ^ 16"

definition readLine :: "string \<Rightarrow> (line_error, string) result \<times> string" where
  "readLine s = readLine_loop bufSize [] s"

text \<open>What reading a line means, whatever the size of the buffer.\<close>

definition line_spec :: "string \<Rightarrow> (line_error, string) result \<times> string" where
  "line_spec s =
    (case cut newline s of
       None \<Rightarrow> (Inl (ReadError EOF), [])
     | Some (line, rest) \<Rightarrow>
         (if length line \<le> MaxMessageSize then (Inr line, rest) else (Inl ErrTooLarge, rest)))"

lemma ReadSlice_cases:
  assumes "0 < n"
  obtains
    (line) line rest where "s = line @ newline # rest" "newline \<notin> set line" "length line < n"
      "ReadSlice n s = (line @ [newline], None, rest)"
  | (full) chunk rest where "s = chunk @ rest" "newline \<notin> set chunk" "length chunk = n"
      "ReadSlice n s = (chunk, Some ErrBufferFull, rest)"
  | (eof) "newline \<notin> set s" "length s < n" "ReadSlice n s = (s, Some EOF, [])"
proof -
  let ?w = "takeWhile (\<lambda>c. c \<noteq> newline) s"
  let ?k = "length ?w"
  have w: "newline \<notin> set ?w" by (auto dest: set_takeWhileD)
  consider "?k < n \<and> ?k < length s" | "\<not> (?k < n \<and> ?k < length s)" "n \<le> length s" | "\<not> (?k < n \<and> ?k < length s)" "length s < n"
    by linarith
  then show ?thesis
  proof cases
    case 1
    have p: "s = ?w @ dropWhile (\<lambda>c. c \<noteq> newline) s" by simp
    with 1 have ne: "dropWhile (\<lambda>c. c \<noteq> newline) s \<noteq> []"
      by (metis append.right_neutral less_irrefl)
    then obtain x rest where d: "dropWhile (\<lambda>c. c \<noteq> newline) s = x # rest" by (cases "dropWhile (\<lambda>c. c \<noteq> newline) s") auto
    have "x = newline" using hd_dropWhile [OF ne] d by simp
    with d p have s: "s = ?w @ newline # rest" by simp
    have "take (?k + 1) s = ?w @ [newline]" "drop (?k + 1) s = rest"
      by (subst s, simp)+
    with 1 have "ReadSlice n s = (?w @ [newline], None, rest)" by (simp add: ReadSlice_def Let_def)
    with s w 1 line show ?thesis by blast
  next
    case 2
    then have k: "n \<le> ?k" by (metis linorder_not_less le_neq_implies_less length_takeWhile_le)
    then have "take n s = take n ?w" by (metis takeWhile_eq_take take_take min.absorb1)
    then have "newline \<notin> set (take n s)" using w by (auto dest: in_set_takeD)
    with 2 full [of "take n s" "drop n s"] show ?thesis by (simp add: ReadSlice_def Let_def)
  next
    case 3
    then have "?k = length s" by (metis le_neq_implies_less length_takeWhile_le less_trans)
    then have "newline \<notin> set s" using w by (metis takeWhile_eq_take take_all order_refl)
    with 3 eof show ?thesis by (simp add: ReadSlice_def Let_def)
  qed
qed

lemma skip_line_spec:
  assumes "0 < n"
  shows "skip_line n (Some ErrBufferFull) s =
    (case cut newline s of None \<Rightarrow> (Some EOF, []) | Some (line, rest) \<Rightarrow> (None, rest))"
proof (induction "length s" arbitrary: s rule: less_induct)
  case less
  show ?case using assms
  proof (cases rule: ReadSlice_cases [of n s])
    case (line l rest)
    then have "cut newline s = Some (l, rest)" by (simp add: cut_Some)
    with line show ?thesis
      by (simp add: skip_line.simps [of n "Some ErrBufferFull"] skip_line.simps [of n None] assms)
  next
    case (full chunk rest)
    have "length rest < length s" using full assms by simp
    from less [OF this] have IH: "skip_line n (Some ErrBufferFull) rest =
        (case cut newline rest of None \<Rightarrow> (Some EOF, []) | Some (line, rest) \<Rightarrow> (None, rest))" .
    have r: "skip_line n (Some ErrBufferFull) s =
        (case cut newline rest of None \<Rightarrow> (Some EOF, []) | Some (line, rest) \<Rightarrow> (None, rest))"
      by (subst skip_line.simps) (simp add: full(4) assms IH)
    show ?thesis
    proof (cases "cut newline rest")
      case None
      with full have "cut newline s = None" by (simp add: cut_None)
      with r None show ?thesis by simp
    next
      case (Some p)
      obtain a b where p: "p = (a, b)" by fastforce
      with Some full have "cut newline s = Some (chunk @ a, b)" by (simp add: cut_Some)
      with r Some p show ?thesis by simp
    qed
  next
    case eof
    then have "cut newline s = None" by (simp add: cut_None)
    with eof show ?thesis
      by (simp add: skip_line.simps [of n "Some ErrBufferFull"] skip_line.simps [of n "Some EOF"] assms)
  qed
qed

lemma readLine_loop_spec:
  assumes "0 < n"
  shows "newline \<notin> set buf \<Longrightarrow> readLine_loop n buf s = line_spec (buf @ s)"
proof (induction "length s" arbitrary: buf s rule: less_induct)
  case less
  show ?case using assms
  proof (cases rule: ReadSlice_cases [of n s])
    case (line l rest)
    then have "cut newline (buf @ s) = Some (buf @ l, rest)" using less.prems by (simp add: cut_Some)
    with line show ?thesis
      by (subst readLine_loop.simps) (simp add: line_spec_def skip_line.simps [of n None] butlast_append)
  next
    case (full chunk rest)
    have shorter: "length rest < length s" using full assms by simp
    show ?thesis
    proof (cases "MaxMessageSize + 1 < length buf + length chunk")
      case True
      show ?thesis
      proof (cases "cut newline rest")
        case None
        then have "cut newline (buf @ s) = None" using full less.prems by (simp add: cut_None)
        with None True full show ?thesis
          by (subst readLine_loop.simps) (simp add: skip_line_spec [OF assms] line_spec_def)
      next
        case (Some p)
        obtain a b where p: "p = (a, b)" by fastforce
        with Some full less.prems have "cut newline (buf @ s) = Some (buf @ chunk @ a, b)" by (simp add: cut_Some)
        with Some p True full show ?thesis
          by (subst readLine_loop.simps) (simp add: skip_line_spec [OF assms] line_spec_def)
      qed
    next
      case False
      have "newline \<notin> set (buf @ chunk)" using full less.prems by simp
      from less.hyps [OF shorter this] False full assms show ?thesis
        by (subst readLine_loop.simps) simp
    qed
  next
    case eof
    then have "cut newline (buf @ s) = None" using less.prems by (simp add: cut_None)
    with eof show ?thesis
      by (subst readLine_loop.simps) (simp add: skip_line.simps [of n "Some EOF"] line_spec_def)
  qed
qed

text \<open>Whatever the chunks the buffered reader hands out, reading a line returns the bytes up to the
  next newline when they are at most one megabyte, skips exactly that line when it is longer, and
  ends with the stream.\<close>

theorem readLine_line: "readLine s = line_spec s"
  using readLine_loop_spec [of bufSize "[]" s] by (simp add: readLine_def bufSize_def)

text \<open>The lines \<^verbatim>\<open>Run\<close> gets to see until the stream ends.\<close>

function read_lines :: "string \<Rightarrow> string list" where
  "read_lines s =
    (case readLine s of
       (Inl (ReadError _), _) \<Rightarrow> []
     | (Inl ErrTooLarge, s) \<Rightarrow> read_lines s
     | (Inr line, s) \<Rightarrow> line # read_lines s)"
  by pat_completeness auto
termination
  by (relation "measure length")
    (auto simp: readLine_line line_spec_def cut_Some split: option.splits prod.splits if_splits)

declare read_lines.simps [simp del]

lemma read_lines_cut:
  "cut newline s = Some (m, rest) \<Longrightarrow>
   read_lines s = (if length m \<le> MaxMessageSize then m # read_lines rest else read_lines rest)"
  by (simp add: read_lines.simps [of s] readLine_line line_spec_def)

definition frame :: "string \<Rightarrow> string" where
  "frame raw = raw @ [newline]"

text \<open>What one end writes the other reads: the messages of a stream come out as they went in, in
  order, less those longer than a megabyte, which are dropped without touching their neighbours.\<close>

theorem framing_roundtrip:
  assumes "\<forall>m\<in>set ms. newline \<notin> set m"
  shows "read_lines (concat (map frame ms)) = filter (\<lambda>m. length m \<le> MaxMessageSize) ms"
  using assms
proof (induction ms)
  case Nil
  show ?case by (simp add: read_lines.simps readLine_line line_spec_def)
next
  case (Cons m ms)
  then have "cut newline (concat (map frame (m # ms))) = Some (m, concat (map frame ms))"
    by (simp add: frame_def cut_Some)
  from read_lines_cut [OF this] Cons show ?case by simp
qed

theorem framing_roundtrip_witness: "read_lines (concat (map frame [''{}'', ''[]''])) = [''{}'', ''[]'']"
proof -
  have "\<forall>m\<in>set [''{}'', ''[]'']. newline \<notin> set m" by (simp add: newline_def)
  from framing_roundtrip [OF this] show ?thesis by (simp add: MaxMessageSize_def)
qed

section \<open>A connection\<close>

record ipc_Error =
  ie_Code :: string
  ie_Message :: string

record Envelope =
  env_V :: int
  env_ID :: string
  env_Re :: string
  env_Type :: string
  env_At :: int
  env_OK :: "bool option"
  env_Error :: "ipc_Error option"
  env_Data :: string

definition ipc_Version :: int where "ipc_Version = 1"

datatype conn_error = ErrClosed | ErrContext | ErrWrite | ErrMarshal | ErrSize | ErrReply ipc_Error

text \<open>
  One end of a connection. \<open>cn_chans\<close> holds the channel of every call of \<^verbatim>\<open>Request\<close> that has not
  returned, by the identifier of its message; \<open>cn_read\<close> is what \<^verbatim>\<open>Run\<close> has decoded, \<open>cn_handled\<close> what
  the worker has dispatched, \<open>cn_out\<close> what has been written. Identifiers of requests are new, as ULIDs are.
\<close>

record conn =
  cn_pending :: "string list"
  cn_chans :: "(string, Envelope list) table"
  cn_inbox :: "Envelope list"
  cn_handled :: "Envelope list"
  cn_read :: "Envelope list"
  cn_out :: "string list"
  cn_closed :: bool
  cn_err :: "read_error option"

definition NewConn :: conn where
  "NewConn = \<lparr>cn_pending = [], cn_chans = [], cn_inbox = [], cn_handled = [], cn_read = [], cn_out = [],
     cn_closed = False, cn_err = None\<rparr>"

definition shutdown :: "read_error option \<Rightarrow> conn \<Rightarrow> conn" where
  "shutdown err c = (if cn_closed c then c else c\<lparr>cn_err := err, cn_closed := True\<rparr>)"

text \<open>\<open>encode\<close> is \<^verbatim>\<open>json.Marshal\<close>; \<open>broken\<close> says whether the socket refuses the bytes.\<close>

definition ipc_write :: "(Envelope \<Rightarrow> string option) \<Rightarrow> bool \<Rightarrow> Envelope \<Rightarrow> conn \<Rightarrow> conn_error option \<times> conn" where
  "ipc_write encode broken e c =
    (case encode e of
       None \<Rightarrow> (Some ErrMarshal, c)
     | Some raw \<Rightarrow>
         (if MaxMessageSize < length raw then (Some ErrSize, c)
          else if cn_closed c then (Some ErrClosed, c)
          else if broken then (Some ErrClosed, shutdown (Some EOF) c)
          else (None, c\<lparr>cn_out := cn_out c @ [frame raw]\<rparr>)))"

definition reply :: "(Envelope \<Rightarrow> string option) \<Rightarrow> bool \<Rightarrow> string \<Rightarrow> (ipc_Error, string) result \<Rightarrow> conn \<Rightarrow>
  conn_error option \<times> conn" where
  "reply encode broken i r c =
    (let e = \<lparr>env_V = ipc_Version, env_ID = [], env_Re = i, env_Type = [], env_At = 0, env_OK = None,
              env_Error = None, env_Data = []\<rparr> in
     ipc_write encode broken
       (case r of Inl err \<Rightarrow> e\<lparr>env_Error := Some err\<rparr> | Inr d \<Rightarrow> e\<lparr>env_OK := Some True, env_Data := d\<rparr>) c)"

definition inboxSize :: nat where "inboxSize = 256"

text \<open>The body of the loop of \<^verbatim>\<open>Run\<close> on one decoded message: \<open>None\<close> while it blocks, sending to a
  channel or to the inbox.\<close>

definition on_message :: "(Envelope \<Rightarrow> string option) \<Rightarrow> bool \<Rightarrow> Envelope \<Rightarrow> conn \<Rightarrow> conn option" where
  "on_message encode broken m c =
    (let c' = c\<lparr>cn_read := cn_read c @ [m]\<rparr> in
     if env_V m \<noteq> ipc_Version then
       Some (if env_ID m \<noteq> [] \<and> env_Re m = []
             then snd (reply encode broken (env_ID m)
               (Inl \<lparr>ie_Code = ''version'', ie_Message = ''unsupported protocol version''\<rparr>) c')
             else c')
     else if env_Re m \<noteq> [] then
       (if env_Re m \<in> set (cn_pending c) then
          (case tget (cn_chans c) (env_Re m) of
             Some [] \<Rightarrow> Some (c'\<lparr>cn_pending := removeAll (env_Re m) (cn_pending c),
                               cn_chans := tput (env_Re m) [m] (cn_chans c)\<rparr>)
           | _ \<Rightarrow> None)
        else Some c')
     else if length (cn_inbox c) < inboxSize then Some (c'\<lparr>cn_inbox := cn_inbox c @ [m]\<rparr>)
     else None)"

text \<open>The worker takes one message; \<open>handler\<close> is \<open>None\<close> when the connection has none.\<close>

definition ipc_dispatch ::
  "(Envelope \<Rightarrow> string option) \<Rightarrow> bool \<Rightarrow> (Envelope \<Rightarrow> (ipc_Error, string) result) option \<Rightarrow> conn \<Rightarrow> conn" where
  "ipc_dispatch encode broken handler c =
    (case cn_inbox c of
       [] \<Rightarrow> c
     | m # ms \<Rightarrow>
         (let c = c\<lparr>cn_inbox := ms, cn_handled := cn_handled c @ [m]\<rparr>;
              r = (case handler of
                     None \<Rightarrow> Inl \<lparr>ie_Code = ''unsupported'', ie_Message = ''no handler''\<rparr>
                   | Some f \<Rightarrow> f m)
          in if env_ID m = [] then c else snd (reply encode broken (env_ID m) r c)))"

definition Notify :: "(Envelope \<Rightarrow> string option) \<Rightarrow> bool \<Rightarrow> Envelope \<Rightarrow> conn \<Rightarrow> conn_error option \<times> conn" where
  "Notify encode broken e c = ipc_write encode broken e c"

text \<open>\<^verbatim>\<open>Request\<close> in two steps: it registers its channel and writes, then it returns with its reply, when
  its context ends or when the connection closes.\<close>

definition forget_request :: "string \<Rightarrow> conn \<Rightarrow> conn" where
  "forget_request i c = c\<lparr>cn_pending := removeAll i (cn_pending c), cn_chans := tdel i (cn_chans c)\<rparr>"

definition request_begin :: "(Envelope \<Rightarrow> string option) \<Rightarrow> bool \<Rightarrow> Envelope \<Rightarrow> conn \<Rightarrow> conn_error option \<times> conn" where
  "request_begin encode broken e c =
    (case ipc_write encode broken e (c\<lparr>cn_pending := cn_pending c @ [env_ID e], cn_chans := tput (env_ID e) [] (cn_chans c)\<rparr>) of
       (Some err, c) \<Rightarrow> (Some err, forget_request (env_ID e) c)
     | (None, c) \<Rightarrow> (None, c))"

datatype request_end = GotReply | ContextDone | ConnClosed

definition request_result :: "request_end \<Rightarrow> string \<Rightarrow> conn \<Rightarrow> (conn_error, Envelope) result option \<times> conn" where
  "request_result how i c =
    (case how of
       GotReply \<Rightarrow>
         (case tget (cn_chans c) i of
            Some (rep # _) \<Rightarrow>
              (Some (case env_Error rep of Some e \<Rightarrow> Inl (ErrReply e) | None \<Rightarrow> Inr rep), forget_request i c)
          | _ \<Rightarrow> (None, c))
     | ContextDone \<Rightarrow> (Some (Inl ErrContext), forget_request i c)
     | ConnClosed \<Rightarrow> (if cn_closed c then (Some (Inl ErrClosed), forget_request i c) else (None, c)))"

text \<open>The steps of one end; a request takes an identifier no other call is using.\<close>

inductive conn_step :: "conn \<Rightarrow> conn \<Rightarrow> bool" where
  step_message: "on_message encode broken m c = Some c' \<Longrightarrow> conn_step c c'"
| step_dispatch: "conn_step c (ipc_dispatch encode broken handler c)"
| step_notify: "Notify encode broken e c = (r, c') \<Longrightarrow> conn_step c c'"
| step_request: "env_ID e \<noteq> [] \<Longrightarrow> env_ID e \<notin> set (tkeys (cn_chans c)) \<Longrightarrow>
    request_begin encode broken e c = (r, c') \<Longrightarrow> conn_step c c'"
| step_return: "request_result how i c = (Some r, c') \<Longrightarrow> conn_step c c'"
| step_close: "conn_step c (shutdown err c)"

definition chans_ok :: "string list \<Rightarrow> (string, Envelope list) table \<Rightarrow> bool" where
  "chans_ok pending chans = (table_ok chans \<and> (\<forall>i\<in>set pending. tget chans i = Some []) \<and>
     (\<forall>i ms. tget chans i = Some ms \<longrightarrow> length ms \<le> 1 \<and> (\<forall>m\<in>set ms. env_Re m = i)))"

definition conn_ok :: "conn \<Rightarrow> bool" where
  "conn_ok c = (chans_ok (cn_pending c) (cn_chans c) \<and> length (cn_inbox c) \<le> inboxSize \<and>
     cn_handled c @ cn_inbox c = filter (\<lambda>m. env_V m = ipc_Version \<and> env_Re m = []) (cn_read c))"

lemma shutdown_frame [simp]:
  "cn_pending (shutdown e c) = cn_pending c" "cn_chans (shutdown e c) = cn_chans c" "cn_inbox (shutdown e c) = cn_inbox c"
  "cn_handled (shutdown e c) = cn_handled c" "cn_read (shutdown e c) = cn_read c"
  by (simp_all add: shutdown_def)

lemma write_frame:
  "ipc_write encode broken e c = (r, c') \<Longrightarrow>
   cn_pending c' = cn_pending c \<and> cn_chans c' = cn_chans c \<and> cn_inbox c' = cn_inbox c \<and> cn_handled c' = cn_handled c \<and>
   cn_read c' = cn_read c"
  by (auto simp: ipc_write_def split: option.splits if_splits)

lemma conn_ok_frame:
  "conn_ok c \<Longrightarrow> cn_pending c' = cn_pending c \<Longrightarrow> cn_chans c' = cn_chans c \<Longrightarrow> cn_inbox c' = cn_inbox c \<Longrightarrow>
   cn_handled c' = cn_handled c \<Longrightarrow> cn_read c' = cn_read c \<Longrightarrow> conn_ok c'"
  by (simp add: conn_ok_def)

lemma write_ok: "ipc_write encode broken e c = (r, c') \<Longrightarrow> conn_ok c \<Longrightarrow> conn_ok c'"
  using write_frame [of encode broken e c r c'] conn_ok_frame [of c c'] by blast

lemma reply_ok: "conn_ok c \<Longrightarrow> conn_ok (snd (reply encode broken i r c))"
  unfolding reply_def Let_def using write_ok [of encode broken _ c] by (metis prod.collapse)

lemma chans_ok_register:
  "chans_ok p t \<Longrightarrow> i \<notin> set (tkeys t) \<Longrightarrow> chans_ok (p @ [i]) (tput i [] t)"
  by (auto simp: chans_ok_def dest: tget_Some_key)

lemma chans_ok_forget: "chans_ok p t \<Longrightarrow> chans_ok (removeAll i p) (tdel i t)"
  by (auto simp: chans_ok_def)

lemma chans_ok_reply:
  "chans_ok p t \<Longrightarrow> env_Re m = i \<Longrightarrow> chans_ok (removeAll i p) (tput i [m] t)"
  by (auto simp: chans_ok_def)

lemma on_message_ok:
  assumes "on_message encode broken m c = Some c'" "conn_ok c"
  shows "conn_ok c'"
proof -
  let ?c = "c\<lparr>cn_read := cn_read c @ [m]\<rparr>"
  consider "env_V m \<noteq> ipc_Version" | "env_V m = ipc_Version" "env_Re m \<noteq> []" | "env_V m = ipc_Version" "env_Re m = []" by blast
  then show ?thesis
  proof cases
    case 1
    then have "conn_ok ?c" using assms(2) by (simp add: conn_ok_def)
    with 1 assms(1) show ?thesis by (auto simp: on_message_def Let_def reply_ok)
  next
    case 2
    with assms show ?thesis
      by (auto simp: on_message_def Let_def conn_ok_def intro: chans_ok_reply split: if_splits option.splits list.splits)
  next
    case 3
    with assms have "length (cn_inbox c) < inboxSize" "c' = ?c\<lparr>cn_inbox := cn_inbox c @ [m]\<rparr>"
      by (auto simp: on_message_def Let_def split: if_splits)
    with 3 assms(2) show ?thesis by (auto simp: conn_ok_def simp flip: append_assoc)
  qed
qed

lemma dispatch_conn_ok: "conn_ok c \<Longrightarrow> conn_ok (ipc_dispatch encode broken handler c)"
proof (cases "cn_inbox c")
  case (Cons m ms)
  assume "conn_ok c"
  with Cons have "conn_ok (c\<lparr>cn_inbox := ms, cn_handled := cn_handled c @ [m]\<rparr>)" by (simp add: conn_ok_def)
  then show ?thesis by (simp add: ipc_dispatch_def Cons Let_def reply_ok)
qed (simp add: ipc_dispatch_def)

lemma forget_request_ok: "conn_ok c \<Longrightarrow> conn_ok (forget_request i c)"
  by (simp add: conn_ok_def forget_request_def chans_ok_forget)

lemma request_begin_ok:
  assumes "request_begin encode broken e c = (r, c')" "conn_ok c" "env_ID e \<notin> set (tkeys (cn_chans c))"
  shows "conn_ok c'"
proof -
  let ?c = "c\<lparr>cn_pending := cn_pending c @ [env_ID e], cn_chans := tput (env_ID e) [] (cn_chans c)\<rparr>"
  have "conn_ok ?c" using assms(2,3) by (simp add: conn_ok_def chans_ok_register)
  then have "conn_ok d" if "ipc_write encode broken e ?c = (q, d)" for q d using write_ok [OF that] by blast
  with assms(1) show ?thesis
    by (auto simp: request_begin_def forget_request_ok split: prod.splits option.splits)
qed

lemma conn_step_ok: "conn_step c c' \<Longrightarrow> conn_ok c \<Longrightarrow> conn_ok c'"
proof (induction rule: conn_step.induct)
  case (step_return how i c r c')
  then show ?case
    by (auto simp: request_result_def forget_request_ok split: request_end.splits option.splits list.splits if_splits)
next
  case (step_close c err)
  then show ?case using conn_ok_frame [of c "shutdown err c"] by simp
qed (auto simp: Notify_def intro: on_message_ok dispatch_conn_ok write_ok request_begin_ok)

interpretation ipc: machine NewConn conn_step conn_ok
proof
  show "conn_ok NewConn" by (simp add: conn_ok_def NewConn_def chans_ok_def)
qed (rule conn_step_ok)

definition sample_env_of :: "string \<Rightarrow> string \<Rightarrow> Envelope" where
  "sample_env_of i r = \<lparr>env_V = 1, env_ID = i, env_Re = r, env_Type = [], env_At = 0, env_OK = Some True,
     env_Error = None, env_Data = []\<rparr>"

definition one_request :: conn where
  "one_request = NewConn\<lparr>cn_pending := [''A''], cn_chans := [(''A'', [])], cn_out := [frame ''{}'']\<rparr>"

lemma one_request_reachable: "reach conn_step NewConn one_request"
proof (rule reach_step [OF reach_refl])
  have "request_begin (\<lambda>_. Some ''{}'') False (sample_env_of ''A'' []) NewConn = (None, one_request)"
    by (simp add: request_begin_def ipc_write_def sample_env_of_def NewConn_def one_request_def MaxMessageSize_def)
  moreover have "env_ID (sample_env_of ''A'' []) \<noteq> []" "env_ID (sample_env_of ''A'' []) \<notin> set (tkeys (cn_chans NewConn))"
    by (simp_all add: sample_env_of_def NewConn_def tkeys_def)
  ultimately show "conn_step NewConn one_request" by (blast intro: step_request)
qed

text \<open>C35. The reader never waits for a caller: in every reachable state a reply is taken at once, and it
  goes to the request whose identifier it carries or to nobody.\<close>

theorem reply_routed:
  assumes "reach conn_step NewConn c" "env_V m = ipc_Version" "env_Re m \<noteq> []"
  shows "\<exists>c'. on_message encode broken m c = Some c' \<and>
    (\<forall>i. tget (cn_chans c') i =
       (if i = env_Re m \<and> i \<in> set (cn_pending c) then Some [m] else tget (cn_chans c) i)) \<and>
    env_Re m \<notin> set (cn_pending c')"
proof -
  have "chans_ok (cn_pending c) (cn_chans c)" using ipc.inv_reachable [OF assms(1)] by (simp add: conn_ok_def)
  then show ?thesis using assms(2,3) by (auto simp: on_message_def Let_def chans_ok_def)
qed

theorem reply_routed_witness:
  "\<exists>c'. on_message (\<lambda>_. None) False (sample_env_of [] ''A'') one_request = Some c' \<and> tget (cn_chans c') ''A'' = Some [sample_env_of [] ''A'']"
proof -
  let ?m = "sample_env_of [] ''A''"
  have m: "env_V ?m = ipc_Version" "env_Re ?m = ''A''" "env_Re ?m \<noteq> []" by (simp_all add: sample_env_of_def ipc_Version_def)
  obtain c' where c: "on_message (\<lambda>_. None) False ?m one_request = Some c'"
    "\<forall>i. tget (cn_chans c') i = (if i = env_Re ?m \<and> i \<in> set (cn_pending one_request) then Some [?m] else tget (cn_chans one_request) i)"
    using reply_routed [OF one_request_reachable m(1,3), of "\<lambda>_. None" False] by (elim exE conjE) (rule that)
  have "tget (cn_chans c') ''A'' = Some [?m]" using c(2) [THEN spec, of "''A''"] m(2) by (simp add: one_request_def)
  with c(1) show ?thesis by blast
qed

text \<open>What a request returns is the reply to that request, never another's.\<close>

theorem request_own_reply:
  assumes "reach conn_step NewConn c" "request_result GotReply i c = (Some (Inr rep), c')"
  shows "env_Re rep = i \<and> i \<notin> set (tkeys (cn_chans c'))"
proof -
  have ok: "chans_ok (cn_pending c) (cn_chans c)" using ipc.inv_reachable [OF assms(1)] by (simp add: conn_ok_def)
  obtain ms where ms: "tget (cn_chans c) i = Some ms" "rep \<in> set ms" "c' = forget_request i c"
    using assms(2) by (auto simp: request_result_def split: option.splits list.splits)
  with ok show ?thesis by (auto simp: chans_ok_def forget_request_def)
qed

theorem request_own_reply_witness:
  "\<exists>rep c'. request_result GotReply ''A'' (one_request\<lparr>cn_pending := [], cn_chans := [(''A'', [sample_env_of [] ''A''])],
      cn_read := [sample_env_of [] ''A'']\<rparr>) = (Some (Inr rep), c') \<and> env_Re rep = ''A''"
proof -
  let ?c = "one_request\<lparr>cn_pending := [], cn_chans := [(''A'', [sample_env_of [] ''A''])], cn_read := [sample_env_of [] ''A'']\<rparr>"
  have "on_message (\<lambda>_. None) False (sample_env_of [] ''A'') one_request = Some ?c"
    by (simp add: on_message_def Let_def one_request_def sample_env_of_def ipc_Version_def NewConn_def)
  then have r: "reach conn_step NewConn ?c" using reach_step [OF one_request_reachable] step_message by blast
  have "request_result GotReply ''A'' ?c = (Some (Inr (sample_env_of [] ''A'')), forget_request ''A'' ?c)"
    by (simp add: request_result_def sample_env_of_def)
  from request_own_reply [OF r this] this show ?thesis by blast
qed

text \<open>Messages are handled in the order they were read, each at most once, and at most 256 wait.\<close>

theorem handled_in_order:
  assumes "reach conn_step NewConn c"
  shows "cn_handled c @ cn_inbox c = filter (\<lambda>m. env_V m = ipc_Version \<and> env_Re m = []) (cn_read c) \<and>
    length (cn_inbox c) \<le> 256"
  using ipc.inv_reachable [OF assms] by (simp add: conn_ok_def inboxSize_def)

theorem handled_in_order_witness: "length (cn_inbox one_request) \<le> 256"
  using handled_in_order [OF one_request_reachable] by blast

end
