(* ===== verification/Go_Base64.thy ===== *)
theory Go_Base64
  imports Go_Text
begin

text \<open>
  The part of \<^verbatim>\<open>encoding/base64\<close> and \<^verbatim>\<open>encoding/binary\<close> the program uses: decoding (line ends are
  skipped, the unused bits of the last character are ignored, as Go does outside its strict mode),
  encoding without padding, and big-endian integers.
\<close>

definition std_alphabet :: string where
  "std_alphabet = ''ABCDEFGHIJKLMNOPQRSTUVWXYZabcdefghijklmnopqrstuvwxyz0123456789+/''"

definition url_alphabet :: string where
  "url_alphabet = ''ABCDEFGHIJKLMNOPQRSTUVWXYZabcdefghijklmnopqrstuvwxyz0123456789-_''"

fun index_of :: "'a \<Rightarrow> 'a list \<Rightarrow> nat option" where
  "index_of c [] = None"
| "index_of c (x # xs) = (if x = c then Some 0 else map_option Suc (index_of c xs))"

lemma index_of_nth: "distinct xs \<Longrightarrow> i < length xs \<Longrightarrow> index_of (xs ! i) xs = Some i"
proof (induction xs arbitrary: i)
  case (Cons x xs)
  then show ?case by (cases i) auto
qed simp

text \<open>Six-bit values to bytes and back; a single left-over value is an error.\<close>

fun sextets_bytes :: "nat list \<Rightarrow> nat list option" where
  "sextets_bytes [] = Some []"
| "sextets_bytes [a] = None"
| "sextets_bytes [a, b] = Some [a * 4 + b div 16]"
| "sextets_bytes [a, b, c] = Some [a * 4 + b div 16, b mod 16 * 16 + c div 4]"
| "sextets_bytes (a # b # c # d # r) =
    map_option (\<lambda>bs. [a * 4 + b div 16, b mod 16 * 16 + c div 4, c mod 4 * 64 + d] @ bs) (sextets_bytes r)"

fun bytes_sextets :: "nat list \<Rightarrow> nat list" where
  "bytes_sextets [] = []"
| "bytes_sextets [x] = [x div 4, x mod 4 * 16]"
| "bytes_sextets [x, y] = [x div 4, x mod 4 * 16 + y div 16, y mod 16 * 4]"
| "bytes_sextets (x # y # z # r) =
    [x div 4, x mod 4 * 16 + y div 16, y mod 16 * 4 + z div 64, z mod 64] @ bytes_sextets r"

fun all_some :: "'a option list \<Rightarrow> 'a list option" where
  "all_some [] = Some []"
| "all_some (None # xs) = None"
| "all_some (Some x # xs) = map_option ((#) x) (all_some xs)"

definition decode_body :: "string \<Rightarrow> string \<Rightarrow> string option" where
  "decode_body alphabet s =
    (case all_some (map (\<lambda>c. index_of c alphabet) s) of
       None \<Rightarrow> None
     | Some vs \<Rightarrow> map_option (map char_of) (sextets_bytes vs))"

definition not_eol :: "char \<Rightarrow> bool" where
  "not_eol c = (c \<noteq> CHR 0x0A \<and> c \<noteq> CHR 0x0D)"

definition RawURL_Decode :: "string \<Rightarrow> string option" where
  "RawURL_Decode s = decode_body url_alphabet (filter not_eol s)"

definition RawURL_Encode :: "string \<Rightarrow> string" where
  "RawURL_Encode s = map ((!) url_alphabet) (bytes_sextets (map byte s))"

definition Std_Decode :: "string \<Rightarrow> string option" where
  "Std_Decode s0 =
    (let s = filter not_eol s0; n = length s in
     if n mod 4 \<noteq> 0 then None
     else decode_body std_alphabet
       (if has_suffix ''=='' s then take (n - 2) s else if has_suffix ''='' s then take (n - 1) s else s))"

lemma url_distinct: "distinct url_alphabet" "length url_alphabet = 64" "list_all not_eol url_alphabet"
  by code_simp+

lemma byte_lt: "byte c < 256"
  by (simp add: byte_def)

lemma char_of_byte [simp]: "char_of (byte c) = c"
  by (simp add: byte_def)

lemma bytes_sextets_range: "\<forall>b\<in>set bs. b < 256 \<Longrightarrow> \<forall>v\<in>set (bytes_sextets bs). v < 64"
  by (induction bs rule: bytes_sextets.induct) auto

lemma digits2: "b < n \<Longrightarrow> (a * n + b) div n = a \<and> (a * n + b) mod n = b" for n :: nat
  by simp

lemma sextets_roundtrip: "\<forall>b\<in>set bs. b < 256 \<Longrightarrow> sextets_bytes (bytes_sextets bs) = Some bs"
proof (induction bs rule: bytes_sextets.induct)
  case 1
  show ?case by simp
next
  case (2 x)
  have "x div 4 * 4 + x mod 4 = x" by simp
  then show ?case by simp
next
  case (3 x y)
  note d = digits2 [of "y div 16" 16 "x mod 4"]
  have "y div 16 < 16" using 3 by (intro less_mult_imp_div_less) simp
  with d have "(x mod 4 * 16 + y div 16) div 16 = x mod 4" "(x mod 4 * 16 + y div 16) mod 16 = y div 16" by auto
  then show ?case by simp
next
  case (4 x y z r)
  note d = digits2 [of "y div 16" 16 "x mod 4"] digits2 [of "z div 64" 4 "y mod 16"]
  have "y div 16 < 16" "z div 64 < 4" using 4(2) by (auto intro!: less_mult_imp_div_less)
  with d have "(x mod 4 * 16 + y div 16) div 16 = x mod 4" "(x mod 4 * 16 + y div 16) mod 16 = y div 16"
    "(y mod 16 * 4 + z div 64) div 4 = y mod 16" "(y mod 16 * 4 + z div 64) mod 4 = z div 64" by auto
  then show ?case using 4 by simp
qed

lemma all_some_map: "(\<And>x. x \<in> set xs \<Longrightarrow> f x = Some (g x)) \<Longrightarrow> all_some (map f xs) = Some (map g xs)"
  by (induction xs) auto

lemma RawURL_roundtrip: "RawURL_Decode (RawURL_Encode s) = Some s"
proof -
  let ?vs = "bytes_sextets (map byte s)"
  have r: "\<forall>v\<in>set ?vs. v < 64" by (rule bytes_sextets_range) (simp add: byte_lt)
  have "\<forall>c\<in>set (RawURL_Encode s). not_eol c"
    using r url_distinct by (auto simp: RawURL_Encode_def list_all_length)
  then have f: "filter not_eol (RawURL_Encode s) = RawURL_Encode s" by (simp add: filter_id_conv)
  have "all_some (map (\<lambda>c. index_of c url_alphabet) (RawURL_Encode s)) =
      all_some (map (\<lambda>v. index_of (url_alphabet ! v) url_alphabet) ?vs)"
    by (simp add: RawURL_Encode_def o_def)
  also have "\<dots> = Some (map (\<lambda>v. v) ?vs)"
    using r url_distinct by (intro all_some_map) (simp add: index_of_nth)
  finally show ?thesis
    unfolding RawURL_Decode_def f decode_body_def
    by (simp add: sextets_roundtrip byte_lt o_def)
qed

section \<open>Big-endian integers\<close>

fun be_bytes :: "nat \<Rightarrow> nat \<Rightarrow> string" where
  "be_bytes 0 n = []"
| "be_bytes (Suc k) n = be_bytes k (n div 256) @ [char_of (n mod 256)]"

definition be_nat :: "string \<Rightarrow> nat" where
  "be_nat s = foldl (\<lambda>a c. a * 256 + byte c) 0 s"

lemma be_bytes_length [simp]: "length (be_bytes k n) = k"
  by (induction k arbitrary: n) auto

lemma be_roundtrip: "n < 256 ^ k \<Longrightarrow> be_nat (be_bytes k n) = n"
proof (induction k arbitrary: n)
  case (Suc k)
  have "be_nat (be_bytes k (n div 256)) = n div 256"
    using Suc.prems by (intro Suc.IH) (simp add: less_mult_imp_div_less mult.commute)
  moreover have "byte (char_of (n mod 256)) = n mod 256" by (simp add: byte_def)
  ultimately show ?case by (simp add: be_nat_def)
qed (simp add: be_nat_def)

end
