(* ===== verification/Supervisor.thy ===== *)
theory Supervisor
  imports Domain_Camera Go_Bucket
begin

text \<open>
  The camera supervisor: \<^verbatim>\<open>backend/internal/app/supervisor.go\<close>, with the deletion of
  \<^verbatim>\<open>cameras.go\<close> and the boot and shutdown of \<^verbatim>\<open>service.go\<close>. A session is one camera process from
  provisioning to its end; the operations of a camera hold its lock, so the ones that wait for a
  session (\<^verbatim>\<open>StopCamera\<close>, \<^verbatim>\<open>DeleteCamera\<close>) are two steps with the lock held between them. Every
  outcome of the runtime, of the camera process and of the database is an argument of the step it
  decides.
\<close>

section \<open>State\<close>

datatype phase =
    Preparing | Launching | AwaitHello | Configuring | AwaitReady | Supervising | StopWait | Failed_phase | Done_phase

text \<open>\<open>ss_serial\<close> tells the sessions of a camera apart; \<open>ss_walk\<close> lists the states the session has been in,
  first to last.\<close>

record session =
  ss_serial :: nat
  ss_name :: string
  ss_state :: camera_state
  ss_reason :: string
  ss_started :: instant
  ss_lastHB :: instant
  ss_netns :: string
  ss_pid :: int
  ss_ip :: string
  ss_endpoints :: "string list"
  ss_lastSample :: instant
  ss_notices :: tokenBucket
  ss_stopCh :: "string option"
  ss_stopOnce :: bool
  ss_hello :: bool
  ss_ready :: "string list option"
  ss_failed :: "string option"
  ss_phase :: phase
  ss_walk :: "camera_state list"

record cam_row =
  cr_Name :: string
  cr_Desired :: desired_state
  cr_Autostart :: bool

record status_row =
  st_State :: camera_state
  st_Reason :: string
  st_StartedAt :: "int option"
  st_UpdatedAt :: int

record retryState =
  rs_attempts :: nat
  rs_timer :: "nat option"

record exit_notice =
  ex_Code :: int
  ex_Signal :: string

text \<open>Who holds the lock of a camera while it waits for the channel \<^verbatim>\<open>done\<close> of a session, by its serial number.\<close>

datatype lock_holder = StopHolder nat | DeleteHolder nat

text \<open>
  \<open>sp_armed\<close> holds the timers that have not fired, by number, with the wait they were given;
  \<open>sp_due\<close> the calls of \<^verbatim>\<open>retryStart\<close> that have not taken the lock yet; \<open>sp_pass\<close> and \<open>sp_orphans\<close>
  what a pass of the reconciler still has to look at, \<open>sp_killing\<close> the orphans it has found. The end of
  \<^verbatim>\<open>run\<close> takes the session out under the lock of the service and, in a critical section of its own, releases
  the name of its namespace: \<open>sp_releasing\<close> holds the sessions between the two, whose channel \<^verbatim>\<open>done\<close> is
  still open.
\<close>

record sup =
  sp_cams :: "(string, cam_row) table"
  sp_status :: "(string, status_row) table"
  sp_sessions :: "(string, session) table"
  sp_serials :: nat
  sp_releasing :: "(nat \<times> string) list"
  sp_retries :: "(string, retryState) table"
  sp_armed :: "(nat \<times> string \<times> duration) list"
  sp_timers :: nat
  sp_due :: "string list"
  sp_locks :: "(string, lock_holder) table"
  sp_exits :: "(string, exit_notice) table"
  sp_netns :: "(string, string) table"
  sp_live :: "string list"
  sp_pass :: "(string \<times> desired_state) list"
  sp_orphans :: "string list"
  sp_killing :: "string list"
  sp_samples :: "(string \<times> instant) list"
  sp_closing :: bool
  sp_pub :: "(string \<times> camera_state \<times> string) list"

datatype sup_error = CamNotFound | StoreFailed | NotAdmitted string | CtxDone

definition helloTimeout :: duration where "helloTimeout = 10 * second_ns"
definition readyTimeout :: duration where "readyTimeout = 20 * second_ns"
definition stopDeadline :: duration where "stopDeadline = 5 * second_ns"
definition heartbeatTimeout :: duration where "heartbeatTimeout = 3 * 2000 * milli + second_ns"
definition stableAfter :: duration where "stableAfter = minute_ns"
definition noticeBurst :: float64 where "noticeBurst = 50"
definition noticeRate :: float64 where "noticeRate = 10"

section \<open>Statuses\<close>

definition publishStatus :: "string \<Rightarrow> camera_state \<Rightarrow> string \<Rightarrow> sup \<Rightarrow> sup" where
  "publishStatus i st reason s = s\<lparr>sp_pub := sp_pub s @ [(i, st, reason)]\<rparr>"

text \<open>The row of a camera that is gone is not written: the foreign key refuses it.\<close>

definition saveStatus :: "bool \<Rightarrow> string \<Rightarrow> camera_state \<Rightarrow> string \<Rightarrow> instant \<Rightarrow> instant \<Rightarrow> sup \<Rightarrow> sup" where
  "saveStatus fault i st reason started now s =
    (if fault \<or> tget (sp_cams s) i = None then s
     else s\<lparr>sp_status := tput i \<lparr>st_State = st, st_Reason = reason, st_StartedAt = NullMillis started,
       st_UpdatedAt = unix_milli now\<rparr> (sp_status s)\<rparr>)"

definition setDesired :: "bool \<Rightarrow> string \<Rightarrow> desired_state \<Rightarrow> sup \<Rightarrow> sup_error option \<times> sup" where
  "setDesired fault i d s =
    (if fault then (Some StoreFailed, s)
     else case tget (sp_cams s) i of
       None \<Rightarrow> (None, s)
     | Some c \<Rightarrow> (None, s\<lparr>sp_cams := tput i (c\<lparr>cr_Desired := d\<rparr>) (sp_cams s)\<rparr>))"

definition put_session :: "string \<Rightarrow> session \<Rightarrow> sup \<Rightarrow> sup" where
  "put_session i ss s = s\<lparr>sp_sessions := tput i ss (sp_sessions s)\<rparr>"

definition enter_state :: "instant \<Rightarrow> camera_state \<Rightarrow> string \<Rightarrow> session \<Rightarrow> session" where
  "enter_state now st reason ss =
    ss\<lparr>ss_state := st, ss_reason := reason,
       ss_started := (if st = StateRunning \<and> ss_started ss = zero_time then now else ss_started ss),
       ss_walk := ss_walk ss @ [st]\<rparr>"

definition setState :: "instant \<Rightarrow> bool \<Rightarrow> string \<Rightarrow> camera_state \<Rightarrow> string \<Rightarrow> session \<Rightarrow> sup \<Rightarrow> session \<times> sup" where
  "setState now fault i st reason ss s =
    (let ss = enter_state now st reason ss in
     (ss, publishStatus i st reason (saveStatus fault i st reason (ss_started ss) now (put_session i ss s))))"

section \<open>Retries\<close>

definition disarm :: "nat option \<Rightarrow> sup \<Rightarrow> sup" where
  "disarm t s = (case t of None \<Rightarrow> s | Some n \<Rightarrow> s\<lparr>sp_armed := filter (\<lambda>(m, _). m \<noteq> n) (sp_armed s)\<rparr>)"

definition cancelRetry :: "string \<Rightarrow> sup \<Rightarrow> sup" where
  "cancelRetry i s =
    (let s = (case tget (sp_retries s) i of None \<Rightarrow> s | Some r \<Rightarrow> disarm (rs_timer r) s)
     in s\<lparr>sp_retries := tdel i (sp_retries s)\<rparr>)"

definition resetRetries :: "string \<Rightarrow> sup \<Rightarrow> sup" where
  "resetRetries i s = s\<lparr>sp_retries := tdel i (sp_retries s)\<rparr>"

definition gaveUp :: "string \<Rightarrow> sup \<Rightarrow> bool" where
  "gaveUp i s = (case tget (sp_retries s) i of None \<Rightarrow> False | Some r \<Rightarrow> MaxAutoRetries < rs_attempts r)"

definition retryPending :: "string \<Rightarrow> sup \<Rightarrow> bool" where
  "retryPending i s =
    (case tget (sp_retries s) i of None \<Rightarrow> False | Some r \<Rightarrow> rs_timer r \<noteq> None \<and> rs_attempts r \<le> MaxAutoRetries)"

definition afterFailure :: "bool \<Rightarrow> string \<Rightarrow> sup \<Rightarrow> sup" where
  "afterFailure fault i s =
    (case tget (sp_cams s) i of
       None \<Rightarrow> s
     | Some c \<Rightarrow>
         (if fault \<or> cr_Desired c \<noteq> DesiredRunning then s
          else
            (let r = (case tget (sp_retries s) i of None \<Rightarrow> \<lparr>rs_attempts = 0, rs_timer = None\<rparr> | Some r \<Rightarrow> r);
                 r = r\<lparr>rs_attempts := rs_attempts r + 1\<rparr>
             in if MaxAutoRetries < rs_attempts r then s\<lparr>sp_retries := tput i r (sp_retries s)\<rparr>
                else s\<lparr>sp_retries := tput i (r\<lparr>rs_timer := Some (sp_timers s)\<rparr>) (sp_retries s),
                       sp_armed := sp_armed s @ [(sp_timers s, i, retry_backoff (int (rs_attempts r)))],
                       sp_timers := sp_timers s + 1\<rparr>)))"

section \<open>Starting and stopping\<close>

definition new_session :: "nat \<Rightarrow> instant \<Rightarrow> string \<Rightarrow> session" where
  "new_session serial now name =
    \<lparr>ss_serial = serial, ss_name = name, ss_state = StateStopped, ss_reason = [], ss_started = zero_time, ss_lastHB = zero_time,
     ss_netns = [], ss_pid = 0, ss_ip = [], ss_endpoints = [], ss_lastSample = zero_time,
     ss_notices = \<lparr>b_tokens = noticeBurst, b_at = now\<rparr>, ss_stopCh = None, ss_stopOnce = False,
     ss_hello = False, ss_ready = None, ss_failed = None, ss_phase = Preparing, ss_walk = [StateStopped]\<rparr>"

definition startSession :: "instant \<Rightarrow> bool \<Rightarrow> string \<Rightarrow> string \<Rightarrow> sup \<Rightarrow> sup" where
  "startSession now fault i name s =
    snd (setState now fault i StateProvisioning [] (new_session (sp_serials s) now name) (s\<lparr>sp_serials := sp_serials s + 1\<rparr>))"

definition send_stop :: "string \<Rightarrow> session \<Rightarrow> session" where
  "send_stop reason ss = (if ss_stopOnce ss then ss else ss\<lparr>ss_stopOnce := True, ss_stopCh := Some reason\<rparr>)"

text \<open>\<open>admit\<close> is the answer of \<^verbatim>\<open>admitStart\<close>, \<open>broken\<close> whether the bundle cannot be loaded.\<close>

definition load_cam :: "bool \<Rightarrow> string \<Rightarrow> sup \<Rightarrow> (sup_error, cam_row) result" where
  "load_cam broken i s =
    (case tget (sp_cams s) i of None \<Rightarrow> Inl CamNotFound | Some c \<Rightarrow> if broken then Inl StoreFailed else Inr c)"

definition StartCamera ::
  "string option \<Rightarrow> bool \<Rightarrow> bool \<Rightarrow> bool \<Rightarrow> instant \<Rightarrow> string \<Rightarrow> sup \<Rightarrow> sup_error option \<times> sup" where
  "StartCamera admit broken dfault sfault now i s =
    (case load_cam broken i s of
       Inl e \<Rightarrow> (Some e, s)
     | Inr c \<Rightarrow>
         (case (if tget (sp_sessions s) i = None then admit else None) of
            Some why \<Rightarrow> (Some (NotAdmitted why), s)
          | None \<Rightarrow>
              (case setDesired dfault i DesiredRunning s of
                 (Some e, s) \<Rightarrow> (Some e, s)
               | (None, s) \<Rightarrow>
                   (let s = cancelRetry i s in
                    (None, if tget (sp_sessions s) i = None then startSession now sfault i (cr_Name c) s else s)))))"

definition rt_Destroy :: "string \<Rightarrow> sup \<Rightarrow> sup" where
  "rt_Destroy i s = s\<lparr>sp_live := removeAll i (sp_live s)\<rparr>"

datatype op_progress = Returned "sup_error option" | Waiting_lock

definition StopCamera ::
  "bool \<Rightarrow> bool \<Rightarrow> bool \<Rightarrow> instant \<Rightarrow> string \<Rightarrow> string \<Rightarrow> sup \<Rightarrow> op_progress \<times> sup" where
  "StopCamera broken dfault sfault now by i s =
    (case load_cam broken i s of
       Inl e \<Rightarrow> (Returned (Some e), s)
     | Inr c \<Rightarrow>
         (case setDesired dfault i DesiredStopped s of
            (Some e, s) \<Rightarrow> (Returned (Some e), s)
          | (None, s) \<Rightarrow>
              (let s = cancelRetry i s in
               case tget (sp_sessions s) i of
                 Some ss \<Rightarrow>
                   (Waiting_lock, put_session i (send_stop (''stopped by '' @ by) ss)
                      (s\<lparr>sp_locks := tput i (StopHolder (ss_serial ss)) (sp_locks s)\<rparr>))
               | None \<Rightarrow>
                   (Returned None,
                    publishStatus i StateStopped [] (saveStatus sfault i StateStopped [] zero_time now (rt_Destroy i s))))))"

definition unlock :: "string \<Rightarrow> sup \<Rightarrow> sup" where
  "unlock i s = s\<lparr>sp_locks := tdel i (sp_locks s)\<rparr>"

text \<open>Whether the channel \<^verbatim>\<open>done\<close> of a session of a camera is closed: while the lock is held no other session
  of it begins.\<close>

definition session_done :: "nat \<Rightarrow> string \<Rightarrow> sup \<Rightarrow> bool" where
  "session_done n i s = (tget (sp_sessions s) i = None \<and> (n, i) \<notin> set (sp_releasing s))"

definition StopCamera_end :: "bool \<Rightarrow> nat \<Rightarrow> string \<Rightarrow> sup \<Rightarrow> op_progress \<times> sup" where
  "StopCamera_end ctx_done n i s =
    (if session_done n i s then (Returned None, unlock i s)
     else if ctx_done then (Returned (Some CtxDone), unlock i s)
     else (Waiting_lock, s))"

text \<open>\<^verbatim>\<open>DeleteCamera\<close>, and what it does once the session, if any, has ended.\<close>

definition forgetCamera :: "string \<Rightarrow> sup \<Rightarrow> sup" where
  "forgetCamera i s =
    (if tget (sp_cams s) i \<noteq> None then s
     else s\<lparr>sp_exits := tdel i (sp_exits s), sp_retries := tdel i (sp_retries s),
            sp_netns := filter (\<lambda>(_, owner). owner \<noteq> i) (sp_netns s)\<rparr>)"

definition delete_now :: "bool \<Rightarrow> string \<Rightarrow> sup \<Rightarrow> op_progress \<times> sup" where
  "delete_now fault i s =
    (let s = unlock i (rt_Destroy i s) in
     if fault then (Returned (Some StoreFailed), forgetCamera i s)
     else (Returned None, forgetCamera i (s\<lparr>sp_cams := tdel i (sp_cams s), sp_status := tdel i (sp_status s)\<rparr>)))"

definition DeleteCamera :: "bool \<Rightarrow> bool \<Rightarrow> string \<Rightarrow> sup \<Rightarrow> op_progress \<times> sup" where
  "DeleteCamera broken fault i s =
    (case load_cam broken i s of
       Inl e \<Rightarrow> (Returned (Some e), s)
     | Inr c \<Rightarrow>
         (let s = cancelRetry i s in
          case tget (sp_sessions s) i of
            Some ss \<Rightarrow>
              (Waiting_lock, put_session i (send_stop ''camera deleted'' ss) (s\<lparr>sp_locks := tput i (DeleteHolder (ss_serial ss)) (sp_locks s)\<rparr>))
          | None \<Rightarrow> delete_now fault i s))"

definition DeleteCamera_end :: "bool \<Rightarrow> nat \<Rightarrow> string \<Rightarrow> sup \<Rightarrow> op_progress \<times> sup" where
  "DeleteCamera_end fault n i s =
    (if session_done n i s then delete_now fault i s else (Waiting_lock, s))"

definition retryStart :: "string option \<Rightarrow> bool \<Rightarrow> bool \<Rightarrow> instant \<Rightarrow> string \<Rightarrow> sup \<Rightarrow> sup" where
  "retryStart admit broken sfault now i s =
    (if tget (sp_sessions s) i \<noteq> None then s
     else case load_cam broken i s of
       Inl e \<Rightarrow> s
     | Inr c \<Rightarrow>
         (if cr_Desired c \<noteq> DesiredRunning then s
          else case admit of
            Some why \<Rightarrow> publishStatus i StateError why (saveStatus sfault i StateError why zero_time now s)
          | None \<Rightarrow> startSession now sfault i (cr_Name c) s))"

section \<open>Namespace names\<close>

text \<open>Identifiers are ULIDs, so the suffixes of their last characters exist.\<close>

definition netns_base :: "(rune \<Rightarrow> rune) \<Rightarrow> string \<Rightarrow> string" where
  "netns_base uni name =
    (let base = ''sim-'' @ (case slug uni name 30 of None \<Rightarrow> [] | Some t \<Rightarrow> t) in
     if base = ''sim-'' then ''sim-cam'' else base)"

definition last_chars :: "nat \<Rightarrow> string \<Rightarrow> string" where
  "last_chars n s = drop (length s - n) s"

definition drop_owner :: "string \<Rightarrow> (string, string) table \<Rightarrow> (string, string) table" where
  "drop_owner i t = filter (\<lambda>(_, owner). owner \<noteq> i) t"

definition netnsName :: "(rune \<Rightarrow> rune) \<Rightarrow> string \<Rightarrow> string \<Rightarrow> sup \<Rightarrow> string \<times> sup" where
  "netnsName uni i name s =
    (let base = netns_base uni name;
         low = to_lower uni i;
         t = drop_owner i (sp_netns s);
         names = [base, base @ ''-'' @ last_chars 4 low, base @ ''-'' @ last_chars 8 low];
         free = (\<lambda>n. case tget t n of None \<Rightarrow> True | Some owner \<Rightarrow> owner = i);
         n = (case List.find free names of Some n \<Rightarrow> n | None \<Rightarrow> ''sim-'' @ low)
     in (n, s\<lparr>sp_netns := tput n i t\<rparr>))"

definition releaseNetns :: "string \<Rightarrow> sup \<Rightarrow> sup" where
  "releaseNetns i s = s\<lparr>sp_netns := drop_owner i (sp_netns s)\<rparr>"

section \<open>A session\<close>

definition exitReason :: "string \<Rightarrow> string \<Rightarrow> sup \<Rightarrow> string \<times> sup" where
  "exitReason i base s =
    ((case tget (sp_exits s) i of
        None \<Rightarrow> base
      | Some e \<Rightarrow> (if ex_Signal e \<noteq> [] then base @ '' ('' @ ex_Signal e @ '')''
                  else base @ '' (exit code '' @ itoa (ex_Code e) @ '')'')),
     s\<lparr>sp_exits := tdel i (sp_exits s)\<rparr>)"

definition fail_session :: "instant \<Rightarrow> bool \<Rightarrow> string \<Rightarrow> string \<Rightarrow> session \<Rightarrow> sup \<Rightarrow> sup" where
  "fail_session now fault i reason ss s =
    (case setState now fault i StateError reason ss (rt_Destroy i s) of
       (ss, s) \<Rightarrow> put_session i (ss\<lparr>ss_phase := Failed_phase\<rparr>) s)"

definition finishStopped :: "instant \<Rightarrow> bool \<Rightarrow> string \<Rightarrow> string \<Rightarrow> session \<Rightarrow> sup \<Rightarrow> sup" where
  "finishStopped now fault i reason ss s =
    (case setState now fault i StateStopping reason ss s of
       (ss, s) \<Rightarrow>
         (case setState now fault i StateStopped [] ss (rt_Destroy i s) of
            (ss, s) \<Rightarrow> put_session i (ss\<lparr>ss_phase := Done_phase\<rparr>) s))"

text \<open>\<^verbatim>\<open>gracefulStop\<close>: it asks the process to stop, then waits for it.\<close>

definition stop_begin :: "instant \<Rightarrow> bool \<Rightarrow> string \<Rightarrow> string \<Rightarrow> session \<Rightarrow> sup \<Rightarrow> sup" where
  "stop_begin now fault i reason ss s =
    (case setState now fault i StateStopping reason ss s of
       (ss, s) \<Rightarrow> put_session i (ss\<lparr>ss_phase := StopWait\<rparr>) s)"

definition stop_end :: "instant \<Rightarrow> bool \<Rightarrow> string \<Rightarrow> session \<Rightarrow> sup \<Rightarrow> sup" where
  "stop_end now fault i ss s =
    (case setState now fault i StateStopped [] ss (rt_Destroy i s) of
       (ss, s) \<Rightarrow> put_session i (ss\<lparr>ss_phase := Done_phase\<rparr>) s)"

datatype launch_outcome =
    SpecError string bool
  | LaunchError string
  | Launched int string

text \<open>\<open>EvStreams\<close> carries the error of preparing the streams and whether the watcher saw a stop
  before it saw the end; \<open>EvTick\<close> is the heartbeat check, \<open>EvGone\<close> the end of the process that was
  asked to stop (or of the patience of the supervisor), \<open>EvEnd\<close> the deferred clean-up of \<^verbatim>\<open>run\<close>.\<close>

datatype sess_event =
    EvStreams "string option" bool
  | EvLaunch launch_outcome
  | EvHello | EvConnDone | EvStop | EvTimeout
  | EvConfigure "string option"
  | EvReady | EvFailed | EvStable | EvTick | EvGone
  | EvAfter bool
  | EvEnd

definition on_streams :: "instant \<Rightarrow> bool \<Rightarrow> string option \<Rightarrow> bool \<Rightarrow> string \<Rightarrow> session \<Rightarrow> sup \<Rightarrow> sup" where
  "on_streams now fault err seen i ss s =
    (case (ss_stopCh ss, err) of
       (Some reason, None) \<Rightarrow> finishStopped now fault i reason (ss\<lparr>ss_stopCh := None\<rparr>) s
     | (Some reason, Some e) \<Rightarrow>
         (if seen then finishStopped now fault i reason (ss\<lparr>ss_stopCh := None\<rparr>) s
          else fail_session now fault i (''stream: '' @ e) ss s)
     | (None, Some e) \<Rightarrow> fail_session now fault i (''stream: '' @ e) ss s
     | (None, None) \<Rightarrow> put_session i (ss\<lparr>ss_phase := Launching\<rparr>) s)"

definition on_launch ::
  "(rune \<Rightarrow> rune) \<Rightarrow> bool \<Rightarrow> instant \<Rightarrow> bool \<Rightarrow> launch_outcome \<Rightarrow> string \<Rightarrow> session \<Rightarrow> sup \<Rightarrow> sup" where
  "on_launch uni netns now fault res i ss s =
    (let reserve = (\<lambda>s. if netns then netnsName uni i (ss_name ss) s else ([], s)) in
     case res of
       SpecError e reserved \<Rightarrow> fail_session now fault i e ss (if reserved then snd (reserve s) else s)
     | LaunchError e \<Rightarrow> fail_session now fault i e ss (snd (reserve s))
     | Launched pid ip \<Rightarrow>
         (case reserve s of
            (n, s) \<Rightarrow>
              (case setState now fault i StateStarting [] (ss\<lparr>ss_pid := pid, ss_netns := n, ss_ip := ip\<rparr>)
                      (s\<lparr>sp_live := i # removeAll i (sp_live s)\<rparr>) of
                 (ss, s) \<Rightarrow> put_session i (ss\<lparr>ss_phase := AwaitHello\<rparr>) s)))"

definition on_conn_done :: "instant \<Rightarrow> bool \<Rightarrow> string \<Rightarrow> string \<Rightarrow> session \<Rightarrow> sup \<Rightarrow> sup" where
  "on_conn_done now fault base i ss s =
    (case exitReason i base s of (reason, s) \<Rightarrow> fail_session now fault i reason ss s)"

definition on_stop :: "instant \<Rightarrow> bool \<Rightarrow> string \<Rightarrow> session \<Rightarrow> sup \<Rightarrow> sup" where
  "on_stop now fault i ss s =
    (case ss_stopCh ss of
       None \<Rightarrow> s
     | Some reason \<Rightarrow> stop_begin now fault i reason (ss\<lparr>ss_stopCh := None\<rparr>) s)"

text \<open>The end of \<^verbatim>\<open>run\<close>: the session is taken out, and in a second step its name is released and \<^verbatim>\<open>done\<close> closed.\<close>

definition run_end :: "string \<Rightarrow> session \<Rightarrow> sup \<Rightarrow> sup" where
  "run_end i ss s = s\<lparr>sp_sessions := tdel i (sp_sessions s), sp_releasing := sp_releasing s @ [(ss_serial ss, i)]\<rparr>"

definition run_release :: "nat \<Rightarrow> string \<Rightarrow> sup \<Rightarrow> sup" where
  "run_release n i s =
    (if (n, i) \<notin> set (sp_releasing s) then s
     else releaseNetns i (s\<lparr>sp_releasing := remove1 (n, i) (sp_releasing s)\<rparr>))"

text \<open>\<^verbatim>\<open>run\<close>: what an event does in each phase; in the others it does not happen.\<close>

definition run_event ::
  "(rune \<Rightarrow> rune) \<Rightarrow> bool \<Rightarrow> instant \<Rightarrow> bool \<Rightarrow> sess_event \<Rightarrow> string \<Rightarrow> session \<Rightarrow> sup \<Rightarrow> sup" where
  "run_event uni netns now fault ev i ss s =
    (case (ss_phase ss, ev) of
       (Preparing, EvStreams err seen) \<Rightarrow> on_streams now fault err seen i ss s
     | (Launching, EvLaunch res) \<Rightarrow> on_launch uni netns now fault res i ss s
     | (AwaitHello, EvHello) \<Rightarrow>
         (if ss_hello ss then put_session i (ss\<lparr>ss_hello := False, ss_phase := Configuring\<rparr>) s else s)
     | (AwaitHello, EvConnDone) \<Rightarrow> on_conn_done now fault ''the camera process exited during start-up'' i ss s
     | (AwaitHello, EvStop) \<Rightarrow> on_stop now fault i ss s
     | (AwaitHello, EvTimeout) \<Rightarrow> fail_session now fault i ''the camera process did not say hello'' ss s
     | (Configuring, EvConfigure None) \<Rightarrow> put_session i (ss\<lparr>ss_phase := AwaitReady\<rparr>) s
     | (Configuring, EvConfigure (Some e)) \<Rightarrow> fail_session now fault i e ss s
     | (AwaitReady, EvReady) \<Rightarrow>
         (case ss_ready ss of
            None \<Rightarrow> s
          | Some ends \<Rightarrow>
              (case setState now fault i StateRunning [] (ss\<lparr>ss_ready := None, ss_endpoints := ends, ss_lastHB := now\<rparr>) s of
                 (ss, s) \<Rightarrow> put_session i (ss\<lparr>ss_phase := Supervising\<rparr>) s))
     | (AwaitReady, EvFailed) \<Rightarrow>
         (case ss_failed ss of
            None \<Rightarrow> s
          | Some reason \<Rightarrow> fail_session now fault i reason (ss\<lparr>ss_failed := None\<rparr>) s)
     | (AwaitReady, EvConnDone) \<Rightarrow> on_conn_done now fault ''the camera process exited during start-up'' i ss s
     | (AwaitReady, EvStop) \<Rightarrow> on_stop now fault i ss s
     | (AwaitReady, EvTimeout) \<Rightarrow> fail_session now fault i ''the camera did not become ready'' ss s
     | (Supervising, EvStop) \<Rightarrow> on_stop now fault i ss s
     | (Supervising, EvConnDone) \<Rightarrow> on_conn_done now fault ''the camera process exited'' i ss s
     | (Supervising, EvStable) \<Rightarrow> resetRetries i s
     | (Supervising, EvTick) \<Rightarrow>
         (if heartbeatTimeout < now - ss_lastHB ss
          then fail_session now fault i ''no response: 3 heartbeats missed'' ss s else s)
     | (StopWait, EvGone) \<Rightarrow> stop_end now fault i ss s
     | (Failed_phase, EvAfter ffault) \<Rightarrow>
         afterFailure ffault i (put_session i (ss\<lparr>ss_phase := Done_phase\<rparr>) s)
     | (Done_phase, EvEnd) \<Rightarrow> run_end i ss s
     | _ \<Rightarrow> s)"

section \<open>Messages of the camera\<close>

datatype cam_message =
    MHello
  | MReady "string list option"
  | MFailed string
  | MHeartbeat
  | MNotice
  | MEvent
  | MDelivery
  | MStateChanged
  | MBye
  | MUndecodable string
  | MUnknown string

text \<open>\<^verbatim>\<open>handle\<close>: a full buffer drops the message; \<open>MReady None\<close> and \<open>MUndecodable\<close> are messages of a
  known type whose payload does not decode, answered with an error like those of an unknown type.
  Events, deliveries and parameter changes go to the database through \<^verbatim>\<open>recordEvent\<close>,
  \<^verbatim>\<open>recordDelivery\<close> and \<^verbatim>\<open>clientChanges\<close> and leave the supervisor as it is; a notice over its budget
  is dropped, and one within it goes to the log.\<close>

definition allowNotice :: "instant \<Rightarrow> session \<Rightarrow> bool \<times> session" where
  "allowNotice now ss =
    (case take_token noticeBurst noticeRate now (ss_notices ss) of
       (ok, b) \<Rightarrow> (ok, ss\<lparr>ss_notices := b\<rparr>))"

definition handle :: "instant \<Rightarrow> cam_message \<Rightarrow> string \<Rightarrow> session \<Rightarrow> sup \<Rightarrow> sup" where
  "handle now m i ss s =
    (case m of
       MHello \<Rightarrow> put_session i (ss\<lparr>ss_hello := True\<rparr>) s
     | MReady None \<Rightarrow> s
     | MReady (Some ends) \<Rightarrow> (if ss_ready ss = None then put_session i (ss\<lparr>ss_ready := Some ends\<rparr>) s else s)
     | MFailed reason \<Rightarrow> (if ss_failed ss = None then put_session i (ss\<lparr>ss_failed := Some reason\<rparr>) s else s)
     | MHeartbeat \<Rightarrow>
         (let sample = (second_ns \<le> now - ss_lastSample ss) in
          (put_session i (ss\<lparr>ss_lastHB := now, ss_lastSample := (if sample then now else ss_lastSample ss)\<rparr>) s)
            \<lparr>sp_samples := (if sample then sp_samples s @ [(i, now)] else sp_samples s)\<rparr>)
     | MNotice \<Rightarrow> put_session i (snd (allowNotice now ss)) s
     | MEvent \<Rightarrow> s
     | MDelivery \<Rightarrow> s
     | MStateChanged \<Rightarrow> s
     | MBye \<Rightarrow> s
     | MUndecodable t \<Rightarrow> s
     | MUnknown t \<Rightarrow> s)"

section \<open>The reconciler, boot and shutdown\<close>

text \<open>A pass first lists the cameras, then looks at one after the other, then at what is live.\<close>

definition reconcile_begin :: "sup \<Rightarrow> sup" where
  "reconcile_begin s = s\<lparr>sp_pass := map (\<lambda>(i, c). (i, cr_Desired c)) (sp_cams s)\<rparr>"

definition reconcile_cam :: "string \<Rightarrow> desired_state \<Rightarrow> sup \<Rightarrow> sup" where
  "reconcile_cam i d s =
    (case d of
       DesiredRunning \<Rightarrow>
         (if tget (sp_sessions s) i = None \<and> \<not> retryPending i s \<and> \<not> gaveUp i s
          then s\<lparr>sp_due := sp_due s @ [i]\<rparr> else s)
     | DesiredStopped \<Rightarrow>
         (case tget (sp_sessions s) i of
            None \<Rightarrow> s
          | Some ss \<Rightarrow> put_session i (send_stop ''desired state is stopped'' ss) s))"

definition reconcile_next :: "sup \<Rightarrow> sup" where
  "reconcile_next s =
    (case sp_pass s of
       [] \<Rightarrow> s
     | (i, d) # r \<Rightarrow> reconcile_cam i d (s\<lparr>sp_pass := r\<rparr>))"

definition reconcile_live :: "sup \<Rightarrow> sup" where
  "reconcile_live s = s\<lparr>sp_orphans := sp_live s\<rparr>"

definition orphan_check :: "sup \<Rightarrow> sup" where
  "orphan_check s =
    (case sp_orphans s of
       [] \<Rightarrow> s
     | i # r \<Rightarrow>
         (let s = s\<lparr>sp_orphans := r\<rparr> in
          if tget (sp_sessions s) i = None then s\<lparr>sp_killing := sp_killing s @ [i]\<rparr> else s))"

definition orphan_kill :: "sup \<Rightarrow> sup" where
  "orphan_kill s = (case sp_killing s of [] \<Rightarrow> s | i # r \<Rightarrow> rt_Destroy i (s\<lparr>sp_killing := r\<rparr>))"

definition boot_cam :: "instant \<Rightarrow> string \<Rightarrow> cam_row \<Rightarrow> sup \<Rightarrow> sup" where
  "boot_cam now i c s =
    saveStatus False i StateStopped [] zero_time now
      (snd (setDesired False i (if cr_Autostart c then DesiredRunning else DesiredStopped) s))"

definition bootCameras :: "instant \<Rightarrow> sup \<Rightarrow> sup" where
  "bootCameras now s = fold (\<lambda>(i, c). boot_cam now i c) (sp_cams s) s"

definition shutdown_service :: "sup \<Rightarrow> sup" where
  "shutdown_service s =
    (let s = fold (\<lambda>(_, r). disarm (rs_timer r)) (sp_retries s) (s\<lparr>sp_closing := True\<rparr>)
     in s\<lparr>sp_sessions := map (\<lambda>(i, ss). (i, send_stop ''node shutting down'' ss)) (sp_sessions s)\<rparr>)"

section \<open>Operations as steps\<close>

text \<open>An operation that needs the lock of a camera does nothing while another holds it.\<close>

datatype sup_op =
    OpStart "string option" bool bool bool instant string
  | OpStop bool bool bool instant string string
  | OpStopEnd bool string
  | OpDelete bool bool string
  | OpDeleteEnd bool string
  | OpCreate string cam_row
  | OpFire nat
  | OpRetry "string option" bool bool instant string
  | OpRun instant bool sess_event string
  | OpRelease nat string
  | OpMessage instant cam_message string
  | OpExit string exit_notice
  | OpReconcile | OpNext | OpLive | OpOrphan | OpKill
  | OpShutdown

definition held :: "string \<Rightarrow> sup \<Rightarrow> bool" where
  "held i s = (tget (sp_locks s) i \<noteq> None)"

definition fire :: "nat \<Rightarrow> sup \<Rightarrow> sup" where
  "fire n s =
    (case map_of (sp_armed s) n of
       None \<Rightarrow> s
     | Some (i, _) \<Rightarrow> s\<lparr>sp_armed := filter (\<lambda>(m, _). m \<noteq> n) (sp_armed s), sp_due := sp_due s @ [i]\<rparr>)"

fun sup_do :: "(rune \<Rightarrow> rune) \<Rightarrow> bool \<Rightarrow> sup_op \<Rightarrow> sup \<Rightarrow> sup" where
  "sup_do uni netns (OpStart admit broken dfault sfault now i) s =
    (if held i s then s else snd (StartCamera admit broken dfault sfault now i s))"
| "sup_do uni netns (OpStop broken dfault sfault now by i) s =
    (if held i s then s else snd (StopCamera broken dfault sfault now by i s))"
| "sup_do uni netns (OpStopEnd ctx_done i) s =
    (case tget (sp_locks s) i of Some (StopHolder n) \<Rightarrow> snd (StopCamera_end ctx_done n i s) | _ \<Rightarrow> s)"
| "sup_do uni netns (OpDelete broken fault i) s =
    (if held i s then s else snd (DeleteCamera broken fault i s))"
| "sup_do uni netns (OpDeleteEnd fault i) s =
    (case tget (sp_locks s) i of Some (DeleteHolder n) \<Rightarrow> snd (DeleteCamera_end fault n i s) | _ \<Rightarrow> s)"
| "sup_do uni netns (OpCreate i c) s =
    (if tget (sp_cams s) i = None \<and> cr_Desired c = DesiredStopped \<and> tget (sp_sessions s) i = None
     then s\<lparr>sp_cams := tput i c (sp_cams s)\<rparr> else s)"
| "sup_do uni netns (OpFire n) s = fire n s"
| "sup_do uni netns (OpRetry admit broken sfault now i) s =
    (if held i s \<or> i \<notin> set (sp_due s) then s
     else retryStart admit broken sfault now i (s\<lparr>sp_due := remove1 i (sp_due s)\<rparr>))"
| "sup_do uni netns (OpRun now fault ev i) s =
    (case tget (sp_sessions s) i of None \<Rightarrow> s | Some ss \<Rightarrow> run_event uni netns now fault ev i ss s)"
| "sup_do uni netns (OpRelease n i) s = run_release n i s"
| "sup_do uni netns (OpMessage now m i) s =
    (case tget (sp_sessions s) i of None \<Rightarrow> s | Some ss \<Rightarrow> handle now m i ss s)"
| "sup_do uni netns (OpExit i e) s = s\<lparr>sp_exits := tput i e (sp_exits s)\<rparr>"
| "sup_do uni netns OpReconcile s = reconcile_begin s"
| "sup_do uni netns OpNext s = reconcile_next s"
| "sup_do uni netns OpLive s = reconcile_live s"
| "sup_do uni netns OpOrphan s = orphan_check s"
| "sup_do uni netns OpKill s = orphan_kill s"
| "sup_do uni netns OpShutdown s = shutdown_service s"

definition sup_step :: "(rune \<Rightarrow> rune) \<Rightarrow> bool \<Rightarrow> sup \<Rightarrow> sup \<Rightarrow> bool" where
  "sup_step uni netns s t \<longleftrightarrow> (\<exists>op. t = sup_do uni netns op s)"

definition new_service :: sup where
  "new_service =
    \<lparr>sp_cams = [], sp_status = [], sp_sessions = [], sp_serials = 0, sp_releasing = [], sp_retries = [], sp_armed = [], sp_timers = 0, sp_due = [],
     sp_locks = [], sp_exits = [], sp_netns = [], sp_live = [], sp_pass = [], sp_orphans = [], sp_killing = [],
     sp_samples = [], sp_closing = False, sp_pub = []\<rparr>"

end
