(* ===== verification/Supervisor_Safety.thy ===== *)
theory Supervisor_Safety
  imports Supervisor
begin

text \<open>
  What every reachable state of the supervisor satisfies. Sessions only make the moves of the
  camera lifecycle; a camera being stopped is not meant to run; two live cameras do not share a
  namespace name. \<open>sup_ok\<close> is the invariant, preserved by every operation.
\<close>

section \<open>Frames\<close>

named_theorems sup_frame \<open>the parts of the state an operation leaves alone\<close>

lemma publishStatus_frame [sup_frame]:
  "sp_sessions (publishStatus i st r s) = sp_sessions s" "sp_cams (publishStatus i st r s) = sp_cams s"
  "sp_locks (publishStatus i st r s) = sp_locks s" "sp_netns (publishStatus i st r s) = sp_netns s" "sp_releasing (publishStatus i st r s) = sp_releasing s"
  "sp_retries (publishStatus i st r s) = sp_retries s" "sp_armed (publishStatus i st r s) = sp_armed s"
  "sp_due (publishStatus i st r s) = sp_due s" "sp_timers (publishStatus i st r s) = sp_timers s"
  by (simp_all add: publishStatus_def)

lemma saveStatus_frame [sup_frame]:
  "sp_sessions (saveStatus f i st r a b s) = sp_sessions s" "sp_cams (saveStatus f i st r a b s) = sp_cams s"
  "sp_locks (saveStatus f i st r a b s) = sp_locks s" "sp_netns (saveStatus f i st r a b s) = sp_netns s" "sp_releasing (saveStatus f i st r a b s) = sp_releasing s"
  "sp_retries (saveStatus f i st r a b s) = sp_retries s" "sp_armed (saveStatus f i st r a b s) = sp_armed s"
  "sp_due (saveStatus f i st r a b s) = sp_due s" "sp_timers (saveStatus f i st r a b s) = sp_timers s"
  by (simp_all add: saveStatus_def)

lemma put_session_frame [sup_frame]:
  "sp_sessions (put_session i ss s) = tput i ss (sp_sessions s)" "sp_cams (put_session i ss s) = sp_cams s"
  "sp_locks (put_session i ss s) = sp_locks s" "sp_netns (put_session i ss s) = sp_netns s" "sp_releasing (put_session i ss s) = sp_releasing s"
  "sp_retries (put_session i ss s) = sp_retries s" "sp_armed (put_session i ss s) = sp_armed s"
  "sp_due (put_session i ss s) = sp_due s" "sp_timers (put_session i ss s) = sp_timers s"
  by (simp_all add: put_session_def)

lemma rt_Destroy_frame [sup_frame]:
  "sp_sessions (rt_Destroy i s) = sp_sessions s" "sp_cams (rt_Destroy i s) = sp_cams s"
  "sp_locks (rt_Destroy i s) = sp_locks s" "sp_netns (rt_Destroy i s) = sp_netns s" "sp_releasing (rt_Destroy i s) = sp_releasing s"
  "sp_retries (rt_Destroy i s) = sp_retries s" "sp_armed (rt_Destroy i s) = sp_armed s"
  "sp_due (rt_Destroy i s) = sp_due s" "sp_timers (rt_Destroy i s) = sp_timers s"
  by (simp_all add: rt_Destroy_def)

lemma unlock_frame [sup_frame]:
  "sp_sessions (unlock i s) = sp_sessions s" "sp_cams (unlock i s) = sp_cams s" "sp_locks (unlock i s) = tdel i (sp_locks s)"
  "sp_netns (unlock i s) = sp_netns s" "sp_releasing (unlock i s) = sp_releasing s" "sp_retries (unlock i s) = sp_retries s" "sp_armed (unlock i s) = sp_armed s"
  "sp_due (unlock i s) = sp_due s"
  by (simp_all add: unlock_def)

lemma disarm_frame [sup_frame]:
  "sp_sessions (disarm t s) = sp_sessions s" "sp_cams (disarm t s) = sp_cams s" "sp_locks (disarm t s) = sp_locks s"
  "sp_netns (disarm t s) = sp_netns s" "sp_releasing (disarm t s) = sp_releasing s" "sp_retries (disarm t s) = sp_retries s" "sp_due (disarm t s) = sp_due s"
  by (simp_all add: disarm_def split: option.split)

lemma cancelRetry_frame [sup_frame]:
  "sp_sessions (cancelRetry i s) = sp_sessions s" "sp_cams (cancelRetry i s) = sp_cams s"
  "sp_locks (cancelRetry i s) = sp_locks s" "sp_netns (cancelRetry i s) = sp_netns s" "sp_releasing (cancelRetry i s) = sp_releasing s"
  "sp_retries (cancelRetry i s) = tdel i (sp_retries s)" "sp_due (cancelRetry i s) = sp_due s"
  by (simp_all add: cancelRetry_def Let_def sup_frame split: option.split)

lemma resetRetries_frame [sup_frame]:
  "sp_sessions (resetRetries i s) = sp_sessions s" "sp_cams (resetRetries i s) = sp_cams s"
  "sp_locks (resetRetries i s) = sp_locks s" "sp_netns (resetRetries i s) = sp_netns s" "sp_releasing (resetRetries i s) = sp_releasing s"
  "sp_retries (resetRetries i s) = tdel i (sp_retries s)" "sp_armed (resetRetries i s) = sp_armed s"
  "sp_due (resetRetries i s) = sp_due s"
  by (simp_all add: resetRetries_def)

lemma afterFailure_frame [sup_frame]:
  "sp_sessions (afterFailure f i s) = sp_sessions s" "sp_cams (afterFailure f i s) = sp_cams s"
  "sp_locks (afterFailure f i s) = sp_locks s" "sp_netns (afterFailure f i s) = sp_netns s" "sp_releasing (afterFailure f i s) = sp_releasing s"
  "sp_due (afterFailure f i s) = sp_due s"
  by (simp_all add: afterFailure_def Let_def split: option.split)

lemma setDesired_frame:
  "setDesired f i d s = (e, t) \<Longrightarrow> sp_sessions t = sp_sessions s \<and> sp_locks t = sp_locks s \<and> sp_netns t = sp_netns s \<and> sp_releasing t = sp_releasing s \<and>
     sp_retries t = sp_retries s \<and> sp_armed t = sp_armed s \<and> sp_due t = sp_due s \<and>
     (\<forall>j. j \<noteq> i \<longrightarrow> tget (sp_cams t) j = tget (sp_cams s) j)"
  by (auto simp: setDesired_def split: if_splits option.splits)

lemma setState_frame:
  "setState now f i st r ss s = (ss', t) \<Longrightarrow> ss' = enter_state now st r ss \<and> sp_sessions t = tput i ss' (sp_sessions s) \<and>
     sp_cams t = sp_cams s \<and> sp_locks t = sp_locks s \<and> sp_netns t = sp_netns s \<and> sp_releasing t = sp_releasing s \<and>
     sp_retries t = sp_retries s \<and> sp_armed t = sp_armed s \<and> sp_due t = sp_due s"
  by (auto simp: setState_def Let_def sup_frame)

section \<open>The lifecycle of a session\<close>

definition phase_states :: "phase \<Rightarrow> camera_state list" where
  "phase_states p =
    (case p of
       Preparing \<Rightarrow> [StateProvisioning] | Launching \<Rightarrow> [StateProvisioning]
     | AwaitHello \<Rightarrow> [StateStarting] | Configuring \<Rightarrow> [StateStarting] | AwaitReady \<Rightarrow> [StateStarting]
     | Supervising \<Rightarrow> [StateRunning] | StopWait \<Rightarrow> [StateStopping]
     | Failed_phase \<Rightarrow> [StateError] | Done_phase \<Rightarrow> [StateStopped, StateError])"

definition walk_ok :: "session \<Rightarrow> bool" where
  "walk_ok ss = (ss_walk ss \<noteq> [] \<and> hd (ss_walk ss) = StateStopped \<and> last (ss_walk ss) = ss_state ss \<and>
     lifecycle_walk (ss_walk ss))"

definition sess_ok :: "session \<Rightarrow> bool" where
  "sess_ok ss = (walk_ok ss \<and> ss_state ss \<in> set (phase_states (ss_phase ss)))"

lemma lifecycle_walk_snoc: "w \<noteq> [] \<Longrightarrow> lifecycle_walk (w @ [t]) \<longleftrightarrow> lifecycle_walk w \<and> can_transition (last w) t"
  by (induction w rule: lifecycle_walk.induct) auto

lemma enter_state_walk: "walk_ok ss \<Longrightarrow> can_transition (ss_state ss) st \<Longrightarrow> walk_ok (enter_state now st r ss)"
  by (auto simp: walk_ok_def enter_state_def lifecycle_walk_snoc)

lemma enter_state_simps [simp]:
  "ss_state (enter_state now st r ss) = st" "ss_netns (enter_state now st r ss) = ss_netns ss"
  "ss_name (enter_state now st r ss) = ss_name ss" "ss_phase (enter_state now st r ss) = ss_phase ss"
  by (simp_all add: enter_state_def)

lemma walk_ok_fields [simp]:
  "walk_ok (ss\<lparr>ss_phase := p\<rparr>) = walk_ok ss" "walk_ok (ss\<lparr>ss_stopCh := c\<rparr>) = walk_ok ss"
  "walk_ok (ss\<lparr>ss_pid := pid, ss_netns := n, ss_ip := ip\<rparr>) = walk_ok ss"
  "walk_ok (ss\<lparr>ss_hello := b\<rparr>) = walk_ok ss"
  "walk_ok (ss\<lparr>ss_ready := r, ss_endpoints := e, ss_lastHB := t\<rparr>) = walk_ok ss"
  "walk_ok (ss\<lparr>ss_failed := f\<rparr>) = walk_ok ss"
  by (simp_all add: walk_ok_def)

text \<open>Sessions after an event of \<^verbatim>\<open>run\<close>: the others are as before, this one is well formed or gone.\<close>

definition evolves :: "string \<Rightarrow> sup \<Rightarrow> sup \<Rightarrow> bool" where
  "evolves i s t = ((\<forall>j. j \<noteq> i \<longrightarrow> tget (sp_sessions t) j = tget (sp_sessions s) j) \<and>
     (\<forall>ss. tget (sp_sessions t) i = Some ss \<longrightarrow> sess_ok ss) \<and> sp_cams t = sp_cams s \<and> sp_locks t = sp_locks s)"

lemma fail_session_evolves:
  assumes "walk_ok ss" "can_transition (ss_state ss) StateError" "sp_cams s' = sp_cams s" "sp_locks s' = sp_locks s"
    "\<forall>j. j \<noteq> i \<longrightarrow> tget (sp_sessions s') j = tget (sp_sessions s) j"
  shows "evolves i s (fail_session now f i r ss s')"
  using assms enter_state_walk [OF assms(1,2)]
  by (auto simp: fail_session_def evolves_def sess_ok_def phase_states_def sup_frame dest!: setState_frame split: prod.split)

lemma finishStopped_evolves:
  assumes "walk_ok ss" "can_transition (ss_state ss) StateStopping"
  shows "evolves i s (finishStopped now f i r ss s)"
proof -
  have "walk_ok (enter_state now StateStopped [] (enter_state now StateStopping r ss))"
    by (intro enter_state_walk assms) (simp add: can_transition_def)
  then show ?thesis
    by (auto simp: finishStopped_def evolves_def sess_ok_def phase_states_def sup_frame dest!: setState_frame split: prod.split)
qed

lemma stop_begin_evolves:
  "walk_ok ss \<Longrightarrow> can_transition (ss_state ss) StateStopping \<Longrightarrow> evolves i s (stop_begin now f i r ss s)"
  using enter_state_walk [of ss StateStopping now r]
  by (auto simp: stop_begin_def evolves_def sess_ok_def phase_states_def sup_frame dest!: setState_frame split: prod.split)

lemma stop_end_evolves:
  "walk_ok ss \<Longrightarrow> can_transition (ss_state ss) StateStopped \<Longrightarrow> evolves i s (stop_end now f i ss s)"
  using enter_state_walk [of ss StateStopped now "[]"]
  by (auto simp: stop_end_def evolves_def sess_ok_def phase_states_def sup_frame dest!: setState_frame split: prod.split)

lemma netnsName_frame:
  "netnsName uni i name s = (n, t) \<Longrightarrow> sp_sessions t = sp_sessions s \<and> sp_cams t = sp_cams s \<and> sp_locks t = sp_locks s \<and>
     sp_retries t = sp_retries s \<and> sp_armed t = sp_armed s \<and> sp_due t = sp_due s \<and> sp_releasing t = sp_releasing s \<and> sp_netns t = tput n i (drop_owner i (sp_netns s))"
  by (auto simp: netnsName_def Let_def)

lemma put_evolves:
  "sess_ok ss \<Longrightarrow> evolves i s (put_session i ss s)"
  by (simp add: evolves_def sup_frame)

lemma on_stop_evolves:
  "sess_ok ss \<Longrightarrow> tget (sp_sessions s) i = Some ss \<Longrightarrow> can_transition (ss_state ss) StateStopping \<Longrightarrow>
   evolves i s (on_stop now f i ss s)"
  by (auto simp: on_stop_def sess_ok_def intro!: stop_begin_evolves split: option.split)
    (simp add: evolves_def sess_ok_def)

lemma on_conn_done_evolves:
  "walk_ok ss \<Longrightarrow> can_transition (ss_state ss) StateError \<Longrightarrow> evolves i s (on_conn_done now f b i ss s)"
  by (auto simp: on_conn_done_def exitReason_def intro!: fail_session_evolves)

lemma on_streams_evolves:
  assumes "sess_ok ss" "ss_phase ss = Preparing"
  shows "evolves i s (on_streams now f err seen i ss s)"
proof -
  have st: "walk_ok ss" "ss_state ss = StateProvisioning" using assms by (auto simp: sess_ok_def phase_states_def)
  have "sess_ok (ss\<lparr>ss_phase := Launching\<rparr>)" using st by (simp add: sess_ok_def phase_states_def)
  with st show ?thesis
    by (auto simp: on_streams_def can_transition_def
        intro!: finishStopped_evolves fail_session_evolves put_evolves split: option.split)
qed

lemma on_launch_evolves:
  assumes "sess_ok ss" "ss_phase ss = Launching"
  shows "evolves i s (on_launch uni netns now f res i ss s)"
proof -
  have st: "walk_ok ss" "can_transition (ss_state ss) StateError" "can_transition (ss_state ss) StateStarting"
    using assms by (auto simp: sess_ok_def phase_states_def can_transition_def)
  let ?r = "if netns then netnsName uni i (ss_name ss) s else ([], s)"
  obtain n t where r: "?r = (n, t)" by fastforce
  then have t: "sp_sessions t = sp_sessions s" "sp_cams t = sp_cams s" "sp_locks t = sp_locks s"
    by (auto dest: netnsName_frame split: if_splits)
  show ?thesis
  proof (cases res)
    case (Launched pid ip)
    let ?ss = "enter_state now StateStarting [] (ss\<lparr>ss_pid := pid, ss_netns := n, ss_ip := ip\<rparr>)"
    have "walk_ok ?ss" using st by (intro enter_state_walk) simp_all
    then show ?thesis using t r
      by (auto simp: on_launch_def Launched evolves_def sess_ok_def phase_states_def sup_frame Let_def
          dest!: setState_frame split: prod.split)
  next
    case (SpecError e reserved)
    have "evolves i s (fail_session now f i e ss (if reserved then snd ?r else s))"
      by (rule fail_session_evolves [OF st(1,2)]) (simp_all add: r t)
    then show ?thesis by (simp add: on_launch_def SpecError)
  next
    case (LaunchError e)
    have "evolves i s (fail_session now f i e ss (snd ?r))"
      by (rule fail_session_evolves [OF st(1,2)]) (simp_all add: r t)
    then show ?thesis by (simp add: on_launch_def LaunchError)
  qed
qed

lemma on_ready_evolves:
  assumes "sess_ok ss" "ss_phase ss = AwaitReady" "tget (sp_sessions s) i = Some ss"
  shows "evolves i s (run_event uni netns now f EvReady i ss s)"
proof (cases "ss_ready ss")
  case None
  with assms show ?thesis by (simp add: run_event_def evolves_def)
next
  case (Some eps')
  let ?ss = "enter_state now StateRunning [] (ss\<lparr>ss_ready := None, ss_endpoints := eps', ss_lastHB := now\<rparr>)"
  have "walk_ok ?ss" using assms by (intro enter_state_walk) (auto simp: sess_ok_def phase_states_def can_transition_def)
  with Some assms(2) show ?thesis
    by (auto simp: run_event_def evolves_def sess_ok_def phase_states_def sup_frame dest!: setState_frame split: prod.split)
qed

lemma phase_moves:
  "sess_ok ss \<Longrightarrow> ss_phase ss \<in> {AwaitHello, Configuring, AwaitReady, Supervising} \<Longrightarrow>
   walk_ok ss \<and> can_transition (ss_state ss) StateError \<and> can_transition (ss_state ss) StateStopping"
  by (auto simp: sess_ok_def phase_states_def can_transition_def)

lemma run_event_evolves:
  assumes ok: "sess_ok ss" and g: "tget (sp_sessions s) i = Some ss"
  shows "evolves i s (run_event uni netns now f ev i ss s)"
proof -
  have id: "evolves i s s" using assms by (simp add: evolves_def)
  note m = phase_moves [OF ok]
  have w: "walk_ok ss" "ss_state ss \<in> set (phase_states (ss_phase ss))" using ok by (simp_all add: sess_ok_def)
  show ?thesis
  proof (cases "ss_phase ss")
    case Preparing
    with ok id show ?thesis by (cases ev) (auto simp: run_event_def on_streams_evolves)
  next
    case Launching
    with ok id show ?thesis by (cases ev) (auto simp: run_event_def on_launch_evolves)
  next
    case AwaitHello
    then have "sess_ok (ss\<lparr>ss_hello := False, ss_phase := Configuring\<rparr>)" using w by (simp add: sess_ok_def phase_states_def)
    with AwaitHello ok id m g show ?thesis
      by (cases ev) (auto simp: run_event_def intro!: put_evolves on_conn_done_evolves on_stop_evolves fail_session_evolves)
  next
    case Configuring
    then have "sess_ok (ss\<lparr>ss_phase := AwaitReady\<rparr>)" using w by (simp add: sess_ok_def phase_states_def)
    with Configuring ok id m show ?thesis
      by (cases ev) (auto simp: run_event_def intro!: put_evolves fail_session_evolves split: option.split)
  next
    case AwaitReady
    with ok id m g show ?thesis
    proof (cases ev)
      case EvReady
      with on_ready_evolves [OF ok AwaitReady g] show ?thesis by simp
    qed (auto simp: run_event_def intro!: on_conn_done_evolves on_stop_evolves fail_session_evolves split: option.split)
  next
    case Supervising
    with ok id m g show ?thesis
      by (cases ev) (auto simp: run_event_def intro!: on_conn_done_evolves on_stop_evolves fail_session_evolves,
        simp add: evolves_def sup_frame)
  next
    case StopWait
    then have "ss_state ss = StateStopping" using w by (simp add: phase_states_def)
    with StopWait id w show ?thesis
      by (cases ev) (auto simp: run_event_def can_transition_def intro!: stop_end_evolves)
  next
    case Failed_phase
    then have "sess_ok (ss\<lparr>ss_phase := Done_phase\<rparr>)" using w by (simp add: sess_ok_def phase_states_def)
    with Failed_phase id show ?thesis
      by (cases ev) (auto simp: run_event_def evolves_def sup_frame)
  next
    case Done_phase
    with id show ?thesis
      by (cases ev) (auto simp: run_event_def run_end_def evolves_def)
  qed
qed

section \<open>The invariant\<close>

definition not_wanted :: "string \<Rightarrow> sup \<Rightarrow> bool" where
  "not_wanted i s = (case tget (sp_cams s) i of None \<Rightarrow> True | Some c \<Rightarrow> cr_Desired c = DesiredStopped)"

definition sup_ok :: "sup \<Rightarrow> bool" where
  "sup_ok s = ((\<forall>i ss. tget (sp_sessions s) i = Some ss \<longrightarrow> sess_ok ss) \<and>
     (\<forall>i n. tget (sp_locks s) i = Some (StopHolder n) \<longrightarrow> not_wanted i s))"

lemma sess_ok_send_stop [simp]: "sess_ok (send_stop r ss) = sess_ok ss"
  by (simp add: send_stop_def sess_ok_def walk_ok_def)

lemma new_session_ok: "sess_ok (enter_state now StateProvisioning [] (new_session n t name))"
  by (simp add: sess_ok_def walk_ok_def enter_state_def new_session_def phase_states_def can_transition_def)

lemma startSession_frame [sup_frame]:
  "sp_sessions (startSession now f i name s) =
     tput i (enter_state now StateProvisioning [] (new_session (sp_serials s) now name)) (sp_sessions s)"
  "sp_cams (startSession now f i name s) = sp_cams s" "sp_locks (startSession now f i name s) = sp_locks s"
  "sp_netns (startSession now f i name s) = sp_netns s" "sp_releasing (startSession now f i name s) = sp_releasing s" "sp_due (startSession now f i name s) = sp_due s"
  "sp_retries (startSession now f i name s) = sp_retries s" "sp_armed (startSession now f i name s) = sp_armed s"
  by (simp_all add: startSession_def setState_def Let_def sup_frame)

lemma sup_ok_evolves:
  assumes "sup_ok s" "evolves i s t"
  shows "sup_ok t"
proof -
  have "sess_ok ss" if "tget (sp_sessions t) j = Some ss" for j ss
    using assms that by (cases "j = i") (simp_all add: sup_ok_def evolves_def)
  moreover have "not_wanted j t" if "tget (sp_locks t) j = Some (StopHolder n)" for j n
    using assms that by (simp add: sup_ok_def evolves_def not_wanted_def)
  ultimately show ?thesis by (simp add: sup_ok_def)
qed

lemma sup_ok_samples [simp]: "sup_ok (s\<lparr>sp_samples := x\<rparr>) = sup_ok s"
  by (simp add: sup_ok_def not_wanted_def)

lemma sup_ok_session: "sup_ok s \<Longrightarrow> tget (sp_sessions s) i = Some ss \<Longrightarrow> sess_ok ss"
  by (simp add: sup_ok_def)

lemma sup_ok_frame:
  "sup_ok s \<Longrightarrow> sp_sessions t = sp_sessions s \<Longrightarrow> sp_cams t = sp_cams s \<Longrightarrow> sp_locks t = sp_locks s \<Longrightarrow> sup_ok t"
  by (simp add: sup_ok_def not_wanted_def)

lemma sup_ok_put: "sup_ok s \<Longrightarrow> sess_ok ss \<Longrightarrow> sup_ok (put_session i ss s)"
  using sup_ok_evolves put_evolves by blast

lemma sup_ok_unlock: "sup_ok s \<Longrightarrow> sup_ok (unlock i s)"
  by (simp add: sup_ok_def not_wanted_def sup_frame)

lemma sup_ok_start: "sup_ok s \<Longrightarrow> sup_ok (startSession now f i name s)"
  using new_session_ok [of now "sp_serials s" now name] by (auto simp: sup_ok_def not_wanted_def sup_frame)

lemma setDesired_ok:
  assumes "sup_ok s" "setDesired f i d s = (e, t)" "held i s \<longrightarrow> d = DesiredStopped"
  shows "sup_ok t \<and> (e = None \<longrightarrow> d = DesiredStopped \<longrightarrow> not_wanted i t)"
  using assms by (auto simp: setDesired_def sup_ok_def not_wanted_def held_def split: if_splits option.splits) blast+

lemma StartCamera_ok: "sup_ok s \<Longrightarrow> \<not> held i s \<Longrightarrow> sup_ok (snd (StartCamera admit b df sf now i s))"
proof -
  assume s: "sup_ok s" "\<not> held i s"
  obtain e t where d: "setDesired df i DesiredRunning s = (e, t)" by fastforce
  have t: "sup_ok t" using setDesired_ok [OF s(1) d] s(2) by simp
  then have "sup_ok (cancelRetry i t)" by (rule sup_ok_frame) (simp_all add: sup_frame)
  with s t d show ?thesis
    by (auto simp: StartCamera_def Let_def intro!: sup_ok_start split: sum.split option.split)
qed

lemma StopCamera_ok: "sup_ok s \<Longrightarrow> \<not> held i s \<Longrightarrow> sup_ok (snd (StopCamera b df sf now who i s))"
proof -
  assume s: "sup_ok s" "\<not> held i s"
  obtain e t where d: "setDesired df i DesiredStopped s = (e, t)" by fastforce
  have t: "sup_ok t" "e = None \<Longrightarrow> not_wanted i t" using setDesired_ok [OF s(1) d] by simp_all
  let ?c = "cancelRetry i t"
  have c: "sup_ok ?c" by (rule sup_ok_frame [OF t(1)]) (simp_all add: sup_frame)
  have "sup_ok (put_session i (send_stop r ss) (?c\<lparr>sp_locks := tput i (StopHolder n) (sp_locks ?c)\<rparr>))"
    if "e = None" "tget (sp_sessions ?c) i = Some ss" for r ss n
    using c that t(2) by (intro sup_ok_put) (auto simp: sup_ok_def not_wanted_def sup_frame)
  moreover have "sup_ok (publishStatus i StateStopped [] (saveStatus sf i StateStopped [] zero_time now (rt_Destroy i ?c)))"
    by (rule sup_ok_frame [OF c]) (simp_all add: sup_frame)
  ultimately show ?thesis using s t d
    by (auto simp: StopCamera_def Let_def split: sum.split option.split)
qed

lemma delete_now_ok: "sup_ok s \<Longrightarrow> sup_ok (snd (delete_now f i s))"
  by (auto simp: delete_now_def Let_def forgetCamera_def sup_ok_def not_wanted_def sup_frame)

lemma DeleteCamera_ok: "sup_ok s \<Longrightarrow> \<not> held i s \<Longrightarrow> sup_ok (snd (DeleteCamera b f i s))"
proof -
  assume s: "sup_ok s" "\<not> held i s"
  let ?c = "cancelRetry i s"
  have c: "sup_ok ?c" by (rule sup_ok_frame [OF s(1)]) (simp_all add: sup_frame)
  have "sup_ok (put_session i (send_stop r ss) (?c\<lparr>sp_locks := tput i (DeleteHolder n) (sp_locks ?c)\<rparr>))"
    if "tget (sp_sessions ?c) i = Some ss" for r ss n
    using c that by (intro sup_ok_put) (auto simp: sup_ok_def not_wanted_def sup_frame)
  with c s show ?thesis
    by (auto simp: DeleteCamera_def Let_def delete_now_ok split: sum.split option.split)
qed

lemma retryStart_ok: "sup_ok s \<Longrightarrow> sup_ok (retryStart admit b f now i s)"
  by (auto simp: retryStart_def sup_frame intro!: sup_ok_start sup_ok_frame [of s] split: sum.split option.split)

lemma handle_ok:
  assumes "sup_ok s" "tget (sp_sessions s) i = Some ss"
  shows "sup_ok (handle now m i ss s)"
proof -
  have ok: "sess_ok ss" using assms by (auto simp: sup_ok_def)
  then have "sess_ok (ss\<lparr>ss_hello := True\<rparr>)" "sess_ok (ss\<lparr>ss_ready := r\<rparr>)" "sess_ok (ss\<lparr>ss_failed := e\<rparr>)"
    "sess_ok (ss\<lparr>ss_lastHB := now, ss_lastSample := t\<rparr>)" "sess_ok (ss\<lparr>ss_notices := b\<rparr>)" for r e t b
    by (simp_all add: sess_ok_def walk_ok_def)
  moreover from this(4) [of "ss_lastSample ss"] have "sess_ok (ss\<lparr>ss_lastHB := now\<rparr>)"
    by (simp add: sess_ok_def walk_ok_def)
  ultimately show ?thesis using assms(1)
    by (auto simp: handle_def Let_def allowNotice_def intro!: sup_ok_put split: cam_message.split option.split prod.split)
qed

lemma reconcile_cam_ok: "sup_ok s \<Longrightarrow> sup_ok (reconcile_cam i d s)"
  by (auto simp: reconcile_cam_def intro!: sup_ok_put intro: sup_ok_frame [of s] sup_ok_session
      split: desired_state.split option.split)

lemma shutdown_sessions:
  "sp_sessions (fold (\<lambda>(_, r). disarm (rs_timer r)) rs s) = sp_sessions s \<and>
   sp_cams (fold (\<lambda>(_, r). disarm (rs_timer r)) rs s) = sp_cams s \<and>
   sp_locks (fold (\<lambda>(_, r). disarm (rs_timer r)) rs s) = sp_locks s"
  by (induction rs arbitrary: s) (auto simp: sup_frame)

lemma sup_do_ok: "sup_ok s \<Longrightarrow> sup_ok (sup_do uni netns op s)"
proof (cases op)
  case (OpStart admit b df sf now i)
  assume "sup_ok s"
  then show ?thesis by (simp add: OpStart StartCamera_ok)
next
  case (OpStop b df sf now who i)
  assume "sup_ok s"
  then show ?thesis by (simp add: OpStop StopCamera_ok)
next
  case (OpStopEnd d i)
  assume "sup_ok s"
  then show ?thesis by (simp add: OpStopEnd StopCamera_end_def sup_ok_unlock split: option.split lock_holder.split)
next
  case (OpDelete b f i)
  assume "sup_ok s"
  then show ?thesis by (simp add: OpDelete DeleteCamera_ok)
next
  case (OpDeleteEnd f i)
  assume "sup_ok s"
  then show ?thesis by (simp add: OpDeleteEnd DeleteCamera_end_def delete_now_ok split: option.split lock_holder.split)
next
  case (OpCreate i c)
  assume "sup_ok s"
  then show ?thesis by (auto simp: OpCreate sup_ok_def not_wanted_def)
next
  case (OpRetry admit b f now i)
  assume s: "sup_ok s"
  have "sup_ok (s\<lparr>sp_due := d\<rparr>)" for d by (rule sup_ok_frame [OF s]) simp_all
  with s show ?thesis by (simp add: OpRetry retryStart_ok)
next
  case (OpRun now f ev i)
  assume s: "sup_ok s"
  show ?thesis
  proof (cases "tget (sp_sessions s) i")
    case (Some ss)
    then have "sess_ok ss" using s by (auto simp: sup_ok_def)
    from sup_ok_evolves [OF s run_event_evolves [OF this Some]] Some show ?thesis by (simp add: OpRun)
  qed (simp add: OpRun s)
next
  case (OpRelease n i)
  assume s: "sup_ok s"
  show ?thesis
    by (rule sup_ok_frame [OF s]) (simp_all add: OpRelease run_release_def releaseNetns_def)
next
  case (OpMessage now m i)
  assume "sup_ok s"
  then show ?thesis by (simp add: OpMessage handle_ok split: option.split)
next
  case OpNext
  assume s: "sup_ok s"
  have "sup_ok (s\<lparr>sp_pass := p\<rparr>)" for p by (rule sup_ok_frame [OF s]) simp_all
  with s show ?thesis by (auto simp: OpNext reconcile_next_def reconcile_cam_ok split: list.split)
next
  case OpShutdown
  assume s: "sup_ok s"
  let ?t = "fold (\<lambda>(_, r). disarm (rs_timer r)) (sp_retries s) (s\<lparr>sp_closing := True\<rparr>)"
  have t: "sp_sessions ?t = sp_sessions s" "sp_cams ?t = sp_cams s" "sp_locks ?t = sp_locks s"
    using shutdown_sessions [of "sp_retries s" "s\<lparr>sp_closing := True\<rparr>"] by simp_all
  show ?thesis using s
    by (auto simp: OpShutdown shutdown_service_def Let_def sup_ok_def not_wanted_def t tget_map_value)
qed (auto simp: fire_def reconcile_begin_def reconcile_live_def orphan_check_def orphan_kill_def Let_def sup_frame
    elim!: sup_ok_frame split: option.split list.split)

end
