(* ===== verification/Supervisor_Claims.thy ===== *)
theory Supervisor_Claims
  imports Supervisor_Safety
begin

text \<open>
  The properties of the supervisor, over the states reached from the boot of the service with any
  cameras in its database.
\<close>

definition booted :: "instant \<Rightarrow> (string, cam_row) table \<Rightarrow> sup" where
  "booted now cams = bootCameras now (new_service\<lparr>sp_cams := cams\<rparr>)"

lemma boot_cam_frame:
  "sp_sessions (boot_cam now i c s) = sp_sessions s \<and> sp_locks (boot_cam now i c s) = sp_locks s \<and>
   sp_netns (boot_cam now i c s) = sp_netns s \<and> sp_releasing (boot_cam now i c s) = sp_releasing s"
proof -
  obtain e t where "setDesired False i (if cr_Autostart c then DesiredRunning else DesiredStopped) s = (e, t)" by fastforce
  with setDesired_frame [OF this] show ?thesis by (simp add: boot_cam_def sup_frame)
qed

lemma boot_frame:
  "sp_sessions (fold (\<lambda>(i, c). boot_cam now i c) cs s) = sp_sessions s \<and>
   sp_locks (fold (\<lambda>(i, c). boot_cam now i c) cs s) = sp_locks s \<and>
   sp_netns (fold (\<lambda>(i, c). boot_cam now i c) cs s) = sp_netns s \<and>
   sp_releasing (fold (\<lambda>(i, c). boot_cam now i c) cs s) = sp_releasing s"
  by (induction cs arbitrary: s) (auto simp: boot_cam_frame)

lemma booted_frame [simp]:
  "sp_sessions (booted now cams) = []" "sp_locks (booted now cams) = []" "sp_netns (booted now cams) = []"
  "sp_releasing (booted now cams) = []"
  using boot_frame [of now cams "new_service\<lparr>sp_cams := cams\<rparr>"]
  by (simp_all add: booted_def bootCameras_def new_service_def)

interpretation sv: machine "booted now cams" "sup_step uni netns" sup_ok for now cams uni netns
proof
  show "sup_ok (booted now cams)" by (simp add: sup_ok_def)
  show "sup_ok s \<Longrightarrow> sup_step uni netns s t \<Longrightarrow> sup_ok t" for s t
    by (auto simp: sup_step_def intro: sup_do_ok)
qed

definition sup_run :: "(rune \<Rightarrow> rune) \<Rightarrow> bool \<Rightarrow> sup_op list \<Rightarrow> sup \<Rightarrow> sup" where
  "sup_run uni netns ops s = fold (sup_do uni netns) ops s"

lemma sup_run_reach: "reach (sup_step uni netns) s (sup_run uni netns ops s)"
proof -
  have g: "reach (sup_step uni netns) u s \<Longrightarrow> reach (sup_step uni netns) u (fold (sup_do uni netns) ops s)" for u s
  proof (induction ops arbitrary: s)
    case (Cons op ops)
    have "sup_step uni netns s (sup_do uni netns op s)" by (auto simp: sup_step_def)
    from Cons.IH [OF reach_step [OF Cons.prems this]] show ?case by simp
  qed simp
  show ?thesis unfolding sup_run_def by (rule g [OF reach_refl])
qed

text \<open>C20. Whatever the processes, the runtime and the operations do, a session only makes moves of the
  camera lifecycle, beginning at Stopped, and the state it reports is the last of them: the
  detailed session refines the abstract lifecycle.\<close>

theorem session_lifecycle:
  assumes "reach (sup_step uni netns) (booted now cams) s" "tget (sp_sessions s) i = Some ss"
  shows "lifecycle_walk (ss_walk ss) \<and> hd (ss_walk ss) = StateStopped \<and> last (ss_walk ss) = ss_state ss \<and>
    ss_state ss \<in> set (phase_states (ss_phase ss))"
  using sup_ok_session [OF sv.inv_reachable [OF assms(1)] assms(2)] by (simp add: sess_ok_def walk_ok_def)

definition one_cam :: "(string, cam_row) table" where
  "one_cam = [(''A'', \<lparr>cr_Name = ''door'', cr_Desired = DesiredStopped, cr_Autostart = False\<rparr>)]"

theorem session_lifecycle_witness:
  "\<exists>ss. tget (sp_sessions (sup_run id True [OpStart None False False False 5 ''A''] (booted 0 one_cam))) ''A'' = Some ss \<and>
     lifecycle_walk (ss_walk ss)"
proof -
  let ?s = "sup_run id True [OpStart None False False False 5 ''A''] (booted 0 one_cam)"
  obtain ss where "tget (sp_sessions ?s) ''A'' = Some ss"
    by (simp add: sup_run_def booted_def bootCameras_def one_cam_def boot_cam_def new_service_def setDesired_def saveStatus_def
        held_def StartCamera_def load_cam_def cancelRetry_def Let_def startSession_frame)
  with session_lifecycle [OF sup_run_reach this] show ?thesis by blast
qed

section \<open>A stopped camera\<close>

fun starts :: "string \<Rightarrow> sup_op \<Rightarrow> bool" where
  "starts i (OpStart admit b df sf now j) = (j = i)"
| "starts i _ = False"

definition calm :: "string \<Rightarrow> sup \<Rightarrow> bool" where
  "calm i s = (tget (sp_sessions s) i = None \<and> not_wanted i s)"

lemma calm_frame:
  "calm i s \<Longrightarrow> tget (sp_sessions t) i = tget (sp_sessions s) i \<Longrightarrow> tget (sp_cams t) i = tget (sp_cams s) i \<Longrightarrow> calm i t"
  by (simp add: calm_def not_wanted_def)

lemma calm_desired:
  assumes "calm i s" "setDesired f j d s = (e, t)" "j \<noteq> i \<or> d = DesiredStopped"
  shows "calm i t"
  using assms by (auto simp: setDesired_def calm_def not_wanted_def split: if_splits option.splits)

lemma calm_start: "calm i s \<Longrightarrow> j \<noteq> i \<Longrightarrow> calm i (snd (StartCamera admit b df sf now j s))"
proof -
  assume q: "calm i s" "j \<noteq> i"
  obtain e t where d: "setDesired df j DesiredRunning s = (e, t)" by fastforce
  then have "calm i t" using calm_desired [OF q(1)] q(2) by blast
  then have "calm i (cancelRetry j t)" "calm i (startSession now sf j n (cancelRetry j t))" for n
    using q(2) by (auto elim!: calm_frame simp: sup_frame)
  with q \<open>calm i t\<close> d show ?thesis by (auto simp: StartCamera_def Let_def split: sum.split option.split)
qed

lemma calm_stop: "calm i s \<Longrightarrow> calm i (snd (StopCamera b df sf now who j s))"
proof -
  assume q: "calm i s"
  obtain e t where d: "setDesired df j DesiredStopped s = (e, t)" by fastforce
  then have t: "calm i t" using calm_desired [OF q] by blast
  let ?c = "cancelRetry j t"
  have "calm i (publishStatus j StateStopped [] (saveStatus sf j StateStopped [] zero_time now (rt_Destroy j ?c)))"
    by (rule calm_frame [OF t]) (simp_all add: sup_frame)
  moreover have "calm i (put_session j (send_stop r ss) (?c\<lparr>sp_locks := l\<rparr>))" if "tget (sp_sessions ?c) j = Some ss" for r ss l
    using that t by (intro calm_frame [OF t]) (auto simp: sup_frame calm_def)
  ultimately show ?thesis using q t d by (auto simp: StopCamera_def Let_def split: sum.split option.split)
qed

lemma calm_delete_now: "calm i s \<Longrightarrow> calm i (snd (delete_now f j s))"
  by (auto simp: delete_now_def Let_def forgetCamera_def calm_def not_wanted_def sup_frame)

lemma calm_delete: "calm i s \<Longrightarrow> calm i (snd (DeleteCamera b f j s))"
proof -
  assume q: "calm i s"
  let ?c = "cancelRetry j s"
  have c: "calm i ?c" by (rule calm_frame [OF q]) (simp_all add: sup_frame)
  have "calm i (put_session j (send_stop r ss) (?c\<lparr>sp_locks := l\<rparr>))" if "tget (sp_sessions ?c) j = Some ss" for r ss l
    using that c by (intro calm_frame [OF c]) (auto simp: sup_frame calm_def)
  with c q show ?thesis by (auto simp: DeleteCamera_def Let_def calm_delete_now split: sum.split option.split)
qed

lemma calm_retry: "calm i s \<Longrightarrow> calm i (retryStart admit b f now j s)"
proof -
  assume q: "calm i s"
  have "calm i (publishStatus j StateError why (saveStatus f j StateError why zero_time now s))" for why
    by (rule calm_frame [OF q]) (simp_all add: sup_frame)
  moreover have "calm i (startSession now f j n s)" if "j \<noteq> i" for n
    using that by (intro calm_frame [OF q]) (auto simp: sup_frame)
  moreover have "j \<noteq> i" if "tget (sp_cams s) j = Some c" "cr_Desired c = DesiredRunning" for c
    using q that by (auto simp: calm_def not_wanted_def)
  ultimately show ?thesis using q
    by (auto simp: retryStart_def load_cam_def split: option.split sum.splits)
qed

lemma calm_put: "calm i s \<Longrightarrow> tget (sp_sessions s) j = Some ss \<Longrightarrow> calm i (put_session j ss' s)"
  by (auto simp: calm_def not_wanted_def sup_frame)

lemma calm_handle: "calm i s \<Longrightarrow> tget (sp_sessions s) j = Some ss \<Longrightarrow> calm i (handle now m j ss s)"
  by (auto simp: handle_def Let_def calm_put intro: calm_frame [OF calm_put [of i s j ss]]
      split: cam_message.split option.split)

lemma calm_do:
  assumes q: "calm i s" and ok: "sup_ok s" and n: "\<not> starts i op"
  shows "calm i (sup_do uni netns op s)"
proof (cases op)
  case (OpStart admit b df sf now j)
  with n q show ?thesis by (simp add: calm_start)
next
  case (OpStop b df sf now who j)
  with q show ?thesis by (simp add: calm_stop)
next
  case (OpStopEnd d j)
  have "calm i (unlock j s)" by (rule calm_frame [OF q]) (simp_all add: sup_frame)
  with q show ?thesis by (simp add: OpStopEnd StopCamera_end_def split: option.split lock_holder.split)
next
  case (OpDelete b f j)
  with q show ?thesis by (simp add: calm_delete)
next
  case (OpDeleteEnd f j)
  with q show ?thesis by (simp add: DeleteCamera_end_def calm_delete_now split: option.split lock_holder.split)
next
  case (OpCreate j c)
  with q show ?thesis by (auto simp: calm_def not_wanted_def)
next
  case (OpRetry admit b f now j)
  have "calm i (s\<lparr>sp_due := d\<rparr>)" for d by (rule calm_frame [OF q]) simp_all
  with q show ?thesis by (simp add: OpRetry calm_retry)
next
  case (OpRun now f ev j)
  show ?thesis
  proof (cases "tget (sp_sessions s) j")
    case (Some ss)
    then have "j \<noteq> i" using q by (auto simp: calm_def)
    from run_event_evolves [OF sup_ok_session [OF ok Some] Some] this show ?thesis
      by (auto simp: OpRun Some evolves_def intro!: calm_frame [OF q])
  qed (simp add: OpRun q)
next
  case (OpRelease n j)
  show ?thesis by (rule calm_frame [OF q]) (simp_all add: OpRelease run_release_def releaseNetns_def)
next
  case (OpMessage now m j)
  with q show ?thesis by (auto simp: calm_handle split: option.split)
next
  case OpNext
  have "calm i (s\<lparr>sp_pass := p\<rparr>)" for p by (rule calm_frame [OF q]) simp_all
  with q show ?thesis
    by (auto simp: OpNext reconcile_next_def reconcile_cam_def calm_put intro: calm_frame [OF q]
        split: list.split desired_state.split option.split)
next
  case OpShutdown
  let ?t = "fold (\<lambda>(_, r). disarm (rs_timer r)) (sp_retries s) (s\<lparr>sp_closing := True\<rparr>)"
  have t: "sp_sessions ?t = sp_sessions s" "sp_cams ?t = sp_cams s"
    using shutdown_sessions [of "sp_retries s" "s\<lparr>sp_closing := True\<rparr>"] by simp_all
  show ?thesis using q
    by (auto simp: OpShutdown shutdown_service_def Let_def calm_def not_wanted_def t tget_map_value)
qed (auto simp: fire_def reconcile_begin_def reconcile_live_def orphan_check_def orphan_kill_def Let_def sup_frame
    intro!: calm_frame [OF q] split: option.split list.split)

lemma calm_run:
  "calm i s \<Longrightarrow> sup_ok s \<Longrightarrow> \<forall>op\<in>set ops. \<not> starts i op \<Longrightarrow> calm i (sup_run uni netns ops s)"
  unfolding sup_run_def
proof (induction ops arbitrary: s)
  case (Cons op ops)
  then show ?case using calm_do [of i s op uni netns] sup_do_ok [of s uni netns op] by simp
qed simp

text \<open>C21. Once a stop has returned, the camera stays down: whatever retries, reconciliations, failures
  and other operations follow, no session of the camera exists and it is not meant to run, until
  somebody starts it.\<close>

theorem stopped_stays_stopped:
  assumes r: "reach (sup_step uni netns) (booted now cams) s"
    and stop: "(\<not> held i s \<and> StopCamera broken df sf later who i s = (Returned None, t)) \<or>
      (tget (sp_locks s) i = Some (StopHolder n) \<and> StopCamera_end ctx n i s = (Returned None, t))"
    and ops: "\<forall>op\<in>set ops. \<not> starts i op"
  shows "tget (sp_sessions (sup_run uni netns ops t)) i = None \<and> not_wanted i (sup_run uni netns ops t)"
proof -
  have ok: "sup_ok s" by (rule sv.inv_reachable [OF r])
  have "sup_ok t \<and> calm i t" using stop
  proof
    assume st: "\<not> held i s \<and> StopCamera broken df sf later who i s = (Returned None, t)"
    then have "sup_ok t" using StopCamera_ok [OF ok, of i broken df sf later who] by simp
    moreover obtain c where c: "load_cam broken i s = Inr c" using st by (cases "load_cam broken i s") (auto simp: StopCamera_def)
    obtain e u where d: "setDesired df i DesiredStopped s = (e, u)" by fastforce
    have e: "e = None" using st c d by (cases e) (auto simp: StopCamera_def)
    have u: "not_wanted i u" using setDesired_ok [OF ok d] e by simp
    have none: "tget (sp_sessions (cancelRetry i u)) i = None"
      using st c d e by (cases "tget (sp_sessions (cancelRetry i u)) i") (auto simp: StopCamera_def Let_def)
    then have "t = publishStatus i StateStopped [] (saveStatus sf i StateStopped [] zero_time later (rt_Destroy i (cancelRetry i u)))"
      using st c d e by (simp add: StopCamera_def Let_def)
    then have "calm i t" using none u by (simp add: calm_def not_wanted_def sup_frame)
    ultimately show ?thesis by simp
  next
    assume st: "tget (sp_locks s) i = Some (StopHolder n) \<and> StopCamera_end ctx n i s = (Returned None, t)"
    then have n: "tget (sp_sessions s) i = None" "t = unlock i s"
      by (auto simp: StopCamera_end_def session_done_def split: if_splits)
    have "not_wanted i s" using ok st unfolding sup_ok_def by blast
    with n ok show ?thesis by (simp add: calm_def not_wanted_def sup_frame sup_ok_unlock)
  qed
  then show ?thesis using calm_run [of i t ops uni netns] ops by (simp add: calm_def)
qed

theorem stopped_stays_stopped_witness:
  "tget (sp_sessions (sup_run id True [OpReconcile, OpNext, OpRetry None False False 7 ''A'']
      (snd (StopCamera False False False 6 ''admin'' ''A'' (booted 0 one_cam))))) ''A'' = None"
proof -
  let ?s = "booted 0 one_cam"
  have "fst (StopCamera False False False 6 ''admin'' ''A'' ?s) = Returned None"
    by (simp add: booted_def bootCameras_def one_cam_def boot_cam_def new_service_def setDesired_def saveStatus_def
        StopCamera_def load_cam_def Let_def cancelRetry_def)
  then have "\<not> held ''A'' ?s \<and> StopCamera False False False 6 ''admin'' ''A'' ?s =
      (Returned None, snd (StopCamera False False False 6 ''admin'' ''A'' ?s))"
    by (simp add: held_def prod_eq_iff)
  from stopped_stays_stopped [OF reach_refl disjI1 [OF this]] show ?thesis by simp
qed

section \<open>Failures and retries\<close>

definition attempts_of :: "string \<Rightarrow> sup \<Rightarrow> nat" where
  "attempts_of i s = (case tget (sp_retries s) i of None \<Rightarrow> 0 | Some r \<Rightarrow> rs_attempts r)"

text \<open>Each failure of a camera that should run arms one more timer, whose wait grows with the failures
  in a row; after the last automatic retry nothing is armed, and a pass of the reconciler leaves
  the camera alone.\<close>

theorem failure_schedules_retry:
  assumes "tget (sp_cams s) i = Some c" "cr_Desired c = DesiredRunning" "tget (sp_sessions s) i = None"
  shows "if attempts_of i s < MaxAutoRetries
    then sp_armed (afterFailure False i s) = sp_armed s @ [(sp_timers s, i, retry_backoff (int (attempts_of i s) + 1))] \<and>
      retryPending i (afterFailure False i s) \<and> attempts_of i (afterFailure False i s) = attempts_of i s + 1
    else sp_armed (afterFailure False i s) = sp_armed s \<and> gaveUp i (afterFailure False i s) \<and>
      reconcile_cam i DesiredRunning (afterFailure False i s) = afterFailure False i s"
  using assms
  by (auto simp: afterFailure_def attempts_of_def retryPending_def gaveUp_def reconcile_cam_def Let_def add.commute
      split: option.split)

definition failing_cam :: sup where
  "failing_cam = new_service\<lparr>sp_cams := [(''A'', \<lparr>cr_Name = ''door'', cr_Desired = DesiredRunning, cr_Autostart = True\<rparr>)]\<rparr>"

theorem failure_schedules_retry_witness:
  "sp_armed (afterFailure False ''A'' failing_cam) = [(0, ''A'', retry_backoff 1)]"
proof -
  have "attempts_of ''A'' failing_cam = 0" "sp_armed failing_cam = []" "sp_timers failing_cam = 0"
    by (simp_all add: attempts_of_def failing_cam_def new_service_def)
  then show ?thesis
    using failure_schedules_retry [of failing_cam "''A''"]
    by (simp add: failing_cam_def new_service_def MaxAutoRetries_def)
qed

text \<open>A retry that admission refuses leaves its timer behind: it has fired, but the camera still
  counts as having a retry pending, so no pass of the reconciler starts it.\<close>

definition stuck :: "string \<Rightarrow> sup \<Rightarrow> bool" where
  "stuck i s = (tget (sp_sessions s) i = None \<and> retryPending i s \<and> i \<notin> set (sp_due s) \<and>
     (\<forall>(n, j, w)\<in>set (sp_armed s). j \<noteq> i))"

text \<open>What somebody can do about a camera.\<close>

fun asks :: "string \<Rightarrow> sup_op \<Rightarrow> bool" where
  "asks i (OpStart admit b df sf now j) = (j = i)"
| "asks i (OpStop b df sf now who j) = (j = i)"
| "asks i (OpDelete b f j) = (j = i)"
| "asks i (OpDeleteEnd f j) = (j = i)"
| "asks i _ = False"

definition spares :: "string \<Rightarrow> sup \<Rightarrow> sup \<Rightarrow> bool" where
  "spares i s t = (tget (sp_sessions t) i = tget (sp_sessions s) i \<and> tget (sp_retries t) i = tget (sp_retries s) i \<and>
     (i \<in> set (sp_due t) \<longrightarrow> i \<in> set (sp_due s)) \<and> (\<forall>x\<in>set (sp_armed t). x \<in> set (sp_armed s) \<or> fst (snd x) \<noteq> i))"

named_theorems spares_intros \<open>operations on another camera spare this one\<close>

lemma spares_refl [spares_intros]: "spares i s s"
  by (simp add: spares_def)

lemma spares_trans: "spares i s t \<Longrightarrow> spares i t u \<Longrightarrow> spares i s u"
  by (fastforce simp: spares_def)

lemma spares_same:
  "spares i s t \<Longrightarrow> sp_sessions u = sp_sessions t \<Longrightarrow> sp_retries u = sp_retries t \<Longrightarrow> sp_due u = sp_due t \<Longrightarrow>
   sp_armed u = sp_armed t \<Longrightarrow> spares i s u"
  by (simp add: spares_def)

lemma stuck_spares: "stuck i s \<Longrightarrow> spares i s t \<Longrightarrow> stuck i t"
  by (fastforce simp: stuck_def spares_def retryPending_def)

lemma spares_put [spares_intros]: "j \<noteq> i \<Longrightarrow> spares i s t \<Longrightarrow> spares i s (put_session j ss t)"
  by (simp add: spares_def sup_frame)

lemma spares_setState: "setState now f j st r ss t = (ss', u) \<Longrightarrow> j \<noteq> i \<Longrightarrow> spares i s t \<Longrightarrow> spares i s u"
  by (drule setState_frame) (simp add: spares_def)

lemma spares_destroy [spares_intros]: "spares i s t \<Longrightarrow> spares i s (rt_Destroy j t)"
  by (simp add: spares_def sup_frame)

lemma spares_start [spares_intros]: "j \<noteq> i \<Longrightarrow> spares i s t \<Longrightarrow> spares i s (startSession now f j n t)"
  by (simp add: spares_def sup_frame)

lemma spares_publish [spares_intros]:
  "spares i s t \<Longrightarrow> spares i s (publishStatus j st r (saveStatus f j st r a b t))"
  by (simp add: spares_def sup_frame)

lemma armed_disarm: "set (sp_armed (disarm t s)) \<subseteq> set (sp_armed s)"
  by (auto simp: disarm_def split: option.split)

lemma spares_cancel [spares_intros]: "j \<noteq> i \<Longrightarrow> spares i s t \<Longrightarrow> spares i s (cancelRetry j t)"
  using armed_disarm by (fastforce simp: spares_def cancelRetry_def Let_def sup_frame split: option.split)

lemma spares_reset [spares_intros]: "j \<noteq> i \<Longrightarrow> spares i s t \<Longrightarrow> spares i s (resetRetries j t)"
  by (simp add: spares_def sup_frame)

lemma spares_after [spares_intros]: "j \<noteq> i \<Longrightarrow> spares i s t \<Longrightarrow> spares i s (afterFailure f j t)"
  by (auto simp: spares_def afterFailure_def Let_def split: option.split)

lemma spares_unlock [spares_intros]: "spares i s t \<Longrightarrow> spares i s (unlock j t)"
  by (simp add: spares_def sup_frame)

lemma spares_fail [spares_intros]: "j \<noteq> i \<Longrightarrow> spares i s t \<Longrightarrow> spares i s (fail_session now f j r ss t)"
  by (auto simp: fail_session_def intro!: spares_intros intro: spares_setState split: prod.split)

lemma spares_finish [spares_intros]: "j \<noteq> i \<Longrightarrow> spares i s t \<Longrightarrow> spares i s (finishStopped now f j r ss t)"
  by (auto simp: finishStopped_def intro!: spares_put intro: spares_setState spares_destroy split: prod.split)

lemma spares_stop [spares_intros]:
  "j \<noteq> i \<Longrightarrow> spares i s t \<Longrightarrow> spares i s (stop_begin now f j r ss t)"
  "j \<noteq> i \<Longrightarrow> spares i s t \<Longrightarrow> spares i s (stop_end now f j ss t)"
  by (auto simp: stop_begin_def stop_end_def intro!: spares_put intro: spares_setState spares_destroy split: prod.split)

lemma spares_netns: "netnsName uni j n t = (m, u) \<Longrightarrow> spares i s t \<Longrightarrow> spares i s u"
  by (drule netnsName_frame) (simp add: spares_def)

lemma spares_launch: "j \<noteq> i \<Longrightarrow> spares i s (on_launch uni netns now f res j ss s)"
proof -
  assume j: "j \<noteq> i"
  obtain n t where r: "(if netns then netnsName uni j (ss_name ss) s else ([], s)) = (n, t)" by fastforce
  then have t: "spares i s t" using spares_netns spares_refl by (metis Pair_inject)
  have l: "spares i s (t\<lparr>sp_live := x\<rparr>)" for x by (rule spares_same [OF t]) simp_all
  show ?thesis using j t l
    by (cases res) (auto simp: on_launch_def Let_def r intro!: spares_intros intro: spares_setState split: prod.split)
qed

lemma spares_exit: "spares i s t \<Longrightarrow> spares i s (t\<lparr>sp_exits := x\<rparr>)"
  by (simp add: spares_def)

lemma spares_run: "j \<noteq> i \<Longrightarrow> spares i s (run_event uni netns now f ev j ss s)"
proof -
  assume j: "j \<noteq> i"
  have e: "spares i s (run_end j ss s)" using j by (simp add: spares_def run_end_def)
  show ?thesis
    by (cases "ss_phase ss"; cases ev)
      (use j in \<open>auto simp: run_event_def on_streams_def on_conn_done_def exitReason_def on_stop_def spares_launch e
         intro!: spares_intros spares_exit intro: spares_setState split: option.split prod.split\<close>)
qed

lemma spares_load_ops:
  assumes j: "j \<noteq> i"
  shows "spares i s (snd (StartCamera admit b df sf now j s))" "spares i s (snd (StopCamera b df sf now who j s))"
    "spares i s (snd (DeleteCamera b f j s))" "spares i s (snd (delete_now f j s))"
proof -
  have d: "spares i s t" if "setDesired f j d s = (e, t)" for f d e t
    using setDesired_frame [OF that] by (simp add: spares_def)
  have l: "spares i s t \<Longrightarrow> spares i s (t\<lparr>sp_locks := x\<rparr>)" for t x by (simp add: spares_def)
  show "spares i s (snd (StartCamera admit b df sf now j s))"
    using j by (auto simp: StartCamera_def Let_def intro!: spares_intros intro: d split: sum.split option.split prod.split)
  show "spares i s (snd (StopCamera b df sf now who j s))"
    using j by (auto simp: StopCamera_def Let_def intro!: spares_intros l intro: d split: sum.split option.split prod.split)
  show n: "spares i s (snd (delete_now f j s))" for s
    using j by (auto simp: delete_now_def Let_def forgetCamera_def spares_def sup_frame)
  have "spares i s (snd (delete_now f j (cancelRetry j s)))"
    using spares_trans [OF spares_cancel [OF j spares_refl] n] .
  then show "spares i s (snd (DeleteCamera b f j s))"
    using j by (auto simp: DeleteCamera_def Let_def intro!: spares_intros l split: sum.split option.split)
qed

lemma stuck_do:
  assumes st: "stuck i s" and n: "\<not> asks i op"
  shows "stuck i (sup_do uni netns op s)"
proof -
  have other: "j \<noteq> i" if "tget (sp_sessions s) j = Some ss" for j ss using st that by (auto simp: stuck_def)
  show ?thesis
  proof (cases op)
    case (OpStart admit b df sf now j)
    with n show ?thesis by (auto intro!: stuck_spares [OF st] spares_load_ops spares_refl)
  next
    case (OpStop b df sf now who j)
    with n show ?thesis by (auto intro!: stuck_spares [OF st] spares_load_ops spares_refl)
  next
    case (OpStopEnd d j)
    then show ?thesis by (auto simp: StopCamera_end_def intro!: stuck_spares [OF st] spares_intros split: option.split lock_holder.split)
  next
    case (OpDelete b f j)
    with n show ?thesis by (auto intro!: stuck_spares [OF st] spares_load_ops spares_refl)
  next
    case (OpDeleteEnd f j)
    with n show ?thesis
      by (auto simp: DeleteCamera_end_def intro!: stuck_spares [OF st] spares_load_ops spares_refl split: option.split lock_holder.split)
  next
    case (OpFire m)
    show ?thesis
    proof (cases "map_of (sp_armed s) m")
      case (Some p)
      then have "(m, p) \<in> set (sp_armed s)" by (rule map_of_SomeD)
      with st have "fst p \<noteq> i" by (cases p) (auto simp: stuck_def)
      then have "spares i s (fire m s)" using Some by (cases p) (auto simp: fire_def spares_def)
      with st show ?thesis by (simp add: OpFire stuck_spares)
    qed (simp add: OpFire fire_def st)
  next
    case (OpRetry admit b f now j)
    show ?thesis
    proof (cases "held j s \<or> j \<notin> set (sp_due s)")
      case False
      then have j: "j \<noteq> i" using st by (auto simp: stuck_def)
      have d: "spares i s (s\<lparr>sp_due := remove1 j (sp_due s)\<rparr>)"
        by (simp add: spares_def) (metis notin_set_remove1)
      from j False have "spares i s (sup_do uni netns op s)"
        by (auto simp: OpRetry retryStart_def intro!: spares_intros d split: sum.split option.split)
      with st show ?thesis by (rule stuck_spares)
    qed (simp add: OpRetry st)
  next
    case (OpRun now f ev j)
    then show ?thesis
      by (auto intro!: stuck_spares [OF st] spares_run other split: option.split simp: st)
  next
    case (OpRelease m j)
    have "spares i s (run_release m j s)" by (simp add: spares_def run_release_def releaseNetns_def)
    with st show ?thesis by (simp add: OpRelease stuck_spares)
  next
    case (OpMessage now m j)
    show ?thesis
    proof (cases "tget (sp_sessions s) j")
      case (Some ss)
      have samples: "spares i s t \<Longrightarrow> spares i s (t\<lparr>sp_samples := x\<rparr>)" for t x by (simp add: spares_def)
      have "spares i s (handle now m j ss s)" using other [OF Some]
        by (auto simp: handle_def Let_def intro!: spares_intros samples split: cam_message.split option.split)
      with st Some show ?thesis by (simp add: OpMessage stuck_spares)
    qed (simp add: OpMessage st)
  next
    case OpNext
    have p: "spares i s (s\<lparr>sp_pass := x\<rparr>)" for x by (simp add: spares_def)
    have "spares i s (reconcile_cam j d (s\<lparr>sp_pass := x\<rparr>))" for j d x
    proof (cases "j = i")
      case True
      with st show ?thesis
        by (auto simp: reconcile_cam_def spares_def stuck_def retryPending_def split: desired_state.split)
    next
      case False
      then show ?thesis
        by (auto simp: reconcile_cam_def spares_def sup_frame split: desired_state.split option.split)
    qed
    with st p show ?thesis
      by (auto simp: OpNext reconcile_next_def intro: stuck_spares split: list.split)
  next
    case OpShutdown
    let ?t = "fold (\<lambda>(_, r). disarm (rs_timer r)) (sp_retries s) (s\<lparr>sp_closing := True\<rparr>)"
    have f: "set (sp_armed (fold (\<lambda>(_, r). disarm (rs_timer r)) rs u)) \<subseteq> set (sp_armed u) \<and>
        sp_due (fold (\<lambda>(_, r). disarm (rs_timer r)) rs u) = sp_due u \<and>
        sp_retries (fold (\<lambda>(_, r). disarm (rs_timer r)) rs u) = sp_retries u" for rs :: "(string, retryState) table" and u
    proof (induction rs arbitrary: u)
      case (Cons p rs)
      show ?case using Cons [of "disarm (rs_timer (snd p)) u"] armed_disarm [of "rs_timer (snd p)" u]
        by (auto simp: case_prod_beta sup_frame)
    qed simp
    have "spares i s (shutdown_service s)"
      using f [of "sp_retries s" "s\<lparr>sp_closing := True\<rparr>"] shutdown_sessions [of "sp_retries s" "s\<lparr>sp_closing := True\<rparr>"] st
      by (auto simp: shutdown_service_def Let_def spares_def tget_map_value stuck_def)
    with st show ?thesis by (simp add: OpShutdown stuck_spares)
  qed (use n in \<open>auto simp: reconcile_begin_def reconcile_live_def orphan_check_def orphan_kill_def Let_def spares_def sup_frame
      intro!: stuck_spares [OF st] split: list.split\<close>)
qed

text \<open>C23. A restart that admission refuses is the last automatic one, however many attempts are left: the
  camera, which should run, gets no session again whatever else happens, until somebody starts,
  stops or deletes it.\<close>

theorem refused_retry_is_last:
  assumes "tget (sp_cams s) i = Some c" "cr_Desired c = DesiredRunning" "tget (sp_sessions s) i = None"
    and "retryPending i s" "\<forall>(n, j, w)\<in>set (sp_armed s). j \<noteq> i"
    and "i \<in> set (sp_due s)" "i \<notin> set (remove1 i (sp_due s))" "\<not> held i s"
    and t: "t = sup_do uni netns (OpRetry (Some why) False f later i) s"
    and ops: "\<forall>op\<in>set ops. \<not> asks i op"
  shows "tget (sp_sessions (sup_run uni netns ops t)) i = None \<and> tget (sp_cams t) i = Some c"
proof -
  have e: "t = publishStatus i StateError why (saveStatus f i StateError why zero_time later (s\<lparr>sp_due := remove1 i (sp_due s)\<rparr>))"
    using assms by (simp add: retryStart_def load_cam_def)
  then have "stuck i t" using assms by (simp add: stuck_def sup_frame retryPending_def)
  then have "stuck i (sup_run uni netns ops t)" using ops unfolding sup_run_def
    by (induction ops arbitrary: t) (auto intro: stuck_do)
  then show ?thesis using e assms(1) by (simp add: stuck_def sup_frame)
qed

theorem refused_retry_is_last_witness:
  "tget (sp_sessions (sup_run id True [OpReconcile, OpNext, OpLive]
      (sup_do id True (OpRetry (Some ''memory'') False False 9 ''A'') (fire 0 (afterFailure False ''A'' failing_cam))))) ''A'' = None"
proof -
  let ?s = "fire 0 (afterFailure False ''A'' failing_cam)"
  have "tget (sp_cams ?s) ''A'' = Some \<lparr>cr_Name = ''door'', cr_Desired = DesiredRunning, cr_Autostart = True\<rparr>"
    "tget (sp_sessions ?s) ''A'' = None" "retryPending ''A'' ?s" "\<forall>(n, j, w)\<in>set (sp_armed ?s). j \<noteq> ''A''"
    "''A'' \<in> set (sp_due ?s)" "''A'' \<notin> set (remove1 ''A'' (sp_due ?s))" "\<not> held ''A'' ?s"
    by (simp_all add: fire_def afterFailure_def failing_cam_def new_service_def Let_def MaxAutoRetries_def retryPending_def held_def)
  from refused_retry_is_last [OF this(1) _ this(2-7) refl] show ?thesis by simp
qed

end
