(* ===== verification/Supervisor_Names.thy ===== *)
theory Supervisor_Names
  imports Supervisor_Claims
begin

text \<open>
  The names of network namespaces: which names \<^verbatim>\<open>netnsName\<close> hands out while cameras start, stop and
  are deleted. No two cameras share one as long as no camera is launched again before its last session has
  released its name; the code does not wait for that, and \<open>late_release_shares_name\<close> is the run where
  two cameras get the same name.
\<close>

definition whole_id :: "(rune \<Rightarrow> rune) \<Rightarrow> string \<Rightarrow> bool" where
  "whole_id uni n \<longleftrightarrow> (\<exists>k. n = ''sim-'' @ to_lower uni k)"

definition names_ok :: "(rune \<Rightarrow> rune) \<Rightarrow> sup \<Rightarrow> bool" where
  "names_ok uni s = (table_ok (sp_netns s) \<and>
     (\<forall>i ss. tget (sp_sessions s) i = Some ss \<longrightarrow>
        (ss_phase ss \<in> {Preparing, Launching} \<longrightarrow> ss_netns ss = []) \<and>
        (ss_netns ss \<noteq> [] \<longrightarrow> i \<notin> snd ` set (sp_releasing s) \<and>
          (tget (sp_netns s) (ss_netns ss) = Some i \<or> whole_id uni (ss_netns ss)))))"

lemma drop_owner_ok: "table_ok t \<Longrightarrow> table_ok (drop_owner i t)"
  unfolding drop_owner_def by (rule table_ok_filter)

lemma tget_drop_owner:
  "table_ok t \<Longrightarrow> tget (drop_owner i t) n = (if tget t n = Some i then None else tget t n)"
  by (auto simp: drop_owner_def tget_filter split: option.split)

lemma netnsName_free:
  assumes "netnsName uni i name s = (n, t)" "table_ok (sp_netns s)"
  shows "tget (drop_owner i (sp_netns s)) n = None \<or> whole_id uni n"
proof -
  let ?t = "drop_owner i (sp_netns s)"
  let ?free = "\<lambda>n. case tget ?t n of None \<Rightarrow> True | Some owner \<Rightarrow> owner = i"
  have f: "?free m \<Longrightarrow> tget ?t m = None" for m
    using assms(2) by (auto simp: tget_drop_owner split: option.splits if_splits)
  obtain names where n: "n = (case List.find ?free names of Some n \<Rightarrow> n | None \<Rightarrow> ''sim-'' @ to_lower uni i)"
    using assms(1) unfolding netnsName_def Let_def prod.inject by (elim conjE) (rule that, erule sym)
  show ?thesis
  proof (cases "List.find ?free names")
    case None
    then show ?thesis using n by (auto simp: whole_id_def)
  next
    case (Some m)
    then have "?free m" by (metis (mono_tags, lifting) find_Some_iff)
    with Some n f show ?thesis by simp
  qed
qed

lemma names_ok_reserve:
  assumes "names_ok uni s" "netnsName uni i name s = (n, t)" "tget (sp_sessions s) i = Some ss" "ss_netns ss = []"
  shows "names_ok uni t \<and> tget (sp_netns t) n = Some i"
proof -
  have t: "sp_sessions t = sp_sessions s" "sp_netns t = tput n i (drop_owner i (sp_netns s))"
    and rel: "sp_releasing t = sp_releasing s"
    using netnsName_frame [OF assms(2)] by simp_all
  have ok: "table_ok (sp_netns s)" using assms(1) by (simp add: names_ok_def)
  have "tget (sp_netns t) m = Some j \<or> whole_id uni m"
    if "tget (sp_netns s) m = Some j \<or> whole_id uni m" "j \<noteq> i" for m j
    using that netnsName_free [OF assms(2) ok] ok by (auto simp: t tget_drop_owner)
  note keep = this
  have "(ss_phase sa \<in> {Preparing, Launching} \<longrightarrow> ss_netns sa = []) \<and>
      (ss_netns sa \<noteq> [] \<longrightarrow> a \<notin> snd ` set (sp_releasing t) \<and> (tget (sp_netns t) (ss_netns sa) = Some a \<or> whole_id uni (ss_netns sa)))"
    if a: "tget (sp_sessions s) a = Some sa" for a sa
  proof (cases "a = i")
    case True
    then show ?thesis using a assms(3,4) by simp
  next
    case False
    then show ?thesis using a keep [OF _ False] assms(1) unfolding names_ok_def rel by blast
  qed
  then show ?thesis unfolding names_ok_def t(1) by (simp add: t(2) drop_owner_ok ok)
qed

text \<open>What most events do to the names: nothing.\<close>

definition same_names :: "string \<Rightarrow> session \<Rightarrow> sup \<Rightarrow> sup \<Rightarrow> bool" where
  "same_names i ss s t = (sp_netns t = sp_netns s \<and> sp_releasing t = sp_releasing s \<and> (\<forall>j. j \<noteq> i \<longrightarrow> tget (sp_sessions t) j = tget (sp_sessions s) j) \<and>
     (\<forall>ss'. tget (sp_sessions t) i = Some ss' \<longrightarrow> ss_netns ss' = ss_netns ss \<and>
        (ss_phase ss' \<in> {Preparing, Launching} \<longrightarrow> ss_phase ss \<in> {Preparing, Launching})))"

lemma names_ok_same:
  assumes "names_ok uni s" "tget (sp_sessions s) i = Some ss" "same_names i ss s t"
  shows "names_ok uni t"
proof -
  have "(ss_phase sj \<in> {Preparing, Launching} \<longrightarrow> ss_netns sj = []) \<and>
      (ss_netns sj \<noteq> [] \<longrightarrow> j \<notin> snd ` set (sp_releasing t) \<and> (tget (sp_netns t) (ss_netns sj) = Some j \<or> whole_id uni (ss_netns sj)))"
    if "tget (sp_sessions t) j = Some sj" for j sj
    using assms that by (cases "j = i") (auto simp: names_ok_def same_names_def)
  then show ?thesis using assms by (simp add: names_ok_def same_names_def)
qed

lemma same_names_fail:
  "sp_netns s' = sp_netns s \<Longrightarrow> sp_releasing s' = sp_releasing s \<Longrightarrow> sp_sessions s' = sp_sessions s \<Longrightarrow> ss_netns ss' = ss_netns ss \<Longrightarrow>
   same_names i ss s (fail_session now f i r ss' s')"
  by (auto simp: fail_session_def same_names_def sup_frame dest!: setState_frame split: prod.split)

lemma same_names_run:
  assumes "tget (sp_sessions s) i = Some ss" "ss_phase ss \<noteq> Launching" "\<not> (ss_phase ss = Done_phase \<and> ev = EvEnd)"
  shows "same_names i ss s (run_event uni netns now f ev i ss s)"
proof -
  have refl: "same_names i ss s s" using assms(1) by (simp add: same_names_def)
  show ?thesis using assms refl
    by (cases "ss_phase ss"; cases ev)
      (auto simp: run_event_def on_streams_def on_conn_done_def exitReason_def on_stop_def
         intro!: same_names_fail split: option.split;
       auto simp: same_names_def finishStopped_def stop_begin_def stop_end_def sup_frame dest!: setState_frame split: prod.split)+
qed

lemma names_ok_frame:
  "names_ok uni s \<Longrightarrow> sp_netns t = sp_netns s \<Longrightarrow> sp_sessions t = sp_sessions s \<Longrightarrow> sp_releasing t = sp_releasing s \<Longrightarrow> names_ok uni t"
  by (simp add: names_ok_def)

lemma names_ok_release:
  "names_ok uni s \<Longrightarrow> (\<And>ss. tget (sp_sessions t) i = Some ss \<Longrightarrow> ss_netns ss = []) \<Longrightarrow>
   (\<forall>j. j \<noteq> i \<longrightarrow> tget (sp_sessions t) j = tget (sp_sessions s) j) \<Longrightarrow>
   sp_netns t \<in> {sp_netns s, drop_owner i (sp_netns s)} \<Longrightarrow> snd ` set (sp_releasing t) \<subseteq> insert i (snd ` set (sp_releasing s)) \<Longrightarrow> names_ok uni t"
proof -
  assume a: "names_ok uni s" "\<And>ss. tget (sp_sessions t) i = Some ss \<Longrightarrow> ss_netns ss = []"
    "\<forall>j. j \<noteq> i \<longrightarrow> tget (sp_sessions t) j = tget (sp_sessions s) j"
    "sp_netns t \<in> {sp_netns s, drop_owner i (sp_netns s)}" "snd ` set (sp_releasing t) \<subseteq> insert i (snd ` set (sp_releasing s))"
  then have ok: "table_ok (sp_netns s)" by (simp add: names_ok_def)
  have "(ss_phase sj \<in> {Preparing, Launching} \<longrightarrow> ss_netns sj = []) \<and>
      (ss_netns sj \<noteq> [] \<longrightarrow> j \<notin> snd ` set (sp_releasing t) \<and> (tget (sp_netns t) (ss_netns sj) = Some j \<or> whole_id uni (ss_netns sj)))"
    if g: "tget (sp_sessions t) j = Some sj" for j sj
  proof (cases "j = i")
    case True
    with a(2) g show ?thesis by simp
  next
    case False
    with a(3) g have g: "tget (sp_sessions s) j = Some sj" by simp
    have "tget (sp_netns t) n = Some j" if "tget (sp_netns s) n = Some j" for n
      using that False a(4) ok by (auto simp: tget_drop_owner)
    moreover have "j \<notin> snd ` set (sp_releasing t)" if "j \<notin> snd ` set (sp_releasing s)" using that False a(5) by blast
    ultimately show ?thesis using a(1) g unfolding names_ok_def by blast
  qed
  moreover have "table_ok (sp_netns t)" using a(4) ok drop_owner_ok by auto
  ultimately show ?thesis unfolding names_ok_def by blast
qed

lemma names_ok_launch:
  assumes "names_ok uni s" "tget (sp_sessions s) i = Some ss" "ss_phase ss = Launching" "i \<notin> snd ` set (sp_releasing s)"
  shows "names_ok uni (on_launch uni netns now f res i ss s)"
proof -
  have e: "ss_netns ss = []" using assms by (simp add: names_ok_def)
  obtain n t where r: "(if netns then netnsName uni i (ss_name ss) s else ([], s)) = (n, t)" by fastforce
  have t: "names_ok uni t" "n \<noteq> [] \<longrightarrow> tget (sp_netns t) n = Some i" "sp_sessions t = sp_sessions s"
    "sp_releasing t = sp_releasing s"
    using r names_ok_reserve [OF assms(1) _ assms(2) e] netnsName_frame assms(1) by (auto split: if_splits)
  have fl: "names_ok uni (fail_session now f i x ss u)" if "names_ok uni u" "sp_sessions u = sp_sessions s" for x u
    using names_ok_same [OF that(1), of i ss] same_names_fail [of u u ss ss i now f x] assms(2) that by simp
  show ?thesis
  proof (cases res)
    case (Launched pid ip)
    let ?ss = "(enter_state now StateStarting [] (ss\<lparr>ss_pid := pid, ss_netns := n, ss_ip := ip\<rparr>))\<lparr>ss_phase := AwaitHello\<rparr>"
    obtain ss' u where u: "setState now f i StateStarting [] (ss\<lparr>ss_pid := pid, ss_netns := n, ss_ip := ip\<rparr>)
        (t\<lparr>sp_live := i # removeAll i (sp_live t)\<rparr>) = (ss', u)" by fastforce
    have u': "ss' = enter_state now StateStarting [] (ss\<lparr>ss_pid := pid, ss_netns := n, ss_ip := ip\<rparr>)"
      "sp_sessions u = tput i ss' (sp_sessions t)" "sp_netns u = sp_netns t" "sp_releasing u = sp_releasing s"
      using setState_frame [OF u] t(4) by simp_all
    have "names_ok uni (put_session i (ss'\<lparr>ss_phase := AwaitHello\<rparr>) u)"
      using t assms(4) by (auto simp: names_ok_def sup_frame u'(2-4), auto simp: u'(1))
    then show ?thesis by (simp add: on_launch_def Let_def Launched r u)
  next
    case (SpecError x reserved)
    with t fl assms(1) r show ?thesis by (auto simp: on_launch_def Let_def)
  next
    case (LaunchError x)
    with t fl r show ?thesis by (auto simp: on_launch_def Let_def)
  qed
qed

lemma names_ok_run:
  assumes "names_ok uni s" "tget (sp_sessions s) i = Some ss" "\<And>res. ev = EvLaunch res \<Longrightarrow> i \<notin> snd ` set (sp_releasing s)"
  shows "names_ok uni (run_event uni netns now f ev i ss s)"
proof -
  consider "ss_phase ss = Launching" | "ss_phase ss = Done_phase" "ev = EvEnd"
    | "ss_phase ss \<noteq> Launching" "\<not> (ss_phase ss = Done_phase \<and> ev = EvEnd)" by blast
  then show ?thesis
  proof cases
    case 1
    with assms names_ok_launch [OF assms(1,2)] show ?thesis by (cases ev) (simp_all add: run_event_def)
  next
    case 2
    have "names_ok uni (run_end i ss s)"
      by (rule names_ok_release [OF assms(1), of _ i]) (simp_all add: run_end_def)
    with 2 show ?thesis by (simp add: run_event_def)
  next
    case 3
    show ?thesis by (rule names_ok_same [OF assms(1,2) same_names_run [OF assms(2) 3]])
  qed
qed

lemma names_ok_put:
  assumes "names_ok uni s" "tget (sp_sessions s) i = Some ss" "ss_netns ss' = ss_netns ss" "ss_phase ss' = ss_phase ss"
  shows "names_ok uni (put_session i ss' s)"
  using assms by (intro names_ok_same [OF assms(1,2)]) (simp add: same_names_def sup_frame)

lemma send_stop_fields [simp]: "ss_netns (send_stop r ss) = ss_netns ss" "ss_phase (send_stop r ss) = ss_phase ss"
  by (simp_all add: send_stop_def)

lemma names_ok_start: "names_ok uni s \<Longrightarrow> names_ok uni (startSession now f i n s)"
  by (auto simp: names_ok_def sup_frame new_session_def)

lemma names_ok_StartCamera: "names_ok uni s \<Longrightarrow> names_ok uni (snd (StartCamera admit b df sf now i s))"
proof -
  assume s: "names_ok uni s"
  obtain e t where d: "setDesired df i DesiredRunning s = (e, t)" by fastforce
  have "names_ok uni t" "names_ok uni (cancelRetry i t)"
    using setDesired_frame [OF d] s by (auto intro: names_ok_frame simp: sup_frame)
  with s d show ?thesis by (auto simp: StartCamera_def Let_def intro: names_ok_start split: sum.split option.split)
qed

lemma names_ok_StopCamera: "names_ok uni s \<Longrightarrow> names_ok uni (snd (StopCamera b df sf now who i s))"
proof -
  assume s: "names_ok uni s"
  obtain e t where d: "setDesired df i DesiredStopped s = (e, t)" by fastforce
  have t: "names_ok uni t" "names_ok uni (cancelRetry i t)"
    using setDesired_frame [OF d] s by (auto intro: names_ok_frame simp: sup_frame)
  have "names_ok uni (put_session i (send_stop r ss) ((cancelRetry i t)\<lparr>sp_locks := l\<rparr>))"
    if "tget (sp_sessions (cancelRetry i t)) i = Some ss" for r ss l
    using that by (intro names_ok_put [of _ _ i ss] names_ok_frame [OF t(2)]) simp_all
  moreover have "names_ok uni (publishStatus i StateStopped [] (saveStatus sf i StateStopped [] zero_time now (rt_Destroy i (cancelRetry i t))))"
    by (rule names_ok_frame [OF t(2)]) (simp_all add: sup_frame)
  ultimately show ?thesis using s d t by (auto simp: StopCamera_def Let_def split: sum.split option.split)
qed

lemma names_ok_delete_now:
  assumes s: "names_ok uni s" and none: "tget (sp_sessions s) i = None"
  shows "names_ok uni (snd (delete_now f i s))"
proof -
  have k: "names_ok uni (unlock i (rt_Destroy i s))" by (rule names_ok_frame [OF s]) (simp_all add: sup_frame)
  have g: "names_ok uni (forgetCamera i u)" if "names_ok uni u" "sp_sessions u = sp_sessions s" for u
    by (rule names_ok_release [OF that(1), of _ i]; cases "tget (sp_cams u) i")
      (use that none in \<open>simp_all add: forgetCamera_def drop_owner_def subset_insertI\<close>)
  have "names_ok uni ((unlock i (rt_Destroy i s))\<lparr>sp_cams := x, sp_status := y\<rparr>)" for x y
    by (rule names_ok_frame [OF k]) simp_all
  then show ?thesis using k g by (auto simp: delete_now_def Let_def sup_frame)
qed

lemma names_ok_DeleteCamera: "names_ok uni s \<Longrightarrow> names_ok uni (snd (DeleteCamera b f i s))"
proof -
  assume s: "names_ok uni s"
  have c: "names_ok uni (cancelRetry i s)" by (rule names_ok_frame [OF s]) (simp_all add: sup_frame)
  have "names_ok uni (put_session i (send_stop r ss) ((cancelRetry i s)\<lparr>sp_locks := l\<rparr>))"
    if "tget (sp_sessions (cancelRetry i s)) i = Some ss" for r ss l
    using that by (intro names_ok_put [of _ _ i ss] names_ok_frame [OF c]) simp_all
  with s c show ?thesis by (auto simp: DeleteCamera_def Let_def names_ok_delete_now split: sum.split option.split)
qed

lemma names_ok_run_release: "names_ok uni s \<Longrightarrow> names_ok uni (run_release n i s)"
proof (cases "(n, i) \<in> set (sp_releasing s)")
  case True
  assume s: "names_ok uni s"
  have "i \<in> snd ` set (sp_releasing s)" using True by force
  with s have "ss_netns ss = []" if "tget (sp_sessions s) i = Some ss" for ss using that unfolding names_ok_def by blast
  with True show ?thesis
    by (intro names_ok_release [OF s, of _ i]) (auto simp: run_release_def releaseNetns_def dest: notin_set_remove1 set_remove1_subset [THEN subsetD])
qed (simp add: run_release_def)

text \<open>Whose process an operation launches.\<close>

fun launches :: "sup_op \<Rightarrow> string option" where
  "launches (OpRun now f (EvLaunch res) i) = Some i"
| "launches _ = None"

lemma names_ok_do:
  "names_ok uni s \<Longrightarrow> (\<And>i. launches op = Some i \<Longrightarrow> i \<notin> snd ` set (sp_releasing s)) \<Longrightarrow> names_ok uni (sup_do uni netns op s)"
proof (cases op)
  case (OpRun now f ev i)
  assume s: "names_ok uni s" "\<And>i. launches op = Some i \<Longrightarrow> i \<notin> snd ` set (sp_releasing s)"
  then have "i \<notin> snd ` set (sp_releasing s)" if "ev = EvLaunch res" for res using OpRun that by simp
  with s(1) names_ok_run [of uni s i _ ev] show ?thesis by (auto simp: OpRun split: option.split)
next
  case (OpRelease n i)
  assume "names_ok uni s"
  then show ?thesis by (simp add: OpRelease names_ok_run_release)
next
  case (OpStopEnd d i)
  assume s: "names_ok uni s"
  have "names_ok uni (unlock i s)" by (rule names_ok_frame [OF s]) (simp_all add: sup_frame)
  with s show ?thesis by (auto simp: OpStopEnd StopCamera_end_def split: option.split lock_holder.split)
next
  case (OpDeleteEnd f i)
  assume "names_ok uni s"
  then show ?thesis
    by (auto simp: OpDeleteEnd DeleteCamera_end_def session_done_def names_ok_delete_now split: option.split lock_holder.split)
next
  case (OpRetry admit b f now i)
  assume s: "names_ok uni s"
  let ?d = "s\<lparr>sp_due := remove1 i (sp_due s)\<rparr>"
  have d: "names_ok uni ?d" by (rule names_ok_frame [OF s]) simp_all
  have "names_ok uni (publishStatus i StateError why (saveStatus f i StateError why zero_time now ?d))" for why
    by (rule names_ok_frame [OF d]) (simp_all add: sup_frame)
  with s d show ?thesis
    by (auto simp: OpRetry retryStart_def names_ok_start split: sum.split option.split)
next
  case (OpMessage now m i)
  assume s: "names_ok uni s"
  show ?thesis
  proof (cases "tget (sp_sessions s) i")
    case (Some ss)
    have "names_ok uni (u\<lparr>sp_samples := x\<rparr>)" if "names_ok uni u" for u x by (rule names_ok_frame [OF that]) simp_all
    moreover have "names_ok uni (put_session i ss' s)" if "ss_netns ss' = ss_netns ss" "ss_phase ss' = ss_phase ss" for ss'
      using that by (rule names_ok_put [OF s Some])
    ultimately show ?thesis using s Some
      by (cases m) (auto simp: OpMessage handle_def Let_def allowNotice_def split: option.split prod.split)
  qed (simp add: OpMessage s)
next
  case OpNext
  assume s: "names_ok uni s"
  have p: "names_ok uni (s\<lparr>sp_pass := x\<rparr>)" for x by (rule names_ok_frame [OF s]) simp_all
  have "names_ok uni (u\<lparr>sp_due := x\<rparr>)" if "names_ok uni u" for u x by (rule names_ok_frame [OF that]) simp_all
  with p s show ?thesis
    by (auto simp: OpNext reconcile_next_def reconcile_cam_def intro: names_ok_put split: list.split desired_state.split option.split)
next
  case OpShutdown
  assume s: "names_ok uni s"
  let ?t = "fold (\<lambda>(_, r). disarm (rs_timer r)) (sp_retries s) (s\<lparr>sp_closing := True\<rparr>)"
  have "sp_netns (fold (\<lambda>(_, r). disarm (rs_timer r)) rs u) = sp_netns u \<and>
      sp_releasing (fold (\<lambda>(_, r). disarm (rs_timer r)) rs u) = sp_releasing u" for rs :: "(string, retryState) table" and u
    by (induction rs arbitrary: u) (auto simp: sup_frame)
  then have "sp_netns ?t = sp_netns s" "sp_releasing ?t = sp_releasing s" "sp_sessions ?t = sp_sessions s"
    using shutdown_sessions [of "sp_retries s" "s\<lparr>sp_closing := True\<rparr>"] by simp_all
  moreover have "names_ok uni u" if "sp_netns u = sp_netns s" "sp_releasing u = sp_releasing s"
    "\<forall>j sj. tget (sp_sessions u) j = Some sj \<longrightarrow> (\<exists>ss. tget (sp_sessions s) j = Some ss \<and> ss_netns sj = ss_netns ss \<and> ss_phase sj = ss_phase ss)" for u
    using s that unfolding names_ok_def by metis
  note keep = this
  show ?thesis unfolding OpShutdown sup_do.simps shutdown_service_def Let_def
    by (rule keep) (use calculation in \<open>auto simp: tget_map_value\<close>)
qed (auto simp: names_ok_StartCamera names_ok_StopCamera names_ok_DeleteCamera fire_def reconcile_begin_def reconcile_live_def orphan_check_def orphan_kill_def
    Let_def sup_frame elim!: names_ok_frame split: option.split list.split)

text \<open>The steps where no process of a camera is launched while the release of a name of its last session is still to come.\<close>

definition prompt_step :: "(rune \<Rightarrow> rune) \<Rightarrow> bool \<Rightarrow> sup \<Rightarrow> sup \<Rightarrow> bool" where
  "prompt_step uni netns s t \<longleftrightarrow>
    (\<exists>op. t = sup_do uni netns op s \<and> (\<forall>i. launches op = Some i \<longrightarrow> i \<notin> snd ` set (sp_releasing s)))"

interpretation nm: machine "booted now cams" "prompt_step uni netns" "names_ok uni" for now cams uni netns
proof
  show "names_ok uni (booted now cams)" by (simp add: names_ok_def)
  show "names_ok uni s \<Longrightarrow> prompt_step uni netns s t \<Longrightarrow> names_ok uni t" for s t
    by (auto simp: prompt_step_def intro: names_ok_do)
qed

text \<open>C22. Two cameras never run in a namespace of the same name, whatever their names and whatever order
  they were started, stopped or deleted in, as long as no camera is launched again before its last session has
  released its name; the only exception is the name of last resort, \<^verbatim>\<open>sim-\<close> followed by the whole identifier of a camera.\<close>

theorem netns_not_shared:
  assumes "reach (prompt_step uni netns) (booted now cams) s"
    and "tget (sp_sessions s) i = Some a" "tget (sp_sessions s) j = Some b" "i \<noteq> j" "ss_netns a \<noteq> []"
  shows "ss_netns a \<noteq> ss_netns b \<or> (\<exists>k. ss_netns a = ''sim-'' @ to_lower uni k)"
proof (rule ccontr)
  assume n: "\<not> ?thesis"
  have "names_ok uni s" by (rule nm.inv_reachable [OF assms(1)])
  then have "tget (sp_netns s) (ss_netns a) = Some i \<or> whole_id uni (ss_netns a)"
    "tget (sp_netns s) (ss_netns b) = Some j \<or> whole_id uni (ss_netns b)"
    using assms n unfolding names_ok_def by metis+
  with assms(4) n show False by (auto simp: whole_id_def)
qed

definition two_cams :: "(string, cam_row) table" where
  "two_cams = [(''AAAA1111'', \<lparr>cr_Name = '''', cr_Desired = DesiredStopped, cr_Autostart = False\<rparr>),
               (''BBBB2222'', \<lparr>cr_Name = '''', cr_Desired = DesiredStopped, cr_Autostart = False\<rparr>)]"

definition start_both :: "sup_op list" where
  "start_both = [OpStart None False False False 5 ''AAAA1111'', OpStart None False False False 5 ''BBBB2222'',
     OpRun 6 False (EvStreams None False) ''AAAA1111'', OpRun 6 False (EvStreams None False) ''BBBB2222'',
     OpRun 7 False (EvLaunch (Launched 10 [])) ''AAAA1111'', OpRun 7 False (EvLaunch (Launched 11 [])) ''BBBB2222'']"

lemma nameless_base: "netns_base uni '''' = ''sim-cam''"
  by (simp add: netns_base_def slug_def to_lower_def trim_eval)

lemma two_ids_lower: "to_lower uni ''AAAA1111'' = ''aaaa1111''" "to_lower uni ''BBBB2222'' = ''bbbb2222''"
  by (simp_all add: ascii_eval ascii_def)

fun prompt_run :: "(rune \<Rightarrow> rune) \<Rightarrow> bool \<Rightarrow> sup_op list \<Rightarrow> sup \<Rightarrow> bool" where
  "prompt_run uni netns [] s \<longleftrightarrow> True"
| "prompt_run uni netns (op # ops) s \<longleftrightarrow>
    (\<forall>i. launches op = Some i \<longrightarrow> i \<notin> snd ` set (sp_releasing s)) \<and> prompt_run uni netns ops (sup_do uni netns op s)"

lemma prompt_run_reach:
  "reach (prompt_step uni netns) s0 s \<Longrightarrow> prompt_run uni netns ops s \<Longrightarrow> reach (prompt_step uni netns) s0 (sup_run uni netns ops s)"
proof (induction ops arbitrary: s)
  case (Cons op ops)
  then have "prompt_step uni netns s (sup_do uni netns op s)" by (auto simp: prompt_step_def)
  with Cons have "reach (prompt_step uni netns) s0 (sup_do uni netns op s)" by (blast intro: reach_step)
  with Cons show ?case by (simp add: sup_run_def)
qed (simp add: sup_run_def)

lemma both_started:
  shows "map_option ss_netns (tget (sp_sessions (sup_run uni True start_both (booted 0 two_cams))) ''AAAA1111'') = Some ''sim-cam''"
    and "map_option ss_netns (tget (sp_sessions (sup_run uni True start_both (booted 0 two_cams))) ''BBBB2222'') = Some ''sim-cam-2222''"
    and "prompt_run uni True start_both (booted 0 two_cams)"
  unfolding start_both_def sup_run_def two_cams_def booted_def
  by (simp_all add: bootCameras_def new_service_def boot_cam_def StartCamera_def Let_def load_cam_def cancelRetry_def
      setDesired_def saveStatus_def startSession_def new_session_def held_def setState_def put_session_def
      publishStatus_def run_event_def on_streams_def on_launch_def enter_state_def netnsName_def nameless_base two_ids_lower
      drop_owner_def last_chars_def)

theorem netns_not_shared_witness:
  "\<exists>a b. tget (sp_sessions (sup_run id True start_both (booted 0 two_cams))) ''AAAA1111'' = Some a \<and>
     tget (sp_sessions (sup_run id True start_both (booted 0 two_cams))) ''BBBB2222'' = Some b \<and> ss_netns a = ''sim-cam'' \<and>
     (ss_netns a \<noteq> ss_netns b \<or> (\<exists>k. ss_netns a = ''sim-'' @ to_lower id k))"
proof -
  obtain a where a: "tget (sp_sessions (sup_run id True start_both (booted 0 two_cams))) ''AAAA1111'' = Some a" "ss_netns a = ''sim-cam''"
    using both_started(1) by fastforce
  obtain b where b: "tget (sp_sessions (sup_run id True start_both (booted 0 two_cams))) ''BBBB2222'' = Some b"
    using both_started(2) by fastforce
  have "ss_netns a \<noteq> ss_netns b \<or> (\<exists>k. ss_netns a = ''sim-'' @ to_lower id k)"
    by (rule netns_not_shared [OF prompt_run_reach [OF reach_refl both_started(3)] a(1) b]) (simp_all add: a(2))
  with a b show ?thesis by blast
qed

text \<open>
  A camera that fails and is started again before its last session has released its name gets that name, loses
  the reservation to the late release, and the name goes to the next camera as well.
\<close>

text \<open>A start and the way of the new session to its process, from any state where the camera has no session.\<close>

lemma start_session:
  assumes "tget (sp_locks s) i = None" "tget (sp_cams s) i = Some c" "tget (sp_sessions s) i = None"
  obtains ss t where "sup_do uni netns (OpStart None False False False now i) s = t"
    "sp_sessions t = tput i ss (sp_sessions s)" "ss_phase ss = Preparing" "ss_serial ss = sp_serials s" "ss_name ss = cr_Name c"
    "ss_stopCh ss = None" "ss_netns ss = []" "sp_netns t = sp_netns s" "sp_releasing t = sp_releasing s" "sp_locks t = sp_locks s"
    "sp_cams t = tput i (c\<lparr>cr_Desired := DesiredRunning\<rparr>) (sp_cams s)"
  by (rule that [OF refl, of "enter_state now StateProvisioning [] (new_session (sp_serials s) now (cr_Name c))"])
    (use assms in \<open>simp_all add: held_def StartCamera_def Let_def load_cam_def setDesired_def startSession_def setState_def sup_frame
       new_session_def enter_state_def cancelRetry_def disarm_def split: option.split\<close>)

lemma launch_session:
  assumes "tget (sp_locks s) i = None" "tget (sp_cams s) i = Some c" "tget (sp_sessions s) i = None"
  obtains ss t where
    "sup_run uni True [OpStart None False False False 5 i, OpRun 6 False (EvStreams None False) i,
       OpRun 7 False (EvLaunch (Launched 10 [])) i] s = t"
    "tget (sp_sessions t) i = Some ss" "\<forall>j. j \<noteq> i \<longrightarrow> tget (sp_sessions t) j = tget (sp_sessions s) j"
    "ss_netns ss = fst (netnsName uni i (cr_Name c) s)" "sp_netns t = sp_netns (snd (netnsName uni i (cr_Name c) s))"
    "sp_releasing t = sp_releasing s" "sp_locks t = sp_locks s" "\<forall>j. j \<noteq> i \<longrightarrow> tget (sp_cams t) j = tget (sp_cams s) j"
proof -
  obtain ss u where u: "sup_do uni True (OpStart None False False False 5 i) s = u"
    "sp_sessions u = tput i ss (sp_sessions s)" "ss_phase ss = Preparing" "ss_name ss = cr_Name c" "ss_stopCh ss = None"
    "sp_netns u = sp_netns s" "sp_releasing u = sp_releasing s" "sp_locks u = sp_locks s"
    "sp_cams u = tput i (c\<lparr>cr_Desired := DesiredRunning\<rparr>) (sp_cams s)"
    by (rule start_session [OF assms]) blast
  have n: "fst (netnsName uni i (cr_Name c) (put_session i x u)) = fst (netnsName uni i (cr_Name c) s)"
    "sp_netns (snd (netnsName uni i (cr_Name c) (put_session i x u))) = sp_netns (snd (netnsName uni i (cr_Name c) s))"
    "sp_releasing (snd (netnsName uni i (cr_Name c) (put_session i x u))) = sp_releasing s"
    "sp_locks (snd (netnsName uni i (cr_Name c) (put_session i x u))) = sp_locks s"
    "sp_cams (snd (netnsName uni i (cr_Name c) (put_session i x u))) = sp_cams u"
    "sp_sessions (snd (netnsName uni i (cr_Name c) (put_session i x u))) = tput i x (sp_sessions u)" for x
    by (simp_all add: netnsName_def Let_def put_session_def u)
  show ?thesis
    by (rule that [OF refl])
      (simp_all add: sup_run_def u run_event_def on_streams_def on_launch_def setState_def Let_def sup_frame n case_prod_unfold enter_state_def
        del: sup_do.simps(1), simp)
qed

lemma fail_early:
  assumes "tget (sp_locks s) i = None" "tget (sp_cams s) i = Some c" "tget (sp_sessions s) i = None"
  obtains t where
    "sup_run uni True [OpStart None False False False 5 i, OpRun 6 False (EvStreams (Some why) False) i,
       OpRun 6 False (EvAfter False) i, OpRun 6 False EvEnd i] s = t"
    "tget (sp_sessions t) i = None" "\<forall>j. j \<noteq> i \<longrightarrow> tget (sp_sessions t) j = tget (sp_sessions s) j"
    "sp_netns t = sp_netns s" "sp_releasing t = sp_releasing s @ [(sp_serials s, i)]" "sp_locks t = sp_locks s"
    "tget (sp_cams t) i = Some (c\<lparr>cr_Desired := DesiredRunning\<rparr>)" "\<forall>j. j \<noteq> i \<longrightarrow> tget (sp_cams t) j = tget (sp_cams s) j"
proof -
  obtain ss u where u: "sup_do uni True (OpStart None False False False 5 i) s = u"
    "sp_sessions u = tput i ss (sp_sessions s)" "ss_phase ss = Preparing" "ss_serial ss = sp_serials s" "ss_stopCh ss = None"
    "sp_netns u = sp_netns s" "sp_releasing u = sp_releasing s" "sp_locks u = sp_locks s"
    "sp_cams u = tput i (c\<lparr>cr_Desired := DesiredRunning\<rparr>) (sp_cams s)"
    by (rule start_session [OF assms]) blast
  show ?thesis
    by (rule that [OF refl])
      (simp_all add: sup_run_def u run_event_def on_streams_def fail_session_def setState_def Let_def sup_frame
        run_end_def enter_state_def del: sup_do.simps(1))
qed

text \<open>
  A camera that fails and is started again before its last session has released its name gets that name, loses
  the reservation to the late release, and the name goes to the next camera as well.
\<close>

definition late_release :: "sup_op list" where
  "late_release =
    [OpStart None False False False 5 ''AAAA1111'', OpRun 6 False (EvStreams (Some ''no stream'') False) ''AAAA1111'',
     OpRun 6 False (EvAfter False) ''AAAA1111'', OpRun 6 False EvEnd ''AAAA1111''] @
    [OpStart None False False False 5 ''AAAA1111'', OpRun 6 False (EvStreams None False) ''AAAA1111'',
     OpRun 7 False (EvLaunch (Launched 10 [])) ''AAAA1111''] @
    [OpRelease 0 ''AAAA1111''] @
    [OpStart None False False False 5 ''BBBB2222'', OpRun 6 False (EvStreams None False) ''BBBB2222'',
     OpRun 7 False (EvLaunch (Launched 10 [])) ''BBBB2222'']"

lemma sup_run_append: "sup_run uni netns (xs @ ys) s = sup_run uni netns ys (sup_run uni netns xs s)"
  by (simp add: sup_run_def)

theorem late_release_shares_name:
  "\<exists>a b. tget (sp_sessions (sup_run uni True late_release (booted 0 two_cams))) ''AAAA1111'' = Some a \<and>
     tget (sp_sessions (sup_run uni True late_release (booted 0 two_cams))) ''BBBB2222'' = Some b \<and>
     ss_netns a = ''sim-cam'' \<and> ss_netns b = ''sim-cam''"
proof -
  let ?s = "booted 0 two_cams" and ?c = "\<lparr>cr_Name = [], cr_Desired = DesiredStopped, cr_Autostart = False\<rparr>"
  have s: "sp_locks ?s = []" "sp_cams ?s = two_cams" "sp_sessions ?s = []" "sp_netns ?s = []" "sp_releasing ?s = []" "sp_serials ?s = 0"
    by (simp_all add: booted_def bootCameras_def new_service_def boot_cam_def setDesired_def saveStatus_def two_cams_def)
  have c: "tget two_cams ''AAAA1111'' = Some ?c" "tget two_cams ''BBBB2222'' = Some ?c" by (simp_all add: two_cams_def)
  have name: "fst (netnsName uni i [] t) = ''sim-cam'' \<and> sp_netns (snd (netnsName uni i [] t)) = [(''sim-cam'', i)]"
    if "sp_netns t = []" for i t using that by (simp add: netnsName_def nameless_base drop_owner_def Let_def)
  obtain t where t: "sup_run uni True (take 4 late_release) ?s = t" "tget (sp_sessions t) ''AAAA1111'' = None"
    "tget (sp_sessions t) ''BBBB2222'' = None" "sp_netns t = []" "sp_releasing t = [(0, ''AAAA1111'')]" "sp_locks t = []"
    "tget (sp_cams t) ''AAAA1111'' = Some (?c\<lparr>cr_Desired := DesiredRunning\<rparr>)" "tget (sp_cams t) ''BBBB2222'' = Some ?c"
    by (rule fail_early [of ?s "''AAAA1111''" ?c uni "''no stream''"]) (simp_all add: s c late_release_def)
  obtain a u where u: "sup_run uni True (take 3 (drop 4 late_release)) t = u" "tget (sp_sessions u) ''AAAA1111'' = Some a"
    "tget (sp_sessions u) ''BBBB2222'' = None" "ss_netns a = ''sim-cam''" "sp_netns u = [(''sim-cam'', ''AAAA1111'')]"
    "sp_releasing u = [(0, ''AAAA1111'')]" "sp_locks u = []" "tget (sp_cams u) ''BBBB2222'' = Some ?c"
    by (rule launch_session [of t "''AAAA1111''" "?c\<lparr>cr_Desired := DesiredRunning\<rparr>" uni])
      (simp_all add: t name late_release_def)
  let ?v = "sup_do uni True (OpRelease 0 ''AAAA1111'') u"
  have v: "sp_sessions ?v = sp_sessions u" "sp_netns ?v = []" "sp_locks ?v = []" "sp_cams ?v = sp_cams u"
    by (simp_all add: run_release_def releaseNetns_def drop_owner_def u)
  obtain b w where w: "sup_run uni True (drop 8 late_release) ?v = w" "tget (sp_sessions w) ''AAAA1111'' = Some a"
    "tget (sp_sessions w) ''BBBB2222'' = Some b" "ss_netns b = ''sim-cam''"
    by (rule launch_session [of ?v "''BBBB2222''" ?c uni]) (simp_all add: v u name late_release_def del: sup_do.simps)
  have "late_release = take 4 late_release @ take 3 (drop 4 late_release) @ [OpRelease 0 ''AAAA1111''] @ drop 8 late_release"
    by (simp add: late_release_def)
  then have "sup_run uni True late_release ?s = w"
    by (metis sup_run_append t(1) u(1) w(1) sup_run_def fold_simps)
  with w u(4) show ?thesis by (intro exI [of _ a] exI [of _ b]) simp
qed

end
