(* ===== verification/Digest_Auth.thy ===== *)
theory Digest_Auth
  imports Go_Base64 Go_Time
begin

text \<open>
  Digest and Basic authentication of the emulated HTTP interface of a camera:
  \<^verbatim>\<open>backend/internal/engines/httpapi/digest.go\<close>. HMAC-SHA256, MD5 and the lower case of non-ASCII
  letters are parameters, as is the order in which Go visits a map.
\<close>

section \<open>State\<close>

record engine_user =
  eu_Username :: string
  eu_Password :: string
  eu_Role :: string

record nonceUses =
  nu_first :: instant
  nu_used :: "string list"

type_synonym replayCache = "(string, nonceUses) table"

datatype auth_scheme = SchemeDigest | SchemeBasic | SchemeNone

record authenticator =
  au_scheme :: auth_scheme
  au_realm :: string
  au_key :: string
  au_opaque :: string
  au_seen :: replayCache

record http_request =
  rq_Authorization :: string
  rq_Method :: string
  rq_RequestURI :: string

record crypto_env =
  hmac_sum :: "string \<Rightarrow> string \<Rightarrow> string"
  md5_sum :: "string \<Rightarrow> string"
  uni_lower :: "rune \<Rightarrow> rune"
  map_visit :: "replayCache \<Rightarrow> replayCache"

definition nonceTTL :: duration where "nonceTTL = 5 * 60 * 10 ^ 9"
definition maxNonces :: nat where "maxNonces = 4096"
definition maxUsesPerNonce :: nat where "maxUsesPerNonce = 1024"

definition RoleAdmin :: string where "RoleAdmin = ''admin''"

definition anonymous :: engine_user where
  "anonymous = \<lparr>eu_Username = ''anonymous'', eu_Password = [], eu_Role = RoleAdmin\<rparr>"

definition hex_digit :: "nat \<Rightarrow> char" where
  "hex_digit n = ''0123456789abcdef'' ! (n mod 16)"

definition hex_encode :: "string \<Rightarrow> string" where
  "hex_encode s = concat (map (\<lambda>c. [hex_digit (byte c div 16), hex_digit (byte c)]) s)"

definition newAuthenticator :: "auth_scheme \<Rightarrow> string \<Rightarrow> string \<Rightarrow> string \<Rightarrow> authenticator" where
  "newAuthenticator scheme realm key op =
    \<lparr>au_scheme = scheme, au_realm = (if realm = [] then ''IPCamera'' else realm), au_key = key,
     au_opaque = hex_encode op, au_seen = []\<rparr>"

section \<open>The replay cache\<close>

text \<open>
  \<open>oldest\<close> is the last nonce, in the order of the visit, of those first used earliest; the empty name
  when all of them were first used after \<open>now\<close>. The loop of \<^verbatim>\<open>prune\<close> does not end then, which is the
  value \<open>None\<close>.
\<close>

definition oldest :: "instant \<Rightarrow> replayCache \<Rightarrow> string" where
  "oldest now t =
    fst (fold (\<lambda>(n, u) (o', at'). if nu_first u \<le> at' then (n, nu_first u) else (o', at')) t ([], now))"

partial_function (option) prune_oldest :: "(replayCache \<Rightarrow> replayCache) \<Rightarrow> instant \<Rightarrow> replayCache \<Rightarrow> replayCache option" where
  "prune_oldest visit now t =
    (if length t < maxNonces then Some t else prune_oldest visit now (tdel (oldest now (visit t)) t))"

definition drop_expired :: "instant \<Rightarrow> replayCache \<Rightarrow> replayCache" where
  "drop_expired now t = filter (\<lambda>(n, u). \<not> nonceTTL < now - nu_first u) t"

definition prune :: "(replayCache \<Rightarrow> replayCache) \<Rightarrow> instant \<Rightarrow> replayCache \<Rightarrow> replayCache option" where
  "prune visit now t = prune_oldest visit now (drop_expired now t)"

datatype use_answer = Fresh | Seen | Full

definition use_key :: "string \<Rightarrow> string \<Rightarrow> string" where
  "use_key nc cnonce = nc @ '':'' @ cnonce"

definition use_nonce ::
  "(replayCache \<Rightarrow> replayCache) \<Rightarrow> string \<Rightarrow> string \<Rightarrow> string \<Rightarrow> instant \<Rightarrow> replayCache \<Rightarrow> (use_answer \<times> replayCache) option" where
  "use_nonce visit nonce nc cnonce now t =
    (case (case tget t nonce of
             Some u \<Rightarrow> Some (u, t)
           | None \<Rightarrow>
               (case (if maxNonces \<le> length t then prune visit now t else Some t) of
                  None \<Rightarrow> None
                | Some t \<Rightarrow> (let u = \<lparr>nu_first = now, nu_used = []\<rparr> in Some (u, tput nonce u t)))) of
       None \<Rightarrow> None
     | Some (u, t) \<Rightarrow>
         (let key = use_key nc cnonce in
          if key \<in> set (nu_used u) then Some (Seen, t)
          else if maxUsesPerNonce \<le> length (nu_used u) then Some (Full, t)
          else Some (Fresh, tput nonce (u\<lparr>nu_used := key # nu_used u\<rparr>) t)))"

section \<open>Nonces\<close>

definition nonce_mac :: "crypto_env \<Rightarrow> authenticator \<Rightarrow> string \<Rightarrow> string" where
  "nonce_mac env a ts = take 16 (hmac_sum env (au_key a) ts)"

definition make_nonce :: "crypto_env \<Rightarrow> authenticator \<Rightarrow> instant \<Rightarrow> string" where
  "make_nonce env a now =
    (let ts = be_bytes 8 (nat (now mod 2 ^ 64)) in RawURL_Encode (ts @ nonce_mac env a ts))"

text \<open>Whether the nonce is ours, and whether it expired.\<close>

definition validNonce :: "crypto_env \<Rightarrow> authenticator \<Rightarrow> instant \<Rightarrow> string \<Rightarrow> bool \<times> bool" where
  "validNonce env a now n =
    (case RawURL_Decode n of
       None \<Rightarrow> (False, False)
     | Some raw \<Rightarrow>
         (if length raw \<noteq> 24 then (False, False)
          else if nonce_mac env a (take 8 raw) \<noteq> drop 8 raw then (False, False)
          else (True, nonceTTL < now - wrap64 (int (be_nat (take 8 raw))))))"

section \<open>The header\<close>

text \<open>The value of a quoted string, and what follows its closing quote.\<close>

fun scan_quoted :: "string \<Rightarrow> string \<times> string" where
  "scan_quoted [] = ([], [])"
| "scan_quoted [c] = (if c = CHR 0x22 then ([], []) else ([c], []))"
| "scan_quoted (c # d # s) =
    (if c = CHR 0x5C then (case scan_quoted s of (v, r) \<Rightarrow> (d # v, r))
     else if c = CHR 0x22 then ([], d # s)
     else (case scan_quoted (d # s) of (v, r) \<Rightarrow> (c # v, r)))"

lemma scan_quoted_length: "length (snd (scan_quoted s)) \<le> length s"
  by (induction s rule: scan_quoted.induct) (auto split: prod.splits)

definition scan_value :: "string \<Rightarrow> string \<times> string" where
  "scan_value s =
    (if has_prefix [CHR 0x22] s then scan_quoted (drop 1 s)
     else (trim_space (takeWhile (\<lambda>c. c \<noteq> CHR '','') s), dropWhile (\<lambda>c. c \<noteq> CHR '','') s))"

lemma scan_value_length: "length (snd (scan_value s)) \<le> length s"
proof -
  have "length (snd (scan_quoted (drop 1 s))) \<le> length s"
    using scan_quoted_length [of "drop 1 s"] by simp
  then show ?thesis by (simp add: scan_value_def length_dropWhile_le)
qed

definition blanks :: string where "blanks = [CHR '' '', CHR 0x09]"

lemma pair_shrinks:
  assumes "cut c (trim_left_chars cs s) = Some (k, s')"
  shows "length (snd (scan_value (trim_left_chars ds s'))) < length s"
proof -
  have "length (snd (scan_value (trim_left_chars ds s'))) \<le> length s'"
    using scan_value_length [of "trim_left_chars ds s'"] length_trim_front [of _ s']
    unfolding trim_left_chars_def by (rule order_trans)
  also have "length s' < length (trim_left_chars cs s)" using assms by (simp add: cut_Some)
  also have "\<dots> \<le> length s" unfolding trim_left_chars_def by (rule length_trim_front)
  finally show ?thesis .
qed

function parseDigest_loop :: "(rune \<Rightarrow> rune) \<Rightarrow> string \<Rightarrow> (string, string) table \<Rightarrow> (string, string) table" where
  "parseDigest_loop uni s out =
    (if s = [] then out
     else case cut (CHR ''='') (trim_left_chars [CHR '' '', CHR '','', CHR 0x09] s) of
       None \<Rightarrow> out
     | Some (k, s) \<Rightarrow>
         parseDigest_loop uni (snd (scan_value (trim_left_chars blanks s)))
           (tput (to_lower uni (trim_space k)) (fst (scan_value (trim_left_chars blanks s))) out))"
  by pat_completeness auto
termination
proof (relation "measure (\<lambda>(uni, s, out). length s)")
  fix uni :: "rune \<Rightarrow> rune" and s and out :: "(string, string) table" and x k s'
  assume "cut (CHR ''='') (trim_left_chars [CHR '' '', CHR '','', CHR 0x09] s) = Some x" "(k, s') = x"
  then have "cut (CHR ''='') (trim_left_chars [CHR '' '', CHR '','', CHR 0x09] s) = Some (k, s')" by (simp only:)
  from pair_shrinks [OF this] show "((uni, snd (scan_value (trim_left_chars blanks s')),
      tput (to_lower uni (trim_space k)) (fst (scan_value (trim_left_chars blanks s'))) out), uni, s, out)
      \<in> measure (\<lambda>(uni, s, out). length s)" by (simp only: in_measure prod.case)
qed (rule wf_measure)

declare parseDigest_loop.simps [simp del]

definition parseDigest :: "(rune \<Rightarrow> rune) \<Rightarrow> string \<Rightarrow> (string, string) table" where
  "parseDigest uni s = parseDigest_loop uni s []"

definition field :: "(string, string) table \<Rightarrow> string \<Rightarrow> string" where
  "field p k = (case tget p k of None \<Rightarrow> [] | Some v \<Rightarrow> v)"

section \<open>Checking a request\<close>

definition lookup_user :: "engine_user list \<Rightarrow> string \<Rightarrow> engine_user option" where
  "lookup_user us name = List.find (\<lambda>u. eu_Username u = name) us"

definition md5hex :: "crypto_env \<Rightarrow> string \<Rightarrow> string" where
  "md5hex env s = hex_encode (md5_sum env s)"

definition checkBasic :: "engine_user list \<Rightarrow> string \<Rightarrow> string" where
  "checkBasic us encoded =
    (case Std_Decode (trim_space encoded) of
       None \<Rightarrow> []
     | Some raw \<Rightarrow>
         (case cut (CHR '':'') raw of
            None \<Rightarrow> []
          | Some (name, pass) \<Rightarrow>
              (case lookup_user us name of
                 None \<Rightarrow> []
               | Some u \<Rightarrow> if eu_Password u \<noteq> pass then [] else name)))"

text \<open>The response the camera wants, for the qop the client chose.\<close>

definition want_response :: "crypto_env \<Rightarrow> authenticator \<Rightarrow> engine_user \<Rightarrow> string \<Rightarrow> (string, string) table \<Rightarrow> string option" where
  "want_response env a u meth p =
    (let ha1 = md5hex env (field p ''username'' @ '':'' @ au_realm a @ '':'' @ eu_Password u);
         ha2 = md5hex env (meth @ '':'' @ field p ''uri'')
     in if field p ''qop'' = ''auth''
        then Some (md5hex env (ha1 @ '':'' @ field p ''nonce'' @ '':'' @ field p ''nc'' @ '':'' @ field p ''cnonce'' @ '':auth:'' @ ha2))
        else if field p ''qop'' = []
        then Some (md5hex env (ha1 @ '':'' @ field p ''nonce'' @ '':'' @ ha2))
        else None)"

definition checkDigest ::
  "crypto_env \<Rightarrow> engine_user list \<Rightarrow> instant \<Rightarrow> http_request \<Rightarrow> string \<Rightarrow> authenticator \<Rightarrow>
   ((string \<times> bool) \<times> authenticator) option" where
  "checkDigest env us now r header a =
    (let p = parseDigest (uni_lower env) header in
     case lookup_user us (field p ''username'') of
       None \<Rightarrow> Some (([], False), a)
     | Some u \<Rightarrow>
         (if field p ''realm'' \<noteq> au_realm a then Some (([], False), a)
          else case validNonce env a now (field p ''nonce'') of
            (ok, expired) \<Rightarrow>
              (if \<not> ok then Some (([], False), a)
               else if field p ''uri'' \<noteq> rq_RequestURI r then Some (([], False), a)
               else if field p ''algorithm'' \<noteq> [] \<and> \<not> equal_fold (field p ''algorithm'') ''MD5'' then Some (([], False), a)
               else case want_response env a u (rq_Method r) p of
                 None \<Rightarrow> Some (([], False), a)
               | Some want \<Rightarrow>
                   (if want \<noteq> to_lower (uni_lower env) (field p ''response'') then Some (([], False), a)
                    else if expired then Some (([], True), a)
                    else if field p ''qop'' = ''auth''
                    then (case use_nonce (map_visit env) (field p ''nonce'') (field p ''nc'') (field p ''cnonce'') now (au_seen a) of
                            None \<Rightarrow> None
                          | Some (ans, t) \<Rightarrow>
                              (let a = a\<lparr>au_seen := t\<rparr> in
                               if ans = Fresh then Some ((field p ''username'', False), a)
                               else Some (([], ans = Full), a)))
                    else Some ((field p ''username'', False), a)))))"

record auth_answer =
  aa_user :: "engine_user option"
  aa_stale :: bool

definition finish_check :: "engine_user list \<Rightarrow> string \<Rightarrow> bool \<Rightarrow> auth_answer" where
  "finish_check us name stale =
    (if name = [] then \<lparr>aa_user = None, aa_stale = stale\<rparr>
     else \<lparr>aa_user = lookup_user us name, aa_stale = False\<rparr>)"

definition check_auth ::
  "crypto_env \<Rightarrow> engine_user list \<Rightarrow> instant \<Rightarrow> http_request \<Rightarrow> authenticator \<Rightarrow> (auth_answer \<times> authenticator) option" where
  "check_auth env us now r a =
    (let h = rq_Authorization r in
     if au_scheme a = SchemeNone then Some (\<lparr>aa_user = Some anonymous, aa_stale = False\<rparr>, a)
     else if au_scheme a = SchemeBasic \<and> 6 < length h \<and> equal_fold (take 6 h) ''basic ''
     then Some (finish_check us (checkBasic us (drop 6 h)) False, a)
     else if au_scheme a = SchemeDigest \<and> 7 < length h \<and> equal_fold (take 7 h) ''digest ''
     then (case checkDigest env us now r (drop 7 h) a of
             None \<Rightarrow> None
           | Some ((name, stale), a) \<Rightarrow> Some (finish_check us name stale, a))
     else Some (finish_check us [] False, a))"

end
