(* ===== verification/Digest_Claims.thy ===== *)
theory Digest_Claims
  imports Digest_Auth
begin

text \<open>
  What the digest authentication of a camera promises: a client with the password gets in, a header
  that was accepted once is not accepted again, and the memory it takes is bounded.
\<close>

section \<open>Reading what a client writes\<close>

text \<open>The client side: the fields of the header, each value in quotes and escaped, or as it is when it needs no quotes.\<close>

definition quote_value :: "string \<Rightarrow> string" where
  "quote_value v = concat (map (\<lambda>c. if c = CHR 0x22 \<or> c = CHR 0x5C then [CHR 0x5C, c] else [c]) v)"

datatype digest_field = Quoted string string | Plain string string

fun field_key :: "digest_field \<Rightarrow> string" where
  "field_key (Quoted k v) = k"
| "field_key (Plain k v) = k"

fun field_val :: "digest_field \<Rightarrow> string" where
  "field_val (Quoted k v) = v"
| "field_val (Plain k v) = v"

fun field_text :: "digest_field \<Rightarrow> string" where
  "field_text (Quoted k v) = k @ [CHR ''='', CHR 0x22] @ quote_value v @ [CHR 0x22]"
| "field_text (Plain k v) = k @ CHR ''='' # v"

lemma field_text_nonempty [simp]: "field_text f \<noteq> []"
  by (cases f) simp_all

definition header_text :: "digest_field list \<Rightarrow> string" where
  "header_text fs = join_with '', '' (map field_text fs)"

definition field_name :: "string \<Rightarrow> bool" where
  "field_name k = (k \<noteq> [] \<and> (\<forall>c\<in>set k. is_lower_c (byte c)))"

definition plain_value :: "string \<Rightarrow> bool" where
  "plain_value v = (trimmed v \<and> CHR '','' \<notin> set v \<and> \<not> has_prefix [CHR 0x22] v)"

fun field_wf :: "digest_field \<Rightarrow> bool" where
  "field_wf (Quoted k v) = field_name k"
| "field_wf (Plain k v) = (field_name k \<and> plain_value v)"

lemma field_wf_name: "field_wf f \<Longrightarrow> field_name (field_key f)"
  by (cases f) simp_all

lemma scan_quoted_plain:
  "c \<noteq> CHR 0x5C \<Longrightarrow> c \<noteq> CHR 0x22 \<Longrightarrow> s \<noteq> [] \<Longrightarrow> scan_quoted (c # s) = (c # fst (scan_quoted s), snd (scan_quoted s))"
  by (cases s) (simp_all add: case_prod_beta)

lemma scan_quote_value: "scan_quoted (quote_value v @ CHR 0x22 # r) = (v, r)"
proof (induction v)
  case Nil
  show ?case by (cases r) (simp_all add: quote_value_def)
next
  case (Cons c v)
  show ?case
  proof (cases "c = CHR 0x22 \<or> c = CHR 0x5C")
    case True
    then have "quote_value (c # v) @ CHR 0x22 # r = CHR 0x5C # c # (quote_value v @ CHR 0x22 # r)"
      by (simp add: quote_value_def)
    then show ?thesis by (simp only:) (simp add: Cons.IH)
  next
    case False
    then have "quote_value (c # v) @ CHR 0x22 # r = c # (quote_value v @ CHR 0x22 # r)"
      by (simp add: quote_value_def)
    with False show ?thesis by (simp only:) (simp add: scan_quoted_plain Cons.IH)
  qed
qed

lemma field_name_facts:
  assumes "field_name k"
  shows "trim_space k = k" "to_lower uni k = k" "CHR ''='' \<notin> set k" "\<exists>c k'. k = c # k' \<and> is_lower_c (byte c)"
proof -
  have c: "97 \<le> byte c" "byte c \<le> 122" if "c \<in> set k" for c
    using assms that by (auto simp: field_name_def is_lower_c_def)
  have "trimmed k" by (rule trimmed_graphic) (use c in fastforce)
  then show "trim_space k = k" by (rule trim_space_id)
  have "ascii k" using c by (fastforce simp: ascii_def list_all_iff)
  moreover have "map lower_char k = k" using c by (intro map_idI) (fastforce simp: lower_char_def is_upper_c_def)
  ultimately show "to_lower uni k = k" by (simp add: to_lower_ascii)
  show "CHR ''='' \<notin> set k"
  proof
    assume "CHR ''='' \<in> set k"
    from c [OF this] show False by (simp add: byte_def)
  qed
  show "\<exists>c k'. k = c # k' \<and> is_lower_c (byte c)" using assms by (cases k) (auto simp: field_name_def)
qed

lemma parse_field:
  assumes "field_wf f" "pre \<in> {[], '', ''}" "r = [] \<or> hd r = CHR '','' "
  shows "parseDigest_loop uni (pre @ field_text f @ r) out = parseDigest_loop uni r (tput (field_key f) (field_val f) out)"
proof -
  let ?k = "field_key f"
  have n: "field_name ?k" using assms(1) by (rule field_wf_name)
  obtain c k' where k: "?k = c # k'" "is_lower_c (byte c)" using field_name_facts(4) [OF n] by blast
  obtain w where w: "field_text f = ?k @ CHR ''='' # w" "scan_value (trim_left_chars blanks (w @ r)) = (field_val f, r)"
  proof (cases f)
    case (Quoted k v)
    then show ?thesis
      by (intro that [of "CHR 0x22 # quote_value v @ [CHR 0x22]"])
        (simp_all add: blanks_def trim_left_stop scan_value_def has_prefix_def scan_quote_value)
  next
    case (Plain k v)
    with assms(1) have v: "trimmed v" "CHR '','' \<notin> set v" "\<not> has_prefix [CHR 0x22] v"
      by (simp_all add: plain_value_def)
    have h: "v = [] \<or> hd v \<notin> set blanks"
      using v(1) by (cases v) (auto simp: trimmed_def space_seqs_def has_prefix_def blanks_def)
    have t: "trim_left_chars blanks (v @ r) = v @ r"
    proof (cases "v @ r")
      case (Cons d ds)
      with h assms(3) have "d \<notin> set blanks" by (cases v) (auto simp: blanks_def)
      with Cons show ?thesis by (simp add: trim_left_stop)
    qed simp
    have r: "takeWhile (\<lambda>c. c \<noteq> CHR '','') r = []" "dropWhile (\<lambda>c. c \<noteq> CHR '','') r = r"
      using assms(3) by (cases r; simp)+
    have "\<forall>c\<in>set v. c \<noteq> CHR '','' " using v(2) by blast
    then have "takeWhile (\<lambda>c. c \<noteq> CHR '','') (v @ r) = v" "dropWhile (\<lambda>c. c \<noteq> CHR '','') (v @ r) = r"
      by (simp_all add: takeWhile_append2 dropWhile_append2 r)
    moreover have "\<not> has_prefix [CHR 0x22] (v @ r)"
      using v(3) assms(3) by (cases v; cases r) (auto simp: has_prefix_def)
    ultimately have "scan_value (v @ r) = (v, r)" by (simp add: scan_value_def trim_space_id [OF v(1)])
    with Plain t show ?thesis by (intro that [of v]) simp_all
  qed
  have "c \<notin> set [CHR '' '', CHR '','', CHR 0x09]" using k(2) by (auto simp: is_lower_c_def byte_def)
  then have "trim_left_chars [CHR '' '', CHR '','', CHR 0x09] (pre @ field_text f @ r) = ?k @ CHR ''='' # (w @ r)"
    using assms(2) by (auto simp: w(1) trim_left_skip trim_left_stop k(1))
  moreover have "cut (CHR ''='') (?k @ CHR ''='' # (w @ r)) = Some (?k, w @ r)"
    unfolding cut_Some using field_name_facts(3) [OF n] by simp
  moreover have "pre @ field_text f @ r \<noteq> []" by simp
  ultimately show ?thesis
    by (subst parseDigest_loop.simps) (simp add: field_name_facts [OF n] w(2) del: field_text.simps)
qed

lemma parse_fields:
  "\<forall>f\<in>set fs. field_wf f \<Longrightarrow>
   parseDigest_loop uni (concat (map (\<lambda>f. '', '' @ field_text f) fs)) out = fold (\<lambda>f. tput (field_key f) (field_val f)) fs out"
proof (induction fs arbitrary: out)
  case (Cons f fs)
  have "concat (map (\<lambda>f. '', '' @ field_text f) fs) = [] \<or> hd (concat (map (\<lambda>f. '', '' @ field_text f) fs)) = CHR '','' "
    by (cases fs) simp_all
  from parse_field [OF _ _ this, of f "'', ''"] Cons show ?case by (simp del: field_text.simps)
qed (simp add: parseDigest_loop.simps)

lemma header_text_Cons:
  "header_text (f # fs) = field_text f @ concat (map (\<lambda>f. '', '' @ field_text f) fs)"
proof (induction fs arbitrary: f)
  case (Cons g fs)
  from Cons [of g] show ?case by (simp add: header_text_def)
qed (simp add: header_text_def)

text \<open>The value of a field of a list, empty when it is not there.\<close>

definition value_in :: "digest_field list \<Rightarrow> string \<Rightarrow> string" where
  "value_in fs k = (case List.find (\<lambda>f. field_key f = k) fs of None \<Rightarrow> [] | Some f \<Rightarrow> field_val f)"

lemma find_absent: "k \<notin> field_key ` set fs \<Longrightarrow> List.find (\<lambda>f. field_key f = k) fs = None"
  by (auto simp: find_None_iff)

lemma tget_fold_tput:
  "distinct (map field_key fs) \<Longrightarrow> tget (fold (\<lambda>f. tput (field_key f) (field_val f)) fs t) k =
     (case List.find (\<lambda>f. field_key f = k) fs of Some f \<Rightarrow> Some (field_val f) | None \<Rightarrow> tget t k)"
proof (induction fs arbitrary: t)
  case (Cons f fs)
  then have "List.find (\<lambda>g. field_key g = field_key f) fs = None" by (simp add: find_absent)
  with Cons show ?case by (auto split: option.split)
qed simp

lemma parse_header:
  assumes "\<forall>f\<in>set fs. field_wf f" "distinct (map field_key fs)"
  shows "field (parseDigest uni (header_text fs)) k = value_in fs k"
proof -
  have "parseDigest uni (header_text fs) = fold (\<lambda>f. tput (field_key f) (field_val f)) fs []"
  proof (cases fs)
    case Nil
    then show ?thesis by (simp add: parseDigest_def header_text_def parseDigest_loop.simps)
  next
    case (Cons f gs)
    have "concat (map (\<lambda>f. '', '' @ field_text f) gs) = [] \<or> hd (concat (map (\<lambda>f. '', '' @ field_text f) gs)) = CHR '','' "
      by (cases gs) simp_all
    from parse_field [OF _ _ this, of f "[]" uni "[]"] assms(1) parse_fields [of gs]
    show ?thesis by (simp add: parseDigest_def Cons header_text_Cons del: field_text.simps)
  qed
  with tget_fold_tput [OF assms(2), of "[]" k] show ?thesis by (simp add: field_def value_in_def split: option.split)
qed

section \<open>Nonces\<close>

lemma wrap_word: "0 \<le> t \<Longrightarrow> t < 2 ^ 63 \<Longrightarrow> wrap64 (int (nat (t mod 2 ^ 64))) = t"
  by (simp add: wrap64_id)

lemma own_nonce:
  assumes "\<And>k m. length (hmac_sum env k m) = 32" "0 \<le> t" "t < 2 ^ 63"
  shows "validNonce env a now (make_nonce env a t) = (True, nonceTTL < now - t)"
proof -
  let ?ts = "be_bytes 8 (nat (t mod 2 ^ 64))"
  have "nat (t mod 2 ^ 64) < 256 ^ 8" using assms(2,3) by (simp add: nat_less_iff)
  then have "be_nat ?ts = nat (t mod 2 ^ 64)" by (rule be_roundtrip)
  moreover have "length (nonce_mac env a ?ts) = 16" by (simp add: nonce_mac_def assms(1))
  ultimately show ?thesis
    using wrap_word [OF assms(2,3)] by (simp add: validNonce_def make_nonce_def Let_def RawURL_roundtrip)
qed

section \<open>A client with the password\<close>

text \<open>The response of RFC 7616 with qop=auth.\<close>

type_synonym username = string
type_synonym realm = string
type_synonym password = string
type_synonym http_method = string
type_synonym uri = string
type_synonym nonce = string
type_synonym nonce_count = string
type_synonym client_nonce = string

definition client_response ::
  "crypto_env \<Rightarrow> username \<Rightarrow> realm \<Rightarrow> password \<Rightarrow> http_method \<Rightarrow> uri \<Rightarrow> nonce \<Rightarrow> nonce_count \<Rightarrow> client_nonce \<Rightarrow> string" where
  "client_response env name realm pass meth uri nonce nc cnonce =
    (let ha1 = md5hex env (name @ '':'' @ realm @ '':'' @ pass);
         ha2 = md5hex env (meth @ '':'' @ uri)
     in md5hex env (ha1 @ '':'' @ nonce @ '':'' @ nc @ '':'' @ cnonce @ '':auth:'' @ ha2))"

text \<open>A request with a digest header, and what makes it an answer to a challenge: its fields, quoted or not and in any order,
  others among them, give the name, realm, nonce, target, counter and client nonce, and the response made of them with the password.\<close>

definition client_request :: "digest_field list \<Rightarrow> http_method \<Rightarrow> uri \<Rightarrow> http_request" where
  "client_request fs meth uri = \<lparr>rq_Authorization = ''Digest '' @ header_text fs, rq_Method = meth, rq_RequestURI = uri\<rparr>"

definition answers_challenge ::
  "crypto_env \<Rightarrow> username \<Rightarrow> realm \<Rightarrow> password \<Rightarrow> http_method \<Rightarrow> uri \<Rightarrow> nonce \<Rightarrow> nonce_count \<Rightarrow> client_nonce \<Rightarrow> digest_field list \<Rightarrow> bool" where
  "answers_challenge env name realm pass meth uri nonce nc cnonce fs =
    ((\<forall>f\<in>set fs. field_wf f) \<and> distinct (map field_key fs) \<and>
     value_in fs ''username'' = name \<and> value_in fs ''realm'' = realm \<and> value_in fs ''nonce'' = nonce \<and> value_in fs ''uri'' = uri \<and>
     value_in fs ''qop'' = ''auth'' \<and> value_in fs ''nc'' = nc \<and> value_in fs ''cnonce'' = cnonce \<and>
     value_in fs ''algorithm'' \<in> {[], ''MD5''} \<and>
     value_in fs ''response'' = client_response env name realm pass meth uri nonce nc cnonce)"

lemma to_lower_hex: "to_lower uni (hex_encode s) = hex_encode s"
proof -
  have d: "48 \<le> byte (hex_digit n) \<and> byte (hex_digit n) \<le> 57 \<or> 97 \<le> byte (hex_digit n) \<and> byte (hex_digit n) \<le> 102" for n
  proof -
    have all: "list_all (\<lambda>c. 48 \<le> byte c \<and> byte c \<le> 57 \<or> 97 \<le> byte c \<and> byte c \<le> 102) ''0123456789abcdef''"
      by code_simp
    have "hex_digit n \<in> set ''0123456789abcdef''" unfolding hex_digit_def by (rule nth_mem) simp
    with all show ?thesis unfolding list_all_iff by blast
  qed
  have c: "byte c < 0x80 \<and> \<not> is_upper_c (byte c)" if "c \<in> set (hex_encode s)" for c
  proof -
    from that obtain n where "c = hex_digit n" by (auto simp: hex_encode_def)
    with d [of n] show ?thesis by (auto simp: is_upper_c_def)
  qed
  then have "ascii (hex_encode s)" by (simp add: ascii_def list_all_iff)
  moreover have "map lower_char (hex_encode s) = hex_encode s" using c by (intro map_idI) (simp add: lower_char_def)
  ultimately show ?thesis by (simp add: to_lower_ascii)
qed

lemma client_answer:
  assumes "\<And>k m. length (hmac_sum env k m) = 32" "0 \<le> t0" "t0 < 2 ^ 63" "now - t0 \<le> nonceTTL"
    and "au_scheme a = SchemeDigest" "lookup_user us name = Some u" "name \<noteq> []"
    and "answers_challenge env name (au_realm a) (eu_Password u) meth uri (make_nonce env a t0) nc cnonce fs"
  shows "check_auth env us now (client_request fs meth uri) a =
    map_option (\<lambda>(ans, t). (if ans = Fresh then \<lparr>aa_user = Some u, aa_stale = False\<rparr>
                            else \<lparr>aa_user = None, aa_stale = (ans = Full)\<rparr>, a\<lparr>au_seen := t\<rparr>))
      (use_nonce (map_visit env) (make_nonce env a t0) nc cnonce now (au_seen a))"
proof -
  let ?n = "make_nonce env a t0"
  let ?resp = "client_response env name (au_realm a) (eu_Password u) meth uri ?n nc cnonce"
  let ?r = "client_request fs meth uri"
  let ?p = "parseDigest (uni_lower env) (drop 7 (rq_Authorization ?r))"
  have c: "\<forall>f\<in>set fs. field_wf f" "distinct (map field_key fs)" using assms(8) by (simp_all add: answers_challenge_def)
  have "field ?p k = value_in fs k" for k using parse_header [OF c] by (simp add: client_request_def)
  with assms(8) have f: "field ?p ''username'' = name" "field ?p ''realm'' = au_realm a" "field ?p ''nonce'' = ?n" "field ?p ''uri'' = uri"
    "field ?p ''qop'' = ''auth''" "field ?p ''nc'' = nc" "field ?p ''cnonce'' = cnonce" "field ?p ''response'' = ?resp"
    and alg: "field ?p ''algorithm'' \<in> {[], ''MD5''}"
    by (simp_all add: answers_challenge_def)
  have r: "rq_Method ?r = meth" "rq_RequestURI ?r = uri" by (simp_all add: client_request_def)
  have w: "want_response env a u meth ?p = Some ?resp"
    by (simp add: want_response_def f client_response_def Let_def)
  have l: "to_lower (uni_lower env) ?resp = ?resp"
    by (simp add: client_response_def Let_def md5hex_def to_lower_hex)
  have v: "validNonce env a now ?n = (True, False)" using own_nonce [OF assms(1-3)] assms(4) by simp
  have g: "\<not> (field ?p ''algorithm'' \<noteq> [] \<and> \<not> equal_fold (field ?p ''algorithm'') ''MD5'')" using alg by (auto simp: equal_fold_def)
  have "checkDigest env us now ?r (drop 7 (rq_Authorization ?r)) a =
    map_option (\<lambda>(ans, t). (if ans = Fresh then (name, False) else ([], ans = Full), a\<lparr>au_seen := t\<rparr>))
      (use_nonce (map_visit env) ?n nc cnonce now (au_seen a))"
    unfolding checkDigest_def Let_def f r assms(6) option.case v prod.case w l if_not_P [OF g]
    by (simp split: option.split prod.split)
  moreover have "value_in [] ''qop'' = []" by (simp add: value_in_def)
  then have "fs \<noteq> []" using assms(8) by (auto simp: answers_challenge_def)
  then have "7 < length (rq_Authorization ?r)" "take 7 (rq_Authorization ?r) = ''Digest ''"
    by (cases fs; simp add: client_request_def header_text_Cons)+
  moreover have "equal_fold ''Digest '' ''digest ''" by code_simp
  ultimately show ?thesis
    using assms(5-7) by (auto simp: check_auth_def Let_def finish_check_def option.map_comp split: option.split)
qed

definition toy_env :: crypto_env where
  "toy_env = \<lparr>hmac_sum = (\<lambda>k m. replicate 32 (CHR ''m'')), md5_sum = (\<lambda>s. take 16 s), uni_lower = id, map_visit = id\<rparr>"

definition toy_auth :: authenticator where
  "toy_auth = newAuthenticator SchemeDigest '''' ''key'' ''opaque''"

definition toy_user :: engine_user where
  "toy_user = \<lparr>eu_Username = ''ann'', eu_Password = ''pw'', eu_Role = ''admin''\<rparr>"

text \<open>The header of a common client: the values that need no quotes have none.\<close>

definition toy_fields :: "string \<Rightarrow> digest_field list" where
  "toy_fields nc = [Quoted ''username'' ''ann'', Quoted ''realm'' ''IPCamera'', Quoted ''nonce'' (make_nonce toy_env toy_auth 5),
     Quoted ''uri'' ''/'', Plain ''qop'' ''auth'', Plain ''nc'' nc, Quoted ''cnonce'' ''x'',
     Quoted ''response'' (client_response toy_env ''ann'' ''IPCamera'' ''pw'' ''GET'' ''/'' (make_nonce toy_env toy_auth 5) nc ''x''),
     Quoted ''opaque'' ''o'', Plain ''algorithm'' ''MD5'']"

lemma toy_names: "field_name ''username'' \<and> field_name ''realm'' \<and> field_name ''nonce'' \<and> field_name ''uri'' \<and> field_name ''qop'' \<and>
    field_name ''nc'' \<and> field_name ''cnonce'' \<and> field_name ''response'' \<and> field_name ''opaque'' \<and> field_name ''algorithm''"
  by code_simp

lemma toy_plain: "plain_value ''auth''" "plain_value ''1''" "plain_value ''MD5''"
  by (simp_all add: plain_value_def trimmed_def space_seqs_def has_prefix_def has_suffix_def)

lemma toy_answers:
  "answers_challenge toy_env ''ann'' (au_realm toy_auth) (eu_Password toy_user) ''GET'' ''/'' (make_nonce toy_env toy_auth 5) ''1'' ''x'' (toy_fields ''1'')"
  using toy_names toy_plain by (simp add: answers_challenge_def toy_fields_def value_in_def toy_auth_def toy_user_def newAuthenticator_def)

section \<open>Replays\<close>

lemma use_keys_grow: "set (nu_used u) \<subseteq> set (nu_used (u\<lparr>nu_used := k # nu_used u\<rparr>))" by auto

lemma use_effect:
  assumes "use_nonce visit m nc cnonce now t = Some (x, t')" "table_ok t" "length (drop_expired now t) < maxNonces"
  shows "table_ok t' \<and>
    (\<forall>n u. tget t n = Some u \<and> \<not> nonceTTL < now - nu_first u \<longrightarrow>
       (\<exists>u'. tget t' n = Some u' \<and> nu_first u' = nu_first u \<and> set (nu_used u) \<subseteq> set (nu_used u'))) \<and>
    (\<forall>n u'. tget t' n = Some u' \<longrightarrow> (\<exists>u. tget t n = Some u \<and> nu_first u' = nu_first u) \<or> nu_first u' = now) \<and>
    (x = Fresh \<longrightarrow> (\<exists>u. tget t' m = Some u \<and> use_key nc cnonce \<in> set (nu_used u))) \<and>
    (\<forall>u. tget t m = Some u \<and> use_key nc cnonce \<in> set (nu_used u) \<longrightarrow> x = Seen)"
proof -
  let ?base = "if maxNonces \<le> length t then drop_expired now t else t"
  have p: "(if maxNonces \<le> length t then prune visit now t else Some t) = Some ?base"
    using assms(3) by (simp add: prune_def prune_oldest.simps)
  have ok: "table_ok (drop_expired now t)" unfolding drop_expired_def by (rule table_ok_filter [OF assms(2)])
  have g: "tget (drop_expired now t) n = (case tget t n of None \<Rightarrow> None | Some u \<Rightarrow> if \<not> nonceTTL < now - nu_first u then Some u else None)" for n
    unfolding drop_expired_def by (rule tget_filter [OF assms(2)])
  show ?thesis
  proof (cases "tget t m")
    case None
    then have "x = Fresh" "t' = tput m \<lparr>nu_first = now, nu_used = [use_key nc cnonce]\<rparr> (tput m \<lparr>nu_first = now, nu_used = []\<rparr> ?base)"
      using assms(1) unfolding use_nonce_def None option.case p by (simp_all add: Let_def maxUsesPerNonce_def)
    with None ok assms(2) show ?thesis by (auto simp: g split: option.splits if_splits)
  next
    case (Some u)
    with assms(1,2) show ?thesis by (auto simp: use_nonce_def Let_def split: if_splits)
  qed
qed

text \<open>Runs of the authenticator: requests with the users and the time they are checked at.\<close>

type_synonym auth_op = "instant \<times> engine_user list \<times> http_request"

fun auth_run :: "crypto_env \<Rightarrow> auth_op list \<Rightarrow> authenticator \<Rightarrow> authenticator option" where
  "auth_run env [] a = Some a"
| "auth_run env ((now, us, r) # ops) a =
    (case check_auth env us now r a of None \<Rightarrow> None | Some (ans, a) \<Rightarrow> auth_run env ops a)"

text \<open>Before each request fewer than 4096 of the nonces held are still valid.\<close>

fun roomy :: "crypto_env \<Rightarrow> auth_op list \<Rightarrow> authenticator \<Rightarrow> bool" where
  "roomy env [] a = True"
| "roomy env ((now, us, r) # ops) a =
    (length (drop_expired now (au_seen a)) < maxNonces \<and>
     (case check_auth env us now r a of None \<Rightarrow> True | Some (ans, a) \<Rightarrow> roomy env ops a))"

definition digest_use :: "crypto_env \<Rightarrow> http_request \<Rightarrow> (string \<times> string \<times> string) option" where
  "digest_use env r =
    (let p = parseDigest (uni_lower env) (drop 7 (rq_Authorization r)) in
     if field p ''qop'' = ''auth'' then Some (field p ''nonce'', field p ''nc'', field p ''cnonce'') else None)"

definition same_auth :: "authenticator \<Rightarrow> authenticator \<Rightarrow> bool" where
  "same_auth a b = (b = a\<lparr>au_seen := au_seen b\<rparr>)"

lemma checkDigest_effect:
  assumes "checkDigest env us now r h a = Some (ans, b)"
  shows "same_auth a b \<and> (au_seen b = au_seen a \<or>
    (\<exists>n nc cnonce x. use_nonce (map_visit env) n nc cnonce now (au_seen a) = Some (x, au_seen b)))"
  using assms unfolding checkDigest_def Let_def same_auth_def
  by (auto split: option.splits prod.splits if_splits)

lemma check_auth_effect:
  assumes "check_auth env us now r a = Some (ans, b)"
  shows "same_auth a b \<and> (au_seen b = au_seen a \<or>
    (\<exists>n nc cnonce x. use_nonce (map_visit env) n nc cnonce now (au_seen a) = Some (x, au_seen b)))"
  using assms checkDigest_effect
  by (fastforce simp: check_auth_def Let_def same_auth_def split: if_splits option.splits prod.splits)

lemma check_auth_digest:
  assumes "check_auth env us now r a = Some (ans, b)" "au_scheme a = SchemeDigest" "aa_user ans \<noteq> None"
    "digest_use env r = Some (n, nc, cnonce)"
  shows "use_nonce (map_visit env) n nc cnonce now (au_seen a) = Some (Fresh, au_seen b) \<and> validNonce env a now n = (True, False)"
proof -
  obtain name stale where c: "checkDigest env us now r (drop 7 (rq_Authorization r)) a = Some ((name, stale), b)" "name \<noteq> []"
    using assms(1-3) by (auto simp: check_auth_def Let_def finish_check_def split: if_splits option.splits prod.splits)
  show ?thesis using c assms(4)
    by (auto simp: checkDigest_def digest_use_def Let_def split: option.splits prod.splits if_splits)
qed

text \<open>The nonce \<open>n\<close>, issued at \<open>t0\<close>, has not been used before \<open>t0\<close>, and, from its first acceptance on, the
  use \<open>k\<close> is on record or the nonce has expired.\<close>

definition since :: "authenticator \<Rightarrow> instant \<Rightarrow> string \<Rightarrow> authenticator \<Rightarrow> bool" where
  "since a0 t0 n a = (same_auth a0 a \<and> table_ok (au_seen a) \<and> (\<forall>u. tget (au_seen a) n = Some u \<longrightarrow> t0 \<le> nu_first u))"

definition on_record :: "instant \<Rightarrow> string \<Rightarrow> string \<Rightarrow> instant \<Rightarrow> authenticator \<Rightarrow> bool" where
  "on_record t0 n k now a = ((\<exists>u. tget (au_seen a) n = Some u \<and> k \<in> set (nu_used u)) \<or> nonceTTL < now - t0)"

lemma same_auth_trans: "same_auth a b \<Longrightarrow> same_auth b c \<Longrightarrow> same_auth a c"
  by (cases a; cases b; cases c) (simp add: same_auth_def)

lemma since_auth:
  assumes "since a0 t0 n a"
  shows "au_scheme a = au_scheme a0" "nonce_mac env a = nonce_mac env a0"
  using assms by (cases a0; cases a; simp add: since_def same_auth_def nonce_mac_def fun_eq_iff)+

lemma since_check:
  assumes "since a0 t0 n a" "check_auth env us now r a = Some (ans, b)" "t0 \<le> now" "length (drop_expired now (au_seen a)) < maxNonces"
  shows "since a0 t0 n b"
proof -
  have s: "same_auth a0 a" "table_ok (au_seen a)" "\<And>u. tget (au_seen a) n = Some u \<Longrightarrow> t0 \<le> nu_first u"
    using assms(1) by (auto simp: since_def)
  have e: "same_auth a b" "au_seen b = au_seen a \<or>
      (\<exists>m nc cnonce x. use_nonce (map_visit env) m nc cnonce now (au_seen a) = Some (x, au_seen b))"
    using check_auth_effect [OF assms(2)] by blast+
  from e(2) have "table_ok (au_seen b) \<and> (\<forall>u. tget (au_seen b) n = Some u \<longrightarrow> t0 \<le> nu_first u)"
  proof
    assume "\<exists>m nc cnonce x. use_nonce (map_visit env) m nc cnonce now (au_seen a) = Some (x, au_seen b)"
    then obtain m nc cnonce x where u: "use_nonce (map_visit env) m nc cnonce now (au_seen a) = Some (x, au_seen b)" by blast
    from use_effect [OF u s(2) assms(4)] s(3) assms(3) show ?thesis by (metis order_refl)
  qed (use s in simp)
  with same_auth_trans [OF s(1) e(1)] show ?thesis by (simp add: since_def)
qed

lemma on_record_check:
  assumes "on_record t0 n k t a" "since a0 t0 n a" "check_auth env us now r a = Some (ans, b)" "t \<le> now"
    "length (drop_expired now (au_seen a)) < maxNonces"
  shows "on_record t0 n k now b"
proof (cases "nonceTTL < now - t0")
  case False
  then obtain u where u: "tget (au_seen a) n = Some u" "k \<in> set (nu_used u)"
    using assms(1,4) by (auto simp: on_record_def)
  then have "t0 \<le> nu_first u" "table_ok (au_seen a)" using assms(2) by (auto simp: since_def)
  with False have y: "\<not> nonceTTL < now - nu_first u" by simp
  consider "au_seen b = au_seen a"
    | m nc cnonce x where "use_nonce (map_visit env) m nc cnonce now (au_seen a) = Some (x, au_seen b)"
    using check_auth_effect [OF assms(3)] by blast
  then have "\<exists>u'. tget (au_seen b) n = Some u' \<and> set (nu_used u) \<subseteq> set (nu_used u')"
  proof cases
    case 2
    from use_effect [OF 2 \<open>table_ok (au_seen a)\<close> assms(5)] u(1) y show ?thesis by blast
  qed (use u in simp)
  with u(2) show ?thesis unfolding on_record_def by blast
qed (simp add: on_record_def)

lemma since_run:
  assumes "auth_run env ops a = Some b" "since a0 t0 n a" "roomy env ops a" "\<forall>(t, us, r)\<in>set ops. t0 \<le> t"
  shows "since a0 t0 n b"
  using assms
proof (induction env ops a rule: auth_run.induct)
  case (2 env now us r ops a)
  from "2.prems"(1) obtain ans c where c: "check_auth env us now r a = Some (ans, c)" "auth_run env ops c = Some b"
    by (auto split: option.splits)
  have "since a0 t0 n c" using since_check [OF "2.prems"(2) c(1)] "2.prems"(3,4) by simp
  with "2.IH" [OF c(1) refl c(2)] "2.prems"(3,4) c show ?case by simp
qed simp

lemma on_record_run:
  assumes "auth_run env ops a = Some b" "on_record t0 n k t a" "since a0 t0 n a" "roomy env ops a"
    "sorted (t # map fst ops)" "t0 \<le> t"
  shows "\<exists>t'. on_record t0 n k t' b \<and> (t' = t \<or> t' \<in> set (map fst ops))"
  using assms
proof (induction env ops a arbitrary: t rule: auth_run.induct)
  case (2 env now us r ops a)
  from "2.prems"(1) obtain ans c where c: "check_auth env us now r a = Some (ans, c)" "auth_run env ops c = Some b"
    by (auto split: option.splits)
  have "since a0 t0 n c" using since_check [OF "2.prems"(3) c(1)] "2.prems"(4-6) by simp
  moreover have "on_record t0 n k now c"
    using on_record_check [OF "2.prems"(2,3) c(1)] "2.prems"(4,5) by simp
  ultimately show ?case using "2.IH" [OF c(1) refl c(2), of now] "2.prems"(4-6) c by auto
qed auto

lemma auth_run_append:
  "auth_run env (xs @ ys) a = (case auth_run env xs a of None \<Rightarrow> None | Some b \<Rightarrow> auth_run env ys b)"
  by (induction env xs a rule: auth_run.induct) (auto split: option.split)

lemma roomy_append:
  "roomy env (xs @ ys) a \<longleftrightarrow> roomy env xs a \<and> (case auth_run env xs a of None \<Rightarrow> True | Some b \<Rightarrow> roomy env ys b)"
  by (induction env xs a rule: auth_run.induct) (auto split: option.split)

text \<open>C36. A digest header captured on the network cannot be sent again: as long as the clock does not go
  back and fewer than 4096 valid nonces are held, a counter and client nonce that were accepted once
  with a nonce of ours are refused with it from then on, whatever the request and whatever came
  between.\<close>

theorem digest_replay_refused:
  assumes "\<And>k m. length (hmac_sum env k m) = 32"
    and a0: "au_scheme a0 = SchemeDigest" "table_ok (au_seen a0)" "tget (au_seen a0) (make_nonce env a0 t0) = None"
    and "0 \<le> t0" "t0 < 2 ^ 63"
    and xs: "auth_run env xs a0 = Some a1"
    and r1: "check_auth env us1 t1 r1 a1 = Some (ans1, a2)" "digest_use env r1 = Some (make_nonce env a0 t0, nc, cnonce)"
      "aa_user ans1 \<noteq> None"
    and ys: "auth_run env ys a2 = Some a3"
    and r2: "check_auth env us2 t2 r2 a3 = Some (ans2, a4)" "digest_use env r2 = Some (make_nonce env a0 t0, nc, cnonce)"
    and clock: "sorted (t0 # map fst xs @ t1 # map fst ys @ [t2])"
    and room: "roomy env (xs @ (t1, us1, r1) # ys @ [(t2, us2, r2)]) a0"
  shows "aa_user ans2 = None"
proof (rule ccontr)
  assume n: "aa_user ans2 \<noteq> None"
  let ?n = "make_nonce env a0 t0"
  have rm: "roomy env xs a0" "length (drop_expired t1 (au_seen a1)) < maxNonces" "roomy env ys a2"
      "length (drop_expired t2 (au_seen a3)) < maxNonces"
    using room by (simp_all add: roomy_append xs r1(1) ys)
  have c: "\<forall>t\<in>set (map fst xs). t0 \<le> t" "t0 \<le> t1" "\<forall>t\<in>set (map fst ys). t0 \<le> t" "t0 \<le> t2"
    "sorted (t1 # map fst ys)" "t1 \<le> t2" "\<forall>t\<in>set (map fst ys). t \<le> t2"
    using clock unfolding sorted_simps sorted_append by (simp_all add: ball_Un)
  have t: "\<forall>(t, us, r)\<in>set xs. t0 \<le> t" "\<forall>(t, us, r)\<in>set ys. t0 \<le> t" using c(1,3) by auto
  have "since a0 t0 ?n a0" using a0 by (simp add: since_def same_auth_def)
  from since_run [OF xs this rm(1) t(1)] have s1: "since a0 t0 ?n a1" .
  from since_check [OF s1 r1(1) c(2) rm(2)] have s2: "since a0 t0 ?n a2" .
  from since_run [OF ys s2 rm(3) t(2)] have s3: "since a0 t0 ?n a3" .
  have "au_scheme a1 = SchemeDigest" using since_auth [OF s1] a0(1) by simp
  from check_auth_digest [OF r1(1) this r1(3,2)]
  have u1: "use_nonce (map_visit env) ?n nc cnonce t1 (au_seen a1) = Some (Fresh, au_seen a2)" by blast
  have "table_ok (au_seen a1)" using s1 by (simp add: since_def)
  from use_effect [OF u1 this rm(2)] have "on_record t0 ?n (use_key nc cnonce) t1 a2" by (auto simp: on_record_def)
  from on_record_run [OF ys this s2 rm(3) c(5,2)] obtain t' where t': "on_record t0 ?n (use_key nc cnonce) t' a3"
    "t' = t1 \<or> t' \<in> set (map fst ys)" by blast
  from t'(2) c(6,7) have "t' \<le> t2" by blast
  have d: "au_scheme a3 = SchemeDigest" using since_auth [OF s3] a0(1) by simp
  from check_auth_digest [OF r2(1) d n r2(2)]
  have u2: "use_nonce (map_visit env) ?n nc cnonce t2 (au_seen a3) = Some (Fresh, au_seen a4)"
    and v: "validNonce env a3 t2 ?n = (True, False)" by blast+
  have "validNonce env a3 t2 ?n = validNonce env a0 t2 ?n" unfolding validNonce_def since_auth(2) [OF s3] ..
  with v own_nonce [OF assms(1) assms(5,6)] have "\<not> nonceTTL < t2 - t0" by simp
  with t'(1) \<open>t' \<le> t2\<close> obtain u where "tget (au_seen a3) ?n = Some u" "use_key nc cnonce \<in> set (nu_used u)"
    by (auto simp: on_record_def)
  moreover have "table_ok (au_seen a3)" using s3 by (simp add: since_def)
  ultimately show False using use_effect [OF u2 _ rm(4)] by blast
qed

definition toy_request :: http_request where
  "toy_request = client_request (toy_fields ''1'') ''GET'' ''/''"

definition toy_used :: authenticator where
  "toy_used = toy_auth\<lparr>au_seen := [(make_nonce toy_env toy_auth 5, \<lparr>nu_first = 7, nu_used = [use_key ''1'' ''x'']\<rparr>)]\<rparr>"

lemma toy_first: "check_auth toy_env [toy_user] 7 toy_request toy_auth = Some (\<lparr>aa_user = Some toy_user, aa_stale = False\<rparr>, toy_used)"
  using client_answer [of toy_env 5 7 toy_auth "[toy_user]" "''ann''" toy_user "''GET''" "''/''" "''1''" "''x''" "toy_fields ''1''",
      OF _ _ _ _ _ _ _ toy_answers]
  by (simp add: toy_env_def toy_auth_def toy_user_def toy_request_def toy_used_def newAuthenticator_def nonceTTL_def maxNonces_def
      lookup_user_def use_nonce_def Let_def maxUsesPerNonce_def)

lemma toy_second: "\<exists>ans b. check_auth toy_env [toy_user] 8 toy_request toy_used = Some (ans, b)"
proof -
  have n: "make_nonce toy_env toy_used 5 = make_nonce toy_env toy_auth 5" "au_realm toy_used = au_realm toy_auth"
    by (simp_all add: toy_used_def make_nonce_def nonce_mac_def)
  with client_answer [of toy_env 5 8 toy_used "[toy_user]" "''ann''" toy_user "''GET''" "''/''" "''1''" "''x''" "toy_fields ''1''",
      OF _ _ _ _ _ _ _ toy_answers [folded n]] show ?thesis
    by (simp add: toy_env_def toy_auth_def toy_user_def toy_request_def toy_used_def newAuthenticator_def nonceTTL_def
        lookup_user_def use_nonce_def Let_def)
qed

theorem digest_replay_refused_witness:
  "\<exists>ans b. check_auth toy_env [toy_user] 8 toy_request toy_used = Some (ans, b) \<and> aa_user ans = None"
proof -
  obtain ans b where r2: "check_auth toy_env [toy_user] 8 toy_request toy_used = Some (ans, b)" using toy_second by blast
  have use: "digest_use toy_env toy_request = Some (make_nonce toy_env toy_auth 5, ''1'', ''x'')"
    using parse_header [of "toy_fields ''1''"] toy_answers
    by (simp add: digest_use_def Let_def answers_challenge_def toy_request_def client_request_def)
  have room: "roomy toy_env ([] @ (7, [toy_user], toy_request) # [] @ [(8, [toy_user], toy_request)]) toy_auth"
    by (simp add: toy_first r2) (simp add: toy_auth_def newAuthenticator_def toy_used_def drop_expired_def maxNonces_def)
  have "aa_user ans = None"
    by (rule digest_replay_refused [OF _ _ _ _ _ _ _ toy_first use _ _ r2 use _ room])
      (simp_all add: toy_env_def toy_auth_def newAuthenticator_def)
  with r2 show ?thesis by blast
qed

section \<open>The loop of prune, and the memory held\<close>

lemma oldest_member:
  assumes "\<forall>(n, u)\<in>set ts. nu_first u \<le> now" "ts \<noteq> []"
  shows "oldest now ts \<in> fst ` set ts"
proof -
  let ?f = "\<lambda>(n, u) (o', at'). if nu_first u \<le> at' then (n, nu_first u) else (o', at')"
  have f: "fst (fold ?f ts (o', at')) \<in> insert o' (fst ` set ts)" for ts :: replayCache and o' at'
  proof (induction ts arbitrary: o' at')
    case (Cons p ts)
    obtain n u where p: "p = (n, u)" by fastforce
    show ?case using Cons.IH [of n "nu_first u"] Cons.IH [of o' at'] by (auto simp: p)
  qed simp
  obtain n u r where "ts = (n, u) # r" using assms(2) by (cases ts) auto
  with assms(1) f [of r n "nu_first u"] show ?thesis by (simp add: oldest_def)
qed

lemma prune_oldest_total:
  assumes visit: "\<forall>t. set (visit t) = set t" and "table_ok t" "\<forall>(n, u)\<in>set t. nu_first u \<le> now"
  shows "\<exists>t'. prune_oldest visit now t = Some t' \<and> table_ok t' \<and> set t' \<subseteq> set t \<and> length t' < maxNonces"
  using assms(2,3)
proof (induction "length t" arbitrary: t rule: less_induct)
  case less
  show ?case
  proof (cases "length t < maxNonces")
    case True
    with less.prems show ?thesis by (auto simp: prune_oldest.simps)
  next
    case False
    have s: "set (visit t) = set t" using visit by simp
    let ?o = "oldest now (visit t)"
    have "t \<noteq> []" using False by (auto simp: maxNonces_def)
    with s have "?o \<in> fst ` set (visit t)" using less.prems(2) by (intro oldest_member) auto
    then have "?o \<in> set (tkeys t)" by (simp add: s tkeys_def)
    then have "length (tdel ?o t) < length t" by (rule length_tdel_less)
    from less.hyps [OF this] obtain t' where "prune_oldest visit now (tdel ?o t) = Some t'" "table_ok t'"
        "set t' \<subseteq> set (tdel ?o t)" "length t' < maxNonces"
      using less.prems by (auto simp: set_tdel)
    moreover from False have "prune_oldest visit now t = prune_oldest visit now (tdel ?o t)" by (subst prune_oldest.simps) simp
    ultimately show ?thesis by (auto simp: set_tdel)
  qed
qed

definition cache_ok :: "instant \<Rightarrow> replayCache \<Rightarrow> bool" where
  "cache_ok now t = (table_ok t \<and> length t \<le> maxNonces \<and>
     (\<forall>(n, u)\<in>set t. nu_first u \<le> now \<and> length (nu_used u) \<le> maxUsesPerNonce))"

lemma cache_ok_put:
  "cache_ok now t \<Longrightarrow> length t < maxNonces \<or> n \<in> set (tkeys t) \<Longrightarrow> nu_first u \<le> now \<Longrightarrow> length (nu_used u) \<le> maxUsesPerNonce \<Longrightarrow>
   cache_ok now (tput n u t)"
  using set_tput_subset [of n u t] by (fastforce simp: cache_ok_def length_tput)

lemma use_total:
  assumes visit: "\<forall>t. set (visit t) = set t" and ok: "cache_ok now t"
  shows "\<exists>x t'. use_nonce visit n nc cnonce now t = Some (x, t') \<and> cache_ok now t'"
proof (cases "tget t n")
  case (Some u)
  then have "(n, u) \<in> set t" "n \<in> set (tkeys t)" by (simp_all add: tget_Some_mem tget_Some_key)
  then have "nu_first u \<le> now" using ok by (auto simp: cache_ok_def)
  with ok Some \<open>n \<in> set (tkeys t)\<close> show ?thesis
    by (auto simp: use_nonce_def Let_def intro!: cache_ok_put)
next
  case None
  have d: "table_ok (drop_expired now t)" "\<forall>(n, u)\<in>set (drop_expired now t). nu_first u \<le> now"
    using ok by (auto simp: drop_expired_def cache_ok_def table_ok_filter)
  obtain t' where t': "prune visit now t = Some t'" "table_ok t'" "set t' \<subseteq> set (drop_expired now t)" "length t' < maxNonces"
    using prune_oldest_total [OF visit d] by (auto simp: prune_def)
  obtain b where b: "(if maxNonces \<le> length t then prune visit now t else Some t) = Some b" "cache_ok now b" "length b < maxNonces"
  proof (cases "maxNonces \<le> length t")
    case True
    have "cache_ok now t'" using t' ok unfolding cache_ok_def drop_expired_def by auto
    with True t' show ?thesis by (intro that [of t']) simp_all
  qed (use ok in \<open>auto intro: that\<close>)
  then show ?thesis unfolding use_nonce_def None option.case b(1)
    by (auto simp: Let_def maxUsesPerNonce_def intro!: cache_ok_put)
qed

lemma checkDigest_None:
  "checkDigest env us now r h a = None \<Longrightarrow> \<exists>n nc cnonce. use_nonce (map_visit env) n nc cnonce now (au_seen a) = None"
  unfolding checkDigest_def Let_def by (auto split: option.splits prod.splits if_splits)

lemma check_auth_None:
  "check_auth env us now r a = None \<Longrightarrow> \<exists>n nc cnonce. use_nonce (map_visit env) n nc cnonce now (au_seen a) = None"
  unfolding check_auth_def Let_def by (auto split: option.splits prod.splits if_splits dest: checkDigest_None)

lemma check_total:
  assumes "\<forall>t. set (map_visit env t) = set t" "cache_ok now (au_seen a)"
  shows "\<exists>ans b. check_auth env us now r a = Some (ans, b) \<and> cache_ok now (au_seen b)"
proof -
  have "check_auth env us now r a \<noteq> None"
  proof
    assume "check_auth env us now r a = None"
    then obtain n nc cnonce where "use_nonce (map_visit env) n nc cnonce now (au_seen a) = None" using check_auth_None by blast
    with use_total [OF assms, of n nc cnonce] show False by simp
  qed
  then obtain ans b where c: "check_auth env us now r a = Some (ans, b)" by auto
  have "cache_ok now (au_seen b)"
  proof (cases "au_seen b = au_seen a")
    case False
    then obtain n nc cnonce x where "use_nonce (map_visit env) n nc cnonce now (au_seen a) = Some (x, au_seen b)"
      using check_auth_effect [OF c] by blast
    with use_total [OF assms, of n nc cnonce] show ?thesis by auto
  qed (use assms in simp)
  with c show ?thesis by blast
qed

lemma cache_ok_later: "cache_ok now t \<Longrightarrow> now \<le> later \<Longrightarrow> cache_ok later t"
  unfolding cache_ok_def by fastforce

lemma run_total:
  assumes "\<forall>t. set (map_visit env t) = set t" "sorted (t # map fst ops)" "cache_ok t (au_seen a)"
  shows "\<exists>b t'. auth_run env ops a = Some b \<and> cache_ok t' (au_seen b)"
  using assms(2,3)
proof (induction ops arbitrary: a t)
  case (Cons op ops)
  obtain now us r where op: "op = (now, us, r)" by (metis prod_cases3)
  from Cons.prems op have "cache_ok now (au_seen a)" by (auto intro: cache_ok_later)
  from check_total [OF assms(1) this] obtain ans b where b: "check_auth env us now r a = Some (ans, b)" "cache_ok now (au_seen b)" by blast
  from Cons.IH [of now b] Cons.prems(1) b op show ?case by auto
qed auto

text \<open>Every request gets an answer, and the memory is bounded: as long as the clock does not go back, the
  loop that makes room for a new nonce ends, whatever order the map is visited in, at most 4096 nonces
  are held, and at most 1024 uses of each.\<close>

theorem digest_always_answers:
  assumes "\<forall>t. set (map_visit env t) = set t" "sorted (map fst ops)"
  shows "\<exists>a. auth_run env ops (newAuthenticator scheme realm key op) = Some a \<and> length (au_seen a) \<le> maxNonces \<and>
    (\<forall>(n, u)\<in>set (au_seen a). length (nu_used u) \<le> maxUsesPerNonce)"
proof (cases ops)
  case (Cons o' r)
  have "cache_ok (fst o') (au_seen (newAuthenticator scheme realm key op))" by (simp add: cache_ok_def newAuthenticator_def)
  moreover have "sorted (fst o' # map fst ops)" using assms(2) by (simp add: Cons)
  ultimately show ?thesis using run_total [OF assms(1)] by (fastforce simp: cache_ok_def)
qed (simp add: newAuthenticator_def)

theorem digest_always_answers_witness:
  "\<exists>a. auth_run toy_env [(7, [toy_user], toy_request), (8, [toy_user], toy_request)] toy_auth = Some a \<and>
     length (au_seen a) \<le> maxNonces \<and> (\<forall>(n, u)\<in>set (au_seen a). length (nu_used u) \<le> maxUsesPerNonce)"
  unfolding toy_auth_def by (rule digest_always_answers) (simp_all add: toy_env_def)

section \<open>Signing in\<close>

lemma check_auth_use:
  assumes "check_auth env us now r a = Some (ans, b)"
  shows "au_seen b = au_seen a \<or> (\<exists>n nc cnonce x. digest_use env r = Some (n, nc, cnonce) \<and>
    use_nonce (map_visit env) n nc cnonce now (au_seen a) = Some (x, au_seen b))"
proof -
  have d: "checkDigest env us now r (drop 7 (rq_Authorization r)) a = Some (q, b) \<Longrightarrow> ?thesis" for q
    by (auto simp: checkDigest_def digest_use_def Let_def split: option.splits prod.splits if_splits)
  show ?thesis using assms d by (auto simp: check_auth_def Let_def split: if_splits option.splits prod.splits)
qed

text \<open>What a list of requests has used of a nonce.\<close>

definition uses_of :: "crypto_env \<Rightarrow> nonce \<Rightarrow> auth_op list \<Rightarrow> string list" where
  "uses_of env n ops = concat (map (\<lambda>(t, us, r). case digest_use env r of
     None \<Rightarrow> [] | Some (m, nc, cnonce) \<Rightarrow> if m = n then [use_key nc cnonce] else []) ops)"

definition within :: "nonce \<Rightarrow> string list \<Rightarrow> replayCache \<Rightarrow> bool" where
  "within n ks t = (\<forall>u. tget t n = Some u \<longrightarrow> set (nu_used u) \<subseteq> set ks \<and> length (nu_used u) \<le> length ks)"

lemma within_more: "within n ks t \<Longrightarrow> within n (ks @ ls) t"
  by (fastforce simp: within_def)

lemma use_within:
  assumes visit: "\<forall>t. set (visit t) = set t" and ok: "cache_ok now t" and "within n ks t"
    and "use_nonce visit m nc cnonce now t = Some (x, t')"
  shows "within n (ks @ (if m = n then [use_key nc cnonce] else [])) t'"
proof (cases "tget t m")
  case (Some u)
  then show ?thesis using assms(3,4)
    by (fastforce simp: use_nonce_def Let_def within_def split: if_splits)
next
  case None
  have d: "table_ok (drop_expired now t)" "\<forall>(n, u)\<in>set (drop_expired now t). nu_first u \<le> now"
    using ok by (auto simp: drop_expired_def cache_ok_def table_ok_filter)
  obtain b where b: "(if maxNonces \<le> length t then prune visit now t else Some t) = Some b" "table_ok b" "set b \<subseteq> set t"
  proof (cases "maxNonces \<le> length t")
    case True
    from prune_oldest_total [OF visit d] obtain t' where "prune visit now t = Some t'" "table_ok t'" "set t' \<subseteq> set (drop_expired now t)"
      by (auto simp: prune_def)
    with True show ?thesis by (intro that [of t']) (auto simp: drop_expired_def)
  next
    case False
    with ok show ?thesis by (intro that [of t]) (simp_all add: cache_ok_def)
  qed
  from assms(4) have t': "t' = tput m \<lparr>nu_first = now, nu_used = [use_key nc cnonce]\<rparr> (tput m \<lparr>nu_first = now, nu_used = []\<rparr> b)"
    unfolding use_nonce_def None option.case b(1) by (simp add: Let_def maxUsesPerNonce_def)
  have "tget t n = Some u" if "tget b n = Some u" for u
    using tget_Some_mem [OF that] b(3) ok by (simp add: cache_ok_def tget_def map_of_eq_Some_iff subset_iff table_ok_def tkeys_def)
  then have "within n ks b" using assms(3) by (auto simp: within_def)
  with t' show ?thesis by (fastforce simp: within_def)
qed

lemma run_within:
  assumes "\<forall>t. set (map_visit env t) = set t" "auth_run env ops a = Some b" "sorted (t # map fst ops)" "cache_ok t (au_seen a)"
    "within n ks (au_seen a)"
  shows "within n (ks @ uses_of env n ops) (au_seen b) \<and> same_auth a b \<and> cache_ok (last (t # map fst ops)) (au_seen b)"
  using assms(2-5)
proof (induction ops arbitrary: a t ks)
  case Nil
  then show ?case by (simp add: uses_of_def same_auth_def)
next
  case (Cons op ops)
  obtain now us r where op: "op = (now, us, r)" by (metis prod_cases3)
  from Cons.prems(1) op obtain ans c where c: "check_auth env us now r a = Some (ans, c)" "auth_run env ops c = Some b"
    by (auto split: option.splits)
  from Cons.prems(2,3) op have k: "cache_ok now (au_seen a)" by (auto intro: cache_ok_later)
  let ?u = "uses_of env n [op]"
  have w: "within n (ks @ ?u) (au_seen c)"
  proof (cases "au_seen c = au_seen a")
    case False
    then obtain m nc cnonce x where "digest_use env r = Some (m, nc, cnonce)"
      "use_nonce (map_visit env) m nc cnonce now (au_seen a) = Some (x, au_seen c)"
      using check_auth_use [OF c(1)] by blast
    with use_within [OF assms(1) k Cons.prems(4)] show ?thesis by (simp add: uses_of_def op)
  qed (use within_more [OF Cons.prems(4)] in simp)
  have ck: "cache_ok now (au_seen c)" using check_total [OF assms(1) k, of us r] c(1) by auto
  have "same_auth a c" using check_auth_effect [OF c(1)] by blast
  moreover have "sorted (now # map fst ops)" using Cons.prems(2) by (simp add: op)
  note Cons.IH [OF c(2) this ck w]
  moreover have "uses_of env n (op # ops) = ?u @ uses_of env n ops" by (simp add: uses_of_def)
  ultimately show ?case using same_auth_trans by (fastforce simp: op)
qed

lemma fresh_use:
  assumes "\<forall>t. set (visit t) = set t" "cache_ok now t" "within n ks t" "use_key nc cnonce \<notin> set ks" "length ks < maxUsesPerNonce"
  shows "\<exists>t'. use_nonce visit n nc cnonce now t = Some (Fresh, t')"
proof (cases "tget t n")
  case (Some u)
  with assms(3-5) have "use_key nc cnonce \<notin> set (nu_used u)" "\<not> maxUsesPerNonce \<le> length (nu_used u)" by (auto simp: within_def)
  with Some show ?thesis by (simp add: use_nonce_def Let_def)
next
  case None
  from use_total [OF assms(1,2)] obtain x t' where u: "use_nonce visit n nc cnonce now t = Some (x, t')" by blast
  with None show ?thesis by (auto simp: use_nonce_def Let_def maxUsesPerNonce_def split: option.splits)
qed

text \<open>C37. A client that knows the password of a user signs in, after any requests to the camera, while the clock does not
  go back: with the nonce of a challenge that is not older than five minutes, any method and target, and a counter and client
  nonce not sent with that nonce before, of which fewer than 1024 requests were, the header it sends, its values quoted or
  not and in any order, is read, its response is the one the camera expects, and the user is that one.\<close>

theorem digest_signs_in:
  assumes "\<And>k m. length (hmac_sum env k m) = 32" "\<forall>t. set (map_visit env t) = set t"
    and "auth_run env ops (newAuthenticator SchemeDigest realm key opq) = Some a" "sorted (map fst ops @ [now])"
    and "0 \<le> t0" "t0 < 2 ^ 63" "now - t0 \<le> nonceTTL" "nonce = make_nonce env a t0"
    and "use_key nc cnonce \<notin> set (uses_of env nonce ops)" "length (uses_of env nonce ops) < maxUsesPerNonce"
    and "lookup_user us name = Some u" "name \<noteq> []"
    and "answers_challenge env name (au_realm a) (eu_Password u) meth uri nonce nc cnonce fs"
  shows "\<exists>a'. check_auth env us now (client_request fs meth uri) a = Some (\<lparr>aa_user = Some u, aa_stale = False\<rparr>, a')"
proof -
  let ?new = "newAuthenticator SchemeDigest realm key opq"
  define t where "t = hd (map fst ops @ [now])"
  have new: "au_seen ?new = []" by (simp add: newAuthenticator_def)
  have s1: "sorted (t # map fst ops)" using assms(4) by (cases ops) (simp_all add: t_def sorted_append)
  have s2: "last (t # map fst ops) \<le> now" using assms(4) by (cases ops rule: rev_cases) (simp_all add: t_def sorted_append)
  have "cache_ok t (au_seen ?new)" "within nonce [] (au_seen ?new)" by (simp_all add: new cache_ok_def within_def)
  from run_within [OF assms(2,3) s1 this]
  have w: "within nonce (uses_of env nonce ops) (au_seen a)" and e: "same_auth ?new a"
    and "cache_ok (last (t # map fst ops)) (au_seen a)" by simp_all
  from this(3) s2 have k: "cache_ok now (au_seen a)" by (rule cache_ok_later)
  from fresh_use [OF assms(2) k w assms(9,10)]
  obtain t' where "use_nonce (map_visit env) nonce nc cnonce now (au_seen a) = Some (Fresh, t')" by blast
  moreover have "au_scheme a = SchemeDigest" using e by (cases a) (simp add: same_auth_def newAuthenticator_def)
  note client_answer [OF assms(1,5-7) this assms(11,12) assms(13) [unfolded assms(8)]]
  ultimately show ?thesis by (simp add: assms(8))
qed

text \<open>The same client again, after its first request, with the next counter.\<close>

theorem digest_signs_in_witness:
  "\<exists>a'. check_auth toy_env [toy_user] 8 (client_request (toy_fields ''2'') ''GET'' ''/'') toy_used =
    Some (\<lparr>aa_user = Some toy_user, aa_stale = False\<rparr>, a')"
proof -
  have r: "auth_run toy_env [(7, [toy_user], toy_request)] (newAuthenticator SchemeDigest [] ''key'' ''opaque'') = Some toy_used"
    using toy_first by (simp add: toy_auth_def)
  let ?n = "make_nonce toy_env toy_used 5"
  have n: "?n = make_nonce toy_env toy_auth 5" "au_realm toy_used = ''IPCamera''"
    by (simp_all add: toy_used_def make_nonce_def nonce_mac_def toy_auth_def newAuthenticator_def)
  have u: "uses_of toy_env ?n [(7, [toy_user], toy_request)] = [use_key ''1'' ''x'']"
    using parse_header [of "toy_fields ''1''"] toy_answers
    by (simp add: uses_of_def digest_use_def Let_def answers_challenge_def toy_request_def client_request_def n)
  have "plain_value ''2''" by (simp add: plain_value_def trimmed_def space_seqs_def has_prefix_def has_suffix_def)
  then have c: "answers_challenge toy_env ''ann'' (au_realm toy_used) (eu_Password toy_user) ''GET'' ''/'' ?n ''2'' ''x'' (toy_fields ''2'')"
    using toy_names toy_plain by (simp add: n) (simp add: answers_challenge_def toy_fields_def value_in_def toy_user_def)
  show ?thesis
    by (rule digest_signs_in [OF _ _ r _ _ _ _ refl _ _ _ _ c]; (subst u)?)
      (simp_all add: use_key_def maxUsesPerNonce_def toy_env_def nonceTTL_def toy_user_def lookup_user_def)
qed

end
