(* ===== verification/Profile_Model.thy ===== *)
theory Profile_Model
  imports Go_Float Domain_Users
begin

text \<open>
  Parameters and streams of a profile, \<^verbatim>\<open>backend/internal/profile/document.go\<close> and \<^verbatim>\<open>model.go\<close>: what
  values a parameter takes, and the stream settings that follow from the values of a camera.
  Formatting and parsing of floating-point numbers that are not small integers, and the lower case of
  non-ASCII letters, are parameters.
\<close>

section \<open>Values and parameters\<close>

text \<open>What an \<^verbatim>\<open>any\<close> holds: \<open>GInt\<close> is an \<^verbatim>\<open>int64\<close>, \<open>GGoInt\<close> an \<^verbatim>\<open>int\<close>, \<open>GNum\<close> a \<^verbatim>\<open>json.Number\<close> and
  \<open>GOther\<close> anything else, with its printed form.\<close>

datatype gval =
    GNil
  | GBool bool
  | GStr string
  | GInt int
  | GGoInt int
  | GFloat float64
  | GNum string
  | GOther string

datatype param_type = TypeString | TypeInt | TypeFloat | TypeBool | TypeEnum | TypeOther string

record param =
  pa_Type :: param_type
  pa_Default :: gval
  pa_Values :: "gval list"
  pa_Min :: "float64 option"
  pa_Max :: "float64 option"
  pa_MaxLength :: int
  pa_Bind :: string

record stream_default =
  sd_Codec :: string
  sd_Resolution :: string
  sd_FPS :: int
  sd_Bitrate :: int
  sd_GOP :: int

record int_range =
  ra_Min :: int
  ra_Max :: int

record stream_spec =
  st_Codecs :: "string list"
  st_Resolutions :: "string list"
  st_FPS :: "int_range option"
  st_Bitrate :: "int_range option"
  st_Default :: stream_default

record value_env =
  sprint_float :: "float64 \<Rightarrow> string"
  parse_float :: "string \<Rightarrow> float64 option"
  low :: "rune \<Rightarrow> rune"

text \<open>
  \<^verbatim>\<open>fmt.Sprint\<close>. A float prints as \<^verbatim>\<open>%g\<close> with the shortest digits: an integer below a million as its
  decimal digits, one from a million to \<open>2 ^ 53\<close> as its digits without trailing zeros and the
  exponent of ten.
\<close>

definition drop_zeros :: "string \<Rightarrow> string" where
  "drop_zeros s = rev (dropWhile (\<lambda>c. c = CHR ''0'') (rev s))"

definition exponent_form :: "nat \<Rightarrow> string" where
  "exponent_form n =
    (let d = nat_str n; m = drop_zeros d; e = length d - 1 in
     take 1 m @ (if length m \<le> 1 then [] else CHR ''.'' # drop 1 m) @ ''e+'' @ (if e < 10 then ''0'' else '''') @ nat_str e)"

definition sprint_g :: "value_env \<Rightarrow> float64 \<Rightarrow> string" where
  "sprint_g env x =
    (if x = of_int \<lfloor>x\<rfloor> \<and> \<bar>x\<bar> < 2 ^ 53
     then (let i = \<lfloor>x\<rfloor> in
           if \<bar>i\<bar> < 1000000 then itoa i
           else (if i < 0 then ''-'' else '''') @ exponent_form (nat \<bar>i\<bar>))
     else sprint_float env x)"

definition sprint :: "value_env \<Rightarrow> gval \<Rightarrow> string" where
  "sprint env v =
    (case v of
       GNil \<Rightarrow> ''<nil>''
     | GBool b \<Rightarrow> (if b then ''true'' else ''false'')
     | GStr s \<Rightarrow> s
     | GInt i \<Rightarrow> itoa i
     | GGoInt i \<Rightarrow> itoa i
     | GFloat x \<Rightarrow> sprint_g env x
     | GNum s \<Rightarrow> s
     | GOther s \<Rightarrow> s)"

section \<open>Conversion to the type of a parameter\<close>

datatype coerce_error =
    MustBeString | TooLong int | HasControl | NotInteger | NotNumber | NotBool
  | BelowMin float64 | AboveMax float64 | NotOneOf "string list" | UnknownType string

definition checkRange :: "param \<Rightarrow> float64 \<Rightarrow> coerce_error option" where
  "checkRange p f =
    (case pa_Min p of
       Some m \<Rightarrow> if f < m then Some (BelowMin m)
                 else (case pa_Max p of Some x \<Rightarrow> if x < f then Some (AboveMax x) else None | None \<Rightarrow> None)
     | None \<Rightarrow> (case pa_Max p of Some x \<Rightarrow> if x < f then Some (AboveMax x) else None | None \<Rightarrow> None))"

definition int_text :: "string \<Rightarrow> (coerce_error, int) result" where
  "int_text s = (case parse_int64 (trim_space s) of None \<Rightarrow> Inl NotInteger | Some i \<Rightarrow> Inr i)"

definition toInt :: "gval \<Rightarrow> (coerce_error, int) result" where
  "toInt v =
    (case v of
       GInt i \<Rightarrow> Inr i
     | GGoInt i \<Rightarrow> Inr i
     | GFloat x \<Rightarrow> (if x \<noteq> of_int \<lfloor>x\<rfloor> \<or> 2 ^ 53 < \<bar>x\<bar> then Inl NotInteger else Inr \<lfloor>x\<rfloor>)
     | GNum s \<Rightarrow> int_text s
     | GStr s \<Rightarrow> int_text s
     | _ \<Rightarrow> Inl NotInteger)"

definition float_text :: "value_env \<Rightarrow> string \<Rightarrow> (coerce_error, float64) result" where
  "float_text env s = (case parse_float env (trim_space s) of None \<Rightarrow> Inl NotNumber | Some x \<Rightarrow> Inr x)"

definition toFloat :: "value_env \<Rightarrow> gval \<Rightarrow> (coerce_error, float64) result" where
  "toFloat env v =
    (case v of
       GFloat x \<Rightarrow> Inr x
     | GInt i \<Rightarrow> Inr (float_of_int i)
     | GGoInt i \<Rightarrow> Inr (float_of_int i)
     | GNum s \<Rightarrow> float_text env s
     | GStr s \<Rightarrow> float_text env s
     | _ \<Rightarrow> Inl NotNumber)"

definition toBool :: "value_env \<Rightarrow> gval \<Rightarrow> (coerce_error, bool) result" where
  "toBool env v =
    (case v of
       GBool b \<Rightarrow> Inr b
     | GStr s \<Rightarrow>
         (let t = to_lower (low env) (trim_space s) in
          if t \<in> set [''true'', ''1'', ''on'', ''yes'', ''enable'', ''enabled''] then Inr True
          else if t \<in> set [''false'', ''0'', ''off'', ''no'', ''disable'', ''disabled''] then Inr False
          else Inl NotBool)
     | GInt i \<Rightarrow> Inr (i \<noteq> 0)
     | _ \<Rightarrow> Inl NotBool)"

definition sameValue :: "value_env \<Rightarrow> gval \<Rightarrow> gval \<Rightarrow> bool" where
  "sameValue env option v = (sprint env option = sprint env v)"

definition Coerce :: "value_env \<Rightarrow> param \<Rightarrow> gval \<Rightarrow> (coerce_error, gval) result" where
  "Coerce env p v =
    (case pa_Type p of
       TypeString \<Rightarrow>
         (case v of
            GStr s \<Rightarrow>
              (if 0 < pa_MaxLength p \<and> pa_MaxLength p < int (rune_count s) then Inl (TooLong (pa_MaxLength p))
               else if list_ex (\<lambda>c. c \<in> set [CHR 0x00, CHR 0x0D, CHR 0x0A]) s then Inl HasControl
               else Inr (GStr s))
          | _ \<Rightarrow> Inl MustBeString)
     | TypeInt \<Rightarrow>
         (case toInt v of
            Inl e \<Rightarrow> Inl e
          | Inr i \<Rightarrow> (case checkRange p (float_of_int i) of Some e \<Rightarrow> Inl e | None \<Rightarrow> Inr (GInt i)))
     | TypeFloat \<Rightarrow>
         (case toFloat env v of
            Inl e \<Rightarrow> Inl e
          | Inr x \<Rightarrow> (case checkRange p x of Some e \<Rightarrow> Inl e | None \<Rightarrow> Inr (GFloat x)))
     | TypeBool \<Rightarrow> (case toBool env v of Inl e \<Rightarrow> Inl e | Inr b \<Rightarrow> Inr (GBool b))
     | TypeEnum \<Rightarrow>
         (case List.find (\<lambda>a. sameValue env a v) (pa_Values p) of
            Some a \<Rightarrow> Inr a
          | None \<Rightarrow> Inl (NotOneOf (map (sprint env) (pa_Values p))))
     | TypeOther t \<Rightarrow> Inl (UnknownType t))"

definition CheckValue :: "value_env \<Rightarrow> param \<Rightarrow> gval \<Rightarrow> coerce_error option" where
  "CheckValue env p v = (case Coerce env p v of Inl e \<Rightarrow> Some e | Inr _ \<Rightarrow> None)"

section \<open>The model of a profile\<close>

text \<open>The parts of a document the model reads. Tables stand for Go maps in the order of a visit; the order
  matters to \<open>NewModel\<close> only when two parameters have the same binding, which the lint refuses.\<close>

record profile_doc =
  pd_State :: "(string, param) table"
  pd_Streams :: "(string, stream_spec) table"

definition NewModel :: "profile_doc \<Rightarrow> (string, string) table" where
  "NewModel doc = fold (\<lambda>(key, p) binds. if pa_Bind p \<noteq> [] then tput (pa_Bind p) key binds else binds) (pd_State doc) []"

definition NativeFor :: "profile_doc \<Rightarrow> string \<Rightarrow> string option" where
  "NativeFor doc canonical = tget (NewModel doc) canonical"

definition Defaults :: "profile_doc \<Rightarrow> (string, gval) table" where
  "Defaults doc = map (\<lambda>(k, p). (k, pa_Default p)) (pd_State doc)"

definition default_of :: "profile_doc \<Rightarrow> string \<Rightarrow> gval" where
  "default_of doc key = (case tget (pd_State doc) key of None \<Rightarrow> GNil | Some p \<Rightarrow> pa_Default p)"

definition stream_field :: "stream_default \<Rightarrow> string \<Rightarrow> gval option" where
  "stream_field d f =
    (if f = ''codec'' then Some (GStr (sd_Codec d))
     else if f = ''resolution'' then Some (GStr (sd_Resolution d))
     else if f = ''fps'' then Some (GInt (sd_FPS d))
     else if f = ''bitrate'' then Some (GInt (sd_Bitrate d))
     else if f = ''gop'' then Some (GInt (sd_GOP d))
     else None)"

definition Canon :: "profile_doc \<Rightarrow> string \<Rightarrow> (string, gval) table \<Rightarrow> gval option" where
  "Canon doc key values =
    (case tget (NewModel doc) key of
       Some native \<Rightarrow>
         Some (case tget values native of Some v \<Rightarrow> v | None \<Rightarrow> default_of doc native)
     | None \<Rightarrow>
         (case split_on (CHR ''.'') key of
            [a, b, c] \<Rightarrow>
              (if a = ''media''
               then (case tget (pd_Streams doc) b of None \<Rightarrow> None | Some s \<Rightarrow> stream_field (st_Default s) c)
               else None)
          | _ \<Rightarrow> None))"

record StreamSettings =
  ss_Codec :: string
  ss_Width :: int
  ss_Height :: int
  ss_FPS :: int
  ss_GOP :: int
  ss_Bitrate :: int

datatype stream_error = NoStream string | BadResolution string | CodecUnsupported string string

definition or_zero :: "(coerce_error, int) result \<Rightarrow> int" where
  "or_zero r = (case r of Inl e \<Rightarrow> 0 | Inr i \<Rightarrow> i)"

definition StreamFor :: "value_env \<Rightarrow> profile_doc \<Rightarrow> string \<Rightarrow> (string, gval) table \<Rightarrow> (stream_error, StreamSettings) result" where
  "StreamFor env doc stream values =
    (case tget (pd_Streams doc) stream of
       None \<Rightarrow> Inl (NoStream stream)
     | Some s \<Rightarrow>
         (let get = (\<lambda>f. case Canon doc (''media.'' @ stream @ ''.'' @ f) values of None \<Rightarrow> GNil | Some v \<Rightarrow> v);
              codec = sprint env (get ''codec'');
              res = sprint env (get ''resolution'') in
          case cut (CHR ''x'') res of
            None \<Rightarrow> Inl (BadResolution res)
          | Some (w, h) \<Rightarrow>
              (case (parse_int64 w, parse_int64 h) of
                 (Some width, Some height) \<Rightarrow>
                   (let fps0 = or_zero (toInt (get ''fps'')); fps = (if fps0 \<le> 0 then 15 else fps0);
                        rate0 = or_zero (toInt (get ''bitrate'')); rate = (if rate0 \<le> 0 then 2048 else rate0);
                        gop0 = or_zero (toInt (get ''gop'')); gop = (if gop0 \<le> 0 then wrap64 (2 * fps) else gop0);
                        codec = (if sd_Codec (st_Default s) = [] then ''h264'' else codec) in
                    if codec \<notin> set (st_Codecs s) then Inl (CodecUnsupported stream codec)
                    else Inr \<lparr>ss_Codec = codec, ss_Width = width, ss_Height = height, ss_FPS = fps,
                              ss_GOP = (if codec = ''mjpeg'' then 1 else gop), ss_Bitrate = rate\<rparr>)
               | _ \<Rightarrow> Inl (BadResolution res))))"

section \<open>The parameters of a camera\<close>

text \<open>
  A row of \<^verbatim>\<open>camera_state\<close> keeps a value as JSON. Reading it back gives what \<^verbatim>\<open>json.Unmarshal\<close> gives for
  an \<^verbatim>\<open>any\<close>: every number is a \<^verbatim>\<open>float64\<close>, and a text that does not parse is skipped.
\<close>

record state_row =
  sr_Key :: string
  sr_Value :: string
  sr_Origin :: string

definition json_back :: "gval \<Rightarrow> gval" where
  "json_back v =
    (case v of
       GInt i \<Rightarrow> GFloat (float_of_int i)
     | GGoInt i \<Rightarrow> GFloat (float_of_int i)
     | _ \<Rightarrow> v)"

definition camera_values ::
  "value_env \<Rightarrow> (string \<Rightarrow> gval option) \<Rightarrow> profile_doc \<Rightarrow> state_row list \<Rightarrow> (string, gval) table" where
  "camera_values env unmarshal doc rows =
    fold (\<lambda>r out.
      case unmarshal (sr_Value r) of
        None \<Rightarrow> out
      | Some v \<Rightarrow>
          (case tget (pd_State doc) (sr_Key r) of
             None \<Rightarrow> out
           | Some p \<Rightarrow> (case Coerce env p v of Inl e \<Rightarrow> out | Inr cv \<Rightarrow> tput (sr_Key r) cv out)))
      rows (Defaults doc)"

text \<open>\<^verbatim>\<open>UpdateCameraConfig\<close> checks every change before it stores any; \<^verbatim>\<open>clientChanges\<close> keeps those that pass.
  Both end in \<^verbatim>\<open>persistChanges\<close>, which writes one row per key.\<close>

definition upsert_row :: "state_row \<Rightarrow> state_row list \<Rightarrow> state_row list" where
  "upsert_row r rows =
    (if \<exists>q\<in>set rows. sr_Key q = sr_Key r then map (\<lambda>q. if sr_Key q = sr_Key r then r else q) rows else rows @ [r])"

definition persistChanges :: "(gval \<Rightarrow> string) \<Rightarrow> string \<Rightarrow> (string \<times> gval) list \<Rightarrow> state_row list \<Rightarrow> state_row list" where
  "persistChanges marshal origin changes rows =
    fold (\<lambda>(k, v) rows. upsert_row \<lparr>sr_Key = k, sr_Value = marshal v, sr_Origin = origin\<rparr> rows) changes rows"

datatype config_error = UnknownParameter | BadValue coerce_error

datatype update_error = NothingToChange | BadFields "(string \<times> config_error) list"

fun coerce_all ::
  "value_env \<Rightarrow> profile_doc \<Rightarrow> (string \<times> gval) list \<Rightarrow> (string \<times> config_error) list \<times> (string \<times> gval) list" where
  "coerce_all env doc [] = ([], [])"
| "coerce_all env doc ((k, v) # ins) =
    (case coerce_all env doc ins of
       (errs, ok) \<Rightarrow>
         (case tget (pd_State doc) k of
            None \<Rightarrow> ((k, UnknownParameter) # errs, ok)
          | Some p \<Rightarrow>
              (case Coerce env p v of
                 Inl e \<Rightarrow> ((k, BadValue e) # errs, ok)
               | Inr cv \<Rightarrow> (errs, (k, cv) # ok))))"

definition UpdateCameraConfig ::
  "value_env \<Rightarrow> (gval \<Rightarrow> string) \<Rightarrow> profile_doc \<Rightarrow> (string, gval) table \<Rightarrow> state_row list \<Rightarrow> (update_error, state_row list) result" where
  "UpdateCameraConfig env marshal doc ins rows =
    (if ins = [] then Inl NothingToChange
     else case coerce_all env doc ins of
       (errs, ok) \<Rightarrow> if errs \<noteq> [] then Inl (BadFields errs) else Inr (persistChanges marshal ''panel'' ok rows))"

definition maxChanges :: nat where "maxChanges = 256"

definition clientChanges ::
  "value_env \<Rightarrow> (gval \<Rightarrow> string) \<Rightarrow> profile_doc \<Rightarrow> string \<Rightarrow> (string \<times> gval) list \<Rightarrow> state_row list \<Rightarrow> state_row list" where
  "clientChanges env marshal doc ip reported rows =
    (case coerce_all env doc (take maxChanges reported) of
       (errs, ok) \<Rightarrow> if ok = [] then rows else persistChanges marshal (''client:'' @ ip) ok rows)"

end
