(* ===== verification/Profile_Lint.thy ===== *)
theory Profile_Lint
  imports Profile_Model Domain_Network Domain_Mask
begin

text \<open>
  The lint of a profile document, \<^verbatim>\<open>backend/internal/profile/validate.go\<close>: the rules on identity,
  parameters, streams and events that the published schema cannot state. A problem keeps its step,
  severity, JSON pointer and message; lines and the sorting by line are not modelled. What the engines
  of the profile say of their own sections is a parameter.
\<close>

section \<open>Problems\<close>

datatype step = StepInheritance | StepLint
datatype severity = SeverityError | SeverityWarning

record problem =
  pb_Step :: step
  pb_Severity :: severity
  pb_Pointer :: string
  pb_Message :: message

definition lint_error :: "string \<Rightarrow> message \<Rightarrow> problem" where
  "lint_error ptr m = \<lparr>pb_Step = StepLint, pb_Severity = SeverityError, pb_Pointer = ptr, pb_Message = m\<rparr>"

definition lint_warning :: "string \<Rightarrow> message \<Rightarrow> problem" where
  "lint_warning ptr m = \<lparr>pb_Step = StepLint, pb_Severity = SeverityWarning, pb_Pointer = ptr, pb_Message = m\<rparr>"

definition problems_OK :: "problem list \<Rightarrow> bool" where
  "problems_OK ps = list_all (\<lambda>p. pb_Severity p \<noteq> SeverityError) ps"

definition err_if :: "bool \<Rightarrow> string \<Rightarrow> message \<Rightarrow> problem list" where
  "err_if b ptr m = (if b then [lint_error ptr m] else [])"

text \<open>\<^verbatim>\<open>escapePointer\<close> of \<^verbatim>\<open>yaml.go\<close>: a tilde and a slash inside a key.\<close>

definition escapePointer :: "string \<Rightarrow> string" where
  "escapePointer s = concat (map (\<lambda>c. if c = CHR ''~'' then ''~0'' else if c = CHR ''/'' then ''~1'' else [c]) s)"

section \<open>Canonical keys\<close>

definition word_in :: "nat \<Rightarrow> (char \<Rightarrow> bool) \<Rightarrow> string \<Rightarrow> bool" where
  "word_in n ok s = (1 \<le> length s \<and> length s \<le> n \<and> list_all ok s)"

definition port_char :: "char \<Rightarrow> bool" where
  "port_char c = (is_lower_c (byte c) \<or> is_digit_c (byte c) \<or> c = CHR ''-'')"

definition event_key_char :: "char \<Rightarrow> bool" where
  "event_key_char c = (is_lower_c (byte c) \<or> is_digit_c (byte c) \<or> c \<in> set ''_:.-'')"

text \<open>The patterns of \<^verbatim>\<open>canonicalPatterns\<close>, on the parts of the key between dots; the name of an event may hold
  dots itself.\<close>

definition event_key :: "string \<Rightarrow> bool" where
  "event_key s =
    (case cut_prefix ''events.'' s of
       None \<Rightarrow> False
     | Some t \<Rightarrow> has_suffix ''.enabled'' t \<and> word_in 64 event_key_char (take (length t - 8) t))"

definition ValidCanonicalKey :: "string \<Rightarrow> bool" where
  "ValidCanonicalKey key =
    (event_key key \<or>
     (case split_on (CHR ''.'') key of
        [a] \<Rightarrow> a = ''users''
      | [a, b] \<Rightarrow>
          a = ''network'' \<and> b \<in> set [''ip'', ''mask'', ''gateway'', ''dhcp'', ''dns''] \<or>
          a = ''ports'' \<and> word_in 32 port_char b \<or>
          a = ''time'' \<and> b \<in> set [''offset'', ''timezone'', ''ntp''] \<or>
          a = ''osd'' \<and> b \<in> set [''enabled'', ''text''] \<or>
          a = ''sd'' \<and> b \<in> set [''quota'', ''overwrite'']
      | [a, b, c] \<Rightarrow>
          a = ''media'' \<and> b \<in> set [''main'', ''sub'', ''third''] \<and>
          c \<in> set [''codec'', ''resolution'', ''fps'', ''bitrate'', ''gop'']
      | _ \<Rightarrow> False))"

section \<open>Streams\<close>

definition MaxMJPEGSize :: nat where "MaxMJPEGSize = 2040"

definition MJPEGFits :: "nat \<Rightarrow> nat \<Rightarrow> bool" where
  "MJPEGFits width height = (width \<le> MaxMJPEGSize \<and> height \<le> MaxMJPEGSize \<and> width mod 8 = 0 \<and> height mod 8 = 0)"

fun indexed :: "nat \<Rightarrow> 'a list \<Rightarrow> (nat \<times> 'a) list" where
  "indexed i [] = []"
| "indexed i (x # xs) = (i, x) # indexed (Suc i) xs"

lemma indexed_mem: "x \<in> set xs \<Longrightarrow> \<exists>i. (i, x) \<in> set (indexed n xs)"
  by (induction xs arbitrary: n) auto

definition lint_resolution :: "string \<Rightarrow> nat \<times> string \<Rightarrow> problem list" where
  "lint_resolution ptr = (\<lambda>(i, r).
    (case ParseResolution r of
       Inl e \<Rightarrow> [lint_error (ptr @ ''/resolutions/'' @ nat_str i) (msgf ''%s: %v'' [AStr r])]
     | Inr _ \<Rightarrow> []))"

definition lint_mjpeg :: "string \<Rightarrow> stream_default \<Rightarrow> nat \<times> string \<Rightarrow> problem list" where
  "lint_mjpeg ptr d = (\<lambda>(i, r).
    (case ParseResolution r of
       Inl e \<Rightarrow> []
     | Inr res \<Rightarrow>
         (if MJPEGFits (res_Width res) (res_Height res) then []
          else if sd_Codec d = ''mjpeg'' \<and> r = sd_Resolution d
          then [lint_error (ptr @ ''/default/resolution'') (msgf ''MJPEG over RTSP carries at most %dx%d; the default %s does not fit'' [AStr r])]
          else [lint_warning (ptr @ ''/resolutions/'' @ nat_str i) (msgf ''%s cannot be streamed as MJPEG; choosing both fails'' [AStr r])])))"

definition out_of :: "int \<Rightarrow> int_range \<Rightarrow> bool" where
  "out_of x r = (x < ra_Min r \<or> (0 < ra_Max r \<and> ra_Max r < x))"

definition lintStream :: "string \<Rightarrow> stream_spec \<Rightarrow> problem list" where
  "lintStream name s =
    (let ptr = ''/media/streams/'' @ name; d = st_Default s in
     concat (map (lint_resolution ptr) (indexed 0 (st_Resolutions s))) @
     err_if (sd_Codec d \<notin> set (st_Codecs s)) (ptr @ ''/default/codec'') (msgf ''default codec %s is not in codecs'' [AStr (sd_Codec d)]) @
     (if ''mjpeg'' \<in> set (st_Codecs s) then concat (map (lint_mjpeg ptr d) (indexed 0 (st_Resolutions s))) else []) @
     err_if (sd_Resolution d \<notin> set (st_Resolutions s)) (ptr @ ''/default/resolution'')
       (msgf ''default resolution %s is not in resolutions'' [AStr (sd_Resolution d)]) @
     (case st_FPS s of None \<Rightarrow> [] | Some r \<Rightarrow>
        err_if (out_of (sd_FPS d) r) (ptr @ ''/default/fps'') (msgf ''default fps %d is outside %d-%d'' [AInt (sd_FPS d), AInt (ra_Min r), AInt (ra_Max r)])) @
     (case st_Bitrate s of None \<Rightarrow> [] | Some r \<Rightarrow>
        err_if (0 < sd_Bitrate d \<and> out_of (sd_Bitrate d) r) (ptr @ ''/default/bitrate'')
          (msgf ''default bitrate %d is outside %d-%d'' [AInt (sd_Bitrate d), AInt (ra_Min r), AInt (ra_Max r)])))"

section \<open>Parameters\<close>

definition text_of :: "gval \<Rightarrow> string" where
  "text_of v = (case v of GStr s \<Rightarrow> s | _ \<Rightarrow> [])"

definition lintBind :: "profile_doc \<Rightarrow> string \<Rightarrow> param \<Rightarrow> string \<Rightarrow> problem list" where
  "lintBind doc key p ptr =
    (case split_on (CHR ''.'') (pa_Bind p) of
       [a, b, c] \<Rightarrow>
         (if a \<noteq> ''media'' then []
          else case tget (pd_Streams doc) b of
            None \<Rightarrow> [lint_error (ptr @ ''/bind'') (msgf ''%s binds stream %s, which the profile does not define'' [AStr key, AStr b])]
          | Some stream \<Rightarrow>
              (if c = ''resolution''
               then concat (map (\<lambda>v. err_if (text_of v \<notin> set (st_Resolutions stream)) ptr
                       (msgf ''%s allows %v, which stream %s does not support'' [AStr key, AStr b]))
                     (if pa_Values p = [] then [pa_Default p] else pa_Values p))
               else if c \<in> set [''fps'', ''bitrate'', ''gop'']
               then err_if (pa_Type p \<noteq> TypeInt) (ptr @ ''/type'') (msgf ''%s is bound to %s and must be an int'' [AStr key, AStr (pa_Bind p)])
               else if c = ''codec''
               then err_if (pa_Type p \<noteq> TypeEnum) (ptr @ ''/type'') (msgf ''%s is bound to %s and must be an enum'' [AStr key, AStr (pa_Bind p)]) @
                    concat (map (\<lambda>v. err_if (text_of v \<notin> set (st_Codecs stream)) ptr
                       (msgf ''%s allows codec %v, which stream %s does not support'' [AStr key, AStr b])) (pa_Values p))
               else []))
     | _ \<Rightarrow> [])"

text \<open>One parameter; \<open>binds\<close> are the bindings of the parameters before it.\<close>

definition lint_param ::
  "value_env \<Rightarrow> profile_doc \<Rightarrow> (string, string) table \<Rightarrow> string \<times> param \<Rightarrow> problem list \<times> (string, string) table" where
  "lint_param env doc binds = (\<lambda>(key, p).
    (let ptr = ''/state/'' @ escapePointer key;
         ps = (if pa_Default p = GNil then [lint_error ptr (msgf ''parameter %s has no default'' [AStr key])]
               else (case CheckValue env p (pa_Default p) of
                       None \<Rightarrow> []
                     | Some e \<Rightarrow> [lint_error (ptr @ ''/default'') (msgf ''default of %s: %v'' [AStr key])])) @
              err_if (pa_Type p = TypeEnum \<and> pa_Values p = []) ptr (msgf ''enum parameter %s needs values'' [AStr key]) @
              (case (pa_Min p, pa_Max p) of
                 (Some a, Some b) \<Rightarrow> err_if (b < a) ptr (msg ''min is greater than max'')
               | _ \<Rightarrow> [])
     in if pa_Bind p = [] then (ps, binds)
        else if \<not> ValidCanonicalKey (pa_Bind p)
        then (ps @ [lint_error (ptr @ ''/bind'') (msgf ''unknown canonical key %q'' [AStr (pa_Bind p)])], binds)
        else (case tget binds (pa_Bind p) of
                Some other \<Rightarrow> (ps @ [lint_error (ptr @ ''/bind'') (msgf ''%s is already bound to %s'' [AStr (pa_Bind p), AStr other])], binds)
              | None \<Rightarrow> (ps @ lintBind doc key p ptr, tput (pa_Bind p) key binds))))"

fun lint_params ::
  "value_env \<Rightarrow> profile_doc \<Rightarrow> (string, string) table \<Rightarrow> (string \<times> param) list \<Rightarrow> problem list" where
  "lint_params env doc binds [] = []"
| "lint_params env doc binds (kp # kps) =
    (case lint_param env doc binds kp of (ps, binds') \<Rightarrow> ps @ lint_params env doc binds' kps)"

text \<open>\<^verbatim>\<open>SortedKeys\<close>: the entries of a map in the order of their keys, byte by byte.\<close>

fun string_le :: "string \<Rightarrow> string \<Rightarrow> bool" where
  "string_le [] t = True"
| "string_le (c # s) [] = False"
| "string_le (c # s) (d # t) = (byte c < byte d \<or> (byte c = byte d \<and> string_le s t))"

fun insert_key :: "string \<times> 'a \<Rightarrow> (string \<times> 'a) list \<Rightarrow> (string \<times> 'a) list" where
  "insert_key p [] = [p]"
| "insert_key p (q # qs) = (if string_le (fst p) (fst q) then p # q # qs else q # insert_key p qs)"

definition sorted_entries :: "(string, 'a) table \<Rightarrow> (string \<times> 'a) list" where
  "sorted_entries t = foldr insert_key t []"

section \<open>The document\<close>

record factory_network =
  fn_IP :: string
  fn_Mask :: string
  fn_Gateway :: string

record lint_doc =
  ld_doc :: profile_doc
  ld_Extends :: string
  ld_Serial :: string
  ld_OUI :: string
  ld_Users :: "CameraUser list"
  ld_Network :: factory_network
  ld_Events :: "(string, string list) table"

text \<open>\<open>parse_addr\<close> is \<^verbatim>\<open>netip.ParseAddr\<close>.\<close>

definition lintFactoryNetwork :: "(string \<Rightarrow> addr option) \<Rightarrow> factory_network \<Rightarrow> problem list" where
  "lintFactoryNetwork parse_addr n =
    (let ptr = ''/identity/factory/network'' in
     case parse_addr (fn_IP n) of
       Some (Addr4 ip) \<Rightarrow>
         (case MaskToPrefix (fn_Mask n) of
            Inl e \<Rightarrow> [lint_error (ptr @ ''/mask'') e]
          | Inr prefix \<Rightarrow>
              (case (if fn_Gateway n = [] then Some NoAddr else parse_addr (fn_Gateway n)) of
                 None \<Rightarrow> [lint_error (ptr @ ''/gateway'') (msg ''invalid gateway'')]
               | Some gw \<Rightarrow>
                   (case NetIdentity_Validate
                      \<lparr>nid_Mode = NetMacvlan, nid_ParentIf = [], nid_MAC = ''02:00:00:00:00:01'', nid_IPMode = IPStatic,
                       nid_IP = Addr4 ip, nid_Prefix = prefix, nid_Gateway = gw, nid_DNS = []\<rparr> of
                      None \<Rightarrow> []
                    | Some e \<Rightarrow> [lint_error ptr (msg ''%v'')])))
     | _ \<Rightarrow> [lint_error (ptr @ ''/ip'') (msg ''factory IP must be IPv4'')])"

definition lint_event :: "(string \<Rightarrow> bool) \<Rightarrow> string \<times> string list \<Rightarrow> problem list" where
  "lint_event delivers = (\<lambda>(typ, transports).
    (let ptr = ''/events/'' @ escapePointer typ in
     if \<not> ValidEventType typ
     then [lint_error ptr (msgf ''%q is not a canonical event type'' [AStr typ])]
     else (if transports = [] then [lint_warning ptr (msgf ''event %s has no transport and cannot be enabled on a camera'' [AStr typ])] else []) @
          concat (map (\<lambda>t. err_if (\<not> delivers t) (ptr @ ''/transports/'' @ escapePointer t)
            (msgf ''no engine of this profile delivers %s'' [AStr t])) transports)))"

text \<open>\<open>refs\<close> are the problems of \<^verbatim>\<open>lintStreamRefs\<close>, which reads the sections of the engines.\<close>

definition lint :: "value_env \<Rightarrow> (string \<Rightarrow> addr option) \<Rightarrow> (string \<Rightarrow> bool) \<Rightarrow> problem list \<Rightarrow> lint_doc \<Rightarrow> problem list" where
  "lint env parse_addr delivers refs d =
    (if ld_Extends d \<noteq> [] then [\<lparr>pb_Step = StepInheritance, pb_Severity = SeverityError, pb_Pointer = ''/profile/extends'',
       pb_Message = msg ''extends is not supported yet: publish the profile resolved''\<rparr>] else []) @
    (case ValidateMask (ld_Serial d) of None \<Rightarrow> [] | Some e \<Rightarrow> [lint_error ''/identity/serial'' e]) @
    (if ld_OUI d = [] then [] else case ParseOUI (ld_OUI d) of Inl e \<Rightarrow> [lint_error ''/identity/oui'' e] | Inr _ \<Rightarrow> []) @
    (case ValidateCameraUsers (low env) (ld_Users d) of None \<Rightarrow> [] | Some e \<Rightarrow> [lint_error ''/identity/factory/users'' (msg ''%v'')]) @
    (let n = ld_Network d in
     if fn_IP n \<noteq> [] \<or> fn_Mask n \<noteq> [] \<or> fn_Gateway n \<noteq> [] then lintFactoryNetwork parse_addr n else []) @
    lint_params env (ld_doc d) [] (sorted_entries (pd_State (ld_doc d))) @
    concat (map (\<lambda>(name, s). lintStream name s) (sorted_entries (pd_Streams (ld_doc d)))) @
    refs @
    concat (map (lint_event delivers) (sorted_entries (ld_Events d)))"

end
