(* ===== verification/Profile_Claims.thy ===== *)
theory Profile_Claims
  imports Profile_Model
begin

text \<open>
  What is promised of parameter values: a coerced value has the type and the range of its parameter,
  and a change that was accepted is what the camera reads back.
\<close>

section \<open>Coerced values\<close>

definition in_range :: "param \<Rightarrow> float64 \<Rightarrow> bool" where
  "in_range p x = ((\<forall>m. pa_Min p = Some m \<longrightarrow> m \<le> x) \<and> (\<forall>m. pa_Max p = Some m \<longrightarrow> x \<le> m))"

lemma checkRange_None [simp]: "checkRange p x = None \<longleftrightarrow> in_range p x"
  by (auto simp: checkRange_def in_range_def split: option.split)

lemma checkRange_ok [simp]: "in_range p x \<Longrightarrow> checkRange p x = None" by simp

definition of_param :: "value_env \<Rightarrow> param \<Rightarrow> gval \<Rightarrow> bool" where
  "of_param env p w =
    (case pa_Type p of
       TypeString \<Rightarrow> (\<exists>s. w = GStr s \<and> (0 < pa_MaxLength p \<longrightarrow> int (rune_count s) \<le> pa_MaxLength p) \<and>
         CHR 0x00 \<notin> set s \<and> CHR 0x0D \<notin> set s \<and> CHR 0x0A \<notin> set s)
     | TypeInt \<Rightarrow> (\<exists>i. w = GInt i \<and> in_range p (float_of_int i))
     | TypeFloat \<Rightarrow> (\<exists>x. w = GFloat x \<and> in_range p x)
     | TypeBool \<Rightarrow> (\<exists>b. w = GBool b)
     | TypeEnum \<Rightarrow> List.find (\<lambda>a. sameValue env a w) (pa_Values p) = Some w
     | TypeOther t \<Rightarrow> False)"

lemma find_same:
  "List.find (\<lambda>a. sameValue env a v) xs = Some w \<Longrightarrow> List.find (\<lambda>a. sameValue env a w) xs = Some w"
proof -
  assume f: "List.find (\<lambda>a. sameValue env a v) xs = Some w"
  then have "sameValue env w v" by (auto simp: find_Some_iff)
  then have "(\<lambda>a. sameValue env a w) = (\<lambda>a. sameValue env a v)" by (simp add: sameValue_def)
  with f show ?thesis by simp
qed

lemma has_control_ex:
  "list_ex (\<lambda>c. c \<in> set [CHR 0x00, CHR 0x0D, CHR 0x0A]) s \<longleftrightarrow> CHR 0x00 \<in> set s \<or> CHR 0x0D \<in> set s \<or> CHR 0x0A \<in> set s"
  by (induction s) auto

lemma rat_small: "\<bar>i\<bar> < 2 ^ 53 \<Longrightarrow> \<bar>of_int i :: rat\<bar> < 2 ^ 53"
  by (metis of_int_abs of_int_less_iff of_int_numeral of_int_power)

lemma Coerce_of_param:
  assumes "Coerce env p v = Inr w" shows "of_param env p w"
proof (cases "pa_Type p")
  case TypeString
  then show ?thesis using assms unfolding Coerce_def of_param_def has_control_ex by (cases v) (auto split: if_splits)
next
  case TypeEnum
  with assms show ?thesis by (auto simp: Coerce_def of_param_def split: option.splits intro: find_same)
qed (use assms in \<open>auto simp: Coerce_def of_param_def split: sum.splits option.splits\<close>)

lemma Coerce_fixed: "of_param env p w \<Longrightarrow> Coerce env p w = Inr w"
  unfolding Coerce_def of_param_def has_control_ex
  by (auto simp: toInt_def toFloat_def toBool_def split: param_type.splits)

text \<open>A value that was coerced has the type of its parameter, its length or range, or is one of its
  options, and coercing it again gives the same value.\<close>

theorem Coerce_sound:
  assumes "Coerce env p v = Inr w"
  shows "of_param env p w \<and> Coerce env p w = Inr w"
  using Coerce_of_param [OF assms] Coerce_fixed by blast

definition plain_env :: value_env where
  "plain_env = \<lparr>sprint_float = (\<lambda>x. ''?''), parse_float = (\<lambda>s. None), low = id\<rparr>"

definition bright :: param where
  "bright = \<lparr>pa_Type = TypeInt, pa_Default = GInt 50, pa_Values = [], pa_Min = Some 0, pa_Max = Some 100, pa_MaxLength = 0,
     pa_Bind = []\<rparr>"

theorem Coerce_sound_witness: "of_param plain_env bright (GInt 70) \<and> Coerce plain_env bright (GInt 70) = Inr (GInt 70)"
proof (rule Coerce_sound)
  have "float_of_int 70 = 70" using fl_of_int_exact [of 70] by (simp add: float_of_int_def)
  then show "Coerce plain_env bright (GFloat 70) = Inr (GInt 70)"
    by (simp add: Coerce_def bright_def toInt_def in_range_def)
qed

section \<open>Reading back\<close>

definition row_value :: "value_env \<Rightarrow> (string \<Rightarrow> gval option) \<Rightarrow> profile_doc \<Rightarrow> state_row \<Rightarrow> gval option" where
  "row_value env unmarshal doc r =
    (case unmarshal (sr_Value r) of
       None \<Rightarrow> None
     | Some v \<Rightarrow>
         (case tget (pd_State doc) (sr_Key r) of
            None \<Rightarrow> None
          | Some p \<Rightarrow> (case Coerce env p v of Inl e \<Rightarrow> None | Inr cv \<Rightarrow> Some cv)))"

definition row_of :: "string \<Rightarrow> state_row list \<Rightarrow> state_row option" where
  "row_of k rows = List.find (\<lambda>r. sr_Key r = k) rows"

lemma row_of_simps [simp]:
  "row_of k [] = None" "row_of k (r # rows) = (if sr_Key r = k then Some r else row_of k rows)"
  by (simp_all add: row_of_def)

lemma row_of_None: "row_of k rows = None \<longleftrightarrow> k \<notin> sr_Key ` set rows"
  by (induction rows) auto

lemma camera_values_step:
  "camera_values env unmarshal doc rows =
   fold (\<lambda>r out. case row_value env unmarshal doc r of None \<Rightarrow> out | Some cv \<Rightarrow> tput (sr_Key r) cv out) rows (Defaults doc)"
  unfolding camera_values_def row_value_def
  by (intro fold_cong refl ext) (auto split: option.split sum.split)

lemma values_fold:
  assumes "distinct (map sr_Key rows)"
  shows "tget (fold (\<lambda>r out. case f r of None \<Rightarrow> out | Some cv \<Rightarrow> tput (sr_Key r) cv out) rows out) k =
    (case row_of k rows of None \<Rightarrow> tget out k | Some r \<Rightarrow> (case f r of None \<Rightarrow> tget out k | Some cv \<Rightarrow> Some cv))"
  using assms
proof (induction rows arbitrary: out)
  case (Cons r rows)
  then have "sr_Key r = k \<Longrightarrow> row_of k rows = None" by (auto simp: row_of_None)
  with Cons show ?case by (auto split: option.split)
qed simp

lemma tget_camera_values:
  "distinct (map sr_Key rows) \<Longrightarrow> tget (camera_values env unmarshal doc rows) k =
    (case row_of k rows of
       None \<Rightarrow> map_option pa_Default (tget (pd_State doc) k)
     | Some r \<Rightarrow> (case row_value env unmarshal doc r of
                  None \<Rightarrow> map_option pa_Default (tget (pd_State doc) k) | Some cv \<Rightarrow> Some cv))"
proof -
  assume d: "distinct (map sr_Key rows)"
  have x: "tget (Defaults doc) k = map_option pa_Default (tget (pd_State doc) k)"
    by (simp add: Defaults_def tget_map_value)
  show ?thesis unfolding camera_values_step values_fold [OF d] x ..
qed

lemma upsert_row_of:
  "distinct (map sr_Key rows) \<Longrightarrow> distinct (map sr_Key (upsert_row r rows)) \<and>
    row_of k (upsert_row r rows) = (if sr_Key r = k then Some r else row_of k rows)"
proof -
  assume d: "distinct (map sr_Key rows)"
  show ?thesis
  proof (cases "sr_Key r \<in> sr_Key ` set rows")
    case True
    have m: "map sr_Key (map (\<lambda>q. if sr_Key q = sr_Key r then r else q) rows) = map sr_Key rows" by simp
    have b: "row_of k (map (\<lambda>q. if sr_Key q = sr_Key r then r else q) rows) =
        (if sr_Key r = k \<and> k \<in> sr_Key ` set rows then Some r else row_of k rows)"
      by (induction rows) auto
    have "upsert_row r rows = map (\<lambda>q. if sr_Key q = sr_Key r then r else q) rows"
      using True by (auto simp: upsert_row_def)
    moreover from this have "distinct (map sr_Key (upsert_row r rows))" using d by (simp only: m)
    ultimately show ?thesis using True by (auto simp only: b if_splits split: if_split)
  next
    case False
    have a: "row_of k (rows @ [r]) = (case row_of k rows of Some q \<Rightarrow> Some q | None \<Rightarrow> if sr_Key r = k then Some r else None)"
      by (induction rows) auto
    have "\<not> (\<exists>q\<in>set rows. sr_Key q = sr_Key r)" using False by (metis imageI)
    then have u: "upsert_row r rows = rows @ [r]" by (simp add: upsert_row_def)
    from False row_of_None [of "sr_Key r" rows] have "row_of (sr_Key r) rows = None" by simp
    then show ?thesis using d False unfolding u a by (auto split: option.split)
  qed
qed

lemma persist_row_of:
  assumes "distinct (map sr_Key rows)" "distinct (map fst changes)"
  shows "distinct (map sr_Key (persistChanges marshal origin changes rows)) \<and>
    row_of k (persistChanges marshal origin changes rows) =
      (case map_of changes k of
         Some v \<Rightarrow> Some \<lparr>sr_Key = k, sr_Value = marshal v, sr_Origin = origin\<rparr>
       | None \<Rightarrow> row_of k rows)"
  using assms unfolding persistChanges_def
proof (induction changes arbitrary: rows)
  case (Cons c cs)
  obtain k' v where c: "c = (k', v)" by fastforce
  let ?r = "\<lparr>sr_Key = k', sr_Value = marshal v, sr_Origin = origin\<rparr>"
  have u: "distinct (map sr_Key (upsert_row ?r rows))" "row_of k (upsert_row ?r rows) = (if k' = k then Some ?r else row_of k rows)"
    using upsert_row_of [OF Cons.prems(1), of ?r k] by simp_all
  have "k' = k \<Longrightarrow> map_of cs k = None" using Cons.prems(2) by (auto simp: c map_of_eq_None_iff)
  with Cons.IH [OF u(1)] Cons.prems(2) u(2) show ?case by (auto simp: c split: option.split)
qed simp

lemma coerce_all_ok:
  assumes "coerce_all env doc ins = ([], ok)"
  shows "map fst ok = map fst ins \<and>
    (\<forall>k v. map_of ins k = Some v \<longrightarrow>
       (\<exists>p w. tget (pd_State doc) k = Some p \<and> Coerce env p v = Inr w \<and> map_of ok k = Some w))"
  using assms
proof (induction ins arbitrary: ok)
  case (Cons kv ins)
  obtain k v where kv: "kv = (k, v)" by fastforce
  from Cons.prems obtain p w ok' where "coerce_all env doc ins = ([], ok')" "tget (pd_State doc) k = Some p" "Coerce env p v = Inr w"
      "ok = (k, w) # ok'"
    by (auto simp: kv split: prod.splits option.splits sum.splits)
  with Cons.IH show ?case by (auto simp: kv)
qed simp

text \<open>Values whose JSON reads back as a value that coerces to them.\<close>

definition json_safe :: "param \<Rightarrow> gval \<Rightarrow> bool" where
  "json_safe p w = (case w of
     GInt i \<Rightarrow> \<bar>i\<bar> < (if pa_Type p = TypeEnum then 1000000 else 2 ^ 53)
   | GGoInt i \<Rightarrow> \<bar>i\<bar> < 1000000
   | _ \<Rightarrow> True)"

lemma float_of_int_small: "\<bar>i\<bar> < 2 ^ 53 \<Longrightarrow> float_of_int i = of_int i"
  unfolding float_of_int_def by (rule fl_of_int_exact)

lemma sprint_json_back: "\<bar>i\<bar> < 1000000 \<Longrightarrow> sprint env (GFloat (float_of_int i)) = itoa i"
proof -
  assume i: "\<bar>i\<bar> < 1000000"
  then have "\<bar>i\<bar> < 2 ^ 53" by simp
  then have "float_of_int i = of_int i" by (rule float_of_int_small)
  moreover have "\<bar>of_int i :: rat\<bar> < 2 ^ 53" using \<open>\<bar>i\<bar> < 2 ^ 53\<close> by (rule rat_small)
  ultimately show ?thesis using i by (simp add: sprint_def sprint_g_def)
qed

lemma Coerce_json_back:
  assumes "of_param env p w" "json_safe p w"
  shows "Coerce env p (json_back w) = Inr w"
proof (cases "pa_Type p")
  case TypeInt
  then obtain i where w: "w = GInt i" "in_range p (float_of_int i)" using assms(1) by (auto simp: of_param_def)
  then have i: "\<bar>i\<bar> < 2 ^ 53" using assms(2) TypeInt by (simp add: json_safe_def)
  then have "float_of_int i = of_int i" "\<bar>of_int i :: rat\<bar> < 2 ^ 53" by (rule float_of_int_small, rule rat_small)
  with TypeInt w show ?thesis by (simp add: Coerce_def json_back_def toInt_def)
next
  case TypeEnum
  then have "sprint env (json_back w) = sprint env w"
    using assms(2) sprint_json_back by (auto simp: json_back_def json_safe_def sprint_def split: gval.split)
  with Coerce_fixed [OF assms(1)] TypeEnum show ?thesis by (simp add: Coerce_def sameValue_def)
next
  case TypeString
  with assms(1) Coerce_fixed [OF assms(1)] show ?thesis by (auto simp: json_back_def of_param_def)
next
  case TypeFloat
  with assms(1) Coerce_fixed [OF assms(1)] show ?thesis by (auto simp: json_back_def of_param_def)
next
  case TypeBool
  with assms(1) Coerce_fixed [OF assms(1)] show ?thesis by (auto simp: json_back_def of_param_def)
qed (use assms(1) in \<open>simp add: of_param_def\<close>)

text \<open>A change of the parameters of a camera that is accepted is what the camera reads back, for every
  changed parameter: the coerced value goes to the database as JSON and comes back the same.\<close>

theorem update_reads_back:
  assumes "unmarshal (marshal w) = Some (json_back w)"
    and "table_ok ins" "distinct (map sr_Key rows)" "UpdateCameraConfig env marshal doc ins rows = Inr rows'"
    and "tget ins k = Some v" "tget (pd_State doc) k = Some p" "Coerce env p v = Inr w" "json_safe p w"
  shows "tget (camera_values env unmarshal doc rows') k = Some w"
proof -
  obtain ok where c: "coerce_all env doc ins = ([], ok)" "rows' = persistChanges marshal ''panel'' ok rows"
    using assms(4) by (auto simp: UpdateCameraConfig_def split: if_splits prod.splits)
  from coerce_all_ok [OF c(1)] assms(2) have o1: "distinct (map fst ok)" by (simp add: table_ok_def tkeys_def)
  from coerce_all_ok [OF c(1)] assms(5) obtain p' w' where "tget (pd_State doc) k = Some p'" "Coerce env p' v = Inr w'" "map_of ok k = Some w'"
    unfolding tget_def [of ins] by blast
  with assms(6,7) have o2: "map_of ok k = Some w" by simp
  from persist_row_of [OF assms(3) o1] o2 have r: "distinct (map sr_Key rows')"
      "row_of k rows' = Some \<lparr>sr_Key = k, sr_Value = marshal w, sr_Origin = ''panel''\<rparr>"
    by (simp_all add: c(2))
  have "Coerce env p (json_back w) = Inr w"
    using Coerce_json_back [OF Coerce_of_param [OF assms(7)] assms(8)] .
  then show ?thesis
    using assms(1,6) by (simp add: tget_camera_values [OF r(1)] r(2) row_value_def)
qed

definition toy_doc :: profile_doc where
  "toy_doc = \<lparr>pd_State = [(''Image.Brightness'', bright)], pd_Streams = []\<rparr>"

definition toy_unmarshal :: "string \<Rightarrow> gval option" where
  "toy_unmarshal s = (if s = ''70'' then Some (GFloat 70) else None)"

theorem update_reads_back_witness:
  "tget (camera_values plain_env toy_unmarshal toy_doc
     [\<lparr>sr_Key = ''Image.Brightness'', sr_Value = ''70'', sr_Origin = ''panel''\<rparr>]) ''Image.Brightness'' = Some (GInt 70)"
proof -
  have f: "float_of_int 70 = 70" using fl_of_int_exact [of 70] by (simp add: float_of_int_def)
  then have c: "Coerce plain_env bright (GInt 70) = Inr (GInt 70)"
    by (simp add: Coerce_def bright_def toInt_def in_range_def)
  have "UpdateCameraConfig plain_env (\<lambda>v. ''70'') toy_doc [(''Image.Brightness'', GInt 70)] [] =
      Inr [\<lparr>sr_Key = ''Image.Brightness'', sr_Value = ''70'', sr_Origin = ''panel''\<rparr>]"
    by (simp add: UpdateCameraConfig_def toy_doc_def c persistChanges_def upsert_row_def)
  from update_reads_back [OF _ _ _ this _ _ c] show ?thesis
    by (simp add: toy_unmarshal_def json_back_def f table_ok_def tkeys_def toy_doc_def json_safe_def bright_def)
qed

section \<open>Integer options of a million or more\<close>

lemma itoa_nonneg: "0 \<le> i \<Longrightarrow> itoa i = nat_str (nat i)"
  by (simp add: itoa_def)

lemma no_e_digits: "CHR ''e'' \<notin> set (nat_str n)"
proof
  assume "CHR ''e'' \<in> set (nat_str n)"
  from nat_str_digits [OF this] show False by (simp add: is_digit_c_def byte_def)
qed

lemma no_e_itoa: "CHR ''e'' \<notin> set (itoa i)"
  using no_e_digits by (auto simp: itoa_def)

lemma itoa_inj: "itoa i = itoa j \<Longrightarrow> i = j"
proof -
  have m: "CHR ''-'' \<notin> set (nat_str n)" for n
    using nat_str_digits [of "CHR ''-''" n] by (auto simp: is_digit_c_def byte_def)
  assume "itoa i = itoa j"
  moreover have "nat_str n \<noteq> CHR ''-'' # s" "CHR ''-'' # s \<noteq> nat_str n" for n s
    using m [of n] by (metis list.set_intros(1))+
  ultimately show ?thesis by (auto simp: itoa_def split: if_splits dest!: nat_str_inj)
qed

lemma large_prints_e:
  assumes "1000000 \<le> \<bar>i\<bar>" "\<bar>i\<bar> < 2 ^ 53"
  shows "CHR ''e'' \<in> set (sprint env (json_back (GInt i)))"
proof -
  have "\<bar>of_int i :: rat\<bar> < 2 ^ 53" using assms(2) by (rule rat_small)
  with assms float_of_int_small [OF assms(2)] show ?thesis
    by (simp add: sprint_def json_back_def sprint_g_def exponent_form_def Let_def)
qed

text \<open>C33. An option of an enum parameter that is an integer of a million or more can be chosen by its text, is
  accepted and stored, and is lost on the next read: read back it is a floating-point number, which
  prints in exponent form and matches no option, so the camera has the default.\<close>

theorem large_option_lost:
  assumes "\<And>a. a \<in> set (pa_Values p) \<Longrightarrow> \<exists>j. a = GInt j"
    and "pa_Type p = TypeEnum" "GInt i \<in> set (pa_Values p)" "1000000 \<le> \<bar>i\<bar>" "\<bar>i\<bar> < 2 ^ 53"
    and "tget (pd_State doc) k = Some p" "unmarshal (marshal (GInt i)) = Some (json_back (GInt i))"
    and "distinct (map sr_Key rows)"
  shows "UpdateCameraConfig env marshal doc [(k, GStr (itoa i))] rows =
           Inr (persistChanges marshal ''panel'' [(k, GInt i)] rows) \<and>
    tget (camera_values env unmarshal doc (persistChanges marshal ''panel'' [(k, GInt i)] rows)) k = Some (pa_Default p)"
proof
  have "List.find (\<lambda>a. sameValue env a (GStr (itoa i))) (pa_Values p) \<noteq> None"
    using assms(3) by (auto simp: find_None_iff sameValue_def sprint_def)
  then obtain a where a: "List.find (\<lambda>a. sameValue env a (GStr (itoa i))) (pa_Values p) = Some a" by auto
  then have s: "a \<in> set (pa_Values p)" "sameValue env a (GStr (itoa i))" by (auto simp: find_Some_iff)
  from assms(1) [OF s(1)] obtain j where "a = GInt j" by blast
  with s(2) have "a = GInt i" by (simp add: sameValue_def sprint_def itoa_inj)
  with a assms(2,6) show "UpdateCameraConfig env marshal doc [(k, GStr (itoa i))] rows =
      Inr (persistChanges marshal ''panel'' [(k, GInt i)] rows)"
    by (simp add: UpdateCameraConfig_def Coerce_def)
next
  have "List.find (\<lambda>a. sameValue env a (json_back (GInt i))) (pa_Values p) = None"
    unfolding find_None_iff
  proof (intro notI, elim exE conjE)
    fix a assume a: "a \<in> set (pa_Values p)"
    from assms(1) [OF a] obtain j where "a = GInt j" by blast
    then have "CHR ''e'' \<notin> set (sprint env a)" by (simp add: sprint_def no_e_itoa)
    with large_prints_e [OF assms(4,5), of env] show "sameValue env a (json_back (GInt i)) \<Longrightarrow> False"
      by (simp add: sameValue_def)
  qed
  then have lost: "Coerce env p (json_back (GInt i)) = Inl (NotOneOf (map (sprint env) (pa_Values p)))"
    using assms(2) by (simp add: Coerce_def)
  from persist_row_of [OF assms(8), of "[(k, GInt i)]" marshal "''panel''" k]
  have r: "distinct (map sr_Key (persistChanges marshal ''panel'' [(k, GInt i)] rows))"
    "row_of k (persistChanges marshal ''panel'' [(k, GInt i)] rows) = Some \<lparr>sr_Key = k, sr_Value = marshal (GInt i), sr_Origin = ''panel''\<rparr>"
    by simp_all
  show "tget (camera_values env unmarshal doc (persistChanges marshal ''panel'' [(k, GInt i)] rows)) k = Some (pa_Default p)"
    by (simp add: tget_camera_values [OF r(1)] r(2) row_value_def assms(6,7) lost)
qed

definition rate :: param where
  "rate = \<lparr>pa_Type = TypeEnum, pa_Default = GInt 1000000, pa_Values = [GInt 1000000, GInt 2000000], pa_Min = None, pa_Max = None,
     pa_MaxLength = 0, pa_Bind = []\<rparr>"

theorem large_option_lost_witness:
  "tget (camera_values plain_env (\<lambda>s. Some (json_back (GInt 2000000))) \<lparr>pd_State = [(''Rate'', rate)], pd_Streams = []\<rparr>
     (persistChanges (\<lambda>v. ''2000000'') ''panel'' [(''Rate'', GInt 2000000)] [])) ''Rate'' = Some (GInt 1000000)"
  using large_option_lost [of rate 2000000 "\<lparr>pd_State = [(''Rate'', rate)], pd_Streams = []\<rparr>" "''Rate''"
      "\<lambda>s. Some (json_back (GInt 2000000))" "\<lambda>v. ''2000000''" "[]" plain_env]
  by (auto simp: rate_def)

end
