(* ===== verification/Profile_Streams.thy ===== *)
theory Profile_Streams
  imports Profile_Lint Profile_Claims
begin

text \<open>
  A profile that passes the lint serves its streams: whatever was stored for a camera, the settings of
  each stream come out, with a codec and a frame size the stream supports.
\<close>

section \<open>What the lint checks, entry by entry\<close>

lemma problems_OK_append [simp]: "problems_OK (a @ b) \<longleftrightarrow> problems_OK a \<and> problems_OK b"
  by (simp add: problems_OK_def)

lemma problems_OK_Nil [simp]: "problems_OK []"
  by (simp add: problems_OK_def)

lemma problems_OK_error [simp]: "\<not> problems_OK (lint_error ptr m # ps)"
  by (simp add: problems_OK_def lint_error_def)

lemma problems_OK_warning [simp]: "problems_OK (lint_warning ptr m # ps) = problems_OK ps"
  by (simp add: problems_OK_def lint_warning_def)

lemma problems_OK_err_if [simp]: "problems_OK (err_if b ptr m) \<longleftrightarrow> \<not> b"
  by (simp add: err_if_def)

lemma problems_OK_concat: "problems_OK (concat pss) \<longleftrightarrow> (\<forall>ps\<in>set pss. problems_OK ps)"
  by (induction pss) auto

lemma set_insert_key: "set (insert_key p qs) = insert p (set qs)"
  by (induction qs) auto

lemma set_sorted_entries [simp]: "set (sorted_entries t) = set t"
  unfolding sorted_entries_def by (induction t) (auto simp: set_insert_key)

definition param_ok :: "value_env \<Rightarrow> profile_doc \<Rightarrow> string \<Rightarrow> param \<Rightarrow> bool" where
  "param_ok env doc key p =
    (CheckValue env p (pa_Default p) = None \<and>
     (pa_Bind p \<noteq> [] \<longrightarrow> ValidCanonicalKey (pa_Bind p) \<and> problems_OK (lintBind doc key p (''/state/'' @ escapePointer key))))"

lemma lint_param_ok:
  "problems_OK (fst (lint_param env doc binds (key, p))) \<Longrightarrow> param_ok env doc key p"
  by (auto simp: lint_param_def param_ok_def Let_def split: if_splits option.splits)

lemma lint_params_ok:
  "problems_OK (lint_params env doc binds kps) \<Longrightarrow> (key, p) \<in> set kps \<Longrightarrow> param_ok env doc key p"
proof (induction kps arbitrary: binds)
  case (Cons kp kps)
  obtain ps b where l: "lint_param env doc binds kp = (ps, b)" by fastforce
  with Cons.prems(1) have "problems_OK ps" "problems_OK (lint_params env doc b kps)" by simp_all
  with Cons lint_param_ok [of env doc binds key p] l show ?case by fastforce
qed simp

section \<open>Values\<close>

lemma values_ok:
  assumes "tget (pd_State doc) k = Some p"
  shows "\<exists>v. tget (camera_values env unmarshal doc rows) k = Some v \<and> (v = pa_Default p \<or> of_param env p v)"
proof -
  let ?good = "\<lambda>out. \<exists>v. tget out k = Some v \<and> (v = pa_Default p \<or> of_param env p v)"
  have step: "?good (case row_value env unmarshal doc r of None \<Rightarrow> out | Some cv \<Rightarrow> tput (sr_Key r) cv out)" if "?good out" for r out
    using that assms Coerce_of_param
    by (auto simp: row_value_def split: option.splits sum.splits)
  have "?good (fold (\<lambda>r out. case row_value env unmarshal doc r of None \<Rightarrow> out | Some cv \<Rightarrow> tput (sr_Key r) cv out) rows out)"
    if "?good out" for out
    using that
  proof (induction rows arbitrary: out)
    case (Cons r rows)
    from Cons.IH [OF step [OF Cons.prems]] show ?case by simp
  qed simp
  moreover have "?good (Defaults doc)" using assms by (simp add: Defaults_def tget_map_value)
  ultimately show ?thesis unfolding camera_values_step by blast
qed

lemma NewModel_bind:
  assumes "tget (NewModel doc) key = Some native" "table_ok (pd_State doc)"
  shows "\<exists>p. tget (pd_State doc) native = Some p \<and> pa_Bind p = key \<and> key \<noteq> []"
proof -
  let ?f = "\<lambda>(k, p) binds. if pa_Bind p \<noteq> [] then tput (pa_Bind p) k binds else binds"
  have "tget (fold ?f ps b) key = Some native \<Longrightarrow>
      (\<exists>p. (native, p) \<in> set ps \<and> pa_Bind p = key \<and> key \<noteq> []) \<or> tget b key = Some native" for ps b
  proof (induction ps arbitrary: b)
    case (Cons kp ps)
    obtain k p where "kp = (k, p)" by fastforce
    with Cons.IH [of "?f kp b"] Cons.prems show ?case by (auto split: if_splits)
  qed simp
  from this [of "pd_State doc" "[]"] assms show ?thesis by (auto simp: NewModel_def tget_iff_mem)
qed

text \<open>An enum value prints as one of the options.\<close>

lemma enum_prints:
  assumes "pa_Type p = TypeEnum" "CheckValue env p (pa_Default p) = None" "v = pa_Default p \<or> of_param env p v"
  shows "\<exists>a\<in>set (pa_Values p). sprint env v = sprint env a"
  using assms(3)
proof
  assume "v = pa_Default p"
  with assms(1,2) show ?thesis
    by (auto simp: CheckValue_def Coerce_def sameValue_def find_Some_iff split: option.splits sum.splits) (metis nth_mem)
next
  assume "of_param env p v"
  with assms(1) show ?thesis by (auto simp: of_param_def find_Some_iff)
qed

lemma text_option: "text_of a \<in> S \<Longrightarrow> [] \<notin> S \<Longrightarrow> sprint env a \<in> S"
  by (auto simp: text_of_def sprint_def split: gval.splits)

section \<open>Frame sizes\<close>

lemma side_parse_int: "side_ok s \<Longrightarrow> digits_val 0 s = Some n \<Longrightarrow> n < 2 ^ 63 \<Longrightarrow> parse_int64 s = Some (int n)"
  by (cases s) (auto simp: side_ok_def parse_int64_def is_digit_c_def byte_def)

lemma resolution_parts:
  assumes "ParseResolution r = Inr res"
  shows "\<exists>w h. cut (CHR ''x'') r = Some (w, h) \<and> parse_int64 w = Some (int (res_Width res)) \<and> parse_int64 h = Some (int (res_Height res))"
proof -
  obtain w h where c: "cut (CHR ''x'') r = Some (w, h)" "side_ok w" "side_ok h"
    using assms by (auto simp: ParseResolution_def split: option.splits if_splits)
  obtain m n where d: "digits_val 0 w = Some m" "digits_val 0 h = Some n" using side_ok_val c(2,3) by blast
  with c assms have "res_Width res = m" "res_Height res = n" "m \<le> 7680" "n \<le> 4320"
    by (auto simp: ParseResolution_def split: if_splits)
  with c d show ?thesis by (auto intro!: side_parse_int)
qed

section \<open>Streams\<close>

definition stream_names :: "string list" where "stream_names = [''main'', ''sub'', ''third'']"
definition stream_fields :: "string list" where "stream_fields = [''codec'', ''resolution'', ''fps'', ''bitrate'', ''gop'']"

definition media_key :: "string \<Rightarrow> string \<Rightarrow> string" where
  "media_key stream f = ''media.'' @ stream @ ''.'' @ f"

lemma split_media_key:
  "stream \<in> set stream_names \<Longrightarrow> f \<in> set stream_fields \<Longrightarrow> split_on (CHR ''.'') (media_key stream f) = [''media'', stream, f]"
  unfolding stream_names_def stream_fields_def media_key_def by (simp, elim disjE; simp)

lemma Canon_bound:
  assumes "tget (NewModel doc) key = Some native" "table_ok (pd_State doc)"
  shows "\<exists>p v. tget (pd_State doc) native = Some p \<and> pa_Bind p = key \<and> key \<noteq> [] \<and>
    Canon doc key (camera_values env unmarshal doc rows) = Some v \<and> (v = pa_Default p \<or> of_param env p v)"
proof -
  obtain p where p: "tget (pd_State doc) native = Some p" "pa_Bind p = key" "key \<noteq> []" using NewModel_bind [OF assms] by blast
  obtain v where "tget (camera_values env unmarshal doc rows) native = Some v" "v = pa_Default p \<or> of_param env p v"
    using values_ok [OF p(1)] by blast
  with p assms(1) show ?thesis by (simp add: Canon_def)
qed

lemma Canon_free:
  assumes "tget (NewModel doc) (media_key stream f) = None" "stream \<in> set stream_names" "f \<in> set stream_fields"
    "tget (pd_Streams doc) stream = Some s"
  shows "Canon doc (media_key stream f) values = stream_field (st_Default s) f"
  using assms(1,4) split_media_key [OF assms(2,3)] by (simp add: Canon_def)

text \<open>The text of the codec or the frame size of a stream is one of those the stream lists.\<close>

definition options_of :: "stream_spec \<Rightarrow> string \<Rightarrow> string list" where
  "options_of s f = (if f = ''codec'' then st_Codecs s else st_Resolutions s)"

lemma lintBind_options:
  assumes "problems_OK (lintBind doc k p ptr)" "pa_Bind p = media_key stream f" "stream \<in> set stream_names"
    "f \<in> {''codec'', ''resolution''}" "tget (pd_Streams doc) stream = Some s" "a \<in> set (pa_Values p)"
  shows "text_of a \<in> set (options_of s f)"
proof -
  have f: "f \<in> set stream_fields" using assms(4) by (auto simp: stream_fields_def)
  have "pa_Values p \<noteq> []" using assms(6) by auto
  with assms show ?thesis unfolding lintBind_def assms(2) split_media_key [OF assms(3) f]
    by (auto simp: options_of_def problems_OK_concat split: if_splits)
qed

lemma lintBind_codec_enum:
  assumes "problems_OK (lintBind doc k p ptr)" "pa_Bind p = media_key stream ''codec''" "stream \<in> set stream_names"
    "tget (pd_Streams doc) stream = Some s"
  shows "pa_Type p = TypeEnum"
  using assms split_media_key [OF assms(3), of "''codec''"] by (simp add: lintBind_def stream_fields_def)

definition checked :: "value_env \<Rightarrow> profile_doc \<Rightarrow> string \<Rightarrow> stream_spec \<Rightarrow> bool" where
  "checked env doc stream s =
    (table_ok (pd_State doc) \<and> (\<forall>k p. tget (pd_State doc) k = Some p \<longrightarrow> param_ok env doc k p) \<and>
     stream \<in> set stream_names \<and> tget (pd_Streams doc) stream = Some s \<and> problems_OK (lintStream stream s) \<and>
     [] \<notin> set (st_Codecs s) \<and>
     (\<forall>k p. tget (pd_State doc) k = Some p \<and> pa_Bind p = media_key stream ''resolution'' \<longrightarrow> pa_Type p = TypeEnum))"

lemma resolutions_parse:
  assumes "problems_OK (lintStream stream s)" "r \<in> set (st_Resolutions s)"
  shows "\<exists>res. ParseResolution r = Inr res"
proof -
  obtain i where "(i, r) \<in> set (indexed 0 (st_Resolutions s))" using indexed_mem [OF assms(2)] by blast
  with assms(1) have "problems_OK (lint_resolution (''/media/streams/'' @ stream) (i, r))"
    unfolding lintStream_def Let_def problems_OK_append problems_OK_concat by auto
  then show ?thesis by (auto simp: lint_resolution_def split: sum.splits)
qed

lemma stream_option:
  assumes c: "checked env doc stream s" and f: "f \<in> {''codec'', ''resolution''}"
  shows "\<exists>v. Canon doc (media_key stream f) (camera_values env unmarshal doc rows) = Some v \<and>
    sprint env v \<in> set (options_of s f)"
proof (cases "tget (NewModel doc) (media_key stream f)")
  case None
  have "f \<in> set stream_fields" using f by (auto simp: stream_fields_def)
  with None c have "Canon doc (media_key stream f) (camera_values env unmarshal doc rows) = stream_field (st_Default s) f"
    by (intro Canon_free) (auto simp: checked_def)
  moreover have "problems_OK (lintStream stream s)" using c by (simp add: checked_def)
  then have "sd_Codec (st_Default s) \<in> set (st_Codecs s)" "sd_Resolution (st_Default s) \<in> set (st_Resolutions s)"
    unfolding lintStream_def Let_def problems_OK_append by simp_all
  ultimately show ?thesis using f by (auto simp: stream_field_def sprint_def options_of_def)
next
  case (Some native)
  have t: "table_ok (pd_State doc)" using c by (simp add: checked_def)
  from Canon_bound [OF Some t, of env unmarshal rows] obtain p v where
    p: "tget (pd_State doc) native = Some p" "pa_Bind p = media_key stream f" "media_key stream f \<noteq> []"
    and v: "Canon doc (media_key stream f) (camera_values env unmarshal doc rows) = Some v" "v = pa_Default p \<or> of_param env p v"
    by blast
  have ok: "CheckValue env p (pa_Default p) = None" "problems_OK (lintBind doc native p (''/state/'' @ escapePointer native))"
    using c p by (auto simp: checked_def param_ok_def)
  have st: "stream \<in> set stream_names" "tget (pd_Streams doc) stream = Some s" using c by (simp_all add: checked_def)
  have "pa_Type p = TypeEnum"
    using f c p st lintBind_codec_enum [OF ok(2)] by (auto simp: checked_def)
  from enum_prints [OF this ok(1) v(2)] obtain a where a: "a \<in> set (pa_Values p)" "sprint env v = sprint env a" by blast
  have "text_of a \<in> set (options_of s f)" by (rule lintBind_options [OF ok(2) p(2) st(1) f st(2) a(1)])
  moreover have "[] \<notin> set (options_of s f)"
    using c resolutions_parse [of stream s "[]"] f
    by (auto simp: checked_def options_of_def ParseResolution_def)
  ultimately have "sprint env a \<in> set (options_of s f)" by (rule text_option)
  with v(1) a(2) show ?thesis by auto
qed

text \<open>C32. A profile without lint errors serves its streams: for every camera, whatever rows were stored for it,
  each stream has settings, its codec is one the stream lists, its size is that of a frame size the
  stream lists, and frame rate and bit rate are positive. The schema names the streams and the codecs;
  that a parameter bound to a frame size is an enum is a hypothesis, for the lint lets any type bind it.\<close>

theorem linted_streams_work:
  assumes "problems_OK (lint env parse_addr delivers refs d)"
    and "table_ok (pd_State (ld_doc d))" "table_ok (pd_Streams (ld_doc d))"
    and "tget (pd_Streams (ld_doc d)) stream = Some s" "stream \<in> set stream_names" "[] \<notin> set (st_Codecs s)"
    and "\<And>k p. tget (pd_State (ld_doc d)) k = Some p \<Longrightarrow> pa_Bind p = media_key stream ''resolution'' \<Longrightarrow> pa_Type p = TypeEnum"
  shows "\<exists>st r res. StreamFor env (ld_doc d) stream (camera_values env unmarshal (ld_doc d) rows) = Inr st \<and>
    ss_Codec st \<in> set (st_Codecs s) \<and> r \<in> set (st_Resolutions s) \<and> ParseResolution r = Inr res \<and>
    ss_Width st = int (res_Width res) \<and> ss_Height st = int (res_Height res) \<and> 0 < ss_FPS st \<and> 0 < ss_Bitrate st"
proof -
  let ?doc = "ld_doc d"
  let ?vs = "camera_values env unmarshal ?doc rows"
  have l: "problems_OK (lint_params env ?doc [] (sorted_entries (pd_State ?doc)))"
    "\<forall>e\<in>set (sorted_entries (pd_Streams ?doc)). problems_OK ((\<lambda>(name, s). lintStream name s) e)"
    using assms(1) by (auto simp: lint_def problems_OK_concat)
  have "param_ok env ?doc k p" if "tget (pd_State ?doc) k = Some p" for k p
    using lint_params_ok [OF l(1)] that by (simp add: tget_Some_mem)
  moreover have ls: "problems_OK (lintStream stream s)" using l(2) tget_Some_mem [OF assms(4)] by fastforce
  ultimately have c: "checked env ?doc stream s" using assms by (auto simp: checked_def)
  obtain cv where cv: "Canon ?doc (media_key stream ''codec'') ?vs = Some cv" "sprint env cv \<in> set (st_Codecs s)"
    using stream_option [OF c, of "''codec''" unmarshal rows] by (auto simp: options_of_def)
  obtain rv where rv: "Canon ?doc (media_key stream ''resolution'') ?vs = Some rv" "sprint env rv \<in> set (st_Resolutions s)"
    using stream_option [OF c, of "''resolution''" unmarshal rows] by (auto simp: options_of_def)
  obtain res where res: "ParseResolution (sprint env rv) = Inr res" using resolutions_parse [OF ls rv(2)] by blast
  obtain w h where wh: "cut (CHR ''x'') (sprint env rv) = Some (w, h)" "parse_int64 w = Some (int (res_Width res))"
      "parse_int64 h = Some (int (res_Height res))" using resolution_parts [OF res] by blast
  have "sd_Codec (st_Default s) \<in> set (st_Codecs s)"
    using ls unfolding lintStream_def Let_def problems_OK_append by simp
  with assms(6) have d: "sd_Codec (st_Default s) \<noteq> []" by auto
  show ?thesis
    using assms(4) cv rv(2) res wh d rv(1) unfolding StreamFor_def media_key_def [symmetric] by (auto simp: Let_def)
qed

definition one_stream :: stream_spec where
  "one_stream = \<lparr>st_Codecs = [''h264''], st_Resolutions = [''640x360''], st_FPS = None, st_Bitrate = None,
     st_Default = \<lparr>sd_Codec = ''h264'', sd_Resolution = ''640x360'', sd_FPS = 15, sd_Bitrate = 0, sd_GOP = 0\<rparr>\<rparr>"

definition size_param :: "param_type \<Rightarrow> param" where
  "size_param t = \<lparr>pa_Type = t, pa_Default = GStr ''640x360'', pa_Values = [GStr ''640x360''], pa_Min = None, pa_Max = None,
     pa_MaxLength = 0, pa_Bind = ''media.main.resolution''\<rparr>"

definition lint_toy :: "param_type \<Rightarrow> lint_doc" where
  "lint_toy t = \<lparr>ld_doc = \<lparr>pd_State = [(''Res'', size_param t)], pd_Streams = [(''main'', one_stream)]\<rparr>,
     ld_Extends = [], ld_Serial = ''9'', ld_OUI = [],
     ld_Users = [\<lparr>cu_ID = [], cu_Username = ''a'', cu_Password = ''b'', cu_Role = RoleAdmin\<rparr>],
     ld_Network = \<lparr>fn_IP = [], fn_Mask = [], fn_Gateway = []\<rparr>, ld_Events = []\<rparr>"
lemma lint_toy_parts:
  "ValidateMask ''9'' = None" "lintStream ''main'' one_stream = []"
  "lint_params plain_env (ld_doc (lint_toy TypeEnum)) [] [(''Res'', size_param TypeEnum)] = []"
  "lint_params plain_env (ld_doc (lint_toy TypeString)) [] [(''Res'', size_param TypeString)] = []"
  by code_simp+

lemma lint_toy_users:
  "ValidateCameraUsers id [\<lparr>cu_ID = [], cu_Username = ''a'', cu_Password = ''b'', cu_Role = RoleAdmin\<rparr>] = None"
  by (simp add: ValidateCameraUsers_def user_errors_def Let_def ValidateUsername_def add_if_def ascii_eval ascii_def
      user_char_def is_lower_c_def password_char_def role_known_def)

lemma lint_toy_ok: "t = TypeEnum \<or> t = TypeString \<Longrightarrow> lint plain_env (\<lambda>s. None) (\<lambda>s. False) [] (lint_toy t) = []"
  using lint_toy_parts lint_toy_users
  by (auto simp: lint_def lint_toy_def sorted_entries_def plain_env_def)

theorem linted_streams_work_witness:
  "\<exists>st r res. StreamFor plain_env (ld_doc (lint_toy TypeEnum)) ''main''
      (camera_values plain_env toy_unmarshal (ld_doc (lint_toy TypeEnum)) []) = Inr st \<and>
    ss_Codec st \<in> set (st_Codecs one_stream) \<and> r \<in> set (st_Resolutions one_stream) \<and> ParseResolution r = Inr res \<and>
    ss_Width st = int (res_Width res) \<and> ss_Height st = int (res_Height res) \<and> 0 < ss_FPS st \<and> 0 < ss_Bitrate st"
proof (rule linted_streams_work)
  show "problems_OK (lint plain_env (\<lambda>s. None) (\<lambda>s. False) [] (lint_toy TypeEnum))" by (simp add: lint_toy_ok)
  show "tget (pd_Streams (ld_doc (lint_toy TypeEnum))) ''main'' = Some one_stream" by (simp add: lint_toy_def)
  show "tget (pd_State (ld_doc (lint_toy TypeEnum))) k = Some p \<Longrightarrow> pa_Type p = TypeEnum" for k p
    by (auto simp: lint_toy_def size_param_def split: if_splits)
qed (simp_all add: lint_toy_def table_ok_def tkeys_def stream_names_def one_stream_def)

text \<open>A parameter of type string may be bound to a frame size without a word from the lint, and then any
  text a client stores for it stops the stream.\<close>

lemma string_size_stops_stream:
  "lint plain_env (\<lambda>s. None) (\<lambda>s. False) [] (lint_toy TypeString) = [] \<and>
   StreamFor plain_env (ld_doc (lint_toy TypeString)) ''main''
     (camera_values plain_env (\<lambda>s. Some (GStr s)) (ld_doc (lint_toy TypeString))
        (clientChanges plain_env text_of (ld_doc (lint_toy TypeString)) ''10.0.0.9'' [(''Res'', GStr ''big'')] [])) =
   Inl (BadResolution ''big'')"
proof
  show "StreamFor plain_env (ld_doc (lint_toy TypeString)) ''main''
     (camera_values plain_env (\<lambda>s. Some (GStr s)) (ld_doc (lint_toy TypeString))
        (clientChanges plain_env text_of (ld_doc (lint_toy TypeString)) ''10.0.0.9'' [(''Res'', GStr ''big'')] [])) =
   Inl (BadResolution ''big'')"
    by code_simp
qed (simp add: lint_toy_ok)

end
