(* ===== verification/Camera_Store.thy ===== *)
theory Camera_Store
  imports Profile_Model Domain_Network Domain_Camera "HOL-Library.List_Lexorder" "HOL-Library.Char_ord"
begin

text \<open>
  The tables behind the camera service (\<^verbatim>\<open>database/migrations/00001_init.sql\<close>): cameras, their network
  identity, parameters, protocols, accounts, status, streams and targets, with the profiles, assets,
  renditions and targets they refer to, and the statements of
  \<^verbatim>\<open>backend/internal/store/db/cameras.sql.go\<close> and \<^verbatim>\<open>media.sql.go\<close> on them. Primary keys, unique indexes,
  foreign keys and their cascades are part of the model: a statement that breaks one fails and changes
  nothing. JSON columns of lists hold the list.
\<close>

section \<open>Rows\<close>

text \<open>What \<^verbatim>\<open>json.Unmarshal\<close> reads from the section of an engine, \<open>None\<close> when it fails.\<close>

record engine_head =
  eh_Engine :: string
  eh_Port :: int
  eh_Paths :: "(string \<times> string) list"

record factory_user =
  fu_Username :: string
  fu_Password :: string
  fu_Role :: string

record document =
  dc_Model :: profile_doc
  dc_Serial :: string
  dc_OUI :: string
  dc_FactoryIP :: string
  dc_FactoryMask :: string
  dc_FactoryGateway :: string
  dc_FactoryUsers :: "factory_user list"
  dc_Engines :: "(string, engine_head option) table"

record profile_row =
  pf_Doc :: "document option"
  pf_Archived :: bool

record camera_row =
  cm_Name :: string
  cm_ProfileID :: string
  cm_ProfileVersion :: string
  cm_Serial :: string
  cm_Desired :: desired_state
  cm_Autostart :: bool
  cm_Tags :: "string list"
  cm_CreatedAt :: int
  cm_UpdatedAt :: int

record network_row =
  cn_Mode :: net_mode
  cn_ParentIf :: string
  cn_Mac :: string
  cn_IpMode :: ip_mode
  cn_Ip :: string
  cn_Netmask :: string
  cn_Gateway :: string
  cn_Dns :: "string list"

record param_row =
  cs_Value :: string
  cs_Origin :: string
  cs_UpdatedAt :: int

record protocol_row =
  cp_Enabled :: bool
  cp_Port :: int
  cp_Options :: string

record account_row =
  ac_CameraID :: string
  ac_Username :: string
  ac_PasswordEnc :: string
  ac_Role :: string

record camera_status_row =
  cst_State :: camera_state
  cst_Reason :: string
  cst_StartedAt :: "int option"
  cst_UpdatedAt :: int

record stream_row =
  sw_AssetID :: string
  sw_RenditionID :: "string option"

record link_row =
  ln_EventTypes :: "string list"
  ln_Overrides :: string

record target_row =
  tr_Name :: string
  tr_Type :: string
  tr_URL :: string
  tr_Method :: string
  tr_Headers :: "(string \<times> string) list"
  tr_Username :: string
  tr_Secret :: "string option"
  tr_Enabled :: bool
  tr_CreatedAt :: int

record asset_row =
  as_Sha256 :: string
  as_Mime :: string
  as_Width :: int
  as_Height :: int
  as_Size :: int
  as_Filename :: string
  as_Builtin :: bool
  as_CreatedAt :: int

record Params =
  pm_Codec :: string
  pm_Width :: int
  pm_Height :: int
  pm_FPS :: int
  pm_GOP :: int
  pm_Bitrate :: int

datatype rendition_status = RenditionPending | RenditionReady | RenditionFailed

record rendition_row =
  rd_AssetID :: string
  rd_Params :: Params
  rd_Sha256 :: string
  rd_Status :: rendition_status
  rd_Error :: message
  rd_CreatedAt :: int

type_synonym 'v child_table = "(string \<times> string, 'v) table"

record cam_db =
  c_profiles :: "profile_row child_table"
  c_targets :: "(string, target_row) table"
  c_assets :: "(string, asset_row) table"
  c_renditions :: "(string, rendition_row) table"
  c_cameras :: "(string, camera_row) table"
  c_network :: "(string, network_row) table"
  c_state :: "param_row child_table"
  c_protocols :: "protocol_row child_table"
  c_users :: "(string, account_row) table"
  c_status :: "(string, camera_status_row) table"
  c_streams :: "stream_row child_table"
  c_links :: "link_row child_table"

text \<open>Why a statement or a step of a transaction fails (\<^verbatim>\<open>store.IsUnique\<close>, \<^verbatim>\<open>store.IsForeignKey\<close>).\<close>

datatype store_error = UniqueViolation | ForeignKeyViolation | StepError error

type_synonym stmt = "cam_db \<Rightarrow> (store_error, cam_db) result"

definition IsUnique :: "store_error \<Rightarrow> bool" where
  "IsUnique e = (e = UniqueViolation)"

definition IsForeignKey :: "store_error \<Rightarrow> bool" where
  "IsForeignKey e = (e = ForeignKeyViolation)"

section \<open>Rows of a camera\<close>

definition of_camera :: "string \<Rightarrow> 'v child_table \<Rightarrow> (string, 'v) table" where
  "of_camera c t = map (\<lambda>((i, k), v). (k, v)) (filter (\<lambda>((i, k), v). i = c) t)"

definition drop_camera :: "string \<Rightarrow> 'v child_table \<Rightarrow> 'v child_table" where
  "drop_camera c t = filter (\<lambda>((i, k), v). i \<noteq> c) t"

definition by_key :: "(string, 'v) table \<Rightarrow> (string, 'v) table" where
  "by_key t = sort_key fst t"

lemma tget_of_camera [simp]: "tget (of_camera c t) k = tget t (c, k)"
  by (induction t) (auto simp: of_camera_def)

lemma tget_drop_camera [simp]: "tget (drop_camera c t) (i, k) = (if i = c then None else tget t (i, k))"
  by (induction t) (auto simp: drop_camera_def)

lemma table_ok_drop_camera [simp]: "table_ok t \<Longrightarrow> table_ok (drop_camera c t)"
  unfolding drop_camera_def by (rule table_ok_filter)

lemma table_ok_of_camera: "table_ok t \<Longrightarrow> table_ok (of_camera c t)"
proof (induction t)
  case (Cons p t)
  obtain i k v where p: "p = ((i, k), v)" by (metis surj_pair)
  have "k \<notin> set (tkeys (of_camera i t))" if "(i, k) \<notin> set (tkeys t)"
    using that by (simp flip: tget_None_iff)
  with Cons p show ?case by (auto simp: table_ok_def tkeys_def of_camera_def)
qed (simp add: of_camera_def)

lemma table_ok_by_key: "table_ok t \<Longrightarrow> table_ok (by_key t)"
proof -
  assume "table_ok t"
  moreover have "set (tkeys (by_key t)) = set (tkeys t)" "length (tkeys (by_key t)) = length (tkeys t)"
    by (simp_all add: tkeys_def by_key_def)
  ultimately show ?thesis unfolding table_ok_def by (metis card_distinct distinct_card)
qed

lemma tget_by_key: "table_ok t \<Longrightarrow> tget (by_key t) k = tget t k"
proof -
  assume t: "table_ok t"
  have "tget (by_key t) k = Some v \<longleftrightarrow> tget t k = Some v" for v
    using t table_ok_by_key [OF t] by (simp add: tget_iff_mem) (simp add: by_key_def)
  then show ?thesis by (metis not_Some_eq)
qed

section \<open>Queries\<close>

definition GetCamera :: "string \<Rightarrow> cam_db \<Rightarrow> camera_row option" where
  "GetCamera i d = tget (c_cameras d) i"

definition GetCameraNetwork :: "string \<Rightarrow> cam_db \<Rightarrow> network_row option" where
  "GetCameraNetwork i d = tget (c_network d) i"

definition GetCameraStatus :: "string \<Rightarrow> cam_db \<Rightarrow> camera_status_row option" where
  "GetCameraStatus i d = tget (c_status d) i"

definition GetProfileByRef :: "string \<Rightarrow> string \<Rightarrow> cam_db \<Rightarrow> profile_row option" where
  "GetProfileByRef p v d = tget (c_profiles d) (p, v)"

definition GetTarget :: "string \<Rightarrow> cam_db \<Rightarrow> target_row option" where
  "GetTarget t d = tget (c_targets d) t"

definition GetAsset :: "string \<Rightarrow> cam_db \<Rightarrow> asset_row option" where
  "GetAsset a d = tget (c_assets d) a"

definition GetRendition :: "string \<Rightarrow> cam_db \<Rightarrow> rendition_row option" where
  "GetRendition r d = tget (c_renditions d) r"

definition CameraIDByName :: "string \<Rightarrow> cam_db \<Rightarrow> string option" where
  "CameraIDByName n d = map_option fst (List.find (\<lambda>(i, r). same_name (cm_Name r) n) (c_cameras d))"

definition CameraIDByIP :: "string \<Rightarrow> cam_db \<Rightarrow> string option" where
  "CameraIDByIP ip d = map_option fst (List.find (\<lambda>(i, r). cn_Ip r = ip) (c_network d))"

definition CameraIDByMAC :: "string \<Rightarrow> cam_db \<Rightarrow> string option" where
  "CameraIDByMAC mac d = map_option fst (List.find (\<lambda>(i, r). cn_Mac r = mac) (c_network d))"

definition CamerasUsingTarget :: "string \<Rightarrow> cam_db \<Rightarrow> string list" where
  "CamerasUsingTarget t d = map (fst \<circ> fst) (filter (\<lambda>((i, k), r). k = t) (c_links d))"

definition CountCameras :: "cam_db \<Rightarrow> nat" where
  "CountCameras d = length (c_cameras d)"

text \<open>\<^verbatim>\<open>ORDER BY name\<close> uses the collation of the column.\<close>

definition ListCameras :: "cam_db \<Rightarrow> (string \<times> camera_row) list" where
  "ListCameras d = sort_key (\<lambda>(i, r). map lower_char (cm_Name r)) (c_cameras d)"

definition ListCameraState :: "string \<Rightarrow> cam_db \<Rightarrow> (string, param_row) table" where
  "ListCameraState c d = by_key (of_camera c (c_state d))"

definition ListCameraProtocols :: "string \<Rightarrow> cam_db \<Rightarrow> (string, protocol_row) table" where
  "ListCameraProtocols c d = by_key (of_camera c (c_protocols d))"

definition ListCameraUsers :: "string \<Rightarrow> cam_db \<Rightarrow> account_row list" where
  "ListCameraUsers c d = sort_key ac_Username (filter (\<lambda>u. ac_CameraID u = c) (map snd (c_users d)))"

definition ListCameraStreams :: "string \<Rightarrow> cam_db \<Rightarrow> (string, stream_row) table" where
  "ListCameraStreams c d = by_key (of_camera c (c_streams d))"

definition ListCameraTargets :: "string \<Rightarrow> cam_db \<Rightarrow> (string \<times> link_row \<times> target_row) list" where
  "ListCameraTargets c d =
    sort_key (\<lambda>(k, l, t). map lower_char (tr_Name t))
      (concat (map (\<lambda>(k, l). case tget (c_targets d) k of None \<Rightarrow> [] | Some t \<Rightarrow> [(k, l, t)]) (of_camera c (c_links d))))"

definition GetRenditionByParams :: "string \<Rightarrow> Params \<Rightarrow> cam_db \<Rightarrow> (string \<times> rendition_row) option" where
  "GetRenditionByParams a p d = List.find (\<lambda>(i, r). rd_AssetID r = a \<and> rd_Params r = p) (c_renditions d)"

definition GetAssetBySHA256 :: "string \<Rightarrow> cam_db \<Rightarrow> (string \<times> asset_row) option" where
  "GetAssetBySHA256 sha d = List.find (\<lambda>(i, r). as_Sha256 r = sha) (c_assets d)"

definition ListAssets :: "cam_db \<Rightarrow> (string \<times> asset_row) list" where
  "ListAssets d = sort_key (\<lambda>(i, r). \<not> as_Builtin r) (sort_key (\<lambda>(i, r). - as_CreatedAt r) (c_assets d))"

definition ListUnusedRenditions :: "int \<Rightarrow> cam_db \<Rightarrow> (string \<times> rendition_row) list" where
  "ListUnusedRenditions before d =
    filter (\<lambda>(i, r). rd_CreatedAt r < before \<and> \<not> list_ex (\<lambda>(k, s). sw_RenditionID s = Some i) (c_streams d)) (c_renditions d)"

section \<open>Statements on cameras\<close>

definition name_taken :: "cam_db \<Rightarrow> string \<Rightarrow> string \<Rightarrow> bool" where
  "name_taken d i n = list_ex (\<lambda>(j, r). j \<noteq> i \<and> same_name (cm_Name r) n) (c_cameras d)"

definition InsertCamera :: "string \<Rightarrow> camera_row \<Rightarrow> stmt" where
  "InsertCamera i r d =
    (if tget (c_cameras d) i \<noteq> None \<or> name_taken d i (cm_Name r) then Inl UniqueViolation
     else if tget (c_profiles d) (cm_ProfileID r, cm_ProfileVersion r) = None then Inl ForeignKeyViolation
     else Inr (d\<lparr>c_cameras := tput i r (c_cameras d)\<rparr>))"

definition UpdateCameraMeta :: "string \<Rightarrow> string \<Rightarrow> bool \<Rightarrow> string list \<Rightarrow> int \<Rightarrow> stmt" where
  "UpdateCameraMeta i name autostart tags now d =
    (case tget (c_cameras d) i of
       None \<Rightarrow> Inr d
     | Some r \<Rightarrow>
         if name_taken d i name then Inl UniqueViolation
         else Inr (d\<lparr>c_cameras := tput i (r\<lparr>cm_Name := name, cm_Autostart := autostart, cm_Tags := tags, cm_UpdatedAt := now\<rparr>)
                       (c_cameras d)\<rparr>))"

definition SetCameraDesired :: "string \<Rightarrow> desired_state \<Rightarrow> int \<Rightarrow> stmt" where
  "SetCameraDesired i des now d =
    (case tget (c_cameras d) i of
       None \<Rightarrow> Inr d
     | Some r \<Rightarrow> Inr (d\<lparr>c_cameras := tput i (r\<lparr>cm_Desired := des, cm_UpdatedAt := now\<rparr>) (c_cameras d)\<rparr>))"

definition TouchCamera :: "string \<Rightarrow> int \<Rightarrow> stmt" where
  "TouchCamera i now d =
    (case tget (c_cameras d) i of
       None \<Rightarrow> Inr d
     | Some r \<Rightarrow> Inr (d\<lparr>c_cameras := tput i (r\<lparr>cm_UpdatedAt := now\<rparr>) (c_cameras d)\<rparr>))"

definition mac_taken :: "cam_db \<Rightarrow> string \<Rightarrow> string \<Rightarrow> bool" where
  "mac_taken d i mac = list_ex (\<lambda>(j, r). j \<noteq> i \<and> cn_Mac r = mac) (c_network d)"

definition ip_taken :: "cam_db \<Rightarrow> string \<Rightarrow> string \<Rightarrow> bool" where
  "ip_taken d i ip = (ip \<noteq> [] \<and> list_ex (\<lambda>(j, r). j \<noteq> i \<and> cn_Ip r = ip) (c_network d))"

definition InsertCameraNetwork :: "string \<Rightarrow> network_row \<Rightarrow> stmt" where
  "InsertCameraNetwork i r d =
    (if tget (c_network d) i \<noteq> None \<or> mac_taken d i (cn_Mac r) \<or> ip_taken d i (cn_Ip r) then Inl UniqueViolation
     else if tget (c_cameras d) i = None then Inl ForeignKeyViolation
     else Inr (d\<lparr>c_network := tput i r (c_network d)\<rparr>))"

record network_update =
  nu_ParentIf :: string
  nu_Mac :: string
  nu_Ip :: string
  nu_Netmask :: string
  nu_Gateway :: string
  nu_Dns :: "string list"

definition UpdateCameraNetwork :: "string \<Rightarrow> network_update \<Rightarrow> stmt" where
  "UpdateCameraNetwork i u d =
    (case tget (c_network d) i of
       None \<Rightarrow> Inr d
     | Some r \<Rightarrow>
         if mac_taken d i (nu_Mac u) \<or> ip_taken d i (nu_Ip u) then Inl UniqueViolation
         else Inr (d\<lparr>c_network := tput i (r\<lparr>cn_ParentIf := nu_ParentIf u, cn_Mac := nu_Mac u, cn_Ip := nu_Ip u,
           cn_Netmask := nu_Netmask u, cn_Gateway := nu_Gateway u, cn_Dns := nu_Dns u\<rparr>) (c_network d)\<rparr>))"

definition UpsertCameraState :: "string \<Rightarrow> string \<Rightarrow> param_row \<Rightarrow> stmt" where
  "UpsertCameraState c k r d =
    (if tget (c_state d) (c, k) = None \<and> tget (c_cameras d) c = None then Inl ForeignKeyViolation
     else Inr (d\<lparr>c_state := tput (c, k) r (c_state d)\<rparr>))"

definition DeleteCameraState :: "string \<Rightarrow> stmt" where
  "DeleteCameraState c d = Inr (d\<lparr>c_state := drop_camera c (c_state d)\<rparr>)"

definition InsertCameraProtocol :: "string \<Rightarrow> string \<Rightarrow> protocol_row \<Rightarrow> stmt" where
  "InsertCameraProtocol c k r d =
    (if tget (c_protocols d) (c, k) \<noteq> None then Inl UniqueViolation
     else if tget (c_cameras d) c = None then Inl ForeignKeyViolation
     else Inr (d\<lparr>c_protocols := tput (c, k) r (c_protocols d)\<rparr>))"

definition UpdateCameraProtocol :: "string \<Rightarrow> string \<Rightarrow> bool \<Rightarrow> int \<Rightarrow> stmt" where
  "UpdateCameraProtocol c k enabled port d =
    (case tget (c_protocols d) (c, k) of
       None \<Rightarrow> Inr d
     | Some r \<Rightarrow> Inr (d\<lparr>c_protocols := tput (c, k) (r\<lparr>cp_Enabled := enabled, cp_Port := port\<rparr>) (c_protocols d)\<rparr>))"

definition account_taken :: "cam_db \<Rightarrow> string \<Rightarrow> string \<Rightarrow> bool" where
  "account_taken d c n = list_ex (\<lambda>(j, u). ac_CameraID u = c \<and> ac_Username u = n) (c_users d)"

definition InsertCameraUser :: "string \<Rightarrow> account_row \<Rightarrow> stmt" where
  "InsertCameraUser i u d =
    (if tget (c_users d) i \<noteq> None \<or> account_taken d (ac_CameraID u) (ac_Username u) then Inl UniqueViolation
     else if tget (c_cameras d) (ac_CameraID u) = None then Inl ForeignKeyViolation
     else Inr (d\<lparr>c_users := tput i u (c_users d)\<rparr>))"

definition DeleteCameraUsers :: "string \<Rightarrow> stmt" where
  "DeleteCameraUsers c d = Inr (d\<lparr>c_users := filter (\<lambda>(i, u). ac_CameraID u \<noteq> c) (c_users d)\<rparr>)"

definition UpsertCameraStatus :: "string \<Rightarrow> camera_status_row \<Rightarrow> stmt" where
  "UpsertCameraStatus c r d =
    (if tget (c_status d) c = None \<and> tget (c_cameras d) c = None then Inl ForeignKeyViolation
     else Inr (d\<lparr>c_status := tput c r (c_status d)\<rparr>))"

definition rendition_exists :: "cam_db \<Rightarrow> string option \<Rightarrow> bool" where
  "rendition_exists d r = (case r of None \<Rightarrow> True | Some i \<Rightarrow> tget (c_renditions d) i \<noteq> None)"

definition UpsertCameraStream :: "string \<Rightarrow> string \<Rightarrow> stream_row \<Rightarrow> stmt" where
  "UpsertCameraStream c k r d =
    (if tget (c_streams d) (c, k) = None \<and> tget (c_cameras d) c = None then Inl ForeignKeyViolation
     else if tget (c_assets d) (sw_AssetID r) = None \<or> \<not> rendition_exists d (sw_RenditionID r) then Inl ForeignKeyViolation
     else Inr (d\<lparr>c_streams := tput (c, k) r (c_streams d)\<rparr>))"

definition InsertCameraTarget :: "string \<Rightarrow> string \<Rightarrow> link_row \<Rightarrow> stmt" where
  "InsertCameraTarget c t r d =
    (if tget (c_links d) (c, t) \<noteq> None then Inl UniqueViolation
     else if tget (c_cameras d) c = None \<or> tget (c_targets d) t = None then Inl ForeignKeyViolation
     else Inr (d\<lparr>c_links := tput (c, t) r (c_links d)\<rparr>))"

definition DeleteCameraTargets :: "string \<Rightarrow> stmt" where
  "DeleteCameraTargets c d = Inr (d\<lparr>c_links := drop_camera c (c_links d)\<rparr>)"

text \<open>\<^verbatim>\<open>ON DELETE CASCADE\<close>: everything about the camera goes with its row.\<close>

definition DeleteCamera_row :: "string \<Rightarrow> stmt" where
  "DeleteCamera_row c d =
    Inr (d\<lparr>c_cameras := tdel c (c_cameras d), c_network := tdel c (c_network d), c_state := drop_camera c (c_state d),
      c_protocols := drop_camera c (c_protocols d), c_users := filter (\<lambda>(i, u). ac_CameraID u \<noteq> c) (c_users d),
      c_status := tdel c (c_status d), c_streams := drop_camera c (c_streams d), c_links := drop_camera c (c_links d)\<rparr>)"

section \<open>Statements on assets, renditions, targets and profiles\<close>

definition InsertAsset :: "string \<Rightarrow> asset_row \<Rightarrow> stmt" where
  "InsertAsset i r d =
    (if tget (c_assets d) i \<noteq> None \<or> list_ex (\<lambda>(j, a). as_Sha256 a = as_Sha256 r) (c_assets d) then Inl UniqueViolation
     else Inr (d\<lparr>c_assets := tput i r (c_assets d)\<rparr>))"

definition clear_renditions :: "(string \<Rightarrow> bool) \<Rightarrow> stream_row child_table \<Rightarrow> stream_row child_table" where
  "clear_renditions P t =
    map (\<lambda>(k, s). (k, case sw_RenditionID s of Some r \<Rightarrow> if P r then s\<lparr>sw_RenditionID := None\<rparr> else s | None \<Rightarrow> s)) t"

definition DeleteAsset_row :: "string \<Rightarrow> stmt" where
  "DeleteAsset_row a d =
    (if list_ex (\<lambda>(k, s). sw_AssetID s = a) (c_streams d) then Inl ForeignKeyViolation
     else Inr (d\<lparr>c_assets := tdel a (c_assets d), c_renditions := filter (\<lambda>(i, r). rd_AssetID r \<noteq> a) (c_renditions d),
       c_streams := clear_renditions (\<lambda>i. case tget (c_renditions d) i of None \<Rightarrow> False | Some r \<Rightarrow> rd_AssetID r = a) (c_streams d)\<rparr>))"

definition InsertRendition :: "string \<Rightarrow> string \<Rightarrow> Params \<Rightarrow> int \<Rightarrow> stmt" where
  "InsertRendition i a p now d =
    (if tget (c_renditions d) i \<noteq> None \<or> GetRenditionByParams a p d \<noteq> None then Inl UniqueViolation
     else if tget (c_assets d) a = None then Inl ForeignKeyViolation
     else Inr (d\<lparr>c_renditions := tput i \<lparr>rd_AssetID = a, rd_Params = p, rd_Sha256 = [], rd_Status = RenditionPending,
       rd_Error = msg [], rd_CreatedAt = now\<rparr> (c_renditions d)\<rparr>))"

definition SetRenditionStatus :: "string \<Rightarrow> rendition_status \<Rightarrow> string \<Rightarrow> message \<Rightarrow> stmt" where
  "SetRenditionStatus i st sha e d =
    (case tget (c_renditions d) i of
       None \<Rightarrow> Inr d
     | Some r \<Rightarrow> Inr (d\<lparr>c_renditions := tput i (r\<lparr>rd_Status := st, rd_Sha256 := sha, rd_Error := e\<rparr>) (c_renditions d)\<rparr>))"

definition DeleteRendition_row :: "string \<Rightarrow> stmt" where
  "DeleteRendition_row i d =
    Inr (d\<lparr>c_renditions := tdel i (c_renditions d), c_streams := clear_renditions (\<lambda>r. r = i) (c_streams d)\<rparr>)"

definition target_name_taken :: "cam_db \<Rightarrow> string \<Rightarrow> string \<Rightarrow> bool" where
  "target_name_taken d i n = list_ex (\<lambda>(j, r). j \<noteq> i \<and> same_name (tr_Name r) n) (c_targets d)"

definition InsertTarget :: "string \<Rightarrow> target_row \<Rightarrow> stmt" where
  "InsertTarget i r d =
    (if tget (c_targets d) i \<noteq> None \<or> target_name_taken d i (tr_Name r) then Inl UniqueViolation
     else Inr (d\<lparr>c_targets := tput i r (c_targets d)\<rparr>))"

definition UpdateTarget_row :: "string \<Rightarrow> target_row \<Rightarrow> stmt" where
  "UpdateTarget_row i u d =
    (case tget (c_targets d) i of
       None \<Rightarrow> Inr d
     | Some r \<Rightarrow>
         if target_name_taken d i (tr_Name u) then Inl UniqueViolation
         else Inr (d\<lparr>c_targets := tput i (u\<lparr>tr_Type := tr_Type r, tr_CreatedAt := tr_CreatedAt r\<rparr>) (c_targets d)\<rparr>))"

definition DeleteTarget_row :: "string \<Rightarrow> stmt" where
  "DeleteTarget_row t d =
    (if list_ex (\<lambda>((c, k), r). k = t) (c_links d) then Inl ForeignKeyViolation
     else Inr (d\<lparr>c_targets := tdel t (c_targets d)\<rparr>))"

definition InsertProfile :: "string \<Rightarrow> string \<Rightarrow> document option \<Rightarrow> stmt" where
  "InsertProfile p v doc d =
    (if tget (c_profiles d) (p, v) \<noteq> None then Inl UniqueViolation
     else Inr (d\<lparr>c_profiles := tput (p, v) \<lparr>pf_Doc = doc, pf_Archived = False\<rparr> (c_profiles d)\<rparr>))"

definition SetProfileArchived :: "string \<Rightarrow> string \<Rightarrow> bool \<Rightarrow> stmt" where
  "SetProfileArchived p v a d =
    (case tget (c_profiles d) (p, v) of
       None \<Rightarrow> Inr d
     | Some r \<Rightarrow> Inr (d\<lparr>c_profiles := tput (p, v) (r\<lparr>pf_Archived := a\<rparr>) (c_profiles d)\<rparr>))"

end
