(* ===== verification/Camera_Rules.thy ===== *)
theory Camera_Rules
  imports Camera_Store
begin

text \<open>
  Transactions over the tables of \<^verbatim>\<open>Camera_Store\<close> (\<^verbatim>\<open>Store.Tx\<close> of \<^verbatim>\<open>backend/internal/store/store.go\<close>) and the
  rules the schema enforces: what every statement keeps of them, once per statement, so that a
  transaction keeps them by composition.
\<close>

section \<open>Transactions\<close>

definition then_do :: "stmt \<Rightarrow> stmt \<Rightarrow> stmt" where
  "then_do f g d = (case f d of Inl e \<Rightarrow> Inl e | Inr d' \<Rightarrow> g d')"

definition skip :: stmt where
  "skip d = Inr d"

fun for_each :: "'a list \<Rightarrow> ('a \<Rightarrow> stmt) \<Rightarrow> stmt" where
  "for_each [] f = skip"
| "for_each (x # xs) f = then_do (f x) (for_each xs f)"

fun all_of :: "stmt list \<Rightarrow> stmt" where
  "all_of [] = skip"
| "all_of (f # fs) = then_do f (all_of fs)"

text \<open>A transaction commits what every statement did, or rolls all of it back.\<close>

definition Tx :: "stmt \<Rightarrow> cam_db \<Rightarrow> store_error option \<times> cam_db" where
  "Tx f d = (case f d of Inl e \<Rightarrow> (Some e, d) | Inr d' \<Rightarrow> (None, d'))"

definition keeps :: "(cam_db \<Rightarrow> bool) \<Rightarrow> stmt \<Rightarrow> bool" where
  "keeps P f = (\<forall>d d'. P d \<longrightarrow> f d = Inr d' \<longrightarrow> P d')"

named_theorems keep_intros \<open>what statements and transactions keep\<close>

lemma keepsI: "(\<And>d d'. P d \<Longrightarrow> f d = Inr d' \<Longrightarrow> P d') \<Longrightarrow> keeps P f"
  by (simp add: keeps_def)

lemma keepsD: "keeps P f \<Longrightarrow> P d \<Longrightarrow> f d = Inr d' \<Longrightarrow> P d'"
  unfolding keeps_def by blast

lemma keeps_skip [keep_intros]: "keeps P skip"
  by (simp add: keeps_def skip_def)

lemma keeps_then [keep_intros]:
  assumes "keeps P f" "keeps P g"
  shows "keeps P (then_do f g)"
proof (rule keepsI)
  fix d d' assume "P d" "then_do f g d = Inr d'"
  then show "P d'" using assms by (cases "f d") (auto simp: then_do_def dest: keepsD)
qed

lemma keeps_for_each [keep_intros]: "(\<And>x. x \<in> set xs \<Longrightarrow> keeps P (f x)) \<Longrightarrow> keeps P (for_each xs f)"
  by (induction xs) (simp_all add: keeps_skip keeps_then)

lemma keeps_all_of [keep_intros]: "(\<And>f. f \<in> set fs \<Longrightarrow> keeps P f) \<Longrightarrow> keeps P (all_of fs)"
  by (induction fs) (simp_all add: keeps_skip keeps_then)

lemma keeps_if [keep_intros]: "keeps P f \<Longrightarrow> keeps P g \<Longrightarrow> keeps P (if b then f else g)"
  by simp

lemma keeps_option [keep_intros]: "keeps P f \<Longrightarrow> (\<And>x. keeps P (g x)) \<Longrightarrow> keeps P (case v of None \<Rightarrow> f | Some x \<Rightarrow> g x)"
  by (simp split: option.split)

lemma keeps_Tx: "keeps P f \<Longrightarrow> P d \<Longrightarrow> P (snd (Tx f d))"
  by (auto simp: Tx_def keeps_def split: sum.split)

lemma then_do_Inr: "then_do f g d = Inr d' \<longleftrightarrow> (\<exists>u. f d = Inr u \<and> g u = Inr d')"
  by (auto simp: then_do_def split: sum.split)

lemma Tx_failed: "Tx f d = (Some e, d') \<Longrightarrow> d' = d"
  by (auto simp: Tx_def split: sum.splits)

lemma Tx_done: "Tx f d = (None, d') \<longleftrightarrow> f d = Inr d'"
  by (auto simp: Tx_def split: sum.splits)

section \<open>Unique and foreign keys\<close>

text \<open>A unique index: no two rows clash. A foreign key: the row a row names, if any, is there.\<close>

definition unique_on :: "('r \<Rightarrow> 'r \<Rightarrow> bool) \<Rightarrow> ('k, 'r) table \<Rightarrow> bool" where
  "unique_on clash t = (\<forall>i j r s. tget t i = Some r \<longrightarrow> tget t j = Some s \<longrightarrow> clash r s \<longrightarrow> i = j)"

definition refers :: "('k \<Rightarrow> 'r \<Rightarrow> 'p option) \<Rightarrow> ('k, 'r) table \<Rightarrow> ('p, 'q) table \<Rightarrow> bool" where
  "refers f t u = (\<forall>k r p. tget t k = Some r \<longrightarrow> f k r = Some p \<longrightarrow> tget u p \<noteq> None)"

lemma unique_on_put:
  assumes "unique_on clash t" "\<And>j s. j \<noteq> i \<Longrightarrow> tget t j = Some s \<Longrightarrow> \<not> clash r s \<and> \<not> clash s r"
  shows "unique_on clash (tput i r t)"
  unfolding unique_on_def
proof (intro allI impI)
  fix j k a b assume *: "tget (tput i r t) j = Some a" "tget (tput i r t) k = Some b" "clash a b"
  show "j = k"
  proof (cases "j = i \<or> k = i")
    case True
    with * assms(2) show ?thesis by (auto split: if_splits)
  next
    case False
    with * assms(1) show ?thesis unfolding unique_on_def by (auto split: if_splits)
  qed
qed

lemma unique_on_sub: "unique_on clash t \<Longrightarrow> (\<And>k r. tget u k = Some r \<Longrightarrow> tget t k = Some r) \<Longrightarrow> unique_on clash u"
  unfolding unique_on_def by blast

lemma unique_on_del: "unique_on clash t \<Longrightarrow> unique_on clash (tdel i t)"
  by (erule unique_on_sub) (auto split: if_splits)

lemma tget_filterD: "table_ok t \<Longrightarrow> tget (filter P t) k = Some r \<Longrightarrow> tget t k = Some r \<and> P (k, r)"
  by (simp add: tget_iff_mem table_ok_filter)

lemma unique_on_filter: "unique_on clash t \<Longrightarrow> table_ok t \<Longrightarrow> unique_on clash (filter P t)"
  by (erule unique_on_sub) (auto dest: tget_filterD)

lemma refers_put: "refers f t u \<Longrightarrow> (\<And>p. f k r = Some p \<Longrightarrow> tget u p \<noteq> None) \<Longrightarrow> refers f (tput k r t) u"
  by (auto simp: refers_def)

lemma refers_grow: "refers f t u \<Longrightarrow> refers f t (tput k r u)"
  by (auto simp: refers_def)

lemma refers_sub: "refers f t u \<Longrightarrow> (\<And>k r. tget t' k = Some r \<Longrightarrow> tget t k = Some r) \<Longrightarrow> refers f t' u"
  unfolding refers_def by blast

lemma refers_del_child: "refers f t u \<Longrightarrow> refers f (tdel k t) u"
  by (erule refers_sub) (auto split: if_splits)

lemma refers_filter: "refers f t u \<Longrightarrow> table_ok t \<Longrightarrow> refers f (filter P t) u"
  by (erule refers_sub) (auto dest: tget_filterD)

lemma refers_drop: "refers f t u \<Longrightarrow> refers f (drop_camera c t) u"
  by (erule refers_sub) (auto split: if_splits)

lemma refers_parent: "refers f t u \<Longrightarrow> tget t k \<noteq> None \<Longrightarrow> (\<And>r. f k r = Some p) \<Longrightarrow> tget u p \<noteq> None"
  by (auto simp: refers_def)

lemma refers_del_parent:
  "refers f t u \<Longrightarrow> (\<And>k r. tget t k = Some r \<Longrightarrow> f k r \<noteq> Some p) \<Longrightarrow> refers f t (tdel p u)"
  by (auto simp: refers_def)

text \<open>What a scan of a table for a clash says of its rows.\<close>

lemma scan_tget: "table_ok t \<Longrightarrow> list_ex (\<lambda>(i, r). P i r) t \<longleftrightarrow> (\<exists>i r. tget t i = Some r \<and> P i r)"
  by (auto simp: list_ex_iff tget_iff_mem)

lemma find_tget_None:
  "table_ok t \<Longrightarrow> List.find (\<lambda>(i, r). P i r) t = None \<longleftrightarrow> (\<forall>i r. tget t i = Some r \<longrightarrow> \<not> P i r)"
  by (auto simp: find_None_iff tget_iff_mem)

lemma find_tget_Some:
  assumes "List.find (\<lambda>(i, r). P i r) t = Some (i, r)" "table_ok t"
  shows "tget t i = Some r" "P i r"
proof -
  from assms(1) obtain n where n: "n < length t" "t ! n = (i, r)" "P i r" by (auto simp: find_Some_iff)
  then have "(i, r) \<in> set t" by (metis nth_mem)
  with assms(2) show "tget t i = Some r" by (simp add: tget_iff_mem)
  show "P i r" by (rule n)
qed

section \<open>The rules of the schema\<close>

definition name_clash :: "camera_row \<Rightarrow> camera_row \<Rightarrow> bool" where
  "name_clash r s = same_name (cm_Name r) (cm_Name s)"

definition mac_clash :: "network_row \<Rightarrow> network_row \<Rightarrow> bool" where
  "mac_clash r s = (cn_Mac r = cn_Mac s)"

definition ip_clash :: "network_row \<Rightarrow> network_row \<Rightarrow> bool" where
  "ip_clash r s = (cn_Ip r \<noteq> [] \<and> cn_Ip r = cn_Ip s)"

definition account_clash :: "account_row \<Rightarrow> account_row \<Rightarrow> bool" where
  "account_clash u v = (ac_CameraID u = ac_CameraID v \<and> ac_Username u = ac_Username v)"

definition target_clash :: "target_row \<Rightarrow> target_row \<Rightarrow> bool" where
  "target_clash r s = same_name (tr_Name r) (tr_Name s)"

definition rendition_clash :: "rendition_row \<Rightarrow> rendition_row \<Rightarrow> bool" where
  "rendition_clash r s = (rd_AssetID r = rd_AssetID s \<and> rd_Params r = rd_Params s)"

definition own_ref :: "string \<Rightarrow> 'r \<Rightarrow> string option" where
  "own_ref k r = Some k"

definition child_ref :: "string \<times> string \<Rightarrow> 'r \<Rightarrow> string option" where
  "child_ref k r = Some (fst k)"

definition account_ref :: "string \<Rightarrow> account_row \<Rightarrow> string option" where
  "account_ref k u = Some (ac_CameraID u)"

definition profile_ref :: "string \<Rightarrow> camera_row \<Rightarrow> (string \<times> string) option" where
  "profile_ref k r = Some (cm_ProfileID r, cm_ProfileVersion r)"

definition stream_asset_ref :: "string \<times> string \<Rightarrow> stream_row \<Rightarrow> string option" where
  "stream_asset_ref k s = Some (sw_AssetID s)"

definition stream_rendition_ref :: "string \<times> string \<Rightarrow> stream_row \<Rightarrow> string option" where
  "stream_rendition_ref k s = sw_RenditionID s"

definition rendition_asset_ref :: "string \<Rightarrow> rendition_row \<Rightarrow> string option" where
  "rendition_asset_ref k r = Some (rd_AssetID r)"

definition link_ref :: "string \<times> string \<Rightarrow> link_row \<Rightarrow> string option" where
  "link_ref k r = Some (snd k)"

definition keys_unique :: "cam_db \<Rightarrow> bool" where
  "keys_unique d =
    (table_ok (c_profiles d) \<and> table_ok (c_targets d) \<and> table_ok (c_assets d) \<and> table_ok (c_renditions d) \<and>
     table_ok (c_cameras d) \<and> table_ok (c_network d) \<and> table_ok (c_state d) \<and> table_ok (c_protocols d) \<and>
     table_ok (c_users d) \<and> table_ok (c_status d) \<and> table_ok (c_streams d) \<and> table_ok (c_links d))"

definition columns_unique :: "cam_db \<Rightarrow> bool" where
  "columns_unique d =
    (unique_on name_clash (c_cameras d) \<and> unique_on mac_clash (c_network d) \<and> unique_on ip_clash (c_network d) \<and>
     unique_on account_clash (c_users d) \<and> unique_on target_clash (c_targets d) \<and> unique_on rendition_clash (c_renditions d))"

definition references_hold :: "cam_db \<Rightarrow> bool" where
  "references_hold d =
    (refers profile_ref (c_cameras d) (c_profiles d) \<and> refers own_ref (c_network d) (c_cameras d) \<and>
     refers child_ref (c_state d) (c_cameras d) \<and> refers child_ref (c_protocols d) (c_cameras d) \<and>
     refers account_ref (c_users d) (c_cameras d) \<and> refers own_ref (c_status d) (c_cameras d) \<and>
     refers child_ref (c_streams d) (c_cameras d) \<and> refers child_ref (c_links d) (c_cameras d) \<and>
     refers stream_asset_ref (c_streams d) (c_assets d) \<and> refers stream_rendition_ref (c_streams d) (c_renditions d) \<and>
     refers rendition_asset_ref (c_renditions d) (c_assets d) \<and> refers link_ref (c_links d) (c_targets d))"

definition schema_ok :: "cam_db \<Rightarrow> bool" where
  "schema_ok d = (keys_unique d \<and> columns_unique d \<and> references_hold d)"

lemmas schema_defs = schema_ok_def keys_unique_def columns_unique_def references_hold_def

lemmas ref_defs = own_ref_def child_ref_def account_ref_def profile_ref_def stream_asset_ref_def stream_rendition_ref_def
  rendition_asset_ref_def link_ref_def

lemmas clash_defs = name_clash_def mac_clash_def ip_clash_def account_clash_def target_clash_def rendition_clash_def

lemmas table_intros = unique_on_put unique_on_del unique_on_filter refers_put refers_grow refers_del_child refers_filter refers_drop

lemma same_name_sym: "same_name a b \<longleftrightarrow> same_name b a"
  by (auto simp: same_name_def)

lemma same_name_refl [simp]: "same_name a a"
  by (simp add: same_name_def)

section \<open>Every statement keeps the rules\<close>

lemma put_camera_ok:
  assumes "schema_ok d" "\<not> name_taken d i (cm_Name r)" "tget (c_profiles d) (cm_ProfileID r, cm_ProfileVersion r) \<noteq> None"
  shows "schema_ok (d\<lparr>c_cameras := tput i r (c_cameras d)\<rparr>)"
proof -
  have "\<not> name_clash r s \<and> \<not> name_clash s r" if "j \<noteq> i" "tget (c_cameras d) j = Some s" for j s
  proof -
    from assms(1) have "table_ok (c_cameras d)" by (simp add: schema_defs)
    with assms(2) that have "\<not> same_name (cm_Name s) (cm_Name r)" unfolding name_taken_def by (auto simp: scan_tget)
    then show ?thesis unfolding name_clash_def using same_name_sym by blast
  qed
  with assms show ?thesis by (auto simp: schema_defs profile_ref_def intro!: unique_on_put refers_put refers_grow)
qed

text \<open>An update that keeps the name and the profile of a camera.\<close>

lemma touch_camera_ok:
  assumes "schema_ok d" "tget (c_cameras d) i = Some r" "cm_Name r' = cm_Name r"
    "cm_ProfileID r' = cm_ProfileID r" "cm_ProfileVersion r' = cm_ProfileVersion r"
  shows "schema_ok (d\<lparr>c_cameras := tput i r' (c_cameras d)\<rparr>)"
proof (rule put_camera_ok [OF assms(1)])
  from assms(1) have t: "table_ok (c_cameras d)" and u: "unique_on name_clash (c_cameras d)"
    and p: "refers profile_ref (c_cameras d) (c_profiles d)" by (simp_all add: schema_defs)
  from u assms(2,3) show "\<not> name_taken d i (cm_Name r')"
    unfolding name_taken_def unique_on_def name_clash_def by (auto simp: scan_tget [OF t])
  from p assms(2,4,5) show "tget (c_profiles d) (cm_ProfileID r', cm_ProfileVersion r') \<noteq> None"
    by (simp add: refers_def profile_ref_def)
qed

lemma profile_of_camera:
  "schema_ok d \<Longrightarrow> tget (c_cameras d) i = Some r \<Longrightarrow> tget (c_profiles d) (cm_ProfileID r, cm_ProfileVersion r) \<noteq> None"
  by (simp add: schema_defs refers_def profile_ref_def)

lemma keeps_InsertCamera [keep_intros]: "keeps schema_ok (InsertCamera i r)"
  by (rule keepsI) (auto simp: InsertCamera_def intro!: put_camera_ok split: if_splits)

lemma keeps_UpdateCameraMeta [keep_intros]: "keeps schema_ok (UpdateCameraMeta i n a t now)"
  by (rule keepsI) (auto simp: UpdateCameraMeta_def dest: profile_of_camera intro!: put_camera_ok split: option.splits if_splits)

lemma keeps_SetCameraDesired [keep_intros]: "keeps schema_ok (SetCameraDesired i x now)"
  by (rule keepsI) (auto simp: SetCameraDesired_def intro!: touch_camera_ok split: option.splits)

lemma keeps_TouchCamera [keep_intros]: "keeps schema_ok (TouchCamera i now)"
  by (rule keepsI) (auto simp: TouchCamera_def intro!: touch_camera_ok split: option.splits)

lemma put_network_ok:
  assumes "schema_ok d" "tget (c_cameras d) i \<noteq> None" "\<not> mac_taken d i (cn_Mac r)" "\<not> ip_taken d i (cn_Ip r)"
  shows "schema_ok (d\<lparr>c_network := tput i r (c_network d)\<rparr>)"
proof -
  have *: "\<not> mac_clash r s \<and> \<not> mac_clash s r \<and> \<not> ip_clash r s \<and> \<not> ip_clash s r"
    if "j \<noteq> i" "tget (c_network d) j = Some s" for j s
  proof -
    from assms(1) have "table_ok (c_network d)" by (simp add: schema_defs)
    with assms(3,4) that have "cn_Mac s \<noteq> cn_Mac r" "cn_Ip r = [] \<or> cn_Ip s \<noteq> cn_Ip r"
      unfolding mac_taken_def ip_taken_def by (auto simp: scan_tget)
    then show ?thesis unfolding mac_clash_def ip_clash_def by metis
  qed
  with assms show ?thesis by (auto simp: schema_defs own_ref_def intro!: unique_on_put refers_put)
qed

lemma keeps_InsertCameraNetwork [keep_intros]: "keeps schema_ok (InsertCameraNetwork i r)"
  by (rule keepsI) (auto simp: InsertCameraNetwork_def intro!: put_network_ok split: if_splits)

lemma camera_of_network: "schema_ok d \<Longrightarrow> tget (c_network d) i = Some r \<Longrightarrow> tget (c_cameras d) i \<noteq> None"
  by (simp add: schema_defs refers_def own_ref_def)

lemma keeps_UpdateCameraNetwork [keep_intros]: "keeps schema_ok (UpdateCameraNetwork i u)"
  by (rule keepsI)
    (auto simp: UpdateCameraNetwork_def dest: camera_of_network intro!: put_network_ok split: option.splits if_splits)

lemma keeps_UpsertCameraState [keep_intros]: "keeps schema_ok (UpsertCameraState c k r)"
proof (rule keepsI)
  fix d d' assume *: "schema_ok d" "UpsertCameraState c k r d = Inr d'"
  from *(1) have "tget (c_state d) (c, k) \<noteq> None \<Longrightarrow> tget (c_cameras d) c \<noteq> None"
    by (intro refers_parent [of child_ref "c_state d" _ "(c, k)"]) (simp_all add: schema_defs child_ref_def)
  with * show "schema_ok d'"
    by (auto simp: UpsertCameraState_def schema_defs child_ref_def intro!: refers_put split: if_splits)
qed

lemma keeps_DeleteCameraState [keep_intros]: "keeps schema_ok (DeleteCameraState c)"
  by (rule keepsI) (auto simp: DeleteCameraState_def schema_defs intro!: refers_drop)

lemma keeps_InsertCameraProtocol [keep_intros]: "keeps schema_ok (InsertCameraProtocol c k r)"
  by (rule keepsI) (auto simp: InsertCameraProtocol_def schema_defs child_ref_def intro!: refers_put split: if_splits)

lemma keeps_UpdateCameraProtocol [keep_intros]: "keeps schema_ok (UpdateCameraProtocol c k e p)"
proof (rule keepsI)
  fix d d' assume *: "schema_ok d" "UpdateCameraProtocol c k e p d = Inr d'"
  from *(1) have "tget (c_protocols d) (c, k) \<noteq> None \<Longrightarrow> tget (c_cameras d) c \<noteq> None"
    by (intro refers_parent [of child_ref "c_protocols d" _ "(c, k)"]) (simp_all add: schema_defs child_ref_def)
  with * show "schema_ok d'"
    by (auto simp: UpdateCameraProtocol_def schema_defs child_ref_def intro!: refers_put split: option.splits)
qed

lemma keeps_InsertCameraUser [keep_intros]: "keeps schema_ok (InsertCameraUser i u)"
proof (rule keepsI)
  fix d d' assume *: "schema_ok d" "InsertCameraUser i u d = Inr d'"
  from *(1) have t: "table_ok (c_users d)" by (simp add: schema_defs)
  from *(2) have "\<not> account_taken d (ac_CameraID u) (ac_Username u)" by (auto simp: InsertCameraUser_def split: if_splits)
  then have "\<not> account_clash u v \<and> \<not> account_clash v u" if "tget (c_users d) j = Some v" for j v
    using that unfolding account_taken_def scan_tget [OF t] account_clash_def by metis
  with * show "schema_ok d'"
    by (auto simp: InsertCameraUser_def schema_defs account_ref_def intro!: refers_put unique_on_put split: if_splits)
qed

lemma keeps_DeleteCameraUsers [keep_intros]: "keeps schema_ok (DeleteCameraUsers c)"
  by (rule keepsI) (auto simp: DeleteCameraUsers_def schema_defs intro!: refers_filter unique_on_filter table_ok_filter)

lemma keeps_UpsertCameraStatus [keep_intros]: "keeps schema_ok (UpsertCameraStatus c r)"
proof (rule keepsI)
  fix d d' assume *: "schema_ok d" "UpsertCameraStatus c r d = Inr d'"
  from *(1) have "refers own_ref (c_status d) (c_cameras d)" by (simp add: schema_defs)
  then have "tget (c_cameras d) c \<noteq> None" if "tget (c_status d) c \<noteq> None"
    using that by (rule refers_parent) (simp add: own_ref_def)
  with *(2) have "tget (c_cameras d) c \<noteq> None" "d' = d\<lparr>c_status := tput c r (c_status d)\<rparr>"
    by (cases "tget (c_status d) c"; simp add: UpsertCameraStatus_def split: if_splits)+
  with *(1) show "schema_ok d'" by (auto simp: schema_defs own_ref_def intro!: refers_put)
qed

lemma keeps_UpsertCameraStream [keep_intros]: "keeps schema_ok (UpsertCameraStream c k r)"
proof (rule keepsI)
  fix d d' assume *: "schema_ok d" "UpsertCameraStream c k r d = Inr d'"
  from *(1) have "tget (c_streams d) (c, k) \<noteq> None \<Longrightarrow> tget (c_cameras d) c \<noteq> None"
    by (intro refers_parent [of child_ref "c_streams d" _ "(c, k)"]) (simp_all add: schema_defs child_ref_def)
  with * show "schema_ok d'"
    by (auto simp: UpsertCameraStream_def schema_defs rendition_exists_def child_ref_def stream_asset_ref_def stream_rendition_ref_def
        intro!: refers_put split: if_splits)
qed

lemma keeps_InsertCameraTarget [keep_intros]: "keeps schema_ok (InsertCameraTarget c t r)"
  by (rule keepsI) (auto simp: InsertCameraTarget_def schema_defs child_ref_def link_ref_def intro!: refers_put split: if_splits)

lemma keeps_DeleteCameraTargets [keep_intros]: "keeps schema_ok (DeleteCameraTargets c)"
  by (rule keepsI) (auto simp: DeleteCameraTargets_def schema_defs intro!: refers_drop)

lemma own_del: "refers own_ref t u \<Longrightarrow> refers own_ref (tdel c t) (tdel c u)"
  by (intro refers_del_parent refers_del_child) (auto simp: own_ref_def split: if_splits)

lemma child_del: "refers child_ref t u \<Longrightarrow> refers child_ref (drop_camera c t) (tdel c u)"
proof (rule refers_del_parent [OF refers_drop])
  fix k r assume "tget (drop_camera c t) k = Some r"
  then show "child_ref k r \<noteq> Some c" by (cases k) (auto simp: child_ref_def split: if_splits)
qed

text \<open>The deletion of a camera takes every row that names it, so nothing is left dangling.\<close>

lemma keeps_DeleteCamera_row [keep_intros]: "keeps schema_ok (DeleteCamera_row c)"
proof (rule keepsI)
  fix d d' assume *: "schema_ok d" "DeleteCamera_row c d = Inr d'"
  from *(1) have u: "refers account_ref (filter (\<lambda>(i, u). ac_CameraID u \<noteq> c) (c_users d)) (tdel c (c_cameras d))"
    by (intro refers_del_parent refers_filter) (auto simp: schema_defs account_ref_def dest: tget_filterD)
  show "schema_ok d'" using * u
    by (auto simp: DeleteCamera_row_def schema_defs own_del child_del
        intro!: refers_del_child refers_drop unique_on_del unique_on_filter table_ok_filter)
qed

section \<open>Assets, renditions, targets and profiles\<close>

lemma keeps_InsertAsset [keep_intros]: "keeps schema_ok (InsertAsset i r)"
  by (rule keepsI) (auto simp: InsertAsset_def schema_defs intro!: refers_grow split: if_splits)

lemma tget_clear_renditions:
  "tget (clear_renditions P t) k =
    map_option (\<lambda>s. case sw_RenditionID s of Some r \<Rightarrow> if P r then s\<lparr>sw_RenditionID := None\<rparr> else s | None \<Rightarrow> s) (tget t k)"
  by (simp add: clear_renditions_def tget_map_value)

lemma table_ok_clear_renditions [simp]: "table_ok (clear_renditions P t) = table_ok t"
  by (simp add: clear_renditions_def table_ok_map_value)

lemma refers_clear: "refers child_ref t u \<Longrightarrow> refers child_ref (clear_renditions P t) u"
  by (auto simp: refers_def tget_clear_renditions child_ref_def)

lemma refers_clear_asset: "refers stream_asset_ref t u \<Longrightarrow> refers stream_asset_ref (clear_renditions P t) u"
  by (auto simp: refers_def tget_clear_renditions stream_asset_ref_def split: option.split)

text \<open>Renditions may go once the streams that used them are cleared.\<close>

lemma refers_clear_rendition:
  assumes "refers stream_rendition_ref t u" "\<And>i. tget u i \<noteq> None \<Longrightarrow> \<not> P i \<Longrightarrow> tget u' i \<noteq> None"
  shows "refers stream_rendition_ref (clear_renditions P t) u'"
  unfolding refers_def
proof (intro allI impI)
  fix k s i assume "tget (clear_renditions P t) k = Some s" "stream_rendition_ref k s = Some i"
  then obtain s0 where s0: "tget t k = Some s0" "sw_RenditionID s = Some i"
    "s = (case sw_RenditionID s0 of Some r \<Rightarrow> if P r then s0\<lparr>sw_RenditionID := None\<rparr> else s0 | None \<Rightarrow> s0)"
    by (auto simp: tget_clear_renditions stream_rendition_ref_def)
  then have "sw_RenditionID s0 = Some i \<and> \<not> P i" by (cases "sw_RenditionID s0") (auto split: if_splits)
  with s0(1) have "tget t k = Some s0" "sw_RenditionID s0 = Some i" "\<not> P i" by simp_all
  moreover from this assms(1) have "tget u i \<noteq> None" unfolding refers_def stream_rendition_ref_def by blast
  ultimately show "tget u' i \<noteq> None" using assms(2) by blast
qed

lemma keeps_DeleteRendition_row [keep_intros]: "keeps schema_ok (DeleteRendition_row i)"
  by (rule keepsI)
    (auto simp: DeleteRendition_row_def schema_defs
       intro!: unique_on_del refers_clear refers_clear_asset refers_clear_rendition refers_del_child)

lemma keeps_DeleteAsset_row [keep_intros]: "keeps schema_ok (DeleteAsset_row a)"
proof (rule keepsI)
  fix d d' assume d: "schema_ok d" and *: "DeleteAsset_row a d = Inr d'"
  have t: "table_ok (c_streams d)" "table_ok (c_renditions d)" using d by (simp_all add: schema_defs)
  from * have free: "tget (c_streams d) k = Some s \<Longrightarrow> sw_AssetID s \<noteq> a" for k s
    using t(1) by (auto simp: DeleteAsset_row_def list_ex_iff tget_iff_mem split: if_splits)
  let ?P = "\<lambda>i. case tget (c_renditions d) i of None \<Rightarrow> False | Some r \<Rightarrow> rd_AssetID r = a"
  let ?R = "filter (\<lambda>(i, r). rd_AssetID r \<noteq> a) (c_renditions d)"
  have 1: "refers stream_rendition_ref (clear_renditions ?P (c_streams d)) ?R"
  proof (rule refers_clear_rendition)
    show "refers stream_rendition_ref (c_streams d) (c_renditions d)" using d by (simp add: schema_defs)
    show "tget ?R i \<noteq> None" if "tget (c_renditions d) i \<noteq> None" "\<not> ?P i" for i
      using that by (auto simp: tget_filter [OF t(2)])
  qed
  have 2: "refers stream_asset_ref (clear_renditions ?P (c_streams d)) (tdel a (c_assets d))"
  proof (rule refers_clear_asset, rule refers_del_parent)
    show "refers stream_asset_ref (c_streams d) (c_assets d)" using d by (simp add: schema_defs)
    show "stream_asset_ref k s \<noteq> Some a" if "tget (c_streams d) k = Some s" for k s
      using free [OF that] by (simp add: stream_asset_ref_def)
  qed
  have 3: "refers rendition_asset_ref ?R (tdel a (c_assets d))"
  proof (rule refers_del_parent)
    show "refers rendition_asset_ref ?R (c_assets d)" using d t by (intro refers_filter) (simp_all add: schema_defs)
    show "rendition_asset_ref k r \<noteq> Some a" if "tget ?R k = Some r" for k r
      using tget_filterD [OF t(2) that] by (simp add: rendition_asset_ref_def)
  qed
  from d 1 2 3 * t show "schema_ok d'"
    by (auto simp: DeleteAsset_row_def schema_defs intro!: unique_on_filter refers_clear table_ok_filter split: if_splits)
qed

lemma put_rendition_ok:
  assumes "schema_ok d" "tget (c_assets d) (rd_AssetID r) \<noteq> None"
    "\<And>j s. j \<noteq> i \<Longrightarrow> tget (c_renditions d) j = Some s \<Longrightarrow> \<not> rendition_clash r s"
  shows "schema_ok (d\<lparr>c_renditions := tput i r (c_renditions d)\<rparr>)"
proof -
  have "rendition_clash s r \<Longrightarrow> rendition_clash r s" for s by (simp add: rendition_clash_def)
  with assms show ?thesis
    by (auto simp: schema_defs rendition_asset_ref_def intro!: unique_on_put refers_put refers_grow)
qed

lemma keeps_InsertRendition [keep_intros]: "keeps schema_ok (InsertRendition i a p now)"
proof (rule keepsI)
  fix d d' assume *: "schema_ok d" "InsertRendition i a p now d = Inr d'"
  then have "table_ok (c_renditions d)" by (simp add: schema_defs)
  moreover from *(2) have "GetRenditionByParams a p d = None"
    unfolding InsertRendition_def by (cases "GetRenditionByParams a p d") (simp_all split: if_splits)
  ultimately have free: "\<not> (rd_AssetID s = a \<and> rd_Params s = p)" if "tget (c_renditions d) j = Some s" for j s
    using that unfolding GetRenditionByParams_def by (simp only: find_tget_None) blast
  then have "\<not> rendition_clash r s" if "tget (c_renditions d) j = Some s" "rd_AssetID r = a" "rd_Params r = p" for j r s
    using that unfolding rendition_clash_def by metis
  with * show "schema_ok d'"
    by (auto simp: InsertRendition_def intro!: put_rendition_ok split: if_splits)
qed

lemma keeps_SetRenditionStatus [keep_intros]: "keeps schema_ok (SetRenditionStatus i st sha e)"
proof (rule keepsI)
  fix d d' assume *: "schema_ok d" "SetRenditionStatus i st sha e d = Inr d'"
  then have "unique_on rendition_clash (c_renditions d)" "refers rendition_asset_ref (c_renditions d) (c_assets d)"
    by (simp_all add: schema_defs)
  with * show "schema_ok d'"
    by (auto simp: SetRenditionStatus_def unique_on_def refers_def rendition_asset_ref_def rendition_clash_def
        intro!: put_rendition_ok split: option.splits)
qed

lemma put_target_ok:
  assumes "schema_ok d" "\<not> target_name_taken d i (tr_Name r)"
  shows "schema_ok (d\<lparr>c_targets := tput i r (c_targets d)\<rparr>)"
proof -
  have "\<not> target_clash r s \<and> \<not> target_clash s r" if "j \<noteq> i" "tget (c_targets d) j = Some s" for j s
  proof -
    from assms(1) have "table_ok (c_targets d)" by (simp add: schema_defs)
    with assms(2) that have "\<not> same_name (tr_Name s) (tr_Name r)" unfolding target_name_taken_def by (auto simp: scan_tget)
    then show ?thesis unfolding target_clash_def using same_name_sym by blast
  qed
  with assms show ?thesis by (auto simp: schema_defs intro!: unique_on_put refers_grow)
qed

lemma keeps_InsertTarget [keep_intros]: "keeps schema_ok (InsertTarget i r)"
  by (rule keepsI) (auto simp: InsertTarget_def intro!: put_target_ok split: if_splits)

lemma keeps_UpdateTarget_row [keep_intros]: "keeps schema_ok (UpdateTarget_row i r)"
  by (rule keepsI) (auto simp: UpdateTarget_row_def intro!: put_target_ok split: option.splits if_splits)

lemma keeps_DeleteTarget_row [keep_intros]: "keeps schema_ok (DeleteTarget_row t)"
proof (rule keepsI)
  fix d d' assume d: "schema_ok d" and *: "DeleteTarget_row t d = Inr d'"
  have "table_ok (c_links d)" using d by (simp add: schema_defs)
  with * have free: "tget (c_links d) k = Some r \<Longrightarrow> snd k \<noteq> t" for k r
    by (cases k) (auto simp: DeleteTarget_row_def list_ex_iff tget_iff_mem split: if_splits)
  with d * show "schema_ok d'"
    by (auto simp: DeleteTarget_row_def schema_defs link_ref_def intro!: refers_del_parent unique_on_del split: if_splits)
qed

lemma keeps_InsertProfile [keep_intros]: "keeps schema_ok (InsertProfile p v doc)"
  by (rule keepsI) (auto simp: InsertProfile_def schema_defs intro!: refers_grow split: if_splits)

lemma keeps_SetProfileArchived [keep_intros]: "keeps schema_ok (SetProfileArchived p v a)"
  by (rule keepsI) (auto simp: SetProfileArchived_def schema_defs intro!: refers_grow split: option.splits)

end
