(* ===== verification/Service_Base.thy ===== *)
theory Service_Base
  imports Camera_Rules Domain_Admission
begin

text \<open>
  What the operations of the camera service (\<^verbatim>\<open>backend/internal/app\<close>) share: an operation reads and writes
  the tables and returns a value or an error; what it sends to the rest of the node (publications,
  audit entries, requests to running cameras, background work) is the list of effects it returns.
\<close>

section \<open>Operations\<close>

type_synonym 'a op = "cam_db \<Rightarrow> (error, 'a) result \<times> cam_db"

definition give :: "'a \<Rightarrow> 'a op" where
  "give a d = (Inr a, d)"

definition refuse :: "error \<Rightarrow> 'a op" where
  "refuse e d = (Inl e, d)"

definition and_then :: "'a op \<Rightarrow> ('a \<Rightarrow> 'b op) \<Rightarrow> 'b op" where
  "and_then m f d = (case m d of (Inl e, d') \<Rightarrow> (Inl e, d') | (Inr a, d') \<Rightarrow> f a d')"

definition ask :: "(cam_db \<Rightarrow> 'a) \<Rightarrow> 'a op" where
  "ask q d = (Inr (q d), d)"

definition attempt :: "(error, 'a) result \<Rightarrow> 'a op" where
  "attempt r d = (r, d)"

definition check :: "error option \<Rightarrow> unit op" where
  "check e d = (case e of None \<Rightarrow> (Inr (), d) | Some e \<Rightarrow> (Inl e, d))"

fun each_op :: "('a \<Rightarrow> 'b op) \<Rightarrow> 'a list \<Rightarrow> 'b list op" where
  "each_op f [] = give []"
| "each_op f (x # xs) = and_then (f x) (\<lambda>y. and_then (each_op f xs) (\<lambda>ys. give (y # ys)))"

text \<open>A transaction, with what the operation answers when it fails.\<close>

definition commit :: "(store_error \<Rightarrow> error) \<Rightarrow> stmt \<Rightarrow> unit op" where
  "commit why f d = (case Tx f d of (None, d') \<Rightarrow> (Inr (), d') | (Some e, d') \<Rightarrow> (Inl (why e), d'))"

definition store_failed :: "store_error \<Rightarrow> error" where
  "store_failed e = (case e of StepError x \<Rightarrow> x | _ \<Rightarrow> OtherError (msg ''constraint failed''))"

definition or_conflict :: "string \<Rightarrow> message \<Rightarrow> store_error \<Rightarrow> error" where
  "or_conflict field m e = (if IsUnique e then conflict field m else store_failed e)"

section \<open>What operations keep\<close>

definition op_keeps :: "(cam_db \<Rightarrow> bool) \<Rightarrow> 'a op \<Rightarrow> bool" where
  "op_keeps P m = (\<forall>d. P d \<longrightarrow> P (snd (m d)))"

lemma op_keepsD: "op_keeps P m \<Longrightarrow> P d \<Longrightarrow> P (snd (m d))"
  unfolding op_keeps_def by blast

lemma op_keeps_basic [keep_intros]:
  "op_keeps P (give a)" "op_keeps P (refuse e)" "op_keeps P (ask q)" "op_keeps P (attempt r)" "op_keeps P (check c)"
  by (simp_all add: op_keeps_def give_def refuse_def ask_def attempt_def check_def split: option.split)

lemma op_keeps_and_then [keep_intros]:
  assumes "op_keeps P m" "\<And>a. op_keeps P (f a)"
  shows "op_keeps P (and_then m f)"
  unfolding op_keeps_def
proof (intro allI impI)
  fix d assume "P d"
  with assms(1) have 1: "P (snd (m d))" by (rule op_keepsD)
  show "P (snd (and_then m f d))"
  proof (cases "m d")
    case (Pair r d')
    with 1 assms(2) show ?thesis by (cases r) (simp_all add: and_then_def op_keepsD)
  qed
qed

lemma op_keeps_each [keep_intros]: "(\<And>x. op_keeps P (f x)) \<Longrightarrow> op_keeps P (each_op f xs)"
  by (induction xs) (simp_all add: op_keeps_basic op_keeps_and_then)

lemma op_keeps_commit [keep_intros]: "keeps P f \<Longrightarrow> op_keeps P (commit why f)"
  by (auto simp: op_keeps_def commit_def Tx_def dest: keepsD split: sum.splits)

lemma op_keeps_if [keep_intros]: "op_keeps P f \<Longrightarrow> op_keeps P g \<Longrightarrow> op_keeps P (if b then f else g)"
  by simp

lemma op_keeps_option [keep_intros]:
  "op_keeps P f \<Longrightarrow> (\<And>x. op_keeps P (g x)) \<Longrightarrow> op_keeps P (case v of None \<Rightarrow> f | Some x \<Rightarrow> g x)"
  by (simp split: option.split)

lemma op_keeps_sum [keep_intros]:
  "(\<And>e. op_keeps P (f e)) \<Longrightarrow> (\<And>x. op_keeps P (g x)) \<Longrightarrow> op_keeps P (case v of Inl e \<Rightarrow> f e | Inr x \<Rightarrow> g x)"
  by (simp split: sum.split)

lemma op_keeps_prod [keep_intros]: "(\<And>x y. op_keeps P (g x y)) \<Longrightarrow> op_keeps P (case v of (x, y) \<Rightarrow> g x y)"
  by (simp split: prod.split)

text \<open>Running an operation to its end: how each step is inverted in a proof.\<close>

lemma and_then_Inr: "and_then m f d = (Inr b, d') \<longleftrightarrow> (\<exists>a u. m d = (Inr a, u) \<and> f a u = (Inr b, d'))"
  by (auto simp: and_then_def split: prod.split sum.split)

lemma and_then_Inl:
  "and_then m f d = (Inl e, d') \<longleftrightarrow> m d = (Inl e, d') \<or> (\<exists>a u. m d = (Inr a, u) \<and> f a u = (Inl e, d'))"
  by (auto simp: and_then_def split: prod.split sum.split)

lemma op_simps [simp]:
  "give a d = (Inr b, d') \<longleftrightarrow> b = a \<and> d' = d" "give a d \<noteq> (Inl e, d')"
  "refuse x d \<noteq> (Inr b, d')" "refuse x d = (Inl e, d') \<longleftrightarrow> e = x \<and> d' = d"
  "ask q d = (Inr b, d') \<longleftrightarrow> b = q d \<and> d' = d" "ask q d \<noteq> (Inl e, d')"
  "attempt r d = (s, d') \<longleftrightarrow> s = r \<and> d' = d"
  "check c d = (Inr u, d') \<longleftrightarrow> c = None \<and> d' = d" "check c d = (Inl e, d') \<longleftrightarrow> c = Some e \<and> d' = d"
  by (auto simp: give_def refuse_def ask_def attempt_def check_def split: option.split)

lemma commit_Inr: "commit why f d = (Inr u, d') \<longleftrightarrow> f d = Inr d'"
  by (auto simp: commit_def Tx_def split: sum.split)

lemma commit_Inl: "commit why f d = (Inl e, d') \<longleftrightarrow> d' = d \<and> (\<exists>x. f d = Inl x \<and> e = why x)"
  by (auto simp: commit_def Tx_def split: sum.split)

section \<open>Effects\<close>

datatype effect =
    Audit string string
  | PublishCamera string string
  | EncodeAsync string
  | RegenerateLater string
  | PublishConfig string "(string \<times> gval) list"
  | SendUsers string "(string \<times> string \<times> string) list"
  | SendTargets string
  | SendState string "(string \<times> gval) list"
  | StartCall string
  | RestartCall string
  | RemoveFiles string

section \<open>The node\<close>

record node_interface =
  if_Name :: string
  if_Addrs :: "string list"

record node_info =
  ni_Interfaces :: "node_interface list"
  ni_DefaultInterface :: string
  ni_DefaultGateway :: string

definition Lookup :: "node_info \<Rightarrow> string \<Rightarrow> node_interface option" where
  "Lookup n name = List.find (\<lambda>i. if_Name i = name) (ni_Interfaces n)"

text \<open>
  Everything an operation takes from outside the tables: the kind of runtime, the node's network and
  settings, its load, the library functions that are parameters of the model, and which cameras have
  a session or an active one.
\<close>

record node =
  nd_local :: bool
  nd_info :: "node_info option"
  nd_parent_setting :: string
  nd_parent_option :: string
  nd_limits :: AdmissionLimits
  nd_usage :: NodeUsage
  nd_cost :: CameraCost
  nd_sha :: "string \<Rightarrow> 8 word list"
  nd_lower :: "rune \<Rightarrow> rune"
  nd_upper :: "string \<Rightarrow> string"
  nd_url :: "string \<Rightarrow> url_parts option"
  nd_values :: value_env
  nd_marshal :: "gval \<Rightarrow> string"
  nd_unmarshal :: "string \<Rightarrow> gval option"
  nd_aead_seal :: "string \<Rightarrow> string \<Rightarrow> string \<Rightarrow> string"
  nd_aead_open :: "string \<Rightarrow> string \<Rightarrow> string \<Rightarrow> string option"
  nd_v6 :: "string \<Rightarrow> (128 word \<times> string) option"
  nd_v6_str :: "128 word \<Rightarrow> string \<Rightarrow> string"
  nd_semver :: "string \<Rightarrow> (string \<Rightarrow> bool option) option"
  nd_pattern :: "asset_row option"
  nd_session :: "string \<Rightarrow> bool"
  nd_active :: "string \<Rightarrow> bool"
  nd_now :: int

definition admitCreate :: "node \<Rightarrow> unit op" where
  "admitCreate n d =
    check (AdmitCreate (nd_limits n) (nd_usage n\<lparr>nu_Cameras := int (CountCameras d)\<rparr>) (nd_cost n)) d"

lemma keeps_admitCreate [keep_intros]: "op_keeps P (admitCreate n)"
  by (simp add: op_keeps_def admitCreate_def check_def split: option.split)

text \<open>\<^verbatim>\<open>strings.ToUpper\<close>; beyond ASCII it is a parameter.\<close>

definition upper_char :: "char \<Rightarrow> char" where
  "upper_char c = (if is_lower_c (byte c) then char_of (byte c - 32) else c)"

definition to_upper :: "node \<Rightarrow> string \<Rightarrow> string" where
  "to_upper n s = (if ascii s then map upper_char s else nd_upper n s)"

text \<open>\<^verbatim>\<open>netip.ParseAddr\<close>; the text of an IPv6 address is read by a parameter.\<close>

definition ParseAddr :: "node \<Rightarrow> string \<Rightarrow> addr option" where
  "ParseAddr n s =
    (case parse_ip4 s of
       Some a \<Rightarrow> Some (Addr4 a)
     | None \<Rightarrow> map_option (\<lambda>(a, z). Addr6 a z) (nd_v6 n s))"

definition addr_str :: "node \<Rightarrow> addr \<Rightarrow> string" where
  "addr_str n a =
    (case a of Addr4 x \<Rightarrow> ip4_str x | Addr6 x z \<Rightarrow> nd_v6_str n x z | NoAddr \<Rightarrow> ''invalid IP'')"

text \<open>\<^verbatim>\<open>netip.ParsePrefix\<close> on the IPv4 prefixes the node lists: an address, a slash and a length
  written without leading zeros.\<close>

definition parse_bits :: "string \<Rightarrow> nat option" where
  "parse_bits s =
    (if s = [] \<or> 2 < length s \<or> (1 < length s \<and> hd s = CHR ''0'') \<or> \<not> list_all (\<lambda>c. is_digit_c (byte c)) s then None
     else case digits_val 0 s of Some b \<Rightarrow> if b \<le> 32 then Some b else None | None \<Rightarrow> None)"

definition ParsePrefix :: "string \<Rightarrow> (ip4 \<times> nat) option" where
  "ParsePrefix s =
    (case cut (CHR ''/'') s of
       None \<Rightarrow> None
     | Some (a, b) \<Rightarrow>
         (case (parse_ip4 a, parse_bits b) of (Some a, Some b) \<Rightarrow> Some (a, b) | _ \<Rightarrow> None))"

end
