(* ===== verification/Media_Params.thy ===== *)
theory Media_Params
  imports Service_Base Profile_Lint
begin

text \<open>
  The parameters of a rendition (\<^verbatim>\<open>backend/internal/media/media.go\<close>): what the encoder accepts, and the key that
  names the cache directory of a rendition. The size reaches the test of MJPEG only when it is positive.
\<close>

definition recipe :: "string \<Rightarrow> string" where
  "recipe codec =
    (if codec = ''h264'' then ''h264-gop-v1'' else if codec = ''h265'' then ''h265-gop-v1''
     else if codec = ''mjpeg'' then ''mjpeg-v1'' else [])"

definition Params_Validate :: "Params \<Rightarrow> message option" where
  "Params_Validate p =
    (if recipe (pm_Codec p) = [] then Some (msgf ''codec %s is not supported; use h264, h265 or mjpeg'' [AStr (pm_Codec p)])
     else if pm_Width p < 16 \<or> pm_Height p < 16 \<or> 7680 < pm_Width p \<or> 4320 < pm_Height p \<or> pm_Width p mod 2 \<noteq> 0 \<or> pm_Height p mod 2 \<noteq> 0
       then Some (msgf ''invalid resolution %dx%d'' [AInt (pm_Width p), AInt (pm_Height p)])
     else if pm_Codec p = ''mjpeg'' \<and> \<not> MJPEGFits (nat (pm_Width p)) (nat (pm_Height p))
       then Some (msgf ''MJPEG over RTSP carries at most %dx%d in multiples of 8 pixels; %dx%d does not fit''
         [AInt (int MaxMJPEGSize), AInt (int MaxMJPEGSize), AInt (pm_Width p), AInt (pm_Height p)])
     else if pm_FPS p < 1 \<or> 60 < pm_FPS p then Some (msg ''fps must be between 1 and 60'')
     else if pm_GOP p < 1 \<or> 600 < pm_GOP p then Some (msg ''gop must be between 1 and 600 frames'')
     else if pm_Bitrate p < 16 \<or> 100000 < pm_Bitrate p then Some (msg ''bitrate must be between 16 and 100000 kbit/s'')
     else None)"

definition hex_str :: "8 word list \<Rightarrow> string" where
  "hex_str bs = concat (map byte_hex bs)"

definition Key :: "node \<Rightarrow> Params \<Rightarrow> string \<Rightarrow> string" where
  "Key n p assetSHA =
    hex_str (nd_sha n (join_with ''|'' [recipe (pm_Codec p), assetSHA, pm_Codec p, itoa (pm_Width p), itoa (pm_Height p),
      itoa (pm_FPS p), itoa (pm_GOP p), itoa (pm_Bitrate p)]))"

definition valid_params :: "Params \<Rightarrow> bool" where
  "valid_params p = (Params_Validate p = None)"

text \<open>The blocks of eight pixels that RTP counts in one byte always fit.\<close>

lemma valid_mjpeg_blocks:
  "valid_params p \<Longrightarrow> pm_Codec p = ''mjpeg'' \<Longrightarrow> pm_Width p div 8 < 256 \<and> pm_Height p div 8 < 256"
  by (auto simp: valid_params_def Params_Validate_def MJPEGFits_def MaxMJPEGSize_def split: if_splits)

end
