(* ===== verification/Assets.thy ===== *)
theory Assets
  imports Media_Params
begin

text \<open>
  Assets and renditions (\<^verbatim>\<open>backend/internal/app/assets.go\<close>): a picture is stored once per content, a rendition
  once per picture and parameters. The files themselves and the encoder are not modelled.
\<close>

section \<open>Assets\<close>

definition cut_last :: "string \<Rightarrow> string" where
  "cut_last s = rev (takeWhile (\<lambda>c. c \<noteq> CHR ''/'') (rev s))"

text \<open>\<^verbatim>\<open>filepath.Base\<close>: trailing slashes are dropped, then the last element is taken.\<close>

definition path_base :: "string \<Rightarrow> string" where
  "path_base s =
    (if s = [] then ''.''
     else let t = rev (dropWhile (\<lambda>c. c = CHR ''/'') (rev s)) in if t = [] then ''/'' else cut_last t)"

definition cleanFilename :: "string \<Rightarrow> string" where
  "cleanFilename name0 =
    (let name = path_base (replace_char (CHR 0x5C) (CHR ''/'') name0);
         name = (if name = ''.'' \<or> name = ''/'' \<or> name = [] then ''image'' else name)
     in if 120 < length name then take 120 name else name)"

definition storeAsset :: "string \<Rightarrow> asset_row \<Rightarrow> string op" where
  "storeAsset fresh row =
    and_then (ask (GetAssetBySHA256 (as_Sha256 row))) (\<lambda>found.
      case found of
        Some (i, a) \<Rightarrow> give i
      | None \<Rightarrow> and_then (commit store_failed (InsertAsset fresh row)) (\<lambda>_. give fresh))"

text \<open>An upload that passed \<^verbatim>\<open>media.ProbeImage\<close>: \<open>None\<close> is a picture that did not.\<close>

definition MaxImageBytes :: int where "MaxImageBytes = 20 * 2 ^ 20"

definition UploadAsset :: "string \<Rightarrow> string \<Rightarrow> int \<Rightarrow> (message, asset_row) result \<Rightarrow> (string \<times> effect list) op" where
  "UploadAsset fresh filename sz probed =
    (if MaxImageBytes < sz then refuse (invalid ''file'' (msgf ''images are limited to %d MB'' [AInt 20]))
     else case probed of
       Inl e \<Rightarrow> refuse (invalid ''file'' e)
     | Inr row \<Rightarrow>
         and_then (storeAsset fresh (row\<lparr>as_Size := sz, as_Filename := cleanFilename filename, as_Builtin := False\<rparr>)) (\<lambda>i.
           give (i, [Audit ''asset.upload'' i])))"

definition ensureBuiltinAsset :: "node \<Rightarrow> string \<Rightarrow> string op" where
  "ensureBuiltinAsset n fresh =
    and_then (ask ListAssets) (\<lambda>rows.
      case List.find (\<lambda>(i, a). as_Builtin a) rows of
        Some (i, a) \<Rightarrow> give i
      | None \<Rightarrow>
          (case nd_pattern n of
             None \<Rightarrow> refuse (OtherError (msg ''cannot create the default image''))
           | Some row \<Rightarrow> storeAsset fresh (row\<lparr>as_Filename := ''MockVision test pattern'', as_Builtin := True\<rparr>)))"

definition assetExt :: "asset_row \<Rightarrow> string" where
  "assetExt a = (if as_Mime a = ''image/png'' then ''.png'' else ''.jpg'')"

definition DeleteAsset :: "node \<Rightarrow> string \<Rightarrow> effect list op" where
  "DeleteAsset n i =
    and_then (ask (GetAsset i)) (\<lambda>found.
      case found of
        None \<Rightarrow> refuse ErrNotFound
      | Some a \<Rightarrow>
          if as_Builtin a then refuse (conflict [] (msg ''the built-in test pattern cannot be deleted''))
          else and_then (ask c_renditions) (\<lambda>rows.
            and_then (commit (\<lambda>e. if IsForeignKey e then conflict [] (msg ''the asset is used by cameras; change their image first'')
                               else store_failed e) (DeleteAsset_row i)) (\<lambda>_.
              give (RemoveFiles (as_Sha256 a @ assetExt a) #
                map (\<lambda>(k, r). RemoveFiles (Key n (rd_Params r) (as_Sha256 a))) (filter (\<lambda>(k, r). rd_AssetID r = i) rows) @
                [Audit ''asset.delete'' i]))))"

section \<open>Renditions\<close>

definition params_of :: "StreamSettings \<Rightarrow> Params" where
  "params_of s = \<lparr>pm_Codec = ss_Codec s, pm_Width = ss_Width s, pm_Height = ss_Height s, pm_FPS = ss_FPS s,
    pm_GOP = ss_GOP s, pm_Bitrate = ss_Bitrate s\<rparr>"

definition ensureRenditionRow :: "node \<Rightarrow> string \<Rightarrow> string \<Rightarrow> StreamSettings \<Rightarrow> string op" where
  "ensureRenditionRow n fresh asset ss =
    (let p = params_of ss in
     case Params_Validate p of
       Some e \<Rightarrow> refuse (invalid ''stream'' e)
     | None \<Rightarrow>
         and_then (ask (GetRenditionByParams asset p)) (\<lambda>found.
           case found of
             Some (i, r) \<Rightarrow> give i
           | None \<Rightarrow>
               and_then (commit store_failed (InsertRendition fresh asset p (nd_now n))) (\<lambda>_.
                 and_then (ask (GetRenditionByParams asset p)) (\<lambda>again.
                   case again of Some (i, r) \<Rightarrow> give i | None \<Rightarrow> refuse ErrNotFound))))"

definition streamNames :: "document \<Rightarrow> string list" where
  "streamNames doc =
    filter (\<lambda>name. tget (pd_Streams (dc_Model doc)) name \<noteq> None) [''main'', ''sub'', ''third'']"

definition streamError :: "string \<Rightarrow> error \<Rightarrow> error" where
  "streamError name e =
    (case e of
       ValidationError (f # fs) \<Rightarrow>
         invalid (fe_field f) (msgf (''stream %s: '' @ fmt_of (fe_message f)) (AStr name # args_of (fe_message f)))
     | _ \<Rightarrow> e)"

definition stream_failed :: "stream_error \<Rightarrow> message" where
  "stream_failed e =
    (case e of
       NoStream s \<Rightarrow> msgf ''profile has no stream %q'' [AStr s]
     | BadResolution r \<Rightarrow> msgf ''invalid resolution %q'' [AStr r]
     | CodecUnsupported s c \<Rightarrow> msgf ''stream %s does not support codec %s'' [AStr s, AStr c])"

text \<open>A camera made before its profile served other streams gets them with the picture of its main one.\<close>

definition main_asset :: "(string, stream_row) table \<Rightarrow> string" where
  "main_asset streams =
    foldl (\<lambda>a (k, s). if a = [] \<or> k = ''main'' then sw_AssetID s else a) [] streams"

definition completeStreams :: "document \<Rightarrow> string \<Rightarrow> (string, stream_row) table op" where
  "completeStreams doc c =
    and_then (ask (ListCameraStreams c)) (\<lambda>streams.
      if main_asset streams = [] then give streams
      else let lack = filter (\<lambda>name. name \<notin> set (tkeys streams)) (streamNames doc) in
        if lack = [] then give streams
        else and_then (each_op (\<lambda>name. commit store_failed (UpsertCameraStream c name
               \<lparr>sw_AssetID = main_asset streams, sw_RenditionID = None\<rparr>)) lack) (\<lambda>_.
             ask (ListCameraStreams c)))"

text \<open>The rendition a stream needs with the current values; the stream is pointed at it.\<close>

definition streamRendition ::
  "node \<Rightarrow> string \<Rightarrow> document \<Rightarrow> string \<Rightarrow> (string, gval) table \<Rightarrow> string \<times> stream_row \<Rightarrow> (StreamSettings \<times> string) op" where
  "streamRendition n fresh doc c values st =
    (case StreamFor (nd_values n) (dc_Model doc) (fst st) values of
       Inl e \<Rightarrow> refuse (OtherError (stream_failed e))
     | Inr ss \<Rightarrow>
         and_then (ask (GetAsset (sw_AssetID (snd st)))) (\<lambda>a.
           if a = None then refuse (OtherError (msgf ''asset %s'' [AStr (sw_AssetID (snd st))]))
           else and_then (ensureRenditionRow n fresh (sw_AssetID (snd st)) ss) (\<lambda>r.
             if sw_RenditionID (snd st) = Some r then give (ss, r)
             else and_then (commit store_failed (UpsertCameraStream c (fst st) (snd st\<lparr>sw_RenditionID := Some r\<rparr>))) (\<lambda>_.
               give (ss, r)))))"

text \<open>The unused renditions of a day ago are deleted, but those whose encoding lock is held.\<close>

definition renditionGrace :: int where "renditionGrace = 24 * 3600 * 1000"

definition collectRenditions :: "node \<Rightarrow> (string \<Rightarrow> bool) \<Rightarrow> cam_db \<Rightarrow> cam_db \<times> effect list" where
  "collectRenditions n busy d =
    foldl (\<lambda>(d, effs) (i, r).
      let key = Key n (rd_Params r) (case GetAsset (rd_AssetID r) d of None \<Rightarrow> [] | Some a \<Rightarrow> as_Sha256 a) in
      if busy key then (d, effs)
      else case Tx (DeleteRendition_row i) d of
        (None, d') \<Rightarrow> (d', effs @ [RemoveFiles key])
      | (Some e, d') \<Rightarrow> (d', effs))
     (d, []) (ListUnusedRenditions (nd_now n - renditionGrace) d)"

definition validKey :: "string \<Rightarrow> bool" where
  "validKey name = (length name = 64 \<and> list_all (\<lambda>c. hex_val c \<noteq> None) name)"

section \<open>What they keep\<close>

lemma keeps_storeAsset [keep_intros]: "op_keeps schema_ok (storeAsset i row)"
  by (auto simp: storeAsset_def intro!: keep_intros)

lemma keeps_ensureRenditionRow [keep_intros]: "op_keeps schema_ok (ensureRenditionRow n i a ss)"
  unfolding ensureRenditionRow_def Let_def by (auto intro!: keep_intros)

lemma keeps_UploadAsset [keep_intros]: "op_keeps schema_ok (UploadAsset i f sz p)"
  by (auto simp: UploadAsset_def intro!: keep_intros)

lemma keeps_ensureBuiltinAsset [keep_intros]: "op_keeps schema_ok (ensureBuiltinAsset n i)"
  by (auto simp: ensureBuiltinAsset_def intro!: keep_intros)

lemma keeps_DeleteAsset [keep_intros]: "op_keeps schema_ok (DeleteAsset n i)"
  by (auto simp: DeleteAsset_def intro!: keep_intros)

lemma keeps_completeStreams [keep_intros]: "op_keeps schema_ok (completeStreams doc c)"
  by (auto simp: completeStreams_def Let_def intro!: keep_intros)

lemma keeps_streamRendition [keep_intros]: "op_keeps schema_ok (streamRendition n i doc c vs st)"
  by (auto simp: streamRendition_def intro!: keep_intros)

end
