(* ===== verification/Engine_Catalog.thy ===== *)
theory Engine_Catalog
  imports Service_Base
begin

text \<open>
  The catalog of engines (\<^verbatim>\<open>backend/internal/engines/engines.go\<close>), the descriptors of the built-in ones, and
  the engine behind an instance of a profile (\<^verbatim>\<open>backend/internal/profile/document.go\<close>). Version ranges are
  read by the library \<^verbatim>\<open>semver\<close>, a parameter: a range gives a test of versions, and the test of a text
  that is no version gives \<open>None\<close>.
\<close>

datatype role = RoleServer | RoleClient

record socket =
  so_Name :: string
  so_Network :: string
  so_DefaultPort :: int

record descriptor =
  de_Name :: string
  de_Version :: string
  de_Contract :: int
  de_Role :: role
  de_Sockets :: "socket list"

definition Contract :: int where "Contract = 1"

definition rtsp_Describe :: descriptor where
  "rtsp_Describe = \<lparr>de_Name = ''rtsp'', de_Version = ''1.0.0'', de_Contract = Contract, de_Role = RoleServer,
    de_Sockets = [\<lparr>so_Name = ''rtsp'', so_Network = ''tcp'', so_DefaultPort = 554\<rparr>,
      \<lparr>so_Name = ''rtp'', so_Network = ''udp'', so_DefaultPort = 6970\<rparr>,
      \<lparr>so_Name = ''rtcp'', so_Network = ''udp'', so_DefaultPort = 6971\<rparr>]\<rparr>"

definition httpapi_Describe :: descriptor where
  "httpapi_Describe = \<lparr>de_Name = ''http-api'', de_Version = ''1.0.0'', de_Contract = Contract, de_Role = RoleServer,
    de_Sockets = [\<lparr>so_Name = ''http'', so_Network = ''tcp'', so_DefaultPort = 80\<rparr>]\<rparr>"

definition httppush_Describe :: descriptor where
  "httppush_Describe = \<lparr>de_Name = ''http-push'', de_Version = ''1.0.0'', de_Contract = Contract, de_Role = RoleClient,
    de_Sockets = []\<rparr>"

definition Builtin :: "(string, descriptor) table" where
  "Builtin = [(''rtsp'', rtsp_Describe), (''http-api'', httpapi_Describe), (''http-push'', httppush_Describe)]"

definition Names :: "string list" where
  "Names = sort (tkeys Builtin)"

definition Resolve :: "node \<Rightarrow> string \<Rightarrow> string \<Rightarrow> (error, descriptor) result" where
  "Resolve n name rng =
    (case tget Builtin name of
       None \<Rightarrow> Inl (OtherError (msgf ''unknown engine %q (available: %s)'' [AStr name, AStr (join_with '', '' Names)]))
     | Some e \<Rightarrow>
         if de_Contract e \<noteq> Contract then Inl (OtherError (msgf ''engine %s implements contract %d, this MockVision speaks %d''
           [AStr name, AInt (de_Contract e), AInt Contract]))
         else case nd_semver n rng of
           None \<Rightarrow> Inl (OtherError (msgf ''invalid version range %q for engine %s'' [AStr rng, AStr name]))
         | Some allows \<Rightarrow>
             (case allows (de_Version e) of
                None \<Rightarrow> Inl (OtherError (msgf ''engine %s has an invalid version %q'' [AStr name, AStr (de_Version e)]))
              | Some ok \<Rightarrow>
                  if ok then Inr e
                  else Inl (OtherError (msgf ''engine %s %s does not satisfy %s'' [AStr name, AStr (de_Version e), AStr rng]))))"

definition EngineRef :: "string \<Rightarrow> (error, string \<times> string) result" where
  "EngineRef s =
    (case cut (CHR ''@'') s of
       None \<Rightarrow> Inl (OtherError (msgf ''engine reference %q must look like name@range'' [AStr s]))
     | Some (name, rng) \<Rightarrow>
         if name = [] \<or> rng = [] then Inl (OtherError (msgf ''engine reference %q must look like name@range'' [AStr s]))
         else Inr (name, rng))"

definition bad_json :: error where
  "bad_json = OtherError (msg ''invalid JSON'')"

definition section_head :: "document \<Rightarrow> string \<Rightarrow> engine_head option" where
  "section_head doc inst = (case tget (dc_Engines doc) inst of None \<Rightarrow> None | Some h \<Rightarrow> h)"

definition EngineName :: "document \<Rightarrow> string \<Rightarrow> (error, string \<times> string) result" where
  "EngineName doc inst = (case section_head doc inst of None \<Rightarrow> Inl bad_json | Some h \<Rightarrow> EngineRef (eh_Engine h))"

definition instanceDescriptor :: "node \<Rightarrow> document \<Rightarrow> string \<Rightarrow> (error, descriptor) result" where
  "instanceDescriptor n doc inst =
    (case EngineName doc inst of Inl e \<Rightarrow> Inl e | Inr (name, rng) \<Rightarrow> Resolve n name rng)"

definition instancePort :: "node \<Rightarrow> document \<Rightarrow> string \<Rightarrow> (error, int) result" where
  "instancePort n doc inst =
    (case section_head doc inst of
       None \<Rightarrow> Inl bad_json
     | Some h \<Rightarrow>
         if 0 < eh_Port h then Inr (eh_Port h)
         else case EngineRef (eh_Engine h) of
           Inl e \<Rightarrow> Inl e
         | Inr (name, rng) \<Rightarrow>
             (case Resolve n name rng of
                Inl e \<Rightarrow> Inl e
              | Inr e \<Rightarrow> Inr (case de_Sockets e of [] \<Rightarrow> 0 | so # _ \<Rightarrow> so_DefaultPort so)))"

definition SortedKeys :: "(string, 'v) table \<Rightarrow> string list" where
  "SortedKeys t = sort (tkeys t)"

lemma set_SortedKeys [simp]: "set (SortedKeys t) = set (tkeys t)"
  by (simp add: SortedKeys_def)

lemma distinct_SortedKeys: "table_ok t \<Longrightarrow> distinct (SortedKeys t)"
  by (simp add: SortedKeys_def table_ok_def)

end
