(* ===== verification/Secret_Box.thy ===== *)
theory Secret_Box
  imports Service_Base
begin

text \<open>
  The box that seals passwords in the tables (\<^verbatim>\<open>backend/internal/secret/secret.go\<close>). The cipher is a parameter
  with its documented contract: opening what was sealed with the same nonce and context gives the plaintext.
\<close>

definition NonceSize :: nat where "NonceSize = 24"
definition Overhead :: nat where "Overhead = 16"

text \<open>\<open>nonce\<close> is what the random generator gave: \<open>NonceSize\<close> bytes.\<close>

definition Seal :: "node \<Rightarrow> string \<Rightarrow> string \<Rightarrow> string \<Rightarrow> string" where
  "Seal n nonce plaintext ctx = nonce @ nd_aead_seal n nonce plaintext ctx"

definition Open :: "node \<Rightarrow> string \<Rightarrow> string \<Rightarrow> (error, string) result" where
  "Open n sealed ctx =
    (if length sealed < NonceSize + Overhead then Inl (OtherError (msg ''secret: ciphertext too short''))
     else case nd_aead_open n (take NonceSize sealed) (drop NonceSize sealed) ctx of
       None \<Rightarrow> Inl (OtherError (msg ''secret: cannot decrypt (wrong key or context)''))
     | Some plain \<Rightarrow> Inr plain)"

definition aead_ok :: "node \<Rightarrow> bool" where
  "aead_ok n = (\<forall>nonce p ctx. length nonce = NonceSize \<longrightarrow>
     length (nd_aead_seal n nonce p ctx) = length p + Overhead \<and> nd_aead_open n nonce (nd_aead_seal n nonce p ctx) ctx = Some p)"

lemma Open_Seal: "aead_ok n \<Longrightarrow> length nonce = NonceSize \<Longrightarrow> Open n (Seal n nonce p ctx) ctx = Inr p"
  by (auto simp: Open_def Seal_def aead_ok_def)

definition account_ctx :: "string \<Rightarrow> string \<Rightarrow> string" where
  "account_ctx camera username = ''camera_users:'' @ camera @ '':'' @ username"

end
