(* ===== verification/Camera_Network.thy ===== *)
theory Camera_Network
  imports Assets Engine_Catalog Secret_Box Domain_Mask
begin

text \<open>
  What the camera service checks before it stores a camera (\<^verbatim>\<open>backend/internal/app/cameras.go\<close>): the network
  identity and its uniqueness, DNS servers, settings bound to the profile, serials, and the stored camera
  an operation starts from.
\<close>

section \<open>The stored camera\<close>

record camera_bundle =
  b_cam :: camera_row
  b_net :: network_row
  b_archived :: bool
  b_doc :: document
  b_state :: "(string, param_row) table"
  b_protos :: "(string, protocol_row) table"
  b_users :: "account_row list"
  b_streams :: "(string, stream_row) table"
  b_targets :: "(string \<times> link_row \<times> target_row) list"
  b_status :: "camera_status_row option"

definition no_rows :: error where
  "no_rows = OtherError (msg ''sql: no rows in result set'')"

definition load :: "string \<Rightarrow> cam_db \<Rightarrow> (error, camera_bundle) result" where
  "load i d =
    (case GetCamera i d of
       None \<Rightarrow> Inl ErrNotFound
     | Some cam \<Rightarrow>
         (case (GetCameraNetwork i d, GetProfileByRef (cm_ProfileID cam) (cm_ProfileVersion cam) d) of
            (Some net, Some p) \<Rightarrow>
              (case pf_Doc p of
                 None \<Rightarrow> Inl (OtherError (msgf ''stored profile %s is invalid'' [AStr (cm_ProfileID cam @ ''@'' @ cm_ProfileVersion cam)]))
               | Some doc \<Rightarrow> Inr \<lparr>b_cam = cam, b_net = net, b_archived = pf_Archived p, b_doc = doc, b_state = ListCameraState i d,
                   b_protos = ListCameraProtocols i d, b_users = ListCameraUsers i d, b_streams = ListCameraStreams i d,
                   b_targets = ListCameraTargets i d, b_status = GetCameraStatus i d\<rparr>)
          | _ \<Rightarrow> Inl no_rows))"

definition loadBundle :: "string \<Rightarrow> camera_bundle op" where
  "loadBundle i d = (load i d, d)"

lemma keeps_loadBundle [keep_intros]: "op_keeps P (loadBundle i)"
  by (simp add: op_keeps_def loadBundle_def)

lemma loadBundle_simp [simp]: "loadBundle i d = (r, d') \<longleftrightarrow> r = load i d \<and> d' = d"
  by (auto simp: loadBundle_def)

definition bundle_values :: "node \<Rightarrow> camera_bundle \<Rightarrow> (string, gval) table" where
  "bundle_values n b =
    camera_values (nd_values n) (nd_unmarshal n) (dc_Model (b_doc b))
      (map (\<lambda>(k, r). \<lparr>sr_Key = k, sr_Value = cs_Value r, sr_Origin = cs_Origin r\<rparr>) (b_state b))"

section \<open>Network identity\<close>

record NetworkInput =
  in_Parent :: string
  in_MAC :: string
  in_DefaultMAC :: bool
  in_VendorOUI :: bool
  in_IP :: string
  in_Netmask :: string
  in_Gateway :: string
  in_DNS :: "string list"

record resolvedNetwork =
  rv_Parent :: string
  rv_MAC :: string
  rv_IP :: string
  rv_Netmask :: string
  rv_Gateway :: string
  rv_Prefix :: int
  rv_DNS :: "string list"

fun parseDNS_loop :: "node \<Rightarrow> string list \<Rightarrow> string list \<Rightarrow> (error, string list) result" where
  "parseDNS_loop n out [] = Inr out"
| "parseDNS_loop n out (raw # rest) =
    (let s = trim_space raw in
     if s = [] then parseDNS_loop n out rest
     else case ParseAddr n s of
       None \<Rightarrow> Inl (invalid ''network.dns'' (msgf ''%q is not an IP address'' [AStr s]))
     | Some a \<Rightarrow>
         let t = addr_str n a in parseDNS_loop n (if contains out t then out else out @ [t]) rest)"

definition parseDNS :: "node \<Rightarrow> string list \<Rightarrow> (error, string list) result" where
  "parseDNS n ins =
    (case parseDNS_loop n [] ins of
       Inl e \<Rightarrow> Inl e
     | Inr out \<Rightarrow> if 3 < length out then Inl (invalid ''network.dns'' (msg ''at most 3 servers'')) else Inr out)"

definition first_set :: "string list \<Rightarrow> string" where
  "first_set xs = (case List.find (\<lambda>s. s \<noteq> []) xs of Some s \<Rightarrow> s | None \<Rightarrow> [])"

definition vendor_oui :: "document \<Rightarrow> NetworkInput \<Rightarrow> hwaddr" where
  "vendor_oui doc x =
    (if in_VendorOUI x \<and> dc_OUI doc \<noteq> [] then (case ParseOUI (dc_OUI doc) of Inl e \<Rightarrow> [] | Inr o3 \<Rightarrow> o3) else [])"

definition resolve_mac :: "node \<Rightarrow> string \<Rightarrow> document \<Rightarrow> NetworkInput \<Rightarrow> (error, string) result" where
  "resolve_mac n i doc x =
    (if in_MAC x \<noteq> [] \<and> \<not> in_DefaultMAC x then
       (case ParseMAC (in_MAC x) of Inl e \<Rightarrow> Inl (invalid ''network.mac'' e) | Inr hw \<Rightarrow> Inr (hw_str hw))
     else Inr (hw_str (DeriveMAC (nd_sha n) i (vendor_oui doc x))))"

text \<open>The interface of the node that has an address, if any.\<close>

definition node_address :: "node_info \<Rightarrow> ip4 \<Rightarrow> node_interface option" where
  "node_address info ip =
    List.find (\<lambda>f. list_ex (\<lambda>a. case ParsePrefix a of None \<Rightarrow> False | Some (p, b) \<Rightarrow> p = ip) (if_Addrs f)) (ni_Interfaces info)"

definition interface_prefix :: "node_interface \<Rightarrow> ip4 \<Rightarrow> int" where
  "interface_prefix f ip =
    foldl (\<lambda>prefix a. case ParsePrefix a of None \<Rightarrow> prefix | Some (p, b) \<Rightarrow> if prefix_contains p b ip then int b else prefix)
      24 (if_Addrs f)"

definition inside :: "ip4 \<Rightarrow> int \<Rightarrow> addr \<Rightarrow> bool" where
  "inside ip prefix g = (case g of Addr4 a \<Rightarrow> 0 \<le> prefix \<and> prefix \<le> 32 \<and> prefix_contains ip (nat prefix) a | _ \<Rightarrow> False)"

definition resolve_gateway :: "node \<Rightarrow> node_info \<Rightarrow> NetworkInput \<Rightarrow> ip4 \<Rightarrow> int \<Rightarrow> (error, addr) result" where
  "resolve_gateway n info x ip prefix =
    (if in_Gateway x \<noteq> [] then
       (case ParseAddr n (in_Gateway x) of
          None \<Rightarrow> Inl (invalid ''network.gateway'' (msg ''must be an IPv4 address''))
        | Some g \<Rightarrow> Inr g)
     else if ni_DefaultGateway info \<noteq> [] then
       (case ParseAddr n (ni_DefaultGateway info) of
          Some g \<Rightarrow> Inr (if inside ip prefix g then g else NoAddr)
        | None \<Rightarrow> Inr NoAddr)
     else Inr NoAddr)"

definition resolve_prefix :: "NetworkInput \<Rightarrow> node_interface \<Rightarrow> ip4 \<Rightarrow> (error, int) result" where
  "resolve_prefix x f ip =
    (if in_Netmask x \<noteq> [] then
       (case MaskToPrefix (in_Netmask x) of Inl e \<Rightarrow> Inl (invalid ''network.netmask'' e) | Inr p \<Rightarrow> Inr p)
     else Inr (interface_prefix f ip))"

definition resolve_ip :: "node \<Rightarrow> node_info \<Rightarrow> NetworkInput \<Rightarrow> (error, ip4) result" where
  "resolve_ip n info x =
    (if trim_space (in_IP x) = [] then Inl (invalid ''network.ip'' (msg ''is required''))
     else case ParseAddr n (trim_space (in_IP x)) of
       Some (Addr4 ip) \<Rightarrow>
         (case node_address info ip of
            Some f \<Rightarrow> Inl (invalid ''network.ip'' (msgf ''%s belongs to the node itself (%s)'' [AStr (ip4_str ip), AStr (if_Name f)]))
          | None \<Rightarrow> Inr ip)
     | _ \<Rightarrow> Inl (invalid ''network.ip'' (msg ''must be an IPv4 address'')))"

definition camera_identity :: "string \<Rightarrow> string \<Rightarrow> ip4 \<Rightarrow> int \<Rightarrow> addr \<Rightarrow> NetIdentity" where
  "camera_identity parent mac ip prefix gw =
    \<lparr>nid_Mode = NetMacvlan, nid_ParentIf = parent, nid_MAC = mac, nid_IPMode = IPStatic, nid_IP = Addr4 ip,
     nid_Prefix = prefix, nid_Gateway = gw, nid_DNS = []\<rparr>"

definition resolveNetwork :: "node \<Rightarrow> string \<Rightarrow> document \<Rightarrow> NetworkInput \<Rightarrow> (error, resolvedNetwork) result" where
  "resolveNetwork n i doc x =
    (case parseDNS n (in_DNS x) of
       Inl e \<Rightarrow> Inl e
     | Inr dns \<Rightarrow>
     (case resolve_mac n i doc x of
       Inl e \<Rightarrow> Inl e
     | Inr mac \<Rightarrow>
     if nd_local n then
       Inr \<lparr>rv_Parent = [], rv_MAC = mac, rv_IP = [], rv_Netmask = [], rv_Gateway = [], rv_Prefix = 0, rv_DNS = dns\<rparr>
     else
     (case nd_info n of
       None \<Rightarrow> Inl (OtherError (msg ''cannot read the network of the node''))
     | Some info \<Rightarrow>
     let parent = first_set [in_Parent x, nd_parent_setting n, nd_parent_option n, ni_DefaultInterface info] in
     (case Lookup info parent of
       None \<Rightarrow> Inl (invalid ''network.parent'' (msgf ''interface %q does not exist on this node'' [AStr parent]))
     | Some f \<Rightarrow>
     (case resolve_ip n info x of
       Inl e \<Rightarrow> Inl e
     | Inr ip \<Rightarrow>
     (case resolve_prefix x f ip of
       Inl e \<Rightarrow> Inl e
     | Inr prefix \<Rightarrow>
     (case resolve_gateway n info x ip prefix of
       Inl e \<Rightarrow> Inl e
     | Inr gw \<Rightarrow>
     (case NetIdentity_Validate (camera_identity parent mac ip prefix gw) of
       Some e \<Rightarrow> Inl e
     | None \<Rightarrow>
         Inr \<lparr>rv_Parent = parent, rv_MAC = mac, rv_IP = ip4_str ip, rv_Netmask = PrefixToMask prefix,
              rv_Gateway = (if gw = NoAddr then [] else addr_str n gw), rv_Prefix = prefix, rv_DNS = dns\<rparr>))))))))"

definition checkUniqueNetwork :: "string \<Rightarrow> resolvedNetwork \<Rightarrow> cam_db \<Rightarrow> error option" where
  "checkUniqueNetwork self nw d =
    (case (if rv_IP nw \<noteq> [] then CameraIDByIP (rv_IP nw) d else None) of
       Some other \<Rightarrow>
         if other \<noteq> self then
           Some (conflict ''network.ip'' (msgf ''IP %s is already used by camera %s''
             [AStr (rv_IP nw), AStr (case GetCamera other d of Some c \<Rightarrow> cm_Name c | None \<Rightarrow> other)]))
         else (case CameraIDByMAC (rv_MAC nw) d of
                 Some m \<Rightarrow> if m \<noteq> self then Some (conflict ''network.mac'' (msgf ''MAC %s is already used by another camera'' [AStr (rv_MAC nw)])) else None
               | None \<Rightarrow> None)
     | None \<Rightarrow> (case CameraIDByMAC (rv_MAC nw) d of
                 Some m \<Rightarrow> if m \<noteq> self then Some (conflict ''network.mac'' (msgf ''MAC %s is already used by another camera'' [AStr (rv_MAC nw)])) else None
               | None \<Rightarrow> None))"

definition checkUnique :: "string \<Rightarrow> resolvedNetwork \<Rightarrow> cam_db \<Rightarrow> error option" where
  "checkUnique name nw d =
    (if CameraIDByName name d \<noteq> None then Some (conflict ''name'' (msgf ''a camera named %q already exists'' [AStr name]))
     else checkUniqueNetwork [] nw d)"

section \<open>Settings bound to the profile\<close>

definition format_f :: "value_env \<Rightarrow> float64 \<Rightarrow> string" where
  "format_f env x = (if x = of_int \<lfloor>x\<rfloor> then itoa \<lfloor>x\<rfloor> else sprint_float env x)"

definition coerce_message :: "value_env \<Rightarrow> coerce_error \<Rightarrow> message" where
  "coerce_message env e =
    (case e of
       MustBeString \<Rightarrow> msg ''must be a string''
     | TooLong k \<Rightarrow> msgf ''must be at most %d characters'' [AInt k]
     | HasControl \<Rightarrow> msg ''must not contain control characters''
     | NotInteger \<Rightarrow> msg ''must be an integer''
     | NotNumber \<Rightarrow> msg ''must be a number''
     | NotBool \<Rightarrow> msg ''must be true or false''
     | BelowMin m \<Rightarrow> msgf ''must be at least %s'' [AStr (format_f env m)]
     | AboveMax m \<Rightarrow> msgf ''must be at most %s'' [AStr (format_f env m)]
     | NotOneOf opts \<Rightarrow> msgf ''must be one of %s'' [AStr (join_with '', '' opts)]
     | UnknownType t \<Rightarrow> msgf ''unknown type %q'' [AStr t])"

type_synonym settings = "(string, gval) table"

definition zero_param :: param where
  "zero_param = \<lparr>pa_Type = TypeOther [], pa_Default = GNil, pa_Values = [], pa_Min = None, pa_Max = None, pa_MaxLength = 0, pa_Bind = []\<rparr>"

definition param_of :: "profile_doc \<Rightarrow> string \<Rightarrow> param" where
  "param_of m key = (case tget (pd_State m) key of None \<Rightarrow> zero_param | Some p \<Rightarrow> p)"

definition setBound ::
  "node \<Rightarrow> profile_doc \<Rightarrow> string \<Rightarrow> gval \<Rightarrow> string \<Rightarrow> settings \<times> settings \<Rightarrow> (error, settings \<times> settings) result" where
  "setBound n m canon v field vo =
    (case vo of (values, overrides) \<Rightarrow>
      (case NativeFor m canon of
         None \<Rightarrow>
           (case Canon m canon values of
              Some cur \<Rightarrow>
                if sprint (nd_values n) cur = sprint (nd_values n) v then Inr (values, overrides)
                else Inl (invalid field (msgf ''this profile does not allow changing %s'' [AStr canon]))
            | None \<Rightarrow> Inl (invalid field (msgf ''this profile does not allow changing %s'' [AStr canon])))
       | Some key \<Rightarrow>
           (case Coerce (nd_values n) (param_of m key) v of
              Inl e \<Rightarrow> Inl (invalid field (coerce_message (nd_values n) e))
            | Inr cv \<Rightarrow> Inr (tput key cv values, tput key cv overrides))))"

text \<open>The serial of a camera, drawn from the hash of its ID, hashed again when its 32 bytes are used up.\<close>

definition serial_next :: "node \<Rightarrow> 8 word list \<times> nat \<Rightarrow> nat \<Rightarrow> nat \<times> 8 word list \<times> nat" where
  "serial_next n st k =
    (case st of (seed, i) \<Rightarrow>
      let b = unat (seed ! (i mod length seed)); i = i + 1;
          seed = (if i mod length seed = 0 then nd_sha n (map (\<lambda>w. char_of (unat w)) seed) else seed)
      in (b mod k, seed, i))"

definition serialFor :: "node \<Rightarrow> string \<Rightarrow> string \<Rightarrow> string" where
  "serialFor n i m = fst (ExpandMask (serial_next n) m (nd_sha n (''mockvision-serial:'' @ i), 0))"

fun dedupe_loop :: "string set \<Rightarrow> string list \<Rightarrow> string list" where
  "dedupe_loop seen [] = []"
| "dedupe_loop seen (s # xs) = (if s \<in> seen then dedupe_loop seen xs else s # dedupe_loop (insert s seen) xs)"

definition dedupe :: "string list \<Rightarrow> string list" where
  "dedupe xs = dedupe_loop {} xs"

lemma dedupe_loop_set: "set (dedupe_loop seen xs) = set xs - seen"
  by (induction xs arbitrary: seen) auto

lemma dedupe_set [simp]: "set (dedupe xs) = set xs"
  by (simp add: dedupe_def dedupe_loop_set)

lemma dedupe_loop_distinct: "distinct (dedupe_loop seen xs)"
  by (induction xs arbitrary: seen) (auto simp: dedupe_loop_set)

lemma dedupe_distinct [simp]: "distinct (dedupe xs)"
  by (simp add: dedupe_def dedupe_loop_distinct)

end
