(* ===== verification/Cameras.thy ===== *)
theory Cameras
  imports Camera_Network
begin

text \<open>
  Creating, changing and deleting cameras (\<^verbatim>\<open>backend/internal/app/cameras.go\<close>). Each operation checks its
  input in the order of the code, then writes in one transaction.
\<close>

record user_input =
  ui_Username :: string
  ui_Password :: string
  ui_Role :: string

record stream_input =
  si_AssetID :: string
  si_Codec :: string
  si_Resolution :: string
  si_FPS :: int

record CreateCameraInput =
  ci_Name :: string
  ci_ProfileID :: string
  ci_ProfileVersion :: string
  ci_Network :: NetworkInput
  ci_Users :: "user_input list"
  ci_Stream :: stream_input
  ci_TargetIDs :: "string list"
  ci_Autostart :: "bool option"
  ci_Start :: bool
  ci_Tags :: "string list"

text \<open>The identifiers, nonces and the like an operation draws.\<close>

record fresh =
  fr_id :: string
  fr_user :: "nat \<Rightarrow> string"
  fr_nonce :: "nat \<Rightarrow> string"
  fr_asset :: string
  fr_rendition :: "nat \<Rightarrow> string"

section \<open>Rows of a camera\<close>

definition fail_step :: "error \<Rightarrow> stmt" where
  "fail_step e d = Inl (StepError e)"

lemma keeps_fail [keep_intros]: "keeps P (fail_step e)"
  by (simp add: keeps_def fail_step_def)

definition role_of :: "string \<Rightarrow> user_role" where
  "role_of s = (if s = ''admin'' then RoleAdmin else if s = ''operator'' then RoleOperator
     else if s = ''viewer'' then RoleViewer else RoleOther s)"

definition domain_user :: "user_input \<Rightarrow> CameraUser" where
  "domain_user u = \<lparr>cu_ID = [], cu_Username = ui_Username u, cu_Password = ui_Password u, cu_Role = role_of (ui_Role u)\<rparr>"

definition factory_users :: "document \<Rightarrow> user_input list" where
  "factory_users doc = map (\<lambda>u. \<lparr>ui_Username = fu_Username u, ui_Password = fu_Password u, ui_Role = fu_Role u\<rparr>) (dc_FactoryUsers doc)"

definition or_admin :: "user_input \<Rightarrow> user_input" where
  "or_admin u = (if ui_Role u = [] then u\<lparr>ui_Role := ''admin''\<rparr> else u)"

definition value_of :: "settings \<Rightarrow> string \<Rightarrow> gval" where
  "value_of values k = (case tget values k of Some v \<Rightarrow> v | None \<Rightarrow> GNil)"

text \<open>\<^verbatim>\<open>for _, key := range profile.SortedKeys(values)\<close>: one row per parameter.\<close>

definition state_row_of :: "node \<Rightarrow> settings \<Rightarrow> (string \<Rightarrow> string) \<Rightarrow> string \<Rightarrow> param_row" where
  "state_row_of n values origin k = \<lparr>cs_Value = nd_marshal n (value_of values k), cs_Origin = origin k, cs_UpdatedAt = nd_now n\<rparr>"

definition write_state :: "node \<Rightarrow> string \<Rightarrow> settings \<Rightarrow> (string \<Rightarrow> string) \<Rightarrow> stmt" where
  "write_state n i values origin =
    for_each (SortedKeys values) (\<lambda>k. UpsertCameraState i k (state_row_of n values origin k))"

definition account_of :: "node \<Rightarrow> fresh \<Rightarrow> string \<Rightarrow> nat \<Rightarrow> user_input \<Rightarrow> account_row" where
  "account_of n f i k u = \<lparr>ac_CameraID = i, ac_Username = ui_Username u,
     ac_PasswordEnc = Seal n (fr_nonce f k) (ui_Password u) (account_ctx i (ui_Username u)), ac_Role = ui_Role u\<rparr>"

definition write_users :: "node \<Rightarrow> fresh \<Rightarrow> string \<Rightarrow> user_input list \<Rightarrow> stmt" where
  "write_users n f i users =
    for_each (enumerate 0 users) (\<lambda>(k, u). InsertCameraUser (fr_user f k) (account_of n f i k u))"

definition write_protocols :: "node \<Rightarrow> document \<Rightarrow> string \<Rightarrow> stmt" where
  "write_protocols n doc i =
    for_each (SortedKeys (dc_Engines doc)) (\<lambda>inst.
      case instancePort n doc inst of
        Inl e \<Rightarrow> fail_step e
      | Inr port \<Rightarrow> InsertCameraProtocol i inst \<lparr>cp_Enabled = True, cp_Port = port, cp_Options = ''{}''\<rparr>)"

definition write_streams :: "string \<Rightarrow> string \<Rightarrow> (string \<times> string) list \<Rightarrow> stmt" where
  "write_streams i asset rends =
    for_each rends (\<lambda>(name, r). UpsertCameraStream i name \<lparr>sw_AssetID = asset, sw_RenditionID = Some r\<rparr>)"

definition write_links :: "string \<Rightarrow> string list \<Rightarrow> stmt" where
  "write_links i targets = for_each (dedupe targets) (\<lambda>t. InsertCameraTarget i t \<lparr>ln_EventTypes = [], ln_Overrides = ''{}''\<rparr>)"

definition stopped_status :: "node \<Rightarrow> camera_status_row" where
  "stopped_status n = \<lparr>cst_State = StateStopped, cst_Reason = [], cst_StartedAt = None, cst_UpdatedAt = nd_now n\<rparr>"

definition network_of :: "net_mode \<Rightarrow> ip_mode \<Rightarrow> resolvedNetwork \<Rightarrow> network_row" where
  "network_of mode ipm nw = \<lparr>cn_Mode = mode, cn_ParentIf = rv_Parent nw, cn_Mac = rv_MAC nw, cn_IpMode = ipm,
     cn_Ip = rv_IP nw, cn_Netmask = rv_Netmask nw, cn_Gateway = rv_Gateway nw, cn_Dns = rv_DNS nw\<rparr>"

definition network_change :: "resolvedNetwork \<Rightarrow> string list \<Rightarrow> network_update" where
  "network_change nw dns = \<lparr>nu_ParentIf = rv_Parent nw, nu_Mac = rv_MAC nw, nu_Ip = rv_IP nw, nu_Netmask = rv_Netmask nw,
     nu_Gateway = rv_Gateway nw, nu_Dns = dns\<rparr>"

section \<open>Create\<close>

definition wanted_settings :: "node \<Rightarrow> profile_doc \<Rightarrow> stream_input \<Rightarrow> (error, settings \<times> settings) result" where
  "wanted_settings n m st =
    (let start = (Defaults m, []);
         r1 = (if si_Codec st \<noteq> [] then setBound n m ''media.main.codec'' (GStr (si_Codec st)) ''stream.codec'' start else Inr start) in
     case r1 of Inl e \<Rightarrow> Inl e | Inr vo1 \<Rightarrow>
     (case (if si_Resolution st \<noteq> [] then setBound n m ''media.main.resolution'' (GStr (si_Resolution st)) ''stream.resolution'' vo1
            else Inr vo1) of Inl e \<Rightarrow> Inl e | Inr vo2 \<Rightarrow>
      (if si_FPS st \<noteq> 0 then setBound n m ''media.main.fps'' (GInt (si_FPS st)) ''stream.fps'' vo2 else Inr vo2)))"

fun stream_settings :: "node \<Rightarrow> profile_doc \<Rightarrow> settings \<Rightarrow> string list \<Rightarrow> (error, (string \<times> StreamSettings) list) result" where
  "stream_settings n m values [] = Inr []"
| "stream_settings n m values (name # names) =
    (case StreamFor (nd_values n) m name values of
       Inl e \<Rightarrow> Inl (invalid ''stream'' (stream_failed e))
     | Inr s \<Rightarrow> (case stream_settings n m values names of Inl e \<Rightarrow> Inl e | Inr ss \<Rightarrow> Inr ((name, s) # ss)))"

definition named_stream :: "string \<Rightarrow> string op \<Rightarrow> string op" where
  "named_stream name m d = (case m d of (Inl e, d') \<Rightarrow> (Inl (streamError name e), d') | (Inr r, d') \<Rightarrow> (Inr r, d'))"

lemma keeps_named_stream [keep_intros]: "op_keeps P m \<Longrightarrow> op_keeps P (named_stream name m)"
  by (auto simp: op_keeps_def named_stream_def split: prod.split sum.split)

definition archived_error :: "string \<Rightarrow> string \<Rightarrow> error" where
  "archived_error p v = invalid ''profile_id'' (msgf ''profile %s@%s is archived and no longer offered for new cameras'' [AStr p, AStr v])"

definition camera_conflict :: "store_error \<Rightarrow> error" where
  "camera_conflict = or_conflict ''name'' (msg ''a camera with this name, IP or MAC already exists'')"

definition target_missing :: "string list \<Rightarrow> cam_db \<Rightarrow> error option" where
  "target_missing ts d =
    (case List.find (\<lambda>t. GetTarget t d = None) ts of
       None \<Rightarrow> None
     | Some t \<Rightarrow> Some (invalid ''target_ids'' (msgf ''target %s does not exist'' [AStr t])))"

definition new_camera :: "node \<Rightarrow> string \<Rightarrow> string \<Rightarrow> string \<Rightarrow> string \<Rightarrow> document \<Rightarrow> bool \<Rightarrow> string list \<Rightarrow> camera_row" where
  "new_camera n i name p v doc autostart tags =
    \<lparr>cm_Name = name, cm_ProfileID = p, cm_ProfileVersion = v, cm_Serial = serialFor n i (dc_Serial doc),
     cm_Desired = DesiredStopped, cm_Autostart = autostart, cm_Tags = tags, cm_CreatedAt = nd_now n, cm_UpdatedAt = nd_now n\<rparr>"

definition create_rows ::
  "node \<Rightarrow> fresh \<Rightarrow> CreateCameraInput \<Rightarrow> document \<Rightarrow> resolvedNetwork \<Rightarrow> user_input list \<Rightarrow> string list \<Rightarrow> settings \<times> settings \<Rightarrow>
   string \<Rightarrow> (string \<times> string) list \<Rightarrow> stmt" where
  "create_rows n f x doc nw users tags vo asset rends =
    (let i = fr_id f; (values, overrides) = vo in
     all_of [
       InsertCamera i (new_camera n i (trim_space (ci_Name x)) (ci_ProfileID x) (ci_ProfileVersion x) doc
         (case ci_Autostart x of None \<Rightarrow> True | Some a \<Rightarrow> a) tags),
       InsertCameraNetwork i (network_of NetMacvlan IPStatic nw),
       write_state n i values (\<lambda>k. if tget overrides k \<noteq> None then ''panel'' else ''profile''),
       write_protocols n doc i,
       write_users n f i users,
       write_streams i asset rends,
       write_links i (ci_TargetIDs x),
       UpsertCameraStatus i (stopped_status n)])"

definition create_users :: "CreateCameraInput \<Rightarrow> document \<Rightarrow> user_input list" where
  "create_users x doc = map or_admin (if ci_Users x = [] then factory_users doc else ci_Users x)"

text \<open>The checks before the picture is looked up.\<close>

definition create_check ::
  "node \<Rightarrow> fresh \<Rightarrow> CreateCameraInput \<Rightarrow> cam_db \<Rightarrow>
   (error, document \<times> resolvedNetwork \<times> string list \<times> (settings \<times> settings) \<times> (string \<times> StreamSettings) list) result" where
  "create_check n f x d =
    (case validate_camera_name (trim_space (ci_Name x)) of Some e \<Rightarrow> Inl e | None \<Rightarrow>
    (case normalize_tags (nd_lower n) (ci_Tags x) of Inl e \<Rightarrow> Inl e | Inr tags \<Rightarrow>
    (case GetProfileByRef (ci_ProfileID x) (ci_ProfileVersion x) d of
       None \<Rightarrow> Inl (invalid ''profile_id'' (msgf ''profile %s@%s is not installed'' [AStr (ci_ProfileID x), AStr (ci_ProfileVersion x)]))
     | Some p \<Rightarrow>
     if pf_Archived p then Inl (archived_error (ci_ProfileID x) (ci_ProfileVersion x))
     else (case pf_Doc p of
       None \<Rightarrow> Inl (OtherError (msgf ''stored profile %s is invalid'' [AStr (ci_ProfileID x @ ''@'' @ ci_ProfileVersion x)]))
     | Some doc \<Rightarrow>
    (case resolveNetwork n (fr_id f) doc (ci_Network x) of Inl e \<Rightarrow> Inl e | Inr nw \<Rightarrow>
    (case ValidateCameraUsers (nd_lower n) (map domain_user (create_users x doc)) of Some e \<Rightarrow> Inl e | None \<Rightarrow>
    (case wanted_settings n (dc_Model doc) (ci_Stream x) of Inl e \<Rightarrow> Inl e | Inr vo \<Rightarrow>
    (case stream_settings n (dc_Model doc) (fst vo) (streamNames doc) of Inl e \<Rightarrow> Inl e | Inr ss \<Rightarrow>
       Inr (doc, nw, tags, vo, ss)))))))))"

definition create_asset :: "node \<Rightarrow> fresh \<Rightarrow> string \<Rightarrow> string op" where
  "create_asset n f given =
    and_then (if given = [] then ensureBuiltinAsset n (fr_asset f) else give given) (\<lambda>a.
      and_then (ask (GetAsset a)) (\<lambda>found.
        if found = None then refuse (invalid ''stream.asset_id'' (msgf ''asset %s does not exist'' [AStr a])) else give a))"

definition create_renditions :: "node \<Rightarrow> fresh \<Rightarrow> string \<Rightarrow> (string \<times> StreamSettings) list \<Rightarrow> (string \<times> string) list op" where
  "create_renditions n f asset ss =
    each_op (\<lambda>(k, name, s). and_then (named_stream name (ensureRenditionRow n (fr_rendition f k) asset s)) (\<lambda>r. give (name, r)))
      (enumerate 0 ss)"

definition CreateCamera :: "node \<Rightarrow> fresh \<Rightarrow> CreateCameraInput \<Rightarrow> effect list op" where
  "CreateCamera n f x =
    and_then (and_then (ask (create_check n f x)) attempt) (\<lambda>(doc, nw, tags, vo, ss).
    and_then (create_asset n f (si_AssetID (ci_Stream x))) (\<lambda>asset.
    and_then (and_then (ask (target_missing (ci_TargetIDs x))) check) (\<lambda>_.
    and_then (and_then (ask (checkUnique (trim_space (ci_Name x)) nw)) check) (\<lambda>_.
    and_then (admitCreate n) (\<lambda>_.
    and_then (create_renditions n f asset ss) (\<lambda>rends.
    and_then (commit camera_conflict (create_rows n f x doc nw (create_users x doc) tags vo asset rends)) (\<lambda>_.
      give (map (\<lambda>(name, r). EncodeAsync r) rends @ [Audit ''camera.create'' (fr_id f), PublishCamera ''created'' (fr_id f)] @
        (if ci_Start x then [StartCall (fr_id f)] else [])))))))))"

section \<open>Update, delete, configure\<close>

record UpdateCameraInput =
  uc_Name :: "string option"
  uc_Autostart :: "bool option"
  uc_Tags :: "string list option"
  uc_TargetIDs :: "string list option"
  uc_Network :: "NetworkInput option"

definition update_name :: "string \<Rightarrow> UpdateCameraInput \<Rightarrow> camera_bundle \<Rightarrow> cam_db \<Rightarrow> (error, string) result" where
  "update_name i x b d =
    (case uc_Name x of
       None \<Rightarrow> Inr (cm_Name (b_cam b))
     | Some raw \<Rightarrow>
         (let name = trim_space raw in
          case validate_camera_name name of
            Some e \<Rightarrow> Inl e
          | None \<Rightarrow>
              (case CameraIDByName name d of
                 Some other \<Rightarrow>
                   if other \<noteq> i then Inl (conflict ''name'' (msgf ''a camera named %q already exists'' [AStr name])) else Inr name
               | None \<Rightarrow> Inr name)))"

definition kept_mac :: "NetworkInput \<Rightarrow> camera_bundle \<Rightarrow> NetworkInput" where
  "kept_mac x b = (if in_MAC x = [] \<and> \<not> in_DefaultMAC x \<and> \<not> in_VendorOUI x then x\<lparr>in_MAC := cn_Mac (b_net b)\<rparr> else x)"

definition update_network ::
  "node \<Rightarrow> string \<Rightarrow> UpdateCameraInput \<Rightarrow> camera_bundle \<Rightarrow> cam_db \<Rightarrow> (error, resolvedNetwork option) result" where
  "update_network n i x b d =
    (case uc_Network x of
       None \<Rightarrow> Inr None
     | Some nin \<Rightarrow>
         (case resolveNetwork n i (b_doc b) (kept_mac nin b) of
            Inl e \<Rightarrow> Inl e
          | Inr nw \<Rightarrow> (case checkUniqueNetwork i nw d of Some e \<Rightarrow> Inl e | None \<Rightarrow> Inr (Some nw))))"

definition update_rows ::
  "node \<Rightarrow> string \<Rightarrow> UpdateCameraInput \<Rightarrow> string \<Rightarrow> bool \<Rightarrow> string list \<Rightarrow> resolvedNetwork option \<Rightarrow> stmt" where
  "update_rows n i x name autostart tags nw =
    all_of [
      UpdateCameraMeta i name autostart tags (nd_now n),
      (case nw of None \<Rightarrow> skip | Some w \<Rightarrow> UpdateCameraNetwork i (network_change w (rv_DNS w))),
      (case uc_TargetIDs x of None \<Rightarrow> skip | Some ts \<Rightarrow> then_do (DeleteCameraTargets i) (write_links i ts))]"

definition UpdateCamera :: "node \<Rightarrow> string \<Rightarrow> UpdateCameraInput \<Rightarrow> effect list op" where
  "UpdateCamera n i x =
    and_then (loadBundle i) (\<lambda>b.
    and_then (and_then (ask (update_name i x b)) attempt) (\<lambda>name.
    and_then (attempt (case uc_Tags x of None \<Rightarrow> Inr (cm_Tags (b_cam b)) | Some ts \<Rightarrow> normalize_tags (nd_lower n) ts)) (\<lambda>tags.
    and_then (and_then (ask (target_missing (case uc_TargetIDs x of None \<Rightarrow> [] | Some ts \<Rightarrow> ts))) check) (\<lambda>_.
    and_then (and_then (ask (update_network n i x b)) attempt) (\<lambda>nw.
    and_then (commit camera_conflict (update_rows n i x name
        (case uc_Autostart x of None \<Rightarrow> cm_Autostart (b_cam b) | Some a \<Rightarrow> a) tags nw)) (\<lambda>_.
      give (Audit ''camera.update'' i # (if uc_TargetIDs x \<noteq> None \<and> nd_active n i then [SendTargets i] else []) @
        [PublishCamera ''updated'' i])))))))"

definition DeleteCamera_op :: "node \<Rightarrow> string \<Rightarrow> effect list op" where
  "DeleteCamera_op n i =
    and_then (ask (GetCamera i)) (\<lambda>c.
      if c = None then refuse ErrNotFound
      else and_then (commit store_failed (DeleteCamera_row i)) (\<lambda>_.
        give [Audit ''camera.delete'' i, PublishCamera ''deleted'' i]))"

definition media_bind :: "string \<Rightarrow> bool" where
  "media_bind b = has_prefix ''media.'' b"

definition afterChanges :: "profile_doc \<Rightarrow> string \<Rightarrow> (string \<times> gval) list \<Rightarrow> effect list" where
  "afterChanges m i changes =
    PublishConfig i changes # (if list_ex (\<lambda>(k, v). media_bind (pa_Bind (param_of m k))) changes then [RegenerateLater i] else [])"

definition write_changes :: "node \<Rightarrow> string \<Rightarrow> string \<Rightarrow> (string \<times> gval) list \<Rightarrow> stmt" where
  "write_changes n i origin changes =
    for_each changes (\<lambda>(k, v). UpsertCameraState i k \<lparr>cs_Value = nd_marshal n v, cs_Origin = origin, cs_UpdatedAt = nd_now n\<rparr>)"

definition config_field :: "value_env \<Rightarrow> string \<times> config_error \<Rightarrow> field_error" where
  "config_field env p =
    \<lparr>fe_field = fst p, fe_message = (case snd p of UnknownParameter \<Rightarrow> msg ''unknown parameter'' | BadValue e \<Rightarrow> coerce_message env e)\<rparr>"

definition ConfigureCamera :: "node \<Rightarrow> string \<Rightarrow> (string, gval) table \<Rightarrow> effect list op" where
  "ConfigureCamera n i ins =
    and_then (loadBundle i) (\<lambda>b.
    if ins = [] then refuse (invalid [] (msg ''no parameters to change''))
    else case coerce_all (nd_values n) (dc_Model (b_doc b)) ins of
      (errs, ok) \<Rightarrow>
        if errs \<noteq> [] then refuse (ValidationError (map (config_field (nd_values n)) errs))
        else let changes = by_key ok in
          and_then (commit store_failed (write_changes n i ''panel'' changes)) (\<lambda>_.
            give (Audit ''camera.config'' i # (if nd_active n i then [SendState i changes] else []) @
              afterChanges (dc_Model (b_doc b)) i changes)))"

definition saveStatus_row :: "node \<Rightarrow> string \<Rightarrow> camera_state \<Rightarrow> string \<Rightarrow> int option \<Rightarrow> unit op" where
  "saveStatus_row n i st reason started d =
    (case Tx (UpsertCameraStatus i \<lparr>cst_State = st, cst_Reason = reason, cst_StartedAt = started, cst_UpdatedAt = nd_now n\<rparr>) d of
       (None, d') \<Rightarrow> (Inr (), d')
     | (Some e, d') \<Rightarrow> if IsForeignKey e then (Inr (), d') else (Inl (store_failed e), d'))"

end
