(* ===== verification/Camera_Edit.thy ===== *)
theory Camera_Edit
  imports Cameras
begin

text \<open>
  Accounts, protocols, streams, reset and copies of a camera (\<^verbatim>\<open>backend/internal/app/camera_edit.go\<close>).
\<close>

section \<open>What waits for a restart\<close>

definition mode_text :: "net_mode \<Rightarrow> string" where
  "mode_text m = (case m of NetMacvlan \<Rightarrow> ''macvlan'' | NetIPvlan \<Rightarrow> ''ipvlan'' | NetModeOther s \<Rightarrow> s)"

definition ip_mode_text :: "ip_mode \<Rightarrow> string" where
  "ip_mode_text m = (case m of IPStatic \<Rightarrow> ''static'' | IPDHCP \<Rightarrow> ''dhcp'' | IPModeOther s \<Rightarrow> s)"

definition restartKeys :: "(string list \<Rightarrow> string) \<Rightarrow> camera_bundle \<Rightarrow> (string, string) table" where
  "restartKeys dns_json b =
    [(''network'', join_with ''|'' [mode_text (cn_Mode (b_net b)), cn_ParentIf (b_net b), cn_Mac (b_net b), ip_mode_text (cn_IpMode (b_net b)),
       cn_Ip (b_net b), cn_Netmask (b_net b), cn_Gateway (b_net b), dns_json (cn_Dns (b_net b))]),
     (''protocols'', join_with '','' (map (\<lambda>(k, p). k @ ''='' @ (if cp_Enabled p then ''1'' else ''0'') @ '':'' @ itoa (cp_Port p)) (b_protos b)))]"

definition pendingRestart :: "(string, string) table option \<Rightarrow> (string, string) table \<Rightarrow> string list" where
  "pendingRestart applied now =
    (case applied of None \<Rightarrow> [] | Some a \<Rightarrow> filter (\<lambda>k. tget a k \<noteq> tget now k) [''network'', ''protocols''])"

section \<open>Accounts\<close>

text \<open>An empty password keeps the one the account has; what comes back is the errors, the accounts and
  the names whose password changed.\<close>

fun merge_users ::
  "node \<Rightarrow> string \<Rightarrow> account_row list \<Rightarrow> nat \<Rightarrow> user_input list \<Rightarrow> (error, field_error list \<times> user_input list \<times> string list) result" where
  "merge_users n i current k [] = Inr ([], [], [])"
| "merge_users n i current k (raw # ins) =
    (let u = or_admin (raw\<lparr>ui_Username := trim_space (ui_Username raw)\<rparr>) in
     if ui_Password u = [] then
       (case List.find (\<lambda>a. ac_Username a = ui_Username u) current of
          None \<Rightarrow>
            (case merge_users n i current (k + 1) ins of
               Inl e \<Rightarrow> Inl e
             | Inr (v, us, ch) \<Rightarrow>
                 Inr (\<lparr>fe_field = user_field k @ ''.password'', fe_message = msg ''is required for a new account''\<rparr> # v, us, ch))
        | Some old \<Rightarrow>
            (case Open n (ac_PasswordEnc old) (account_ctx i (ac_Username old)) of
               Inl e \<Rightarrow> Inl (OtherError (msgf ''cannot decrypt the password of %s'' [AStr (ac_Username old)]))
             | Inr pw \<Rightarrow>
                 (case merge_users n i current (k + 1) ins of
                    Inl e \<Rightarrow> Inl e
                  | Inr (v, us, ch) \<Rightarrow> Inr (v, u\<lparr>ui_Password := pw\<rparr> # us, ch))))
     else
       (case merge_users n i current (k + 1) ins of
          Inl e \<Rightarrow> Inl e
        | Inr (v, us, ch) \<Rightarrow> Inr (v, u # us, ui_Username u # ch)))"

definition users_rows :: "node \<Rightarrow> fresh \<Rightarrow> string \<Rightarrow> user_input list \<Rightarrow> stmt" where
  "users_rows n f i users = all_of [DeleteCameraUsers i, write_users n f i users, TouchCamera i (nd_now n)]"

definition SetCameraUsers :: "node \<Rightarrow> fresh \<Rightarrow> string \<Rightarrow> user_input list \<Rightarrow> effect list op" where
  "SetCameraUsers n f i ins =
    and_then (loadBundle i) (\<lambda>b.
    and_then (attempt (merge_users n i (b_users b) 0 ins)) (\<lambda>(v, users, changed).
    and_then (check (verr v)) (\<lambda>_.
    and_then (check (ValidateCameraUsers (nd_lower n) (map domain_user users))) (\<lambda>_.
    and_then (commit store_failed (users_rows n f i users)) (\<lambda>_.
      give (Audit ''camera.users'' i #
        (if nd_active n i then [SendUsers i (map (\<lambda>u. (ui_Username u, ui_Password u, ui_Role u)) users)] else []) @
        [PublishCamera ''updated'' i]))))))"

section \<open>Protocols\<close>

record ProtocolInput =
  pi_Instance :: string
  pi_Enabled :: "bool option"
  pi_Port :: "int option"

type_synonym protocols = "(string, protocol_row) table"
type_synonym descriptors = "(string, descriptor) table"

fun descriptors_of :: "node \<Rightarrow> document \<Rightarrow> string list \<Rightarrow> (error, descriptors) result" where
  "descriptors_of n doc [] = Inr []"
| "descriptors_of n doc (k # ks) =
    (case instanceDescriptor n doc k of
       Inl e \<Rightarrow> Inl e
     | Inr x \<Rightarrow> (case descriptors_of n doc ks of Inl e \<Rightarrow> Inl e | Inr xs \<Rightarrow> Inr ((k, x) # xs)))"

definition sockets_of :: "descriptors \<Rightarrow> string \<Rightarrow> socket list" where
  "sockets_of ds k = (case tget ds k of None \<Rightarrow> [] | Some x \<Rightarrow> de_Sockets x)"

definition protocol_field :: "nat \<Rightarrow> string" where
  "protocol_field k = ''protocols['' @ nat_str k @ '']''"

definition set_port :: "descriptors \<Rightarrow> string \<Rightarrow> ProtocolInput \<Rightarrow> protocol_row \<Rightarrow> field_error list \<Rightarrow> field_error list \<times> protocol_row" where
  "set_port ds field p cur v =
    (case pi_Port p of
       None \<Rightarrow> (v, cur)
     | Some port \<Rightarrow>
         if sockets_of ds (pi_Instance p) = [] then
           (add_if (port \<noteq> 0) (field @ ''.port'') (msgf ''%s does not listen on a port'' [AStr (pi_Instance p)]) v, cur)
         else if port < 1 \<or> 65535 < port then (add_field (field @ ''.port'') (msg ''must be between 1 and 65535'') v, cur)
         else (v, cur\<lparr>cp_Port := port\<rparr>))"

fun apply_protocols ::
  "descriptors \<Rightarrow> string \<Rightarrow> nat \<Rightarrow> ProtocolInput list \<Rightarrow> field_error list \<Rightarrow> protocols \<Rightarrow> field_error list \<times> protocols" where
  "apply_protocols ds prof k [] v nxt = (v, nxt)"
| "apply_protocols ds prof k (p # ps) v nxt =
    (case tget nxt (pi_Instance p) of
       None \<Rightarrow>
         apply_protocols ds prof (k + 1) ps
           (add_field (protocol_field k @ ''.instance'') (msgf ''profile %s has no protocol %q'' [AStr prof, AStr (pi_Instance p)]) v) nxt
     | Some cur \<Rightarrow>
         (let cur = (case pi_Enabled p of None \<Rightarrow> cur | Some e \<Rightarrow> cur\<lparr>cp_Enabled := e\<rparr>);
              (v, cur) = set_port ds (protocol_field k) p cur v
          in apply_protocols ds prof (k + 1) ps v (tput (pi_Instance p) cur nxt)))"

text \<open>The sockets a protocol opens: its own port on the first, the defaults of the engine on the others.\<close>

definition listens :: "descriptors \<Rightarrow> string \<Rightarrow> protocol_row \<Rightarrow> (string \<times> int) list" where
  "listens ds k p =
    (if \<not> cp_Enabled p then []
     else map (\<lambda>(j, so). (so_Network so, if j = 0 then cp_Port p else so_DefaultPort so)) (enumerate (0 :: nat) (sockets_of ds k)))"

fun port_clashes :: "string \<Rightarrow> (string \<times> int) list \<Rightarrow> (string \<times> int, string) table \<Rightarrow> field_error list \<Rightarrow>
    (string \<times> int, string) table \<times> field_error list" where
  "port_clashes k [] used v = (used, v)"
| "port_clashes k (s # ss) used v =
    port_clashes k ss (tput s k used)
      (case tget used s of
         None \<Rightarrow> v
       | Some other \<Rightarrow> add_field ''protocols'' (msgf ''%s and %s both use %s port %d'' [AStr other, AStr k, AStr (map upper_char (fst s)), AInt (snd s)]) v)"

fun clashes :: "descriptors \<Rightarrow> protocols \<Rightarrow> string list \<Rightarrow> (string \<times> int, string) table \<Rightarrow> field_error list \<Rightarrow> field_error list" where
  "clashes ds nxt [] used v = v"
| "clashes ds nxt (k # ks) used v =
    (case tget nxt k of
       None \<Rightarrow> clashes ds nxt ks used v
     | Some p \<Rightarrow> (case port_clashes k (listens ds k p) used v of (used, v) \<Rightarrow> clashes ds nxt ks used v))"

definition protocol_rows :: "node \<Rightarrow> string \<Rightarrow> protocols \<Rightarrow> stmt" where
  "protocol_rows n i nxt =
    then_do (for_each (SortedKeys nxt) (\<lambda>k. case tget nxt k of None \<Rightarrow> skip | Some p \<Rightarrow> UpdateCameraProtocol i k (cp_Enabled p) (cp_Port p)))
      (TouchCamera i (nd_now n))"

definition SetCameraProtocols :: "node \<Rightarrow> string \<Rightarrow> ProtocolInput list \<Rightarrow> effect list op" where
  "SetCameraProtocols n i ins =
    and_then (loadBundle i) (\<lambda>b.
    and_then (attempt (descriptors_of n (b_doc b) (tkeys (b_protos b)))) (\<lambda>ds.
    case apply_protocols ds (cm_ProfileID (b_cam b)) 0 ins [] (b_protos b) of
      (v, nxt) \<Rightarrow>
        and_then (check (verr (clashes ds nxt (SortedKeys nxt) [] v))) (\<lambda>_.
        and_then (commit store_failed (protocol_rows n i nxt)) (\<lambda>_.
          give [Audit ''camera.protocols'' i, PublishCamera ''updated'' i]))))"

section \<open>Streams\<close>

record StreamUpdate =
  su_AssetID :: "string option"
  su_Codec :: "string option"
  su_Resolution :: "string option"
  su_FPS :: "int option"
  su_Bitrate :: "int option"
  su_GOP :: "int option"

definition wanted :: "string \<Rightarrow> StreamUpdate \<Rightarrow> (string \<times> string \<times> gval) list" where
  "wanted name x =
    (let opt = (\<lambda>field v. case v of None \<Rightarrow> [] | Some g \<Rightarrow> [(field, ''media.'' @ name @ ''.'' @ field, g)]) in
     opt ''codec'' (map_option GStr (su_Codec x)) @ opt ''resolution'' (map_option GStr (su_Resolution x)) @
     opt ''fps'' (map_option GInt (su_FPS x)) @ opt ''bitrate'' (map_option GInt (su_Bitrate x)) @
     opt ''gop'' (map_option GInt (su_GOP x)))"

fun coerce_wanted ::
  "node \<Rightarrow> profile_doc \<Rightarrow> string \<Rightarrow> (string \<times> string \<times> gval) list \<Rightarrow> settings \<times> settings \<Rightarrow> (error, settings \<times> settings) result" where
  "coerce_wanted n m prof [] vc = Inr vc"
| "coerce_wanted n m prof ((field, canon, raw) # ws) vc =
    (case NativeFor m canon of
       None \<Rightarrow> Inl (invalid field (msgf ''profile %s does not allow changing it'' [AStr prof]))
     | Some key \<Rightarrow>
         (case Coerce (nd_values n) (param_of m key) raw of
            Inl e \<Rightarrow> Inl (invalid field (coerce_message (nd_values n) e))
          | Inr cv \<Rightarrow> coerce_wanted n m prof ws (tput key cv (fst vc), tput key cv (snd vc))))"

definition stream_rows :: "node \<Rightarrow> string \<Rightarrow> string \<Rightarrow> (string \<times> gval) list \<Rightarrow> string \<Rightarrow> string \<Rightarrow> stmt" where
  "stream_rows n i name changes asset rend =
    all_of [write_changes n i ''panel'' changes,
      UpsertCameraStream i name \<lparr>sw_AssetID = asset, sw_RenditionID = Some rend\<rparr>, TouchCamera i (nd_now n)]"

definition UpdateCameraStream :: "node \<Rightarrow> fresh \<Rightarrow> string \<Rightarrow> string \<Rightarrow> StreamUpdate \<Rightarrow> effect list op" where
  "UpdateCameraStream n f i name x =
    and_then (loadBundle i) (\<lambda>b.
    case tget (b_streams b) name of
      None \<Rightarrow> refuse ErrNotFound
    | Some cur \<Rightarrow>
        if su_AssetID x = None \<and> wanted name x = [] then refuse (invalid [] (msg ''nothing to change''))
        else
        and_then (attempt (coerce_wanted n (dc_Model (b_doc b)) (cm_ProfileID (b_cam b)) (wanted name x) (bundle_values n b, []))) (\<lambda>(values, coerced).
        let asset = (case su_AssetID x of None \<Rightarrow> sw_AssetID cur | Some a \<Rightarrow> a) in
        and_then (ask (GetAsset asset)) (\<lambda>found.
        if found = None then refuse (invalid ''asset_id'' (msgf ''asset %s does not exist'' [AStr asset]))
        else case StreamFor (nd_values n) (dc_Model (b_doc b)) name values of
          Inl e \<Rightarrow> refuse (invalid ''resolution'' (stream_failed e))
        | Inr ss \<Rightarrow>
            and_then (ensureRenditionRow n (fr_rendition f 0) asset ss) (\<lambda>rend.
            and_then (commit store_failed (stream_rows n i name (by_key coerced) asset rend)) (\<lambda>_.
              give (Audit ''camera.stream'' i #
                (if coerced \<noteq> [] then (if nd_active n i then [SendState i (by_key coerced)] else []) @ [PublishConfig i (by_key coerced)] else []) @
                [RegenerateLater i, PublishCamera ''updated'' i]))))))"

section \<open>Reset\<close>

datatype reset_scope = ResetSettings | ResetFull | ResetOther string

fun default_ports :: "node \<Rightarrow> document \<Rightarrow> string list \<Rightarrow> (error, (string \<times> int) list) result" where
  "default_ports n doc [] = Inr []"
| "default_ports n doc (k # ks) =
    (case instancePort n doc k of
       Inl e \<Rightarrow> Inl e
     | Inr p \<Rightarrow> (case default_ports n doc ks of Inl e \<Rightarrow> Inl e | Inr ps \<Rightarrow> Inr ((k, p) # ps)))"

definition reset_input :: "camera_bundle \<Rightarrow> NetworkInput" where
  "reset_input b = \<lparr>in_Parent = cn_ParentIf (b_net b), in_MAC = [], in_DefaultMAC = True, in_VendorOUI = False,
     in_IP = dc_FactoryIP (b_doc b), in_Netmask = dc_FactoryMask (b_doc b), in_Gateway = dc_FactoryGateway (b_doc b), in_DNS = []\<rparr>"

definition reset_network :: "node \<Rightarrow> string \<Rightarrow> reset_scope \<Rightarrow> camera_bundle \<Rightarrow> cam_db \<Rightarrow> (error, resolvedNetwork option) result" where
  "reset_network n i scope b d =
    (if scope \<noteq> ResetFull then Inr None
     else if \<not> nd_local n \<and> dc_FactoryIP (b_doc b) = [] then
       Inl (invalid ''scope'' (msgf ''profile %s has no factory address'' [AStr (cm_ProfileID (b_cam b))]))
     else case resolveNetwork n i (b_doc b) (reset_input b) of
       Inl e \<Rightarrow> Inl e
     | Inr nw \<Rightarrow> (case checkUniqueNetwork i nw d of Some e \<Rightarrow> Inl e | None \<Rightarrow> Inr (Some nw)))"

definition reset_rows ::
  "node \<Rightarrow> fresh \<Rightarrow> string \<Rightarrow> document \<Rightarrow> (string \<times> int) list \<Rightarrow> resolvedNetwork option \<Rightarrow> stmt" where
  "reset_rows n f i doc ports nw =
    all_of [
      DeleteCameraState i,
      write_state n i (Defaults (dc_Model doc)) (\<lambda>k. ''profile''),
      DeleteCameraUsers i,
      write_users n f i (factory_users doc),
      for_each ports (\<lambda>(k, p). UpdateCameraProtocol i k True p),
      (case nw of None \<Rightarrow> skip | Some w \<Rightarrow> UpdateCameraNetwork i (network_change w [])),
      TouchCamera i (nd_now n)]"

definition ResetCamera :: "node \<Rightarrow> fresh \<Rightarrow> string \<Rightarrow> reset_scope \<Rightarrow> effect list op" where
  "ResetCamera n f i scope =
    (case scope of
       ResetOther s \<Rightarrow> refuse (invalid ''scope'' (msg ''must be settings or full''))
     | _ \<Rightarrow>
    and_then (loadBundle i) (\<lambda>b.
    and_then (check (map_option (\<lambda>e. invalid ''scope'' (msgf ''the factory accounts of profile %s are not valid: %v'' [AStr (cm_ProfileID (b_cam b))]))
      (ValidateCameraUsers (nd_lower n) (map domain_user (factory_users (b_doc b)))))) (\<lambda>_.
    and_then (and_then (ask (reset_network n i scope b)) attempt) (\<lambda>nw.
    and_then (attempt (default_ports n (b_doc b) (tkeys (b_protos b)))) (\<lambda>ports.
    and_then (commit (or_conflict ''scope'' (msg ''the factory address is already used by another camera''))
        (reset_rows n f i (b_doc b) ports nw)) (\<lambda>_.
      give (Audit ''camera.reset'' i #
        (if nd_session n i then [RestartCall i] else [RegenerateLater i, PublishCamera ''updated'' i]))))))))"

section \<open>Copies\<close>

record CloneCameraInput =
  cl_Name :: string
  cl_Network :: NetworkInput
  cl_Start :: bool

fun open_accounts :: "node \<Rightarrow> string \<Rightarrow> account_row list \<Rightarrow> (error, user_input list) result" where
  "open_accounts n src [] = Inr []"
| "open_accounts n src (u # us) =
    (case Open n (ac_PasswordEnc u) (account_ctx src (ac_Username u)) of
       Inl e \<Rightarrow> Inl (OtherError (msgf ''cannot decrypt the password of %s'' [AStr (ac_Username u)]))
     | Inr pw \<Rightarrow>
         (case open_accounts n src us of
            Inl e \<Rightarrow> Inl e
          | Inr xs \<Rightarrow> Inr (\<lparr>ui_Username = ac_Username u, ui_Password = pw, ui_Role = ac_Role u\<rparr> # xs)))"

definition clone_rows :: "node \<Rightarrow> fresh \<Rightarrow> CloneCameraInput \<Rightarrow> camera_bundle \<Rightarrow> resolvedNetwork \<Rightarrow> user_input list \<Rightarrow> stmt" where
  "clone_rows n f x b nw accounts =
    (let i = fr_id f in
     all_of [
       InsertCamera i (new_camera n i (trim_space (cl_Name x)) (cm_ProfileID (b_cam b)) (cm_ProfileVersion (b_cam b)) (b_doc b)
         (cm_Autostart (b_cam b)) (cm_Tags (b_cam b))),
       InsertCameraNetwork i (network_of (cn_Mode (b_net b)) (cn_IpMode (b_net b)) nw),
       for_each (b_state b) (\<lambda>(k, r). UpsertCameraState i k (r\<lparr>cs_UpdatedAt := nd_now n\<rparr>)),
       for_each (b_protos b) (\<lambda>(k, p). InsertCameraProtocol i k p),
       write_users n f i accounts,
       for_each (b_streams b) (\<lambda>(k, s). UpsertCameraStream i k s),
       for_each (b_targets b) (\<lambda>(t, l, r). InsertCameraTarget i t l),
       UpsertCameraStatus i (stopped_status n)])"

definition CloneCamera :: "node \<Rightarrow> fresh \<Rightarrow> string \<Rightarrow> CloneCameraInput \<Rightarrow> effect list op" where
  "CloneCamera n f src x =
    and_then (loadBundle src) (\<lambda>b.
    and_then (check (validate_camera_name (trim_space (cl_Name x)))) (\<lambda>_.
    if b_archived b then refuse (archived_error (cm_ProfileID (b_cam b)) (cm_ProfileVersion (b_cam b)))
    else
    and_then (attempt (resolveNetwork n (fr_id f) (b_doc b) ((cl_Network x)\<lparr>in_DefaultMAC := (in_MAC (cl_Network x) = [])\<rparr>))) (\<lambda>nw.
    and_then (and_then (ask (checkUnique (trim_space (cl_Name x)) nw)) check) (\<lambda>_.
    and_then (admitCreate n) (\<lambda>_.
    and_then (attempt (open_accounts n src (b_users b))) (\<lambda>accounts.
    and_then (commit camera_conflict (clone_rows n f x b nw accounts)) (\<lambda>_.
      give ([Audit ''camera.clone'' (fr_id f), PublishCamera ''created'' (fr_id f)] @
        (if cl_Start x then [StartCall (fr_id f)] else [])))))))))"

section \<open>The streams of a camera about to run\<close>

text \<open>\<^verbatim>\<open>completeStreams\<close> then \<^verbatim>\<open>prepareStreams\<close>, but for the encoding itself, which is a job.\<close>

definition prepareStreams :: "node \<Rightarrow> fresh \<Rightarrow> string \<Rightarrow> (string \<times> StreamSettings \<times> string) list op" where
  "prepareStreams n f i =
    and_then (loadBundle i) (\<lambda>b.
    and_then (completeStreams (b_doc b) i) (\<lambda>streams.
    and_then (each_op (\<lambda>(k, st). and_then (streamRendition n (fr_rendition f k) (b_doc b) i (bundle_values n b) st)
        (\<lambda>(ss, r). give (fst st, ss, r))) (enumerate 0 streams)) (\<lambda>out.
      if out = [] then refuse (OtherError (msg ''the camera has no stream'')) else give out)))"

end
