(* ===== verification/Targets.thy ===== *)
theory Targets
  imports Assets Secret_Box
begin

text \<open>Event targets (\<^verbatim>\<open>backend/internal/app/targets.go\<close>); sending the test request is not modelled.\<close>

record TargetInput =
  ti_Name :: "string option"
  ti_Type :: string
  ti_URL :: "string option"
  ti_Method :: "string option"
  ti_Headers :: "(string \<times> string) list option"
  ti_Username :: "string option"
  ti_Password :: "string option"
  ti_Enabled :: "bool option"

definition str :: "string option \<Rightarrow> string" where
  "str p = (case p of None \<Rightarrow> [] | Some s \<Rightarrow> s)"

definition target_ctx :: "string \<Rightarrow> string" where
  "target_ctx i = ''targets:'' @ i"

definition domain_target :: "target_row \<Rightarrow> Target" where
  "domain_target r = \<lparr>tg_Name = tr_Name r, tg_Type = tr_Type r, tg_URL = tr_URL r, tg_Method = tr_Method r, tg_Headers = map fst (tr_Headers r)\<rparr>"

definition seal_target :: "node \<Rightarrow> string \<Rightarrow> string \<Rightarrow> string \<Rightarrow> string option" where
  "seal_target n nonce i pw = (if pw = [] then None else Some (Seal n nonce pw (target_ctx i)))"

definition name_conflict :: "string \<Rightarrow> store_error \<Rightarrow> error" where
  "name_conflict name = or_conflict ''name'' (msgf ''a target named %q already exists'' [AStr name])"

definition new_target :: "node \<Rightarrow> string \<Rightarrow> string \<Rightarrow> TargetInput \<Rightarrow> target_row" where
  "new_target n i nonce x =
    (let m = to_upper n (str (ti_Method x)) in
     \<lparr>tr_Name = trim_space (str (ti_Name x)), tr_Type = (if ti_Type x = [] then ''http'' else ti_Type x),
      tr_URL = trim_space (str (ti_URL x)), tr_Method = (if m = [] then ''POST'' else m),
      tr_Headers = (case ti_Headers x of None \<Rightarrow> [] | Some h \<Rightarrow> h), tr_Username = str (ti_Username x),
      tr_Secret = seal_target n nonce i (str (ti_Password x)), tr_Enabled = (case ti_Enabled x of None \<Rightarrow> True | Some e \<Rightarrow> e),
      tr_CreatedAt = nd_now n\<rparr>)"

definition CreateTarget :: "node \<Rightarrow> string \<Rightarrow> string \<Rightarrow> TargetInput \<Rightarrow> effect list op" where
  "CreateTarget n i nonce x =
    (let t = new_target n i nonce x in
     and_then (check (ValidateTarget (nd_url n) (domain_target t))) (\<lambda>_.
     and_then (commit (name_conflict (tr_Name t)) (InsertTarget i t)) (\<lambda>_.
       give [Audit ''target.create'' i])))"

definition changed_target :: "node \<Rightarrow> string \<Rightarrow> string \<Rightarrow> TargetInput \<Rightarrow> target_row \<Rightarrow> target_row" where
  "changed_target n i nonce x r =
    r\<lparr>tr_Name := (case ti_Name x of None \<Rightarrow> tr_Name r | Some s \<Rightarrow> trim_space s),
      tr_URL := (case ti_URL x of None \<Rightarrow> tr_URL r | Some s \<Rightarrow> trim_space s),
      tr_Method := (case ti_Method x of None \<Rightarrow> tr_Method r | Some s \<Rightarrow> to_upper n s),
      tr_Headers := (case ti_Headers x of None \<Rightarrow> tr_Headers r | Some h \<Rightarrow> h),
      tr_Username := (case ti_Username x of None \<Rightarrow> tr_Username r | Some s \<Rightarrow> s),
      tr_Enabled := (case ti_Enabled x of None \<Rightarrow> tr_Enabled r | Some e \<Rightarrow> e),
      tr_Secret := (case ti_Password x of None \<Rightarrow> tr_Secret r | Some pw \<Rightarrow> seal_target n nonce i pw)\<rparr>"

definition UpdateTarget :: "node \<Rightarrow> string \<Rightarrow> string \<Rightarrow> TargetInput \<Rightarrow> effect list op" where
  "UpdateTarget n i nonce x =
    and_then (ask (GetTarget i)) (\<lambda>found.
      case found of
        None \<Rightarrow> refuse ErrNotFound
      | Some r \<Rightarrow>
          (let t = changed_target n i nonce x r in
           and_then (check (ValidateTarget (nd_url n) (domain_target t))) (\<lambda>_.
           and_then (commit (name_conflict (tr_Name t)) (UpdateTarget_row i t)) (\<lambda>_.
           and_then (ask (CamerasUsingTarget i)) (\<lambda>cams.
             give (Audit ''target.update'' i # map SendTargets (filter (nd_active n) cams)))))))"

definition DeleteTarget :: "string \<Rightarrow> effect list op" where
  "DeleteTarget i =
    and_then (ask (GetTarget i)) (\<lambda>found.
      if found = None then refuse ErrNotFound
      else and_then (ask (CamerasUsingTarget i)) (\<lambda>cams.
        if cams \<noteq> [] then
          refuse (conflict [] (msgf ''the target is used by %d cameras; disable it or unlink it first'' [AInt (int (length cams))]))
        else and_then (commit (\<lambda>e. if IsForeignKey e then conflict [] (msg ''the target is in use'') else store_failed e) (DeleteTarget_row i)) (\<lambda>_.
          give [Audit ''target.delete'' i])))"

end
