(* ===== verification/Camera_Safety.thy ===== *)
theory Camera_Safety
  imports Camera_Edit Targets
begin

text \<open>
  What every operation of the camera service keeps. The locale states, statement by statement, what a
  predicate on the tables must survive: each statement with the values the service gives it. Every
  operation then keeps the predicate, and so does every run of the service.
\<close>

definition nonces_ok :: "fresh \<Rightarrow> bool" where
  "nonces_ok f = (\<forall>k. length (fr_nonce f k) = NonceSize)"

definition sealed_account :: "node \<Rightarrow> account_row \<Rightarrow> bool" where
  "sealed_account n u = (\<exists>nonce pw. length nonce = NonceSize \<and>
     ac_PasswordEnc u = Seal n nonce pw (account_ctx (ac_CameraID u) (ac_Username u)))"

definition resolved :: "resolvedNetwork \<Rightarrow> bool" where
  "resolved w = (\<exists>n i doc x. resolveNetwork n i doc x = Inr w)"

text \<open>
  A run of the service: any operation with any input, on the node as it then is. \<open>admits\<close> says which nodes;
  what the operations draw at random has the size the cipher needs.
\<close>

inductive service_step :: "(node \<Rightarrow> bool) \<Rightarrow> cam_db \<Rightarrow> cam_db \<Rightarrow> bool" for admits :: "node \<Rightarrow> bool" where
  step_profile: "Tx (InsertProfile p v (Some doc)) d = (e, d') \<Longrightarrow> service_step admits d d'"
| step_archive: "Tx (SetProfileArchived p v arch) d = (e, d') \<Longrightarrow> service_step admits d d'"
| step_upload: "UploadAsset i file sz probed d = (r, d') \<Longrightarrow> service_step admits d d'"
| step_builtin: "ensureBuiltinAsset n i d = (r, d') \<Longrightarrow> service_step admits d d'"
| step_delete_asset: "DeleteAsset n i d = (r, d') \<Longrightarrow> service_step admits d d'"
| step_encoded: "Tx (SetRenditionStatus i st sha err) d = (e, d') \<Longrightarrow> service_step admits d d'"
| step_collect: "collectRenditions n busy d = (d', effs) \<Longrightarrow> service_step admits d d'"
| step_new_target: "CreateTarget n i nonce x d = (r, d') \<Longrightarrow> service_step admits d d'"
| step_target: "UpdateTarget n i nonce x d = (r, d') \<Longrightarrow> service_step admits d d'"
| step_delete_target: "DeleteTarget i d = (r, d') \<Longrightarrow> service_step admits d d'"
| step_create: "admits n \<Longrightarrow> nonces_ok f \<Longrightarrow> CreateCamera n f x d = (r, d') \<Longrightarrow> service_step admits d d'"
| step_update: "UpdateCamera n i u d = (r, d') \<Longrightarrow> service_step admits d d'"
| step_delete: "DeleteCamera_op n i d = (r, d') \<Longrightarrow> service_step admits d d'"
| step_configure: "ConfigureCamera n i ins d = (r, d') \<Longrightarrow> service_step admits d d'"
| step_users: "admits n \<Longrightarrow> nonces_ok f \<Longrightarrow> SetCameraUsers n f i us d = (r, d') \<Longrightarrow> service_step admits d d'"
| step_protocols: "SetCameraProtocols n i ps d = (r, d') \<Longrightarrow> service_step admits d d'"
| step_stream: "UpdateCameraStream n f i name su d = (r, d') \<Longrightarrow> service_step admits d d'"
| step_reset: "admits n \<Longrightarrow> nonces_ok f \<Longrightarrow> ResetCamera n f i scope d = (r, d') \<Longrightarrow> service_step admits d d'"
| step_clone: "admits n \<Longrightarrow> nonces_ok f \<Longrightarrow> CloneCamera n f i cl d = (r, d') \<Longrightarrow> service_step admits d d'"
| step_prepare: "prepareStreams n f i d = (r, d') \<Longrightarrow> service_step admits d d'"
| step_status: "saveStatus_row n i st reason started d = (r, d') \<Longrightarrow> service_step admits d d'"
| step_desired: "Tx (SetCameraDesired i des now) d = (e, d') \<Longrightarrow> service_step admits d d'"

definition new_db :: cam_db where
  "new_db = \<lparr>c_profiles = [], c_targets = [], c_assets = [], c_renditions = [], c_cameras = [], c_network = [], c_state = [],
     c_protocols = [], c_users = [], c_status = [], c_streams = [], c_links = []\<rparr>"

text \<open>The networks the operations store are resolved ones.\<close>

lemma resolvedI: "resolveNetwork n i doc x = Inr w \<Longrightarrow> resolved w"
  by (auto simp: resolved_def)

lemma create_check_resolved: "create_check n f x d = Inr c \<Longrightarrow> resolved (fst (snd c))"
  by (auto simp: create_check_def intro: resolvedI split: option.splits sum.splits if_splits)

lemma update_network_resolved: "update_network n i x b d = Inr nw \<Longrightarrow> pred_option resolved nw"
  by (auto simp: update_network_def intro: resolvedI split: option.splits sum.splits)

lemma reset_network_resolved: "reset_network n i scope b d = Inr nw \<Longrightarrow> pred_option resolved nw"
  by (auto simp: reset_network_def intro: resolvedI split: option.splits sum.splits if_splits)

lemma op_keeps_attempt: "(\<And>a. r = Inr a \<Longrightarrow> op_keeps P (f a)) \<Longrightarrow> op_keeps P (and_then (attempt r) f)"
  by (cases r) (auto simp: op_keeps_def and_then_def attempt_def)

lemma op_keeps_asked: "(\<And>a d. q d = Inr a \<Longrightarrow> op_keeps P (f a)) \<Longrightarrow> op_keeps P (and_then (and_then (ask q) attempt) f)"
  by (auto simp: op_keeps_def and_then_def ask_def attempt_def split: sum.split)

locale service_invariant =
  fixes admits :: "node \<Rightarrow> bool"
    and P :: "cam_db \<Rightarrow> bool"
  assumes InsertCamera_ok: "keeps P (InsertCamera i r)"
    and UpdateCameraMeta_ok: "keeps P (UpdateCameraMeta i name au tags now)"
    and TouchCamera_ok: "keeps P (TouchCamera i now)"
    and SetCameraDesired_ok: "keeps P (SetCameraDesired i des now)"
    and InsertCameraNetwork_ok: "resolved w \<Longrightarrow> keeps P (InsertCameraNetwork i (network_of nm im w))"
    and UpdateCameraNetwork_ok: "resolved w \<Longrightarrow> dns = rv_DNS w \<or> dns = [] \<Longrightarrow> keeps P (UpdateCameraNetwork i (network_change w dns))"
    and UpsertCameraState_ok: "keeps P (UpsertCameraState i k pr)"
    and DeleteCameraState_ok: "keeps P (DeleteCameraState i)"
    and InsertCameraProtocol_ok: "keeps P (InsertCameraProtocol i k q)"
    and UpdateCameraProtocol_ok: "keeps P (UpdateCameraProtocol i k en port)"
    and InsertCameraUser_ok: "admits n \<Longrightarrow> sealed_account n u \<Longrightarrow> keeps P (InsertCameraUser j u)"
    and DeleteCameraUsers_ok: "keeps P (DeleteCameraUsers i)"
    and UpsertCameraStatus_ok: "keeps P (UpsertCameraStatus i st)"
    and UpsertCameraStream_ok: "keeps P (UpsertCameraStream i k s)"
    and InsertCameraTarget_ok: "keeps P (InsertCameraTarget i t l)"
    and DeleteCameraTargets_ok: "keeps P (DeleteCameraTargets i)"
    and DeleteCamera_ok: "keeps P (DeleteCamera_row i)"
    and InsertAsset_ok: "keeps P (InsertAsset i ar)"
    and DeleteAsset_ok: "keeps P (DeleteAsset_row i)"
    and InsertRendition_ok: "valid_params ps \<Longrightarrow> keeps P (InsertRendition i a ps now)"
    and SetRenditionStatus_ok: "keeps P (SetRenditionStatus i rs sha err)"
    and DeleteRendition_ok: "keeps P (DeleteRendition_row i)"
    and InsertTarget_ok: "keeps P (InsertTarget i tr)"
    and UpdateTarget_ok: "keeps P (UpdateTarget_row i tr)"
    and DeleteTarget_ok: "keeps P (DeleteTarget_row i)"
    and InsertProfile_ok: "keeps P (InsertProfile p v (Some doc))"
    and SetProfileArchived_ok: "keeps P (SetProfileArchived p v arch)"
begin

lemmas statements_ok = InsertCamera_ok UpdateCameraMeta_ok TouchCamera_ok SetCameraDesired_ok UpsertCameraState_ok DeleteCameraState_ok InsertCameraProtocol_ok UpdateCameraProtocol_ok
  DeleteCameraUsers_ok UpsertCameraStatus_ok UpsertCameraStream_ok InsertCameraTarget_ok DeleteCameraTargets_ok
  DeleteCamera_ok InsertAsset_ok DeleteAsset_ok SetRenditionStatus_ok DeleteRendition_ok InsertTarget_ok UpdateTarget_ok
  DeleteTarget_ok InsertProfile_ok SetProfileArchived_ok

lemma users_ok:
  assumes "admits n" "nonces_ok f"
  shows "keeps P (write_users n f i us)"
proof -
  have "sealed_account n (account_of n f i k u)" for k u
    using assms(2) by (auto simp: sealed_account_def account_of_def nonces_ok_def)
  with assms(1) show ?thesis
    unfolding write_users_def by (intro keeps_for_each) (auto split: prod.split intro: InsertCameraUser_ok)
qed

lemma state_ok: "keeps P (write_state n i vs origin)"
  unfolding write_state_def by (intro keeps_for_each statements_ok)

lemma protocols_ok: "keeps P (write_protocols n doc i)"
  unfolding write_protocols_def
  by (rule keeps_for_each) (auto split: sum.split intro: keeps_fail InsertCameraProtocol_ok)

lemma streams_ok: "keeps P (write_streams i a rends)"
  unfolding write_streams_def by (rule keeps_for_each) (auto split: prod.split intro: UpsertCameraStream_ok)

lemma links_ok: "keeps P (write_links i ts)"
  unfolding write_links_def by (intro keeps_for_each InsertCameraTarget_ok)

lemma changes_ok: "keeps P (write_changes n i origin cs)"
  unfolding write_changes_def by (rule keeps_for_each) (auto split: prod.split intro: UpsertCameraState_ok)

lemmas blocks_ok = state_ok protocols_ok streams_ok links_ok changes_ok

lemma create_rows_ok: "admits n \<Longrightarrow> nonces_ok f \<Longrightarrow> resolved nw \<Longrightarrow> keeps P (create_rows n f x doc nw us tags vo a rends)"
  unfolding create_rows_def Let_def
  by (cases vo) (simp; intro keeps_then keeps_skip statements_ok blocks_ok users_ok InsertCameraNetwork_ok; assumption)

lemma network_ok: "pred_option resolved nw \<Longrightarrow> dns = (\<lambda>w. []) \<or> dns = rv_DNS \<Longrightarrow>
    keeps P (case nw of None \<Rightarrow> skip | Some w \<Rightarrow> UpdateCameraNetwork i (network_change w (dns w)))"
  by (cases nw) (auto intro: keeps_skip UpdateCameraNetwork_ok)

lemma update_rows_ok: "pred_option resolved nw \<Longrightarrow> keeps P (update_rows n i x name a tags nw)"
  unfolding update_rows_def all_of.simps
  by (intro keeps_then keeps_skip UpdateCameraMeta_ok network_ok)
    (auto intro: keeps_then keeps_skip DeleteCameraTargets_ok links_ok split: option.split)

lemma users_rows_ok: "admits n \<Longrightarrow> nonces_ok f \<Longrightarrow> keeps P (users_rows n f i us)"
  unfolding users_rows_def all_of.simps by (intro keeps_then keeps_skip statements_ok users_ok)

lemma protocol_rows_ok: "keeps P (protocol_rows n i nxt)"
  unfolding protocol_rows_def by (intro keeps_then keeps_for_each keeps_option keeps_skip statements_ok)

lemma stream_rows_ok: "keeps P (stream_rows n i name cs a r)"
  unfolding stream_rows_def all_of.simps by (intro keeps_then keeps_skip statements_ok blocks_ok)

lemma reset_rows_ok: "admits n \<Longrightarrow> nonces_ok f \<Longrightarrow> pred_option resolved nw \<Longrightarrow> keeps P (reset_rows n f i doc ports nw)"
  unfolding reset_rows_def all_of.simps
  by (intro keeps_then keeps_skip network_ok keeps_for_each statements_ok blocks_ok users_ok)
    (auto split: prod.split intro: UpdateCameraProtocol_ok)

lemma clone_rows_ok: "admits n \<Longrightarrow> nonces_ok f \<Longrightarrow> resolved nw \<Longrightarrow> keeps P (clone_rows n f x b nw us)"
  unfolding clone_rows_def Let_def all_of.simps
  by (intro keeps_then keeps_skip keeps_for_each statements_ok users_ok InsertCameraNetwork_ok)
    (auto split: prod.split intro: statements_ok)

text \<open>The operations.\<close>

lemma storeAsset_ok: "op_keeps P (storeAsset i row)"
  by (auto simp: storeAsset_def intro!: keep_intros statements_ok)

lemma ensureRenditionRow_ok: "op_keeps P (ensureRenditionRow n i a ss)"
proof (cases "Params_Validate (params_of ss)")
  case None
  then have "valid_params (params_of ss)" by (simp add: valid_params_def)
  with None show ?thesis
    by (auto simp: ensureRenditionRow_def Let_def intro!: keep_intros InsertRendition_ok)
qed (simp add: ensureRenditionRow_def keep_intros)

lemma UploadAsset_ok: "op_keeps P (UploadAsset i f sz p)"
  by (auto simp: UploadAsset_def intro!: keep_intros storeAsset_ok)

lemma ensureBuiltinAsset_ok: "op_keeps P (ensureBuiltinAsset n i)"
  by (auto simp: ensureBuiltinAsset_def intro!: keep_intros storeAsset_ok)

lemma DeleteAsset_op_ok: "op_keeps P (DeleteAsset n i)"
  by (auto simp: DeleteAsset_def intro!: keep_intros statements_ok)

lemma completeStreams_ok: "op_keeps P (completeStreams doc c)"
  by (auto simp: completeStreams_def Let_def intro!: keep_intros statements_ok)

lemma streamRendition_ok: "op_keeps P (streamRendition n i doc c vs st)"
  by (auto simp: streamRendition_def intro!: keep_intros ensureRenditionRow_ok statements_ok)

lemma prepareStreams_ok: "op_keeps P (prepareStreams n f i)"
  unfolding prepareStreams_def case_prod_beta
  by (intro op_keeps_and_then op_keeps_basic op_keeps_if op_keeps_each keeps_loadBundle completeStreams_ok streamRendition_ok)

lemmas asked = op_keeps_asked op_keeps_attempt op_keeps_and_then

lemma CreateCamera_ok: "admits n \<Longrightarrow> nonces_ok f \<Longrightarrow> op_keeps P (CreateCamera n f x)"
  unfolding CreateCamera_def create_asset_def create_renditions_def case_prod_beta
  by (intro asked op_keeps_basic op_keeps_if op_keeps_commit op_keeps_each keeps_admitCreate keeps_named_stream
      ensureBuiltinAsset_ok ensureRenditionRow_ok create_rows_ok) (assumption | erule create_check_resolved)+

lemma UpdateCamera_ok: "op_keeps P (UpdateCamera n i x)"
  unfolding UpdateCamera_def
  by (intro asked op_keeps_basic op_keeps_commit keeps_loadBundle update_rows_ok) (erule update_network_resolved)

lemma DeleteCamera_op_ok: "op_keeps P (DeleteCamera_op n i)"
  unfolding DeleteCamera_op_def by (intro op_keeps_and_then op_keeps_basic op_keeps_if op_keeps_commit statements_ok)

lemma ConfigureCamera_ok: "op_keeps P (ConfigureCamera n i ins)"
  unfolding ConfigureCamera_def Let_def
  by (intro op_keeps_and_then op_keeps_basic op_keeps_if op_keeps_prod op_keeps_commit keeps_loadBundle blocks_ok)

lemma SetCameraUsers_ok: "admits n \<Longrightarrow> nonces_ok f \<Longrightarrow> op_keeps P (SetCameraUsers n f i ins)"
  unfolding SetCameraUsers_def
  by (intro op_keeps_and_then op_keeps_basic op_keeps_prod op_keeps_commit keeps_loadBundle users_rows_ok)

lemma SetCameraProtocols_ok: "op_keeps P (SetCameraProtocols n i ins)"
  unfolding SetCameraProtocols_def
  by (intro op_keeps_and_then op_keeps_basic op_keeps_prod op_keeps_commit keeps_loadBundle protocol_rows_ok)

lemma UpdateCameraStream_ok: "op_keeps P (UpdateCameraStream n f i name x)"
  unfolding UpdateCameraStream_def Let_def
  by (intro op_keeps_and_then op_keeps_basic op_keeps_prod op_keeps_if op_keeps_option op_keeps_sum op_keeps_commit
      keeps_loadBundle ensureRenditionRow_ok stream_rows_ok)

lemma ResetCamera_ok: "admits n \<Longrightarrow> nonces_ok f \<Longrightarrow> op_keeps P (ResetCamera n f i scope)"
  unfolding ResetCamera_def
  by (cases scope; simp only: reset_scope.case; intro asked op_keeps_basic op_keeps_commit keeps_loadBundle reset_rows_ok)
    (assumption | erule reset_network_resolved)+

lemma CloneCamera_ok: "admits n \<Longrightarrow> nonces_ok f \<Longrightarrow> op_keeps P (CloneCamera n f src x)"
  unfolding CloneCamera_def
  by (intro asked op_keeps_basic op_keeps_if op_keeps_commit keeps_loadBundle keeps_admitCreate clone_rows_ok)
    (assumption | erule resolvedI)+

lemma saveStatus_row_ok: "op_keeps P (saveStatus_row n i st reason started)"
  using keeps_Tx [OF UpsertCameraStatus_ok] by (auto simp: op_keeps_def saveStatus_row_def split: prod.split option.split) (metis snd_conv)+

lemma CreateTarget_ok: "op_keeps P (CreateTarget n i nonce x)"
  unfolding CreateTarget_def Let_def by (intro op_keeps_and_then op_keeps_basic op_keeps_commit statements_ok)

lemma UpdateTarget_op_ok: "op_keeps P (UpdateTarget n i nonce x)"
  unfolding UpdateTarget_def Let_def by (intro op_keeps_and_then op_keeps_basic op_keeps_option op_keeps_commit statements_ok)

lemma DeleteTarget_op_ok: "op_keeps P (DeleteTarget i)"
  unfolding DeleteTarget_def by (intro op_keeps_and_then op_keeps_basic op_keeps_if op_keeps_commit statements_ok)

lemma collectRenditions_ok: "P d \<Longrightarrow> P (fst (collectRenditions n busy d))"
proof -
  let ?step = "\<lambda>(d, effs) (i, r). let key = Key n (rd_Params r) (case GetAsset (rd_AssetID r) d of None \<Rightarrow> [] | Some a \<Rightarrow> as_Sha256 a) in
      if busy key then (d, effs) else case Tx (DeleteRendition_row i) d of (None, d') \<Rightarrow> (d', effs @ [RemoveFiles key]) | (Some e, d') \<Rightarrow> (d', effs)"
  have "P (fst (foldl ?step (d, effs) rows))" if "P d" for rows and d :: cam_db and effs :: "effect list"
    using that
  proof (induction rows arbitrary: d effs)
    case (Cons row rows)
    have "P (fst (?step (d, effs) row))"
      using keeps_Tx [OF DeleteRendition_ok Cons.prems, of "fst row"] Cons.prems
      by (cases row) (auto simp: Let_def split: prod.split option.split)
    with Cons.IH [of "fst (?step (d, effs) row)" "snd (?step (d, effs) row)"] show ?case by simp
  qed simp
  then show "P d \<Longrightarrow> P (fst (collectRenditions n busy d))" unfolding collectRenditions_def .
qed

text \<open>Every step is one of these.\<close>

lemma op_run: "op_keeps P m \<Longrightarrow> m d = (r, d') \<Longrightarrow> P d \<Longrightarrow> P d'"
  using op_keepsD by fastforce

lemma Tx_run: "keeps P f \<Longrightarrow> Tx f d = (e, d') \<Longrightarrow> P d \<Longrightarrow> P d'"
  using keeps_Tx by fastforce

lemma collect_run: "collectRenditions n busy d = (d', effs) \<Longrightarrow> P d \<Longrightarrow> P d'"
  using collectRenditions_ok [of d n busy] by simp

lemmas operation_runs =
  Tx_run [OF InsertProfile_ok] Tx_run [OF SetProfileArchived_ok] op_run [OF UploadAsset_ok] op_run [OF
  ensureBuiltinAsset_ok] op_run [OF DeleteAsset_op_ok] Tx_run [OF SetRenditionStatus_ok] collect_run op_run [OF
  CreateTarget_ok] op_run [OF UpdateTarget_op_ok] op_run [OF DeleteTarget_op_ok] op_run [OF CreateCamera_ok] op_run
  [OF UpdateCamera_ok] op_run [OF DeleteCamera_op_ok] op_run [OF ConfigureCamera_ok] op_run [OF SetCameraUsers_ok]
  op_run [OF SetCameraProtocols_ok] op_run [OF UpdateCameraStream_ok] op_run [OF ResetCamera_ok] op_run [OF
  CloneCamera_ok] op_run [OF prepareStreams_ok] op_run [OF saveStatus_row_ok] Tx_run [OF SetCameraDesired_ok]

lemma service_step_ok: "service_step admits d d' \<Longrightarrow> P d \<Longrightarrow> P d'"
  by (induction rule: service_step.induct) (rule operation_runs; assumption)+

end

locale service_machine = service_invariant +
  assumes empty_ok: "P new_db"

sublocale service_machine \<subseteq> machine new_db "service_step admits" P
  by unfold_locales (rule empty_ok, rule service_step_ok)

end
