(* ===== verification/Camera_Invariants.thy ===== *)
theory Camera_Invariants
  imports Camera_Safety
begin

text \<open>
  The invariants of the camera tables, each an interpretation of the contract of \<^verbatim>\<open>Camera_Safety\<close>: the rules of
  the schema, renditions an encoder accepts, and accounts whose password the node can open.
\<close>

section \<open>The schema\<close>

lemma schema_empty: "schema_ok new_db"
  by (simp add: schema_ok_def keys_unique_def columns_unique_def references_hold_def new_db_def unique_on_def refers_def)

interpretation schema: service_machine "\<lambda>n. True" schema_ok
  by unfold_locales (rule keep_intros schema_empty)+

section \<open>Renditions\<close>

definition renditions_valid :: "cam_db \<Rightarrow> bool" where
  "renditions_valid d = (\<forall>p\<in>set (c_renditions d). valid_params (rd_Params (snd p)))"

lemma renditions_sub:
  "set (c_renditions d') \<subseteq> set (c_renditions d) \<Longrightarrow> renditions_valid d \<Longrightarrow> renditions_valid d'"
  unfolding renditions_valid_def by blast

lemma renditions_put:
  "renditions_valid d \<Longrightarrow> valid_params (rd_Params r) \<Longrightarrow> renditions_valid (d\<lparr>c_renditions := tput i r (c_renditions d)\<rparr>)"
  using set_tput_subset [of i r "c_renditions d"] by (auto simp: renditions_valid_def)

text \<open>The one table each statement writes.\<close>

lemma writes_InsertCamera: "InsertCamera i r d = Inr d' \<Longrightarrow> \<exists>t. d' = d\<lparr>c_cameras := t\<rparr>"
  by (cases d) (auto simp: InsertCamera_def split: if_splits option.splits)

lemma writes_UpdateCameraMeta: "UpdateCameraMeta i name a tags now d = Inr d' \<Longrightarrow> \<exists>t. d' = d\<lparr>c_cameras := t\<rparr>"
  by (cases d) (auto simp: UpdateCameraMeta_def split: if_splits option.splits)

lemma writes_TouchCamera: "TouchCamera i now d = Inr d' \<Longrightarrow> \<exists>t. d' = d\<lparr>c_cameras := t\<rparr>"
  by (cases d) (auto simp: TouchCamera_def split: if_splits option.splits)

lemma writes_SetCameraDesired: "SetCameraDesired i x now d = Inr d' \<Longrightarrow> \<exists>t. d' = d\<lparr>c_cameras := t\<rparr>"
  by (cases d) (auto simp: SetCameraDesired_def split: if_splits option.splits)

lemma writes_InsertCameraNetwork: "InsertCameraNetwork i nr d = Inr d' \<Longrightarrow> \<exists>t. d' = d\<lparr>c_network := t\<rparr>"
  by (cases d) (auto simp: InsertCameraNetwork_def split: if_splits option.splits)

lemma writes_UpdateCameraNetwork: "UpdateCameraNetwork i nu d = Inr d' \<Longrightarrow> \<exists>t. d' = d\<lparr>c_network := t\<rparr>"
  by (cases d) (auto simp: UpdateCameraNetwork_def split: if_splits option.splits)

lemma writes_UpsertCameraState: "UpsertCameraState i k pr d = Inr d' \<Longrightarrow> \<exists>t. d' = d\<lparr>c_state := t\<rparr>"
  by (cases d) (auto simp: UpsertCameraState_def split: if_splits option.splits)

lemma writes_DeleteCameraState: "DeleteCameraState i d = Inr d' \<Longrightarrow> \<exists>t. d' = d\<lparr>c_state := t\<rparr>"
  by (cases d) (auto simp: DeleteCameraState_def split: if_splits option.splits)

lemma writes_InsertCameraProtocol: "InsertCameraProtocol i k q d = Inr d' \<Longrightarrow> \<exists>t. d' = d\<lparr>c_protocols := t\<rparr>"
  by (cases d) (auto simp: InsertCameraProtocol_def split: if_splits option.splits)

lemma writes_UpdateCameraProtocol: "UpdateCameraProtocol i k en port d = Inr d' \<Longrightarrow> \<exists>t. d' = d\<lparr>c_protocols := t\<rparr>"
  by (cases d) (auto simp: UpdateCameraProtocol_def split: if_splits option.splits)

lemma writes_InsertCameraUser: "InsertCameraUser j u d = Inr d' \<Longrightarrow> \<exists>t. d' = d\<lparr>c_users := t\<rparr>"
  by (cases d) (auto simp: InsertCameraUser_def split: if_splits option.splits)

lemma writes_DeleteCameraUsers: "DeleteCameraUsers i d = Inr d' \<Longrightarrow> \<exists>t. d' = d\<lparr>c_users := t\<rparr>"
  by (cases d) (auto simp: DeleteCameraUsers_def split: if_splits option.splits)

lemma writes_UpsertCameraStatus: "UpsertCameraStatus i st d = Inr d' \<Longrightarrow> \<exists>t. d' = d\<lparr>c_status := t\<rparr>"
  by (cases d) (auto simp: UpsertCameraStatus_def split: if_splits option.splits)

lemma writes_UpsertCameraStream: "UpsertCameraStream i k sr d = Inr d' \<Longrightarrow> \<exists>t. d' = d\<lparr>c_streams := t\<rparr>"
  by (cases d) (auto simp: UpsertCameraStream_def split: if_splits option.splits)

lemma writes_InsertCameraTarget: "InsertCameraTarget i t l d = Inr d' \<Longrightarrow> \<exists>t. d' = d\<lparr>c_links := t\<rparr>"
  by (cases d) (auto simp: InsertCameraTarget_def split: if_splits option.splits)

lemma writes_DeleteCameraTargets: "DeleteCameraTargets i d = Inr d' \<Longrightarrow> \<exists>t. d' = d\<lparr>c_links := t\<rparr>"
  by (cases d) (auto simp: DeleteCameraTargets_def split: if_splits option.splits)

lemma writes_InsertAsset: "InsertAsset i ar d = Inr d' \<Longrightarrow> \<exists>t. d' = d\<lparr>c_assets := t\<rparr>"
  by (cases d) (auto simp: InsertAsset_def split: if_splits option.splits)

lemma writes_InsertRendition: "InsertRendition i as ps now d = Inr d' \<Longrightarrow> \<exists>t. d' = d\<lparr>c_renditions := t\<rparr>"
  by (cases d) (auto simp: InsertRendition_def split: if_splits option.splits)

lemma writes_SetRenditionStatus: "SetRenditionStatus i rs sha err d = Inr d' \<Longrightarrow> \<exists>t. d' = d\<lparr>c_renditions := t\<rparr>"
  by (cases d) (auto simp: SetRenditionStatus_def split: if_splits option.splits)

lemma writes_InsertTarget: "InsertTarget i tr d = Inr d' \<Longrightarrow> \<exists>t. d' = d\<lparr>c_targets := t\<rparr>"
  by (cases d) (auto simp: InsertTarget_def split: if_splits option.splits)

lemma writes_UpdateTarget_row: "UpdateTarget_row i tr d = Inr d' \<Longrightarrow> \<exists>t. d' = d\<lparr>c_targets := t\<rparr>"
  by (cases d) (auto simp: UpdateTarget_row_def split: if_splits option.splits)

lemma writes_DeleteTarget_row: "DeleteTarget_row t d = Inr d' \<Longrightarrow> \<exists>t. d' = d\<lparr>c_targets := t\<rparr>"
  by (cases d) (auto simp: DeleteTarget_row_def split: if_splits option.splits)

lemma writes_InsertProfile: "InsertProfile p v doc d = Inr d' \<Longrightarrow> \<exists>t. d' = d\<lparr>c_profiles := t\<rparr>"
  by (cases d) (auto simp: InsertProfile_def split: if_splits option.splits)

lemma writes_SetProfileArchived: "SetProfileArchived p v arch d = Inr d' \<Longrightarrow> \<exists>t. d' = d\<lparr>c_profiles := t\<rparr>"
  by (cases d) (auto simp: SetProfileArchived_def split: if_splits option.splits)

lemmas writes =
  writes_InsertCamera writes_UpdateCameraMeta writes_TouchCamera writes_SetCameraDesired writes_InsertCameraNetwork
  writes_UpdateCameraNetwork writes_UpsertCameraState writes_DeleteCameraState writes_InsertCameraProtocol
  writes_UpdateCameraProtocol writes_InsertCameraUser writes_DeleteCameraUsers writes_UpsertCameraStatus
  writes_UpsertCameraStream writes_InsertCameraTarget writes_DeleteCameraTargets writes_InsertAsset
  writes_InsertRendition writes_SetRenditionStatus writes_InsertTarget writes_UpdateTarget_row writes_DeleteTarget_row
  writes_InsertProfile writes_SetProfileArchived

text \<open>A predicate on some columns survives a statement that leaves them.\<close>

lemma keeps_frame:
  assumes "\<And>d d'. f d = Inr d' \<Longrightarrow> g d' = g d" "\<And>d d'. g d' = g d \<Longrightarrow> P d \<Longrightarrow> P d'"
  shows "keeps P f"
  using assms unfolding keeps_def by blast

lemma renditions_frame: "c_renditions d' = c_renditions d \<Longrightarrow> renditions_valid d \<Longrightarrow> renditions_valid d'"
  by (rule renditions_sub) simp_all

interpretation encodable: service_machine "\<lambda>n. True" renditions_valid
proof unfold_locales
  show "renditions_valid new_db" by (simp add: new_db_def renditions_valid_def)
  show "keeps renditions_valid (DeleteCamera_row i)" for i
    by (auto simp: keeps_def DeleteCamera_row_def intro: renditions_frame)
  show "keeps renditions_valid (DeleteRendition_row i)" for i
    by (rule keepsI, erule renditions_sub [rotated]) (auto simp: DeleteRendition_row_def set_tdel)
  show "keeps renditions_valid (DeleteAsset_row i)" for i
    by (rule keepsI, erule renditions_sub [rotated]) (auto simp: DeleteAsset_row_def split: if_splits)
  show "keeps renditions_valid (InsertRendition i a ps now)" if "valid_params ps" for i a ps now
    using that by (auto simp: keeps_def InsertRendition_def intro!: renditions_put split: if_splits)
  show "keeps renditions_valid (SetRenditionStatus i rs sha err)" for i rs sha err
  proof (rule keepsI)
    fix d d' assume d: "renditions_valid d" and *: "SetRenditionStatus i rs sha err d = Inr d'"
    from d have "valid_params (rd_Params r)" if "tget (c_renditions d) i = Some r" for r
      using tget_Some_mem [OF that] by (auto simp: renditions_valid_def)
    with d * show "renditions_valid d'"
      by (auto simp: SetRenditionStatus_def intro!: renditions_put split: option.splits)
  qed
qed (auto simp: keeps_def dest!: writes intro: renditions_frame)

section \<open>Addresses\<close>

text \<open>
  A stored address is a usable host address of the subnet of its stored mask, with a unicast MAC, and its
  gateway is another address of that subnet. A node without network of its own stores no address.
\<close>

definition usable_network :: "network_row \<Rightarrow> bool" where
  "usable_network r =
    (cn_Ip r = [] \<or>
     (\<exists>a p. cn_Ip r = ip4_str a \<and> prefix_ok p \<and> cn_Netmask r = PrefixToMask p \<and> \<not> special_unicast a \<and> host_of a (nat p) a \<and>
        is_ok (ParseMAC (cn_Mac r)) \<and> length (cn_Dns r) \<le> 3 \<and>
        (cn_Gateway r = [] \<or> (\<exists>g. cn_Gateway r = ip4_str g \<and> g \<noteq> a \<and> prefix_contains a (nat p) g))))"

definition networks_usable :: "cam_db \<Rightarrow> bool" where
  "networks_usable d = (\<forall>q\<in>set (c_network d). usable_network (snd q))"

lemma parse_dns_length: "parseDNS n ins = Inr out \<Longrightarrow> length out \<le> 3"
  by (auto simp: parseDNS_def split: sum.splits if_splits)

lemma resolved_usable:
  assumes "resolved w" "dns = rv_DNS w \<or> dns = []"
  shows "usable_network (r\<lparr>cn_ParentIf := rv_Parent w, cn_Mac := rv_MAC w, cn_Ip := rv_IP w, cn_Netmask := rv_Netmask w,
    cn_Gateway := rv_Gateway w, cn_Dns := dns\<rparr>)"
proof -
  from assms(1) obtain n i doc x where r: "resolveNetwork n i doc x = Inr w" by (auto simp: resolved_def)
  show ?thesis
  proof (cases "nd_local n")
    case True
    with r show ?thesis by (auto simp: resolveNetwork_def usable_network_def split: sum.splits)
  next
    case False
    with r obtain out parent mac ip p gw where v: "parseDNS n (in_DNS x) = Inr out"
      "NetIdentity_Validate (camera_identity parent mac ip p gw) = None"
      "w = \<lparr>rv_Parent = parent, rv_MAC = mac, rv_IP = ip4_str ip, rv_Netmask = PrefixToMask p,
              rv_Gateway = (if gw = NoAddr then [] else addr_str n gw), rv_Prefix = p, rv_DNS = out\<rparr>"
      by (auto simp: resolveNetwork_def Let_def split: sum.splits option.splits)
    note i = NetIdentity_Validate_iff [THEN iffD1, OF v(2)]
    from i have p: "prefix_ok p" "\<not> special_unicast ip" "host_of ip (nat p) ip" "is_ok (ParseMAC mac)"
      "gw = NoAddr \<or> (\<exists>g. gw = Addr4 g \<and> g \<noteq> ip \<and> prefix_contains ip (nat p) g)"
      by (auto simp: camera_identity_def)
    have "length dns \<le> 3" using assms(2) v(3) parse_dns_length [OF v(1)] by auto
    with p show ?thesis
      unfolding usable_network_def by (intro disjI2 exI [of _ ip] exI [of _ p]) (auto simp: v(3) addr_str_def)
  qed
qed

lemma networks_put:
  "networks_usable d \<Longrightarrow> usable_network r \<Longrightarrow> networks_usable (d\<lparr>c_network := tput i r (c_network d)\<rparr>)"
  using set_tput_subset [of i r "c_network d"] by (auto simp: networks_usable_def)

lemma networks_sub: "set (c_network d') \<subseteq> set (c_network d) \<Longrightarrow> networks_usable d \<Longrightarrow> networks_usable d'"
  unfolding networks_usable_def by blast

lemma networks_frame: "c_network d' = c_network d \<Longrightarrow> networks_usable d \<Longrightarrow> networks_usable d'"
  by (rule networks_sub) simp_all

interpretation addressed: service_machine "\<lambda>n. True" networks_usable
proof unfold_locales
  show "networks_usable new_db" by (simp add: new_db_def networks_usable_def)
  show "keeps networks_usable (InsertCameraNetwork i (network_of nm im w))" if "resolved w" for i nm im w
  proof (rule keepsI)
    fix d d' assume "networks_usable d" "InsertCameraNetwork i (network_of nm im w) d = Inr d'"
    moreover have "usable_network (network_of nm im w)"
      using resolved_usable [OF that, of "rv_DNS w" "network_of nm im w"] by (simp add: network_of_def)
    ultimately show "networks_usable d'" by (auto simp: InsertCameraNetwork_def intro!: networks_put split: if_splits)
  qed
  show "keeps networks_usable (UpdateCameraNetwork i (network_change w dns))" if "resolved w" "dns = rv_DNS w \<or> dns = []" for i w dns
    using resolved_usable [OF that]
    by (auto simp: keeps_def UpdateCameraNetwork_def network_change_def intro!: networks_put split: option.splits if_splits)
  show "keeps networks_usable (DeleteCamera_row i)" for i
    by (rule keepsI, erule networks_sub [rotated]) (auto simp: DeleteCamera_row_def set_tdel)
  show "keeps networks_usable (DeleteAsset_row i)" for i
    by (rule keepsI, erule networks_frame [rotated]) (auto simp: DeleteAsset_row_def split: if_splits)
  show "keeps networks_usable (DeleteRendition_row i)" for i
    by (rule keepsI, erule networks_frame [rotated]) (auto simp: DeleteRendition_row_def)
qed (auto simp: keeps_def dest!: writes intro: networks_frame)

section \<open>Accounts\<close>

definition account_opens :: "(string \<Rightarrow> string \<Rightarrow> string \<Rightarrow> string option) \<Rightarrow> account_row \<Rightarrow> bool" where
  "account_opens opn u = (\<forall>n. nd_aead_open n = opn \<longrightarrow>
     (\<exists>pw. Open n (ac_PasswordEnc u) (account_ctx (ac_CameraID u) (ac_Username u)) = Inr pw))"

definition accounts_open :: "(string \<Rightarrow> string \<Rightarrow> string \<Rightarrow> string option) \<Rightarrow> cam_db \<Rightarrow> bool" where
  "accounts_open opn d = (\<forall>p\<in>set (c_users d). account_opens opn (snd p))"

lemma accounts_sub: "set (c_users d') \<subseteq> set (c_users d) \<Longrightarrow> accounts_open opn d \<Longrightarrow> accounts_open opn d'"
  unfolding accounts_open_def by blast

lemma accounts_frame: "c_users d' = c_users d \<Longrightarrow> accounts_open opn d \<Longrightarrow> accounts_open opn d'"
  by (rule accounts_sub) simp_all

definition has_box :: "(string \<Rightarrow> string \<Rightarrow> string \<Rightarrow> string option) \<Rightarrow> node \<Rightarrow> bool" where
  "has_box opn n = (aead_ok n \<and> nd_aead_open n = opn)"

lemma Open_cong: "nd_aead_open n = nd_aead_open m \<Longrightarrow> Open n e c = Open m e c"
  by (simp add: Open_def)

lemma sealed_opens:
  assumes "has_box opn n" "sealed_account n u"
  shows "account_opens opn u"
proof -
  from assms(2) obtain nonce pw where "length nonce = NonceSize"
    "ac_PasswordEnc u = Seal n nonce pw (account_ctx (ac_CameraID u) (ac_Username u))" by (auto simp: sealed_account_def)
  with assms(1) have "Open n (ac_PasswordEnc u) (account_ctx (ac_CameraID u) (ac_Username u)) = Inr pw"
    by (simp add: has_box_def Open_Seal)
  then show ?thesis using assms(1) Open_cong unfolding account_opens_def has_box_def by metis
qed

interpretation boxed: service_machine "has_box opn" "accounts_open opn" for opn
proof unfold_locales
  show "accounts_open opn new_db" by (simp add: new_db_def accounts_open_def)
  show "keeps (accounts_open opn) (InsertCameraUser j u)" if "has_box opn n" "sealed_account n u" for n u j
  proof (rule keepsI)
    fix d d' assume "accounts_open opn d" "InsertCameraUser j u d = Inr d'"
    with sealed_opens [OF that] set_tput_subset [of j u "c_users d"] show "accounts_open opn d'"
      by (auto simp: InsertCameraUser_def accounts_open_def split: if_splits)
  qed
  show "keeps (accounts_open opn) (DeleteCameraUsers i)" for i
    by (rule keepsI, erule accounts_sub [rotated]) (auto simp: DeleteCameraUsers_def)
  show "keeps (accounts_open opn) (DeleteCamera_row i)" for i
    by (rule keepsI, erule accounts_sub [rotated]) (auto simp: DeleteCamera_row_def)
  show "keeps (accounts_open opn) (DeleteAsset_row i)" for i
    by (rule keepsI, erule accounts_frame [rotated]) (auto simp: DeleteAsset_row_def split: if_splits)
  show "keeps (accounts_open opn) (DeleteRendition_row i)" for i
    by (rule keepsI, erule accounts_frame [rotated]) (auto simp: DeleteRendition_row_def)
qed (auto simp: keeps_def dest!: writes intro: accounts_frame)

end
