(* ===== verification/Camera_Rows.thy ===== *)
theory Camera_Rows
  imports Camera_Invariants
begin

text \<open>
  What a transaction of the camera service has written when it succeeds: the table after each loop, and the
  whole database after each transaction, as equations.
\<close>

section \<open>Loops\<close>

definition put_rows :: "string \<Rightarrow> (string \<times> 'v) list \<Rightarrow> 'v child_table \<Rightarrow> 'v child_table" where
  "put_rows i rows t = fold (\<lambda>(k, v). tput (i, k) v) rows t"

lemma put_rows_simps [simp]: "put_rows i [] t = t" "put_rows i ((k, v) # rows) t = put_rows i rows (tput (i, k) v t)"
  by (simp_all add: put_rows_def)

lemma tget_put_rows_other: "c \<noteq> i \<Longrightarrow> tget (put_rows i rows t) (c, k) = tget t (c, k)"
  by (induction rows arbitrary: t) auto

lemma tget_put_rows_absent: "k \<notin> set (tkeys rows) \<Longrightarrow> tget (put_rows i rows t) (i, k) = tget t (i, k)"
  by (induction rows arbitrary: t) (auto simp: tkeys_def)

lemma tget_put_rows: "table_ok rows \<Longrightarrow> tget (put_rows i rows t) (i, k) = (case tget rows k of None \<Rightarrow> tget t (i, k) | Some v \<Rightarrow> Some v)"
proof (induction rows arbitrary: t)
  case (Cons p rows)
  obtain k' v where p: "p = (k', v)" by fastforce
  with Cons.prems have "table_ok rows" "k' \<notin> set (tkeys rows)" by (auto simp: table_ok_def tkeys_def)
  then have "tget rows k' = None" by (simp add: tget_None_iff)
  with p Cons.IH [OF \<open>table_ok rows\<close>, of "tput (i, k') v t"] show ?case
    by (cases "k = k'"; cases "tget rows k") simp_all
qed simp

definition keys_of :: "'v child_table \<Rightarrow> string \<Rightarrow> string set" where
  "keys_of t c = {k. tget t (c, k) \<noteq> None}"

lemma keys_of_put [simp]: "keys_of (tput (i, k) v t) c = (if c = i then insert k (keys_of t c) else keys_of t c)"
  by (auto simp: keys_of_def)

lemma keys_of_put_rows [simp]: "keys_of (put_rows i rows t) c = (if c = i then keys_of t c \<union> set (tkeys rows) else keys_of t c)"
  by (induction rows arbitrary: t) (force simp: tkeys_def)+

lemma keys_of_drop [simp]: "keys_of (drop_camera i t) c = (if c = i then {} else keys_of t c)"
  by (auto simp: keys_of_def)

lemma keys_of_by_key: "table_ok t \<Longrightarrow> set (tkeys (by_key (of_camera c t))) = keys_of t c"
proof -
  assume t: "table_ok t"
  have "set (tkeys (by_key (of_camera c t))) = set (tkeys (of_camera c t))" by (simp add: by_key_def tkeys_def)
  also have "\<dots> = keys_of t c" using tget_None_iff [of "of_camera c t"] by (auto simp: keys_of_def)
  finally show ?thesis .
qed

lemma for_each_done:
  assumes "\<And>x d d'. f x d = Inr d' \<Longrightarrow> d' = upd x d" "for_each xs f d = Inr d'"
  shows "d' = fold upd xs d"
  using assms(2)
proof (induction xs arbitrary: d)
  case (Cons x xs)
  then obtain u where u: "f x d = Inr u" "for_each xs f u = Inr d'" by (auto simp: then_do_Inr)
  from Cons.IH [OF u(2)] assms(1) [OF u(1)] show ?case by simp
qed (simp add: skip_def)

lemma loop_state:
  assumes "for_each xs (\<lambda>x. UpsertCameraState i (k x) (r x)) d = Inr d'"
  shows "d' = d\<lparr>c_state := put_rows i (map (\<lambda>x. (k x, r x)) xs) (c_state d)\<rparr>"
proof -
  have 1: "fold (\<lambda>x d. d\<lparr>c_state := tput (i, k x) (r x) (c_state d)\<rparr>) xs d = d\<lparr>c_state := put_rows i (map (\<lambda>x. (k x, r x)) xs) (c_state d)\<rparr>"
    by (induction xs arbitrary: d) simp_all
  have 2: "d' = fold (\<lambda>x d. d\<lparr>c_state := tput (i, k x) (r x) (c_state d)\<rparr>) xs d"
    using assms by (rule for_each_done [rotated]) (auto simp: UpsertCameraState_def split: if_splits)
  from 2 show ?thesis unfolding 1 .
qed

lemma loop_protocols:
  assumes "for_each xs (\<lambda>x. InsertCameraProtocol i (k x) (r x)) d = Inr d'"
  shows "d' = d\<lparr>c_protocols := put_rows i (map (\<lambda>x. (k x, r x)) xs) (c_protocols d)\<rparr>"
proof -
  have 1: "fold (\<lambda>x d. d\<lparr>c_protocols := tput (i, k x) (r x) (c_protocols d)\<rparr>) xs d = d\<lparr>c_protocols := put_rows i (map (\<lambda>x. (k x, r x)) xs) (c_protocols d)\<rparr>"
    by (induction xs arbitrary: d) simp_all
  have 2: "d' = fold (\<lambda>x d. d\<lparr>c_protocols := tput (i, k x) (r x) (c_protocols d)\<rparr>) xs d"
    using assms by (rule for_each_done [rotated]) (auto simp: InsertCameraProtocol_def split: if_splits)
  from 2 show ?thesis unfolding 1 .
qed

lemma loop_streams:
  assumes "for_each xs (\<lambda>x. UpsertCameraStream i (k x) (r x)) d = Inr d'"
  shows "d' = d\<lparr>c_streams := put_rows i (map (\<lambda>x. (k x, r x)) xs) (c_streams d)\<rparr>"
proof -
  have 1: "fold (\<lambda>x d. d\<lparr>c_streams := tput (i, k x) (r x) (c_streams d)\<rparr>) xs d = d\<lparr>c_streams := put_rows i (map (\<lambda>x. (k x, r x)) xs) (c_streams d)\<rparr>"
    by (induction xs arbitrary: d) simp_all
  have 2: "d' = fold (\<lambda>x d. d\<lparr>c_streams := tput (i, k x) (r x) (c_streams d)\<rparr>) xs d"
    using assms by (rule for_each_done [rotated]) (auto simp: UpsertCameraStream_def split: if_splits)
  from 2 show ?thesis unfolding 1 .
qed

lemma loop_links:
  assumes "for_each xs (\<lambda>x. InsertCameraTarget i (k x) (r x)) d = Inr d'"
  shows "d' = d\<lparr>c_links := put_rows i (map (\<lambda>x. (k x, r x)) xs) (c_links d)\<rparr>"
proof -
  have 1: "fold (\<lambda>x d. d\<lparr>c_links := tput (i, k x) (r x) (c_links d)\<rparr>) xs d = d\<lparr>c_links := put_rows i (map (\<lambda>x. (k x, r x)) xs) (c_links d)\<rparr>"
    by (induction xs arbitrary: d) simp_all
  have 2: "d' = fold (\<lambda>x d. d\<lparr>c_links := tput (i, k x) (r x) (c_links d)\<rparr>) xs d"
    using assms by (rule for_each_done [rotated]) (auto simp: InsertCameraTarget_def split: if_splits)
  from 2 show ?thesis unfolding 1 .
qed

lemma tput_new: "tget t k = None \<Longrightarrow> tput k v t = t @ [(k, v)]"
  by (induction k v t rule: tput.induct) (auto split: if_splits)

lemma loop_users:
  assumes "for_each xs (\<lambda>x. InsertCameraUser (j x) (u x)) d = Inr d'"
  shows "d' = d\<lparr>c_users := c_users d @ map (\<lambda>x. (j x, u x)) xs\<rparr>"
proof -
  have 1: "fold (\<lambda>x d. d\<lparr>c_users := c_users d @ [(j x, u x)]\<rparr>) xs d = d\<lparr>c_users := c_users d @ map (\<lambda>x. (j x, u x)) xs\<rparr>"
    by (induction xs arbitrary: d) simp_all
  have 2: "d' = fold (\<lambda>x d. d\<lparr>c_users := c_users d @ [(j x, u x)]\<rparr>) xs d"
    using assms by (rule for_each_done [rotated]) (auto simp: InsertCameraUser_def tput_new split: if_splits)
  from 2 show ?thesis unfolding 1 .
qed

lemma write_state_done:
  "write_state n i vs origin d = Inr d' \<Longrightarrow>
   d' = d\<lparr>c_state := put_rows i (map (\<lambda>k. (k, state_row_of n vs origin k)) (SortedKeys vs)) (c_state d)\<rparr>"
  unfolding write_state_def by (drule loop_state)

definition user_rows :: "node \<Rightarrow> fresh \<Rightarrow> string \<Rightarrow> user_input list \<Rightarrow> (string \<times> account_row) list" where
  "user_rows n f i us = map (\<lambda>(k, u). (fr_user f k, account_of n f i k u)) (enumerate 0 us)"

lemma write_users_done: "write_users n f i us d = Inr d' \<Longrightarrow> d' = d\<lparr>c_users := c_users d @ user_rows n f i us\<rparr>"
  unfolding write_users_def user_rows_def case_prod_unfold by (rule loop_users)

definition port_of :: "node \<Rightarrow> document \<Rightarrow> string \<Rightarrow> int" where
  "port_of n doc k = (case instancePort n doc k of Inl e \<Rightarrow> 0 | Inr p \<Rightarrow> p)"

definition default_protocols :: "node \<Rightarrow> document \<Rightarrow> (string \<times> protocol_row) list" where
  "default_protocols n doc =
    map (\<lambda>k. (k, \<lparr>cp_Enabled = True, cp_Port = port_of n doc k, cp_Options = ''{}''\<rparr>)) (SortedKeys (dc_Engines doc))"

lemma write_protocols_done:
  assumes "write_protocols n doc i d = Inr d'"
  shows "d' = d\<lparr>c_protocols := put_rows i (default_protocols n doc) (c_protocols d)\<rparr>"
proof -
  let ?row = "\<lambda>k. \<lparr>cp_Enabled = True, cp_Port = port_of n doc k, cp_Options = ''{}''\<rparr>"
  have 1: "fold (\<lambda>k d. d\<lparr>c_protocols := tput (i, k) (?row k) (c_protocols d)\<rparr>) xs d =
      d\<lparr>c_protocols := put_rows i (map (\<lambda>k. (k, ?row k)) xs) (c_protocols d)\<rparr>" for xs d
    by (induction xs arbitrary: d) simp_all
  have 2: "d' = fold (\<lambda>k d. d\<lparr>c_protocols := tput (i, k) (?row k) (c_protocols d)\<rparr>) (SortedKeys (dc_Engines doc)) d"
    using assms unfolding write_protocols_def
    by (rule for_each_done [rotated])
      (auto simp: InsertCameraProtocol_def fail_step_def port_of_def split: if_splits sum.splits)
  from 2 show ?thesis unfolding 1 default_protocols_def .
qed

lemma write_streams_done:
  "write_streams i a rends d = Inr d' \<Longrightarrow>
   d' = d\<lparr>c_streams := put_rows i (map (\<lambda>(k, r). (k, \<lparr>sw_AssetID = a, sw_RenditionID = Some r\<rparr>)) rends) (c_streams d)\<rparr>"
  unfolding write_streams_def case_prod_unfold by (rule loop_streams)

lemma write_links_done:
  "write_links i ts d = Inr d' \<Longrightarrow>
   d' = d\<lparr>c_links := put_rows i (map (\<lambda>t. (t, \<lparr>ln_EventTypes = [], ln_Overrides = ''{}''\<rparr>)) (dedupe ts)) (c_links d)\<rparr>"
  unfolding write_links_def by (drule loop_links)

lemma write_changes_done:
  "write_changes n i origin cs d = Inr d' \<Longrightarrow>
   d' = d\<lparr>c_state := put_rows i (map (\<lambda>(k, v). (k, \<lparr>cs_Value = nd_marshal n v, cs_Origin = origin, cs_UpdatedAt = nd_now n\<rparr>)) cs) (c_state d)\<rparr>"
  unfolding write_changes_def case_prod_unfold by (rule loop_state)

lemmas block_done = write_state_done write_users_done write_protocols_done write_streams_done write_links_done write_changes_done

section \<open>Transactions\<close>

lemma create_rows_done:
  assumes "create_rows n f x doc nw us tags vo a rends d = Inr d'" "i = fr_id f"
  shows "tget (c_cameras d) i = None"
    "tget (c_profiles d) (ci_ProfileID x, ci_ProfileVersion x) \<noteq> None"
    "d' = d\<lparr>c_cameras := tput i (new_camera n i (trim_space (ci_Name x)) (ci_ProfileID x) (ci_ProfileVersion x) doc
              (case ci_Autostart x of None \<Rightarrow> True | Some a \<Rightarrow> a) tags) (c_cameras d),
            c_network := tput i (network_of NetMacvlan IPStatic nw) (c_network d),
            c_state := put_rows i (map (\<lambda>k. (k, state_row_of n (fst vo) (\<lambda>k. if tget (snd vo) k \<noteq> None then ''panel'' else ''profile'') k))
              (SortedKeys (fst vo))) (c_state d),
            c_protocols := put_rows i (default_protocols n doc) (c_protocols d),
            c_users := c_users d @ user_rows n f i us,
            c_streams := put_rows i (map (\<lambda>(k, r). (k, \<lparr>sw_AssetID = a, sw_RenditionID = Some r\<rparr>)) rends) (c_streams d),
            c_links := put_rows i (map (\<lambda>t. (t, \<lparr>ln_EventTypes = [], ln_Overrides = ''{}''\<rparr>)) (dedupe (ci_TargetIDs x))) (c_links d),
            c_status := tput i (stopped_status n) (c_status d)\<rparr>"
  using assms unfolding create_rows_def Let_def
  by (cases vo; auto simp: then_do_Inr skip_def InsertCamera_def InsertCameraNetwork_def UpsertCameraStatus_def new_camera_def
      dest!: block_done split: if_splits)+

definition touched :: "string \<Rightarrow> int \<Rightarrow> (string, camera_row) table \<Rightarrow> (string, camera_row) table" where
  "touched i now t = (case tget t i of None \<Rightarrow> t | Some r \<Rightarrow> tput i (r\<lparr>cm_UpdatedAt := now\<rparr>) t)"

lemma TouchCamera_done: "TouchCamera i now d = Inr (d\<lparr>c_cameras := touched i now (c_cameras d)\<rparr>)"
  by (simp add: TouchCamera_def touched_def split: option.split)

lemma tget_touched:
  "tget (touched i now t) c = (if c = i then map_option (\<lambda>r. r\<lparr>cm_UpdatedAt := now\<rparr>) (tget t i) else tget t c)"
  by (simp add: touched_def split: option.split)

definition set_protocol :: "string \<Rightarrow> string \<Rightarrow> bool \<Rightarrow> int \<Rightarrow> protocol_row child_table \<Rightarrow> protocol_row child_table" where
  "set_protocol i k e p t = (case tget t (i, k) of None \<Rightarrow> t | Some r \<Rightarrow> tput (i, k) (r\<lparr>cp_Enabled := e, cp_Port := p\<rparr>) t)"

lemma UpdateCameraProtocol_done:
  "UpdateCameraProtocol i k e p d = Inr (d\<lparr>c_protocols := set_protocol i k e p (c_protocols d)\<rparr>)"
  by (simp add: UpdateCameraProtocol_def set_protocol_def split: option.split)

lemma tget_set_protocol:
  "tget (set_protocol i k e p t) (c, j) =
    (if c = i \<and> j = k then map_option (\<lambda>r. r\<lparr>cp_Enabled := e, cp_Port := p\<rparr>) (tget t (c, j)) else tget t (c, j))"
  by (simp add: set_protocol_def split: option.split)

definition set_protocols :: "string \<Rightarrow> (string \<times> bool \<times> int) list \<Rightarrow> protocol_row child_table \<Rightarrow> protocol_row child_table" where
  "set_protocols i xs t = fold (\<lambda>(k, e, p). set_protocol i k e p) xs t"

lemma tget_set_protocols:
  assumes "table_ok xs"
  shows "tget (set_protocols i xs t) (c, k) =
    (if c = i then (case tget xs k of None \<Rightarrow> tget t (c, k)
       | Some (e, p) \<Rightarrow> map_option (\<lambda>r. r\<lparr>cp_Enabled := e, cp_Port := p\<rparr>) (tget t (c, k))) else tget t (c, k))"
  using assms
proof (induction xs arbitrary: t)
  case (Cons x xs)
  obtain k' e p where x: "x = (k', e, p)" by (metis prod_cases3)
  with Cons.prems have t: "table_ok xs" "tget xs k' = None" by (auto simp: table_ok_def tkeys_def tget_None_iff)
  with Cons.IH [OF t(1), of "set_protocol i k' e p t"] x show ?case
    by (cases "c = i \<and> k = k'") (auto simp: set_protocols_def tget_set_protocol split: option.split)
qed (simp add: set_protocols_def)

lemma keys_of_set_protocol [simp]: "keys_of (set_protocol i k e p t) c = keys_of t c"
  by (auto simp: keys_of_def tget_set_protocol)

lemma keys_of_set_protocols [simp]: "keys_of (set_protocols i xs t) c = keys_of t c"
  by (induction xs arbitrary: t) (auto simp: set_protocols_def)

lemma loop_set_protocols:
  assumes "for_each xs (\<lambda>(k, e, p). UpdateCameraProtocol i k e p) d = Inr d'"
  shows "d' = d\<lparr>c_protocols := set_protocols i xs (c_protocols d)\<rparr>"
proof -
  have 1: "fold (\<lambda>(k, e, p) d. d\<lparr>c_protocols := set_protocol i k e p (c_protocols d)\<rparr>) xs d =
      d\<lparr>c_protocols := set_protocols i xs (c_protocols d)\<rparr>"
    by (induction xs arbitrary: d) (auto simp: set_protocols_def)
  have 2: "d' = fold (\<lambda>(k, e, p) d. d\<lparr>c_protocols := set_protocol i k e p (c_protocols d)\<rparr>) xs d"
    using assms by (rule for_each_done [rotated]) (auto simp: UpdateCameraProtocol_done)
  from 2 show ?thesis unfolding 1 .
qed

lemma for_each_map: "for_each (map g xs) f = for_each xs (\<lambda>x. f (g x))"
  by (induction xs) simp_all

lemma protocol_rows_done:
  assumes "protocol_rows n i nxt d = Inr d'"
  shows "d' = d\<lparr>c_protocols := set_protocols i (map (\<lambda>k. (k, cp_Enabled (the (tget nxt k)), cp_Port (the (tget nxt k)))) (SortedKeys nxt)) (c_protocols d),
    c_cameras := touched i (nd_now n) (c_cameras d)\<rparr>"
proof -
  have "for_each ks (\<lambda>k. case tget nxt k of None \<Rightarrow> skip | Some p \<Rightarrow> UpdateCameraProtocol i k (cp_Enabled p) (cp_Port p)) =
      for_each (map (\<lambda>k. (k, cp_Enabled (the (tget nxt k)), cp_Port (the (tget nxt k)))) ks) (\<lambda>(k, e, p). UpdateCameraProtocol i k e p)"
    if "set ks \<subseteq> set (tkeys nxt)" for ks
    using that
  proof (induction ks)
    case (Cons k ks)
    then obtain p where "tget nxt k = Some p" using tget_None_iff [of nxt k] by auto
    with Cons show ?case by simp
  qed simp
  from this [of "SortedKeys nxt"] assms show ?thesis
    by (auto simp: protocol_rows_def then_do_Inr TouchCamera_done dest!: loop_set_protocols)
qed

lemma users_rows_done:
  "users_rows n f i us d = Inr d' \<Longrightarrow>
   d' = d\<lparr>c_users := filter (\<lambda>(j, u). ac_CameraID u \<noteq> i) (c_users d) @ user_rows n f i us,
     c_cameras := touched i (nd_now n) (c_cameras d)\<rparr>"
  by (auto simp: users_rows_def then_do_Inr skip_def DeleteCameraUsers_def TouchCamera_done dest!: block_done)

lemma stream_rows_done:
  "stream_rows n i name cs a r d = Inr d' \<Longrightarrow>
   d' = d\<lparr>c_state := put_rows i (map (\<lambda>(k, v). (k, \<lparr>cs_Value = nd_marshal n v, cs_Origin = ''panel'', cs_UpdatedAt = nd_now n\<rparr>)) cs) (c_state d),
     c_streams := tput (i, name) \<lparr>sw_AssetID = a, sw_RenditionID = Some r\<rparr> (c_streams d),
     c_cameras := touched i (nd_now n) (c_cameras d)\<rparr>"
  by (auto simp: stream_rows_def then_do_Inr skip_def UpsertCameraStream_def TouchCamera_done dest!: block_done split: if_splits)

definition set_network :: "string \<Rightarrow> resolvedNetwork \<Rightarrow> string list \<Rightarrow> (string, network_row) table \<Rightarrow> (string, network_row) table" where
  "set_network i w dns t =
    (case tget t i of
       None \<Rightarrow> t
     | Some r \<Rightarrow> tput i (r\<lparr>cn_ParentIf := rv_Parent w, cn_Mac := rv_MAC w, cn_Ip := rv_IP w, cn_Netmask := rv_Netmask w,
         cn_Gateway := rv_Gateway w, cn_Dns := dns\<rparr>) t)"

lemma UpdateCameraNetwork_done:
  "UpdateCameraNetwork i (network_change w dns) d = Inr d' \<Longrightarrow> d' = d\<lparr>c_network := set_network i w dns (c_network d)\<rparr>"
  by (auto simp: UpdateCameraNetwork_def network_change_def set_network_def split: option.splits if_splits)

lemma tget_set_network:
  "tget (set_network i w dns t) c =
    (if c = i then map_option (\<lambda>r. r\<lparr>cn_ParentIf := rv_Parent w, cn_Mac := rv_MAC w, cn_Ip := rv_IP w, cn_Netmask := rv_Netmask w,
       cn_Gateway := rv_Gateway w, cn_Dns := dns\<rparr>) (tget t i) else tget t c)"
  by (simp add: set_network_def split: option.split)

definition new_network :: "string \<Rightarrow> resolvedNetwork option \<Rightarrow> string list \<Rightarrow> (string, network_row) table \<Rightarrow> (string, network_row) table" where
  "new_network i nw dns t = (case nw of None \<Rightarrow> t | Some w \<Rightarrow> set_network i w dns t)"

lemma reset_rows_done:
  assumes "reset_rows n f i doc ports nw d = Inr d'"
  shows "d' = d\<lparr>c_state := put_rows i (map (\<lambda>k. (k, state_row_of n (Defaults (dc_Model doc)) (\<lambda>k. ''profile'') k)) (SortedKeys (Defaults (dc_Model doc))))
       (drop_camera i (c_state d)),
     c_users := filter (\<lambda>(j, u). ac_CameraID u \<noteq> i) (c_users d) @ user_rows n f i (factory_users doc),
     c_protocols := set_protocols i (map (\<lambda>(k, p). (k, True, p)) ports) (c_protocols d),
     c_network := new_network i nw [] (c_network d),
     c_cameras := touched i (nd_now n) (c_cameras d)\<rparr>"
proof -
  have "for_each ports (\<lambda>(k, p). UpdateCameraProtocol i k True p) =
      for_each (map (\<lambda>(k, p). (k, True, p)) ports) (\<lambda>(k, e, p). UpdateCameraProtocol i k e p)"
    by (simp add: for_each_map case_prod_unfold)
  with assms show ?thesis unfolding reset_rows_def
    by (cases nw) (auto simp: then_do_Inr skip_def DeleteCameraState_def DeleteCameraUsers_def TouchCamera_done new_network_def
        dest!: block_done loop_set_protocols UpdateCameraNetwork_done)
qed

lemma clone_rows_done:
  assumes "clone_rows n f x b nw us d = Inr d'" "i = fr_id f"
  shows "tget (c_cameras d) i = None"
    "d' = d\<lparr>c_cameras := tput i (new_camera n i (trim_space (cl_Name x)) (cm_ProfileID (b_cam b)) (cm_ProfileVersion (b_cam b)) (b_doc b)
              (cm_Autostart (b_cam b)) (cm_Tags (b_cam b))) (c_cameras d),
            c_network := tput i (network_of (cn_Mode (b_net b)) (cn_IpMode (b_net b)) nw) (c_network d),
            c_state := put_rows i (map (\<lambda>(k, r). (k, r\<lparr>cs_UpdatedAt := nd_now n\<rparr>)) (b_state b)) (c_state d),
            c_protocols := put_rows i (b_protos b) (c_protocols d),
            c_users := c_users d @ user_rows n f i us,
            c_streams := put_rows i (b_streams b) (c_streams d),
            c_links := put_rows i (map (\<lambda>(t, l, r). (t, l)) (b_targets b)) (c_links d),
            c_status := tput i (stopped_status n) (c_status d)\<rparr>"
proof -
  have p: "for_each (b_protos b) (\<lambda>(k, p). InsertCameraProtocol j k p) d = Inr d' \<Longrightarrow>
      d' = d\<lparr>c_protocols := put_rows j (b_protos b) (c_protocols d)\<rparr>" for j d d'
    unfolding case_prod_unfold by (drule loop_protocols) simp
  have s: "for_each (b_streams b) (\<lambda>(k, p). UpsertCameraStream j k p) d = Inr d' \<Longrightarrow>
      d' = d\<lparr>c_streams := put_rows j (b_streams b) (c_streams d)\<rparr>" for j d d'
    unfolding case_prod_unfold by (drule loop_streams) simp
  have v: "for_each (b_state b) (\<lambda>(k, r). UpsertCameraState j k (r\<lparr>cs_UpdatedAt := nd_now n\<rparr>)) d = Inr d' \<Longrightarrow>
      d' = d\<lparr>c_state := put_rows j (map (\<lambda>(k, r). (k, r\<lparr>cs_UpdatedAt := nd_now n\<rparr>)) (b_state b)) (c_state d)\<rparr>" for j d d'
    unfolding case_prod_unfold by (rule loop_state)
  have l: "for_each (b_targets b) (\<lambda>(t, l, r). InsertCameraTarget j t l) d = Inr d' \<Longrightarrow>
      d' = d\<lparr>c_links := put_rows j (map (\<lambda>(t, l, r). (t, l)) (b_targets b)) (c_links d)\<rparr>" for j d d'
    unfolding case_prod_unfold by (rule loop_links)
  show "tget (c_cameras d) i = None"
    using assms by (auto simp: clone_rows_def Let_def then_do_Inr InsertCamera_def split: if_splits)
  show "d' = d\<lparr>c_cameras := tput i (new_camera n i (trim_space (cl_Name x)) (cm_ProfileID (b_cam b)) (cm_ProfileVersion (b_cam b)) (b_doc b)
              (cm_Autostart (b_cam b)) (cm_Tags (b_cam b))) (c_cameras d),
            c_network := tput i (network_of (cn_Mode (b_net b)) (cn_IpMode (b_net b)) nw) (c_network d),
            c_state := put_rows i (map (\<lambda>(k, r). (k, r\<lparr>cs_UpdatedAt := nd_now n\<rparr>)) (b_state b)) (c_state d),
            c_protocols := put_rows i (b_protos b) (c_protocols d),
            c_users := c_users d @ user_rows n f i us,
            c_streams := put_rows i (b_streams b) (c_streams d),
            c_links := put_rows i (map (\<lambda>(t, l, r). (t, l)) (b_targets b)) (c_links d),
            c_status := tput i (stopped_status n) (c_status d)\<rparr>"
    using assms unfolding clone_rows_def Let_def
    by (auto simp: then_do_Inr skip_def InsertCamera_def InsertCameraNetwork_def UpsertCameraStatus_def
        dest!: write_users_done p s v l split: if_splits)
qed

end
