(* ===== verification/Camera_Whole.thy ===== *)
theory Camera_Whole
  imports Camera_Rows
begin

text \<open>
  A stored camera is whole: its profile reads, it has a network row and a status, one row per parameter,
  protocol and stream of the profile and an administrator. Every operation of the camera service keeps all
  cameras whole, so each of them loads; and an operation that fails has changed no camera.
\<close>

section \<open>Operations by cases\<close>

lemma and_then_cases:
  "and_then m f d = (r, d') \<longleftrightarrow> (\<exists>e. r = Inl e \<and> m d = (Inl e, d')) \<or> (\<exists>a u. m d = (Inr a, u) \<and> f a u = (r, d'))"
  by (auto simp: and_then_def split: prod.split sum.split)

lemma commit_cases:
  "commit why f d = (r, d') \<longleftrightarrow> (\<exists>x. r = Inl (why x) \<and> f d = Inl x \<and> d' = d) \<or> (r = Inr () \<and> f d = Inr d')"
  by (auto simp: commit_def Tx_def split: sum.split)

lemma simple_ops:
  "give a d = (r, d') \<longleftrightarrow> r = Inr a \<and> d' = d"
  "refuse e d = (r2, d') \<longleftrightarrow> r2 = Inl e \<and> d' = d"
  "ask q d = (r3, d') \<longleftrightarrow> r3 = Inr (q d) \<and> d' = d"
  "check c d = (r4, d') \<longleftrightarrow> r4 = (case c of None \<Rightarrow> Inr () | Some e \<Rightarrow> Inl e) \<and> d' = d"
  by (auto simp: give_def refuse_def ask_def check_def split: option.split)

lemmas op_cases = and_then_cases commit_cases simple_ops

text \<open>An operation step by step: it stops with an error at the step, or goes on.\<close>

lemma loadE:
  assumes "and_then (loadBundle i) f d = (r, d')"
  obtains (stop) e where "r = Inl e" "d' = d" | (go) b where "load i d = Inr b" "f b d = (r, d')"
  using assms by (cases "load i d") (auto simp: and_then_cases)

lemma attemptE:
  assumes "and_then (attempt q) f d = (r, d')"
  obtains (stop) e where "r = Inl e" "d' = d" | (go) a where "q = Inr a" "f a d = (r, d')"
  using assms by (cases q) (auto simp: and_then_cases)

lemma checkE:
  assumes "and_then (check c) f d = (r, d')"
  obtains (stop) e where "r = Inl e" "d' = d" | (go) "c = None" "f () d = (r, d')"
  using assms by (cases c) (auto simp: and_then_cases)

lemma askE:
  assumes "and_then (ask q) f d = (r, d')"
  obtains "f (q d) d = (r, d')"
  using assms by (auto simp: and_then_cases)

lemma ask_attemptE:
  assumes "and_then (and_then (ask q) attempt) f d = (r, d')"
  obtains (stop) e where "r = Inl e" "d' = d" | (go) a where "q d = Inr a" "f a d = (r, d')"
  using assms by (cases "q d") (auto simp: and_then_cases)

lemma ask_checkE:
  assumes "and_then (and_then (ask q) check) f d = (r, d')"
  obtains (stop) e where "r = Inl e" "d' = d" | (go) "q d = None" "f () d = (r, d')"
  using assms by (cases "q d") (auto simp: and_then_cases)

lemma admitE:
  assumes "and_then (admitCreate n) f d = (r, d')"
  obtains (stop) e where "r = Inl e" "d' = d" | (go) "f () d = (r, d')"
  using assms by (auto simp: and_then_cases admitCreate_def)

lemma commitE:
  assumes "and_then (commit why t) (\<lambda>_. give a) d = (r, d')"
  obtains (stop) e where "r = Inl e" "d' = d" | (go) "t d = Inr d'" "r = Inr a"
  using assms by (auto simp: and_then_cases commit_cases simple_ops)

lemma optionE:
  assumes "(case q of None \<Rightarrow> refuse x | Some a \<Rightarrow> f a) d = (r, d')"
  obtains (stop) e where "r = Inl e" "d' = d" | (go) a where "q = Some a" "f a d = (r, d')"
  using assms by (cases q) (auto simp: simple_ops)

lemma sumE:
  assumes "(case q of Inl e \<Rightarrow> refuse (x e) | Inr a \<Rightarrow> f a) d = (r, d')"
  obtains (stop) e where "r = Inl e" "d' = d" | (go) a where "q = Inr a" "f a d = (r, d')"
  using assms by (cases q) (auto simp: simple_ops)

lemma unlessE:
  assumes "(if c then refuse x else m) d = (r, d')"
  obtains (stop) e where "r = Inl e" "d' = d" | (go) "\<not> c" "m d = (r, d')"
  using assms by (cases c) (auto simp: simple_ops)

lemma pairE:
  assumes "(case p of (a, b) \<Rightarrow> f a b) d = (r, d')"
  obtains a b where "p = (a, b)" "f a b d = (r, d')"
  using assms by (cases p) auto

lemmas step_elims = optionE sumE unlessE pairE loadE attemptE checkE ask_attemptE ask_checkE admitE commitE

lemma admit_cases: "admitCreate n d = (r, d') \<Longrightarrow> d' = d"
  by (auto simp: admitCreate_def simple_ops)

section \<open>The tables of cameras\<close>

text \<open>What a camera is made of: everything but assets, renditions and targets.\<close>

definition camera_part where
  "camera_part d = ((c_profiles d, c_cameras d, c_network d, c_state d, c_protocols d), (c_users d, c_status d, c_streams d, c_links d))"

lemma camera_part_keeps [keep_intros]:
  "keeps (\<lambda>d. camera_part d = X) (InsertAsset i ar)" "keeps (\<lambda>d. camera_part d = X) (InsertRendition j a p now)"
  "keeps (\<lambda>d. camera_part d = X) (SetRenditionStatus j rs sha err)" "keeps (\<lambda>d. camera_part d = X) (InsertTarget k tr)"
  "keeps (\<lambda>d. camera_part d = X) (UpdateTarget_row k tr)"
  by (auto simp: keeps_def camera_part_def dest!: writes)

text \<open>An operation that leaves the tables of cameras alone.\<close>

definition apart :: "'a op \<Rightarrow> bool" where
  "apart m = (\<forall>X. op_keeps (\<lambda>d. camera_part d = X) m)"

lemma apartD: "apart m \<Longrightarrow> m d = (r, d') \<Longrightarrow> camera_part d' = camera_part d"
  unfolding apart_def op_keeps_def by (metis snd_conv)

lemma apart_storeAsset: "apart (storeAsset i row)"
  unfolding apart_def by (auto simp: storeAsset_def intro!: keep_intros)

lemma apart_UploadAsset: "apart (UploadAsset i f sz p)"
  using apart_storeAsset unfolding apart_def UploadAsset_def by (auto intro!: keep_intros)

lemma apart_ensureBuiltinAsset: "apart (ensureBuiltinAsset n i)"
  using apart_storeAsset unfolding apart_def ensureBuiltinAsset_def by (auto intro!: keep_intros)

lemma apart_ensureRenditionRow: "apart (ensureRenditionRow n i a ss)"
  unfolding apart_def ensureRenditionRow_def Let_def by (auto intro!: keep_intros)

lemma apart_create_asset: "apart (create_asset n f a)"
  using apart_ensureBuiltinAsset unfolding apart_def create_asset_def by (auto intro!: keep_intros)

lemma apart_create_renditions: "apart (create_renditions n f a ss)"
  using apart_ensureRenditionRow unfolding apart_def create_renditions_def by (auto intro!: keep_intros)

lemma apart_CreateTarget: "apart (CreateTarget n i nonce x)"
  unfolding apart_def CreateTarget_def Let_def by (auto intro!: keep_intros)

lemma apart_UpdateTarget: "apart (UpdateTarget n i nonce x)"
  unfolding apart_def UpdateTarget_def Let_def by (auto intro!: keep_intros)

lemmas apart_run =
  apartD [OF apart_storeAsset] apartD [OF apart_UploadAsset] apartD [OF apart_ensureBuiltinAsset] apartD [OF apart_ensureRenditionRow]
  apartD [OF apart_create_asset] apartD [OF apart_CreateTarget] apartD [OF apart_UpdateTarget]

section \<open>What each operation commits\<close>

text \<open>Each operation either leaves the tables of cameras as they were or commits its one transaction.\<close>

lemma create_renditions_names:
  assumes "create_renditions n f a ss d = (Inr rends, d')"
  shows "map fst rends = map fst ss \<and> camera_part d' = camera_part d"
proof -
  have "each_op (\<lambda>(k, name, s). and_then (named_stream name (ensureRenditionRow n (fr_rendition f k) a s)) (\<lambda>r. give (name, r)))
      (enumerate j xs) d = (Inr rs, d') \<Longrightarrow> map fst rs = map fst xs" for j xs d rs d'
    by (induction xs arbitrary: j d rs d') (auto simp: and_then_Inr)
  from this [of 0 ss] assms apartD [OF apart_create_renditions assms] show ?thesis by (simp add: create_renditions_def)
qed

lemma create_renditions_refused: "create_renditions n f a ss d = (Inl e, d') \<Longrightarrow> camera_part d' = camera_part d"
  by (rule apartD [OF apart_create_renditions])

lemma renditionE:
  assumes "and_then (ensureRenditionRow n j a ss) f d = (r, d')"
  obtains (stop) e where "r = Inl e" "camera_part d' = camera_part d"
  | (go) k u where "ensureRenditionRow n j a ss d = (Inr k, u)" "camera_part u = camera_part d" "f k u = (r, d')"
proof -
  note e = apartD [OF apart_ensureRenditionRow [of n j a ss], of d]
  from assms show thesis using that e by (auto simp: and_then_cases)
qed

lemma CreateCamera_cases:
  assumes "CreateCamera n f x d = (r, d')"
  shows "camera_part d' = camera_part d \<and> (\<exists>e. r = Inl e) \<or>
    (\<exists>es doc nw tags vo ss a rends u. r = Inr es \<and> create_check n f x d = Inr (doc, nw, tags, vo, ss) \<and> camera_part u = camera_part d \<and>
       map fst rends = map fst ss \<and> create_rows n f x doc nw (create_users x doc) tags vo a rends u = Inr d')"
proof (cases "create_check n f x d")
  case (Inl e)
  with assms show ?thesis unfolding CreateCamera_def by (auto simp: op_cases)
next
  case (Inr c)
  obtain doc nw tags vo ss where c: "c = (doc, nw, tags, vo, ss)" by (metis prod_cases5)
  from assms show ?thesis unfolding CreateCamera_def
    by (simp add: op_cases Inr c, elim disjE exE conjE)
      (auto simp: simple_ops dest!: apart_run admit_cases create_renditions_names create_renditions_refused split: option.splits, blast)
qed

lemma UpdateCamera_cases:
  assumes "UpdateCamera n i x d = (r, d')"
  shows "d' = d \<and> (\<exists>e. r = Inl e) \<or>
    (\<exists>es b name a tags nw. r = Inr es \<and> load i d = Inr b \<and> update_rows n i x name a tags nw d = Inr d')"
  using assms unfolding UpdateCamera_def by (elim step_elims) auto

lemma DeleteCamera_op_cases:
  "DeleteCamera_op n i d = (r, d') \<Longrightarrow> d' = d \<and> (\<exists>e. r = Inl e) \<or> (\<exists>es. r = Inr es \<and> DeleteCamera_row i d = Inr d')"
  unfolding DeleteCamera_op_def by (auto simp: op_cases split: if_splits)

lemma ConfigureCamera_cases:
  assumes "ConfigureCamera n i ins d = (r, d')"
  shows "d' = d \<and> (\<exists>e. r = Inl e) \<or>
    (\<exists>es b ok. r = Inr es \<and> load i d = Inr b \<and> coerce_all (nd_values n) (dc_Model (b_doc b)) ins = ([], ok) \<and>
       write_changes n i ''panel'' (by_key ok) d = Inr d')"
  using assms unfolding ConfigureCamera_def Let_def
  by (auto simp: simple_ops elim!: step_elims split: if_splits prod.splits)

lemma SetCameraUsers_cases:
  assumes "SetCameraUsers n f i ins d = (r, d')"
  shows "d' = d \<and> (\<exists>e. r = Inl e) \<or>
    (\<exists>es b us ch. r = Inr es \<and>
       (nd_active n i \<longrightarrow> SendUsers i (map (\<lambda>u. (ui_Username u, ui_Password u, ui_Role u)) us) \<in> set es) \<and> load i d = Inr b \<and> merge_users n i (b_users b) 0 ins = Inr ([], us, ch) \<and>
       ValidateCameraUsers (nd_lower n) (map domain_user us) = None \<and> users_rows n f i us d = Inr d')"
  using assms unfolding SetCameraUsers_def by (fastforce elim!: step_elims split: prod.splits)

lemma SetCameraProtocols_cases:
  assumes "SetCameraProtocols n i ins d = (r, d')"
  shows "d' = d \<and> (\<exists>e. r = Inl e) \<or>
    (\<exists>es b ds v nxt. r = Inr es \<and> load i d = Inr b \<and> descriptors_of n (b_doc b) (tkeys (b_protos b)) = Inr ds \<and>
       apply_protocols ds (cm_ProfileID (b_cam b)) 0 ins [] (b_protos b) = (v, nxt) \<and> clashes ds nxt (SortedKeys nxt) [] v = [] \<and>
       protocol_rows n i nxt d = Inr d')"
  using assms unfolding SetCameraProtocols_def by (fastforce elim!: step_elims split: prod.splits)

lemma UpdateCameraStream_cases:
  assumes "UpdateCameraStream n f i name x d = (r, d')"
  shows "camera_part d' = camera_part d \<and> (\<exists>e. r = Inl e) \<or>
    (\<exists>es b vs coerced asset ss rend u. r = Inr es \<and> load i d = Inr b \<and> tget (b_streams b) name \<noteq> None \<and>
       coerce_wanted n (dc_Model (b_doc b)) (cm_ProfileID (b_cam b)) (wanted name x) (bundle_values n b, []) = Inr (vs, coerced) \<and>
       StreamFor (nd_values n) (dc_Model (b_doc b)) name vs = Inr ss \<and> ensureRenditionRow n (fr_rendition f 0) asset ss d = (Inr rend, u) \<and>
       camera_part u = camera_part d \<and> stream_rows n i name (by_key coerced) asset rend u = Inr d')"
  using assms unfolding UpdateCameraStream_def Let_def
  by (elim step_elims askE renditionE) (simp_all, blast)

lemma ResetCamera_cases:
  assumes "ResetCamera n f i scope d = (r, d')"
  shows "d' = d \<and> (\<exists>e. r = Inl e) \<or>
    (\<exists>es b nw ports. r = Inr es \<and> load i d = Inr b \<and> ValidateCameraUsers (nd_lower n) (map domain_user (factory_users (b_doc b))) = None \<and>
       reset_network n i scope b d = Inr nw \<and> default_ports n (b_doc b) (tkeys (b_protos b)) = Inr ports \<and>
       reset_rows n f i (b_doc b) ports nw d = Inr d')"
  using assms unfolding ResetCamera_def
  by (cases scope; simp add: simple_ops; fastforce elim!: step_elims split: option.splits)

lemma CloneCamera_cases:
  assumes "CloneCamera n f src x d = (r, d')"
  shows "d' = d \<and> (\<exists>e. r = Inl e) \<or>
    (\<exists>es b nw us. r = Inr es \<and> load src d = Inr b \<and> validate_camera_name (trim_space (cl_Name x)) = None \<and> \<not> b_archived b \<and>
       resolveNetwork n (fr_id f) (b_doc b) ((cl_Network x)\<lparr>in_DefaultMAC := (in_MAC (cl_Network x) = [])\<rparr>) = Inr nw \<and>
       open_accounts n src (b_users b) = Inr us \<and> clone_rows n f x b nw us d = Inr d')"
  using assms unfolding CloneCamera_def by (fastforce simp: simple_ops elim!: step_elims split: if_splits)

section \<open>Whole cameras\<close>

definition doc_of :: "cam_db \<Rightarrow> camera_row \<Rightarrow> document option" where
  "doc_of d cam = Option.bind (tget (c_profiles d) (cm_ProfileID cam, cm_ProfileVersion cam)) pf_Doc"

definition accounts_of :: "string \<Rightarrow> cam_db \<Rightarrow> account_row set" where
  "accounts_of i d = {u. \<exists>j. (j, u) \<in> set (c_users d) \<and> ac_CameraID u = i}"

definition has_admin :: "account_row set \<Rightarrow> bool" where
  "has_admin us = (\<exists>u\<in>us. ac_Role u = ''admin'')"

definition whole_camera :: "cam_db \<Rightarrow> string \<Rightarrow> camera_row \<Rightarrow> bool" where
  "whole_camera d i cam =
    (case doc_of d cam of
       None \<Rightarrow> False
     | Some doc \<Rightarrow>
         tget (c_network d) i \<noteq> None \<and> tget (c_status d) i \<noteq> None \<and>
         keys_of (c_state d) i = set (tkeys (pd_State (dc_Model doc))) \<and>
         keys_of (c_protocols d) i = set (tkeys (dc_Engines doc)) \<and>
         keys_of (c_streams d) i = set (streamNames doc) \<and>
         has_admin (accounts_of i d))"

definition whole :: "cam_db \<Rightarrow> bool" where
  "whole d = (\<forall>i cam. tget (c_cameras d) i = Some cam \<longrightarrow> whole_camera d i cam)"

text \<open>What a change to other cameras leaves of one.\<close>

definition same_at :: "string \<Rightarrow> cam_db \<Rightarrow> cam_db \<Rightarrow> bool" where
  "same_at i d d' =
    (tget (c_cameras d') i = tget (c_cameras d) i \<and> (tget (c_network d) i \<noteq> None \<longrightarrow> tget (c_network d') i \<noteq> None) \<and>
     (tget (c_status d) i \<noteq> None \<longrightarrow> tget (c_status d') i \<noteq> None) \<and> keys_of (c_state d') i = keys_of (c_state d) i \<and>
     keys_of (c_protocols d') i = keys_of (c_protocols d) i \<and> keys_of (c_streams d') i = keys_of (c_streams d) i \<and>
     accounts_of i d' = accounts_of i d)"

definition same_docs :: "cam_db \<Rightarrow> cam_db \<Rightarrow> bool" where
  "same_docs d d' = (\<forall>cam doc. doc_of d cam = Some doc \<longrightarrow> doc_of d' cam = Some doc)"

lemma whole_camera_same:
  assumes "whole_camera d c cam" "same_docs d d'" "same_at c d d'"
  shows "whole_camera d' c cam"
proof -
  from assms(1) obtain doc where "doc_of d cam = Some doc" by (auto simp: whole_camera_def split: option.splits)
  with assms show ?thesis by (auto simp: whole_camera_def same_at_def same_docs_def)
qed

lemma whole_same: "whole d \<Longrightarrow> same_docs d d' \<Longrightarrow> (\<And>c. same_at c d d') \<Longrightarrow> whole d'"
  unfolding whole_def by (metis same_at_def whole_camera_same)

lemma whole_step:
  assumes "whole d" "same_docs d d'" "\<And>c. c \<noteq> i \<Longrightarrow> same_at c d d'"
    "\<And>cam. tget (c_cameras d') i = Some cam \<Longrightarrow> whole_camera d' i cam"
  shows "whole d'"
  unfolding whole_def
proof (intro allI impI)
  fix c cam assume c: "tget (c_cameras d') c = Some cam"
  show "whole_camera d' c cam"
  proof (cases "c = i")
    case False
    with assms(3) have s: "same_at c d d'" .
    with c assms(1) have "whole_camera d c cam" by (simp add: whole_def same_at_def)
    then show ?thesis by (rule whole_camera_same [OF _ assms(2) s])
  qed (use c assms(4) in simp)
qed

lemma same_docs_profiles: "c_profiles d' = c_profiles d \<Longrightarrow> same_docs d d'"
  by (simp add: same_docs_def doc_of_def)

lemma whole_part: "camera_part d' = camera_part d \<Longrightarrow> whole d' = whole d"
proof -
  assume p: "camera_part d' = camera_part d"
  then have "doc_of d' = doc_of d" by (auto simp: camera_part_def doc_of_def)
  with p have "whole_camera d' = whole_camera d" unfolding whole_camera_def accounts_of_def camera_part_def
    by (intro ext) (simp cong: option.case_cong)
  with p show ?thesis by (simp add: whole_def camera_part_def)
qed

text \<open>A new camera: its identifier has no rows yet.\<close>

lemma refers_absent: "refers f t u \<Longrightarrow> tget u p = None \<Longrightarrow> (\<And>r. f k r = Some p) \<Longrightarrow> tget t k = None"
  unfolding refers_def by (cases "tget t k") blast+

lemma no_rows_yet:
  assumes "schema_ok d" "tget (c_cameras d) i = None"
  shows "keys_of (c_state d) i = {}" "keys_of (c_protocols d) i = {}" "keys_of (c_streams d) i = {}" "accounts_of i d = {}"
    "tget (c_network d) i = None"
proof -
  from assms(1) have r: "refers child_ref (c_state d) (c_cameras d)" "refers child_ref (c_protocols d) (c_cameras d)"
    "refers child_ref (c_streams d) (c_cameras d)" "refers account_ref (c_users d) (c_cameras d)"
    "refers own_ref (c_network d) (c_cameras d)" and t: "table_ok (c_users d)"
    by (simp_all add: schema_defs)
  from r assms(2) show "keys_of (c_state d) i = {}" "keys_of (c_protocols d) i = {}" "keys_of (c_streams d) i = {}"
    by (auto simp: keys_of_def child_ref_def intro!: refers_absent [of child_ref, OF _ assms(2)])
  from r(4) t assms(2) show "accounts_of i d = {}" by (fastforce simp: refers_def account_ref_def accounts_of_def tget_iff_mem)
  from r(5) assms(2) show "tget (c_network d) i = None" by (rule refers_absent) (simp_all add: own_ref_def)
qed

lemma admin_validated:
  assumes "ValidateCameraUsers f (map domain_user us) = None"
  shows "\<exists>u\<in>set us. ui_Role u = ''admin''"
proof -
  have "role_of r = RoleAdmin \<longleftrightarrow> r = ''admin''" for r by (simp add: role_of_def)
  with assms users_loop_admins [of f 0 "{}" 0 "[]" "map domain_user us"] show ?thesis
    by (auto simp: ValidateCameraUsers_def case_prod_beta filter_empty_conv domain_user_def)
qed

lemma user_rows_admin:
  assumes "ValidateCameraUsers g (map domain_user us) = None"
  shows "\<exists>j u. (j, u) \<in> set (user_rows n f i us) \<and> ac_CameraID u = i \<and> ac_Role u = ''admin''"
proof -
  from admin_validated [OF assms] obtain u where u: "u \<in> set us" "ui_Role u = ''admin''" by blast
  then obtain k where "k < length us" "us ! k = u" by (auto simp: in_set_conv_nth)
  then have "(k, u) \<in> set (enumerate 0 us)" by (simp add: in_set_enumerate_eq)
  then have "(fr_user f k, account_of n f i k u) \<in> set (user_rows n f i us)" by (force simp: user_rows_def)
  with u(2) show ?thesis by (intro exI conjI) (auto simp: account_of_def)
qed

lemma user_rows_camera: "(j, u) \<in> set (user_rows n f i us) \<Longrightarrow> ac_CameraID u = i"
  by (auto simp: user_rows_def account_of_def)

section \<open>Every operation keeps cameras whole\<close>

lemma no_rows_part:
  assumes "schema_ok d0" "camera_part d = camera_part d0" "tget (c_cameras d) i = None"
  shows "keys_of (c_state d) i = {}" "keys_of (c_protocols d) i = {}" "keys_of (c_streams d) i = {}" "accounts_of i d = {}"
    "tget (c_network d) i = None"
  using no_rows_yet [OF assms(1), of i] assms(2,3) by (simp_all add: camera_part_def accounts_of_def)

lemma whole_create_rows:
  assumes "whole d" "schema_ok d0" "camera_part d = camera_part d0" "create_rows n f x doc nw us tags vo a rends d = Inr d'"
    "doc_of d crow = Some doc" "cm_ProfileID crow = ci_ProfileID x" "cm_ProfileVersion crow = ci_ProfileVersion x"
    "set (tkeys (fst vo)) = set (tkeys (pd_State (dc_Model doc)))" "map fst rends = streamNames doc"
    "ValidateCameraUsers g (map domain_user us) = None"
  shows "whole d'"
proof -
  define i where "i = fr_id f"
  note c = create_rows_done [OF assms(4) i_def]
  note new = no_rows_part [OF assms(2,3) c(1)]
  show ?thesis
  proof (rule whole_step [where i = i, OF assms(1)])
    show "same_docs d d'" using c(3) by (intro same_docs_profiles) simp
    show "same_at j d d'" if "j \<noteq> i" for j
      using that c(3) by (auto simp: same_at_def accounts_of_def dest: user_rows_camera)
    fix cam assume "tget (c_cameras d') i = Some cam"
    with c(3) have "cm_ProfileID cam = cm_ProfileID crow" "cm_ProfileVersion cam = cm_ProfileVersion crow"
      using assms(6,7) by (auto simp: new_camera_def)
    with assms(5) c(3) have "doc_of d' cam = Some doc" by (simp add: doc_of_def)
    moreover have "has_admin (accounts_of i d')"
      using user_rows_admin [OF assms(10), of n f i] c(3) by (force simp: has_admin_def accounts_of_def)
    moreover have "fst ` set rends = set (streamNames doc)" using assms(9) by (metis list.set_map)
    ultimately show "whole_camera d' i cam" unfolding whole_camera_def
      using new assms(8) c(3) by (simp add: default_protocols_def tkeys_def image_image case_prod_unfold)
  qed
qed

lemma load_done:
  assumes "load i d = Inr b"
  shows "tget (c_cameras d) i = Some (b_cam b)" "doc_of d (b_cam b) = Some (b_doc b)" "tget (c_network d) i = Some (b_net b)"
    "b_state b = ListCameraState i d" "b_protos b = ListCameraProtocols i d" "b_users b = ListCameraUsers i d"
    "b_streams b = ListCameraStreams i d" "b_targets b = ListCameraTargets i d"
  using assms by (auto simp: load_def GetCamera_def GetCameraNetwork_def GetProfileByRef_def doc_of_def split: option.splits)

lemma loaded_whole:
  assumes "load i d = Inr b" "whole d"
  shows "whole_camera d i (b_cam b)"
  using load_done(1) [OF assms(1)] assms(2) by (simp add: whole_def)

lemma loaded_keys:
  assumes "load i d = Inr b" "whole d" "schema_ok d"
  shows "set (tkeys (b_state b)) = set (tkeys (pd_State (dc_Model (b_doc b))))" "set (tkeys (b_protos b)) = set (tkeys (dc_Engines (b_doc b)))"
    "set (tkeys (b_streams b)) = set (streamNames (b_doc b))" "\<exists>u\<in>set (b_users b). ac_Role u = ''admin''"
proof -
  from assms(3) have t: "table_ok (c_state d)" "table_ok (c_protocols d)" "table_ok (c_streams d)" by (simp_all add: schema_defs)
  from loaded_whole [OF assms(1,2)] load_done [OF assms(1)] t
  show "set (tkeys (b_state b)) = set (tkeys (pd_State (dc_Model (b_doc b))))" "set (tkeys (b_protos b)) = set (tkeys (dc_Engines (b_doc b)))"
    "set (tkeys (b_streams b)) = set (streamNames (b_doc b))"
    by (simp_all add: whole_camera_def keys_of_by_key ListCameraState_def ListCameraProtocols_def ListCameraStreams_def)
  from loaded_whole [OF assms(1,2)] load_done [OF assms(1)] show "\<exists>u\<in>set (b_users b). ac_Role u = ''admin''"
    by (force simp: whole_camera_def has_admin_def accounts_of_def ListCameraUsers_def)
qed

lemma open_accounts_role:
  "open_accounts n src us = Inr xs \<Longrightarrow> u \<in> set us \<Longrightarrow> \<exists>x\<in>set xs. ui_Role x = ac_Role u"
  by (induction us arbitrary: xs) (auto split: sum.splits)

lemma user_rows_role: "x \<in> set us \<Longrightarrow> \<exists>j u. (j, u) \<in> set (user_rows n f i us) \<and> ac_CameraID u = i \<and> ac_Role u = ui_Role x"
proof -
  assume "x \<in> set us"
  then obtain k where "k < length us" "us ! k = x" by (auto simp: in_set_conv_nth)
  then have "(k, x) \<in> set (enumerate 0 us)" by (simp add: in_set_enumerate_eq)
  then have "(fr_user f k, account_of n f i k x) \<in> set (user_rows n f i us)" by (force simp: user_rows_def)
  then show ?thesis by (intro exI conjI) (auto simp: account_of_def)
qed

lemma whole_clone_rows:
  assumes "whole d" "schema_ok d" "load src d = Inr b" "open_accounts n src (b_users b) = Inr us" "clone_rows n f x b nw us d = Inr d'"
  shows "whole d'"
proof -
  define i where "i = fr_id f"
  note c = clone_rows_done [OF assms(5) i_def]
  note new = no_rows_yet [OF assms(2) c(1)]
  note l = load_done [OF assms(3)] and k = loaded_keys [OF assms(3,1,2)]
  show ?thesis
  proof (rule whole_step [where i = i, OF assms(1)])
    show "same_docs d d'" using c(2) by (intro same_docs_profiles) simp
    show "same_at j d d'" if "j \<noteq> i" for j
      using that c(2) by (auto simp: same_at_def accounts_of_def dest: user_rows_camera)
    fix cam assume "tget (c_cameras d') i = Some cam"
    with c(2) have "cm_ProfileID cam = cm_ProfileID (b_cam b)" "cm_ProfileVersion cam = cm_ProfileVersion (b_cam b)"
      by (auto simp: new_camera_def)
    with l(2) c(2) have "doc_of d' cam = Some (b_doc b)" by (simp add: doc_of_def)
    moreover from k(4) obtain u where "u \<in> set (b_users b)" "ac_Role u = ''admin''" by blast
    with open_accounts_role [OF assms(4)] obtain y where "y \<in> set us" "ui_Role y = ''admin''" by metis
    with user_rows_role [of y us n f i] c(2) have "has_admin (accounts_of i d')" by (force simp: has_admin_def accounts_of_def)
    moreover have "tkeys (map (\<lambda>(k, r). (k, r\<lparr>cs_UpdatedAt := nd_now n\<rparr>)) t) = tkeys t" for t :: "(string, param_row) table"
      by (simp add: tkeys_def case_prod_unfold)
    ultimately show "whole_camera d' i cam" unfolding whole_camera_def
      using new k(1-3) c(2) by simp
  qed
qed

lemma tkeys_rows: "set (tkeys (map (\<lambda>(k, v). (k, g v)) cs)) = fst ` set cs"
  by (force simp: tkeys_def)

text \<open>A change to one camera that keeps its profile, its keys and an administrator.\<close>

lemma whole_edit:
  assumes "whole d" "c_profiles d' = c_profiles d" "\<And>c. c \<noteq> i \<Longrightarrow> same_at c d d'"
    "\<And>cam'. tget (c_cameras d') i = Some cam' \<Longrightarrow> \<exists>cam. tget (c_cameras d) i = Some cam \<and>
       cm_ProfileID cam' = cm_ProfileID cam \<and> cm_ProfileVersion cam' = cm_ProfileVersion cam"
    "tget (c_network d) i \<noteq> None \<Longrightarrow> tget (c_network d') i \<noteq> None" "tget (c_status d) i \<noteq> None \<Longrightarrow> tget (c_status d') i \<noteq> None"
    "\<And>cam doc. tget (c_cameras d) i = Some cam \<Longrightarrow> doc_of d cam = Some doc \<Longrightarrow>
       keys_of (c_state d') i = set (tkeys (pd_State (dc_Model doc)))"
    "keys_of (c_protocols d') i = keys_of (c_protocols d) i" "keys_of (c_streams d') i = keys_of (c_streams d) i"
    "has_admin (accounts_of i d) \<Longrightarrow> has_admin (accounts_of i d')"
  shows "whole d'"
proof (rule whole_step [where i = i, OF assms(1)])
  show "same_docs d d'" using assms(2) by (rule same_docs_profiles)
  show "same_at c d d'" if "c \<noteq> i" for c using that by (rule assms(3))
  fix cam' assume "tget (c_cameras d') i = Some cam'"
  with assms(4) obtain cam where cam: "tget (c_cameras d) i = Some cam"
    "cm_ProfileID cam' = cm_ProfileID cam" "cm_ProfileVersion cam' = cm_ProfileVersion cam" by blast
  with assms(1) have w: "whole_camera d i cam" by (simp add: whole_def)
  moreover have "doc_of d' cam' = doc_of d cam" using cam assms(2) by (simp add: doc_of_def)
  ultimately show "whole_camera d' i cam'"
    using assms(5-10) cam(1) by (auto simp: whole_camera_def split: option.splits)
qed

lemma whole_state_keys:
  assumes "whole d" "tget (c_cameras d) i = Some cam" "doc_of d cam = Some doc"
  shows "keys_of (c_state d) i = set (tkeys (pd_State (dc_Model doc)))"
proof -
  from assms(1,2) have "whole_camera d i cam" by (simp add: whole_def)
  with assms(3) show ?thesis by (simp add: whole_camera_def)
qed

lemma same_camera_row: "tget t i = Some r \<Longrightarrow> \<exists>cam. tget t i = Some cam \<and> cm_ProfileID r = cm_ProfileID cam \<and> cm_ProfileVersion r = cm_ProfileVersion cam"
  by simp

lemma touched_row:
  "tget (touched i now t) i = Some r \<Longrightarrow> \<exists>cam. tget t i = Some cam \<and> cm_ProfileID r = cm_ProfileID cam \<and> cm_ProfileVersion r = cm_ProfileVersion cam"
  by (auto simp: tget_touched)

lemma whole_users_rows:
  assumes "whole d" "users_rows n f i us d = Inr d'" "ValidateCameraUsers g (map domain_user us) = None"
  shows "whole d'"
proof -
  note c = users_rows_done [OF assms(2)]
  show ?thesis
  proof (rule whole_edit [where i = i, OF assms(1)])
    show "same_at j d d'" if "j \<noteq> i" for j
      using that c by (auto simp: same_at_def accounts_of_def tget_touched dest: user_rows_camera)
    show "has_admin (accounts_of i d')"
      using user_rows_admin [OF assms(3), of n f i] c by (force simp: has_admin_def accounts_of_def)
    show "\<exists>cam. tget (c_cameras d) i = Some cam \<and> cm_ProfileID r = cm_ProfileID cam \<and> cm_ProfileVersion r = cm_ProfileVersion cam"
      if "tget (c_cameras d') i = Some r" for r using that c by (auto intro!: touched_row [of i "nd_now n"])
  qed (use c in \<open>simp_all add: whole_state_keys [OF assms(1)]\<close>)
qed

lemma whole_protocol_rows:
  assumes "whole d" "protocol_rows n i nxt d = Inr d'"
  shows "whole d'"
proof -
  note c = protocol_rows_done [OF assms(2)]
  show ?thesis
  proof (rule whole_edit [where i = i, OF assms(1)])
    show "same_at j d d'" if "j \<noteq> i" for j
      using that c by (auto simp: same_at_def accounts_of_def tget_touched)
    show "\<exists>cam. tget (c_cameras d) i = Some cam \<and> cm_ProfileID r = cm_ProfileID cam \<and> cm_ProfileVersion r = cm_ProfileVersion cam"
      if "tget (c_cameras d') i = Some r" for r using that c by (auto intro!: touched_row [of i "nd_now n"])
  qed (use c in \<open>simp_all add: whole_state_keys [OF assms(1)] accounts_of_def\<close>)
qed

lemma whole_stream_rows:
  assumes "whole d" "stream_rows n i name cs a r d = Inr d'" "fst ` set cs \<subseteq> keys_of (c_state d) i" "name \<in> keys_of (c_streams d) i"
  shows "whole d'"
proof -
  note c = stream_rows_done [OF assms(2)]
  show ?thesis
  proof (rule whole_edit [where i = i, OF assms(1)])
    show "same_at j d d'" if "j \<noteq> i" for j
      using that c by (auto simp: same_at_def accounts_of_def tget_touched)
    show "\<exists>cam. tget (c_cameras d) i = Some cam \<and> cm_ProfileID r = cm_ProfileID cam \<and> cm_ProfileVersion r = cm_ProfileVersion cam"
      if "tget (c_cameras d') i = Some r" for r using that c by (auto intro!: touched_row [of i "nd_now n"])
  qed (use c assms(3,4) whole_state_keys [OF assms(1)] in \<open>simp_all add: whole_state_keys [OF assms(1)] accounts_of_def tkeys_rows Un_absorb2 insert_absorb\<close>)
qed

lemma whole_write_changes:
  assumes "whole d" "write_changes n i origin cs d = Inr d'" "fst ` set cs \<subseteq> keys_of (c_state d) i"
  shows "whole d'"
proof -
  note c = write_changes_done [OF assms(2)]
  show ?thesis
    by (rule whole_same [OF assms(1)]) (use c assms(3) in \<open>auto simp: same_docs_profiles same_at_def accounts_of_def tkeys_rows\<close>)
qed

lemma whole_reset_rows:
  assumes "whole d" "reset_rows n f i doc ports nw d = Inr d'" "tget (c_cameras d) i = Some cam0" "doc_of d cam0 = Some doc"
    "ValidateCameraUsers g (map domain_user (factory_users doc)) = None"
  shows "whole d'"
proof -
  note c = reset_rows_done [OF assms(2)]
  have net: "tget (new_network i nw dns t) j = None \<longleftrightarrow> tget t j = None" for dns t j
    by (simp add: new_network_def tget_set_network split: option.split)
  have other: "tget (new_network i nw dns t) j = tget t j" if "j \<noteq> i" for dns t j
    using that by (simp add: new_network_def tget_set_network split: option.split)
  show ?thesis
  proof (rule whole_edit [where i = i, OF assms(1)])
    show "same_at j d d'" if "j \<noteq> i" for j
      using that c by (auto simp: same_at_def accounts_of_def tget_touched other dest: user_rows_camera)
    show "has_admin (accounts_of i d')"
      using user_rows_admin [OF assms(5), of n f i] c by (force simp: has_admin_def accounts_of_def)
    show "\<exists>cam. tget (c_cameras d) i = Some cam \<and> cm_ProfileID r = cm_ProfileID cam \<and> cm_ProfileVersion r = cm_ProfileVersion cam"
      if "tget (c_cameras d') i = Some r" for r using that c by (auto intro!: touched_row [of i "nd_now n"])
    fix cam doc' assume "tget (c_cameras d) i = Some cam" "doc_of d cam = Some doc'"
    with assms(3,4) have "doc' = doc" by simp
    with c show "keys_of (c_state d') i = set (tkeys (pd_State (dc_Model doc')))"
      by (simp add: Defaults_def tkeys_def image_image case_prod_unfold)
  qed (use c in \<open>simp_all add: net\<close>)
qed

section \<open>Keys of settings\<close>

lemma NativeFor_key:
  assumes "NativeFor m canon = Some k"
  shows "k \<in> set (tkeys (pd_State m))"
proof -
  have "tget (fold (\<lambda>(key, p) binds. if pa_Bind p \<noteq> [] then tput (pa_Bind p) key binds else binds) ps b) canon = Some k \<Longrightarrow>
      k \<in> set (tkeys ps) \<or> tget b canon = Some k" for ps b
    by (induction ps arbitrary: b) (fastforce simp: tkeys_def split: if_splits)+
  from this [of "pd_State m" "[]"] assms show ?thesis by (simp add: NativeFor_def NewModel_def)
qed

definition state_keys :: "profile_doc \<Rightarrow> string set" where
  "state_keys m = set (tkeys (pd_State m))"

lemma setBound_keys:
  assumes "setBound n m canon v field vo = Inr vo'" "set (tkeys (fst vo)) = state_keys m"
  shows "set (tkeys (fst vo')) = state_keys m"
proof -
  obtain vs os where vo: "vo = (vs, os)" by fastforce
  show ?thesis
  proof (cases "NativeFor m canon")
    case None
    from assms(1) have "vo' = vo" unfolding setBound_def None vo by (simp split: option.splits if_splits)
    with assms(2) show ?thesis by simp
  next
    case (Some k)
    from assms(1) obtain cv where "vo' = (tput k cv vs, tput k cv os)"
      unfolding setBound_def Some vo by (auto split: sum.splits)
    with assms(2) vo NativeFor_key [OF Some] show ?thesis by (auto simp: state_keys_def)
  qed
qed

lemma setBound_if_keys:
  "(if c then setBound n m canon v field vo else Inr vo) = Inr vo' \<Longrightarrow> set (tkeys (fst vo)) = state_keys m \<Longrightarrow>
   set (tkeys (fst vo')) = state_keys m"
  by (cases c) (simp_all add: setBound_keys)

lemma wanted_settings_keys:
  assumes "wanted_settings n m st = Inr vo"
  shows "set (tkeys (fst vo)) = state_keys m"
proof -
  have start: "set (tkeys (fst (Defaults m, [] :: settings))) = state_keys m" by (force simp: Defaults_def tkeys_def state_keys_def)
  from assms obtain vo1 vo2 where
    "(if si_Codec st \<noteq> [] then setBound n m ''media.main.codec'' (GStr (si_Codec st)) ''stream.codec'' (Defaults m, []) else Inr (Defaults m, [])) = Inr vo1"
    "(if si_Resolution st \<noteq> [] then setBound n m ''media.main.resolution'' (GStr (si_Resolution st)) ''stream.resolution'' vo1 else Inr vo1) = Inr vo2"
    "(if si_FPS st \<noteq> 0 then setBound n m ''media.main.fps'' (GInt (si_FPS st)) ''stream.fps'' vo2 else Inr vo2) = Inr vo"
    unfolding wanted_settings_def Let_def 
    by (simp only: split: sum.splits) (blast, metis Inr_Inl_False)
  from this(3) setBound_if_keys [OF this(2) setBound_if_keys [OF this(1) start]] show ?thesis by (rule setBound_if_keys)
qed

lemma stream_settings_names: "stream_settings n m vs names = Inr ss \<Longrightarrow> map fst ss = names"
  by (induction names arbitrary: ss) (auto split: sum.splits)

lemma create_check_done:
  assumes "create_check n f x d = Inr (doc, nw, tags, vo, ss)"
  shows "validate_camera_name (trim_space (ci_Name x)) = None" "normalize_tags (nd_lower n) (ci_Tags x) = Inr tags"
    "\<exists>p. tget (c_profiles d) (ci_ProfileID x, ci_ProfileVersion x) = Some p \<and> \<not> pf_Archived p \<and> pf_Doc p = Some doc"
    "resolveNetwork n (fr_id f) doc (ci_Network x) = Inr nw"
    "ValidateCameraUsers (nd_lower n) (map domain_user (create_users x doc)) = None"
    "wanted_settings n (dc_Model doc) (ci_Stream x) = Inr vo" "stream_settings n (dc_Model doc) (fst vo) (streamNames doc) = Inr ss"
  using assms by (simp_all add: create_check_def GetProfileByRef_def split: option.splits sum.splits if_splits)

lemma coerce_wanted_keys:
  "coerce_wanted n m prof ws vc = Inr vc' \<Longrightarrow> set (tkeys (snd vc')) \<subseteq> set (tkeys (snd vc)) \<union> state_keys m"
proof (induction n m prof ws vc arbitrary: vc' rule: coerce_wanted.induct)
  case (2 n m prof field canon raw ws vc)
  from "2.prems" obtain k cv where k: "NativeFor m canon = Some k" "Coerce (nd_values n) (param_of m k) raw = Inr cv"
    "coerce_wanted n m prof ws (tput k cv (fst vc), tput k cv (snd vc)) = Inr vc'"
    by (auto split: option.splits sum.splits)
  from "2.IH" [OF k] NativeFor_key [OF k(1)] show ?case by (auto simp: state_keys_def)
qed simp

lemma coerce_all_keys: "coerce_all env m ins = (errs, ok) \<Longrightarrow> fst ` set ok \<subseteq> state_keys m"
proof (induction ins arbitrary: errs ok)
  case (Cons c ins)
  obtain k v e o' where c: "c = (k, v)" "coerce_all env m ins = (e, o')" by (metis surj_pair)
  with Cons.IH have "fst ` set o' \<subseteq> state_keys m" by blast
  with c Cons.prems show ?case
    by (auto 0 3 simp: state_keys_def dest: tget_Some_key split: option.splits sum.splits)
qed simp

lemma by_key_set [simp]: "set (by_key t) = set t"
  by (simp add: by_key_def)

section \<open>Every step\<close>

lemma whole_CreateCamera:
  assumes "CreateCamera n f x d = (r, d')" "whole d" "schema_ok d"
  shows "whole d'"
  using CreateCamera_cases [OF assms(1)]
proof (elim disjE exE conjE)
  assume "camera_part d' = camera_part d"
  from whole_part [OF this] assms(2) show ?thesis by blast
next
  fix es doc nw tags vo ss a rends u
  assume *: "create_check n f x d = Inr (doc, nw, tags, vo, ss)" "camera_part u = camera_part d" "map fst rends = map fst ss"
    "create_rows n f x doc nw (create_users x doc) tags vo a rends u = Inr d'"
  note c = create_check_done [OF *(1)]
  from c(3) obtain p where p: "tget (c_profiles d) (ci_ProfileID x, ci_ProfileVersion x) = Some p" "pf_Doc p = Some doc" by blast
  define cam0 where "cam0 = new_camera n [] [] (ci_ProfileID x) (ci_ProfileVersion x) doc True []"
  have u: "whole u" using whole_part [OF *(2)] assms(2) by blast
  show ?thesis
  proof (rule whole_create_rows [OF u assms(3) *(2) *(4), where crow = cam0])
    show "doc_of u cam0 = Some doc" using p *(2) by (simp add: cam0_def new_camera_def doc_of_def camera_part_def)
  qed (use c wanted_settings_keys [OF c(6)] stream_settings_names [OF c(7)] *(3) in \<open>auto simp: cam0_def new_camera_def state_keys_def\<close>)
qed

lemma whole_network:
  assumes "whole d" "\<exists>t. d' = d\<lparr>c_network := t\<rparr> \<and> (\<forall>j. tget (c_network d) j \<noteq> None \<longrightarrow> tget t j \<noteq> None)"
  shows "whole d'"
proof -
  from assms(2) obtain t where t: "d' = d\<lparr>c_network := t\<rparr>" "\<And>j. tget (c_network d) j \<noteq> None \<Longrightarrow> tget t j \<noteq> None" by blast
  show ?thesis
  proof (rule whole_same [OF assms(1)])
    show "same_docs d d'" unfolding t(1) by (simp add: same_docs_profiles)
    show "same_at j d d'" for j unfolding t(1) same_at_def accounts_of_def using t(2) by simp
  qed
qed

lemma whole_links: "whole d \<Longrightarrow> \<exists>t. d' = d\<lparr>c_links := t\<rparr> \<Longrightarrow> whole d'"
  by (erule exE, erule whole_same) (simp_all add: same_docs_profiles same_at_def accounts_of_def)

lemma network_only:
  assumes "(case nw of None \<Rightarrow> skip | Some w \<Rightarrow> UpdateCameraNetwork i (network_change w (rv_DNS w))) u = Inr v"
  shows "\<exists>t. v = u\<lparr>c_network := t\<rparr> \<and> (\<forall>j. tget (c_network u) j \<noteq> None \<longrightarrow> tget t j \<noteq> None)"
proof (cases nw)
  case None
  with assms have "v = u" by (simp add: skip_def)
  then show ?thesis by (intro exI [of _ "c_network u"]) simp
next
  case (Some w)
  with assms have "UpdateCameraNetwork i (network_change w (rv_DNS w)) u = Inr v" by simp
  note UpdateCameraNetwork_done [OF this]
  then show ?thesis by (intro exI [of _ "set_network i w (rv_DNS w) (c_network u)"]) (simp add: tget_set_network)
qed

lemma links_only:
  assumes "(case ts of None \<Rightarrow> skip | Some ts \<Rightarrow> then_do (DeleteCameraTargets i) (write_links i ts)) v = Inr d'"
  shows "\<exists>t. d' = v\<lparr>c_links := t\<rparr>"
proof (cases ts)
  case None
  with assms have "d' = v" by (simp add: skip_def)
  then show ?thesis by (intro exI [of _ "c_links v"]) simp
next
  case (Some ks)
  with assms have "write_links i ks (v\<lparr>c_links := drop_camera i (c_links v)\<rparr>) = Inr d'" by (simp add: then_do_Inr DeleteCameraTargets_def)
  from write_links_done [OF this] show ?thesis by simp blast
qed

lemma whole_UpdateCamera:
  assumes "UpdateCamera n i x d = (r, d')" "whole d"
  shows "whole d'"
  using UpdateCamera_cases [OF assms(1)]
proof (elim disjE exE conjE)
  fix es b name a tags nw
  assume "update_rows n i x name a tags nw d = Inr d'"
  then obtain u v where *: "UpdateCameraMeta i name a tags (nd_now n) d = Inr u"
    "(case nw of None \<Rightarrow> skip | Some w \<Rightarrow> UpdateCameraNetwork i (network_change w (rv_DNS w))) u = Inr v"
    "(case uc_TargetIDs x of None \<Rightarrow> skip | Some ts \<Rightarrow> then_do (DeleteCameraTargets i) (write_links i ts)) v = Inr d'"
    by (auto simp: update_rows_def then_do_Inr skip_def)
  have "whole u"
  proof (rule whole_edit [where i = i, OF assms(2)])
    show "\<exists>cam. tget (c_cameras d) i = Some cam \<and> cm_ProfileID q = cm_ProfileID cam \<and> cm_ProfileVersion q = cm_ProfileVersion cam"
      if "tget (c_cameras u) i = Some q" for q
      using *(1) that by (auto simp: UpdateCameraMeta_def split: option.splits if_splits)
    show "same_at j d u" if "j \<noteq> i" for j
      using *(1) that by (auto simp: UpdateCameraMeta_def same_at_def accounts_of_def split: option.splits if_splits)
  qed (use *(1) in \<open>auto simp: UpdateCameraMeta_def accounts_of_def whole_state_keys [OF assms(2)] split: option.splits if_splits\<close>)
  then have "whole v" using network_only [OF *(2)] by (rule whole_network)
  then show ?thesis using links_only [OF *(3)] by (rule whole_links)
qed (use assms(2) in simp)

lemma whole_DeleteCamera_op:
  assumes "DeleteCamera_op n i d = (r, d')" "whole d"
  shows "whole d'"
  using DeleteCamera_op_cases [OF assms(1)]
proof (elim disjE exE conjE)
  assume "DeleteCamera_row i d = Inr d'"
  then have d': "d' = d\<lparr>c_cameras := tdel i (c_cameras d), c_network := tdel i (c_network d), c_state := drop_camera i (c_state d),
      c_protocols := drop_camera i (c_protocols d), c_users := filter (\<lambda>(j, u). ac_CameraID u \<noteq> i) (c_users d),
      c_status := tdel i (c_status d), c_streams := drop_camera i (c_streams d), c_links := drop_camera i (c_links d)\<rparr>"
    by (simp add: DeleteCamera_row_def)
  show ?thesis
  proof (rule whole_step [where i = i, OF assms(2)])
    show "same_docs d d'" unfolding d' by (simp add: same_docs_profiles)
    show "same_at j d d'" if "j \<noteq> i" for j using that unfolding d' same_at_def accounts_of_def by auto
    show "whole_camera d' i cam" if "tget (c_cameras d') i = Some cam" for cam using that unfolding d' by simp
  qed
qed (use assms(2) in simp)

lemma whole_ConfigureCamera:
  assumes "ConfigureCamera n i ins d = (r, d')" "whole d"
  shows "whole d'"
  using ConfigureCamera_cases [OF assms(1)]
proof (elim disjE exE conjE)
  fix b ok
  assume b: "load i d = Inr b" "coerce_all (nd_values n) (dc_Model (b_doc b)) ins = ([], ok)"
    and w: "write_changes n i ''panel'' (by_key ok) d = Inr d'"
  from coerce_all_keys [OF b(2)] whole_state_keys [OF assms(2) load_done(1,2) [OF b(1)]] show ?thesis
    by (intro whole_write_changes [OF assms(2) w]) (simp add: state_keys_def)
qed (use assms(2) in simp)

lemma whole_SetCameraUsers: "SetCameraUsers n f i ins d = (r, d') \<Longrightarrow> whole d \<Longrightarrow> whole d'"
  by (drule SetCameraUsers_cases) (auto elim: whole_users_rows)

lemma whole_SetCameraProtocols: "SetCameraProtocols n i ins d = (r, d') \<Longrightarrow> whole d \<Longrightarrow> whole d'"
  by (drule SetCameraProtocols_cases) (auto elim: whole_protocol_rows)

lemma whole_UpdateCameraStream:
  assumes "UpdateCameraStream n f i name x d = (r, d')" "whole d" "schema_ok d"
  shows "whole d'"
  using UpdateCameraStream_cases [OF assms(1)]
proof (elim disjE exE conjE)
  assume "camera_part d' = camera_part d"
  from whole_part [OF this] assms(2) show ?thesis by blast
next
  fix b vs coerced asset ss rend u
  assume b: "load i d = Inr b" "tget (b_streams b) name \<noteq> None"
    "coerce_wanted n (dc_Model (b_doc b)) (cm_ProfileID (b_cam b)) (wanted name x) (bundle_values n b, []) = Inr (vs, coerced)"
    and u: "camera_part u = camera_part d" and w: "stream_rows n i name (by_key coerced) asset rend u = Inr d'"
  have k: "fst ` set coerced \<subseteq> state_keys (dc_Model (b_doc b))"
    using coerce_wanted_keys [OF b(3)] by (simp add: tkeys_def)
  have t: "table_ok (c_streams d)" using assms(3) by (simp add: schema_defs)
  from b(2) have "name \<in> set (tkeys (b_streams b))" by (simp add: tget_None_iff)
  with t have n: "name \<in> keys_of (c_streams d) i" by (simp add: load_done(7) [OF b(1)] ListCameraStreams_def keys_of_by_key)
  from whole_part [OF u] assms(2) have wu: "whole u" by blast
  from u have "c_state u = c_state d" "c_streams u = c_streams d" by (simp_all add: camera_part_def)
  with k n whole_state_keys [OF assms(2) load_done(1,2) [OF b(1)]] show ?thesis
    by (intro whole_stream_rows [OF wu w]) (simp_all add: state_keys_def)
qed

lemma whole_ResetCamera: "ResetCamera n f i scope d = (r, d') \<Longrightarrow> whole d \<Longrightarrow> whole d'"
  by (drule ResetCamera_cases) (auto elim!: whole_reset_rows dest: load_done)

lemma whole_CloneCamera: "CloneCamera n f i x d = (r, d') \<Longrightarrow> whole d \<Longrightarrow> schema_ok d \<Longrightarrow> whole d'"
  by (drule CloneCamera_cases) (auto elim!: whole_clone_rows)

text \<open>What the loops over the streams of a camera keep: the camera is whole and reads the same document.\<close>

definition whole_for :: "string \<Rightarrow> document \<Rightarrow> cam_db \<Rightarrow> bool" where
  "whole_for i doc d = (whole d \<and> table_ok (c_streams d) \<and> (\<exists>cam. tget (c_cameras d) i = Some cam \<and> doc_of d cam = Some doc))"

lemma whole_for_part: "camera_part d' = camera_part d \<Longrightarrow> whole_for i doc d \<Longrightarrow> whole_for i doc d'"
  using whole_part [of d' d] by (auto simp: whole_for_def camera_part_def doc_of_def)

lemma whole_for_keys: "whole_for i doc d \<Longrightarrow> keys_of (c_streams d) i = set (streamNames doc)"
  by (auto simp: whole_for_def whole_def whole_camera_def split: option.splits)

lemma whole_for_upsert:
  assumes "whole_for i doc d" "UpsertCameraStream i k r d = Inr d'" "k \<in> set (streamNames doc)"
  shows "whole_for i doc d'"
proof -
  from assms(2) have d': "d' = d\<lparr>c_streams := tput (i, k) r (c_streams d)\<rparr>" by (simp add: UpsertCameraStream_def split: if_splits)
  have "whole d'"
  proof (rule whole_same [of d])
    show "whole d" using assms(1) by (simp add: whole_for_def)
    show "same_docs d d'" unfolding d' by (simp add: same_docs_profiles)
    show "same_at j d d'" for j
      unfolding d' same_at_def accounts_of_def using whole_for_keys [OF assms(1)] assms(3) by (simp add: insert_absorb)
  qed
  with assms(1) show ?thesis unfolding whole_for_def d' by (auto simp: doc_of_def)
qed

lemma op_keeps_each_in: "(\<And>x. x \<in> set xs \<Longrightarrow> op_keeps P (f x)) \<Longrightarrow> op_keeps P (each_op f xs)"
  by (induction xs) (simp_all add: op_keeps_basic op_keeps_and_then)

lemma whole_completeStreams: "op_keeps (whole_for i doc) (completeStreams doc i)"
proof -
  have "op_keeps (whole_for i doc) (commit store_failed (UpsertCameraStream i name r))" if "name \<in> set (streamNames doc)" for name r
    using whole_for_upsert [OF _ _ that] by (intro op_keeps_commit keepsI) blast
  then show ?thesis unfolding completeStreams_def Let_def
    by (intro op_keeps_and_then op_keeps_basic op_keeps_if op_keeps_each_in) auto
qed

lemma completeStreams_result:
  "completeStreams doc i d = (Inr streams, d') \<Longrightarrow> streams = ListCameraStreams i d'"
  by (auto simp: completeStreams_def Let_def and_then_Inr split: if_splits)

lemma whole_streamRendition:
  assumes "fst st \<in> set (streamNames doc)"
  shows "op_keeps (whole_for i doc) (streamRendition n j doc i vs st)"
proof -
  have "op_keeps (whole_for i doc) (ensureRenditionRow n j a ss)" for a ss
    unfolding op_keeps_def using apartD [OF apart_ensureRenditionRow] whole_for_part by (metis surjective_pairing)
  moreover have "op_keeps (whole_for i doc) (commit store_failed (UpsertCameraStream i (fst st) r))" for r
    using whole_for_upsert [OF _ _ assms] by (intro op_keeps_commit keepsI) blast
  ultimately show ?thesis unfolding streamRendition_def
    by (intro op_keeps_sum op_keeps_and_then op_keeps_basic op_keeps_if)
qed

lemma whole_prepareStreams:
  assumes "prepareStreams n f i d = (r, d')" "whole d" "schema_ok d"
  shows "whole d'"
proof (cases "load i d")
  case (Inl e)
  with assms show ?thesis by (simp add: prepareStreams_def and_then_cases)
next
  case (Inr b)
  have w: "whole_for i (b_doc b) d"
    using assms(2,3) load_done(1,2) [OF Inr] by (simp add: whole_for_def schema_defs)
  define m where "m = and_then (completeStreams (b_doc b) i) (\<lambda>streams.
      and_then (each_op (\<lambda>(k, st). and_then (streamRendition n (fr_rendition f k) (b_doc b) i (bundle_values n b) st)
        (\<lambda>(ss, r). give (fst st, ss, r))) (enumerate 0 streams)) (\<lambda>out.
      if out = [] then refuse (OtherError (msg ''the camera has no stream'')) else give out))"
  have "op_keeps (whole_for i (b_doc b)) m"
    unfolding op_keeps_def
  proof (intro allI impI)
    fix u assume u: "whole_for i (b_doc b) u"
    obtain q v where q: "completeStreams (b_doc b) i u = (q, v)" by fastforce
    with op_keepsD [OF whole_completeStreams u] have v: "whole_for i (b_doc b) v" by simp
    show "whole_for i (b_doc b) (snd (m u))"
    proof (cases q)
      case (Inl e)
      with q v show ?thesis by (simp add: m_def and_then_def)
    next
      case (Inr streams)
      with q completeStreams_result have "streams = ListCameraStreams i v" by blast
      with v have "fst ` set streams = set (streamNames (b_doc b))"
        using whole_for_keys [OF v] keys_of_by_key [of "c_streams v" i] by (simp add: ListCameraStreams_def whole_for_def tkeys_def)
      then have n: "fst (snd p) \<in> set (streamNames (b_doc b))" if "p \<in> set (enumerate 0 streams)" for p
        using that by (auto simp: in_set_enumerate_eq) (metis imageI nth_mem)
      have "op_keeps (whole_for i (b_doc b)) (and_then (each_op (\<lambda>(k, st). and_then (streamRendition n (fr_rendition f k) (b_doc b) i (bundle_values n b) st)
          (\<lambda>(ss, r). give (fst st, ss, r))) (enumerate 0 streams)) (\<lambda>out.
          if out = [] then refuse (OtherError (msg ''the camera has no stream'')) else give out))"
        unfolding case_prod_unfold
        by (rule op_keeps_and_then, rule op_keeps_each_in, rule op_keeps_and_then, erule whole_streamRendition [OF n])
          (rule op_keeps_basic op_keeps_if)+
      from op_keepsD [OF this v] q Inr show ?thesis by (simp add: m_def and_then_def)
    qed
  qed
  from op_keepsD [OF this w] have "whole (snd (m d))" by (simp add: whole_for_def)
  moreover have "prepareStreams n f i d = m d"
    unfolding prepareStreams_def m_def and_then_def [of "loadBundle i"] loadBundle_def Inr by simp
  ultimately show ?thesis using assms(1) by (metis snd_conv)
qed

text \<open>The rest: uploads and targets leave cameras alone; deleting pictures and renditions clears references only.\<close>

lemma keys_of_clear [simp]: "keys_of (clear_renditions Q t) c = keys_of t c"
proof -
  have "tget (clear_renditions Q t) k = None \<longleftrightarrow> tget t k = None" for k
    by (simp add: clear_renditions_def tget_map_value)
  then show ?thesis by (simp add: keys_of_def)
qed

lemma whole_clear: "whole d \<Longrightarrow> whole (d\<lparr>c_assets := a, c_renditions := r, c_streams := clear_renditions Q (c_streams d)\<rparr>)"
  by (erule whole_same) (simp_all add: same_docs_profiles same_at_def accounts_of_def)

lemma whole_drop_asset: "keeps whole (DeleteAsset_row i)"
  by (rule keepsI) (auto simp: DeleteAsset_row_def intro!: whole_clear split: if_splits)

lemma whole_drop_rendition: "keeps whole (DeleteRendition_row i)"
proof (rule keepsI)
  fix d d' assume w: "whole d" "DeleteRendition_row i d = Inr d'"
  then have "d' = d\<lparr>c_assets := c_assets d, c_renditions := tdel i (c_renditions d), c_streams := clear_renditions (\<lambda>r. r = i) (c_streams d)\<rparr>"
    by (simp add: DeleteRendition_row_def)
  with whole_clear [OF w(1), of "\<lambda>r. r = i" "tdel i (c_renditions d)" "c_assets d"] show "whole d'" by simp
qed

lemma whole_targets: "whole d \<Longrightarrow> whole (d\<lparr>c_targets := t\<rparr>)"
  by (erule whole_same) (simp_all add: same_docs_profiles same_at_def accounts_of_def)

lemma whole_status: "whole d \<Longrightarrow> whole (d\<lparr>c_status := tput i r (c_status d)\<rparr>)"
  by (erule whole_same) (simp_all add: same_docs_profiles same_at_def accounts_of_def)

lemma whole_drop_target: "keeps whole (DeleteTarget_row i)"
proof (rule keepsI)
  fix d d' assume w: "whole d" "DeleteTarget_row i d = Inr d'"
  from writes_DeleteTarget_row [OF w(2)] obtain t where "d' = d\<lparr>c_targets := t\<rparr>" by blast
  with w(1) show "whole d'" by (simp add: whole_targets)
qed

lemma whole_DeleteAsset: "op_keeps whole (DeleteAsset n i)"
  unfolding DeleteAsset_def by (intro op_keeps_and_then op_keeps_basic op_keeps_option op_keeps_if op_keeps_commit whole_drop_asset)

lemma whole_DeleteTarget: "op_keeps whole (DeleteTarget i)"
  unfolding DeleteTarget_def by (intro op_keeps_and_then op_keeps_basic op_keeps_if op_keeps_commit whole_drop_target)

lemma whole_collect:
  assumes "whole d"
  shows "whole (fst (collectRenditions n busy d))"
proof -
  have "whole (fst (foldl (\<lambda>(d, effs) (i, r).
      let key = Key n (rd_Params r) (case GetAsset (rd_AssetID r) d of None \<Rightarrow> [] | Some a \<Rightarrow> as_Sha256 a) in
      if busy key then (d, effs)
      else case Tx (DeleteRendition_row i) d of
        (None, d') \<Rightarrow> (d', effs @ [RemoveFiles key])
      | (Some e, d') \<Rightarrow> (d', effs)) s rows))" if "whole (fst s)" for s rows
    using that
  proof (induction rows arbitrary: s)
    case (Cons q rows)
    obtain e effs i r where q: "s = (e, effs)" "q = (i, r)" by fastforce
    have "whole (snd (Tx (DeleteRendition_row i) e))" using Cons.prems q keeps_Tx [OF whole_drop_rendition] by simp
    with Cons q show ?case by (auto simp: Let_def split: prod.splits option.splits)
  qed simp
  from this [of "(d, [])"] assms show ?thesis by (simp add: collectRenditions_def)
qed

lemma whole_apart: "apart m \<Longrightarrow> m d = (r, d') \<Longrightarrow> whole d \<Longrightarrow> whole d'"
  using apartD [of m d r d'] whole_part by blast

lemma whole_InsertProfile: "keeps whole (InsertProfile p v (Some doc))"
proof (rule keepsI)
  fix d d' assume w: "whole d" "InsertProfile p v (Some doc) d = Inr d'"
  then have d': "d' = d\<lparr>c_profiles := tput (p, v) \<lparr>pf_Doc = Some doc, pf_Archived = False\<rparr> (c_profiles d)\<rparr>"
    and n: "tget (c_profiles d) (p, v) = None" by (simp_all add: InsertProfile_def split: if_splits)
  show "whole d'"
  proof (rule whole_same [OF w(1)])
    show "same_docs d d'" unfolding d' same_docs_def doc_of_def using n by auto
    show "same_at j d d'" for j unfolding d' same_at_def accounts_of_def by simp
  qed
qed

lemma whole_SetProfileArchived: "keeps whole (SetProfileArchived p v arch)"
proof (rule keepsI)
  fix d d' assume w: "whole d" "SetProfileArchived p v arch d = Inr d'"
  show "whole d'"
  proof (cases "tget (c_profiles d) (p, v)")
    case None
    with w show ?thesis by (simp add: SetProfileArchived_def)
  next
    case (Some r)
    with w have d': "d' = d\<lparr>c_profiles := tput (p, v) (r\<lparr>pf_Archived := arch\<rparr>) (c_profiles d)\<rparr>" by (simp add: SetProfileArchived_def)
    show ?thesis
    proof (rule whole_same [OF w(1)])
      show "same_docs d d'" unfolding d' same_docs_def doc_of_def using Some by auto
      show "same_at j d d'" for j unfolding d' same_at_def accounts_of_def by simp
    qed
  qed
qed

lemma whole_SetCameraDesired: "keeps whole (SetCameraDesired i des now)"
proof (rule keepsI)
  fix d d' assume w: "whole d" "SetCameraDesired i des now d = Inr d'"
  show "whole d'"
  proof (cases "tget (c_cameras d) i")
    case (Some r)
    with w have d': "d' = d\<lparr>c_cameras := tput i (r\<lparr>cm_Desired := des, cm_UpdatedAt := now\<rparr>) (c_cameras d)\<rparr>" by (simp add: SetCameraDesired_def)
    show ?thesis
      by (rule whole_edit [where i = i, OF w(1)])
        (use Some in \<open>simp_all add: d' same_at_def accounts_of_def whole_state_keys [OF w(1)]\<close>)
  qed (use w in \<open>simp add: SetCameraDesired_def\<close>)
qed

lemma whole_saveStatus_row: "op_keeps whole (saveStatus_row n i st reason started)"
proof -
  have "keeps whole (UpsertCameraStatus i r)" for r
    by (rule keepsI) (auto simp: UpsertCameraStatus_def whole_status split: if_splits)
  from keeps_Tx [OF this] have t: "whole d \<Longrightarrow> whole (snd (Tx (UpsertCameraStatus i r) d))" for r d .
  show ?thesis unfolding op_keeps_def
  proof (intro allI impI)
    fix d assume "whole d"
    from t [OF this, of "\<lparr>cst_State = st, cst_Reason = reason, cst_StartedAt = started, cst_UpdatedAt = nd_now n\<rparr>"]
    show "whole (snd (saveStatus_row n i st reason started d))"
      by (auto simp: saveStatus_row_def split: prod.split option.split)
  qed
qed

lemma whole_service_step:
  assumes "service_step admits d d'" "whole d" "schema_ok d"
  shows "whole d'"
  using assms(1)
proof cases
  case step_upload
  then show ?thesis using assms(2) by (rule whole_apart [OF apart_UploadAsset])
next
  case step_builtin
  then show ?thesis using assms(2) by (rule whole_apart [OF apart_ensureBuiltinAsset])
next
  case step_new_target
  then show ?thesis using assms(2) by (rule whole_apart [OF apart_CreateTarget])
next
  case step_target
  then show ?thesis using assms(2) by (rule whole_apart [OF apart_UpdateTarget])
next
  case (step_encoded i st sha err e)
  have "keeps whole (SetRenditionStatus i st sha err)"
    by (rule keepsI, drule writes_SetRenditionStatus, elim exE, erule whole_same)
      (simp_all add: same_docs_profiles same_at_def accounts_of_def)
  from keeps_Tx [OF this assms(2)] step_encoded show ?thesis by simp
next
  case step_delete_asset
  then show ?thesis using op_keepsD [OF whole_DeleteAsset assms(2)] by (metis snd_conv)
next
  case step_delete_target
  then show ?thesis using op_keepsD [OF whole_DeleteTarget assms(2)] by (metis snd_conv)
next
  case step_status
  then show ?thesis using op_keepsD [OF whole_saveStatus_row assms(2)] by (metis snd_conv)
next
  case step_collect
  then show ?thesis using whole_collect [OF assms(2)] by (metis fst_conv)
next
  case step_profile
  then show ?thesis using keeps_Tx [OF whole_InsertProfile assms(2)] by (metis snd_conv)
next
  case step_archive
  then show ?thesis using keeps_Tx [OF whole_SetProfileArchived assms(2)] by (metis snd_conv)
next
  case step_desired
  then show ?thesis using keeps_Tx [OF whole_SetCameraDesired assms(2)] by (metis snd_conv)
qed (use assms(2,3) in \<open>blast intro: whole_CreateCamera whole_UpdateCamera whole_DeleteCamera_op whole_ConfigureCamera
  whole_SetCameraUsers whole_SetCameraProtocols whole_UpdateCameraStream whole_ResetCamera whole_CloneCamera whole_prepareStreams\<close>)+

text \<open>The invariant of the service: the rules of the schema and whole cameras.\<close>

definition whole_db :: "cam_db \<Rightarrow> bool" where
  "whole_db d = (schema_ok d \<and> whole d)"

interpretation cameras: machine new_db "service_step (\<lambda>n. True)" whole_db
proof unfold_locales
  show "whole_db new_db" using schema.empty_ok by (simp add: whole_db_def whole_def new_db_def)
  show "whole_db d'" if "service_step (\<lambda>n. True) d d'" "whole_db d" for d d'
    using that schema.service_step_ok whole_service_step by (auto simp: whole_db_def)
qed

end
