(* ===== verification/Camera_Demo.thy ===== *)
theory Camera_Demo
  imports Camera_Whole Profile_Claims
begin

text \<open>A profile, a node and a run of the camera service on them, for the witnesses of the claims.\<close>

definition demo_doc :: document where
  "demo_doc = \<lparr>dc_Model = \<lparr>pd_State = [(''Light'', \<lparr>pa_Type = TypeBool, pa_Default = GBool True, pa_Values = [], pa_Min = None, pa_Max = None,
        pa_MaxLength = 0, pa_Bind = []\<rparr>)],
      pd_Streams = [(''main'', \<lparr>st_Codecs = [''h264''], st_Resolutions = [''640x480''], st_FPS = None, st_Bitrate = None,
        st_Default = \<lparr>sd_Codec = ''h264'', sd_Resolution = ''640x480'', sd_FPS = 10, sd_Bitrate = 512, sd_GOP = 20\<rparr>\<rparr>)]\<rparr>,
    dc_Serial = [], dc_OUI = [], dc_FactoryIP = [], dc_FactoryMask = [], dc_FactoryGateway = [],
    dc_FactoryUsers = [\<lparr>fu_Username = ''admin'', fu_Password = ''pw'', fu_Role = ''admin''\<rparr>],
    dc_Engines = [(''http'', Some \<lparr>eh_Engine = ''http-api@1'', eh_Port = 80, eh_Paths = []\<rparr>),
      (''rtsp'', Some \<lparr>eh_Engine = ''rtsp@1'', eh_Port = 0, eh_Paths = []\<rparr>)]\<rparr>"

definition demo_picture :: asset_row where
  "demo_picture = \<lparr>as_Sha256 = ''ab'', as_Mime = ''image/png'', as_Width = 640, as_Height = 480, as_Size = 9, as_Filename = ''p'',
     as_Builtin = True, as_CreatedAt = 0\<rparr>"

definition demo_node :: node where
  "demo_node = \<lparr>nd_local = True, nd_info = None, nd_parent_setting = [], nd_parent_option = [], nd_limits = \<lparr>al_MaxCameras = 100, al_MaxRAMPercent = 0, al_MaxCPUPercent = 0\<rparr>,
     nd_usage = sample_usage 256, nd_cost = \<lparr>cc_RAM = 128, cc_CPUPercent = 2\<rparr>, nd_sha = (\<lambda>s. 7 # of_nat (of_char (last s)) # replicate 30 7), nd_lower = id, nd_upper = id,
     nd_url = (\<lambda>s. None), nd_values = plain_env, nd_marshal = (\<lambda>v. if v = GBool True then ''true'' else ''null''),
     nd_unmarshal = (\<lambda>s. if s = ''true'' then Some (GBool True) else None),
     nd_aead_seal = (\<lambda>nonce p c. p @ replicate 16 (CHR ''#'')), nd_aead_open = (\<lambda>nonce s c. Some (take (length s - 16) s)),
     nd_v6 = (\<lambda>s. None), nd_v6_str = (\<lambda>a z. []), nd_semver = (\<lambda>r. Some (\<lambda>v. Some True)), nd_pattern = Some demo_picture,
     nd_session = (\<lambda>i. False), nd_active = (\<lambda>i. False), nd_now = 1000\<rparr>"

definition demo_fresh :: "string \<Rightarrow> fresh" where
  "demo_fresh i = \<lparr>fr_id = i, fr_user = (\<lambda>k. i @ ''/u'' @ replicate k (CHR ''u'')), fr_nonce = (\<lambda>k. replicate 24 (CHR ''n'')), fr_asset = i @ ''/a'',
     fr_rendition = (\<lambda>k. i @ ''/r'' @ replicate k (CHR ''r''))\<rparr>"

definition demo_input :: CreateCameraInput where
  "demo_input = \<lparr>ci_Name = ''Door'', ci_ProfileID = ''acme'', ci_ProfileVersion = ''1'',
     ci_Network = \<lparr>in_Parent = [], in_MAC = [], in_DefaultMAC = True, in_VendorOUI = False, in_IP = [], in_Netmask = [], in_Gateway = [], in_DNS = []\<rparr>,
     ci_Users = [], ci_Stream = \<lparr>si_AssetID = [], si_Codec = [], si_Resolution = [], si_FPS = 0\<rparr>, ci_TargetIDs = [], ci_Autostart = None,
     ci_Start = False, ci_Tags = []\<rparr>"

definition demo_profile_db :: cam_db where
  "demo_profile_db = snd (Tx (InsertProfile ''acme'' ''1'' (Some demo_doc)) new_db)"

definition demo_db :: cam_db where
  "demo_db = snd (CreateCamera demo_node (demo_fresh ''c1'') demo_input demo_profile_db)"

lemma demo_name: "validate_camera_name ''Door'' = None"
  by (simp add: validate_camera_name_def trim_eval ascii_eval ascii_def MaxCameraNameLength_def)

lemma demo_network: "resolveNetwork demo_node i demo_doc (ci_Network demo_input) =
  Inr \<lparr>rv_Parent = [], rv_MAC = hw_str (DeriveMAC (nd_sha demo_node) i []), rv_IP = [], rv_Netmask = [], rv_Gateway = [], rv_Prefix = 0, rv_DNS = []\<rparr>"
  by (simp add: resolveNetwork_def demo_input_def demo_node_def parseDNS_def resolve_mac_def vendor_oui_def)

lemma demo_accounts: "create_users demo_input demo_doc = [\<lparr>ui_Username = ''admin'', ui_Password = ''pw'', ui_Role = ''admin''\<rparr>]"
  by (simp add: create_users_def demo_input_def demo_doc_def factory_users_def or_admin_def)

lemma demo_accounts_ok: "ValidateCameraUsers (nd_lower demo_node) (map domain_user (create_users demo_input demo_doc)) = None"
  by (simp add: demo_accounts domain_user_def role_of_def ValidateCameraUsers_def user_errors_def Let_def ValidateUsername_def add_if_def ascii_eval ascii_def
      user_char_def password_char_def role_known_def verr_def is_lower_c_def is_digit_c_def is_upper_c_def)

lemma demo_settings: "wanted_settings demo_node (dc_Model demo_doc) (ci_Stream demo_input) = Inr ([(''Light'', GBool True)], [])"
  by (simp add: wanted_settings_def demo_input_def demo_doc_def Defaults_def)

lemma demo_streams: "stream_settings demo_node (dc_Model demo_doc) [(''Light'', GBool True)] [''main''] =
  Inr [(''main'', \<lparr>ss_Codec = ''h264'', ss_Width = 640, ss_Height = 480, ss_FPS = 10, ss_GOP = 20, ss_Bitrate = 512\<rparr>)]"
proof -
  have n: "parse_int64 ''640'' = Some 640" "parse_int64 ''480'' = Some 480"
    by (simp_all add: parse_int64_def digit_val_def is_digit_c_def byte_def)
  have k: "split_on (CHR ''.'') ''media.main.codec'' = [''media'', ''main'', ''codec'']"
    "split_on (CHR ''.'') ''media.main.resolution'' = [''media'', ''main'', ''resolution'']"
    "split_on (CHR ''.'') ''media.main.fps'' = [''media'', ''main'', ''fps'']"
    "split_on (CHR ''.'') ''media.main.bitrate'' = [''media'', ''main'', ''bitrate'']"
    "split_on (CHR ''.'') ''media.main.gop'' = [''media'', ''main'', ''gop'']" by code_simp+
  show ?thesis
    by (simp add: StreamFor_def demo_doc_def Canon_def NewModel_def k n sprint_def stream_field_def Let_def toInt_def or_zero_def)
qed

definition demo_settings_main :: StreamSettings where
  "demo_settings_main = \<lparr>ss_Codec = ''h264'', ss_Width = 640, ss_Height = 480, ss_FPS = 10, ss_GOP = 20, ss_Bitrate = 512\<rparr>"

lemma demo_check: "create_check demo_node (demo_fresh i) demo_input demo_profile_db =
  Inr (demo_doc, \<lparr>rv_Parent = [], rv_MAC = hw_str (DeriveMAC (nd_sha demo_node) i []), rv_IP = [], rv_Netmask = [], rv_Gateway = [], rv_Prefix = 0, rv_DNS = []\<rparr>,
    [], ([(''Light'', GBool True)], []), [(''main'', demo_settings_main)])"
proof -
  have n: "trim_space (ci_Name demo_input) = ''Door''" by (simp add: demo_input_def trim_eval)
  have t: "normalize_tags f (ci_Tags demo_input) = Inr []" for f by (simp add: demo_input_def normalize_tags_def)
  have p: "GetProfileByRef (ci_ProfileID demo_input) (ci_ProfileVersion demo_input) demo_profile_db = Some \<lparr>pf_Doc = Some demo_doc, pf_Archived = False\<rparr>"
    by (simp add: GetProfileByRef_def demo_input_def demo_profile_db_def Tx_def InsertProfile_def new_db_def)
  have s: "streamNames demo_doc = [''main'']" by (simp add: streamNames_def demo_doc_def)
  show ?thesis unfolding create_check_def n t p
    by (simp add: demo_name demo_network demo_accounts_ok demo_settings demo_streams s demo_settings_main_def demo_fresh_def del: stream_settings.simps)
qed

text \<open>The run: the profile is installed, then the camera \<open>Door\<close> is created as \<open>c1\<close>.\<close>

lemma demo_params: "Params_Validate (params_of demo_settings_main) = None"
  by (simp add: Params_Validate_def params_of_def demo_settings_main_def recipe_def)

lemma demo_admitted: "CountCameras d < 100 \<Longrightarrow> admitCreate demo_node d = (Inr (), d)"
  by (simp add: admitCreate_def demo_node_def sample_usage_def AdmitCreate_def AdmitStart_def check_def)

lemma demo_profile_rows: "demo_profile_db = new_db\<lparr>c_profiles := [((''acme'', ''1''), \<lparr>pf_Doc = Some demo_doc, pf_Archived = False\<rparr>)]\<rparr>"
  by (simp add: demo_profile_db_def Tx_def InsertProfile_def new_db_def)

lemma demo_picked: "create_asset demo_node (demo_fresh ''c1'') [] demo_profile_db =
  (Inr ''c1/a'', demo_profile_db\<lparr>c_assets := [(''c1/a'', demo_picture\<lparr>as_Filename := ''MockVision test pattern''\<rparr>)]\<rparr>)"
  by (simp add: create_asset_def ensureBuiltinAsset_def and_then_def ask_def ListAssets_def demo_profile_rows new_db_def demo_node_def storeAsset_def
      GetAssetBySHA256_def commit_def Tx_def InsertAsset_def give_def demo_fresh_def GetAsset_def demo_picture_def)

lemma demo_encoded:
  assumes "tget (c_assets d) ''c1/a'' \<noteq> None" "c_renditions d = []"
  shows "create_renditions demo_node (demo_fresh ''c1'') ''c1/a'' [(''main'', demo_settings_main)] d =
    (Inr [(''main'', ''c1/r'')], d\<lparr>c_renditions := [(''c1/r'', \<lparr>rd_AssetID = ''c1/a'', rd_Params = params_of demo_settings_main, rd_Sha256 = [],
      rd_Status = RenditionPending, rd_Error = msg [], rd_CreatedAt = 1000\<rparr>)]\<rparr>)"
  using assms
  by (simp add: create_renditions_def and_then_def named_stream_def ensureRenditionRow_def Let_def demo_params ask_def GetRenditionByParams_def commit_def
      Tx_def InsertRendition_def give_def demo_fresh_def demo_node_def)

definition demo_rows_db :: cam_db where
  "demo_rows_db = demo_profile_db\<lparr>c_assets := [(''c1/a'', demo_picture\<lparr>as_Filename := ''MockVision test pattern''\<rparr>)],
     c_renditions := [(''c1/r'', \<lparr>rd_AssetID = ''c1/a'', rd_Params = params_of demo_settings_main, rd_Sha256 = [],
      rd_Status = RenditionPending, rd_Error = msg [], rd_CreatedAt = 1000\<rparr>)]\<rparr>"

lemma demo_port: "instancePort demo_node demo_doc ''http'' = Inr 80" "instancePort demo_node demo_doc ''rtsp'' = Inr 554"
  by (simp_all add: instancePort_def section_head_def demo_doc_def EngineRef_def Resolve_def Builtin_def rtsp_Describe_def demo_node_def Contract_def)

lemma demo_written:
  "\<exists>d. create_rows demo_node (demo_fresh ''c1'') demo_input demo_doc nw (create_users demo_input demo_doc) [] ([(''Light'', GBool True)], [])
    ''c1/a'' [(''main'', ''c1/r'')] demo_rows_db = Inr d"
proof -
  have k: "SortedKeys (dc_Engines demo_doc) = [''http'', ''rtsp'']" by (simp add: SortedKeys_def demo_doc_def tkeys_def)
  show ?thesis
    by (simp add: create_rows_def Let_def then_do_def skip_def InsertCamera_def new_camera_def demo_rows_db_def demo_profile_rows new_db_def demo_input_def
        demo_fresh_def name_taken_def InsertCameraNetwork_def mac_taken_def ip_taken_def write_state_def SortedKeys_def tkeys_def UpsertCameraState_def
        write_protocols_def demo_port InsertCameraProtocol_def write_users_def demo_accounts [unfolded demo_input_def] InsertCameraUser_def account_taken_def
        account_of_def write_streams_def UpsertCameraStream_def rendition_exists_def write_links_def dedupe_def UpsertCameraStatus_def k [unfolded SortedKeys_def tkeys_def])
qed

definition demo_identity :: resolvedNetwork where
  "demo_identity = \<lparr>rv_Parent = [], rv_MAC = hw_str (DeriveMAC (nd_sha demo_node) ''c1'' []), rv_IP = [], rv_Netmask = [], rv_Gateway = [],
    rv_Prefix = 0, rv_DNS = []\<rparr>"

lemma demo_run:
  "\<exists>es. CreateCamera demo_node (demo_fresh ''c1'') demo_input demo_profile_db = (Inr es, demo_db)"
  "create_rows demo_node (demo_fresh ''c1'') demo_input demo_doc demo_identity (create_users demo_input demo_doc) []
    ([(''Light'', GBool True)], []) ''c1/a'' [(''main'', ''c1/r'')] demo_rows_db = Inr demo_db"
proof -
  from demo_written obtain d where d: "create_rows demo_node (demo_fresh ''c1'') demo_input demo_doc demo_identity (create_users demo_input demo_doc) []
    ([(''Light'', GBool True)], []) ''c1/a'' [(''main'', ''c1/r'')] demo_rows_db = Inr d" by blast
  define u where "u = demo_profile_db\<lparr>c_assets := [(''c1/a'', demo_picture\<lparr>as_Filename := ''MockVision test pattern''\<rparr>)]\<rparr>"
  have e: "create_renditions demo_node (demo_fresh ''c1'') ''c1/a'' [(''main'', demo_settings_main)] u = (Inr [(''main'', ''c1/r'')], demo_rows_db)"
    using demo_encoded [of u] by (simp add: u_def demo_profile_rows new_db_def demo_rows_db_def)
  have i: "si_AssetID (ci_Stream demo_input) = []" "ci_TargetIDs demo_input = []" "\<not> ci_Start demo_input" by (simp_all add: demo_input_def)
  have c: "checkUnique (trim_space (ci_Name demo_input)) demo_identity u = None"
    by (simp add: checkUnique_def checkUniqueNetwork_def CameraIDByName_def CameraIDByMAC_def CameraIDByIP_def u_def demo_profile_rows new_db_def)
  have a: "admitCreate demo_node u = (Inr (), u)" by (rule demo_admitted) (simp add: CountCameras_def u_def demo_profile_rows new_db_def)
  have "\<exists>es. CreateCamera demo_node (demo_fresh ''c1'') demo_input demo_profile_db = (Inr es, d)"
    unfolding CreateCamera_def
    by (simp add: and_then_def ask_def attempt_def check_def demo_check demo_picked [folded u_def] e i c [unfolded demo_identity_def] a target_missing_def commit_def Tx_def
        d [unfolded demo_identity_def] give_def)
  then have "d = demo_db" "\<exists>es. CreateCamera demo_node (demo_fresh ''c1'') demo_input demo_profile_db = (Inr es, d)" by (auto simp: demo_db_def)
  with d show "\<exists>es. CreateCamera demo_node (demo_fresh ''c1'') demo_input demo_profile_db = (Inr es, demo_db)"
    "create_rows demo_node (demo_fresh ''c1'') demo_input demo_doc demo_identity (create_users demo_input demo_doc) []
      ([(''Light'', GBool True)], []) ''c1/a'' [(''main'', ''c1/r'')] demo_rows_db = Inr demo_db" by simp_all
qed

lemmas demo_created = demo_run(1)

lemma demo_state:
  "c_profiles demo_db = [((''acme'', ''1''), \<lparr>pf_Doc = Some demo_doc, pf_Archived = False\<rparr>)]"
  "c_cameras demo_db = [(''c1'', new_camera demo_node ''c1'' ''Door'' ''acme'' ''1'' demo_doc True [])]"
  "c_network demo_db = [(''c1'', network_of NetMacvlan IPStatic demo_identity)]"
  "c_protocols demo_db = [((''c1'', ''http''), \<lparr>cp_Enabled = True, cp_Port = 80, cp_Options = ''{}''\<rparr>),
     ((''c1'', ''rtsp''), \<lparr>cp_Enabled = True, cp_Port = 554, cp_Options = ''{}''\<rparr>)]"
  "c_users demo_db = user_rows demo_node (demo_fresh ''c1'') ''c1'' [\<lparr>ui_Username = ''admin'', ui_Password = ''pw'', ui_Role = ''admin''\<rparr>]"
  "c_state demo_db = [((''c1'', ''Light''), \<lparr>cs_Value = ''true'', cs_Origin = ''profile'', cs_UpdatedAt = 1000\<rparr>)]"
  "c_streams demo_db = [((''c1'', ''main''), \<lparr>sw_AssetID = ''c1/a'', sw_RenditionID = Some ''c1/r''\<rparr>)]"
  "c_links demo_db = []"
proof -
  have k: "SortedKeys (dc_Engines demo_doc) = [''http'', ''rtsp'']" by (simp add: SortedKeys_def demo_doc_def tkeys_def)
  have f: "fr_id (demo_fresh i) = i" for i by (simp add: demo_fresh_def)
  have x: "trim_space (ci_Name demo_input) = ''Door''" "ci_ProfileID demo_input = ''acme''" "ci_ProfileVersion demo_input = ''1''"
    "ci_Autostart demo_input = None" "ci_TargetIDs demo_input = []" by (simp_all add: demo_input_def trim_eval)
  have w: "nd_now demo_node = 1000" "nd_marshal demo_node (GBool True) = ''true''" by (simp_all add: demo_node_def)
  have l: "SortedKeys [(''Light'', GBool True)] = [''Light'']" by (simp add: SortedKeys_def tkeys_def)
  note r = create_rows_done(3) [OF demo_run(2) refl]
  show "c_profiles demo_db = [((''acme'', ''1''), \<lparr>pf_Doc = Some demo_doc, pf_Archived = False\<rparr>)]"
    "c_network demo_db = [(''c1'', network_of NetMacvlan IPStatic demo_identity)]"
    "c_users demo_db = user_rows demo_node (demo_fresh ''c1'') ''c1'' [\<lparr>ui_Username = ''admin'', ui_Password = ''pw'', ui_Role = ''admin''\<rparr>]"
    "c_streams demo_db = [((''c1'', ''main''), \<lparr>sw_AssetID = ''c1/a'', sw_RenditionID = Some ''c1/r''\<rparr>)]"
    "c_links demo_db = []"
    "c_cameras demo_db = [(''c1'', new_camera demo_node ''c1'' ''Door'' ''acme'' ''1'' demo_doc True [])]"
    "c_protocols demo_db = [((''c1'', ''http''), \<lparr>cp_Enabled = True, cp_Port = 80, cp_Options = ''{}''\<rparr>),
     ((''c1'', ''rtsp''), \<lparr>cp_Enabled = True, cp_Port = 554, cp_Options = ''{}''\<rparr>)]"
    "c_state demo_db = [((''c1'', ''Light''), \<lparr>cs_Value = ''true'', cs_Origin = ''profile'', cs_UpdatedAt = 1000\<rparr>)]"
    by (subst r, simp add: demo_rows_db_def demo_profile_rows new_db_def demo_accounts dedupe_def f x
      default_protocols_def k port_of_def demo_port state_row_of_def w value_of_def l)+
qed

lemma demo_assets: "tget (c_assets demo_db) ''c1/a'' \<noteq> None" "tget (c_renditions demo_db) ''c1/r'' \<noteq> None" "c_status demo_db = [(''c1'', stopped_status demo_node)]"
  by (subst create_rows_done(3) [OF demo_run(2) refl], simp add: demo_rows_db_def demo_profile_rows new_db_def demo_fresh_def)+

lemma demo_reached_on:
  assumes "admits demo_node"
  shows "reach (service_step admits) new_db demo_db"
proof -
  have "service_step admits new_db demo_profile_db"
    unfolding demo_profile_db_def by (rule step_profile) (rule surjective_pairing)
  moreover from demo_created obtain es where "CreateCamera demo_node (demo_fresh ''c1'') demo_input demo_profile_db = (Inr es, demo_db)" by blast
  then have "service_step admits demo_profile_db demo_db"
    by (rule step_create [rotated 2]) (simp_all add: assms nonces_ok_def demo_fresh_def NonceSize_def)
  ultimately show ?thesis by (meson reach.intros)
qed

lemma demo_reached: "reach (service_step (\<lambda>n. True)) new_db demo_db"
  by (rule demo_reached_on) (rule TrueI)

lemma demo_camera: "\<exists>cam. tget (c_cameras demo_db) ''c1'' = Some cam \<and> cm_Name cam = ''Door'' \<and> cm_ProfileID cam = ''acme'' \<and> cm_ProfileVersion cam = ''1''"
proof -
  from demo_created obtain es where "CreateCamera demo_node (demo_fresh ''c1'') demo_input demo_profile_db = (Inr es, demo_db)" by blast
  from CreateCamera_cases [OF this] obtain doc nw tags vo a rends u where
    "create_rows demo_node (demo_fresh ''c1'') demo_input doc nw (create_users demo_input doc) tags vo a rends u = Inr demo_db" by blast
  from create_rows_done(3) [OF this refl] show ?thesis
    by (intro exI conjI) (erule ssubst, simp add: demo_fresh_def, simp_all add: new_camera_def demo_input_def trim_eval)
qed

end
