(* ===== verification/Camera_Claims.thy ===== *)
theory Camera_Claims
  imports Camera_Demo
begin

text \<open>What the camera service promises, over every run of it from an empty database.\<close>

section \<open>Cameras are whole and distinct\<close>

lemma whole_loads:
  assumes "whole d" "tget (c_cameras d) i = Some cam"
  shows "\<exists>b. load i d = Inr b \<and> b_cam b = cam \<and> tget (c_status d) i \<noteq> None"
proof -
  from assms have c: "whole_camera d i cam" by (simp add: whole_def)
  then obtain p doc net st where "tget (c_profiles d) (cm_ProfileID cam, cm_ProfileVersion cam) = Some p" "pf_Doc p = Some doc"
    "tget (c_network d) i = Some net" "tget (c_status d) i = Some st"
    by (auto simp: whole_camera_def doc_of_def bind_eq_Some_conv split: option.splits)
  with assms(2) show ?thesis by (simp add: load_def GetCamera_def GetCameraNetwork_def GetProfileByRef_def)
qed

lemma reached_whole: "reach (service_step (\<lambda>n. True)) new_db d \<Longrightarrow> whole d \<and> schema_ok d"
  using cameras.inv_reachable by (simp add: whole_db_def)



text \<open>C9. After any run of the service no two cameras have the same name but for the case of ASCII letters, the
  same MAC or the same address, and no row of a camera, nor a picture, rendition or target it refers to, is
  missing its owner.\<close>

theorem cameras_distinct:
  assumes "reach (service_step (\<lambda>n. True)) new_db d" "tget (c_cameras d) i = Some ci" "tget (c_cameras d) j = Some cj"
    "tget (c_network d) i = Some ni" "tget (c_network d) j = Some nj"
    "same_name (cm_Name ci) (cm_Name cj) \<or> cn_Mac ni = cn_Mac nj \<or> cn_Ip ni = cn_Ip nj \<and> cn_Ip ni \<noteq> []"
  shows "i = j \<and> references_hold d"
proof -
  have s: "schema_ok d" using reached_whole [OF assms(1)] by simp
  then have "unique_on name_clash (c_cameras d)" "unique_on mac_clash (c_network d)" "unique_on ip_clash (c_network d)" "references_hold d"
    by (simp_all add: schema_ok_def columns_unique_def)
  with assms(2-6) show ?thesis by (auto simp: unique_on_def clash_defs)
qed

theorem cameras_distinct_witness: "references_hold demo_db"
proof -
  from demo_camera obtain cam where c: "tget (c_cameras demo_db) ''c1'' = Some cam" by blast
  from whole_loads [OF conjunct1 [OF reached_whole [OF demo_reached]] c] obtain b where "load ''c1'' demo_db = Inr b" by blast
  from load_done(3) [OF this] obtain nw where n: "tget (c_network demo_db) ''c1'' = Some nw" by blast
  from cameras_distinct [OF demo_reached c c n n] show ?thesis by simp
qed

section \<open>Failures\<close>



end
