(* ===== verification/Camera_Protocols.thy ===== *)
theory Camera_Protocols
  imports Camera_Claims
begin

text \<open>What changing the protocols of a camera guarantees.\<close>


lemma port_clashes_none:
  assumes "port_clashes k ss used v = (used', [])"
  shows "v = [] \<and> distinct ss \<and> (\<forall>s\<in>set ss. tget used s = None) \<and> set (tkeys used') = set (tkeys used) \<union> set ss"
  using assms
proof (induction ss arbitrary: used v)
  case (Cons s ss)
  define w where "w = (case tget used s of
         None \<Rightarrow> v
       | Some other \<Rightarrow> add_field ''protocols'' (msgf ''%s and %s both use %s port %d'' [AStr other, AStr k, AStr (map upper_char (fst s)), AInt (snd s)]) v)"
  from Cons.prems have "port_clashes k ss (tput s k used) w = (used', [])" by (simp add: w_def)
  from Cons.IH [OF this] have *: "w = []" "distinct ss" "\<forall>s'\<in>set ss. tget (tput s k used) s' = None"
    "set (tkeys used') = set (tkeys (tput s k used)) \<union> set ss" by simp_all
  from *(1) have "tget used s = None" "v = []" by (simp_all add: w_def split: option.splits)
  with * show ?case by (auto split: if_splits)
qed simp

definition open_ports :: "descriptors \<Rightarrow> protocols \<Rightarrow> string \<Rightarrow> (string \<times> int) list" where
  "open_ports ds ps k = (case tget ps k of None \<Rightarrow> [] | Some p \<Rightarrow> listens ds k p)"

lemma clashes_none:
  assumes "clashes ds nxt ks used v = []"
  shows "v = [] \<and> distinct (concat (map (open_ports ds nxt) ks)) \<and> (\<forall>k\<in>set ks. \<forall>s\<in>set (open_ports ds nxt k). tget used s = None)"
  using assms
proof (induction ks arbitrary: used v)
  case (Cons k ks)
  show ?case
  proof (cases "tget nxt k")
    case None
    with Cons show ?thesis by (simp add: open_ports_def)
  next
    case (Some p)
    then have o: "open_ports ds nxt k = listens ds k p" by (simp add: open_ports_def)
    obtain u w where pc: "port_clashes k (listens ds k p) used v = (u, w)" by fastforce
    with Some Cons.prems have "clashes ds nxt ks u w = []" by simp
    from Cons.IH [OF this] have *: "w = []" "distinct (concat (map (open_ports ds nxt) ks))"
      "\<forall>k\<in>set ks. \<forall>s\<in>set (open_ports ds nxt k). tget u s = None" by blast+
    from port_clashes_none [of k "listens ds k p" used v u] pc *(1)
    have p: "v = []" "distinct (listens ds k p)" "\<forall>s\<in>set (listens ds k p). tget used s = None"
      "set (tkeys u) = set (tkeys used) \<union> set (listens ds k p)" by simp_all
    from *(3) p(4) have "\<forall>j\<in>set ks. \<forall>s\<in>set (open_ports ds nxt j). s \<notin> set (listens ds k p) \<and> tget used s = None"
      by (auto simp: tget_None_iff)
    with *(2) p show ?thesis by (auto simp: o)
  qed
qed simp

lemma apply_protocols_keys: "apply_protocols ds prof k ps v nxt = (v', nxt') \<Longrightarrow> set (tkeys nxt') = set (tkeys nxt)"
proof (induction ds prof k ps v nxt rule: apply_protocols.induct)
  case (2 ds prof k p ps v nxt)
  show ?case
  proof (cases "tget nxt (pi_Instance p)")
    case None
    with 2 show ?thesis by simp
  next
    case (Some cur)
    then have "pi_Instance p \<in> set (tkeys nxt)" by (rule tget_Some_key)
    with 2 Some show ?thesis by (auto simp: Let_def insert_absorb split: prod.splits option.splits)
  qed
qed simp

lemma apply_protocols_ok: "apply_protocols ds prof k ps v nxt = (v', nxt') \<Longrightarrow> table_ok nxt \<Longrightarrow> table_ok nxt'"
  by (induction ds prof k ps v nxt rule: apply_protocols.induct) (auto simp: Let_def split: prod.splits option.splits)

lemma sorted_keys_eq:
  assumes "table_ok t" "table_ok u" "set (tkeys t) = set (tkeys u)"
  shows "tkeys (by_key t) = SortedKeys u"
proof -
  have "map fst (by_key t) = tkeys (by_key t)" by (simp add: tkeys_def)
  then have "sorted (tkeys (by_key t))" by (metis by_key_def sorted_sort_key)
  moreover have "distinct (tkeys (by_key t))" using table_ok_by_key [OF assms(1)] by (simp add: table_ok_def)
  moreover have "set (tkeys (by_key t)) = set (tkeys u)" using assms(3) by (simp add: tkeys_def)
  ultimately show ?thesis using assms(2)
    by (intro sorted_distinct_set_unique) (simp_all add: SortedKeys_def table_ok_def)
qed

text \<open>The protocols of a camera after the change: the ones the request left, under the same keys.\<close>

lemma protocols_stored:
  assumes "schema_ok d" "load i d = Inr b" "set (tkeys nxt) = set (tkeys (b_protos b))" "table_ok nxt" "protocol_rows n i nxt d = Inr d'"
    "load i d' = Inr b'"
  shows "b_doc b' = b_doc b" "tkeys (b_protos b') = SortedKeys nxt" "tkeys (b_protos b) = SortedKeys nxt"
    "\<And>k. map_option (\<lambda>p. (cp_Enabled p, cp_Port p)) (tget (b_protos b') k) = map_option (\<lambda>p. (cp_Enabled p, cp_Port p)) (tget nxt k)"
proof -
  note c = protocol_rows_done [OF assms(5)]
  from assms(1) have t: "table_ok (c_protocols d)" by (simp add: schema_defs)
  have s': "schema_ok d'" using assms(1,5) schema.protocol_rows_ok by (auto dest: keepsD)
  then have t': "table_ok (c_protocols d')" by (simp add: schema_defs)
  note l = load_done [OF assms(2)] and l' = load_done [OF assms(6)]
  have cam: "tget (c_cameras d') i = map_option (\<lambda>r. r\<lparr>cm_UpdatedAt := nd_now n\<rparr>) (tget (c_cameras d) i)"
    unfolding c by (simp add: tget_touched)
  have "c_profiles d' = c_profiles d" unfolding c by simp
  moreover from cam l(1) l'(1) have "b_cam b' = (b_cam b)\<lparr>cm_UpdatedAt := nd_now n\<rparr>" by simp
  ultimately show "b_doc b' = b_doc b" using l(2) l'(2) by (simp add: doc_of_def)
  have k: "set (tkeys (of_camera i (c_protocols d))) = set (tkeys nxt)"
    using assms(3) l(5) by (simp add: ListCameraProtocols_def tkeys_def by_key_def)
  have "keys_of (c_protocols d') i = keys_of (c_protocols d) i" unfolding c by simp
  then have k': "set (tkeys (of_camera i (c_protocols d'))) = set (tkeys nxt)"
    using k keys_of_by_key [OF t, of i] keys_of_by_key [OF t', of i] by (simp add: tkeys_def by_key_def)
  show "tkeys (b_protos b) = SortedKeys nxt" unfolding l(5) ListCameraProtocols_def
    by (rule sorted_keys_eq [OF table_ok_of_camera [OF t] assms(4) k])
  show "tkeys (b_protos b') = SortedKeys nxt" unfolding l'(5) ListCameraProtocols_def
    by (rule sorted_keys_eq [OF table_ok_of_camera [OF t'] assms(4) k'])
  fix k
  let ?xs = "map (\<lambda>k. (k, cp_Enabled (the (tget nxt k)), cp_Port (the (tget nxt k)))) (SortedKeys nxt)"
  have "tkeys ?xs = SortedKeys nxt" by (simp add: tkeys_def comp_def)
  then have x: "table_ok ?xs" using distinct_SortedKeys [OF assms(4)] by (simp add: table_ok_def)
  have g: "tget ?xs k = map_option (\<lambda>p. (cp_Enabled p, cp_Port p)) (tget nxt k)"
  proof (cases "tget nxt k")
    case None
    then have "k \<notin> set (tkeys ?xs)" by (simp add: tget_None_iff \<open>tkeys ?xs = _\<close>)
    then have "tget ?xs k = None" unfolding tget_None_iff .
    with None show ?thesis by simp
  next
    case (Some p)
    then have "k \<in> set (SortedKeys nxt)" by (simp add: tget_Some_key)
    then have "(k, cp_Enabled p, cp_Port p) \<in> set ?xs" using Some by force
    with x Some show ?thesis by (simp add: tget_iff_mem)
  qed
  have "tget (b_protos b') k = tget (c_protocols d') (i, k)"
    unfolding l'(5) ListCameraProtocols_def by (simp add: tget_by_key table_ok_of_camera t')
  also have "\<dots> = (case tget ?xs k of None \<Rightarrow> tget (c_protocols d) (i, k)
       | Some (e, p) \<Rightarrow> map_option (\<lambda>r. r\<lparr>cp_Enabled := e, cp_Port := p\<rparr>) (tget (c_protocols d) (i, k)))"
    unfolding c using tget_set_protocols [OF x, of i "c_protocols d" i k] by simp
  finally have v: "tget (b_protos b') k = \<dots>" .
  have n: "tget (c_protocols d) (i, k) = None \<longleftrightarrow> tget nxt k = None"
    using k by (metis tget_None_iff tget_of_camera)
  show "map_option (\<lambda>p. (cp_Enabled p, cp_Port p)) (tget (b_protos b') k) = map_option (\<lambda>p. (cp_Enabled p, cp_Port p)) (tget nxt k)"
    unfolding v g using n by (cases "tget nxt k"; cases "tget (c_protocols d) (i, k)") auto
qed

text \<open>C4. When the protocols of a camera are changed, the camera is left with no two enabled protocols on the same
  port of the same network, the extra sockets of an engine included.\<close>

theorem protocols_do_not_clash:
  assumes "reach (service_step (\<lambda>n. True)) new_db d" "SetCameraProtocols n i ps d = (Inr es, d')" "load i d' = Inr b"
  shows "\<exists>ds. descriptors_of n (b_doc b) (tkeys (b_protos b)) = Inr ds \<and>
    distinct (concat (map (\<lambda>(k, p). listens ds k p) (b_protos b)))"
proof -
  have s: "schema_ok d" using reached_whole [OF assms(1)] by simp
  from SetCameraProtocols_cases [OF assms(2)] obtain b0 ds v nxt where c: "load i d = Inr b0"
    "descriptors_of n (b_doc b0) (tkeys (b_protos b0)) = Inr ds" "apply_protocols ds (cm_ProfileID (b_cam b0)) 0 ps [] (b_protos b0) = (v, nxt)"
    "clashes ds nxt (SortedKeys nxt) [] v = []" "protocol_rows n i nxt d = Inr d'" by blast
  have t0: "table_ok (b_protos b0)"
    using s by (simp add: load_done(5) [OF c(1)] ListCameraProtocols_def table_ok_by_key table_ok_of_camera schema_defs)
  note p = protocols_stored [OF s c(1) apply_protocols_keys [OF c(3)] apply_protocols_ok [OF c(3) t0] c(5) assms(3)]
  have "schema_ok d'" using s c(5) schema.protocol_rows_ok by (auto dest: keepsD)
  then have t: "table_ok (b_protos b)"
    by (simp add: load_done(5) [OF assms(3)] ListCameraProtocols_def table_ok_by_key table_ok_of_camera schema_defs)
  have l: "listens ds k q = open_ports ds nxt k" if "(k, q) \<in> set (b_protos b)" for k q
  proof -
    from that t have "tget (b_protos b) k = Some q" by (simp add: tget_iff_mem)
    with p(4) [of k] obtain r where "tget nxt k = Some r" "cp_Enabled r = cp_Enabled q" "cp_Port r = cp_Port q" by (cases "tget nxt k") auto
    then show ?thesis by (simp add: open_ports_def listens_def case_prod_unfold)
  qed
  then have "map (\<lambda>(k, q). listens ds k q) (b_protos b) = map (open_ports ds nxt) (tkeys (b_protos b))"
    by (auto simp: tkeys_def)
  moreover have "distinct (concat (map (open_ports ds nxt) (SortedKeys nxt)))" using clashes_none [OF c(4)] by blast
  ultimately have "distinct (concat (map (\<lambda>(k, q). listens ds k q) (b_protos b)))" by (simp add: p(2))
  with c(2) p(1-3) show ?thesis by simp
qed

definition demo_move :: "ProtocolInput list" where
  "demo_move = [\<lparr>pi_Instance = ''http'', pi_Enabled = None, pi_Port = Some 8080\<rparr>]"

lemma demo_loads: "\<exists>b. load ''c1'' demo_db = Inr b \<and> b_doc b = demo_doc \<and> cm_ProfileID (b_cam b) = ''acme'' \<and>
    b_protos b = [(''http'', \<lparr>cp_Enabled = True, cp_Port = 80, cp_Options = ''{}''\<rparr>), (''rtsp'', \<lparr>cp_Enabled = True, cp_Port = 554, cp_Options = ''{}''\<rparr>)]"
  by (simp add: load_def GetCamera_def GetCameraNetwork_def GetProfileByRef_def demo_state new_camera_def ListCameraProtocols_def of_camera_def by_key_def)

lemma demo_descriptors: "descriptors_of demo_node demo_doc [''http'', ''rtsp''] = Inr [(''http'', httpapi_Describe), (''rtsp'', rtsp_Describe)]"
  by (simp add: instanceDescriptor_def EngineName_def section_head_def demo_doc_def EngineRef_def Resolve_def Builtin_def rtsp_Describe_def
      httpapi_Describe_def demo_node_def Contract_def)

lemma demo_moves: "\<exists>es d'. SetCameraProtocols demo_node ''c1'' demo_move demo_db = (Inr es, d')"
proof -
  from demo_loads obtain b where b: "load ''c1'' demo_db = Inr b" "b_doc b = demo_doc" "cm_ProfileID (b_cam b) = ''acme''"
    "b_protos b = [(''http'', \<lparr>cp_Enabled = True, cp_Port = 80, cp_Options = ''{}''\<rparr>), (''rtsp'', \<lparr>cp_Enabled = True, cp_Port = 554, cp_Options = ''{}''\<rparr>)]"
    by blast
  let ?ds = "[(''http'', httpapi_Describe), (''rtsp'', rtsp_Describe)]"
  let ?nxt = "[(''http'', \<lparr>cp_Enabled = True, cp_Port = 8080, cp_Options = ''{}''\<rparr>), (''rtsp'', \<lparr>cp_Enabled = True, cp_Port = 554, cp_Options = ''{}''\<rparr>)]"
  have a: "apply_protocols ?ds ''acme'' 0 demo_move [] (b_protos b) = ([], ?nxt)"
    by (simp add: demo_move_def b(4) set_port_def sockets_of_def httpapi_Describe_def)
  have k: "SortedKeys ?nxt = [''http'', ''rtsp'']" by (simp add: SortedKeys_def tkeys_def)
  have c: "clashes ?ds ?nxt (SortedKeys ?nxt) [] [] = []"
    by (simp add: k listens_def sockets_of_def httpapi_Describe_def rtsp_Describe_def)
  have "\<exists>d'. protocol_rows demo_node ''c1'' ?nxt demo_db = Inr d'"
    by (simp add: protocol_rows_def k then_do_def UpdateCameraProtocol_done TouchCamera_done skip_def)
  then obtain d' where d': "protocol_rows demo_node ''c1'' ?nxt demo_db = Inr d'" by blast
  show ?thesis
    unfolding SetCameraProtocols_def and_then_def [of "loadBundle i" for i] loadBundle_def b(1)
    by (simp add: b(2,3,4) tkeys_def demo_descriptors and_then_def attempt_def a [unfolded b(4)] c check_def verr_def commit_def Tx_def d' give_def
        del: descriptors_of.simps apply_protocols.simps clashes.simps)
qed

theorem protocols_do_not_clash_witness:
  "\<exists>d' b. load ''c1'' d' = Inr b \<and> cm_Name (b_cam b) = ''Door'' \<and>
    (\<exists>ds. distinct (concat (map (\<lambda>(k, p). listens ds k p) (b_protos b))))"
proof -
  from demo_moves obtain es d' where m: "SetCameraProtocols demo_node ''c1'' demo_move demo_db = (Inr es, d')" by blast
  have "service_step (\<lambda>n. True) demo_db d'" using m by (rule step_protocols)
  with demo_reached have "reach (service_step (\<lambda>n. True)) new_db d'" by (rule reach_step)
  moreover from SetCameraProtocols_cases [OF m] obtain nxt where "protocol_rows demo_node ''c1'' nxt demo_db = Inr d'" by blast
  from protocol_rows_done [OF this] have "tget (c_cameras d') ''c1'' = Some (new_camera demo_node ''c1'' ''Door'' ''acme'' ''1'' demo_doc True []\<lparr>cm_UpdatedAt := nd_now demo_node\<rparr>)"
    by (simp add: tget_touched demo_state(2))
  ultimately obtain b where "load ''c1'' d' = Inr b" "cm_Name (b_cam b) = ''Door''"
    using whole_loads reached_whole by (force simp: new_camera_def)
  with protocols_do_not_clash [OF demo_reached m] show ?thesis by blast
qed

end
