(* ===== verification/Camera_Copies.thy ===== *)
theory Camera_Copies
  imports Camera_Protocols "HOL-Library.Multiset"
begin

text \<open>What a reset, a copy and a change of accounts leave in the tables, passwords read back included.\<close>

section \<open>Rows that are read back\<close>

lemma tget_put_map: "tget (put_rows i (map (\<lambda>k. (k, g k)) ks) t) (i, k) = (if k \<in> set ks then Some (g k) else tget t (i, k))"
  by (induction ks arbitrary: t) auto

lemma value_of_Defaults: "tget (pd_State m) k = Some p \<Longrightarrow> value_of (Defaults m) k = pa_Default p"
  by (simp add: value_of_def Defaults_def tget_map_value)

lemma Defaults_keys: "set (tkeys (Defaults m)) = set (tkeys (pd_State m))"
  by (force simp: Defaults_def tkeys_def)

text \<open>The accounts of a camera as they sign in: name, password as the box opens it, role.\<close>

definition sign_ins :: "node \<Rightarrow> string \<Rightarrow> account_row list \<Rightarrow> (string \<times> (error, string) result \<times> string) set" where
  "sign_ins n i us = (\<lambda>u. (ac_Username u, Open n (ac_PasswordEnc u) (account_ctx i (ac_Username u)), ac_Role u)) ` set us"

definition given :: "user_input list \<Rightarrow> (string \<times> (error, string) result \<times> string) set" where
  "given us = (\<lambda>u. (ui_Username u, Inr (ui_Password u), ui_Role u)) ` set us"

lemma user_rows_open:
  assumes "aead_ok n" "nonces_ok f"
  shows "sign_ins n i (map snd (user_rows n f i us)) = given us"
proof -
  have e: "ac_Username (account_of n f i k u) = ui_Username u" "ac_Role (account_of n f i k u) = ui_Role u"
    "Open n (ac_PasswordEnc (account_of n f i k u)) (account_ctx i (ui_Username u)) = Inr (ui_Password u)" for k u
    using assms by (simp_all add: account_of_def Open_Seal nonces_ok_def)
  have "sign_ins n i (map snd (user_rows n f i us)) = (\<lambda>(k, u). (ui_Username u, Inr (ui_Password u), ui_Role u)) ` set (enumerate 0 us)"
    unfolding sign_ins_def user_rows_def by (simp add: image_image case_prod_unfold e)
  also have "\<dots> = given us"
  proof -
    have "set (enumerate 0 us) = {(k, us ! k) | k. k < length us}" by (auto simp: in_set_enumerate_eq)
    then show ?thesis by (auto simp: given_def set_conv_nth)
  qed
  finally show ?thesis .
qed

lemma listed_users:
  assumes "c_users d' = filter (\<lambda>(j, u). ac_CameraID u \<noteq> i) old @ user_rows n f i us"
  shows "set (ListCameraUsers i d') = set (map snd (user_rows n f i us))"
  using assms user_rows_camera by (force simp: ListCameraUsers_def)

lemma sign_ins_cong: "set us = set vs \<Longrightarrow> sign_ins n i us = sign_ins n i vs"
  by (simp add: sign_ins_def)

text \<open>A camera whose rows did not change loads as before.\<close>

lemma of_camera_cong:
  "filter (\<lambda>((j, k), v). j = c) t' = filter (\<lambda>((j, k), v). j = c) t \<Longrightarrow> of_camera c t' = of_camera c t"
  by (simp add: of_camera_def)

lemma of_camera_tput_other: "c \<noteq> i \<Longrightarrow> of_camera c (tput (i, k) v t) = of_camera c t"
  by (induction "(i, k)" v t rule: tput.induct) (auto simp: of_camera_def)

lemma of_camera_put_rows_other [simp]: "c \<noteq> i \<Longrightarrow> of_camera c (put_rows i rows t) = of_camera c t"
  by (induction rows arbitrary: t) (auto simp: of_camera_tput_other)

lemma of_camera_drop_other [simp]: "c \<noteq> i \<Longrightarrow> of_camera c (drop_camera i t) = of_camera c t"
  unfolding of_camera_def drop_camera_def by (induction t) auto

lemma of_camera_set_protocols_other [simp]: "c \<noteq> i \<Longrightarrow> of_camera c (set_protocols i xs t) = of_camera c t"
proof (induction xs arbitrary: t)
  case (Cons x xs)
  obtain k e p where x: "x = (k, e, p)" by (metis prod_cases3)
  have "of_camera c (set_protocol i k e p t) = of_camera c t" using Cons.prems
    by (simp add: set_protocol_def of_camera_tput_other split: option.split)
  with Cons x show ?case by (simp add: set_protocols_def)
qed (simp add: set_protocols_def)

lemma load_other:
  assumes "c_profiles d' = c_profiles d" "c_targets d' = c_targets d" "tget (c_cameras d') c = tget (c_cameras d) c"
    "tget (c_network d') c = tget (c_network d) c" "tget (c_status d') c = tget (c_status d) c"
    "of_camera c (c_state d') = of_camera c (c_state d)" "of_camera c (c_protocols d') = of_camera c (c_protocols d)"
    "of_camera c (c_streams d') = of_camera c (c_streams d)" "of_camera c (c_links d') = of_camera c (c_links d)"
    "filter (\<lambda>u. ac_CameraID u = c) (map snd (c_users d')) = filter (\<lambda>u. ac_CameraID u = c) (map snd (c_users d))"
  shows "load c d' = load c d"
  using assms by (simp add: load_def GetCamera_def GetCameraNetwork_def GetCameraStatus_def GetProfileByRef_def ListCameraState_def ListCameraProtocols_def
      ListCameraUsers_def ListCameraStreams_def ListCameraTargets_def cong: option.case_cong)

lemma users_other:
  assumes "c \<noteq> i"
  shows "filter (\<lambda>u. ac_CameraID u = c) (map snd (t @ user_rows n f i us)) = filter (\<lambda>u. ac_CameraID u = c) (map snd t)"
    "filter (\<lambda>u. ac_CameraID u = c) (map snd (filter (\<lambda>(j, u). ac_CameraID u \<noteq> i) t)) = filter (\<lambda>u. ac_CameraID u = c) (map snd t)"
proof -
  have "filter (\<lambda>u. ac_CameraID u = c) (map snd (user_rows n f i us)) = []"
    using assms by (auto simp: filter_empty_conv dest: user_rows_camera)
  then show "filter (\<lambda>u. ac_CameraID u = c) (map snd (t @ user_rows n f i us)) = filter (\<lambda>u. ac_CameraID u = c) (map snd t)" by simp
  show "filter (\<lambda>u. ac_CameraID u = c) (map snd (filter (\<lambda>(j, u). ac_CameraID u \<noteq> i) t)) = filter (\<lambda>u. ac_CameraID u = c) (map snd t)"
    using assms by (induction t) auto
qed

section \<open>Copies\<close>

lemma open_accounts_given:
  "open_accounts n src us = Inr xs \<Longrightarrow> sign_ins n src us = given xs"
proof (induction us arbitrary: xs)
  case (Cons u us)
  from Cons.prems obtain pw ys where "Open n (ac_PasswordEnc u) (account_ctx src (ac_Username u)) = Inr pw" "open_accounts n src us = Inr ys"
    "xs = \<lparr>ui_Username = ac_Username u, ui_Password = pw, ui_Role = ac_Role u\<rparr> # ys" by (auto split: sum.splits)
  with Cons.IH [OF this(2)] show ?case by (simp add: sign_ins_def given_def)
qed (simp add: sign_ins_def given_def)

lemma tget_put_table: "table_ok rows \<Longrightarrow> keys_of t i = {} \<Longrightarrow> tget (put_rows i rows t) (i, k) = tget rows k"
  by (auto simp: tget_put_rows keys_of_def split: option.split)

lemma joined_targets:
  assumes "table_ok t" "\<And>k l. tget t k = Some l \<Longrightarrow> tget targets k \<noteq> None"
  shows "map (\<lambda>(k, l, r). (k, l)) (concat (map (\<lambda>(k, l). case tget targets k of None \<Rightarrow> [] | Some r \<Rightarrow> [(k, l, r)]) t)) = t"
proof -
  have "(k, l) \<in> set t \<Longrightarrow> tget targets k \<noteq> None" for k l using assms by (simp add: tget_iff_mem)
  then show ?thesis by (induction t) (fastforce split: option.splits)+
qed

lemma listed_links:
  assumes "schema_ok d"
  shows "table_ok (map (\<lambda>(t, l, r). (t, l)) (ListCameraTargets c d))" "tget (map (\<lambda>(t, l, r). (t, l)) (ListCameraTargets c d)) k = tget (c_links d) (c, k)"
proof -
  let ?j = "concat (map (\<lambda>(k, l). case tget (c_targets d) k of None \<Rightarrow> [] | Some r \<Rightarrow> [(k, l, r)]) (of_camera c (c_links d)))"
  let ?t = "map (\<lambda>(t, l, r). (t, l)) (ListCameraTargets c d)"
  from assms have t: "table_ok (of_camera c (c_links d))" "refers link_ref (c_links d) (c_targets d)"
    by (simp_all add: schema_defs table_ok_of_camera)
  have j: "map (\<lambda>(k, l, r). (k, l)) ?j = of_camera c (c_links d)"
    using t by (intro joined_targets) (auto simp: refers_def link_ref_def)
  have "mset ?t = mset (map (\<lambda>(k, l, r). (k, l)) ?j)" unfolding ListCameraTargets_def mset_map mset_sort ..
  then have m: "mset ?t = mset (of_camera c (c_links d))" unfolding j .
  then have "mset (tkeys ?t) = mset (tkeys (of_camera c (c_links d)))" unfolding tkeys_def by (metis mset_map)
  from mset_eq_imp_distinct_iff [OF this] t(1) show ok: "table_ok ?t" unfolding table_ok_def by blast
  from m have "set ?t = set (of_camera c (c_links d))" by (rule mset_eq_setD)
  with ok t(1) have "tget ?t k = Some v \<longleftrightarrow> tget (of_camera c (c_links d)) k = Some v" for v
    by (simp only: tget_iff_mem [OF ok] tget_iff_mem [OF t(1)])
  then show "tget ?t k = tget (c_links d) (c, k)" by (metis not_Some_eq tget_of_camera)
qed

text \<open>C5. A copy of a camera serves the same profile with the same parameters, protocols, pictures and event
  targets, and its accounts sign in with the same names, passwords and roles, although every password is sealed
  anew for the copy; it is stopped and has the name asked for, and no other camera changes.\<close>

theorem clone_copies:
  assumes "reach (service_step (\<lambda>n. True)) new_db d" "aead_ok n" "nonces_ok f" "load src d = Inr b"
    "CloneCamera n f src x d = (Inr es, d')"
  shows "\<exists>b'. load (fr_id f) d' = Inr b' \<and> b_doc b' = b_doc b \<and> cm_Name (b_cam b') = trim_space (cl_Name x) \<and>
    cm_Desired (b_cam b') = DesiredStopped \<and>
    (\<forall>k. map_option (\<lambda>r. (cs_Value r, cs_Origin r)) (tget (b_state b') k) = map_option (\<lambda>r. (cs_Value r, cs_Origin r)) (tget (b_state b) k)) \<and>
    (\<forall>k. tget (b_protos b') k = tget (b_protos b) k) \<and> (\<forall>k. tget (b_streams b') k = tget (b_streams b) k) \<and>
    (\<forall>t. tget (c_links d') (fr_id f, t) = tget (c_links d) (src, t)) \<and>
    sign_ins n (fr_id f) (b_users b') = sign_ins n src (b_users b) \<and> (\<forall>c. c \<noteq> fr_id f \<longrightarrow> load c d' = load c d)"
proof -
  define i where "i = fr_id f"
  from reached_whole [OF assms(1)] have w: "whole d" "schema_ok d" by simp_all
  from CloneCamera_cases [OF assms(5)] assms(4) obtain nw us where c: "open_accounts n src (b_users b) = Inr us" "clone_rows n f x b nw us d = Inr d'"
    and nw: "resolved nw" by (auto intro: resolvedI)
  note e = clone_rows_done [OF c(2) i_def] and l = load_done [OF assms(4)]
  note new = no_rows_yet [OF w(2) e(1)]
  have w': "whole d'" by (rule whole_clone_rows [OF w assms(4) c])
  have s': "schema_ok d'" using keepsD [OF schema.clone_rows_ok [OF _ assms(3) nw] w(2) c(2)] by simp
  have t: "table_ok (b_state b)" "table_ok (b_protos b)" "table_ok (b_streams b)"
    using w(2) by (simp_all add: l ListCameraState_def ListCameraProtocols_def ListCameraStreams_def table_ok_by_key table_ok_of_camera schema_defs)
  have t': "table_ok (c_state d')" "table_ok (c_protocols d')" "table_ok (c_streams d')" using s' by (simp_all add: schema_defs)
  from e(2) obtain cam where cam: "tget (c_cameras d') i = Some cam" "cm_Name cam = trim_space (cl_Name x)" "cm_Desired cam = DesiredStopped"
    "cm_ProfileID cam = cm_ProfileID (b_cam b)" "cm_ProfileVersion cam = cm_ProfileVersion (b_cam b)" by (simp add: new_camera_def)
  from whole_loads [OF w' cam(1)] obtain b' where b': "load i d' = Inr b'" "b_cam b' = cam" by blast
  note l' = load_done [OF b'(1)]
  have doc: "b_doc b' = b_doc b"
    using l(2) l'(2) cam(4,5) b'(2) e(2) by (simp add: doc_of_def)
  have st: "tget (b_state b') k = map_option (\<lambda>r. r\<lparr>cs_UpdatedAt := nd_now n\<rparr>) (tget (b_state b) k)" for k
  proof -
    have "table_ok (map (\<lambda>(k, r). (k, r\<lparr>cs_UpdatedAt := nd_now n\<rparr>)) (b_state b))" using t(1) by (simp add: table_ok_map_value)
    from tget_put_table [OF this new(1), of k] have "tget (c_state d') (i, k) = map_option (\<lambda>r. r\<lparr>cs_UpdatedAt := nd_now n\<rparr>) (tget (b_state b) k)"
      by (simp add: e(2) tget_map_value)
    then show ?thesis by (simp add: l'(4) ListCameraState_def tget_by_key table_ok_of_camera t')
  qed
  have pr: "tget (b_protos b') k = tget (b_protos b) k" for k
  proof -
    have "tget (c_protocols d') (i, k) = tget (b_protos b) k" using tget_put_table [OF t(2) new(2), of k] by (simp add: e(2))
    then show ?thesis by (simp add: l'(5) ListCameraProtocols_def tget_by_key table_ok_of_camera t')
  qed
  have sr: "tget (b_streams b') k = tget (b_streams b) k" for k
  proof -
    have "tget (c_streams d') (i, k) = tget (b_streams b) k" using tget_put_table [OF t(3) new(3), of k] by (simp add: e(2))
    then show ?thesis by (simp add: l'(7) ListCameraStreams_def tget_by_key table_ok_of_camera t')
  qed
  have "keys_of (c_links d) i = {}"
  proof -
    have "refers child_ref (c_links d) (c_cameras d)" using w(2) by (simp add: schema_defs)
    then show ?thesis by (auto simp: keys_of_def child_ref_def intro!: refers_absent [of child_ref, OF _ e(1)])
  qed
  from tget_put_table [OF listed_links(1) [OF w(2)] this] have ln: "tget (c_links d') (i, t) = tget (c_links d) (src, t)" for t
    by (simp add: e(2) l(8) listed_links(2) [OF w(2)])
  have "filter (\<lambda>(j, u). ac_CameraID u \<noteq> i) (c_users d) = c_users d"
    using new(4) by (auto simp: accounts_of_def filter_id_conv)
  then have "c_users d' = filter (\<lambda>(j, u). ac_CameraID u \<noteq> i) (c_users d) @ user_rows n f i us" by (simp add: e(2))
  from sign_ins_cong [OF listed_users [OF this]] have "sign_ins n i (b_users b') = sign_ins n src (b_users b)"
    by (simp add: l'(6) user_rows_open [OF assms(2,3)] open_accounts_given [OF c(1)])
  moreover have "load c d' = load c d" if "c \<noteq> i" for c
    using that by (intro load_other) (simp_all add: e(2) users_other(1) del: map_append filter_append)
  ultimately show ?thesis using b' cam doc st pr sr ln unfolding i_def [symmetric] by (auto simp: option.map_comp comp_def)
qed

definition demo_clone :: CloneCameraInput where
  "demo_clone = \<lparr>cl_Name = ''Gate'', cl_Network = ci_Network demo_input, cl_Start = False\<rparr>"

lemma demo_aead: "aead_ok demo_node"
  by (simp add: aead_ok_def demo_node_def Overhead_def)

lemma demo_nonces: "nonces_ok (demo_fresh i)"
  by (simp add: nonces_ok_def demo_fresh_def NonceSize_def)

lemma demo_source: "\<exists>b. load ''c1'' demo_db = Inr b \<and> b_doc b = demo_doc \<and> cm_ProfileID (b_cam b) = ''acme'' \<and> cm_ProfileVersion (b_cam b) = ''1'' \<and>
    \<not> b_archived b \<and> b_net b = network_of NetMacvlan IPStatic demo_identity \<and>
    b_protos b = [(''http'', \<lparr>cp_Enabled = True, cp_Port = 80, cp_Options = ''{}''\<rparr>), (''rtsp'', \<lparr>cp_Enabled = True, cp_Port = 554, cp_Options = ''{}''\<rparr>)] \<and>
    b_state b = [(''Light'', \<lparr>cs_Value = ''true'', cs_Origin = ''profile'', cs_UpdatedAt = 1000\<rparr>)] \<and>
    b_streams b = [(''main'', \<lparr>sw_AssetID = ''c1/a'', sw_RenditionID = Some ''c1/r''\<rparr>)] \<and> b_targets b = [] \<and>
    b_users b = [account_of demo_node (demo_fresh ''c1'') ''c1'' 0 \<lparr>ui_Username = ''admin'', ui_Password = ''pw'', ui_Role = ''admin''\<rparr>]"
  by (simp add: load_def GetCamera_def GetCameraNetwork_def GetProfileByRef_def demo_state new_camera_def ListCameraProtocols_def of_camera_def by_key_def
      ListCameraState_def ListCameraStreams_def ListCameraTargets_def ListCameraUsers_def user_rows_def account_of_def)

lemma demo_clones: "\<exists>es d'. CloneCamera demo_node (demo_fresh ''c2'') ''c1'' demo_clone demo_db = (Inr es, d')"
proof -
  from demo_source obtain b where b: "load ''c1'' demo_db = Inr b" "b_doc b = demo_doc" "cm_ProfileID (b_cam b) = ''acme''" "cm_ProfileVersion (b_cam b) = ''1''"
    "\<not> b_archived b" "b_net b = network_of NetMacvlan IPStatic demo_identity"
    "b_protos b = [(''http'', \<lparr>cp_Enabled = True, cp_Port = 80, cp_Options = ''{}''\<rparr>), (''rtsp'', \<lparr>cp_Enabled = True, cp_Port = 554, cp_Options = ''{}''\<rparr>)]"
    "b_state b = [(''Light'', \<lparr>cs_Value = ''true'', cs_Origin = ''profile'', cs_UpdatedAt = 1000\<rparr>)]"
    "b_streams b = [(''main'', \<lparr>sw_AssetID = ''c1/a'', sw_RenditionID = Some ''c1/r''\<rparr>)]" "b_targets b = []"
    "b_users b = [account_of demo_node (demo_fresh ''c1'') ''c1'' 0 \<lparr>ui_Username = ''admin'', ui_Password = ''pw'', ui_Role = ''admin''\<rparr>]"
    by blast
  have n: "trim_space (cl_Name demo_clone) = ''Gate''" "\<not> cl_Start demo_clone" by (simp_all add: demo_clone_def trim_eval)
  have v: "validate_camera_name ''Gate'' = None"
    by (simp add: validate_camera_name_def trim_eval ascii_eval ascii_def MaxCameraNameLength_def)
  define nw where "nw = \<lparr>rv_Parent = [], rv_MAC = hw_str (DeriveMAC (nd_sha demo_node) ''c2'' []), rv_IP = [], rv_Netmask = [], rv_Gateway = [],
    rv_Prefix = 0, rv_DNS = []\<rparr>"
  have r: "resolveNetwork demo_node (fr_id (demo_fresh ''c2'')) demo_doc ((cl_Network demo_clone)\<lparr>in_DefaultMAC := (in_MAC (cl_Network demo_clone) = [])\<rparr>) = Inr nw"
    using demo_network [of "''c2''"] by (simp add: demo_clone_def demo_input_def demo_fresh_def nw_def)
  have m: "rv_MAC nw \<noteq> rv_MAC demo_identity"
    by (simp add: nw_def demo_identity_def demo_node_def DeriveMAC_def Let_def) code_simp
  have u: "checkUnique ''Gate'' nw demo_db = None" using m
    by (simp add: checkUnique_def checkUniqueNetwork_def CameraIDByName_def CameraIDByMAC_def demo_state new_camera_def network_of_def same_name_def lower_char_def
        is_upper_c_def byte_def) (simp add: nw_def)
  have a: "admitCreate demo_node demo_db = (Inr (), demo_db)" by (rule demo_admitted) (simp add: CountCameras_def demo_state)
  have o: "open_accounts demo_node ''c1'' (b_users b) = Inr [\<lparr>ui_Username = ''admin'', ui_Password = ''pw'', ui_Role = ''admin''\<rparr>]"
    using demo_aead demo_nonces [of "''c1''"] by (simp add: b(11) account_of_def Open_Seal nonces_ok_def)
  have "\<exists>d'. clone_rows demo_node (demo_fresh ''c2'') demo_clone b nw [\<lparr>ui_Username = ''admin'', ui_Password = ''pw'', ui_Role = ''admin''\<rparr>] demo_db = Inr d'"
    unfolding clone_rows_def Let_def b n new_camera_def network_of_def account_of_def
    using m
    by (simp add: then_do_def skip_def InsertCamera_def demo_state new_camera_def network_of_def name_taken_def same_name_def lower_char_def is_upper_c_def byte_def
        InsertCameraNetwork_def mac_taken_def ip_taken_def UpsertCameraState_def InsertCameraProtocol_def write_users_def InsertCameraUser_def account_taken_def
        account_of_def user_rows_def UpsertCameraStream_def demo_assets rendition_exists_def UpsertCameraStatus_def demo_fresh_def nw_def)
  then obtain d' where d': "clone_rows demo_node (demo_fresh ''c2'') demo_clone b nw [\<lparr>ui_Username = ''admin'', ui_Password = ''pw'', ui_Role = ''admin''\<rparr>] demo_db = Inr d'" ..
  show ?thesis
    unfolding CloneCamera_def and_then_def [of "loadBundle i" for i] loadBundle_def b(1)
    by (simp add: n v and_then_def check_def b(2,5) r attempt_def ask_def u a o commit_def Tx_def d' give_def del: open_accounts.simps)
qed

theorem clone_copies_witness:
  "\<exists>d' b'. load ''c2'' d' = Inr b' \<and> cm_Name (b_cam b') = ''Gate'' \<and>
    sign_ins demo_node ''c2'' (b_users b') = {(''admin'', Inr ''pw'', ''admin'')}"
proof -
  from demo_clones obtain es d' where c: "CloneCamera demo_node (demo_fresh ''c2'') ''c1'' demo_clone demo_db = (Inr es, d')" by blast
  from demo_source obtain b where b: "load ''c1'' demo_db = Inr b"
    "b_users b = [account_of demo_node (demo_fresh ''c1'') ''c1'' 0 \<lparr>ui_Username = ''admin'', ui_Password = ''pw'', ui_Role = ''admin''\<rparr>]" by blast
  have "sign_ins demo_node ''c1'' (b_users b) = {(''admin'', Inr ''pw'', ''admin'')}"
    using demo_aead demo_nonces [of "''c1''"] by (simp add: sign_ins_def b(2) account_of_def Open_Seal nonces_ok_def)
  moreover have f: "fr_id (demo_fresh ''c2'') = ''c2''" "trim_space (cl_Name demo_clone) = ''Gate''" by (simp_all add: demo_fresh_def demo_clone_def trim_eval)
  moreover have "\<exists>b'. load ''c2'' d' = Inr b' \<and> cm_Name (b_cam b') = ''Gate'' \<and> sign_ins demo_node ''c2'' (b_users b') = sign_ins demo_node ''c1'' (b_users b)"
    using clone_copies [OF demo_reached demo_aead demo_nonces b(1) c] unfolding f by (elim exE conjE, intro exI conjI) assumption+
  ultimately show ?thesis by (intro exI [of _ d']) simp
qed

section \<open>Reset\<close>

lemma default_ports_done:
  "default_ports n doc ks = Inr ports \<Longrightarrow> tkeys ports = ks \<and> (\<forall>(k, p)\<in>set ports. instancePort n doc k = Inr p)"
proof (induction ks arbitrary: ports)
  case (Cons k ks)
  from Cons.prems obtain p ps where "instancePort n doc k = Inr p" "default_ports n doc ks = Inr ps" "ports = (k, p) # ps"
    by (auto split: sum.splits)
  with Cons.IH [OF this(2)] show ?case by (auto simp: tkeys_def)
qed (simp add: tkeys_def)

lemma default_ports_some: "default_ports n doc ks = Inr ports \<Longrightarrow> k \<in> set ks \<Longrightarrow> \<exists>p. instancePort n doc k = Inr p"
  by (induction ks arbitrary: ports) (auto split: sum.splits)

lemma tget_default_ports:
  assumes "default_ports n doc ks = Inr ports" "distinct ks"
  shows "table_ok (map (\<lambda>(k, p). (k, True, p)) ports)"
    "tget (map (\<lambda>(k, p). (k, True, p)) ports) k = (if k \<in> set ks then Some (True, port_of n doc k) else None)"
proof -
  note p = default_ports_done [OF assms(1)]
  have "tkeys (map (\<lambda>(k, p). (k, True, p)) ports) = ks" using p by (simp add: tkeys_def comp_def case_prod_unfold)
  with assms(2) show "table_ok (map (\<lambda>(k, p). (k, True, p)) ports)" by (simp add: table_ok_def)
  show "tget (map (\<lambda>(k, p). (k, True, p)) ports) k = (if k \<in> set ks then Some (True, port_of n doc k) else None)"
  proof (cases "tget ports k")
    case None
    with p show ?thesis by (simp add: tget_map_value tget_None_iff)
  next
    case (Some q)
    with p have "k \<in> set ks" "instancePort n doc k = Inr q" by (auto dest: tget_Some_mem tget_Some_key)
    with Some show ?thesis by (simp add: tget_map_value port_of_def)
  qed
qed


lemma demo_resets: "\<exists>es d'. ResetCamera demo_node (demo_fresh ''c1'') ''c1'' ResetSettings demo_db = (Inr es, d')"
proof -
  from demo_source obtain b where b: "load ''c1'' demo_db = Inr b" "b_doc b = demo_doc"
    "b_protos b = [(''http'', \<lparr>cp_Enabled = True, cp_Port = 80, cp_Options = ''{}''\<rparr>), (''rtsp'', \<lparr>cp_Enabled = True, cp_Port = 554, cp_Options = ''{}''\<rparr>)]"
    by blast
  have v: "ValidateCameraUsers (nd_lower demo_node) (map domain_user (factory_users demo_doc)) = None"
    using demo_accounts_ok by (simp add: demo_accounts) (simp add: factory_users_def demo_doc_def)
  have k: "tkeys (b_protos b) = [''http'', ''rtsp'']" by (simp add: b(3) tkeys_def)
  have p: "default_ports demo_node demo_doc [''http'', ''rtsp''] = Inr [(''http'', 80), (''rtsp'', 554)]" by (simp add: demo_port)
  have "\<exists>d'. reset_rows demo_node (demo_fresh ''c1'') ''c1'' demo_doc [(''http'', 80), (''rtsp'', 554)] None demo_db = Inr d'"
    by (simp add: reset_rows_def then_do_def skip_def DeleteCameraState_def write_state_def UpsertCameraState_def demo_state SortedKeys_def tkeys_def Defaults_def
        demo_doc_def DeleteCameraUsers_def write_users_def factory_users_def InsertCameraUser_def account_taken_def user_rows_def account_of_def demo_fresh_def
        UpdateCameraProtocol_done TouchCamera_done)
  then obtain d' where d': "reset_rows demo_node (demo_fresh ''c1'') ''c1'' demo_doc [(''http'', 80), (''rtsp'', 554)] None demo_db = Inr d'" ..
  show ?thesis
    unfolding ResetCamera_def reset_scope.case and_then_def [of "loadBundle i" for i] loadBundle_def b(1)
    by (simp add: b(2) k and_then_def check_def v ask_def attempt_def reset_network_def p commit_def Tx_def d' give_def del: default_ports.simps)
qed


end
