(* ===== verification/Camera_Accounts.thy ===== *)
theory Camera_Accounts
  imports Camera_Copies
begin

text \<open>Who can sign in to a camera: what a change of accounts stores and sends, and that every stored password opens.\<close>

definition wanted_sign_in :: "node \<Rightarrow> string \<Rightarrow> account_row list \<Rightarrow> user_input \<Rightarrow> string \<times> (error, string) result \<times> string" where
  "wanted_sign_in n i us x =
    (trim_space (ui_Username x),
     (if ui_Password x \<noteq> [] then Inr (ui_Password x)
      else case List.find (\<lambda>a. ac_Username a = trim_space (ui_Username x)) us of
        None \<Rightarrow> Inl ErrNotFound
      | Some a \<Rightarrow> Open n (ac_PasswordEnc a) (account_ctx i (ac_Username a))),
     (if ui_Role x = [] then ''admin'' else ui_Role x))"

lemma or_admin_simps: "ui_Username (or_admin u) = ui_Username u" "ui_Password (or_admin u) = ui_Password u"
  "ui_Role (or_admin u) = (if ui_Role u = [] then ''admin'' else ui_Role u)"
  by (simp_all add: or_admin_def)

lemma merge_users_given:
  "merge_users n i us k ins = Inr ([], xs, ch) \<Longrightarrow> given xs = wanted_sign_in n i us ` set ins"
proof (induction ins arbitrary: k xs ch)
  case (Cons raw ins)
  define u where "u = or_admin (raw\<lparr>ui_Username := trim_space (ui_Username raw)\<rparr>)"
  have u: "ui_Username u = trim_space (ui_Username raw)" "ui_Password u = ui_Password raw" "ui_Role u = (if ui_Role raw = [] then ''admin'' else ui_Role raw)"
    by (simp_all add: u_def or_admin_simps)
  show ?case
  proof (cases "ui_Password raw = []")
    case True
    with Cons.prems obtain old pw ys ch' where o: "List.find (\<lambda>a. ac_Username a = ui_Username u) us = Some old"
      "Open n (ac_PasswordEnc old) (account_ctx i (ac_Username old)) = Inr pw" "merge_users n i us (k + 1) ins = Inr ([], ys, ch')"
      "xs = u\<lparr>ui_Password := pw\<rparr> # ys"
      by (auto simp: Let_def u_def [symmetric] u(2) split: option.splits sum.splits)
    from Cons.IH [OF o(3)] have "given ys = wanted_sign_in n i us ` set ins" .
    with o True u show ?thesis by (simp add: given_def wanted_sign_in_def)
  next
    case False
    with Cons.prems obtain ys ch' where o: "merge_users n i us (k + 1) ins = Inr ([], ys, ch')" "xs = u # ys"
      by (auto simp: Let_def u_def [symmetric] u(2) split: sum.splits)
    from Cons.IH [OF o(1)] have "given ys = wanted_sign_in n i us ` set ins" .
    with o False u show ?thesis by (simp add: given_def wanted_sign_in_def)
  qed
qed (simp add: given_def)

text \<open>C7. After the accounts of a camera are replaced, the accounts that sign in are exactly those asked for, under
  their trimmed names; one given without a password keeps the one it had, one without a role is an administrator,
  and a running camera is sent the same names, passwords and roles. Other cameras keep their accounts.\<close>

theorem accounts_set:
  assumes "reach (service_step (\<lambda>n. True)) new_db d" "aead_ok n" "nonces_ok f" "load i d = Inr b" "SetCameraUsers n f i ins d = (Inr es, d')"
  shows "\<exists>b'. load i d' = Inr b' \<and> sign_ins n i (b_users b') = wanted_sign_in n i (b_users b) ` set ins \<and>
    (nd_active n i \<longrightarrow> (\<exists>sent. SendUsers i sent \<in> set es \<and> (\<lambda>(u, p, q). (u, Inr p, q)) ` set sent = sign_ins n i (b_users b'))) \<and>
    (\<forall>c. c \<noteq> i \<longrightarrow> load c d' = load c d)"
proof -
  from reached_whole [OF assms(1)] have w: "whole d" "schema_ok d" by simp_all
  from SetCameraUsers_cases [OF assms(5)] assms(4) obtain us ch where
    c: "nd_active n i \<longrightarrow> SendUsers i (map (\<lambda>u. (ui_Username u, ui_Password u, ui_Role u)) us) \<in> set es"
      "merge_users n i (b_users b) 0 ins = Inr ([], us, ch)" "ValidateCameraUsers (nd_lower n) (map domain_user us) = None" "users_rows n f i us d = Inr d'"
    by auto
  note e = users_rows_done [OF c(4)] and l = load_done [OF assms(4)]
  have w': "whole d'" by (rule whole_users_rows [OF w(1) c(4) c(3)])
  have cam: "tget (c_cameras d') i = Some ((b_cam b)\<lparr>cm_UpdatedAt := nd_now n\<rparr>)" by (simp add: e tget_touched l(1))
  from whole_loads [OF w' cam] obtain b' where b': "load i d' = Inr b'" by blast
  have "c_users d' = filter (\<lambda>(j, u). ac_CameraID u \<noteq> i) (c_users d) @ user_rows n f i us" by (simp add: e)
  from sign_ins_cong [OF listed_users [OF this]] have s: "sign_ins n i (b_users b') = given us"
    by (simp add: load_done(6) [OF b'] user_rows_open [OF assms(2,3)])
  moreover have "(\<lambda>(u, p, q). (u, Inr p, q)) ` set (map (\<lambda>u. (ui_Username u, ui_Password u, ui_Role u)) us) = given us"
    by (simp add: given_def image_image)
  moreover have "load c d' = load c d" if "c \<noteq> i" for c
    using that by (intro load_other) (simp_all add: e users_other tget_touched del: map_append filter_append)
  ultimately show ?thesis using b' c(1) merge_users_given [OF c(2)] by blast
qed

definition demo_accounts_in :: "user_input list" where
  "demo_accounts_in = [\<lparr>ui_Username = ''admin'', ui_Password = [], ui_Role = []\<rparr>, \<lparr>ui_Username = ''bob'', ui_Password = ''p2'', ui_Role = ''viewer''\<rparr>]"

lemma demo_merge:
  assumes "us = [account_of demo_node (demo_fresh ''c1'') ''c1'' 0 \<lparr>ui_Username = ''admin'', ui_Password = ''pw'', ui_Role = ''admin''\<rparr>]"
  shows "merge_users demo_node ''c1'' us 0 demo_accounts_in =
    Inr ([], [\<lparr>ui_Username = ''admin'', ui_Password = ''pw'', ui_Role = ''admin''\<rparr>, \<lparr>ui_Username = ''bob'', ui_Password = ''p2'', ui_Role = ''viewer''\<rparr>], [''bob''])"
proof -
  have t: "trim_space ''admin'' = ''admin''" "trim_space ''bob'' = ''bob''" by (simp_all add: trim_eval)
  have o: "Open demo_node (ac_PasswordEnc (hd us)) (account_ctx ''c1'' ''admin'') = Inr ''pw''" "ac_Username (hd us) = ''admin''"
    using demo_aead demo_nonces [of "''c1''"] by (simp_all add: assms account_of_def Open_Seal nonces_ok_def)
  have u: "us = [hd us]" by (simp add: assms)
  show ?thesis by (subst u) (simp add: demo_accounts_in_def or_admin_def t o Let_def)
qed

lemma demo_sets: "\<exists>es d'. SetCameraUsers demo_node (demo_fresh ''c1'') ''c1'' demo_accounts_in demo_db = (Inr es, d')"
proof -
  from demo_source obtain b where b: "load ''c1'' demo_db = Inr b"
    "b_users b = [account_of demo_node (demo_fresh ''c1'') ''c1'' 0 \<lparr>ui_Username = ''admin'', ui_Password = ''pw'', ui_Role = ''admin''\<rparr>]" by blast
  let ?us = "[\<lparr>ui_Username = ''admin'', ui_Password = ''pw'', ui_Role = ''admin''\<rparr>, \<lparr>ui_Username = ''bob'', ui_Password = ''p2'', ui_Role = ''viewer''\<rparr>]"
  have v: "ValidateCameraUsers (nd_lower demo_node) (map domain_user ?us) = None"
    by (simp add: domain_user_def role_of_def ValidateCameraUsers_def user_errors_def Let_def ValidateUsername_def add_if_def ascii_eval ascii_def
        user_char_def password_char_def role_known_def verr_def is_lower_c_def is_digit_c_def is_upper_c_def)
  have "\<exists>d'. users_rows demo_node (demo_fresh ''c1'') ''c1'' ?us demo_db = Inr d'"
    by (simp add: users_rows_def then_do_def skip_def DeleteCameraUsers_def write_users_def InsertCameraUser_def account_taken_def demo_state user_rows_def
        account_of_def demo_fresh_def TouchCamera_done)
  then obtain d' where d': "users_rows demo_node (demo_fresh ''c1'') ''c1'' ?us demo_db = Inr d'" ..
  show ?thesis
    unfolding SetCameraUsers_def and_then_def [of "loadBundle i" for i] loadBundle_def b(1)
    using v d' by (simp add: demo_merge [OF b(2)] and_then_def attempt_def check_def verr_def commit_def Tx_def give_def del: merge_users.simps)
qed

theorem accounts_set_witness:
  "\<exists>d' b'. load ''c1'' d' = Inr b' \<and> sign_ins demo_node ''c1'' (b_users b') = {(''admin'', Inr ''pw'', ''admin''), (''bob'', Inr ''p2'', ''viewer'')}"
proof -
  from demo_sets obtain es d' where c: "SetCameraUsers demo_node (demo_fresh ''c1'') ''c1'' demo_accounts_in demo_db = (Inr es, d')" by blast
  from demo_source obtain b where b: "load ''c1'' demo_db = Inr b"
    "b_users b = [account_of demo_node (demo_fresh ''c1'') ''c1'' 0 \<lparr>ui_Username = ''admin'', ui_Password = ''pw'', ui_Role = ''admin''\<rparr>]" by blast
  have "wanted_sign_in demo_node ''c1'' (b_users b) ` set demo_accounts_in = {(''admin'', Inr ''pw'', ''admin''), (''bob'', Inr ''p2'', ''viewer'')}"
    using merge_users_given [OF demo_merge [OF b(2)]] by (simp add: given_def)
  moreover have "\<exists>b'. load ''c1'' d' = Inr b' \<and> sign_ins demo_node ''c1'' (b_users b') = wanted_sign_in demo_node ''c1'' (b_users b) ` set demo_accounts_in"
    using accounts_set [OF demo_reached demo_aead demo_nonces b(1) c] by (elim exE conjE, intro exI conjI) assumption+
  ultimately show ?thesis by (intro exI [of _ d']) simp
qed

end
