(* ===== verification/Camera_Addresses.thy ===== *)
theory Camera_Addresses
  imports Camera_Accounts
begin

text \<open>The addresses the service stores, and that the passwords it stores can be read back.\<close>

section \<open>Addresses\<close>

text \<open>C2. After any run of the service every stored address is one a camera can use: an IPv4 host address of the
  subnet of its stored mask, neither that subnet's first nor last address nor a special one, with a unicast MAC,
  a gateway that is another address of the same subnet, and at most three DNS servers.\<close>

theorem addresses_usable:
  assumes "reach (service_step (\<lambda>n. True)) new_db d" "tget (c_network d) i = Some r" "cn_Ip r \<noteq> []"
  shows "\<exists>a p. parse_ip4 (cn_Ip r) = Some a \<and> MaskToPrefix (cn_Netmask r) = Inr (int p) \<and> 1 \<le> p \<and> p \<le> 30 \<and> \<not> special_unicast a \<and>
    host_of a p a \<and> is_ok (ParseMAC (cn_Mac r)) \<and> length (cn_Dns r) \<le> 3 \<and>
    (cn_Gateway r = [] \<or> (\<exists>g. parse_ip4 (cn_Gateway r) = Some g \<and> g \<noteq> a \<and> prefix_contains a p g))"
proof -
  have "networks_usable d" using addressed.inv_reachable assms(1) by blast
  moreover have "(i, r) \<in> set (c_network d)" using assms(2) by (rule tget_Some_mem)
  ultimately have "usable_network r" by (auto simp: networks_usable_def)
  with assms(3) obtain a q where u: "cn_Ip r = ip4_str a" "prefix_ok q" "cn_Netmask r = PrefixToMask q" "\<not> special_unicast a"
    "host_of a (nat q) a" "is_ok (ParseMAC (cn_Mac r))" "length (cn_Dns r) \<le> 3"
    "cn_Gateway r = [] \<or> (\<exists>g. cn_Gateway r = ip4_str g \<and> g \<noteq> a \<and> prefix_contains a (nat q) g)"
    unfolding usable_network_def by blast
  from u(2) have q: "0 \<le> q" "q \<le> 32" "1 \<le> nat q" "nat q \<le> 30" "int (nat q) = q" by (auto simp: prefix_ok_def)
  with u mask_roundtrip [OF q(1,2)] show ?thesis
    by (intro exI [of _ a] exI [of _ "nat q"]) (auto simp: parse_ip4_str)
qed

definition lan_node :: node where
  "lan_node = demo_node\<lparr>nd_local := False, nd_info := Some \<lparr>ni_Interfaces = [\<lparr>if_Name = ''eth0'', if_Addrs = [''192.168.1.2/24'']\<rparr>],
     ni_DefaultInterface = ''eth0'', ni_DefaultGateway = ''192.168.1.1''\<rparr>\<rparr>"

definition lan_input :: NetworkInput where
  "lan_input = \<lparr>in_Parent = [], in_MAC = ''02:11:22:33:44:55'', in_DefaultMAC = False, in_VendorOUI = False, in_IP = ''192.168.1.50'',
     in_Netmask = [], in_Gateway = [], in_DNS = []\<rparr>"

definition lan_change :: UpdateCameraInput where
  "lan_change = \<lparr>uc_Name = None, uc_Autostart = None, uc_Tags = None, uc_TargetIDs = None, uc_Network = Some lan_input\<rparr>"

definition lan_identity :: resolvedNetwork where
  "lan_identity = \<lparr>rv_Parent = ''eth0'', rv_MAC = ''02:11:22:33:44:55'', rv_IP = ip4_str 0xC0A80132, rv_Netmask = PrefixToMask 24,
     rv_Gateway = ip4_str 0xC0A80101, rv_Prefix = 24, rv_DNS = []\<rparr>"

lemma lan_texts:
  "parse_ip4 ''192.168.1.50'' = Some 0xC0A80132" "parse_ip4 ''192.168.1.1'' = Some 0xC0A80101"
  "ParsePrefix ''192.168.1.2/24'' = Some (0xC0A80102, 24)" "ParseMAC ''02:11:22:33:44:55'' = Inr [2, 0x11, 0x22, 0x33, 0x44, 0x55]"
  "hw_str [2, 0x11, 0x22, 0x33, 0x44, 0x55] = ''02:11:22:33:44:55''"
  by code_simp+

lemma lan_strings: "ip4_str 0xC0A80132 = ''192.168.1.50''" "ip4_str 0xC0A80101 = ''192.168.1.1''"
proof -
  have o4: "map (ip4_octet 0xC0A80132) [0, 1, 2, 3] = [192, 168, 1, 50]" "map (ip4_octet 0xC0A80101) [0, 1, 2, 3] = [192, 168, 1, 1]"
    by (simp_all add: ip4_octet_def)
  have n: "nat_str 192 = ''192''" "nat_str 168 = ''168''" "nat_str 1 = ''1''" "nat_str 50 = ''50''" by code_simp+
  show "ip4_str 0xC0A80132 = ''192.168.1.50''" "ip4_str 0xC0A80101 = ''192.168.1.1''"
    using o4 n by (simp_all add: ip4_str_def)
qed

lemma lan_masks:
  "prefix_contains 0xC0A80132 24 0xC0A80102 = True" "prefix_contains 0xC0A80102 24 0xC0A80132 = True"
  "prefix_contains 0xC0A80132 24 0xC0A80101 = True" "special_unicast 0xC0A80132 = False" "host_of 0xC0A80132 24 0xC0A80132 = True"
  by code_simp+

lemma lan_resolved: "resolveNetwork lan_node i doc lan_input = Inr lan_identity"
proof -
  have t: "trim_space ''192.168.1.50'' = ''192.168.1.50''" by (simp add: trim_eval)
  have v: "NetIdentity_Validate (camera_identity ''eth0'' ''02:11:22:33:44:55'' 0xC0A80132 24 (Addr4 0xC0A80101)) = None"
    unfolding NetIdentity_Validate_iff by (simp add: camera_identity_def prefix_ok_def lan_texts lan_masks)
  have g: "addr_str lan_node (Addr4 0xC0A80101) = ip4_str 0xC0A80101" by (simp add: addr_str_def)
  show ?thesis
    by (simp add: resolveNetwork_def lan_node_def lan_input_def lan_identity_def parseDNS_def resolve_mac_def lan_texts Let_def first_set_def
        demo_node_def Lookup_def resolve_ip_def t ParseAddr_def node_address_def resolve_prefix_def interface_prefix_def lan_masks
        resolve_gateway_def inside_def v addr_str_def)
qed

lemma lan_moves: "\<exists>es d'. UpdateCamera lan_node ''c1'' lan_change demo_db = (Inr es, d') \<and>
  tget (c_network d') ''c1'' = Some (network_of NetMacvlan IPStatic lan_identity) \<and>
  c_protocols d' = c_protocols demo_db \<and> c_profiles d' = c_profiles demo_db \<and>
  map_option (\<lambda>c. (cm_ProfileID c, cm_ProfileVersion c)) (tget (c_cameras d') ''c1'') =
    map_option (\<lambda>c. (cm_ProfileID c, cm_ProfileVersion c)) (tget (c_cameras demo_db) ''c1'')"
proof -
  from demo_loads obtain b where b: "load ''c1'' demo_db = Inr b" by blast
  have k: "kept_mac lan_input b = lan_input" by (simp add: kept_mac_def lan_input_def)
  have ne: "hw_str (DeriveMAC (nd_sha demo_node) ''c1'' []) \<noteq> ''02:11:22:33:44:55''" by code_simp
  have ne': "ip4_str 0xC0A80132 \<noteq> []" by (simp add: lan_strings)
  have u: "update_network lan_node ''c1'' lan_change b demo_db = Inr (Some lan_identity)"
    by (simp add: update_network_def lan_change_def k lan_resolved checkUniqueNetwork_def CameraIDByIP_def CameraIDByMAC_def demo_state
        network_of_def demo_identity_def lan_identity_def ne ne' ne' [symmetric])
  have "\<exists>d'. update_rows lan_node ''c1'' lan_change (cm_Name (b_cam b)) (cm_Autostart (b_cam b)) (cm_Tags (b_cam b)) (Some lan_identity) demo_db = Inr d' \<and>
      tget (c_network d') ''c1'' = Some (network_of NetMacvlan IPStatic lan_identity) \<and>
      c_protocols d' = c_protocols demo_db \<and> c_profiles d' = c_profiles demo_db \<and>
      map_option (\<lambda>c. (cm_ProfileID c, cm_ProfileVersion c)) (tget (c_cameras d') ''c1'') =
        map_option (\<lambda>c. (cm_ProfileID c, cm_ProfileVersion c)) (tget (c_cameras demo_db) ''c1'')"
    using load_done(1) [OF b]
    by (simp add: update_rows_def then_do_def skip_def lan_change_def UpdateCameraMeta_def demo_state name_taken_def
        UpdateCameraNetwork_def network_change_def network_of_def mac_taken_def ip_taken_def lan_identity_def)
  then obtain d' where d': "update_rows lan_node ''c1'' lan_change (cm_Name (b_cam b)) (cm_Autostart (b_cam b)) (cm_Tags (b_cam b)) (Some lan_identity) demo_db = Inr d'"
    "tget (c_network d') ''c1'' = Some (network_of NetMacvlan IPStatic lan_identity) \<and>
      c_protocols d' = c_protocols demo_db \<and> c_profiles d' = c_profiles demo_db \<and>
      map_option (\<lambda>c. (cm_ProfileID c, cm_ProfileVersion c)) (tget (c_cameras d') ''c1'') =
        map_option (\<lambda>c. (cm_ProfileID c, cm_ProfileVersion c)) (tget (c_cameras demo_db) ''c1'')" by blast
  have s: "uc_Name lan_change = None" "uc_Autostart lan_change = None" "uc_Tags lan_change = None" "uc_TargetIDs lan_change = None"
    by (simp_all add: lan_change_def)
  have "\<exists>es. UpdateCamera lan_node ''c1'' lan_change demo_db = (Inr es, d')"
    unfolding UpdateCamera_def and_then_def [of "loadBundle i" for i] loadBundle_def b
    by (simp add: s and_then_def ask_def attempt_def check_def update_name_def target_missing_def u commit_def Tx_def d'(1) give_def)
  with d'(2) show ?thesis by blast
qed

theorem addresses_usable_witness:
  "\<exists>(d :: cam_db) r. tget (c_network d) ''c1'' = Some r \<and> cn_Ip r = ''192.168.1.50'' \<and> cn_Gateway r = ''192.168.1.1'' \<and>
     (\<exists>a p. parse_ip4 (cn_Ip r) = Some a \<and> host_of a p a)"
proof -
  from lan_moves obtain es d' where c: "UpdateCamera lan_node ''c1'' lan_change demo_db = (Inr es, d')"
    "tget (c_network d') ''c1'' = Some (network_of NetMacvlan IPStatic lan_identity)" by blast
  from step_update [OF c(1)] demo_reached have r: "reach (service_step (\<lambda>n. True)) new_db d'" by (blast intro: reach_step)
  have t: "cn_Ip (network_of NetMacvlan IPStatic lan_identity) = ''192.168.1.50''" "cn_Gateway (network_of NetMacvlan IPStatic lan_identity) = ''192.168.1.1''"
    by (simp_all add: network_of_def lan_identity_def lan_strings)
  then have "cn_Ip (network_of NetMacvlan IPStatic lan_identity) \<noteq> []" by simp
  from addresses_usable [OF r c(2) this] obtain a p where "parse_ip4 (cn_Ip (network_of NetMacvlan IPStatic lan_identity)) = Some a" "host_of a p a"
    by (elim exE conjE) (rule that)
  then have "\<exists>a p. parse_ip4 (cn_Ip (network_of NetMacvlan IPStatic lan_identity)) = Some a \<and> host_of a p a" by blast
  with c(2) t show ?thesis by (intro exI [of _ d'] exI [of _ "network_of NetMacvlan IPStatic lan_identity"]) simp
qed

section \<open>Passwords\<close>

lemma opens_all:
  "(\<And>u. u \<in> set us \<Longrightarrow> \<exists>pw. Open n (ac_PasswordEnc u) (account_ctx i (ac_Username u)) = Inr pw) \<Longrightarrow>
    \<exists>xs. open_accounts n i us = Inr xs \<and> map ui_Username xs = map ac_Username us \<and> map ui_Role xs = map ac_Role us"
proof (induction us)
  case (Cons u us)
  then obtain xs where "open_accounts n i us = Inr xs" "map ui_Username xs = map ac_Username us" "map ui_Role xs = map ac_Role us" by auto
  moreover from Cons.prems [of u] obtain pw where "Open n (ac_PasswordEnc u) (account_ctx i (ac_Username u)) = Inr pw" by auto
  ultimately show ?case by simp
qed simp

text \<open>C8. As long as the service runs with the same key, the password of every account of every camera opens:
  whatever run of creations, copies, resets and changes of accounts stored it, a camera can be started or copied
  with all its accounts, in their order and with their roles.\<close>

theorem accounts_readable:
  assumes "reach (service_step (has_box opn)) new_db d" "has_box opn n" "load i d = Inr b"
  shows "\<exists>us. open_accounts n i (b_users b) = Inr us \<and> map ui_Username us = map ac_Username (b_users b) \<and>
    map ui_Role us = map ac_Role (b_users b)"
proof (rule opens_all)
  fix u assume "u \<in> set (b_users b)"
  then have u: "u \<in> snd ` set (c_users d)" "ac_CameraID u = i"
    by (auto simp: load_done(6) [OF assms(3)] ListCameraUsers_def)
  have "accounts_open opn d" using boxed.inv_reachable assms(1) by blast
  with u(1) have "account_opens opn u" by (auto simp: accounts_open_def)
  with assms(2) u(2) show "\<exists>pw. Open n (ac_PasswordEnc u) (account_ctx i (ac_Username u)) = Inr pw"
    by (auto simp: account_opens_def has_box_def)
qed

theorem accounts_readable_witness:
  "\<exists>b us. load ''c1'' demo_db = Inr b \<and> open_accounts demo_node ''c1'' (b_users b) = Inr us \<and> map ui_Username us = [''admin'']"
proof -
  have h: "has_box (nd_aead_open demo_node) demo_node" using demo_aead by (simp add: has_box_def)
  from demo_source obtain b where b: "load ''c1'' demo_db = Inr b"
    "b_users b = [account_of demo_node (demo_fresh ''c1'') ''c1'' 0 \<lparr>ui_Username = ''admin'', ui_Password = ''pw'', ui_Role = ''admin''\<rparr>]" by blast
  from accounts_readable [OF demo_reached_on [of "has_box (nd_aead_open demo_node)", OF h] h b(1)] obtain us where
    "open_accounts demo_node ''c1'' (b_users b) = Inr us" "map ui_Username us = map ac_Username (b_users b)" by blast
  moreover have "map ac_Username (b_users b) = [''admin'']" by (simp add: b(2) account_of_def)
  ultimately show ?thesis using b(1) by metis
qed

end
