(* ===== verification/Event_Delivery.thy ===== *)
theory Event_Delivery
  imports Go_Time Go_Float
begin

text \<open>
  Events of a camera process, \<^verbatim>\<open>backend/internal/camera/events.go\<close> and \<^verbatim>\<open>runtime.go\<close>, and their delivery over
  HTTP, \<^verbatim>\<open>backend/internal/engines/httppush/engine.go\<close>. The clock, fresh identifiers, the connection to the
  service, rendered bodies and the answers of the targets are inputs.
\<close>

section \<open>Events and the specification of a type\<close>

record rule =
  ru_ID :: string
  ru_Name :: string
  ru_Type :: string

record detected =
  ob_Class :: string
  ob_Color :: string
  ob_Confidence :: float64

text \<open>Plate, speed, media and custom data are passed on as they are: \<open>ev_Rest\<close> is their JSON.\<close>

record camera_event =
  ev_ID :: string
  ev_Type :: string
  ev_At :: instant
  ev_Trigger :: string
  ev_Rule :: "rule option"
  ev_Direction :: string
  ev_Object :: "detected option"
  ev_Rest :: string

record policy =
  po_Timeout :: duration
  po_Retries :: int
  po_Backoff :: duration

record event_spec =
  es_VendorName :: string
  es_MinInterval :: duration
  es_Transports :: "(string, string) table"
  es_Timeout :: duration
  es_Retries :: "int option"
  es_Backoff :: duration

record push_target =
  pt_ID :: string
  pt_Type :: string
  pt_URL :: string
  pt_Method :: string
  pt_Headers :: "(string, string) table"
  pt_Username :: string
  pt_Password :: string

section \<open>The event bus of a camera\<close>

record event_bus =
  eb_subs :: "string list"
  eb_last :: "(string, instant) table"
  eb_targets :: "(string list \<times> push_target) list"

definition new_bus :: event_bus where
  "new_bus = \<lparr>eb_subs = [], eb_last = [], eb_targets = []\<rparr>"

definition transportTargets :: "(string, string) table" where
  "transportTargets = [(''http_push'', ''http''), (''mqtt'', ''mqtt''), (''ftp'', ''ftp'')]"

text \<open>A transport that is not in the map reads as the empty type.\<close>

definition target_type :: "string \<Rightarrow> string" where
  "target_type transport = (case tget transportTargets transport of Some t \<Rightarrow> t | None \<Rightarrow> [])"

definition wantsType :: "string list \<Rightarrow> string \<Rightarrow> bool" where
  "wantsType types t = (types = [] \<or> contains types t)"

definition policy_of :: "event_spec \<Rightarrow> policy" where
  "policy_of spec =
    \<lparr>po_Timeout = (if 0 < es_Timeout spec then es_Timeout spec else 5000 * milli),
     po_Retries = (case es_Retries spec of Some r \<Rightarrow> r | None \<Rightarrow> 0),
     po_Backoff = (if 0 < es_Backoff spec then es_Backoff spec else 1000 * milli)\<rparr>"

record dispatched =
  dp_Event :: camera_event
  dp_VendorName :: string
  dp_Transport :: string
  dp_Policy :: policy
  dp_Targets :: "push_target list"

definition matched_targets :: "string \<Rightarrow> string \<Rightarrow> event_bus \<Rightarrow> push_target list" where
  "matched_targets transport typ b =
    map snd (filter (\<lambda>(types, t). pt_Type t = target_type transport \<and> wantsType types typ) (eb_targets b))"

definition dispatches :: "event_spec \<Rightarrow> camera_event \<Rightarrow> event_bus \<Rightarrow> dispatched list" where
  "dispatches spec e b =
    concat (map (\<lambda>(transport, raw).
      let ts = matched_targets transport (ev_Type e) b in
      if \<not> contains (eb_subs b) transport \<or> ts = [] then []
      else [\<lparr>dp_Event = e, dp_VendorName = (if es_VendorName spec = [] then ev_Type e else es_VendorName spec),
             dp_Transport = raw, dp_Policy = policy_of spec, dp_Targets = ts\<rparr>]) (es_Transports spec))"

datatype emit_error = UndefinedType string | TooSoon string duration | NotNotified

text \<open>\<open>fresh\<close> is a new ULID; \<open>notified\<close> says whether the message to the service was written.\<close>

definition Emit ::
  "(string, event_spec) table \<Rightarrow> instant \<Rightarrow> string \<Rightarrow> bool \<Rightarrow> camera_event \<Rightarrow> event_bus \<Rightarrow> event_bus \<times> (emit_error, camera_event \<times> dispatched list) result" where
  "Emit specs now fresh notified e b =
    (case tget specs (ev_Type e) of
       None \<Rightarrow> (b, Inl (UndefinedType (ev_Type e)))
     | Some spec \<Rightarrow>
         if 0 < es_MinInterval spec \<and> (case tget (eb_last b) (ev_Type e) of None \<Rightarrow> False | Some l \<Rightarrow> now - l < es_MinInterval spec)
         then (b, Inl (TooSoon (ev_Type e) (es_MinInterval spec)))
         else
           (let b = b\<lparr>eb_last := tput (ev_Type e) now (eb_last b)\<rparr>;
                e = (if ev_ID e = [] then e\<lparr>ev_ID := fresh\<rparr> else e);
                e = (if ev_At e = zero_time then e\<lparr>ev_At := now\<rparr> else e) in
            if \<not> notified then (b, Inl NotNotified) else (b, Inr (e, dispatches spec e b))))"

definition Subscribe :: "string \<Rightarrow> event_bus \<Rightarrow> event_bus" where
  "Subscribe transport b = b\<lparr>eb_subs := (if contains (eb_subs b) transport then eb_subs b else eb_subs b @ [transport])\<rparr>"

definition Unsubscribe :: "string \<Rightarrow> event_bus \<Rightarrow> event_bus" where
  "Unsubscribe transport b = b\<lparr>eb_subs := removeAll transport (eb_subs b)\<rparr>"

definition setTargets :: "(string list \<times> push_target) list \<Rightarrow> event_bus \<Rightarrow> event_bus" where
  "setTargets ts b = b\<lparr>eb_targets := ts\<rparr>"

section \<open>A manual trigger\<close>

record trigger_msg =
  tg_Type :: string
  tg_Direction :: string
  tg_Rule :: "rule option"
  tg_Object :: "detected option"
  tg_Rest :: string

definition default_rule :: "string \<Rightarrow> rule option" where
  "default_rule typ =
    (if typ = ''line_crossing'' then Some \<lparr>ru_ID = ''1'', ru_Name = ''Line 1'', ru_Type = ''line''\<rparr>
     else if contains [''region_entrance'', ''region_exit'', ''loitering'', ''intrusion''] typ
     then Some \<lparr>ru_ID = ''1'', ru_Name = ''Region 1'', ru_Type = ''region''\<rparr>
     else None)"

definition trigger_event :: "trigger_msg \<Rightarrow> camera_event" where
  "trigger_event tr =
    (let ru = (case tg_Rule tr of Some r \<Rightarrow> Some r | None \<Rightarrow> default_rule (tg_Type tr)) in
     \<lparr>ev_ID = [], ev_Type = tg_Type tr, ev_At = zero_time, ev_Trigger = ''manual'', ev_Rule = ru,
      ev_Direction = (if tg_Type tr = ''line_crossing'' \<and> tg_Direction tr = [] then ''A->B'' else tg_Direction tr),
      ev_Object = (if tg_Object tr = None \<and> ru \<noteq> None then Some \<lparr>ob_Class = ''car'', ob_Color = [], ob_Confidence = 0.92\<rparr> else tg_Object tr),
      ev_Rest = tg_Rest tr\<rparr>)"

section \<open>Delivery over HTTP\<close>

datatype delivery_status = DeliveryOK | DeliveryRetry | DeliveryFailed | DeliveryOther string

record delivery_report =
  dr_EventID :: string
  dr_TargetID :: string
  dr_Attempt :: int
  dr_At :: instant
  dr_Status :: delivery_status
  dr_HTTPStatus :: int
  dr_LatencyMS :: int
  dr_Error :: string

record transport_config =
  tc_Method :: string
  tc_ContentType :: string
  tc_Headers :: "(string, string) table"

record push_request =
  pr_Method :: string
  pr_URL :: string
  pr_Body :: "string option"
  pr_Headers :: "(string, string) table"
  pr_Auth :: "(string \<times> string) option"

text \<open>
  The request of an attempt. \<open>canon\<close> is the form of header names that \<^verbatim>\<open>http.Header\<close> uses. Basic
  credentials replace an \<^verbatim>\<open>Authorization\<close> header.
\<close>

definition set_headers :: "(string \<Rightarrow> string) \<Rightarrow> (string, string) table \<Rightarrow> (string, string) table \<Rightarrow> (string, string) table" where
  "set_headers canon hs t = fold (\<lambda>(k, v). tput (canon k) v) hs t"

definition send_request :: "(string \<Rightarrow> string) \<Rightarrow> string \<Rightarrow> transport_config \<Rightarrow> push_target \<Rightarrow> string \<Rightarrow> push_request" where
  "send_request canon agent tc t body =
    (let meth = (if pt_Method t \<noteq> [] then pt_Method t else if tc_Method tc \<noteq> [] then tc_Method tc else ''POST'');
         h0 = (if tc_ContentType tc \<noteq> [] \<and> meth \<noteq> ''GET'' then [(canon ''Content-Type'', tc_ContentType tc)] else []);
         h1 = set_headers canon (pt_Headers t) (set_headers canon (tc_Headers tc) (tput (canon ''User-Agent'') agent h0)) in
     \<lparr>pr_Method = meth, pr_URL = pt_URL t, pr_Body = (if meth \<noteq> ''GET'' then Some body else None),
      pr_Headers = (if pt_Username t \<noteq> [] then tdel (canon ''Authorization'') h1 else h1),
      pr_Auth = (if pt_Username t \<noteq> [] then Some (pt_Username t, pt_Password t) else None)\<rparr>)"

text \<open>
  What happens around one attempt: whether a slot was got before the engine stopped, when the request
  started, how long it took and what came back, and whether the engine stopped during the wait after it.
\<close>

record attempt_run =
  ar_Slot :: bool
  ar_Start :: instant
  ar_LatencyMS :: int
  ar_Result :: "(string, int) result"
  ar_Stopped :: bool

definition accepted :: "attempt_run \<Rightarrow> bool" where
  "accepted a = (case ar_Result a of Inl e \<Rightarrow> False | Inr st \<Rightarrow> 200 \<le> st \<and> st < 300)"

definition attempt_report :: "string \<Rightarrow> string \<Rightarrow> nat \<Rightarrow> bool \<Rightarrow> attempt_run \<Rightarrow> delivery_report" where
  "attempt_report ev tg k again a =
    \<lparr>dr_EventID = ev, dr_TargetID = tg, dr_Attempt = int k, dr_At = ar_Start a,
     dr_Status = (if accepted a then DeliveryOK else if again then DeliveryRetry else DeliveryFailed),
     dr_HTTPStatus = (case ar_Result a of Inl e \<Rightarrow> 0 | Inr st \<Rightarrow> st), dr_LatencyMS = ar_LatencyMS a,
     dr_Error = (if accepted a then [] else case ar_Result a of Inl e \<Rightarrow> e | Inr st \<Rightarrow> ''target answered '' @ itoa st)\<rparr>"

fun deliver_loop :: "(nat \<Rightarrow> attempt_run) \<Rightarrow> string \<Rightarrow> string \<Rightarrow> nat \<Rightarrow> nat \<Rightarrow> delivery_report list" where
  "deliver_loop run ev tg k 0 = []"
| "deliver_loop run ev tg k (Suc left) =
    (if \<not> ar_Slot (run k) then []
     else attempt_report ev tg k (0 < left) (run k) #
       (if accepted (run k) \<or> left = 0 \<or> ar_Stopped (run k) then [] else deliver_loop run ev tg (k + 1) left))"

definition deliver :: "(nat \<Rightarrow> attempt_run) \<Rightarrow> policy \<Rightarrow> string \<Rightarrow> string \<Rightarrow> delivery_report list" where
  "deliver run p ev tg = deliver_loop run ev tg 1 (nat (po_Retries p + 1))"

text \<open>
  What a dispatch reports, target by target; the targets are served in parallel, so the reports of
  different targets mix in any order. \<open>body\<close> is the rendered template or its error.
\<close>

definition dispatch_reports ::
  "(string, string) result \<Rightarrow> (string \<Rightarrow> nat \<Rightarrow> attempt_run) \<Rightarrow> instant \<Rightarrow> dispatched \<Rightarrow> delivery_report list list" where
  "dispatch_reports body run now d =
    (case body of
       Inl e \<Rightarrow> map (\<lambda>t. [\<lparr>dr_EventID = ev_ID (dp_Event d), dr_TargetID = pt_ID t, dr_Attempt = 1, dr_At = now,
           dr_Status = DeliveryFailed, dr_HTTPStatus = 0, dr_LatencyMS = 0, dr_Error = ''template: '' @ e\<rparr>]) (dp_Targets d)
     | Inr x \<Rightarrow> map (\<lambda>t. deliver (run (pt_ID t)) (dp_Policy d) (ev_ID (dp_Event d)) (pt_ID t))
           (filter (\<lambda>t. pt_Type t = ''http'') (dp_Targets d)))"

section \<open>Every delivery is tried a bounded number of times and ends with a verdict\<close>

lemma deliver_loop_length: "length (deliver_loop run ev tg k n) \<le> n"
  by (induction n arbitrary: k) (auto simp: le_SucI)

lemma deliver_loop_nth:
  "i < length (deliver_loop run ev tg k n) \<Longrightarrow> deliver_loop run ev tg k n ! i = attempt_report ev tg (k + i) (Suc i < n) (run (k + i))"
  by (induction n arbitrary: k i) (auto simp: nth_Cons split: if_splits nat.splits)

lemma deliver_loop_goes_on:
  "Suc i < length (deliver_loop run ev tg k n) \<Longrightarrow> \<not> accepted (run (k + i)) \<and> \<not> ar_Stopped (run (k + i))"
proof (induction n arbitrary: k i)
  case (Suc n)
  show ?case
  proof (cases i)
    case 0
    with Suc.prems show ?thesis by (auto split: if_splits)
  next
    case (Suc j)
    with Suc.prems have "Suc j < length (deliver_loop run ev tg (k + 1) n)" by (auto split: if_splits)
    from Suc.IH [OF this] Suc show ?thesis by simp
  qed
qed simp

text \<open>The last attempt that was made, when nothing stopped the engine.\<close>

lemma deliver_loop_ends:
  assumes "\<And>j. ar_Slot (run j) \<and> \<not> ar_Stopped (run j)" "0 < n"
  shows "\<exists>m. length (deliver_loop run ev tg k n) = Suc m \<and> (accepted (run (k + m)) \<or> Suc m = n)"
  using assms(2)
proof (induction n arbitrary: k)
  case (Suc n)
  show ?case
  proof (cases "accepted (run k) \<or> n = 0")
    case True
    with assms(1) show ?thesis by (intro exI [of _ 0]) auto
  next
    case False
    with Suc.IH [of "k + 1"] obtain m where "length (deliver_loop run ev tg (k + 1) n) = Suc m" "accepted (run (k + 1 + m)) \<or> Suc m = n" by blast
    with False assms(1) show ?thesis by (intro exI [of _ "Suc m"]) auto
  qed
qed simp

lemma deliver_facts:
  fixes p run ev tg
  defines "rs \<equiv> deliver run p ev tg"
  shows "int (length rs) \<le> max 0 (po_Retries p + 1) \<and> map dr_Attempt rs = map (\<lambda>i. int i + 1) [0..<length rs] \<and>
    (\<forall>r\<in>set rs. dr_EventID r = ev \<and> dr_TargetID r = tg) \<and>
    (\<forall>r\<in>set (butlast rs). dr_Status r = DeliveryRetry \<and> \<not> accepted (run (nat (dr_Attempt r)))) \<and>
    ((\<forall>j. ar_Slot (run j) \<and> \<not> ar_Stopped (run j)) \<and> 0 \<le> po_Retries p \<longrightarrow>
       rs \<noteq> [] \<and> (if \<exists>i<nat (po_Retries p + 1). accepted (run (Suc i)) then dr_Status (last rs) = DeliveryOK
          else dr_Status (last rs) = DeliveryFailed \<and> int (length rs) = po_Retries p + 1))"
proof -
  define n where "n = nat (po_Retries p + 1)"
  have rs: "rs = deliver_loop run ev tg 1 n" by (simp add: rs_def deliver_def n_def)
  have len: "length rs \<le> n" unfolding rs by (rule deliver_loop_length)
  have nth: "rs ! i = attempt_report ev tg (Suc i) (Suc i < n) (run (Suc i))" if "i < length rs" for i
    using deliver_loop_nth [of i run ev tg 1 n] that by (simp add: rs)
  have on: "\<not> accepted (run (Suc i))" if "Suc i < length rs" for i
    using deliver_loop_goes_on [of i run ev tg 1 n] that by (simp add: rs)
  have 1: "int (length rs) \<le> max 0 (po_Retries p + 1)" using len by (simp add: n_def)
  have 2: "map dr_Attempt rs = map (\<lambda>i. int i + 1) [0..<length rs]"
    by (rule nth_equalityI) (simp_all add: nth attempt_report_def)
  have 3: "\<forall>r\<in>set rs. dr_EventID r = ev \<and> dr_TargetID r = tg"
    by (auto simp: in_set_conv_nth nth attempt_report_def)
  have 4: "\<forall>r\<in>set (butlast rs). dr_Status r = DeliveryRetry \<and> \<not> accepted (run (nat (dr_Attempt r)))"
  proof
    fix r assume "r \<in> set (butlast rs)"
    then obtain i where "i < length (butlast rs)" "r = butlast rs ! i" by (auto simp: in_set_conv_nth)
    then have i: "Suc i < length rs" "r = rs ! i" by (simp_all add: nth_butlast)
    moreover have "nat (1 + int i) = Suc i" by simp
    ultimately show "dr_Status r = DeliveryRetry \<and> \<not> accepted (run (nat (dr_Attempt r)))"
      using on [of i] len by (simp add: nth attempt_report_def)
  qed
  have 5: "rs \<noteq> [] \<and> (if \<exists>i<n. accepted (run (Suc i)) then dr_Status (last rs) = DeliveryOK
      else dr_Status (last rs) = DeliveryFailed \<and> int (length rs) = po_Retries p + 1)"
    if s: "\<forall>j. ar_Slot (run j) \<and> \<not> ar_Stopped (run j)" and p: "0 \<le> po_Retries p"
  proof -
    from deliver_loop_ends [of run n ev tg 1] s p obtain m where m: "length rs = Suc m" "accepted (run (Suc m)) \<or> Suc m = n"
      by (auto simp: rs n_def)
    then have "rs \<noteq> []" by auto
    with m have l: "last rs = rs ! m" "rs \<noteq> []" by (simp_all add: last_conv_nth)
    have "accepted (run (Suc m))" if "accepted (run (Suc i))" "i < n" for i
    proof (cases "i < m")
      case True
      with on [of i] m(1) that show ?thesis by simp
    next
      case False
      with m that show ?thesis by (cases "i = m") auto
    qed
    then have v: "accepted (run (Suc m)) \<longleftrightarrow> (\<exists>i<n. accepted (run (Suc i)))"
      using m(1) len by (metis Suc_le_eq)
    show ?thesis
      using m len p unfolding v [symmetric] l(1) by (auto simp: l(2) nth attempt_report_def n_def)
  qed
  from 1 2 3 4 5 show ?thesis unfolding n_def by blast
qed

text \<open>C27. The reports of a delivery are numbered from one and are at most one more than the retries of the
  policy; every report but the last is a retry after a refused attempt, and if nothing stops the engine the
  last one says delivered exactly when the target accepted that attempt, and given up only when the retries
  are used up.\<close>

theorem deliver_reports:
  fixes p run ev tg
  defines "rs \<equiv> deliver run p ev tg"
  shows "int (length rs) \<le> max 0 (po_Retries p + 1) \<and> map dr_Attempt rs = map (\<lambda>i. int i + 1) [0..<length rs] \<and>
    (\<forall>r\<in>set rs. dr_EventID r = ev \<and> dr_TargetID r = tg) \<and>
    (\<forall>r\<in>set (butlast rs). dr_Status r = DeliveryRetry \<and> \<not> accepted (run (nat (dr_Attempt r)))) \<and>
    ((\<forall>j. ar_Slot (run j) \<and> \<not> ar_Stopped (run j)) \<and> 0 \<le> po_Retries p \<longrightarrow>
       rs \<noteq> [] \<and> (if \<exists>i<nat (po_Retries p + 1). accepted (run (Suc i)) then dr_Status (last rs) = DeliveryOK
          else dr_Status (last rs) = DeliveryFailed \<and> int (length rs) = po_Retries p + 1))"
  unfolding rs_def by (rule deliver_facts)

definition refused_then_accepted :: "nat \<Rightarrow> attempt_run" where
  "refused_then_accepted k = \<lparr>ar_Slot = True, ar_Start = int k, ar_LatencyMS = 3, ar_Result = Inr (if k < 3 then 503 else 204), ar_Stopped = False\<rparr>"

theorem deliver_reports_witness:
  "map dr_Status (deliver refused_then_accepted \<lparr>po_Timeout = 1, po_Retries = 3, po_Backoff = 1\<rparr> ''e'' ''t'') =
     [DeliveryRetry, DeliveryRetry, DeliveryOK] \<and>
   dr_Status (last (deliver refused_then_accepted \<lparr>po_Timeout = 1, po_Retries = 3, po_Backoff = 1\<rparr> ''e'' ''t'')) = DeliveryOK"
proof -
  let ?p = "\<lparr>po_Timeout = 1, po_Retries = 3, po_Backoff = 1\<rparr>"
  have a: "\<forall>j. ar_Slot (refused_then_accepted j) \<and> \<not> ar_Stopped (refused_then_accepted j)" by (simp add: refused_then_accepted_def)
  have "\<exists>i<nat (po_Retries ?p + 1). accepted (refused_then_accepted (Suc i))"
    by (intro exI [of _ 2]) (simp add: accepted_def refused_then_accepted_def)
  with a deliver_reports [of refused_then_accepted ?p "''e''" "''t''"]
  have "dr_Status (last (deliver refused_then_accepted ?p ''e'' ''t'')) = DeliveryOK" by auto
  moreover have "map dr_Status (deliver refused_then_accepted ?p ''e'' ''t'') = [DeliveryRetry, DeliveryRetry, DeliveryOK]"
    by (simp add: deliver_def attempt_report_def accepted_def refused_then_accepted_def eval_nat_numeral)
  ultimately show ?thesis by blast
qed

section \<open>The profile's interval between events\<close>

text \<open>What can happen to the bus; \<open>Some (typ, now)\<close> is an event that was let through.\<close>

inductive bus_step :: "(string, event_spec) table \<Rightarrow> event_bus \<Rightarrow> (string \<times> instant) option \<Rightarrow> event_bus \<Rightarrow> bool" for specs where
  emitted: "Emit specs now fresh True e b = (b', Inr out) \<Longrightarrow> bus_step specs b (Some (ev_Type e, now)) b'"
| not_emitted: "Emit specs now fresh notified e b = (b', Inl err) \<Longrightarrow> bus_step specs b None b'"
| subscribed: "bus_step specs b None (Subscribe transport b)"
| unsubscribed: "bus_step specs b None (Unsubscribe transport b)"
| targets_set: "bus_step specs b None (setTargets ts b)"

inductive bus_run :: "(string, event_spec) table \<Rightarrow> event_bus \<Rightarrow> (string \<times> instant) list \<Rightarrow> event_bus \<Rightarrow> bool" for specs b where
  start: "bus_run specs b [] b"
| event: "bus_run specs b hist b1 \<Longrightarrow> bus_step specs b1 (Some x) b2 \<Longrightarrow> bus_run specs b (hist @ [x]) b2"
| quiet: "bus_run specs b hist b1 \<Longrightarrow> bus_step specs b1 None b2 \<Longrightarrow> bus_run specs b hist b2"

definition spaced :: "duration \<Rightarrow> instant list \<Rightarrow> bool" where
  "spaced gap ts = sorted_wrt (\<lambda>a b. gap \<le> b - a) ts"

definition times_of :: "string \<Rightarrow> (string \<times> instant) list \<Rightarrow> instant list" where
  "times_of typ hist = map snd (filter (\<lambda>(t, now). t = typ) hist)"

lemma times_of_simps [simp]: "times_of typ [] = []"
  "times_of typ (hist @ [(t, now)]) = times_of typ hist @ (if t = typ then [now] else [])"
  by (auto simp: times_of_def)

lemma Emit_last:
  assumes "Emit specs now fresh notified e b = (b', r)"
  shows "(\<exists>spec. tget specs (ev_Type e) = Some spec \<and> eb_last b' = tput (ev_Type e) now (eb_last b) \<and>
      (\<forall>l. 0 < es_MinInterval spec \<and> tget (eb_last b) (ev_Type e) = Some l \<longrightarrow> es_MinInterval spec \<le> now - l)) \<or>
    b' = b \<and> \<not> is_ok r"
  using assms by (auto simp: Emit_def Let_def is_ok_def split: option.splits if_splits)

text \<open>The time of the last event of a type is at least that of every event of the type in the log.\<close>

definition log_ok :: "(string, event_spec) table \<Rightarrow> (string \<times> instant) list \<Rightarrow> event_bus \<Rightarrow> bool" where
  "log_ok specs hist b =
    (\<forall>typ spec. tget specs typ = Some spec \<and> 0 < es_MinInterval spec \<longrightarrow>
       spaced (es_MinInterval spec) (times_of typ hist) \<and>
       (times_of typ hist \<noteq> [] \<longrightarrow> (\<exists>l. tget (eb_last b) typ = Some l \<and> (\<forall>t\<in>set (times_of typ hist). t \<le> l))))"

lemma log_ok_event:
  assumes "log_ok specs hist b" "Emit specs now fresh notified e b = (b', r)"
  shows "log_ok specs hist b' \<and> (is_ok r \<longrightarrow> log_ok specs (hist @ [(ev_Type e, now)]) b')"
  using Emit_last [OF assms(2)]
proof
  assume "\<exists>spec. tget specs (ev_Type e) = Some spec \<and> eb_last b' = tput (ev_Type e) now (eb_last b) \<and>
      (\<forall>l. 0 < es_MinInterval spec \<and> tget (eb_last b) (ev_Type e) = Some l \<longrightarrow> es_MinInterval spec \<le> now - l)"
  then obtain spec where e: "tget specs (ev_Type e) = Some spec" "eb_last b' = tput (ev_Type e) now (eb_last b)"
    "\<And>l. 0 < es_MinInterval spec \<Longrightarrow> tget (eb_last b) (ev_Type e) = Some l \<Longrightarrow> es_MinInterval spec \<le> now - l" by blast
  have gap: "es_MinInterval spec \<le> now - t" if "0 < es_MinInterval spec" "t \<in> set (times_of (ev_Type e) hist)" for t
  proof -
    from assms(1) e(1) that obtain l where "tget (eb_last b) (ev_Type e) = Some l" "t \<le> l"
      unfolding log_ok_def by (metis empty_iff list.set(1))
    with e(3) [OF that(1)] show ?thesis by fastforce
  qed
  have "log_ok specs hist b'"
    using assms(1) e(1) gap unfolding log_ok_def e(2) by (auto simp: spaced_def) (smt (verit) gap)+
  moreover have "log_ok specs (hist @ [(ev_Type e, now)]) b'"
    using assms(1) e(1) gap unfolding log_ok_def e(2) by (auto simp: spaced_def sorted_wrt_append) (smt (verit) gap)+
  ultimately show ?thesis by blast
qed (use assms(1) in auto)

lemma log_ok_step:
  assumes "bus_step specs b x b'" "log_ok specs hist b"
  shows "log_ok specs (case x of None \<Rightarrow> hist | Some y \<Rightarrow> hist @ [y]) b'"
  using assms
proof cases
  case (emitted now fresh e out)
  with log_ok_event [OF assms(2) emitted(2)] show ?thesis by (simp add: is_ok_def)
next
  case (not_emitted now fresh notified e err)
  with log_ok_event [OF assms(2) not_emitted(2)] show ?thesis by simp
qed (use assms(2) in \<open>simp_all add: log_ok_def Subscribe_def Unsubscribe_def setTargets_def\<close>)

lemma log_ok_run: "bus_run specs b hist b' \<Longrightarrow> log_ok specs [] b \<Longrightarrow> log_ok specs hist b'"
  by (induction rule: bus_run.induct) (use log_ok_step in fastforce)+

text \<open>C28. Whatever a camera is asked to emit, however its targets and engines change and its clock moves, the
  events of a type that pass are at least the profile's minimum interval apart, each from every earlier one.\<close>

theorem events_spaced:
  assumes "bus_run specs b hist b'" "tget specs typ = Some spec" "0 < es_MinInterval spec"
  shows "spaced (es_MinInterval spec) (times_of typ hist)"
proof -
  have "log_ok specs [] b" by (simp add: log_ok_def spaced_def)
  from log_ok_run [OF assms(1) this] assms(2,3) show ?thesis by (simp add: log_ok_def)
qed

definition motion_spec :: event_spec where
  "motion_spec = \<lparr>es_VendorName = [], es_MinInterval = 10, es_Transports = [(''http_push'', ''{}'')], es_Timeout = 0, es_Retries = Some 2, es_Backoff = 0\<rparr>"

definition motion :: camera_event where
  "motion = \<lparr>ev_ID = [], ev_Type = ''motion'', ev_At = zero_time, ev_Trigger = ''manual'', ev_Rule = None, ev_Direction = [], ev_Object = None, ev_Rest = []\<rparr>"

theorem events_spaced_witness:
  "\<exists>b. bus_run [(''motion'', motion_spec)] new_bus [(''motion'', 100), (''motion'', 115)] b \<and> spaced 10 (times_of ''motion'' [(''motion'', 100), (''motion'', 115)])"
proof -
  let ?specs = "[(''motion'', motion_spec)]"
  let ?b = "\<lambda>t. new_bus\<lparr>eb_last := [(''motion'', t)]\<rparr>"
  have t: "ev_Type motion = ''motion''" by (simp add: motion_def)
  have "Emit ?specs 100 ''e1'' True motion new_bus = (?b 100, Inr (motion\<lparr>ev_ID := ''e1'', ev_At := 100\<rparr>, []))"
    "Emit ?specs 105 ''e2'' True motion (?b 100) = (?b 100, Inl (TooSoon ''motion'' 10))"
    "Emit ?specs 115 ''e2'' True motion (?b 100) = (?b 115, Inr (motion\<lparr>ev_ID := ''e2'', ev_At := 115\<rparr>, []))"
    by (simp_all add: Emit_def motion_def motion_spec_def new_bus_def Let_def dispatches_def)
  note s = emitted [OF this(1), unfolded t] not_emitted [OF this(2)] emitted [OF this(3), unfolded t]
  from bus_run.event [OF bus_run.quiet [OF bus_run.event [OF bus_run.start s(1)] s(2)] s(3)]
  have r: "bus_run ?specs new_bus [(''motion'', 100), (''motion'', 115)] (?b 115)" by simp
  have "spaced (es_MinInterval motion_spec) (times_of ''motion'' [(''motion'', 100), (''motion'', 115)])"
    by (rule events_spaced [OF r]) (simp_all add: motion_spec_def)
  with r show ?thesis by (auto simp: motion_spec_def)
qed

end
