(* ===== verification/Event_Log.thy ===== *)
theory Event_Log
  imports Event_Delivery Camera_Whole
begin

text \<open>
  The events and deliveries a node keeps, \<^verbatim>\<open>backend/internal/app/events.go\<close>, the queries of
  \<^verbatim>\<open>backend/internal/store/db/events.sql.go\<close> and the targets a camera is sent (\<^verbatim>\<open>supervisor.go\<close>). ULIDs, the JSON
  of an event and the events section of a profile are inputs.
\<close>

section \<open>The tables\<close>

record event_row =
  er_CameraID :: string
  er_Type :: string
  er_At :: int
  er_Data :: string
  er_RuleID :: "string option"
  er_TriggerID :: "string option"
  er_ReceivedAt :: int
  er_Expected :: int

record delivery_row =
  dl_EventID :: string
  dl_TargetID :: string
  dl_Attempt :: int
  dl_At :: int
  dl_Status :: delivery_status
  dl_HTTPStatus :: "int option"
  dl_LatencyMS :: "int option"
  dl_Error :: string

record event_db =
  e_cam :: cam_db
  e_events :: "(string, event_row) table"
  e_deliveries :: "(string, delivery_row) table"

definition InsertEvent :: "string \<Rightarrow> event_row \<Rightarrow> event_db \<Rightarrow> (store_error, event_db) result" where
  "InsertEvent i r d =
    (if tget (e_events d) i \<noteq> None then Inl UniqueViolation
     else if tget (c_cameras (e_cam d)) (er_CameraID r) = None then Inl ForeignKeyViolation
     else Inr (d\<lparr>e_events := tput i r (e_events d)\<rparr>))"

definition InsertDelivery :: "string \<Rightarrow> delivery_row \<Rightarrow> event_db \<Rightarrow> (store_error, event_db) result" where
  "InsertDelivery i r d =
    (if tget (e_deliveries d) i \<noteq> None then Inl UniqueViolation
     else if tget (e_events d) (dl_EventID r) = None then Inl ForeignKeyViolation
     else Inr (d\<lparr>e_deliveries := tput i r (e_deliveries d)\<rparr>))"

text \<open>The event and its camera, joined.\<close>

definition GetEvent_row :: "string \<Rightarrow> event_db \<Rightarrow> (event_row \<times> string) option" where
  "GetEvent_row i d =
    (case tget (e_events d) i of
       None \<Rightarrow> None
     | Some r \<Rightarrow> (case tget (c_cameras (e_cam d)) (er_CameraID r) of None \<Rightarrow> None | Some c \<Rightarrow> Some (r, cm_Name c)))"

definition event_deliveries :: "string \<Rightarrow> event_db \<Rightarrow> delivery_row list" where
  "event_deliveries ev d =
    sort_key dl_TargetID (sort_key dl_Attempt (filter (\<lambda>r. dl_EventID r = ev) (map snd (e_deliveries d))))"

definition DeleteDeliveriesBefore :: "int \<Rightarrow> event_db \<Rightarrow> event_db" where
  "DeleteDeliveriesBefore before d = d\<lparr>e_deliveries := filter (\<lambda>(i, r). \<not> dl_At r < before) (e_deliveries d)\<rparr>"

text \<open>Deliveries go with their event.\<close>

definition DeleteEventsBefore :: "int \<Rightarrow> event_db \<Rightarrow> event_db" where
  "DeleteEventsBefore before d =
    (let gone = (\<lambda>ev. case tget (e_events d) ev of None \<Rightarrow> False | Some r \<Rightarrow> er_ReceivedAt r < before) in
     d\<lparr>e_events := filter (\<lambda>(i, r). \<not> gone i) (e_events d), e_deliveries := filter (\<lambda>(i, r). \<not> gone (dl_EventID r)) (e_deliveries d)\<rparr>)"

section \<open>The targets a camera is sent, and how many deliveries to expect\<close>

definition push_target_of :: "string \<Rightarrow> target_row \<Rightarrow> string \<Rightarrow> push_target" where
  "push_target_of k r pw = \<lparr>pt_ID = k, pt_Type = tr_Type r, pt_URL = tr_URL r, pt_Method = tr_Method r, pt_Headers = tr_Headers r,
     pt_Username = tr_Username r, pt_Password = pw\<rparr>"

fun ipcTargets_loop :: "node \<Rightarrow> (string \<times> link_row \<times> target_row) list \<Rightarrow> (error, (string list \<times> push_target) list) result" where
  "ipcTargets_loop n [] = Inr []"
| "ipcTargets_loop n ((k, l, r) # ts) =
    (if \<not> tr_Enabled r then ipcTargets_loop n ts
     else case (case tr_Secret r of
                  None \<Rightarrow> Inr []
                | Some s \<Rightarrow> if s = [] then Inr [] else Open n s (target_ctx k)) of
       Inl e \<Rightarrow> Inl (OtherError (msgf ''cannot decrypt the secret of target %s'' [AStr (tr_Name r)]))
     | Inr pw \<Rightarrow>
         (case ipcTargets_loop n ts of
            Inl e \<Rightarrow> Inl e
          | Inr out \<Rightarrow> Inr ((ln_EventTypes l, push_target_of k r pw) # out)))"

definition ipcTargets :: "node \<Rightarrow> camera_bundle \<Rightarrow> (error, (string list \<times> push_target) list) result" where
  "ipcTargets n b = ipcTargets_loop n (b_targets b)"

definition transportOf :: "string \<Rightarrow> string" where
  "transportOf t = (if t = ''http'' then ''http_push'' else t)"

definition expected_target :: "(string, event_spec) table \<Rightarrow> string \<Rightarrow> string \<times> link_row \<times> target_row \<Rightarrow> bool" where
  "expected_target specs typ = (\<lambda>(k, l, r). tr_Enabled r \<and>
     (case tget specs typ of None \<Rightarrow> False | Some spec \<Rightarrow> tget (es_Transports spec) (transportOf (tr_Type r)) \<noteq> None) \<and>
     (ln_EventTypes l = [] \<or> contains (ln_EventTypes l) typ))"

definition expectedDeliveries :: "(string, event_spec) table \<Rightarrow> camera_bundle \<Rightarrow> string \<Rightarrow> int" where
  "expectedDeliveries specs b typ =
    (if tget specs typ = None then 0 else int (length (filter (expected_target specs typ) (b_targets b))))"

section \<open>What a camera reports\<close>

record event_env =
  ee_specs :: "document \<Rightarrow> (string, event_spec) table"
  ee_ulid_ms :: "string \<Rightarrow> int option"
  ee_json :: "camera_event \<Rightarrow> string"

definition maxEventBytes :: nat where "maxEventBytes = 65536"
definition maxEventClockSkew :: duration where "maxEventClockSkew = 24 * 3600 * 1000 * milli"

definition truncate_to :: "nat \<Rightarrow> string \<Rightarrow> string" where
  "truncate_to n s = take n s"

definition event_valid :: "event_env \<Rightarrow> instant \<Rightarrow> camera_bundle \<Rightarrow> camera_event \<Rightarrow> bool" where
  "event_valid env now b e =
    (case ee_ulid_ms env (ev_ID e) of
       None \<Rightarrow> False
     | Some ms \<Rightarrow> \<bar>ms * milli - now\<bar> \<le> maxEventClockSkew \<and> tget (ee_specs env (b_doc b)) (ev_Type e) \<noteq> None \<and>
         length (ee_json env e) \<le> maxEventBytes)"

definition event_row_of :: "event_env \<Rightarrow> instant \<Rightarrow> string \<Rightarrow> camera_bundle \<Rightarrow> camera_event \<Rightarrow> event_row" where
  "event_row_of env now cam b e =
    \<lparr>er_CameraID = cam, er_Type = ev_Type e, er_At = unix_milli (ev_At e), er_Data = ee_json env e,
     er_RuleID = NullString (case ev_Rule e of None \<Rightarrow> [] | Some r \<Rightarrow> truncate_to 64 (ru_ID r)),
     er_TriggerID = NullString (truncate_to 64 (ev_Trigger e)), er_ReceivedAt = unix_milli now,
     er_Expected = expectedDeliveries (ee_specs env (b_doc b)) b (ev_Type e)\<rparr>"

text \<open>The second part of the result is the event published to the live updates, if any.\<close>

definition recordEvent :: "event_env \<Rightarrow> instant \<Rightarrow> string \<Rightarrow> camera_event \<Rightarrow> event_db \<Rightarrow> event_db \<times> string option" where
  "recordEvent env now cam e d =
    (case load cam (e_cam d) of
       Inl err \<Rightarrow> (d, None)
     | Inr b \<Rightarrow>
         if \<not> event_valid env now b e then (d, None)
         else case InsertEvent (ev_ID e) (event_row_of env now cam b e) d of
           Inl err \<Rightarrow> (d, None)
         | Inr d' \<Rightarrow> (d', if GetEvent_row (ev_ID e) d' = None then None else Some (ev_ID e)))"

definition delivery_row_of :: "delivery_report \<Rightarrow> delivery_row" where
  "delivery_row_of r =
    \<lparr>dl_EventID = dr_EventID r, dl_TargetID = dr_TargetID r, dl_Attempt = min (max (dr_Attempt r) 1) 1000, dl_At = unix_milli (dr_At r),
     dl_Status = (case dr_Status r of DeliveryOther s \<Rightarrow> DeliveryFailed | s \<Rightarrow> s),
     dl_HTTPStatus = (if 0 < dr_HTTPStatus r \<and> dr_HTTPStatus r < 1000 then Some (dr_HTTPStatus r) else None),
     dl_LatencyMS = Some (max (dr_LatencyMS r) 0), dl_Error = truncate_to 500 (dr_Error r)\<rparr>"

definition recordDelivery :: "string \<Rightarrow> string \<Rightarrow> delivery_report \<Rightarrow> event_db \<Rightarrow> event_db \<times> string option" where
  "recordDelivery fresh cam r d =
    (case GetEvent_row (dr_EventID r) d of
       None \<Rightarrow> (d, None)
     | Some (ev, name) \<Rightarrow>
         if er_CameraID ev \<noteq> cam \<or> \<not> contains (CamerasUsingTarget (dr_TargetID r) (e_cam d)) cam then (d, None)
         else case InsertDelivery fresh (delivery_row_of r) d of
           Inl err \<Rightarrow> (d, None)
         | Inr d' \<Rightarrow> (d', if GetEvent_row (dr_EventID r) d' = None then None else Some (dr_EventID r)))"

section \<open>What the panel shows of the deliveries of an event\<close>

definition latest :: "delivery_row list \<Rightarrow> (string, delivery_row) table" where
  "latest dels =
    foldl (\<lambda>t r. case tget t (dl_TargetID r) of
        None \<Rightarrow> tput (dl_TargetID r) r t
      | Some cur \<Rightarrow> if dl_Attempt cur \<le> dl_Attempt r then tput (dl_TargetID r) r t else t) [] dels"

definition deliveryStatus :: "delivery_row list \<Rightarrow> int \<Rightarrow> string" where
  "deliveryStatus dels expected =
    (if dels = [] then (if expected \<le> 0 then ''none'' else ''pending'')
     else let t = latest dels in
       if list_ex (\<lambda>(k, r). dl_Status r = DeliveryFailed) t then ''failed''
       else if int (length t) < expected then ''pending''
       else if list_ex (\<lambda>(k, r). dl_Status r = DeliveryRetry) t then ''pending'' else ''ok'')"

text \<open>The latency of the last successful attempt of the list, or of its last attempt.\<close>

definition shown_latency :: "delivery_row list \<Rightarrow> int option" where
  "shown_latency dels =
    (let lms = (\<lambda>r. case dl_LatencyMS r of Some l \<Rightarrow> l | None \<Rightarrow> 0) in
     case List.find (\<lambda>r. dl_Status r = DeliveryOK) (rev dels) of
       Some r \<Rightarrow> Some (lms r)
     | None \<Rightarrow> if dels = [] then None else Some (lms (last dels)))"

record event_view =
  vw_ID :: string
  vw_CameraID :: string
  vw_CameraName :: string
  vw_Type :: string
  vw_Deliveries :: "delivery_row list"
  vw_Status :: string
  vw_LatencyMS :: "int option"

definition eventView :: "string \<Rightarrow> event_row \<times> string \<Rightarrow> delivery_row list \<Rightarrow> event_view" where
  "eventView i q dels = (case q of (r, name) \<Rightarrow>
    \<lparr>vw_ID = i, vw_CameraID = er_CameraID r, vw_CameraName = name, vw_Type = er_Type r, vw_Deliveries = dels,
     vw_Status = deliveryStatus dels (er_Expected r), vw_LatencyMS = shown_latency dels\<rparr>)"

definition GetEvent :: "string \<Rightarrow> event_db \<Rightarrow> (error, event_view) result" where
  "GetEvent i d = (case GetEvent_row i d of None \<Rightarrow> Inl ErrNotFound | Some q \<Rightarrow> Inr (eventView i q (event_deliveries i d)))"

section \<open>Listing\<close>

record event_filter =
  ef_CameraID :: string
  ef_Type :: string
  ef_Delivery :: string
  ef_Cursor :: string
  ef_Limit :: int

definition status_text :: "delivery_status \<Rightarrow> string" where
  "status_text s = (case s of DeliveryOK \<Rightarrow> ''ok'' | DeliveryRetry \<Rightarrow> ''retry'' | DeliveryFailed \<Rightarrow> ''failed'' | DeliveryOther x \<Rightarrow> x)"

definition row_wanted :: "event_filter \<Rightarrow> event_db \<Rightarrow> string \<Rightarrow> event_row \<Rightarrow> bool" where
  "row_wanted f d i r =
    ((ef_CameraID f = [] \<or> er_CameraID r = ef_CameraID f) \<and> (ef_Type f = [] \<or> er_Type r = ef_Type f) \<and>
     (ef_Delivery f = [] \<or> (\<exists>(j, q)\<in>set (e_deliveries d). dl_EventID q = i \<and> status_text (dl_Status q) = ef_Delivery f)) \<and>
     GetEvent_row i d \<noteq> None)"

text \<open>The rows of a query, newest identifier first.\<close>

definition wanted_ids :: "event_filter \<Rightarrow> event_db \<Rightarrow> string list" where
  "wanted_ids f d = rev (sort (map fst (filter (\<lambda>(i, r). row_wanted f d i r) (e_events d))))"

definition ListEvents_rows :: "event_filter \<Rightarrow> nat \<Rightarrow> event_db \<Rightarrow> string list" where
  "ListEvents_rows f limit d = take limit (filter (\<lambda>i. ef_Cursor f = [] \<or> i < ef_Cursor f) (wanted_ids f d))"

definition events_per_page :: "event_filter \<Rightarrow> nat" where
  "events_per_page f = (if ef_Limit f \<le> 0 \<or> 200 < ef_Limit f then 50 else nat (ef_Limit f))"

text \<open>A page: the events and the cursor of the next page, empty after the last.\<close>

definition ListEvents :: "event_filter \<Rightarrow> event_db \<Rightarrow> event_view list \<times> string" where
  "ListEvents f d =
    (let k = events_per_page f; rows = ListEvents_rows f (k + 1) d; shown = take k rows;
         view = (\<lambda>i. eventView i (the (GetEvent_row i d)) (event_deliveries i d)) in
     (map view shown, if k < length rows then last shown else []))"

section \<open>A manual trigger from the panel\<close>

definition maxCustomBytes :: nat where "maxCustomBytes = 16384"

definition TriggerEvent_check :: "event_env \<Rightarrow> camera_bundle \<Rightarrow> string \<Rightarrow> string \<Rightarrow> nat \<Rightarrow> bool \<Rightarrow> error option" where
  "TriggerEvent_check env b typ direction custom_bytes running =
    (if \<not> ValidEventType typ then Some (invalid ''type'' (msgf ''%q is not a canonical event type'' [AStr typ]))
     else case tget (ee_specs env (b_doc b)) typ of
       None \<Rightarrow> Some (invalid ''type'' (msgf ''profile %s does not define %s events'' [AStr (cm_ProfileID (b_cam b)), AStr typ]))
     | Some spec \<Rightarrow>
         if es_Transports spec = [] then Some (invalid ''type'' (msgf ''%s has no transport in the profile and cannot be enabled'' [AStr typ]))
         else if direction \<noteq> [] \<and> \<not> ValidDirection direction then Some (invalid ''direction'' (msg ''must be A->B, B->A or none''))
         else if maxCustomBytes < custom_bytes then Some (invalid ''custom'' (msgf ''must be at most %d KiB of JSON'' [AInt 16]))
         else if \<not> running then Some (conflict [] (msgf ''camera %s is not running'' [AStr (cm_Name (b_cam b))]))
         else None)"

end
