(* ===== verification/Event_Claims.thy ===== *)
theory Event_Claims
  imports Event_Log Camera_Protocols
begin

text \<open>From an event of a camera to the status the panel shows for it.\<close>

section \<open>The node expects exactly the deliveries the camera makes\<close>

lemma ipcTargets_ids:
  "ipcTargets_loop n ts = Inr out \<Longrightarrow>
    map (\<lambda>(types, t). (pt_ID t, pt_Type t, types)) out = map (\<lambda>(k, l, r). (k, tr_Type r, ln_EventTypes l)) (filter (\<lambda>(k, l, r). tr_Enabled r) ts)"
proof (induction ts arbitrary: out)
  case (Cons q ts)
  obtain k l r where q: "q = (k, l, r)" by (cases q)
  with Cons show ?case by (auto simp: push_target_of_def split: if_splits sum.splits option.splits)
qed simp

lemma matched_expected:
  assumes "ipcTargets n b = Inr (eb_targets bus)" "\<forall>(k, l, r)\<in>set (b_targets b). tr_Type r = ''http''"
    "tget specs typ = Some spec" "tget (es_Transports spec) ''http_push'' \<noteq> None"
  shows "map pt_ID (matched_targets ''http_push'' typ bus) = map fst (filter (expected_target specs typ) (b_targets b))"
proof -
  have w: "wantsType types typ = (types = [] \<or> contains types typ)" for types by (simp add: wantsType_def)
  have "map pt_ID (matched_targets ''http_push'' typ bus) =
      map fst (filter (\<lambda>(k, ty, types). ty = ''http'' \<and> wantsType types typ) (map (\<lambda>(types, t). (pt_ID t, pt_Type t, types)) (eb_targets bus)))"
    by (simp add: matched_targets_def target_type_def transportTargets_def filter_map comp_def case_prod_unfold)
  also have "map (\<lambda>(types, t). (pt_ID t, pt_Type t, types)) (eb_targets bus) =
      map (\<lambda>(k, l, r). (k, tr_Type r, ln_EventTypes l)) (filter (\<lambda>(k, l, r). tr_Enabled r) (b_targets b))"
    using ipcTargets_ids assms(1) unfolding ipcTargets_def by blast
  also have "map fst (filter (\<lambda>(k, ty, types). ty = ''http'' \<and> wantsType types typ) \<dots>) = map fst (filter (expected_target specs typ) (b_targets b))"
    using assms(2-4) unfolding expected_target_def
    by (induction "b_targets b") (auto simp: w transportOf_def filter_map comp_def case_prod_unfold intro!: arg_cong [where f = "map fst"] filter_cong)
  finally show ?thesis .
qed

lemma dispatches_last: "dispatches spec e (b\<lparr>eb_last := l\<rparr>) = dispatches spec e b"
  by (simp add: dispatches_def matched_targets_def)

lemma Emit_passes:
  assumes "Emit specs now fresh True e b = (b', Inr (e', ds))" "tget specs (ev_Type e) = Some spec"
  shows "ev_Type e' = ev_Type e \<and> ds = dispatches spec e' b"
  using assms by (auto simp: Emit_def Let_def dispatches_last split: if_splits)

lemma dispatched_targets:
  assumes "distinct (map fst trs)" "\<And>transport. transport \<noteq> ''http_push'' \<Longrightarrow> m transport = []" "\<And>raw ts. dp_Targets (g raw ts) = ts"
  shows "concat (map dp_Targets (concat (map (\<lambda>(transport, raw). if \<not> on transport \<or> m transport = [] then [] else [g raw (m transport)]) trs))) =
    (if tget trs ''http_push'' = None \<or> \<not> on ''http_push'' then [] else m ''http_push'')"
  using assms(1)
proof (induction trs)
  case (Cons q trs)
  then have "fst q = ''http_push'' \<Longrightarrow> tget trs ''http_push'' = None" by (auto simp: tget_None_iff tkeys_def)
  with Cons show ?case by (cases q; cases "fst q = ''http_push''") (auto simp: assms(2,3))
qed simp

lemma other_transports:
  assumes "ipcTargets n b = Inr (eb_targets bus)" "\<forall>(k, l, r)\<in>set (b_targets b). tr_Type r = ''http''" "transport \<noteq> ''http_push''"
  shows "matched_targets transport typ bus = []"
proof -
  have "map (\<lambda>(types, t). (pt_ID t, pt_Type t, types)) (eb_targets bus) =
      map (\<lambda>(k, l, r). (k, tr_Type r, ln_EventTypes l)) (filter (\<lambda>(k, l, r). tr_Enabled r) (b_targets b))"
    using ipcTargets_ids assms(1) unfolding ipcTargets_def by blast
  then have "fst ` snd ` set (map (\<lambda>(types, t). (pt_ID t, pt_Type t, types)) (eb_targets bus)) \<subseteq> {''http''}"
    using assms(2) by auto
  then have "\<forall>(types, t)\<in>set (eb_targets bus). pt_Type t = ''http''" by (auto simp: image_image)
  moreover have "target_type transport \<noteq> ''http''"
    using assms(3) by (auto simp: target_type_def transportTargets_def)
  ultimately show ?thesis by (auto simp: matched_targets_def filter_empty_conv)
qed

text \<open>The engines subscribed to the transport \<^verbatim>\<open>http_push\<close>: whether the push engine of the camera is running.\<close>

definition push_running :: "event_bus \<Rightarrow> bool" where
  "push_running bus = contains (eb_subs bus) ''http_push''"

text \<open>C26. When a camera holds the targets the service sent it, all of the one type the service stores, an event it lets
  through goes, while its push engine is running, to exactly the targets the service counts for it: its enabled ones that
  take the type, once each. While that engine is not running it goes to nobody, and the service counts them all the same.\<close>

theorem expected_deliveries_made:
  assumes "ipcTargets n b = Inr (eb_targets bus)" "\<forall>(k, l, r)\<in>set (b_targets b). tr_Type r = ''http''"
    "table_ok (es_Transports spec)" "tget specs (ev_Type e) = Some spec"
    "Emit specs now fresh True e bus = (bus', Inr (e', ds))"
  shows "map pt_ID (concat (map dp_Targets ds)) =
      (if push_running bus then map fst (filter (expected_target specs (ev_Type e)) (b_targets b)) else []) \<and>
    expectedDeliveries specs b (ev_Type e') = int (length (filter (expected_target specs (ev_Type e)) (b_targets b)))"
proof -
  from Emit_passes [OF assms(5,4)] have e: "ev_Type e' = ev_Type e" and ds: "ds = dispatches spec e' bus" by simp_all
  let ?m = "matched_targets ''http_push'' (ev_Type e) bus"
  have m: "(\<lambda>transport. matched_targets transport (ev_Type e') bus) ''http_push'' = ?m" by (simp add: e)
  have t: "concat (map dp_Targets (dispatches spec e' bus)) = (if tget (es_Transports spec) ''http_push'' = None \<or> \<not> push_running bus then [] else ?m)"
    unfolding dispatches_def Let_def m [symmetric] push_running_def
    by (rule dispatched_targets) (use assms(3) other_transports [OF assms(1,2)] in \<open>auto simp: table_ok_def tkeys_def\<close>)
  have "map pt_ID (concat (map dp_Targets ds)) = (if push_running bus then map fst (filter (expected_target specs (ev_Type e)) (b_targets b)) else [])"
  proof (cases "tget (es_Transports spec) ''http_push''")
    case None
    with assms(2,4) have "filter (expected_target specs (ev_Type e)) (b_targets b) = []"
      by (auto simp: expected_target_def transportOf_def filter_empty_conv)
    with None show ?thesis by (simp add: ds t)
  next
    case (Some raw)
    with matched_expected [OF assms(1,2,4)] show ?thesis by (simp add: ds t)
  qed
  then show ?thesis using e by (simp add: expectedDeliveries_def assms(4))
qed

text \<open>The event of a camera whose push engine does not run stays pending when a target takes it.\<close>

lemma push_off_stays_pending:
  assumes "\<not> push_running bus" "es_Transports spec = [(''http_push'', raw)]" "filter (expected_target specs (ev_Type e)) (b_targets b) \<noteq> []"
    "tget specs (ev_Type e) = Some spec"
  shows "dispatches spec e bus = []" "deliveryStatus [] (expectedDeliveries specs b (ev_Type e)) = ''pending''"
  using assms by (simp_all add: dispatches_def push_running_def Let_def deliveryStatus_def expectedDeliveries_def)


section \<open>A camera reports only about itself\<close>

text \<open>What a connected camera can make the service do to the event tables.\<close>

inductive reports :: "string \<Rightarrow> event_db \<Rightarrow> event_db \<Rightarrow> bool" for cam where
  none: "reports cam d d"
| an_event: "reports cam d d1 \<Longrightarrow> recordEvent env now cam e d1 = (d2, p) \<Longrightarrow> reports cam d d2"
| a_delivery: "reports cam d d1 \<Longrightarrow> recordDelivery fresh cam r d1 = (d2, p) \<Longrightarrow> reports cam d d2"

definition own_event :: "string \<Rightarrow> event_db \<Rightarrow> string \<Rightarrow> bool" where
  "own_event cam d i = (case tget (e_events d) i of None \<Rightarrow> False | Some r \<Rightarrow> er_CameraID r = cam)"

lemma event_row_cam: "er_CameraID (event_row_of env now cam b e) = cam"
  by (simp add: event_row_of_def)

lemma recordEvent_cases:
  assumes "recordEvent env now cam e d = (d', p)"
  shows "d' = d \<or> (\<exists>r. er_CameraID r = cam \<and> tget (e_events d) (ev_ID e) = None \<and> d' = d\<lparr>e_events := tput (ev_ID e) r (e_events d)\<rparr>)"
proof (cases "d' = d")
  case False
  with assms obtain b where "tget (e_events d) (ev_ID e) = None" "d' = d\<lparr>e_events := tput (ev_ID e) (event_row_of env now cam b e) (e_events d)\<rparr>"
    by (auto simp: recordEvent_def InsertEvent_def split: sum.splits if_splits)
  then show ?thesis using event_row_cam by blast
qed simp

lemma recordDelivery_cases:
  assumes "recordDelivery fresh cam r d = (d', p)"
  shows "d' = d \<or> (own_event cam d (dr_EventID r) \<and> contains (CamerasUsingTarget (dr_TargetID r) (e_cam d)) cam \<and>
    tget (e_deliveries d) fresh = None \<and> d' = d\<lparr>e_deliveries := tput fresh (delivery_row_of r) (e_deliveries d)\<rparr>)"
  using assms
  by (auto simp: recordDelivery_def GetEvent_row_def InsertDelivery_def own_event_def split: option.splits if_splits prod.splits)

text \<open>C25. Whatever a camera reports, in whatever order, it cannot touch the record of another camera: every event
  that was there stays as it was, a new one is its own, and a new delivery is about an event of its own and a
  target it is linked to; the cameras themselves are not changed.\<close>

theorem reports_confined:
  assumes "reports cam d d'"
  shows "e_cam d' = e_cam d \<and> (\<forall>i r. tget (e_events d) i = Some r \<longrightarrow> tget (e_events d') i = Some r) \<and>
    (\<forall>i r. tget (e_events d') i = Some r \<and> tget (e_events d) i = None \<longrightarrow> er_CameraID r = cam) \<and>
    (\<forall>i q. tget (e_deliveries d) i = Some q \<longrightarrow> tget (e_deliveries d') i = Some q) \<and>
    (\<forall>i q. tget (e_deliveries d') i = Some q \<and> tget (e_deliveries d) i = None \<longrightarrow>
       own_event cam d' (dl_EventID q) \<and> cam \<in> set (CamerasUsingTarget (dl_TargetID q) (e_cam d)))"
  using assms
proof induction
  case (an_event d d1 env now e d2 p)
  from recordEvent_cases [OF an_event(2)] show ?case
  proof
    assume "\<exists>r. er_CameraID r = cam \<and> tget (e_events d1) (ev_ID e) = None \<and> d2 = d1\<lparr>e_events := tput (ev_ID e) r (e_events d1)\<rparr>"
    then obtain r where r: "er_CameraID r = cam" "tget (e_events d1) (ev_ID e) = None" "d2 = d1\<lparr>e_events := tput (ev_ID e) r (e_events d1)\<rparr>" by blast
    then have "own_event cam d1 x \<Longrightarrow> own_event cam d2 x" for x by (auto simp: own_event_def split: if_splits)
    with r an_event(3) show ?thesis by (auto split: if_splits)
  qed (use an_event(3) in simp)
next
  case (a_delivery d d1 fresh r d2 p)
  from recordDelivery_cases [OF a_delivery(2)] show ?case
  proof
    assume r: "own_event cam d1 (dr_EventID r) \<and> contains (CamerasUsingTarget (dr_TargetID r) (e_cam d1)) cam \<and>
      tget (e_deliveries d1) fresh = None \<and> d2 = d1\<lparr>e_deliveries := tput fresh (delivery_row_of r) (e_deliveries d1)\<rparr>"
    then have "own_event cam d2 x = own_event cam d1 x" for x by (simp add: own_event_def)
    with r a_delivery(3) show ?thesis by (auto simp: delivery_row_of_def split: if_splits)
  qed (use a_delivery(3) in simp)
qed auto

section \<open>The status of an event is the outcome of its deliveries\<close>

lemma latest_step:
  "latest (dels @ [r]) = (case tget (latest dels) (dl_TargetID r) of
        None \<Rightarrow> tput (dl_TargetID r) r (latest dels)
      | Some cur \<Rightarrow> if dl_Attempt cur \<le> dl_Attempt r then tput (dl_TargetID r) r (latest dels) else latest dels)"
  by (simp only: latest_def foldl_append foldl.simps)

lemma latest_ok: "table_ok (latest dels)"
  by (induction dels rule: rev_induct) (auto simp: latest_step, auto simp: latest_def split: option.split)

lemma latest_keys: "set (tkeys (latest dels)) = dl_TargetID ` set dels"
  by (induction dels rule: rev_induct)
    (auto simp: latest_step tget_Some_key split: option.split, auto simp: latest_def tkeys_def)

lemma latest_max:
  "tget (latest dels) k = Some r \<Longrightarrow> r \<in> set dels \<and> dl_TargetID r = k \<and> (\<forall>q\<in>set dels. dl_TargetID q = k \<longrightarrow> dl_Attempt q \<le> dl_Attempt r)"
proof (induction dels arbitrary: r rule: rev_induct)
  case (snoc x dels)
  have none: "tget (latest dels) k = None \<Longrightarrow> q \<in> set dels \<Longrightarrow> dl_TargetID q \<noteq> k" for q
    using latest_keys [of dels] by (metis image_eqI tget_None_iff)
  show ?case
  proof (cases "k = dl_TargetID x")
    case False
    then have "tget (latest (dels @ [x])) k = tget (latest dels) k" by (simp add: latest_step split: option.split)
    with snoc False show ?thesis by auto
  next
    case True
    show ?thesis
    proof (cases "tget (latest dels) k")
      case None
      with True snoc.prems have "r = x" by (simp add: latest_step)
      with True None none show ?thesis by auto
    next
      case (Some cur)
      from snoc.IH [OF Some] have c: "cur \<in> set dels" "dl_TargetID cur = k" "\<forall>q\<in>set dels. dl_TargetID q = k \<longrightarrow> dl_Attempt q \<le> dl_Attempt cur" by auto
      from True Some snoc.prems have "r = (if dl_Attempt cur \<le> dl_Attempt x then x else cur)" by (auto simp: latest_step split: if_splits)
      with c True show ?thesis by (auto split: if_splits)
    qed
  qed
qed (simp add: latest_def)

text \<open>The reports of a delivery that have arrived, as rows.\<close>

definition arrived :: "(nat \<Rightarrow> attempt_run) \<Rightarrow> policy \<Rightarrow> string \<Rightarrow> string \<Rightarrow> nat \<Rightarrow> delivery_row list" where
  "arrived run p ev tg seen = map delivery_row_of (take seen (deliver run p ev tg))"

definition finished :: "(nat \<Rightarrow> attempt_run) \<Rightarrow> policy \<Rightarrow> string \<Rightarrow> string \<Rightarrow> nat \<Rightarrow> bool" where
  "finished run p ev tg seen = (length (deliver run p ev tg) \<le> seen)"

definition ever_accepted :: "(nat \<Rightarrow> attempt_run) \<Rightarrow> policy \<Rightarrow> bool" where
  "ever_accepted run p = (\<exists>i<nat (po_Retries p + 1). accepted (run (Suc i)))"

definition runs_on :: "(nat \<Rightarrow> attempt_run) \<Rightarrow> bool" where
  "runs_on run = (\<forall>j. ar_Slot (run j) \<and> \<not> ar_Stopped (run j))"

lemma arrived_last:
  assumes "runs_on run" "0 \<le> po_Retries p" "po_Retries p < 1000" "0 < seen"
  shows "\<exists>r\<in>set (arrived run p ev tg seen). (\<forall>q\<in>set (arrived run p ev tg seen). dl_Attempt q \<le> dl_Attempt r \<and> (dl_Attempt q = dl_Attempt r \<longrightarrow> q = r)) \<and>
    dl_Status r = (if \<not> finished run p ev tg seen then DeliveryRetry else if ever_accepted run p then DeliveryOK else DeliveryFailed)"
proof -
  define rs where "rs = deliver run p ev tg"
  note f = deliver_facts [of run p ev tg, folded rs_def]
  from f assms(1,2) have ne: "rs \<noteq> []" and v: "dr_Status (last rs) = (if ever_accepted run p then DeliveryOK else DeliveryFailed)"
    by (auto simp: runs_on_def ever_accepted_def split: if_splits)
  have len: "length rs \<le> 1000" using f assms(2,3) by simp
  have at: "dr_Attempt (rs ! i) = int i + 1" if "i < length rs" for i
    using f that by (metis (no_types, lifting) add.left_neutral diff_zero length_map length_upt nth_map nth_upt)
  have row: "dl_Attempt (delivery_row_of (rs ! i)) = int i + 1" if "i < length rs" for i
    using at [OF that] that len by (simp add: delivery_row_of_def)
  define m where "m = min seen (length rs) - 1"
  have m: "m < length rs" "m < seen" using assms(4) length_greater_0_conv [THEN iffD2, OF ne] unfolding m_def by linarith+
  have "length (take seen rs) = Suc m" using assms(4) length_greater_0_conv [THEN iffD2, OF ne] unfolding m_def length_take by linarith
  then have "set (take seen rs) = {take seen rs ! i | i. i \<le> m}" by (simp add: set_conv_nth less_Suc_eq_le)
  also have "\<dots> = {rs ! i | i. i \<le> m}" using m(2) by (intro Collect_cong ex_cong1) auto
  finally have arr: "set (arrived run p ev tg seen) = {delivery_row_of (rs ! i) | i. i \<le> m}"
    unfolding arrived_def rs_def [symmetric] by auto
  have st: "dr_Status (rs ! m) = (if \<not> finished run p ev tg seen then DeliveryRetry else if ever_accepted run p then DeliveryOK else DeliveryFailed)"
  proof (cases "finished run p ev tg seen")
    case True
    then have "m = length rs - 1" by (simp add: finished_def m_def rs_def)
    with ne v True show ?thesis by (simp add: last_conv_nth)
  next
    case False
    then have "Suc m < length rs" using assms(4) by (auto simp: finished_def m_def rs_def)
    then have "rs ! m \<in> set (butlast rs)" by (metis One_nat_def Suc_less_eq Suc_pred ne length_butlast length_greater_0_conv nth_butlast nth_mem)
    with f False show ?thesis by auto
  qed
  then have "dl_Status (delivery_row_of (rs ! m)) = (if \<not> finished run p ev tg seen then DeliveryRetry else if ever_accepted run p then DeliveryOK else DeliveryFailed)"
    by (simp add: delivery_row_of_def)
  moreover have "\<forall>q\<in>set (arrived run p ev tg seen). dl_Attempt q \<le> dl_Attempt (delivery_row_of (rs ! m)) \<and>
      (dl_Attempt q = dl_Attempt (delivery_row_of (rs ! m)) \<longrightarrow> q = delivery_row_of (rs ! m))"
    using m(1) by (auto simp: arr row)
  ultimately show ?thesis using arr by blast
qed

lemma arrived_target: "q \<in> set (arrived run p ev tg seen) \<Longrightarrow> dl_TargetID q = tg"
  using deliver_facts [of run p ev tg] by (auto simp: arrived_def delivery_row_of_def dest: in_set_takeD)

lemma status_of_arrived:
  assumes "distinct ts" "0 \<le> po_Retries p" "po_Retries p < 1000" "\<And>t. t \<in> set ts \<Longrightarrow> runs_on (run t)"
    "set dels = (\<Union>t\<in>set ts. set (arrived (run t) p ev t (seen t)))"
  shows "deliveryStatus dels (int (length ts)) =
    (if ts = [] then ''none''
     else if \<exists>t\<in>set ts. finished (run t) p ev t (seen t) \<and> \<not> ever_accepted (run t) p then ''failed''
     else if \<forall>t\<in>set ts. finished (run t) p ev t (seen t) then ''ok'' else ''pending'')"
proof -
  have ne: "deliver (run t) p ev t \<noteq> []" if "t \<in> set ts" for t
    using deliver_facts [of "run t" p ev t] assms(2) assms(4) [OF that] by (auto simp: runs_on_def)
  have seen: "seen t = 0 \<Longrightarrow> t \<in> set ts \<Longrightarrow> \<not> finished (run t) p ev t (seen t)" for t
    using ne by (simp add: finished_def)
  have none: "set (arrived (run t) p ev t (seen t)) = {} \<longleftrightarrow> seen t = 0" if "t \<in> set ts" for t
    using ne [OF that] by (simp add: arrived_def)
  have own: "{q \<in> set dels. dl_TargetID q = t} = set (arrived (run t) p ev t (seen t))" if "t \<in> set ts" for t
    using that assms(5) arrived_target by fastforce
  have keys: "set (tkeys (latest dels)) = {t \<in> set ts. seen t \<noteq> 0}"
  proof -
    have "dl_TargetID ` set (arrived (run t) p ev t k) = (if set (arrived (run t) p ev t k) = {} then {} else {t})" for t k
      using arrived_target [of _ "run t" p ev t k] by (cases "arrived (run t) p ev t k") auto
    then have "dl_TargetID ` set dels = {t \<in> set ts. set (arrived (run t) p ev t (seen t)) \<noteq> {}}"
      by (auto simp: assms(5) image_UN split: if_splits)
    with none show ?thesis by (auto simp: latest_keys)
  qed
  have st: "dl_Status r = (if \<not> finished (run t) p ev t (seen t) then DeliveryRetry else if ever_accepted (run t) p then DeliveryOK else DeliveryFailed)"
    if g: "tget (latest dels) t = Some r" for t r
  proof -
    from tget_Some_key [OF g] keys have t: "t \<in> set ts" "0 < seen t" by auto
    from arrived_last [OF assms(4) [OF t(1)] assms(2,3) t(2)] obtain r' where r': "r' \<in> set (arrived (run t) p ev t (seen t))"
      "\<And>q. q \<in> set (arrived (run t) p ev t (seen t)) \<Longrightarrow> dl_Attempt q \<le> dl_Attempt r' \<and> (dl_Attempt q = dl_Attempt r' \<longrightarrow> q = r')"
      "dl_Status r' = (if \<not> finished (run t) p ev t (seen t) then DeliveryRetry else if ever_accepted (run t) p then DeliveryOK else DeliveryFailed)"
      by blast
    from latest_max [OF g] own [OF t(1)] r'(1) have "r \<in> set (arrived (run t) p ev t (seen t))" "dl_Attempt r' \<le> dl_Attempt r" by auto
    with r'(2) [of r] have "r = r'" by auto
    with r'(3) show ?thesis by simp
  qed
  have mem: "(t, r) \<in> set (latest dels) \<longleftrightarrow> tget (latest dels) t = Some r" for t r
    using tget_iff_mem [OF latest_ok] by blast
  have ex: "list_ex (\<lambda>(k, r). dl_Status r = s) (latest dels) \<longleftrightarrow>
      (\<exists>t\<in>set ts. seen t \<noteq> 0 \<and> s = (if \<not> finished (run t) p ev t (seen t) then DeliveryRetry else if ever_accepted (run t) p then DeliveryOK else DeliveryFailed))" for s
  proof
    assume "list_ex (\<lambda>(k, r). dl_Status r = s) (latest dels)"
    then obtain t r where "tget (latest dels) t = Some r" "dl_Status r = s" by (auto simp: list_ex_iff mem)
    with st [of t r] keys tget_Some_key [of "latest dels" t r]
    show "\<exists>t\<in>set ts. seen t \<noteq> 0 \<and> s = (if \<not> finished (run t) p ev t (seen t) then DeliveryRetry else if ever_accepted (run t) p then DeliveryOK else DeliveryFailed)"
      by blast
  next
    assume "\<exists>t\<in>set ts. seen t \<noteq> 0 \<and> s = (if \<not> finished (run t) p ev t (seen t) then DeliveryRetry else if ever_accepted (run t) p then DeliveryOK else DeliveryFailed)"
    then obtain t where t: "t \<in> set (tkeys (latest dels))"
      "s = (if \<not> finished (run t) p ev t (seen t) then DeliveryRetry else if ever_accepted (run t) p then DeliveryOK else DeliveryFailed)"
      using keys by auto
    then obtain r where "tget (latest dels) t = Some r" using tget_None_iff by fast
    with st [OF this] t(2) have "(t, r) \<in> set (latest dels)" "dl_Status r = s" by (simp_all add: mem)
    then show "list_ex (\<lambda>(k, r). dl_Status r = s) (latest dels)" unfolding list_ex_iff by (intro bexI [of _ "(t, r)"]) auto
  qed
  have len: "length (latest dels) = card {t \<in> set ts. seen t \<noteq> 0}"
    using latest_ok [of dels] distinct_card [of "tkeys (latest dels)"] keys by (simp add: table_ok_def) (simp add: tkeys_def)
  have few: "int (length (latest dels)) < int (length ts) \<longleftrightarrow> (\<exists>t\<in>set ts. seen t = 0)"
  proof -
    have "card {t \<in> set ts. seen t \<noteq> 0} < card (set ts) \<longleftrightarrow> (\<exists>t\<in>set ts. seen t = 0)"
    proof
      show "\<exists>t\<in>set ts. seen t = 0" if "card {t \<in> set ts. seen t \<noteq> 0} < card (set ts)"
      proof (rule ccontr)
        assume "\<not> (\<exists>t\<in>set ts. seen t = 0)"
        then have "{t \<in> set ts. seen t \<noteq> 0} = set ts" by auto
        with that show False by simp
      qed
      show "card {t \<in> set ts. seen t \<noteq> 0} < card (set ts)" if "\<exists>t\<in>set ts. seen t = 0"
        using that by (intro psubset_card_mono) (simp, blast)
    qed
    with assms(1) show ?thesis by (simp add: len distinct_card)
  qed
  have empty: "dels = [] \<longleftrightarrow> (\<forall>t\<in>set ts. seen t = 0)"
  proof -
    have "dels = [] \<longleftrightarrow> (\<forall>t\<in>set ts. set (arrived (run t) p ev t (seen t)) = {})" using assms(5) by (metis (no_types, lifting) SUP_bot_conv(2) set_empty)
    with none show ?thesis by simp
  qed
  show ?thesis
    unfolding deliveryStatus_def Let_def ex few empty using seen by (cases "ts = []") auto
qed

text \<open>The service records the reports as they come.\<close>

definition record_all :: "string \<Rightarrow> (string \<times> delivery_report) list \<Rightarrow> event_db \<Rightarrow> event_db" where
  "record_all cam rs d = fold (\<lambda>(fresh, r) d. fst (recordDelivery fresh cam r d)) rs d"

lemma record_all_rows:
  assumes "tget (e_events d) ev = Some row" "er_CameraID row = cam" "tget (c_cameras (e_cam d)) cam \<noteq> None"
    "distinct (map fst rs)" "fst ` set rs \<inter> set (tkeys (e_deliveries d)) = {}"
    "\<And>f r. (f, r) \<in> set rs \<Longrightarrow> dr_EventID r = ev \<and> cam \<in> set (CamerasUsingTarget (dr_TargetID r) (e_cam d))"
  shows "record_all cam rs d = d\<lparr>e_deliveries := e_deliveries d @ map (\<lambda>(f, r). (f, delivery_row_of r)) rs\<rparr>"
  using assms
proof (induction rs arbitrary: d)
  case (Cons q rs)
  obtain f r where q: "q = (f, r)" by (cases q)
  have new: "f \<notin> set (tkeys (e_deliveries d))" using Cons.prems(5) q by auto
  have put: "tput f x (e_deliveries d) = e_deliveries d @ [(f, x)]" for x by (rule tput_new [OF iffD2 [OF tget_None_iff new]])
  have r: "dr_EventID r = ev" "cam \<in> set (CamerasUsingTarget (dr_TargetID r) (e_cam d))" using Cons.prems(6) q by auto
  have s: "fst (recordDelivery f cam r d) = d\<lparr>e_deliveries := e_deliveries d @ [(f, delivery_row_of r)]\<rparr>"
    using Cons.prems(1-3) new r tget_None_iff [of "e_deliveries d" f]
    by (auto simp: recordDelivery_def GetEvent_row_def InsertDelivery_def put delivery_row_of_def)
  let ?d = "d\<lparr>e_deliveries := e_deliveries d @ [(f, delivery_row_of r)]\<rparr>"
  have "record_all cam rs ?d = ?d\<lparr>e_deliveries := e_deliveries ?d @ map (\<lambda>(f, r). (f, delivery_row_of r)) rs\<rparr>"
    by (rule Cons.IH) (use Cons.prems q in \<open>auto simp: tkeys_def\<close>)
  then show ?case by (simp add: record_all_def q s)
qed (simp add: record_all_def)

text \<open>C24. An event sent to some targets, none of whose deliveries is interrupted: once any part of the reports has
  arrived, mixed in any order, the panel shows it as failed exactly when some target was given up, as ok exactly
  when every target accepted it, and as pending as long as a delivery is still under way.\<close>

theorem status_tells_outcome:
  assumes "tget (e_events d) ev = Some row" "er_CameraID row = cam" "er_Expected row = int (length ts)" "distinct ts"
    "tget (c_cameras (e_cam d)) cam \<noteq> None" "\<forall>t\<in>set ts. cam \<in> set (CamerasUsingTarget t (e_cam d)) \<and> runs_on (run t)"
    "\<forall>q\<in>snd ` set (e_deliveries d). dl_EventID q \<noteq> ev" "0 \<le> po_Retries p" "po_Retries p < 1000"
    "distinct (map fst rs)" "fst ` set rs \<inter> set (tkeys (e_deliveries d)) = {}" "dr_TargetID ` snd ` set rs \<subseteq> set ts"
    "\<forall>t\<in>set ts. filter (\<lambda>r. dr_TargetID r = t) (map snd rs) = take (seen t) (deliver (run t) p ev t)"
  shows "\<exists>v. GetEvent ev (record_all cam rs d) = Inr v \<and> vw_Status v =
    (if ts = [] then ''none''
     else if \<exists>t\<in>set ts. finished (run t) p ev t (seen t) \<and> \<not> ever_accepted (run t) p then ''failed''
     else if \<forall>t\<in>set ts. finished (run t) p ev t (seen t) then ''ok'' else ''pending'')"
proof -
  have mem: "r \<in> snd ` set rs \<longleftrightarrow> (\<exists>t\<in>set ts. r \<in> set (take (seen t) (deliver (run t) p ev t)))" for r
  proof -
    have "r \<in> snd ` set rs \<longleftrightarrow> (\<exists>t\<in>set ts. r \<in> set (filter (\<lambda>r. dr_TargetID r = t) (map snd rs)))" using assms(12) by auto
    with assms(13) show ?thesis by (metis (no_types, lifting))
  qed
  have ev: "dr_EventID r = ev \<and> cam \<in> set (CamerasUsingTarget (dr_TargetID r) (e_cam d))" if "(f, r) \<in> set rs" for f r
  proof -
    from that mem [of r] obtain t where "t \<in> set ts" "r \<in> set (deliver (run t) p ev t)" by (force dest: in_set_takeD)
    with deliver_facts [of "run t" p ev t] assms(6) show ?thesis by auto
  qed
  define d' where "d' = record_all cam rs d"
  have d': "d' = d\<lparr>e_deliveries := e_deliveries d @ map (\<lambda>(f, r). (f, delivery_row_of r)) rs\<rparr>"
    unfolding d'_def by (rule record_all_rows [OF assms(1,2,5,10,11) ev])
  have "dl_EventID (delivery_row_of r) = ev" if "r \<in> snd ` set rs" for r
    using that ev by (auto simp: delivery_row_of_def)
  then have new: "{q \<in> delivery_row_of ` snd ` set rs. dl_EventID q = ev} = delivery_row_of ` snd ` set rs" by blast
  have old: "{q \<in> snd ` set (e_deliveries d). dl_EventID q = ev} = {}" using assms(7) by blast
  have "snd ` set (e_deliveries d') = snd ` set (e_deliveries d) \<union> delivery_row_of ` snd ` set rs"
    by (simp add: d' image_Un image_image case_prod_unfold)
  then have "set (event_deliveries ev d') = {q \<in> snd ` set (e_deliveries d). dl_EventID q = ev} \<union> {q \<in> delivery_row_of ` snd ` set rs. dl_EventID q = ev}"
    by (auto simp: event_deliveries_def)
  then have "set (event_deliveries ev d') = delivery_row_of ` snd ` set rs" unfolding old new by simp
  also have "\<dots> = (\<Union>t\<in>set ts. set (arrived (run t) p ev t (seen t)))"
  proof -
    have "snd ` set rs = (\<Union>t\<in>set ts. set (take (seen t) (deliver (run t) p ev t)))" using mem by blast
    then show ?thesis by (simp add: arrived_def image_UN)
  qed
  finally have s: "deliveryStatus (event_deliveries ev d') (int (length ts)) =
    (if ts = [] then ''none''
     else if \<exists>t\<in>set ts. finished (run t) p ev t (seen t) \<and> \<not> ever_accepted (run t) p then ''failed''
     else if \<forall>t\<in>set ts. finished (run t) p ev t (seen t) then ''ok'' else ''pending'')"
    using assms(6) by (intro status_of_arrived [OF assms(4,8,9)]) auto
  from assms(5) obtain c where "tget (c_cameras (e_cam d)) cam = Some c" by blast
  then have "GetEvent_row ev d' = Some (row, cm_Name c)" using assms(1,2) by (simp add: GetEvent_row_def d')
  with s assms(3) show ?thesis unfolding d'_def [symmetric] by (simp add: GetEvent_def eventView_def)
qed

section \<open>A run\<close>

definition push_spec :: event_spec where
  "push_spec = \<lparr>es_VendorName = [], es_MinInterval = 0, es_Transports = [(''http_push'', ''{}'')], es_Timeout = 0, es_Retries = Some 3, es_Backoff = 0\<rparr>"

definition demo_event :: camera_event where
  "demo_event = \<lparr>ev_ID = ''e1'', ev_Type = ''motion'', ev_At = 1000, ev_Trigger = ''manual'', ev_Rule = None, ev_Direction = [], ev_Object = None, ev_Rest = []\<rparr>"

definition demo_target :: target_row where
  "demo_target = \<lparr>tr_Name = ''hook'', tr_Type = ''http'', tr_URL = ''http://h/'', tr_Method = ''POST'', tr_Headers = [], tr_Username = [],
     tr_Secret = None, tr_Enabled = True, tr_CreatedAt = 0\<rparr>"

definition demo_link :: link_row where
  "demo_link = \<lparr>ln_EventTypes = [''motion''], ln_Overrides = ''{}''\<rparr>"

lemma demo_event_type: "ev_Type demo_event = ''motion''" "ev_ID demo_event = ''e1''" "ev_At demo_event = 1000"
  by (simp_all add: demo_event_def)

theorem expected_deliveries_made_witness:
  "\<exists>b (ds :: dispatched list). load ''c1'' demo_db = Inr b \<and>
     map pt_ID (concat (map dp_Targets ds)) = [''t1''] \<and>
     expectedDeliveries [(''motion'', push_spec)] (b\<lparr>b_targets := [(''t1'', demo_link, demo_target), (''t2'', demo_link, demo_target\<lparr>tr_Enabled := False\<rparr>)]\<rparr>) ''motion'' = 1"
proof -
  let ?ts = "[(''t1'', demo_link, demo_target), (''t2'', demo_link, demo_target\<lparr>tr_Enabled := False\<rparr>)]"
  let ?specs = "[(''motion'', push_spec)]"
  from demo_loads obtain b0 where b0: "load ''c1'' demo_db = Inr b0" by blast
  let ?b = "b0\<lparr>b_targets := ?ts\<rparr>"
  let ?bus = "\<lparr>eb_subs = [''http_push''], eb_last = [], eb_targets = [([''motion''], push_target_of ''t1'' demo_target [])]\<rparr>"
  have i: "ipcTargets demo_node ?b = Inr (eb_targets ?bus)"
    by (simp add: ipcTargets_def demo_target_def demo_link_def)
  have "\<exists>bus' e' ds. Emit ?specs 1000 ''x'' True demo_event ?bus = (bus', Inr (e', ds))"
    by (simp add: Emit_def demo_event_def push_spec_def Let_def zero_time_def)
  then obtain bus' e' ds where e: "Emit ?specs 1000 ''x'' True demo_event ?bus = (bus', Inr (e', ds))" by blast
  have s: "tget ?specs (ev_Type demo_event) = Some push_spec" by (simp add: demo_event_type)
  have t: "ev_Type e' = ''motion''" using Emit_passes [OF e s] by (simp add: demo_event_type)
  have f: "filter (expected_target ?specs ''motion'') ?ts = [(''t1'', demo_link, demo_target)]"
    by (simp add: expected_target_def demo_target_def demo_link_def push_spec_def transportOf_def)
  have bt: "b_targets ?b = ?ts" by simp
  have h: "\<forall>(k, l, r)\<in>set (b_targets ?b). tr_Type r = ''http''" "table_ok (es_Transports push_spec)"
    by (simp_all add: demo_target_def push_spec_def table_ok_def tkeys_def)
  have on: "push_running ?bus" by (simp add: push_running_def contains_def)
  note x = expected_deliveries_made [OF i h s e, unfolded demo_event_type bt t if_P [OF on]]
  have m: "map pt_ID (concat (map dp_Targets ds)) = [''t1'']" using conjunct1 [OF x] unfolding f by simp
  have "expectedDeliveries ?specs ?b ''motion'' = 1" using conjunct2 [OF x] unfolding f by simp
  with m b0 show ?thesis by (intro exI [of _ b0] exI [of _ ds] conjI)
qed

definition demo_env :: event_env where
  "demo_env = \<lparr>ee_specs = (\<lambda>doc. [(''motion'', push_spec)]), ee_ulid_ms = (\<lambda>i. Some 0), ee_json = (\<lambda>e. ''{}'')\<rparr>"

definition demo_events :: event_db where
  "demo_events = \<lparr>e_cam = demo_db, e_events = [(''e0'', \<lparr>er_CameraID = ''c9'', er_Type = ''motion'', er_At = 0, er_Data = [], er_RuleID = None,
     er_TriggerID = None, er_ReceivedAt = 0, er_Expected = 0\<rparr>)], e_deliveries = []\<rparr>"

theorem reports_confined_witness:
  "\<exists>d' r. reports ''c1'' demo_events d' \<and> tget (e_events d') ''e1'' = Some r \<and> er_CameraID r = ''c1'' \<and> e_cam d' = demo_db \<and>
     tget (e_events d') ''e0'' = tget (e_events demo_events) ''e0''"
proof -
  from demo_loads obtain b where b: "load ''c1'' demo_db = Inr b" by blast
  define d' where "d' = demo_events\<lparr>e_events := tput ''e1'' (event_row_of demo_env 1000 ''c1'' b demo_event) (e_events demo_events)\<rparr>"
  have v: "event_valid demo_env 1000 b demo_event"
    by (simp add: event_valid_def demo_env_def maxEventClockSkew_def milli_def demo_event_type maxEventBytes_def)
  have l: "load ''c1'' (e_cam demo_events) = Inr b" by (simp add: demo_events_def b)
  have "InsertEvent ''e1'' (event_row_of demo_env 1000 ''c1'' b demo_event) demo_events = Inr d'"
    by (simp add: InsertEvent_def d'_def event_row_cam demo_events_def demo_state)
  then have "fst (recordEvent demo_env 1000 ''c1'' demo_event demo_events) = d'"
    by (simp add: recordEvent_def l v demo_event_type)
  then obtain p where p: "recordEvent demo_env 1000 ''c1'' demo_event demo_events = (d', p)" by (metis prod.collapse)
  have r: "reports ''c1'' demo_events d'" by (rule an_event [OF reports.none p])
  have n: "tget (e_events demo_events) ''e1'' = None" "tget (e_events demo_events) ''e0'' \<noteq> None" "e_cam demo_events = demo_db"
    by (simp_all add: demo_events_def)
  obtain row where row: "tget (e_events d') ''e1'' = Some row" by (simp add: d'_def)
  from reports_confined [OF r] n row have "er_CameraID row = ''c1''" "e_cam d' = demo_db" by auto
  moreover from n(2) obtain r0 where "tget (e_events demo_events) ''e0'' = Some r0" by blast
  with reports_confined [OF r] have "tget (e_events d') ''e0'' = tget (e_events demo_events) ''e0''" by auto
  ultimately show ?thesis using r row by blast
qed

definition sent_row :: event_row where
  "sent_row = \<lparr>er_CameraID = ''c1'', er_Type = ''motion'', er_At = 0, er_Data = [], er_RuleID = None, er_TriggerID = None, er_ReceivedAt = 0, er_Expected = 1\<rparr>"

definition sent_event :: event_db where
  "sent_event = \<lparr>e_cam = demo_db\<lparr>c_links := [((''c1'', ''t1''), demo_link)]\<rparr>, e_events = [(''e1'', sent_row)], e_deliveries = []\<rparr>"

definition three_more :: policy where
  "three_more = \<lparr>po_Timeout = 1, po_Retries = 3, po_Backoff = 1\<rparr>"

theorem status_tells_outcome_witness:
  "\<exists>rs v. length rs = 3 \<and> GetEvent ''e1'' (record_all ''c1'' rs sent_event) = Inr v \<and> vw_Status v = ''ok''"
proof -
  define ds where "ds = deliver refused_then_accepted three_more ''e1'' ''t1''"
  have len: "length ds = 3"
    by (simp add: ds_def deliver_def three_more_def accepted_def refused_then_accepted_def eval_nat_numeral)
  define rs where "rs = zip [''f1'', ''f2'', ''f3''] ds"
  have z: "map snd rs = ds" "map fst rs = [''f1'', ''f2'', ''f3'']" "length rs = 3" using len by (simp_all add: rs_def)
  have own: "\<forall>r\<in>set ds. dr_TargetID r = ''t1''" using deliver_facts [of refused_then_accepted three_more "''e1''" "''t1''"] by (simp add: ds_def)
  have c: "tget (c_cameras demo_db) ''c1'' \<noteq> None" by (simp add: demo_state)
  have a: "ever_accepted refused_then_accepted three_more" "finished refused_then_accepted three_more ''e1'' ''t1'' 3"
    using len by (auto simp: ever_accepted_def three_more_def accepted_def refused_then_accepted_def finished_def ds_def intro!: exI [of _ 2])
  have "snd ` set rs = set ds" by (metis z(1) list.set_map)
  with own have "dr_TargetID ` snd ` set rs \<subseteq> set [''t1'']" by auto
  moreover have "filter (\<lambda>r. dr_TargetID r = ''t1'') (map snd rs) = take 3 ds" using own len by (simp add: z(1) filter_id_conv)
  ultimately have "\<exists>v. GetEvent ''e1'' (record_all ''c1'' rs sent_event) = Inr v \<and> vw_Status v =
    (if [''t1''] = [] then ''none''
     else if \<exists>t\<in>set [''t1'']. finished refused_then_accepted three_more ''e1'' t 3 \<and> \<not> ever_accepted refused_then_accepted three_more then ''failed''
     else if \<forall>t\<in>set [''t1'']. finished refused_then_accepted three_more ''e1'' t 3 then ''ok'' else ''pending'')"
    by (intro status_tells_outcome [where run = "\<lambda>t. refused_then_accepted" and seen = "\<lambda>t. 3" and cam = "''c1''" and row = sent_row])
      (use z c in \<open>simp_all add: sent_event_def sent_row_def CamerasUsingTarget_def runs_on_def refused_then_accepted_def three_more_def tkeys_def ds_def\<close>)
  with a z(3) show ?thesis by auto
qed

end
