(* ===== verification/Template_Guard.thy ===== *)
theory Template_Guard
  imports Go_Text Go_Float
begin

text \<open>
  Rendering of profile templates, \<^verbatim>\<open>backend/internal/tmpl/tmpl.go\<close>: the guard added to the parse tree of every
  template, its counters, and the execution of a guarded tree. The walk over the nodes is that of
  \<^verbatim>\<open>text/template\<close>; what a command other than a guard evaluates to, the scopes of variables and the
  printed form of values are inputs.
\<close>

section \<open>Values and trees\<close>

datatype tval =
    TNil
  | TBool bool
  | TStr string
  | TInt int
  | TUint nat
  | TFloat float64
  | TList "tval list"
  | TMap "(string \<times> tval) list"
  | TPtr "tval option"
  | TChan
  | TFunc
  | TOther string

datatype guard_fn = GuardRange | GuardTick | GuardCall

datatype 'c tcmd = Other 'c | Guard guard_fn

datatype 'c pipe = Pipe "string list" "'c tcmd list"

datatype 'c tnode =
    TextNode string
  | ActionNode "'c pipe"
  | IfNode "'c pipe" "'c tnode list" "'c tnode list"
  | WithNode "'c pipe" "'c tnode list" "'c tnode list"
  | RangeNode "'c pipe" "'c tnode list" "'c tnode list"
  | TemplateNode string "'c pipe option"
  | BreakNode
  | ContinueNode

definition add_cmd :: "guard_fn \<Rightarrow> 'c pipe \<Rightarrow> 'c pipe" where
  "add_cmd g p = (case p of Pipe d cs \<Rightarrow> Pipe d (cs @ [Guard g]))"

fun guardNode :: "'c tnode \<Rightarrow> 'c tnode" where
  "guardNode (IfNode p l e) = IfNode p (map guardNode l) (map guardNode e)"
| "guardNode (WithNode p l e) = WithNode p (map guardNode l) (map guardNode e)"
| "guardNode (RangeNode p l e) =
    RangeNode (add_cmd GuardRange p) (ActionNode (Pipe [] [Guard GuardTick]) # map guardNode l) (map guardNode e)"
| "guardNode (TemplateNode name p) =
    TemplateNode name (Some (add_cmd GuardCall (case p of None \<Rightarrow> Pipe [] [] | Some q \<Rightarrow> q)))"
| "guardNode n = n"

definition guardTree :: "'c tnode list \<Rightarrow> 'c tnode list" where
  "guardTree ns = map guardNode ns"

section \<open>The guard\<close>

definition MaxSteps :: int where "MaxSteps = 100000"

datatype render_error = Aborted | TooManySteps | NotRangeable | TooLarge | WrongArguments | Undefined string | Failed string

text \<open>
  The state of a render: the steps of its guard, how often the abort flag was read, what was written, and
  (for the bounds below) how many bodies of a range and of a template were entered.
\<close>

record render_state =
  re_steps :: int
  re_looks :: nat
  re_out :: string
  re_bodies :: nat

text \<open>Whether the abort flag was set when it is read for the \<open>k\<close>-th time.\<close>

type_synonym abort_at = "nat \<Rightarrow> bool"

definition guard_take :: "abort_at \<Rightarrow> int \<Rightarrow> render_state \<Rightarrow> render_state \<times> render_error option" where
  "guard_take ab n s =
    (let t = s\<lparr>re_looks := re_looks s + 1\<rparr> in
     if ab (re_looks s) then (t, Some Aborted)
     else if n < 0 \<or> MaxSteps - re_steps s < n then (t, Some TooManySteps)
     else (t\<lparr>re_steps := re_steps s + n\<rparr>, None))"

fun deref :: "tval \<Rightarrow> tval" where
  "deref (TPtr (Some v)) = deref v"
| "deref v = v"

definition guard_bound :: "abort_at \<Rightarrow> tval \<Rightarrow> render_state \<Rightarrow> render_state \<times> render_error option" where
  "guard_bound ab v s =
    (case deref v of
       TList xs \<Rightarrow> guard_take ab (int (length xs)) s
     | TMap xs \<Rightarrow> guard_take ab (int (length xs)) s
     | TStr t \<Rightarrow> guard_take ab (int (length t)) s
     | TInt i \<Rightarrow> if MaxSteps < i then (s, Some TooManySteps) else guard_take ab i s
     | TUint i \<Rightarrow> if MaxSteps < int i then (s, Some TooManySteps) else guard_take ab (int i) s
     | TChan \<Rightarrow> (s, Some NotRangeable)
     | TFunc \<Rightarrow> (s, Some NotRangeable)
     | _ \<Rightarrow> (s, None))"

section \<open>The limited output\<close>

definition limited_write :: "nat \<Rightarrow> abort_at \<Rightarrow> string \<Rightarrow> render_state \<Rightarrow> render_state \<times> render_error option" where
  "limited_write max_bytes ab p s =
    (let t = s\<lparr>re_looks := re_looks s + 1\<rparr> in
     if ab (re_looks s) then (t, Some Aborted)
     else if max_bytes < length (re_out s) + length p then (t, Some TooLarge)
     else (t\<lparr>re_out := re_out s @ p\<rparr>, None))"

section \<open>Execution\<close>

text \<open>
  \<open>xe_cmd\<close> is a command on the variables and the value piped into it; \<open>xe_decl\<close> what a pipeline's variables
  become, \<open>xe_iter\<close> the variables and dot of an iteration, \<open>xe_dot\<close> those of a \<^verbatim>\<open>with\<close>, \<open>xe_root\<close> those of a called
  template and \<open>xe_leave\<close> what is left of them after a block.
\<close>

record ('c, 'e) template_env =
  xe_cmd :: "'c \<Rightarrow> 'e \<Rightarrow> tval option \<Rightarrow> (string, tval) result"
  xe_decl :: "string list \<Rightarrow> tval \<Rightarrow> 'e \<Rightarrow> 'e"
  xe_iter :: "string list \<Rightarrow> nat \<Rightarrow> tval \<Rightarrow> 'e \<Rightarrow> 'e"
  xe_dot :: "tval \<Rightarrow> 'e \<Rightarrow> 'e"
  xe_root :: "tval \<Rightarrow> 'e"
  xe_leave :: "'e \<Rightarrow> 'e \<Rightarrow> 'e"
  xe_print :: "tval \<Rightarrow> string"
  xe_truth :: "tval \<Rightarrow> bool"
  xe_templates :: "(string, 'c tnode list) table"
  xe_max :: nat
  xe_abort :: abort_at

definition eval_cmd :: "('c, 'e) template_env \<Rightarrow> 'c tcmd \<Rightarrow> 'e \<Rightarrow> tval option \<Rightarrow> render_state \<Rightarrow> render_state \<times> (render_error, tval) result" where
  "eval_cmd x c e prev s =
    (case c of
       Other c \<Rightarrow> (s, case xe_cmd x c e prev of Inl m \<Rightarrow> Inl (Failed m) | Inr v \<Rightarrow> Inr v)
     | Guard GuardRange \<Rightarrow>
         (case prev of None \<Rightarrow> (s, Inl WrongArguments)
          | Some v \<Rightarrow> (case guard_bound (xe_abort x) v s of (s, Some err) \<Rightarrow> (s, Inl err) | (s, None) \<Rightarrow> (s, Inr v)))
     | Guard GuardTick \<Rightarrow>
         (if prev \<noteq> None then (s, Inl WrongArguments)
          else case guard_take (xe_abort x) 0 s of (s, Some err) \<Rightarrow> (s, Inl err) | (s, None) \<Rightarrow> (s, Inr (TStr [])))
     | Guard GuardCall \<Rightarrow>
         (case guard_take (xe_abort x) 1 s of (s, Some err) \<Rightarrow> (s, Inl err)
          | (s, None) \<Rightarrow> (s, Inr (case prev of None \<Rightarrow> TNil | Some v \<Rightarrow> v))))"

fun eval_cmds :: "('c, 'e) template_env \<Rightarrow> 'c tcmd list \<Rightarrow> 'e \<Rightarrow> tval option \<Rightarrow> render_state \<Rightarrow> render_state \<times> (render_error, tval) result" where
  "eval_cmds x [] e prev s = (s, Inr (case prev of None \<Rightarrow> TNil | Some v \<Rightarrow> v))"
| "eval_cmds x (c # cs) e prev s =
    (case eval_cmd x c e prev s of (s, Inl err) \<Rightarrow> (s, Inl err) | (s, Inr v) \<Rightarrow> eval_cmds x cs e (Some v) s)"

text \<open>The value of a pipeline, and the variables after it.\<close>

definition eval_pipe :: "('c, 'e) template_env \<Rightarrow> 'c pipe \<Rightarrow> 'e \<Rightarrow> render_state \<Rightarrow> render_state \<times> (render_error, tval \<times> 'e) result" where
  "eval_pipe x p e s =
    (case p of Pipe d cs \<Rightarrow>
      (case eval_cmds x cs e None s of (s, Inl err) \<Rightarrow> (s, Inl err) | (s, Inr v) \<Rightarrow> (s, Inr (v, xe_decl x d v e))))"

definition pipe_vars :: "'c pipe \<Rightarrow> string list" where
  "pipe_vars p = (case p of Pipe d cs \<Rightarrow> d)"

text \<open>What a range iterates over: the elements of a list, the values of a map in the order of its keys and the
  numbers below an integer; a value that is missing is like an empty list.\<close>

definition range_items :: "tval \<Rightarrow> (render_error, tval list) result" where
  "range_items v =
    (case deref v of
       TList xs \<Rightarrow> Inr xs
     | TMap xs \<Rightarrow> Inr (map snd xs)
     | TInt i \<Rightarrow> Inr (map (\<lambda>k. TInt (int k)) [0..<nat i])
     | TUint i \<Rightarrow> Inr (map TUint [0..<i])
     | TNil \<Rightarrow> Inr []
     | _ \<Rightarrow> Inl (Failed ''range can't iterate over''))"

datatype 'e flow = Normal 'e | Broke 'e | Continued 'e | Stopped render_error | OutOfFuel

text \<open>The fuel goes down with every template call; a guarded tree never runs out of it (below).\<close>

function (sequential) exec_node :: "('c, 'e) template_env \<Rightarrow> nat \<Rightarrow> 'c tnode \<Rightarrow> 'e \<Rightarrow> render_state \<Rightarrow> render_state \<times> 'e flow"
  and exec_list :: "('c, 'e) template_env \<Rightarrow> nat \<Rightarrow> 'c tnode list \<Rightarrow> 'e \<Rightarrow> render_state \<Rightarrow> render_state \<times> 'e flow"
  and exec_items :: "('c, 'e) template_env \<Rightarrow> nat \<Rightarrow> string list \<Rightarrow> 'c tnode list \<Rightarrow> nat \<Rightarrow> tval list \<Rightarrow> 'e \<Rightarrow> render_state \<Rightarrow> render_state \<times> 'e flow" where
  "exec_node x f (TextNode t) e s =
    (case limited_write (xe_max x) (xe_abort x) t s of (s, Some err) \<Rightarrow> (s, Stopped err) | (s, None) \<Rightarrow> (s, Normal e))"
| "exec_node x f (ActionNode p) e s =
    (case eval_pipe x p e s of
       (s, Inl err) \<Rightarrow> (s, Stopped err)
     | (s, Inr (v, e)) \<Rightarrow>
         if pipe_vars p \<noteq> [] then (s, Normal e)
         else case limited_write (xe_max x) (xe_abort x) (xe_print x v) s of
           (s, Some err) \<Rightarrow> (s, Stopped err) | (s, None) \<Rightarrow> (s, Normal e))"
| "exec_node x f (IfNode p l els) e s =
    (case eval_pipe x p e s of
       (s, Inl err) \<Rightarrow> (s, Stopped err)
     | (s, Inr (v, e1)) \<Rightarrow>
         (case exec_list x f (if xe_truth x v then l else els) e1 s of
            (s, Normal e2) \<Rightarrow> (s, Normal (xe_leave x e e2)) | r \<Rightarrow> r))"
| "exec_node x f (WithNode p l els) e s =
    (case eval_pipe x p e s of
       (s, Inl err) \<Rightarrow> (s, Stopped err)
     | (s, Inr (v, e1)) \<Rightarrow>
         (case (if xe_truth x v then exec_list x f l (xe_dot x v e1) s else exec_list x f els e1 s) of
            (s, Normal e2) \<Rightarrow> (s, Normal (xe_leave x e e2)) | r \<Rightarrow> r))"
| "exec_node x f (RangeNode p l els) e s =
    (case eval_pipe x p e s of
       (s, Inl err) \<Rightarrow> (s, Stopped err)
     | (s, Inr (v, e1)) \<Rightarrow>
         (case range_items v of
            Inl err \<Rightarrow> (s, Stopped err)
          | Inr xs \<Rightarrow>
              (case (if xs = [] then exec_list x f els e1 s else exec_items x f (pipe_vars p) l 0 xs e1 s) of
                 (s, Normal e2) \<Rightarrow> (s, Normal (xe_leave x e e2)) | r \<Rightarrow> r)))"
| "exec_node x f (TemplateNode name po) e s =
    (case tget (xe_templates x) name of
       None \<Rightarrow> (s, Stopped (Undefined name))
     | Some ns \<Rightarrow>
         (case eval_pipe x (case po of None \<Rightarrow> Pipe [] [] | Some p \<Rightarrow> p) e s of
            (s, Inl err) \<Rightarrow> (s, Stopped err)
          | (s, Inr (v, e1)) \<Rightarrow>
              (case f of
                 0 \<Rightarrow> (s, OutOfFuel)
               | Suc g \<Rightarrow>
                   (case exec_list x g ns (xe_root x v) (s\<lparr>re_bodies := re_bodies s + 1\<rparr>) of
                      (s, Stopped err) \<Rightarrow> (s, Stopped err) | (s, OutOfFuel) \<Rightarrow> (s, OutOfFuel) | (s, _) \<Rightarrow> (s, Normal e1)))))"
| "exec_node x f BreakNode e s = (s, Broke e)"
| "exec_node x f ContinueNode e s = (s, Continued e)"
| "exec_list x f [] e s = (s, Normal e)"
| "exec_list x f (n # ns) e s = (case exec_node x f n e s of (s, Normal e) \<Rightarrow> exec_list x f ns e s | r \<Rightarrow> r)"
| "exec_items x f d l i [] e s = (s, Normal e)"
| "exec_items x f d l i (v # vs) e s =
    (case exec_list x f l (xe_iter x d i v e) (s\<lparr>re_bodies := re_bodies s + 1\<rparr>) of
       (s, Normal e1) \<Rightarrow> exec_items x f d l (i + 1) vs (xe_leave x e e1) s
     | (s, Continued e1) \<Rightarrow> exec_items x f d l (i + 1) vs (xe_leave x e e1) s
     | (s, Broke e1) \<Rightarrow> (s, Normal (xe_leave x e e1))
     | r \<Rightarrow> r)"
  by pat_completeness auto

termination
  by (relation "inv_image (less_than <*lex*> less_than <*lex*> less_than)
      (\<lambda>a. case a of Inl (x, f, n, e, s) \<Rightarrow> (f, 2 * size n, 0)
        | Inr (Inl (x, f, ns, e, s)) \<Rightarrow> (f, 2 * size_list size ns, 0)
        | Inr (Inr (x, f, d, l, i, vs, e, s)) \<Rightarrow> (f, 2 * size_list size l, Suc (length vs)))") auto

definition fresh_render :: render_state where
  "fresh_render = \<lparr>re_steps = 0, re_looks = 0, re_out = [], re_bodies = 0\<rparr>"

text \<open>\<open>Render\<close> of the template called \<open>name\<close> on \<open>data\<close>.\<close>

definition Render :: "('c, 'e) template_env \<Rightarrow> string \<Rightarrow> tval \<Rightarrow> render_state \<times> 'e flow" where
  "Render x name data =
    (let y = x\<lparr>xe_templates := map (\<lambda>(k, ns). (k, guardTree ns)) (xe_templates x)\<rparr> in
     case tget (xe_templates y) name of
       None \<Rightarrow> (fresh_render, Stopped (Undefined name))
     | Some ns \<Rightarrow> exec_list y (nat MaxSteps) ns (xe_root y data) fresh_render)"

text \<open>The limit of a template compiled with the limit \<open>m\<close>.\<close>

definition compiled_max :: "int \<Rightarrow> nat" where
  "compiled_max m = (if m \<le> 0 then 2 ^ 20 else nat m)"

section \<open>Functions of the templates\<close>

definition isEmpty :: "tval \<Rightarrow> bool" where
  "isEmpty v =
    (case v of
       TNil \<Rightarrow> True
     | TStr t \<Rightarrow> t = []
     | TList xs \<Rightarrow> xs = []
     | TMap xs \<Rightarrow> xs = []
     | TPtr p \<Rightarrow> p = None
     | TBool b \<Rightarrow> \<not> b
     | TInt i \<Rightarrow> i = 0
     | TUint i \<Rightarrow> i = 0
     | TFloat x \<Rightarrow> x = 0
     | _ \<Rightarrow> False)"

definition defaultFunc :: "tval \<Rightarrow> tval list \<Rightarrow> tval" where
  "defaultFunc def v = (case v of [] \<Rightarrow> def | x # _ \<Rightarrow> if isEmpty x then def else x)"

text \<open>\<open>word\<close> and \<open>pick\<close> stand for the random source; \<open>None\<close> is the panic of \<^verbatim>\<open>rand.Int\<close> for a bound that is not positive,
  which the render turns into its error.\<close>

definition randFunc :: "nat \<Rightarrow> (int \<Rightarrow> int) \<Rightarrow> int list \<Rightarrow> (string, int) result option" where
  "randFunc word pick args =
    (case args of
       [] \<Rightarrow> Some (Inr (int (word mod 2 ^ 32)))
     | [n] \<Rightarrow> if n \<le> 0 then Some (Inl ''rand: n must be positive'') else Some (Inr (pick n))
     | [lo, hi] \<Rightarrow>
         if hi < lo then Some (Inl ''rand: max must be >= min'')
         else let m = wrap64 (wrap64 (hi - lo) + 1) in if m \<le> 0 then None else Some (Inr (wrap64 (lo + pick m)))
     | _ \<Rightarrow> Some (Inl ''rand takes at most two arguments''))"

lemma randFunc_range:
  assumes "- (2 ^ 63) \<le> lo" "lo \<le> hi" "hi < 2 ^ 63" "hi - lo + 1 < 2 ^ 63" "\<And>m. 0 < m \<Longrightarrow> 0 \<le> pick m \<and> pick m < m"
  shows "\<exists>r. randFunc word pick [lo, hi] = Some (Inr r) \<and> lo \<le> r \<and> r \<le> hi"
  using assms(5) [of "hi - lo + 1"] assms(1-4) by (simp add: randFunc_def Let_def wrap64_id)

text \<open>A range wider than half the integers overflows.\<close>

lemma randFunc_wide: "randFunc word pick [- (2 ^ 63), 2 ^ 63 - 1] = None"
  by (simp add: randFunc_def Let_def wrap64_def)

section \<open>A guarded tree always ends\<close>

text \<open>Trees in which every range and every template call goes through the guard.\<close>

fun good_node :: "'c tnode \<Rightarrow> bool" where
  "good_node (IfNode p l e) = (list_all good_node l \<and> list_all good_node e)"
| "good_node (WithNode p l e) = (list_all good_node l \<and> list_all good_node e)"
| "good_node (RangeNode p l e) = ((\<exists>q. p = add_cmd GuardRange q) \<and> list_all good_node l \<and> list_all good_node e)"
| "good_node (TemplateNode name p) = (\<exists>q. p = Some (add_cmd GuardCall q))"
| "good_node n = True"

lemma good_guardNode: "good_node (guardNode n)"
  by (induction n rule: guardNode.induct) (auto simp: list_all_iff)

lemma good_guardTree: "list_all good_node (guardTree ns)"
  by (simp add: guardTree_def list_all_iff good_guardNode)

definition render_ok :: "('c, 'e) template_env \<Rightarrow> render_state \<Rightarrow> bool" where
  "render_ok x s = (0 \<le> re_steps s \<and> re_steps s \<le> MaxSteps \<and> length (re_out s) \<le> xe_max x)"

text \<open>A part of a render uses steps, writes within the limit and enters at most \<open>k\<close> bodies more than it takes
  steps; it has enough fuel if that is at least the steps left.\<close>

definition spends :: "('c, 'e) template_env \<Rightarrow> nat \<Rightarrow> render_state \<Rightarrow> render_state \<Rightarrow> bool" where
  "spends x k s s' = (render_ok x s' \<and> re_steps s \<le> re_steps s' \<and>
     int (re_bodies s') - int (re_bodies s) \<le> re_steps s' - re_steps s + int k)"

definition run_ok :: "('c, 'e) template_env \<Rightarrow> nat \<Rightarrow> nat \<Rightarrow> render_state \<Rightarrow> render_state \<times> 'e flow \<Rightarrow> bool" where
  "run_ok x f k s q = (spends x k s (fst q) \<and> (MaxSteps - re_steps s \<le> int f \<longrightarrow> snd q \<noteq> OutOfFuel))"

lemma spends_refl: "render_ok x s \<Longrightarrow> spends x k s s"
  by (simp add: spends_def)

lemma spends_trans: "spends x j s t \<Longrightarrow> spends x k t u \<Longrightarrow> spends x (j + k) s u"
  by (simp add: spends_def)

lemma run_after: "spends x j s t \<Longrightarrow> run_ok x f k t q \<Longrightarrow> run_ok x f (j + k) s q"
  by (auto simp: run_ok_def spends_def)

lemma run_then: "run_ok x f 0 s (t, r) \<Longrightarrow> run_ok x f k t q \<Longrightarrow> run_ok x f k s q"
  using run_after [of x 0 s t f k q] by (simp add: run_ok_def)

lemma run_stops: "spends x k s t \<Longrightarrow> r \<noteq> OutOfFuel \<Longrightarrow> run_ok x f k s (t, r)"
  by (simp add: run_ok_def)

lemma run_same: "run_ok x f k s (t, r) \<Longrightarrow> (r = OutOfFuel \<longleftrightarrow> r' = OutOfFuel) \<Longrightarrow> run_ok x f k s (t, r')"
  by (simp add: run_ok_def)

lemma guard_take_spends:
  "guard_take ab n s = (t, r) \<Longrightarrow> render_ok x s \<Longrightarrow>
    spends x 0 s t \<and> (r = None \<longrightarrow> 0 \<le> n \<and> re_steps t = re_steps s + n \<and> re_bodies t = re_bodies s)"
  by (auto simp: guard_take_def spends_def render_ok_def Let_def split: if_splits)

lemma limited_write_spends: "limited_write (xe_max x) b p s = (t, r) \<Longrightarrow> render_ok x s \<Longrightarrow> spends x 0 s t"
  by (auto simp: limited_write_def spends_def render_ok_def Let_def split: if_splits)

text \<open>Before a range starts, the guard has counted all its iterations.\<close>

lemma guard_bound_spends:
  assumes "guard_bound ab v s = (t, r)" "render_ok x s"
  shows "spends x 0 s t \<and> (r = None \<longrightarrow> re_bodies t = re_bodies s \<and>
    (\<forall>xs. range_items v = Inr xs \<longrightarrow> re_steps s + int (length xs) \<le> re_steps t))"
  using assms guard_take_spends [of ab _ s t r x] spends_refl [OF assms(2)]
  by (auto simp: guard_bound_def range_items_def split: tval.splits if_splits)

lemma eval_cmd_spends: "eval_cmd x c e prev s = (t, r) \<Longrightarrow> render_ok x s \<Longrightarrow> spends x 0 s t"
  using guard_take_spends guard_bound_spends spends_refl
  by (auto simp: eval_cmd_def split: tcmd.splits guard_fn.splits option.splits prod.splits if_splits) blast+

lemma eval_cmds_spends: "eval_cmds x cs e prev s = (t, r) \<Longrightarrow> render_ok x s \<Longrightarrow> spends x 0 s t"
proof (induction cs arbitrary: prev s)
  case (Cons c cs)
  obtain s1 r1 where 1: "eval_cmd x c e prev s = (s1, r1)" by fastforce
  from eval_cmd_spends [OF 1 Cons.prems(2)] have s1: "spends x 0 s s1" "render_ok x s1" by (auto simp: spends_def)
  show ?case
  proof (cases r1)
    case Inl
    with Cons.prems 1 s1 show ?thesis by simp
  next
    case (Inr v)
    with Cons.prems 1 have "eval_cmds x cs e (Some v) s1 = (t, r)" by simp
    from Cons.IH [OF this s1(2)] spends_trans [OF s1(1)] show ?thesis by fastforce
  qed
qed (auto intro: spends_refl)

lemma eval_cmds_snoc:
  "eval_cmds x (cs @ [c]) e prev s = (t, Inr v) \<Longrightarrow>
    \<exists>s1 p1. eval_cmd x c e p1 s1 = (t, Inr v) \<and> (render_ok x s \<longrightarrow> spends x 0 s s1)"
proof (induction cs arbitrary: prev s)
  case Nil
  then show ?case by (auto split: prod.splits sum.splits intro: spends_refl)
next
  case (Cons a cs)
  obtain s1 r1 where 1: "eval_cmd x a e prev s = (s1, r1)" by fastforce
  with Cons.prems obtain w where w: "r1 = Inr w" "eval_cmds x (cs @ [c]) e (Some w) s1 = (t, Inr v)" by (cases r1) auto
  from Cons.IH [OF w(2)] obtain s2 p2 where 2: "eval_cmd x c e p2 s2 = (t, Inr v)" "render_ok x s1 \<longrightarrow> spends x 0 s1 s2" by blast
  have "spends x 0 s s2" if "render_ok x s"
  proof -
    from eval_cmd_spends [OF 1 that] have "spends x 0 s s1" "render_ok x s1" by (auto simp: spends_def)
    with 2(2) spends_trans [of x 0 s s1 0 s2] show ?thesis by simp
  qed
  with 2(1) show ?case by blast
qed

lemma eval_pipe_spends: "eval_pipe x p e s = (t, r) \<Longrightarrow> render_ok x s \<Longrightarrow> spends x 0 s t"
  using eval_cmds_spends by (fastforce simp: eval_pipe_def split: pipe.splits prod.splits sum.splits)

lemma eval_pipe_call:
  assumes "eval_pipe x (add_cmd GuardCall q) e s = (t, Inr (v, e1))" "render_ok x s"
  shows "re_steps s < re_steps t \<and> spends x 0 s (t\<lparr>re_bodies := re_bodies t + 1\<rparr>)"
proof -
  obtain d cs where q: "q = Pipe d cs" by (cases q)
  with assms(1) have "eval_cmds x (cs @ [Guard GuardCall]) e None s = (t, Inr v)"
    by (auto simp: eval_pipe_def add_cmd_def split: prod.splits sum.splits)
  from eval_cmds_snoc [OF this] assms(2) obtain s1 p1 where 1: "eval_cmd x (Guard GuardCall) e p1 s1 = (t, Inr v)" "spends x 0 s s1" by blast
  then have "render_ok x s1" by (simp add: spends_def)
  from 1(1) have "guard_take (xe_abort x) 1 s1 = (t, None)" by (auto simp: eval_cmd_def split: prod.splits option.splits)
  from guard_take_spends [OF this \<open>render_ok x s1\<close>] 1(2) show ?thesis by (auto simp: spends_def render_ok_def)
qed

lemma eval_pipe_range:
  assumes "eval_pipe x (add_cmd GuardRange q) e s = (t, Inr (v, e1))" "render_ok x s" "range_items v = Inr xs"
  shows "re_steps s + int (length xs) \<le> re_steps t \<and> int (re_bodies t) - int (re_bodies s) + int (length xs) \<le> re_steps t - re_steps s \<and> spends x 0 s t"
proof -
  obtain d cs where q: "q = Pipe d cs" by (cases q)
  with assms(1) have "eval_cmds x (cs @ [Guard GuardRange]) e None s = (t, Inr v)"
    by (auto simp: eval_pipe_def add_cmd_def split: prod.splits sum.splits)
  from eval_cmds_snoc [OF this] assms(2) obtain s1 p1 where 1: "eval_cmd x (Guard GuardRange) e p1 s1 = (t, Inr v)" "spends x 0 s s1" by blast
  then have "render_ok x s1" by (simp add: spends_def)
  from 1(1) have "guard_bound (xe_abort x) v s1 = (t, None)" by (auto simp: eval_cmd_def split: prod.splits option.splits)
  from guard_bound_spends [OF this \<open>render_ok x s1\<close>] 1(2) assms(3) show ?thesis by (auto simp: spends_def)
qed

lemma exec_ok:
  fixes x :: "('c, 'e) template_env"
  shows "render_ok x s \<Longrightarrow> good_node n \<Longrightarrow> list_all (list_all good_node \<circ> snd) (xe_templates x) \<Longrightarrow> run_ok x f 0 s (exec_node x f n e s)"
    and "render_ok x s \<Longrightarrow> list_all good_node ns \<Longrightarrow> list_all (list_all good_node \<circ> snd) (xe_templates x) \<Longrightarrow> run_ok x f 0 s (exec_list x f ns e s)"
    and "render_ok x s \<Longrightarrow> list_all good_node l \<Longrightarrow> list_all (list_all good_node \<circ> snd) (xe_templates x) \<Longrightarrow> run_ok x f (length vs) s (exec_items x f d l i vs e s)"
proof (induction x f n e s and x f ns e s and x f d l i vs e s rule: exec_node_exec_list_exec_items.induct)
  case (1 x f t e s)
  then show ?case by (auto split: prod.splits option.splits intro!: run_stops dest: limited_write_spends)
next
  case (2 x f p e s)
  obtain t r where t: "eval_pipe x p e s = (t, r)" by fastforce
  from eval_pipe_spends [OF t 2(1)] have s: "spends x 0 s t" "render_ok x t" by (auto simp: spends_def)
  have out: "spends x 0 s t'" if "limited_write (xe_max x) (xe_abort x) p t = (t', r')" for p t' r'
    using spends_trans [OF s(1) limited_write_spends [OF that s(2)]] by simp
  with t show ?case using s(1)
    by (auto split: sum.splits prod.splits option.splits intro!: run_stops)
next
  case (3 x f p l els e s)
  obtain t r where t: "eval_pipe x p e s = (t, r)" by fastforce
  from eval_pipe_spends [OF t 3(2)] have s: "spends x 0 s t" "render_ok x t" by (auto simp: spends_def)
  show ?case
  proof (cases r)
    case (Inl err)
    with t s show ?thesis by (simp add: run_stops)
  next
    case (Inr w)
    obtain v e1 where w: "w = (v, e1)" by fastforce
    obtain u r2 where u: "exec_list x f (if xe_truth x v then l else els) e1 t = (u, r2)" by fastforce
    from 3(1) [OF t [symmetric] Inr w [symmetric] s(2)] 3(3,4) have "run_ok x f 0 t (u, r2)" by (simp add: u)
    with run_after [OF s(1)] have "run_ok x f 0 s (u, r2)" by fastforce
    then show ?thesis using u by (auto simp: t Inr w split: flow.split elim: run_same)
  qed
next
  case (4 x f p l els e s)
  obtain t r where t: "eval_pipe x p e s = (t, r)" by fastforce
  from eval_pipe_spends [OF t 4(3)] have s: "spends x 0 s t" "render_ok x t" by (auto simp: spends_def)
  show ?case
  proof (cases r)
    case (Inl err)
    with t s show ?thesis by (simp add: run_stops)
  next
    case (Inr w)
    obtain v e1 where w: "w = (v, e1)" by fastforce
    obtain u r2 where u: "(if xe_truth x v then exec_list x f l (xe_dot x v e1) t else exec_list x f els e1 t) = (u, r2)" by fastforce
    from 4(1) [OF t [symmetric] Inr w [symmetric] _ s(2)] 4(2) [OF t [symmetric] Inr w [symmetric] _ s(2)] 4(4,5) u have "run_ok x f 0 t (u, r2)"
      by (cases "xe_truth x v") simp_all
    with run_after [OF s(1)] have "run_ok x f 0 s (u, r2)" by fastforce
    then show ?thesis using u by (auto simp: t Inr w split: flow.split elim: run_same)
  qed
next
  case (5 x f p l els e s)
  obtain t r where t: "eval_pipe x p e s = (t, r)" by fastforce
  from eval_pipe_spends [OF t 5(3)] have s: "spends x 0 s t" "render_ok x t" by (auto simp: spends_def)
  show ?case
  proof (cases r)
    case (Inl err)
    with t s show ?thesis by (simp add: run_stops)
  next
    case (Inr w)
    obtain v e1 where w: "w = (v, e1)" by fastforce
    show ?thesis
    proof (cases "range_items v")
      case (Inl err)
      with t s Inr w show ?thesis by (simp add: run_stops)
    next
      case (Inr xs)
      obtain u r2 where u: "(if xs = [] then exec_list x f els e1 t else exec_items x f (pipe_vars p) l 0 xs e1 t) = (u, r2)" by fastforce
      from 5(4) obtain q where "p = add_cmd GuardRange q" by auto
      with eval_pipe_range [of x q e s t v e1 xs] t \<open>r = Inr w\<close> w 5(3) Inr
      have b: "int (re_bodies t) - int (re_bodies s) + int (length xs) \<le> re_steps t - re_steps s" by simp
      have "run_ok x f (length xs) t (u, r2)"
      proof (cases "xs = []")
        case True
        with 5(1) [OF t [symmetric] \<open>r = Inr w\<close> w [symmetric] Inr True s(2)] 5(4,5) u show ?thesis by simp
      next
        case False
        with 5(2) [OF t [symmetric] \<open>r = Inr w\<close> w [symmetric] Inr False s(2)] 5(4,5) u show ?thesis by simp
      qed
      with s(1) b have "run_ok x f 0 s (u, r2)" by (auto simp: run_ok_def spends_def)
      then show ?thesis using u by (auto simp: t \<open>r = Inr w\<close> w Inr split: flow.split elim: run_same)
    qed
  qed
next
  case (6 x f name po e s)
  show ?case
  proof (cases "tget (xe_templates x) name")
    case None
    with 6(2) show ?thesis by (simp add: run_stops spends_refl)
  next
    case (Some ns)
    from tget_Some_mem [OF Some] 6(4) have g: "list_all good_node ns" by (auto simp: list_all_iff)
    from 6(3) obtain q where q: "po = Some (add_cmd GuardCall q)" by auto
    obtain t r where t: "eval_pipe x (add_cmd GuardCall q) e s = (t, r)" by fastforce
    from eval_pipe_spends [OF t 6(2)] have s: "spends x 0 s t" "render_ok x t" by (auto simp: spends_def)
    show ?thesis
    proof (cases r)
      case (Inl err)
      with t s Some show ?thesis by (simp add: q run_stops)
    next
      case (Inr w)
      obtain v e1 where w: "w = (v, e1)" by fastforce
      from eval_pipe_call [OF t [unfolded Inr w] 6(2)] have c: "re_steps s < re_steps t" "spends x 0 s (t\<lparr>re_bodies := re_bodies t + 1\<rparr>)" by simp_all
      let ?t = "t\<lparr>re_bodies := re_bodies t + 1\<rparr>"
      show ?thesis
      proof (cases f)
        case 0
        have "re_steps t \<le> MaxSteps" using s(2) by (simp add: render_ok_def)
        with c(1) have "\<not> MaxSteps - re_steps s \<le> int f" by (simp add: 0)
        with s t Some Inr w 0 show ?thesis by (simp add: q run_ok_def)
      next
        case (Suc f')
        obtain u r2 where u: "exec_list x f' ns (xe_root x v) ?t = (u, r2)" by fastforce
        have "render_ok x ?t" using c(2) by (simp add: spends_def)
        with 6(1) [OF Some _ Inr w [symmetric] Suc] t q g 6(4) u have "run_ok x f' 0 ?t (u, r2)" by simp
        with c s(2) have "run_ok x f 0 s (u, r2)" by (auto simp: run_ok_def spends_def Suc)
        then show ?thesis using u by (auto simp: q t Some Inr w Suc split: flow.split elim: run_same)
      qed
    qed
  qed
next
  case (10 x f n ns e s)
  obtain t r where t: "exec_node x f n e s = (t, r)" by fastforce
  from 10(1,3-5) t have r: "run_ok x f 0 s (t, r)" by simp
  then have "render_ok x t" by (simp add: run_ok_def spends_def)
  with 10(2) [OF t [symmetric]] 10(4,5) run_then [OF r] r t show ?case by (auto split: flow.split)
next
  case (12 x f d l i v vs e s)
  let ?s = "s\<lparr>re_bodies := re_bodies s + 1\<rparr>"
  obtain t r where t: "exec_list x f l (xe_iter x d i v e) ?s = (t, r)" by fastforce
  have "render_ok x ?s" using 12(4) by (simp add: render_ok_def)
  with 12(1,5,6) t have r0: "run_ok x f 0 ?s (t, r)" by simp
  then have r: "run_ok x f 1 s (t, r)" and ok: "render_ok x t" and sp: "spends x 1 s t" by (auto simp: run_ok_def spends_def)
  have more: "run_ok x f (Suc (length vs)) s q" if "run_ok x f (length vs) t q" for q using run_after [OF sp that] by simp
  have stop: "run_ok x f (Suc (length vs)) s (t, r')" if "r' = OutOfFuel \<longleftrightarrow> r = OutOfFuel" for r' using r that by (auto simp: run_ok_def spends_def)
  show ?case
    using 12(2) [OF t [symmetric] _ ok] 12(3) [OF t [symmetric] _ ok] 12(5,6) t
    by (cases r) (auto intro: more stop)
qed (simp_all add: run_stops spends_refl)

text \<open>C29. Rendering always ends: whatever the template, however its templates call each other and whatever the
  data, the guarded tree is executed with at most one hundred thousand iterations and template calls in all,
  and what it has written never exceeds the limit.\<close>

theorem render_ends:
  assumes "Render x name data = (s, r)"
  shows "r \<noteq> OutOfFuel \<and> int (re_bodies s) \<le> re_steps s \<and> re_steps s \<le> MaxSteps \<and> length (re_out s) \<le> xe_max x"
proof -
  define y where "y = x\<lparr>xe_templates := map (\<lambda>(k, ns). (k, guardTree ns)) (xe_templates x)\<rparr>"
  have g: "list_all (list_all good_node \<circ> snd) (xe_templates y)" by (auto simp: y_def list_all_iff good_guardTree [unfolded list_all_iff])
  have ok: "render_ok y fresh_render" by (simp add: render_ok_def fresh_render_def MaxSteps_def)
  show ?thesis
  proof (cases "tget (xe_templates y) name")
    case None
    with assms show ?thesis by (auto simp: Render_def y_def [symmetric] Let_def fresh_render_def MaxSteps_def)
  next
    case (Some ns)
    from tget_Some_mem [OF Some] g have "list_all good_node ns" by (auto simp: list_all_iff)
    from exec_ok(2) [OF ok this g, of "nat MaxSteps" "xe_root y data"] assms Some
    have "run_ok y (nat MaxSteps) 0 fresh_render (s, r)" by (simp add: Render_def y_def [symmetric] Let_def)
    then show ?thesis by (auto simp: run_ok_def spends_def render_ok_def fresh_render_def MaxSteps_def y_def)
  qed
qed

text \<open>A template that repeats a text for two elements and calls another one.\<close>

definition demo_templates :: "(tval, unit) template_env" where
  "demo_templates = \<lparr>xe_cmd = (\<lambda>c e prev. Inr c), xe_decl = (\<lambda>d v e. e), xe_iter = (\<lambda>d i v e. e), xe_dot = (\<lambda>v e. e),
     xe_root = (\<lambda>v. ()), xe_leave = (\<lambda>e e2. e), xe_print = (\<lambda>v. []), xe_truth = (\<lambda>v. True),
     xe_templates = [(''page'', [RangeNode (Pipe [] [Other (TList [TBool True, TBool False])]) [TextNode ''a''] [], TemplateNode ''tail'' None]),
       (''tail'', [TextNode ''b''])],
     xe_max = 100, xe_abort = (\<lambda>k. False)\<rparr>"

lemma MaxSteps_Suc: "nat MaxSteps = Suc 99999"
  by (simp add: MaxSteps_def)

lemma demo_renders:
  "Render demo_templates ''page'' TNil = (\<lparr>re_steps = 3, re_looks = 9, re_out = ''aab'', re_bodies = 3\<rparr>, Normal ())"
  unfolding Render_def MaxSteps_Suc
  by (simp add: demo_templates_def Let_def guardTree_def add_cmd_def eval_pipe_def eval_cmd_def guard_bound_def guard_take_def
      limited_write_def range_items_def pipe_vars_def fresh_render_def MaxSteps_def)

lemma render_ends_witness: "(3 :: int) \<le> MaxSteps \<and> length ''aab'' \<le> xe_max demo_templates"
  using render_ends [OF demo_renders] by simp

end
