(* ===== verification/Media_Stream.thy ===== *)
theory Media_Stream
  imports Media_Params
begin

text \<open>
  Reading the stream file of a rendition into the frames an engine loops,
  \<^verbatim>\<open>backend/internal/media/stream.go\<close>. The segments of a JPEG image are decoded by a library: whether each
  decodes, and the frame size in the frame header, are inputs.
\<close>

type_synonym bytes = "8 word list"

record video_source =
  vs_VPS :: "bytes option"
  vs_SPS :: "bytes option"
  vs_PPS :: "bytes option"
  vs_AccessUnits :: "bytes list list"

definition no_source :: video_source where
  "no_source = \<lparr>vs_VPS = None, vs_SPS = None, vs_PPS = None, vs_AccessUnits = []\<rparr>"

datatype file_error =
    NoStartCode | TooManyNALUs nat | NoFrames | TooManyFrames nat | MissingParameterSets | NoKeyframe
  | NotAJPEG | TruncatedJPEG | BadSegment | FrameSize nat nat | ScanBeforeFrame | MarkerInScan "8 word" | MarkerNotRTP "8 word"
  | FrameError nat file_error | CodecNotSupported string

definition maxFrames :: nat where "maxFrames = 600"
definition maxNALUs :: nat where "maxNALUs = 4 * maxFrames"

section \<open>NAL units\<close>

text \<open>The length of a start code at the head of the data, or 0.\<close>

definition start_code :: "bytes \<Rightarrow> nat" where
  "start_code bs =
    (if 3 \<le> length bs \<and> bs ! 0 = 0 \<and> bs ! 1 = 0 \<and> bs ! 2 = 1 then 3
     else if 4 \<le> length bs \<and> bs ! 0 = 0 \<and> bs ! 1 = 0 \<and> bs ! 2 = 0 \<and> bs ! 3 = 1 then 4 else 0)"

definition trim_zeros :: "bytes \<Rightarrow> bytes" where
  "trim_zeros bs = rev (dropWhile (\<lambda>b. b = 0) (rev bs))"

definition emit_nalu :: "bytes \<Rightarrow> bytes list \<Rightarrow> bytes list" where
  "emit_nalu cur out = (if trim_zeros cur = [] then out else out @ [trim_zeros cur])"

text \<open>\<open>cur\<close> is the unit begun, read up to the position of the loop.\<close>

function (sequential) split_loop :: "bytes list \<Rightarrow> bytes \<Rightarrow> bytes \<Rightarrow> bytes list" where
  "split_loop out cur [] = emit_nalu cur out"
| "split_loop out cur (b # bs) =
    (if 0 < start_code (b # bs) then split_loop (emit_nalu cur out) [] (drop (start_code (b # bs)) (b # bs))
     else split_loop out (cur @ [b]) bs)"
  by pat_completeness auto

termination
  by (relation "measure (\<lambda>(out, cur, bs). length bs)") auto

definition splitAnnexB :: "bytes \<Rightarrow> (file_error, bytes list) result" where
  "splitAnnexB bs =
    (if start_code bs = 0 then Inl NoStartCode
     else let out = split_loop [] [] (drop (start_code bs) bs) in
       if maxNALUs < length out then Inl (TooManyNALUs (length out)) else Inr out)"

section \<open>Pictures\<close>

datatype nal = NalDrop | NalPrefix | NalSuffix | NalSlice | NalPicture

record grouping =
  gr_aus :: "bytes list list"
  gr_cur :: "bytes list"
  gr_slice :: bool

definition flush :: "grouping \<Rightarrow> grouping" where
  "flush g = (if gr_slice g then \<lparr>gr_aus = gr_aus g @ [gr_cur g], gr_cur = [], gr_slice = False\<rparr> else g)"

definition group_nalu :: "(bytes \<Rightarrow> nal) \<Rightarrow> grouping \<Rightarrow> bytes \<Rightarrow> grouping" where
  "group_nalu classify g n =
    (case classify n of
       NalDrop \<Rightarrow> g
     | NalPrefix \<Rightarrow> (let g = flush g in g\<lparr>gr_cur := gr_cur g @ [n]\<rparr>)
     | NalSuffix \<Rightarrow> g\<lparr>gr_cur := gr_cur g @ [n]\<rparr>
     | NalPicture \<Rightarrow> (let g = flush g in g\<lparr>gr_cur := gr_cur g @ [n], gr_slice := True\<rparr>)
     | NalSlice \<Rightarrow> g\<lparr>gr_cur := gr_cur g @ [n], gr_slice := True\<rparr>)"

definition group_all :: "(bytes \<Rightarrow> nal) \<Rightarrow> bytes list \<Rightarrow> bytes list list" where
  "group_all classify ns = gr_aus (flush (foldl (group_nalu classify) \<lparr>gr_aus = [], gr_cur = [], gr_slice = False\<rparr> ns))"

definition accessUnits :: "bytes \<Rightarrow> (bytes \<Rightarrow> nal) \<Rightarrow> (file_error, bytes list list) result" where
  "accessUnits bs classify =
    (case splitAnnexB bs of
       Inl e \<Rightarrow> Inl e
     | Inr ns \<Rightarrow>
         let aus = group_all classify ns in
         if aus = [] then Inl NoFrames
         else if maxFrames < length aus then Inl (TooManyFrames (length aus)) else Inr aus)"

definition hasNALU :: "bytes list \<Rightarrow> (bytes \<Rightarrow> bool) \<Rightarrow> bool" where
  "hasNALU au match = list_ex (\<lambda>n. n \<noteq> [] \<and> match n) au"

text \<open>Whether the top bit of byte \<open>i\<close> is set: the first slice of a picture opens with it.\<close>

definition first_slice :: "nat \<Rightarrow> bytes \<Rightarrow> bool" where
  "first_slice i n = (i < length n \<and> bit (n ! i) 7)"

section \<open>H.264\<close>

definition h264_type :: "bytes \<Rightarrow> nat" where
  "h264_type n = unat (n ! 0) mod 32"

definition h264_class :: "bytes \<Rightarrow> nal" where
  "h264_class n =
    (let t = h264_type n in
     if t = 9 then NalDrop
     else if t \<in> {1, 5, 2} then (if first_slice 1 n then NalPicture else NalSlice)
     else if t \<in> {3, 4} then NalSlice
     else if t \<in> {10, 11, 12} then NalSuffix
     else NalPrefix)"

text \<open>The first unit of a type.\<close>

definition first_of :: "(bytes \<Rightarrow> nat) \<Rightarrow> nat \<Rightarrow> bytes list \<Rightarrow> bytes option" where
  "first_of typ t ns = List.find (\<lambda>n. typ n = t) ns"

definition nalus_of :: "bytes \<Rightarrow> bytes list" where
  "nalus_of bs = (case splitAnnexB bs of Inl e \<Rightarrow> [] | Inr ns \<Rightarrow> ns)"

definition parseH264 :: "bytes \<Rightarrow> (file_error, video_source) result" where
  "parseH264 bs =
    (case accessUnits bs h264_class of
       Inl e \<Rightarrow> Inl e
     | Inr aus \<Rightarrow>
         let sps = first_of h264_type 7 (nalus_of bs); pps = first_of h264_type 8 (nalus_of bs) in
         if sps = None \<or> pps = None then Inl MissingParameterSets
         else if \<not> hasNALU (aus ! 0) (\<lambda>n. h264_type n = 5) then Inl NoKeyframe
         else Inr (no_source\<lparr>vs_SPS := sps, vs_PPS := pps, vs_AccessUnits := aus\<rparr>))"

section \<open>H.265\<close>

definition h265_type :: "bytes \<Rightarrow> nat" where
  "h265_type n = (unat (n ! 0) div 2) mod 64"

definition h265_class :: "bytes \<Rightarrow> nal" where
  "h265_class n =
    (let t = h265_type n in
     if length n < 2 then NalDrop
     else if t \<in> {32, 33, 34} then NalPrefix
     else if t = 35 then NalDrop
     else if t \<le> 31 then (if first_slice 2 n then NalPicture else NalSlice)
     else if t \<in> {40, 36, 37, 38} then NalSuffix
     else NalPrefix)"

text \<open>A unit of one byte is dropped before its type is read.\<close>

definition h265_first :: "nat \<Rightarrow> bytes list \<Rightarrow> bytes option" where
  "h265_first t ns = first_of h265_type t (filter (\<lambda>n. 2 \<le> length n) ns)"

definition parseH265 :: "bytes \<Rightarrow> (file_error, video_source) result" where
  "parseH265 bs =
    (case accessUnits bs h265_class of
       Inl e \<Rightarrow> Inl e
     | Inr aus \<Rightarrow>
         let vps = h265_first 32 (nalus_of bs); sps = h265_first 33 (nalus_of bs); pps = h265_first 34 (nalus_of bs) in
         if vps = None \<or> sps = None \<or> pps = None then Inl MissingParameterSets
         else if \<not> hasNALU (aus ! 0) (\<lambda>n. 16 \<le> h265_type n \<and> h265_type n \<le> 23) then Inl NoKeyframe
         else Inr (no_source\<lparr>vs_VPS := vps, vs_SPS := sps, vs_PPS := pps, vs_AccessUnits := aus\<rparr>))"

section \<open>MJPEG\<close>

record jpeg_lib =
  jp_frame :: "bytes \<Rightarrow> (nat \<times> nat) option"
  jp_quantization :: "bytes \<Rightarrow> bool"
  jp_restart :: "bytes \<Rightarrow> bool"
  jp_scan :: "bytes \<Rightarrow> bool"

text \<open>The entropy-coded data: what follows the end of the image.\<close>

fun scan_data :: "bytes \<Rightarrow> (file_error, bytes) result" where
  "scan_data (b # m # bs) =
    (if b \<noteq> 0xFF then scan_data (m # bs)
     else if m = 0xD9 then Inr bs
     else if m = 0 \<or> (0xD0 \<le> m \<and> m \<le> 0xD7) then scan_data bs
     else Inl (MarkerInScan m))"
| "scan_data bs = Inl TruncatedJPEG"

definition seg_size :: "bytes \<Rightarrow> nat" where
  "seg_size bs = unat (bs ! 2) * 256 + unat (bs ! 3)"

text \<open>The segments from a marker on; \<open>framed\<close> says whether a frame header was seen.\<close>

function (sequential) jpeg_segments :: "jpeg_lib \<Rightarrow> bool \<Rightarrow> bytes \<Rightarrow> (file_error, bytes) result" where
  "jpeg_segments lib framed bs =
    (if length bs < 4 \<or> bs ! 0 \<noteq> 0xFF then Inl TruncatedJPEG
     else let size = seg_size bs; marker = bs ! 1; seg = take (size - 2) (drop 4 bs); rest = drop (2 + size) bs in
       if size < 2 \<or> length bs < 2 + size then Inl TruncatedJPEG
       else if marker = 0xC0 then
         (case jp_frame lib seg of
            None \<Rightarrow> Inl BadSegment
          | Some (w, h) \<Rightarrow> if \<not> MJPEGFits w h then Inl (FrameSize w h) else jpeg_segments lib True rest)
       else if marker = 0xDB then (if jp_quantization lib seg then jpeg_segments lib framed rest else Inl BadSegment)
       else if marker = 0xDD then (if jp_restart lib seg then jpeg_segments lib framed rest else Inl BadSegment)
       else if marker = 0xDA then
         (if \<not> framed then Inl ScanBeforeFrame
          else if \<not> jp_scan lib seg then Inl BadSegment else scan_data rest)
       else if marker \<in> {0xE0, 0xE1, 0xE2, 0xC4, 0xFE} then jpeg_segments lib framed rest
       else Inl (MarkerNotRTP marker))"
  by pat_completeness auto

termination
  by (relation "measure (\<lambda>(lib, framed, bs). length bs)") (auto simp: Let_def)

declare jpeg_segments.simps [simp del]

definition nextJPEG :: "jpeg_lib \<Rightarrow> bytes \<Rightarrow> (file_error, bytes \<times> bytes) result" where
  "nextJPEG lib bs =
    (if length bs < 4 \<or> bs ! 0 \<noteq> 0xFF \<or> bs ! 1 \<noteq> 0xD8 then Inl NotAJPEG
     else case jpeg_segments lib False (drop 2 bs) of
       Inl e \<Rightarrow> Inl e
     | Inr rest \<Rightarrow> Inr (take (length bs - length rest) bs, rest))"

lemma scan_data_suffix: "scan_data bs = Inr rest \<Longrightarrow> \<exists>p. bs = p @ [0xFF, 0xD9] @ rest"
proof (induction bs rule: scan_data.induct)
  case (1 b m bs)
  then show ?case by (auto split: if_splits)
qed simp_all

lemma jpeg_segments_suffix: "jpeg_segments lib framed bs = Inr rest \<Longrightarrow> \<exists>p. bs = p @ [0xFF, 0xD9] @ rest"
proof (induction "length bs" arbitrary: framed bs rule: less_induct)
  case less
  let ?r = "drop (2 + seg_size bs) bs"
  have scan: "\<exists>p. bs = p @ [0xFF, 0xD9] @ rest" if "scan_data ?r = Inr rest"
    using scan_data_suffix [OF that] by (metis append_assoc append_take_drop_id)
  have more: "\<exists>p. bs = p @ [0xFF, 0xD9] @ rest" if "jpeg_segments lib f ?r = Inr rest" "4 \<le> length bs" for f
    using less.hyps [of ?r f] that by (metis add.commute append_assoc append_take_drop_id diff_less length_drop numeral_le_iff order_less_le_trans zero_less_numeral add_gr_0)
  from less.prems show ?case
    by (subst (asm) jpeg_segments.simps) (auto simp only: Let_def add_2_eq_Suc' split: if_splits option.splits prod.splits
      intro: scan more dest: leI)
qed

lemma nextJPEG_splits:
  "nextJPEG lib bs = Inr (frame, rest) \<Longrightarrow> bs = frame @ rest \<and> (\<exists>p. frame = [0xFF, 0xD8] @ p @ [0xFF, 0xD9])"
proof -
  assume n: "nextJPEG lib bs = Inr (frame, rest)"
  then obtain p where p: "drop 2 bs = p @ [0xFF, 0xD9] @ rest" "frame = take (length bs - length rest) bs" "bs ! 0 = 0xFF" "bs ! 1 = 0xD8" "4 \<le> length bs"
    by (auto simp: nextJPEG_def split: if_splits sum.splits dest!: jpeg_segments_suffix)
  have "bs = [bs ! 0, bs ! 1] @ drop 2 bs" using p(5) by (cases bs; cases "tl bs") auto
  moreover define q where "q = [0xFF, 0xD8] @ p @ [0xFF, 0xD9 :: 8 word]"
  ultimately have "bs = q @ rest" using p(1,3,4) by simp
  moreover from this have "frame = q" using p(2) by simp
  ultimately show ?thesis by (auto simp: q_def)
qed

function (sequential) mjpeg_loop :: "jpeg_lib \<Rightarrow> bytes list list \<Rightarrow> bytes \<Rightarrow> (file_error, bytes list list) result" where
  "mjpeg_loop lib aus [] = Inr aus"
| "mjpeg_loop lib aus bs =
    (case nextJPEG lib bs of
       Inl e \<Rightarrow> Inl (FrameError (length aus + 1) e)
     | Inr (frame, rest) \<Rightarrow>
         if maxFrames < length aus + 1 then Inl (TooManyFrames (length aus + 1)) else mjpeg_loop lib (aus @ [[frame]]) rest)"
  by pat_completeness auto

termination
  by (relation "measure (\<lambda>(lib, aus, bs). length bs)") (auto dest!: nextJPEG_splits)

definition parseMJPEG :: "jpeg_lib \<Rightarrow> bytes \<Rightarrow> (file_error, video_source) result" where
  "parseMJPEG lib bs =
    (case mjpeg_loop lib [] bs of
       Inl e \<Rightarrow> Inl e
     | Inr aus \<Rightarrow> if aus = [] then Inl NoFrames else Inr (no_source\<lparr>vs_AccessUnits := aus\<rparr>))"

definition ParseStream :: "jpeg_lib \<Rightarrow> string \<Rightarrow> bytes \<Rightarrow> (file_error, video_source) result" where
  "ParseStream lib codec bs =
    (if codec = ''h264'' then parseH264 bs
     else if codec = ''h265'' then parseH265 bs
     else if codec = ''mjpeg'' then parseMJPEG lib bs
     else Inl (CodecNotSupported codec))"

section \<open>Splitting is the inverse of joining with start codes\<close>

text \<open>A unit as an encoder writes it: not empty, without a start code inside, not ending in a zero byte.\<close>

definition clean_nalu :: "bytes \<Rightarrow> bool" where
  "clean_nalu n = (n \<noteq> [] \<and> last n \<noteq> 0 \<and> (\<forall>k<length n. start_code (drop k n) = 0))"

definition start_code_bytes :: "bool \<Rightarrow> bytes" where
  "start_code_bytes long = (if long then [0, 0, 0, 1] else [0, 0, 1])"

definition annexB :: "(bool \<times> bytes) list \<Rightarrow> bytes" where
  "annexB us = concat (map (\<lambda>(long, n). start_code_bytes long @ n) us)"

lemma start_code_bytes_code: "start_code (start_code_bytes long @ bs) = length (start_code_bytes long)"
  by (simp add: start_code_def start_code_bytes_def nth_append)

text \<open>A start code cannot begin in a unit and end after it, for the unit does not end in a zero.\<close>

lemma start_code_append:
  assumes "p \<noteq> []" "last p \<noteq> 0" "start_code p = 0"
  shows "start_code (p @ bs) = 0"
proof -
  have l: "p ! (length p - 1) \<noteq> 0" using assms(1,2) by (simp add: last_conv_nth)
  have "length p \<noteq> 0" using assms(1) by simp
  then have "length p = 1 \<or> length p = 2 \<or> length p = 3 \<or> 4 \<le> length p" by arith
  then consider "length p = 1" | "length p = 2" | "length p = 3" | "4 \<le> length p" by blast
  then show ?thesis
    using l assms(3) by cases (auto simp: start_code_def nth_append split: if_splits)
qed

lemma trim_zeros_last: "n \<noteq> [] \<Longrightarrow> last n \<noteq> 0 \<Longrightarrow> trim_zeros n = n"
  by (cases n rule: rev_cases) (simp_all add: trim_zeros_def)

lemma split_loop_unit:
  assumes "\<forall>k<length n. start_code (drop k n) = 0" "n \<noteq> [] \<longrightarrow> last n \<noteq> 0"
  shows "split_loop out cur (n @ bs) = split_loop out (cur @ n) bs"
  using assms
proof (induction n arbitrary: cur)
  case (Cons b n)
  have "start_code ((b # n) @ bs) = 0" using Cons.prems by (intro start_code_append) (auto dest: spec [of _ 0])
  moreover have "\<forall>k<length n. start_code (drop k n) = 0" using Cons.prems(1) by (metis Suc_less_eq drop_Suc_Cons length_Cons)
  ultimately show ?case using Cons.IH [of "cur @ [b]"] Cons.prems(2) by (cases "n = []") simp_all
qed simp

lemma split_loop_annexB:
  "\<forall>(long, n)\<in>set us. clean_nalu n \<Longrightarrow> split_loop out cur (annexB us) =
    (if us = [] then emit_nalu cur out else emit_nalu cur out @ map snd us)"
proof (induction us arbitrary: out cur)
  case Nil
  then show ?case by (simp add: annexB_def)
next
  case (Cons u us)
  obtain long n where u: "u = (long, n)" by (cases u)
  have n: "clean_nalu n" using Cons.prems u by simp
  have sc: "start_code_bytes long @ n @ annexB us \<noteq> []" "0 < start_code (start_code_bytes long @ n @ annexB us)"
    by (simp_all add: start_code_bytes_code, simp_all add: start_code_bytes_def)
  have "split_loop out cur (annexB (u # us)) = split_loop out cur (start_code_bytes long @ n @ annexB us)"
    by (simp add: annexB_def u)
  also have "\<dots> = split_loop (emit_nalu cur out) [] (n @ annexB us)"
    using sc by (cases "start_code_bytes long @ n @ annexB us") (simp_all, metis append_Nil append_eq_conv_conj start_code_bytes_code)
  also have "\<dots> = split_loop (emit_nalu cur out) n (annexB us)"
    using split_loop_unit [of n "emit_nalu cur out" "[]" "annexB us"] n by (simp add: clean_nalu_def)
  also have "\<dots> = emit_nalu n (emit_nalu cur out) @ map snd us"
    using Cons by (simp split: if_splits)
  also have "\<dots> = emit_nalu cur out @ map snd (u # us)"
    using n by (simp add: emit_nalu_def [of n] clean_nalu_def trim_zeros_last u)
  finally show ?case by simp
qed

section \<open>The pictures are the file, in order\<close>

definition has_slice :: "(bytes \<Rightarrow> nal) \<Rightarrow> bytes list \<Rightarrow> bool" where
  "has_slice classify au = (\<exists>n\<in>set au. classify n \<in> {NalSlice, NalPicture})"

text \<open>A picture holds a slice, and no unit after its first slice opens another picture.\<close>

definition one_picture :: "(bytes \<Rightarrow> nal) \<Rightarrow> bytes list \<Rightarrow> bool" where
  "one_picture classify au = (\<forall>k<length au. classify (au ! k) \<in> {NalPicture, NalPrefix} \<longrightarrow> \<not> has_slice classify (take k au))"

definition sent_nalus :: "(bytes \<Rightarrow> nal) \<Rightarrow> bytes list \<Rightarrow> bytes list" where
  "sent_nalus classify ns = filter (\<lambda>n. classify n \<noteq> NalDrop) ns"

definition grouped :: "(bytes \<Rightarrow> nal) \<Rightarrow> bytes list \<Rightarrow> grouping \<Rightarrow> bool" where
  "grouped classify ns g = (concat (gr_aus g) @ gr_cur g = sent_nalus classify ns \<and>
     (\<forall>au\<in>set (gr_aus g). has_slice classify au \<and> one_picture classify au) \<and>
     one_picture classify (gr_cur g) \<and> gr_slice g = has_slice classify (gr_cur g))"

lemma one_picture_Nil [simp]: "one_picture classify []" "\<not> has_slice classify []"
  by (simp_all add: one_picture_def has_slice_def)

lemma has_slice_snoc [simp]: "has_slice classify (au @ [n]) \<longleftrightarrow> has_slice classify au \<or> classify n \<in> {NalSlice, NalPicture}"
  by (auto simp: has_slice_def)

lemma one_picture_snoc:
  "one_picture classify (au @ [n]) \<longleftrightarrow> one_picture classify au \<and> (classify n \<in> {NalPicture, NalPrefix} \<longrightarrow> \<not> has_slice classify au)"
  by (auto simp: one_picture_def nth_append less_Suc_eq)

lemma grouped_flush: "grouped classify ns g \<Longrightarrow> grouped classify ns (flush g) \<and> \<not> gr_slice (flush g)"
  by (auto simp: grouped_def flush_def)

lemma sent_nalus_snoc: "sent_nalus classify (ns @ [n]) = sent_nalus classify ns @ (if classify n = NalDrop then [] else [n])"
  by (simp add: sent_nalus_def)

lemma grouped_step: "grouped classify ns g \<Longrightarrow> grouped classify (ns @ [n]) (group_nalu classify g n)"
  using grouped_flush [of classify ns g]
  by (cases "classify n") (auto simp: grouped_def group_nalu_def Let_def one_picture_snoc sent_nalus_snoc)

lemma grouped_fold: "grouped classify ns (foldl (group_nalu classify) \<lparr>gr_aus = [], gr_cur = [], gr_slice = False\<rparr> ns)"
  by (induction ns rule: rev_induct) (simp add: grouped_def sent_nalus_def, simp add: grouped_step)

lemma group_all_facts:
  "\<exists>rest. concat (group_all classify ns) @ rest = sent_nalus classify ns \<and> \<not> has_slice classify rest \<and>
    (\<forall>au\<in>set (group_all classify ns). has_slice classify au \<and> one_picture classify au)"
  using grouped_flush [OF grouped_fold [of classify ns]] by (fastforce simp: group_all_def grouped_def)

lemma accessUnits_facts:
  "accessUnits bs classify = Inr aus \<Longrightarrow> aus \<noteq> [] \<and> length aus \<le> maxFrames \<and>
    (\<exists>rest. concat aus @ rest = sent_nalus classify (nalus_of bs) \<and> \<not> has_slice classify rest) \<and>
    (\<forall>au\<in>set aus. has_slice classify au \<and> one_picture classify au)"
  using group_all_facts [of classify "nalus_of bs"]
  by (auto simp: accessUnits_def nalus_of_def Let_def split: sum.splits if_splits)

lemma mjpeg_loop_facts:
  "mjpeg_loop lib aus bs = Inr out \<Longrightarrow> length aus \<le> maxFrames \<Longrightarrow> length out \<le> maxFrames \<and>
    (\<exists>new. out = aus @ new \<and> concat (concat new) = bs \<and> (\<forall>au\<in>set new. \<exists>p. au = [[0xFF, 0xD8] @ p @ [0xFF, 0xD9]]))"
proof (induction lib aus bs rule: mjpeg_loop.induct)
  case (2 lib aus b bs)
  from "2.prems"(1) obtain frame rest where n: "nextJPEG lib (b # bs) = Inr (frame, rest)" "\<not> maxFrames < length aus + 1"
    "mjpeg_loop lib (aus @ [[frame]]) rest = Inr out"
    by (auto split: sum.splits prod.splits if_splits)
  from "2.IH" [OF n(1) refl n(2) n(3)] n(2) obtain new where new: "length out \<le> maxFrames" "out = (aus @ [[frame]]) @ new" "concat (concat new) = rest"
    "\<forall>au\<in>set new. \<exists>p. au = [[0xFF, 0xD8] @ p @ [0xFF, 0xD9]]"
    by auto
  from nextJPEG_splits [OF n(1)] new show ?case by (intro conjI exI [of _ "[frame] # new"]) auto
qed simp

text \<open>What the frames of a stream file are, for the unit types of a codec.\<close>

definition frames_of :: "(bytes \<Rightarrow> nal) \<Rightarrow> bytes \<Rightarrow> bytes list list \<Rightarrow> bool" where
  "frames_of classify bs aus = ((\<exists>rest. concat aus @ rest = sent_nalus classify (nalus_of bs) \<and> \<not> has_slice classify rest) \<and>
     (\<forall>au\<in>set aus. has_slice classify au \<and> one_picture classify au))"

text \<open>C31. Splitting an Annex-B stream gives back the NAL units it was made of, whichever start codes separate them,
  up to the limit on their number.\<close>

theorem annexB_roundtrip:
  assumes "us \<noteq> []" "\<forall>(long, n)\<in>set us. clean_nalu n" "length us \<le> 2400"
  shows "splitAnnexB (annexB us) = Inr (map snd us)"
proof -
  obtain long n vs where u: "us = (long, n) # vs" using assms(1) by (cases us) auto
  have n: "clean_nalu n" using assms(2) u by simp
  have a: "annexB us = start_code_bytes long @ n @ annexB vs" by (simp add: annexB_def u)
  have "split_loop [] [] (n @ annexB vs) = split_loop [] n (annexB vs)"
    using split_loop_unit [of n "[]" "[]" "annexB vs"] n by (simp add: clean_nalu_def)
  also have "\<dots> = emit_nalu n [] @ map snd vs"
    using split_loop_annexB [of vs "[]" n] assms(2) by (simp add: u split: if_splits)
  also have "\<dots> = map snd us" using n by (simp add: emit_nalu_def clean_nalu_def trim_zeros_last u)
  finally have s: "split_loop [] [] (n @ annexB vs) = map snd us" .
  have "start_code (annexB us) = length (start_code_bytes long)" by (simp add: a start_code_bytes_code)
  moreover have "0 < length (start_code_bytes long)" by (simp add: start_code_bytes_def)
  ultimately show ?thesis using s assms(3) by (simp add: splitAnnexB_def Let_def a maxNALUs_def maxFrames_def)
qed

theorem annexB_roundtrip_witness:
  "splitAnnexB [0, 0, 0, 1, 0x67, 0x42, 0, 0, 1, 0x65, 0, 0x80] = Inr [[0x67, 0x42], [0x65, 0, 0x80]]"
proof -
  have "\<forall>(long, n)\<in>set [(True, [0x67, 0x42]), (False, [0x65, 0, 0x80])]. clean_nalu n"
    by (simp add: clean_nalu_def start_code_def All_less_Suc)
  from annexB_roundtrip [OF _ this] show ?thesis by (simp add: annexB_def start_code_bytes_def)
qed

text \<open>The first unit of a list that is of a kind.\<close>

definition first_unit :: "(bytes \<Rightarrow> bool) \<Rightarrow> bytes list \<Rightarrow> bytes option \<Rightarrow> bool" where
  "first_unit kind ns u = (\<exists>xs n ys. u = Some n \<and> ns = xs @ n # ys \<and> kind n \<and> (\<forall>x\<in>set xs. \<not> kind x))"

lemma first_unit_find: "List.find kind ns = Some n \<Longrightarrow> first_unit kind ns (Some n)"
proof (induction ns)
  case (Cons x ns)
  show ?case
  proof (cases "kind x")
    case True
    with Cons.prems show ?thesis unfolding first_unit_def by (intro exI [of _ "[]"] exI [of _ n] exI [of _ ns]) simp
  next
    case False
    with Cons obtain xs ys where "ns = xs @ n # ys" "kind n" "\<forall>x\<in>set xs. \<not> kind x" by (auto simp: first_unit_def)
    with False show ?thesis unfolding first_unit_def by (intro exI [of _ "x # xs"] exI [of _ n] exI [of _ ys]) simp
  qed
qed simp

lemma first_of_unit: "first_of typ t ns = Some n \<Longrightarrow> first_unit (\<lambda>n. typ n = t) ns (Some n)"
  unfolding first_of_def by (rule first_unit_find)

lemma find_filter: "List.find P (filter Q ns) = List.find (\<lambda>n. Q n \<and> P n) ns"
  by (induction ns) auto

lemma h265_first_unit: "h265_first t ns = Some n \<Longrightarrow> first_unit (\<lambda>n. 2 \<le> length n \<and> h265_type n = t) ns (Some n)"
  unfolding h265_first_def first_of_def find_filter by (rule first_unit_find)

text \<open>C30. The frames read from a stream file are between 1 and 600. Those of H.264 and H.265 are the units of the
  file in order, nothing but delimiters and a tail without slices left out, cut so that each frame has exactly the
  slices of one picture, the first with a keyframe, and the parameter sets announced are the first of each type in
  the file, wherever they stand; those of MJPEG are whole JPEG images that together are the file.\<close>

theorem stream_frames:
  assumes "ParseStream lib codec bs = Inr src"
  shows "1 \<le> length (vs_AccessUnits src) \<and> length (vs_AccessUnits src) \<le> 600 \<and>
    (codec = ''h264'' \<longrightarrow> frames_of h264_class bs (vs_AccessUnits src) \<and> vs_VPS src = None \<and>
       first_unit (\<lambda>n. h264_type n = 7) (nalus_of bs) (vs_SPS src) \<and> first_unit (\<lambda>n. h264_type n = 8) (nalus_of bs) (vs_PPS src) \<and>
       (\<exists>n\<in>set (vs_AccessUnits src ! 0). h264_type n = 5)) \<and>
    (codec = ''h265'' \<longrightarrow> frames_of h265_class bs (vs_AccessUnits src) \<and>
       first_unit (\<lambda>n. 2 \<le> length n \<and> h265_type n = 32) (nalus_of bs) (vs_VPS src) \<and>
       first_unit (\<lambda>n. 2 \<le> length n \<and> h265_type n = 33) (nalus_of bs) (vs_SPS src) \<and>
       first_unit (\<lambda>n. 2 \<le> length n \<and> h265_type n = 34) (nalus_of bs) (vs_PPS src) \<and>
       (\<exists>n\<in>set (vs_AccessUnits src ! 0). h265_type n \<in> {16..23})) \<and>
    (codec = ''mjpeg'' \<longrightarrow> concat (concat (vs_AccessUnits src)) = bs \<and>
       (\<forall>au\<in>set (vs_AccessUnits src). \<exists>p. au = [[0xFF, 0xD8] @ p @ [0xFF, 0xD9]]))"
proof -
  consider "codec = ''h264''" | "codec = ''h265''" | "codec = ''mjpeg''" using assms by (auto simp: ParseStream_def split: if_splits)
  then show ?thesis
  proof cases
    case 1
    with assms obtain aus sps pps where "accessUnits bs h264_class = Inr aus" "hasNALU (aus ! 0) (\<lambda>n. h264_type n = 5)"
      "first_of h264_type 7 (nalus_of bs) = Some sps" "first_of h264_type 8 (nalus_of bs) = Some pps"
      "src = no_source\<lparr>vs_SPS := Some sps, vs_PPS := Some pps, vs_AccessUnits := aus\<rparr>"
      by (auto simp: ParseStream_def parseH264_def Let_def split: sum.splits if_splits)
    with accessUnits_facts [of bs h264_class aus] 1 show ?thesis
      by (auto simp: frames_of_def hasNALU_def list_ex_iff maxFrames_def Suc_le_eq no_source_def dest!: first_of_unit)
  next
    case 2
    with assms obtain aus vps sps pps where "accessUnits bs h265_class = Inr aus" "hasNALU (aus ! 0) (\<lambda>n. 16 \<le> h265_type n \<and> h265_type n \<le> 23)"
      "h265_first 32 (nalus_of bs) = Some vps" "h265_first 33 (nalus_of bs) = Some sps" "h265_first 34 (nalus_of bs) = Some pps"
      "src = no_source\<lparr>vs_VPS := Some vps, vs_SPS := Some sps, vs_PPS := Some pps, vs_AccessUnits := aus\<rparr>"
      by (auto simp: ParseStream_def parseH265_def Let_def split: sum.splits if_splits)
    with accessUnits_facts [of bs h265_class aus] 2 show ?thesis
      by (auto simp: frames_of_def hasNALU_def list_ex_iff maxFrames_def Suc_le_eq no_source_def dest!: h265_first_unit)
  next
    case 3
    with assms have "mjpeg_loop lib [] bs = Inr (vs_AccessUnits src)" "vs_AccessUnits src \<noteq> []"
      by (auto simp: ParseStream_def parseMJPEG_def split: sum.splits if_splits)
    with mjpeg_loop_facts [of lib "[]" bs "vs_AccessUnits src"] 3 show ?thesis by (auto simp: maxFrames_def Suc_le_eq)
  qed
qed

definition demo_jpeg :: jpeg_lib where
  "demo_jpeg = \<lparr>jp_frame = (\<lambda>seg. Some (640, 480)), jp_quantization = (\<lambda>seg. True), jp_restart = (\<lambda>seg. True), jp_scan = (\<lambda>seg. True)\<rparr>"

theorem stream_frames_witness:
  "\<exists>src. ParseStream demo_jpeg ''h264'' [0, 0, 0, 1, 0x67, 0x42, 0, 0, 1, 0x68, 0xCE, 0, 0, 1, 0x65, 0x88, 0, 0, 1, 0x41, 0x9A] = Inr src \<and>
    frames_of h264_class [0, 0, 0, 1, 0x67, 0x42, 0, 0, 1, 0x68, 0xCE, 0, 0, 1, 0x65, 0x88, 0, 0, 1, 0x41, 0x9A] (vs_AccessUnits src)"
proof -
  let ?bs = "[0, 0, 0, 1, 0x67, 0x42, 0, 0, 1, 0x68, 0xCE, 0, 0, 1, 0x65, 0x88, 0, 0, 1, 0x41, 0x9A] :: bytes"
  have s: "splitAnnexB ?bs = Inr [[0x67, 0x42], [0x68, 0xCE], [0x65, 0x88], [0x41, 0x9A]]"
    by (simp add: splitAnnexB_def start_code_def emit_nalu_def trim_zeros_def Let_def maxNALUs_def maxFrames_def)
  have "ParseStream demo_jpeg ''h264'' ?bs = Inr \<lparr>vs_VPS = None, vs_SPS = Some [0x67, 0x42], vs_PPS = Some [0x68, 0xCE],
      vs_AccessUnits = [[[0x67, 0x42], [0x68, 0xCE], [0x65, 0x88]], [[0x41, 0x9A]]]\<rparr>"
    by (simp add: ParseStream_def parseH264_def accessUnits_def nalus_of_def s group_all_def group_nalu_def h264_class_def h264_type_def
        first_slice_def flush_def Let_def maxFrames_def first_of_def hasNALU_def no_source_def bit_simps)
  from stream_frames [OF this] this show ?thesis by simp
qed

text \<open>The parameter sets may follow the pictures: they are then announced, and no frame holds them.\<close>

lemma late_parameter_sets:
  "ParseStream demo_jpeg ''h264'' [0, 0, 1, 0x65, 0x88, 0, 0, 1, 0x67, 0x42, 0, 0, 1, 0x68, 0xCE] =
    Inr \<lparr>vs_VPS = None, vs_SPS = Some [0x67, 0x42], vs_PPS = Some [0x68, 0xCE], vs_AccessUnits = [[[0x65, 0x88]]]\<rparr>"
proof -
  have s: "splitAnnexB [0, 0, 1, 0x65, 0x88, 0, 0, 1, 0x67, 0x42, 0, 0, 1, 0x68, 0xCE] = Inr [[0x65, 0x88], [0x67, 0x42], [0x68, 0xCE]]"
    by (simp add: splitAnnexB_def start_code_def emit_nalu_def trim_zeros_def Let_def maxNALUs_def maxFrames_def)
  show ?thesis
    by (simp add: ParseStream_def parseH264_def accessUnits_def nalus_of_def s group_all_def group_nalu_def h264_class_def h264_type_def
        first_slice_def flush_def Let_def maxFrames_def first_of_def hasNALU_def no_source_def bit_simps)
qed

end
