(* ===== verification/Camera_State.thy ===== *)
theory Camera_State
  imports Profile_Claims "HOL-Library.List_Lexorder" "HOL-Library.Char_ord"
begin

text \<open>
  The parameters of a running camera, \<^verbatim>\<open>backend/internal/camera/state.go\<close>: reading, changing and watching them, and
  how a change a client makes reaches the service. The watchers are named by their identifiers.
\<close>

section \<open>The store\<close>

record origin =
  og_Kind :: string
  og_IP :: string
  og_Engine :: string

record param_change =
  pc_Key :: string
  pc_Value :: gval
  pc_Bind :: string
  pc_Origin :: origin

record listed_param =
  lp_Key :: string
  lp_Type :: param_type
  lp_Value :: gval
  lp_Bind :: string

record state_store =
  sv_values :: "(string, gval) table"
  sv_watchers :: "nat list"
  sv_next :: nat

definition put_valid :: "value_env \<Rightarrow> profile_doc \<Rightarrow> string \<times> gval \<Rightarrow> (string, gval) table \<Rightarrow> (string, gval) table" where
  "put_valid env doc kv values =
    (case kv of (k, v) \<Rightarrow>
      (case tget (pd_State doc) k of
         None \<Rightarrow> values
       | Some p \<Rightarrow> (case Coerce env p v of Inl e \<Rightarrow> values | Inr cv \<Rightarrow> tput k cv values)))"

definition newStateStore :: "value_env \<Rightarrow> profile_doc \<Rightarrow> (string, gval) table \<Rightarrow> state_store" where
  "newStateStore env doc initial = \<lparr>sv_values = fold (put_valid env doc) initial (Defaults doc), sv_watchers = [], sv_next = 0\<rparr>"

definition replace_state :: "value_env \<Rightarrow> profile_doc \<Rightarrow> (string, gval) table \<Rightarrow> state_store \<Rightarrow> state_store" where
  "replace_state env doc values s = s\<lparr>sv_values := fold (put_valid env doc) values (sv_values s)\<rparr>"

definition State_Get :: "string \<Rightarrow> state_store \<Rightarrow> gval option" where
  "State_Get k s = tget (sv_values s) k"

definition value_at :: "(string, gval) table \<Rightarrow> string \<Rightarrow> gval" where
  "value_at values k = (case tget values k of None \<Rightarrow> GNil | Some v \<Rightarrow> v)"

definition bind_of :: "profile_doc \<Rightarrow> string \<Rightarrow> string" where
  "bind_of doc k = (case tget (pd_State doc) k of None \<Rightarrow> [] | Some p \<Rightarrow> pa_Bind p)"

definition type_of :: "profile_doc \<Rightarrow> string \<Rightarrow> param_type" where
  "type_of doc k = (case tget (pd_State doc) k of None \<Rightarrow> TypeOther [] | Some p \<Rightarrow> pa_Type p)"

definition State_List :: "profile_doc \<Rightarrow> string \<Rightarrow> state_store \<Rightarrow> listed_param list" where
  "State_List doc prefix s =
    map (\<lambda>k. \<lparr>lp_Key = k, lp_Type = type_of doc k, lp_Value = value_at (sv_values s) k, lp_Bind = bind_of doc k\<rparr>)
      (sort (filter (has_prefix prefix) (tkeys (sv_values s))))"

text \<open>What \<open>Set\<close> answers, which watchers it calls and what it reports to the service.\<close>

record set_answer =
  sa_result :: "((string \<times> config_error) list, param_change list) result"
  sa_notified :: "nat list"
  sa_reported :: "param_change list"

definition set_one :: "value_env \<Rightarrow> profile_doc \<Rightarrow> origin \<Rightarrow> string \<times> gval \<Rightarrow>
    (string, gval) table \<times> param_change list \<Rightarrow> (string, gval) table \<times> param_change list" where
  "set_one env doc og kv acc =
    (case (kv, acc) of ((k, v), (values, changes)) \<Rightarrow>
       if sprint env (value_at values k) = sprint env v then (values, changes)
       else (tput k v values, changes @ [\<lparr>pc_Key = k, pc_Value = v, pc_Bind = bind_of doc k, pc_Origin = og\<rparr>]))"

definition State_Set :: "value_env \<Rightarrow> profile_doc \<Rightarrow> (string, gval) table \<Rightarrow> origin \<Rightarrow> state_store \<Rightarrow> state_store \<times> set_answer" where
  "State_Set env doc ins og s =
    (case coerce_all env doc ins of
       (errs, ok) \<Rightarrow>
         if errs \<noteq> [] then (s, \<lparr>sa_result = Inl errs, sa_notified = [], sa_reported = []\<rparr>)
         else case fold (set_one env doc og) (sort_key fst ok) (sv_values s, []) of
           (values, changes) \<Rightarrow>
             (s\<lparr>sv_values := values\<rparr>,
              if changes = [] then \<lparr>sa_result = Inr [], sa_notified = [], sa_reported = []\<rparr>
              else \<lparr>sa_result = Inr changes, sa_notified = sv_watchers s,
                     sa_reported = (if og_Kind og = ''client'' then changes else [])\<rparr>))"

definition State_Canon :: "profile_doc \<Rightarrow> string \<Rightarrow> state_store \<Rightarrow> gval option" where
  "State_Canon doc key s = Canon doc key (sv_values s)"

definition Watch :: "state_store \<Rightarrow> state_store \<times> nat" where
  "Watch s = (s\<lparr>sv_watchers := sv_watchers s @ [sv_next s], sv_next := sv_next s + 1\<rparr>, sv_next s)"

definition Unwatch :: "nat \<Rightarrow> state_store \<Rightarrow> state_store" where
  "Unwatch i s = s\<lparr>sv_watchers := filter (\<lambda>j. j \<noteq> i) (sv_watchers s)\<rparr>"

section \<open>Every value is one of its parameter\<close>

definition valid_values :: "value_env \<Rightarrow> profile_doc \<Rightarrow> state_store \<Rightarrow> bool" where
  "valid_values env doc s =
    (set (tkeys (sv_values s)) = set (tkeys (pd_State doc)) \<and>
     (\<forall>k p v. tget (pd_State doc) k = Some p \<longrightarrow> tget (sv_values s) k = Some v \<longrightarrow> v = pa_Default p \<or> of_param env p v))"

inductive state_step :: "value_env \<Rightarrow> profile_doc \<Rightarrow> state_store \<Rightarrow> state_store \<Rightarrow> bool" for env doc where
  set_values: "table_ok ins \<Longrightarrow> state_step env doc s (fst (State_Set env doc ins og s))"
| reload: "state_step env doc s (replace_state env doc values s)"
| watch: "state_step env doc s (fst (Watch s))"
| unwatch: "state_step env doc s (Unwatch i s)"

lemma put_valid_cases:
  "put_valid env doc (k, v) values = values \<or>
    (\<exists>p w. tget (pd_State doc) k = Some p \<and> of_param env p w \<and> put_valid env doc (k, v) values = tput k w values)"
  using Coerce_of_param [of env _ v] by (auto simp: put_valid_def split: option.split sum.split)

lemma valid_tput:
  "valid_values env doc s \<Longrightarrow> tget (pd_State doc) k = Some p \<Longrightarrow> of_param env p w \<Longrightarrow>
    valid_values env doc (s\<lparr>sv_values := tput k w (sv_values s)\<rparr>)"
  by (auto simp: valid_values_def dest: tget_Some_key split: if_splits)

lemma valid_put_all:
  "valid_values env doc s \<Longrightarrow> valid_values env doc (s\<lparr>sv_values := fold (put_valid env doc) vs (sv_values s)\<rparr>)"
proof (induction vs arbitrary: s)
  case (Cons kv vs)
  obtain k v where kv: "kv = (k, v)" by fastforce
  have "valid_values env doc (s\<lparr>sv_values := put_valid env doc kv (sv_values s)\<rparr>)"
    using put_valid_cases [of env doc k v "sv_values s"] valid_tput [OF Cons.prems] Cons.prems unfolding kv by auto
  from Cons.IH [OF this] show ?case by simp
qed simp

lemma valid_set_all:
  "valid_values env doc s \<Longrightarrow> \<forall>(k, v)\<in>set ok. \<exists>p. tget (pd_State doc) k = Some p \<and> of_param env p v \<Longrightarrow>
    valid_values env doc (s\<lparr>sv_values := fst (fold (set_one env doc og) ok (sv_values s, ch))\<rparr>)"
proof (induction ok arbitrary: s ch)
  case (Cons kv ok)
  obtain k v where kv: "kv = (k, v)" by fastforce
  from Cons.prems(2) kv obtain p where p: "tget (pd_State doc) k = Some p" "of_param env p v" by auto
  from Cons.IH [OF Cons.prems(1)] Cons.IH [OF valid_tput [OF Cons.prems(1) p]] Cons.prems(2) show ?case
    by (simp add: set_one_def kv)
qed simp

lemma coerce_all_valid:
  "coerce_all env doc ins = (errs, ok) \<Longrightarrow> \<forall>(k, v)\<in>set ok. \<exists>p. tget (pd_State doc) k = Some p \<and> of_param env p v"
  by (induction ins arbitrary: errs ok) (auto split: prod.splits option.splits sum.splits, metis Coerce_of_param)

lemma valid_Set:
  assumes "valid_values env doc s" shows "valid_values env doc (fst (State_Set env doc ins og s))"
proof -
  obtain errs ok where c: "coerce_all env doc ins = (errs, ok)" by fastforce
  from coerce_all_valid [OF c] have "\<forall>(k, v)\<in>set (sort_key fst ok). \<exists>p. tget (pd_State doc) k = Some p \<and> of_param env p v" by simp
  from valid_set_all [OF assms this, of og "[]"] assms show ?thesis by (auto simp: State_Set_def c split: prod.split)
qed

lemma valid_start: "valid_values env doc (newStateStore env doc initial)"
proof -
  let ?s = "\<lparr>sv_values = Defaults doc, sv_watchers = [], sv_next = 0\<rparr>"
  have "valid_values env doc ?s" by (simp add: valid_values_def Defaults_def tget_map_value) (simp add: tkeys_def case_prod_beta)
  from valid_put_all [OF this, of initial] show ?thesis by (simp add: newStateStore_def)
qed

interpretation parameters: machine "newStateStore env doc initial" "state_step env doc" "valid_values env doc" for env doc initial
proof
  show "valid_values env doc (newStateStore env doc initial)" by (rule valid_start)
  show "valid_values env doc t" if "valid_values env doc s" "state_step env doc s t" for s t
    using that(2,1) by cases (auto simp: valid_Set replace_state_def valid_put_all, auto simp: valid_values_def Watch_def Unwatch_def)
qed

text \<open>C14. Whatever a camera is started with, and whatever clients and the service change afterwards, it holds exactly
  the parameters of its profile, each with its default or a value of its type and range.\<close>

theorem parameters_valid:
  assumes "reach (state_step env doc) (newStateStore env doc initial) s"
  shows "set (tkeys (sv_values s)) = set (tkeys (pd_State doc)) \<and>
    (\<forall>k p v. tget (pd_State doc) k = Some p \<longrightarrow> State_Get k s = Some v \<longrightarrow> v = pa_Default p \<or> of_param env p v)"
  using parameters.inv_reachable [OF assms] by (simp add: valid_values_def State_Get_def)

lemma bright_coerces: "Coerce plain_env bright (GInt 70) = Inr (GInt 70)"
proof -
  have "float_of_int 70 = 70" using fl_of_int_exact [of 70] by (simp add: float_of_int_def)
  then show ?thesis by (simp add: Coerce_def bright_def toInt_def in_range_def)
qed

definition from_client :: origin where
  "from_client = \<lparr>og_Kind = ''client'', og_IP = ''10.0.0.9'', og_Engine = ''http''\<rparr>"

lemma toy_set:
  "State_Set plain_env toy_doc [(''Image.Brightness'', GInt 70)] from_client (newStateStore plain_env toy_doc []) =
    (\<lparr>sv_values = [(''Image.Brightness'', GInt 70)], sv_watchers = [], sv_next = 0\<rparr>,
     \<lparr>sa_result = Inr [\<lparr>pc_Key = ''Image.Brightness'', pc_Value = GInt 70, pc_Bind = [], pc_Origin = from_client\<rparr>], sa_notified = [],
      sa_reported = [\<lparr>pc_Key = ''Image.Brightness'', pc_Value = GInt 70, pc_Bind = [], pc_Origin = from_client\<rparr>]\<rparr>)"
proof -
  have "sprint plain_env (GInt 50) \<noteq> sprint plain_env (GInt 70)" by (auto simp: sprint_def dest: itoa_inj)
  then show ?thesis
    using bright_coerces
    by (simp add: State_Set_def newStateStore_def toy_doc_def Defaults_def set_one_def value_at_def bind_of_def from_client_def)
      (simp add: bright_def)
qed

theorem parameters_valid_witness:
  "\<exists>s. reach (state_step plain_env toy_doc) (newStateStore plain_env toy_doc []) s \<and> State_Get ''Image.Brightness'' s = Some (GInt 70) \<and>
    of_param plain_env bright (GInt 70)"
proof -
  have t: "table_ok [(''Image.Brightness'', GInt 70)]" by (simp add: table_ok_def tkeys_def)
  let ?s = "fst (State_Set plain_env toy_doc [(''Image.Brightness'', GInt 70)] from_client (newStateStore plain_env toy_doc []))"
  have r: "reach (state_step plain_env toy_doc) (newStateStore plain_env toy_doc []) ?s"
    by (rule reach_step, rule reach_refl, rule set_values, rule t)
  have "tget (pd_State toy_doc) ''Image.Brightness'' = Some bright" "GInt 70 \<noteq> pa_Default bright" by (simp_all add: toy_doc_def bright_def)
  moreover have "State_Get ''Image.Brightness'' ?s = Some (GInt 70)" by (simp add: toy_set State_Get_def)
  ultimately have "of_param plain_env bright (GInt 70)" using parameters_valid [OF r] by blast
  with r show ?thesis by (intro exI [of _ ?s]) (simp add: toy_set State_Get_def)
qed

section \<open>All or nothing\<close>

lemma coerce_all_map:
  "coerce_all env doc ins = ([], ok) \<Longrightarrow> table_ok ins \<Longrightarrow> table_ok ok \<and> tkeys ok = tkeys ins"
  using coerce_all_ok [of env doc ins ok] by (simp add: table_ok_def tkeys_def)

lemma set_one_step:
  "set_one env doc og (k, v) (t, ch) =
    (if sprint env (value_at t k) = sprint env v then (t, ch)
     else (tput k v t, ch @ [\<lparr>pc_Key = k, pc_Value = v, pc_Bind = bind_of doc k, pc_Origin = og\<rparr>]))"
  by (simp add: set_one_def)

lemma set_all_values:
  assumes "distinct (map fst ok)"
  shows "tget (fst (fold (set_one env doc og) ok (t, ch))) k =
    (case map_of ok k of Some w \<Rightarrow> if sprint env (value_at t k) = sprint env w then tget t k else Some w | None \<Rightarrow> tget t k)"
  using assms
proof (induction ok arbitrary: t ch)
  case (Cons kv ok)
  obtain k' v where kv: "kv = (k', v)" by fastforce
  have "map_of ok k' = None" using Cons.prems by (simp add: kv map_of_eq_None_iff)
  then show ?case
    using Cons.IH [of t] Cons.IH [of "tput k' v t"] Cons.prems
    by (auto simp: kv set_one_step value_at_def split: option.split)
qed simp

lemma set_all_changes:
  assumes "distinct (map fst ok)"
  shows "snd (fold (set_one env doc og) ok (t, ch)) = ch @ map (\<lambda>(k, v). \<lparr>pc_Key = k, pc_Value = v, pc_Bind = bind_of doc k, pc_Origin = og\<rparr>)
    (filter (\<lambda>(k, v). sprint env (value_at t k) \<noteq> sprint env v) ok)"
  using assms
proof (induction ok arbitrary: t ch)
  case (Cons kv ok)
  obtain k' v where kv: "kv = (k', v)" by fastforce
  have fe: "filter (\<lambda>(k, w). sprint env (value_at (tput k' v t) k) \<noteq> sprint env w) ok = filter (\<lambda>(k, v). sprint env (value_at t k) \<noteq> sprint env v) ok"
    using Cons.prems by (intro filter_cong) (auto simp: kv value_at_def image_iff)
  have d: "distinct (map fst ok)" using Cons.prems by simp
  show ?case
    by (cases "sprint env (value_at t k') = sprint env v") (simp_all add: kv set_one_step Cons.IH [OF d] fe)
qed simp

lemma distinct_sort_key: "distinct (map fst ok) \<Longrightarrow> distinct (map fst (sort_key fst ok))"
  by (simp add: distinct_map)

lemma map_of_sort_key: "distinct (map fst ok) \<Longrightarrow> map_of (sort_key fst ok) = map_of ok"
  by (subst map_of_inject_set) (auto simp: distinct_sort_key)

text \<open>What a parameter reads as when it is given a value.\<close>

definition coerced_to :: "value_env \<Rightarrow> profile_doc \<Rightarrow> string \<Rightarrow> gval \<Rightarrow> gval option" where
  "coerced_to env doc k v =
    (case tget (pd_State doc) k of None \<Rightarrow> None | Some p \<Rightarrow> (case Coerce env p v of Inl e \<Rightarrow> None | Inr w \<Rightarrow> Some w))"

lemma coerced_to_Some: "coerced_to env doc k v = Some w \<longleftrightarrow> (\<exists>p. tget (pd_State doc) k = Some p \<and> Coerce env p v = Inr w)"
  by (auto simp: coerced_to_def split: option.splits sum.splits)

lemma coerce_all_errs:
  "fst (coerce_all env doc ins) = [] \<longleftrightarrow> list_all (\<lambda>(k, v). coerced_to env doc k v \<noteq> None) ins"
proof (induction ins)
  case (Cons kv ins)
  obtain k v where kv: "kv = (k, v)" by fastforce
  obtain errs ok where c: "coerce_all env doc ins = (errs, ok)" by fastforce
  with Cons.IH have "errs = [] \<longleftrightarrow> list_all (\<lambda>(k, v). coerced_to env doc k v \<noteq> None) ins" by simp
  then show ?case by (auto simp: kv c coerced_to_def [of env doc k v] simp del: not_None_eq split: option.split sum.split)
qed simp

text \<open>All that a successful \<open>Set\<close> does.\<close>

lemma State_Set_facts:
  assumes "table_ok ins" "State_Set env doc ins og s = (s', a)" "sa_result a = Inr cs"
  shows "(\<forall>k. State_Get k s' =
      (case tget ins k of None \<Rightarrow> State_Get k s
       | Some v \<Rightarrow> (case coerced_to env doc k v of None \<Rightarrow> None
                  | Some w \<Rightarrow> if sprint env (value_at (sv_values s) k) = sprint env w then State_Get k s else Some w))) \<and>
    (\<forall>k v. tget ins k = Some v \<longrightarrow> coerced_to env doc k v \<noteq> None) \<and>
    sorted (map pc_Key cs) \<and> distinct (map pc_Key cs) \<and>
    (\<forall>c. c \<in> set cs \<longleftrightarrow> (\<exists>k v w. tget ins k = Some v \<and> coerced_to env doc k v = Some w \<and>
       sprint env (value_at (sv_values s) k) \<noteq> sprint env w \<and> c = \<lparr>pc_Key = k, pc_Value = w, pc_Bind = bind_of doc k, pc_Origin = og\<rparr>)) \<and>
    sa_notified a = (if cs = [] then [] else sv_watchers s) \<and> sa_reported a = (if og_Kind og = ''client'' then cs else [])"
proof -
  obtain errs ok where c: "coerce_all env doc ins = (errs, ok)" by fastforce
  with assms(2,3) have e: "errs = []" by (auto simp: State_Set_def split: if_splits)
  let ?ok = "sort_key fst ok"
  from coerce_all_map [OF c [unfolded e] assms(1)] have "table_ok ok" by blast
  then have d: "distinct (map fst ok)" by (simp add: table_ok_def tkeys_def)
  note dk = distinct_sort_key [OF d]
  obtain t ch where f: "fold (set_one env doc og) ?ok (sv_values s, []) = (t, ch)" by fastforce
  have t: "tget t k = (case map_of ok k of Some w \<Rightarrow> if sprint env (value_at (sv_values s) k) = sprint env w then tget (sv_values s) k else Some w
      | None \<Rightarrow> tget (sv_values s) k)" for k
    using set_all_values [OF dk, of env doc og "sv_values s" "[]" k] by (simp add: f map_of_sort_key [OF d])
  have ch: "ch = map (\<lambda>(k, v). \<lparr>pc_Key = k, pc_Value = v, pc_Bind = bind_of doc k, pc_Origin = og\<rparr>)
      (filter (\<lambda>(k, v). sprint env (value_at (sv_values s) k) \<noteq> sprint env v) ?ok)"
    using set_all_changes [OF dk, of env doc og "sv_values s" "[]"] by (simp add: f)
  have a: "sv_values s' = t" "cs = ch" "sa_notified a = (if cs = [] then [] else sv_watchers s)"
    "sa_reported a = (if og_Kind og = ''client'' then cs else [])"
    using assms(2,3) by (auto simp: State_Set_def c e f split: if_splits)
  have ok: "map_of ok k = (case tget ins k of None \<Rightarrow> None | Some v \<Rightarrow> coerced_to env doc k v)" for k
  proof (cases "tget ins k")
    case None
    then have "k \<notin> set (tkeys ok)" using coerce_all_map [OF c [unfolded e] assms(1)] by (simp add: tget_None_iff)
    with None show ?thesis by (simp add: map_of_eq_None_iff tkeys_def)
  next
    case (Some v)
    with coerce_all_ok [OF c [unfolded e]] show ?thesis by (fastforce simp: tget_def [of ins] coerced_to_def)
  qed
  have given: "coerced_to env doc k v \<noteq> None" if "tget ins k = Some v" for k v
    using coerce_all_ok [OF c [unfolded e]] that by (fastforce simp: tget_def [of ins] coerced_to_def)
  have keys: "map pc_Key ch = map fst (filter (\<lambda>(k, v). sprint env (value_at (sv_values s) k) \<noteq> sprint env v) ?ok)"
    by (simp add: ch comp_def case_prod_unfold)
  have "sorted (map pc_Key ch)" unfolding keys by (rule sorted_filter) simp
  moreover have "distinct (map pc_Key ch)" unfolding keys using dk by (rule distinct_map_filter)
  moreover have "c' \<in> set ch \<longleftrightarrow> (\<exists>k v w. tget ins k = Some v \<and> coerced_to env doc k v = Some w \<and>
       sprint env (value_at (sv_values s) k) \<noteq> sprint env w \<and> c' = \<lparr>pc_Key = k, pc_Value = w, pc_Bind = bind_of doc k, pc_Origin = og\<rparr>)" for c'
  proof -
    have "(k, w) \<in> set ok \<longleftrightarrow> (\<exists>v. tget ins k = Some v \<and> coerced_to env doc k v = Some w)" for k w
      using ok [of k] map_of_eq_Some_iff [OF d, of k w] by (auto split: option.splits)
    then show ?thesis by (auto simp: ch)
  qed
  moreover have "State_Get k s' =
      (case tget ins k of None \<Rightarrow> State_Get k s
       | Some v \<Rightarrow> (case coerced_to env doc k v of None \<Rightarrow> None
                  | Some w \<Rightarrow> if sprint env (value_at (sv_values s) k) = sprint env w then State_Get k s else Some w))" for k
    using given [of k] by (cases "tget ins k") (auto simp: State_Get_def a(1) t ok)
  moreover note given a(3,4)
  ultimately show ?thesis unfolding a(2) by blast
qed

text \<open>C13. A request to change parameters is applied as a whole or not at all. It is refused exactly when it names a
  parameter the profile does not have or a value the parameter does not take, and then nothing changes and nobody is told.
  Otherwise every parameter given reads as its coerced value, the others stay, the changes are listed once each in
  the order of their keys, the watchers are called when there are any, and those a client made are reported.\<close>

theorem changes_all_or_nothing:
  assumes "table_ok ins" "State_Set env doc ins og s = (s', a)"
  shows "((\<exists>k v. tget ins k = Some v \<and> coerced_to env doc k v = None) \<longrightarrow>
      s' = s \<and> \<not> is_ok (sa_result a) \<and> sa_notified a = [] \<and> sa_reported a = []) \<and>
    ((\<forall>k v. tget ins k = Some v \<longrightarrow> coerced_to env doc k v \<noteq> None) \<longrightarrow>
      (\<exists>cs. sa_result a = Inr cs \<and>
        (\<forall>k v w. tget ins k = Some v \<longrightarrow> coerced_to env doc k v = Some w \<longrightarrow> sprint env (value_at (sv_values s') k) = sprint env w) \<and>
        (\<forall>k. tget ins k = None \<longrightarrow> State_Get k s' = State_Get k s) \<and>
        sorted (map pc_Key cs) \<and> distinct (map pc_Key cs) \<and>
        set (map pc_Key cs) = {k. \<exists>v w. tget ins k = Some v \<and> coerced_to env doc k v = Some w \<and> sprint env (value_at (sv_values s) k) \<noteq> sprint env w} \<and>
        sa_notified a = (if cs = [] then [] else sv_watchers s) \<and> sa_reported a = (if og_Kind og = ''client'' then cs else [])))"
proof -
  have "fst (coerce_all env doc ins) = [] \<longleftrightarrow> (\<forall>k v. tget ins k = Some v \<longrightarrow> coerced_to env doc k v \<noteq> None)"
    unfolding coerce_all_errs list_all_iff tget_iff_mem [OF assms(1)] by (auto simp del: not_None_eq)
  note good = this
  have bad: "(\<exists>k v. tget ins k = Some v \<and> coerced_to env doc k v = None) \<longleftrightarrow> fst (coerce_all env doc ins) \<noteq> []"
    unfolding good by auto
  show ?thesis
  proof (cases "fst (coerce_all env doc ins) = []")
    case False
    with assms(2) have "s' = s \<and> \<not> is_ok (sa_result a) \<and> sa_notified a = [] \<and> sa_reported a = []"
      by (auto simp: State_Set_def split: prod.splits)
    moreover have "\<not> (\<forall>k v. tget ins k = Some v \<longrightarrow> coerced_to env doc k v \<noteq> None)" using False unfolding good .
    ultimately show ?thesis by blast
  next
    case True
    with assms(2) obtain cs where cs: "sa_result a = Inr cs" by (auto simp: State_Set_def split: prod.splits if_splits)
    from State_Set_facts [OF assms cs] have 1: "State_Get k s' =
      (case tget ins k of None \<Rightarrow> State_Get k s
       | Some v \<Rightarrow> (case coerced_to env doc k v of None \<Rightarrow> None
                  | Some w \<Rightarrow> if sprint env (value_at (sv_values s) k) = sprint env w then State_Get k s else Some w))"
      and 2: "sorted (map pc_Key cs)" "distinct (map pc_Key cs)" "sa_notified a = (if cs = [] then [] else sv_watchers s)"
        "sa_reported a = (if og_Kind og = ''client'' then cs else [])"
      and 3: "c \<in> set cs \<longleftrightarrow> (\<exists>k v w. tget ins k = Some v \<and> coerced_to env doc k v = Some w \<and>
       sprint env (value_at (sv_values s) k) \<noteq> sprint env w \<and> c = \<lparr>pc_Key = k, pc_Value = w, pc_Bind = bind_of doc k, pc_Origin = og\<rparr>)" for k c
      by blast+
    have "set (map pc_Key cs) = {k. \<exists>v w. tget ins k = Some v \<and> coerced_to env doc k v = Some w \<and> sprint env (value_at (sv_values s) k) \<noteq> sprint env w}"
      (is "_ = ?K")
    proof (intro set_eqI iffI)
      fix k assume "k \<in> set (map pc_Key cs)"
      then obtain c where "c \<in> set cs" "k = pc_Key c" by auto
      then show "k \<in> ?K" by (auto simp: 3)
    next
      fix k assume "k \<in> ?K"
      then obtain w where "\<lparr>pc_Key = k, pc_Value = w, pc_Bind = bind_of doc k, pc_Origin = og\<rparr> \<in> set cs" unfolding 3 by blast
      from imageI [OF this, of pc_Key] show "k \<in> set (map pc_Key cs)" by simp
    qed
    moreover have "sprint env (value_at (sv_values s') k) = sprint env w" if "tget ins k = Some v" "coerced_to env doc k v = Some w" for k v w
      using 1 [of k] that by (auto simp: State_Get_def value_at_def split: if_splits)
    moreover have "State_Get k s' = State_Get k s" if "tget ins k = None" for k using 1 [of k] that by simp
    ultimately show ?thesis using bad True cs 2 by blast
  qed
qed

theorem changes_all_or_nothing_witness:
  "\<exists>s' a. State_Set plain_env toy_doc [(''Image.Brightness'', GInt 70)] from_client (newStateStore plain_env toy_doc []) = (s', a) \<and>
    sprint plain_env (value_at (sv_values s') ''Image.Brightness'') = sprint plain_env (GInt 70) \<and> length (sa_reported a) = 1"
proof -
  have t: "table_ok [(''Image.Brightness'', GInt 70)]" by (simp add: table_ok_def tkeys_def)
  have c: "coerced_to plain_env toy_doc ''Image.Brightness'' (GInt 70) = Some (GInt 70)"
    by (simp add: coerced_to_def toy_doc_def bright_coerces)
  obtain s' a where e: "State_Set plain_env toy_doc [(''Image.Brightness'', GInt 70)] from_client (newStateStore plain_env toy_doc []) = (s', a)"
    by fastforce
  have g: "tget [(''Image.Brightness'', GInt 70)] ''Image.Brightness'' = Some (GInt 70)" by simp
  have "\<forall>k v. tget [(''Image.Brightness'', GInt 70)] k = Some v \<longrightarrow> coerced_to plain_env toy_doc k v \<noteq> None" by (simp add: c)
  with changes_all_or_nothing [OF t e] g c
  have "sprint plain_env (value_at (sv_values s') ''Image.Brightness'') = sprint plain_env (GInt 70)" by blast
  moreover have "length (sa_reported a) = 1" using e unfolding toy_set by auto
  ultimately show ?thesis using e by blast
qed

section \<open>A change survives a restart\<close>

text \<open>The changes a camera reports, as the service reads them from the message, and the parameters a camera is started
  with, as it reads them from its configuration: numbers travel as JSON.\<close>

definition received_changes :: "param_change list \<Rightarrow> (string \<times> gval) list" where
  "received_changes cs = map (\<lambda>c. (pc_Key c, json_back (pc_Value c))) cs"

definition restarted :: "value_env \<Rightarrow> profile_doc \<Rightarrow> (string, gval) table \<Rightarrow> state_store" where
  "restarted env doc values = newStateStore env doc (map (\<lambda>(k, v). (k, json_back v)) values)"

lemma coerce_all_pass:
  "\<forall>(k, v)\<in>set ins. coerced_to env doc k v = Some (f k) \<Longrightarrow> coerce_all env doc ins = ([], map (\<lambda>(k, v). (k, f k)) ins)"
  by (induction ins) (auto simp: coerced_to_Some)

lemma put_all_valid:
  assumes "table_ok vs"
  shows "tget (fold (put_valid env doc) vs t) k =
    (case tget vs k of None \<Rightarrow> tget t k | Some v \<Rightarrow> (case coerced_to env doc k v of None \<Rightarrow> tget t k | Some w \<Rightarrow> Some w))"
  using assms
proof (induction vs arbitrary: t)
  case (Cons kv vs)
  obtain k' v where kv: "kv = (k', v)" by fastforce
  have ok: "table_ok vs" "tget vs k' = None" using Cons.prems by (simp_all add: table_ok_def kv tkeys_def tget_None_iff)
  have p: "put_valid env doc (k', v) t = (case coerced_to env doc k' v of None \<Rightarrow> t | Some w \<Rightarrow> tput k' w t)"
    by (auto simp: put_valid_def coerced_to_def split: option.split sum.split)
  show ?case using ok(2) by (auto simp: Cons.IH [OF ok(1)] p kv split: option.split)
qed simp

lemma camera_values_ok: "table_ok (pd_State doc) \<Longrightarrow> table_ok (camera_values env unmarshal doc rows)"
proof -
  assume "table_ok (pd_State doc)"
  then have "table_ok (Defaults doc)" by (simp add: Defaults_def table_ok_map_value)
  then have "table_ok (fold (\<lambda>r out. case row_value env unmarshal doc r of None \<Rightarrow> out | Some cv \<Rightarrow> tput (sr_Key r) cv out) rows (Defaults doc))"
    by (induction rows arbitrary: doc rule: rev_induct) (auto split: option.split)
  then show ?thesis by (simp add: camera_values_step)
qed

lemma row_of_key: "row_of k rows = Some r \<Longrightarrow> sr_Key r = k"
  by (auto simp: row_of_def find_Some_iff)

text \<open>The values of a camera are ones that JSON carries: they come back from the message or row they are written to,
  numbers as floating point, and are below the sizes where that loses digits.\<close>

definition carried :: "(gval \<Rightarrow> string) \<Rightarrow> (string \<Rightarrow> gval option) \<Rightarrow> profile_doc \<Rightarrow> (string, gval) table \<Rightarrow> bool" where
  "carried marshal unmarshal doc values =
    list_all (\<lambda>(k, p). case tget values k of None \<Rightarrow> True | Some v \<Rightarrow> json_safe p v \<and> unmarshal (marshal v) = Some (json_back v)) (pd_State doc)"

lemma carried_value:
  "carried marshal unmarshal doc values \<Longrightarrow> tget (pd_State doc) k = Some p \<Longrightarrow> tget values k = Some v \<Longrightarrow>
    json_safe p v \<and> unmarshal (marshal v) = Some (json_back v)"
  using tget_Some_mem [of "pd_State doc" k p] by (fastforce simp: carried_def list_all_iff)

text \<open>A camera in service: started from the rows the service has stored for it, it takes requests of clients, the service
  stores what it is told of each, and the camera may be started again at any time.\<close>

inductive in_service ::
  "value_env \<Rightarrow> (gval \<Rightarrow> string) \<Rightarrow> (string \<Rightarrow> gval option) \<Rightarrow> profile_doc \<Rightarrow> state_row list \<Rightarrow> state_store \<Rightarrow> state_row list \<Rightarrow> bool"
  for env marshal unmarshal doc stored where
  begun: "carried marshal unmarshal doc (camera_values env unmarshal doc stored) \<Longrightarrow>
    in_service env marshal unmarshal doc stored (restarted env doc (camera_values env unmarshal doc stored)) stored"
| request: "in_service env marshal unmarshal doc stored s rows \<Longrightarrow> table_ok ins \<Longrightarrow> og_Kind og = ''client'' \<Longrightarrow>
    State_Set env doc ins og s = (s', a) \<Longrightarrow> length (sa_reported a) \<le> maxChanges \<Longrightarrow> carried marshal unmarshal doc (sv_values s') \<Longrightarrow>
    in_service env marshal unmarshal doc stored s' (clientChanges env marshal doc ip (received_changes (sa_reported a)) rows)"
| again: "in_service env marshal unmarshal doc stored s rows \<Longrightarrow>
    in_service env marshal unmarshal doc stored (restarted env doc (camera_values env unmarshal doc rows)) rows"

lemma client_change_stored:
  assumes "table_ok ins" "State_Set env doc ins og s = (s', a)" "sa_result a = Inr cs" "og_Kind og = ''client''" "length cs \<le> 256"
    and "distinct (map sr_Key rows)"
    and "\<forall>k. tget (camera_values env unmarshal doc rows) k = State_Get k s"
    and "\<forall>k p v. tget (pd_State doc) k = Some p \<longrightarrow> State_Get k s' = Some v \<longrightarrow>
      of_param env p v \<and> json_safe p v \<and> unmarshal (marshal v) = Some (json_back v)"
  shows "distinct (map sr_Key (clientChanges env marshal doc ip (received_changes (sa_reported a)) rows)) \<and>
    tget (camera_values env unmarshal doc (clientChanges env marshal doc ip (received_changes (sa_reported a)) rows)) k = State_Get k s'"
proof -
  let ?rows = "clientChanges env marshal doc ip (received_changes (sa_reported a)) rows"
  from State_Set_facts [OF assms(1-3)] have get: "State_Get k s' =
      (case tget ins k of None \<Rightarrow> State_Get k s
       | Some v \<Rightarrow> (case coerced_to env doc k v of None \<Rightarrow> None
                  | Some w \<Rightarrow> if sprint env (value_at (sv_values s) k) = sprint env w then State_Get k s else Some w))"
    and given: "tget ins k = Some v \<Longrightarrow> \<exists>w. coerced_to env doc k v = Some w"
    and dist: "distinct (map pc_Key cs)" and rep: "sa_reported a = cs"
    and mem: "c \<in> set cs \<longleftrightarrow> (\<exists>k v w. tget ins k = Some v \<and> coerced_to env doc k v = Some w \<and>
       sprint env (value_at (sv_values s) k) \<noteq> sprint env w \<and> c = \<lparr>pc_Key = k, pc_Value = w, pc_Bind = bind_of doc k, pc_Origin = og\<rparr>)" for k c v
    using assms(4) by (blast, fastforce, blast, simp, blast)
  have new: "tget (pd_State doc) (pc_Key c) \<noteq> None \<and> State_Get (pc_Key c) s' = Some (pc_Value c)" if "c \<in> set cs" for c
  proof -
    from that obtain v w where c: "tget ins (pc_Key c) = Some v" "coerced_to env doc (pc_Key c) v = Some w"
      "sprint env (value_at (sv_values s) (pc_Key c)) \<noteq> sprint env w" "pc_Value c = w" unfolding mem by auto
    then have "tget (pd_State doc) (pc_Key c) \<noteq> None" by (auto simp: coerced_to_Some)
    with c get [of "pc_Key c"] show ?thesis by simp
  qed
  have again: "coerced_to env doc k (json_back v) = Some v" if "State_Get k s' = Some v" "tget (pd_State doc) k \<noteq> None" for k v
    using that assms(8) Coerce_json_back by (fastforce simp: coerced_to_Some)
  define f where "f k = (case State_Get k s' of None \<Rightarrow> GNil | Some v \<Rightarrow> v)" for k
  have "coerce_all env doc (received_changes cs) = ([], map (\<lambda>(k, v). (k, f k)) (received_changes cs))"
    by (rule coerce_all_pass) (auto simp: received_changes_def f_def new again)
  moreover have "map (\<lambda>(k, v). (k, f k)) (received_changes cs) = map (\<lambda>c. (pc_Key c, pc_Value c)) cs"
    by (simp add: received_changes_def f_def new)
  ultimately have "coerce_all env doc (received_changes cs) = ([], map (\<lambda>c. (pc_Key c, pc_Value c)) cs)" by (simp only:)
  then have rows: "?rows = (if cs = [] then rows else persistChanges marshal (''client:'' @ ip) (map (\<lambda>c. (pc_Key c, pc_Value c)) cs) rows)"
    using assms(5) by (simp add: clientChanges_def rep maxChanges_def) (simp add: received_changes_def)
  let ?cs = "map (\<lambda>c. (pc_Key c, pc_Value c)) cs"
  have dcs: "distinct (map fst ?cs)" using dist by (simp add: comp_def)
  have pr: "distinct (map sr_Key ?rows)" "row_of k ?rows = (case map_of ?cs k of
      Some v \<Rightarrow> Some \<lparr>sr_Key = k, sr_Value = marshal v, sr_Origin = ''client:'' @ ip\<rparr> | None \<Rightarrow> row_of k rows)" for k
    using persist_row_of [OF assms(6) dcs, of marshal "''client:'' @ ip" k] assms(6) by (auto simp: rows)
  have vals: "tget (camera_values env unmarshal doc ?rows) k = State_Get k s'" for k
  proof (cases "map_of ?cs k")
    case None
    then have no: "k \<notin> pc_Key ` set cs" by (force simp: map_of_eq_None_iff)
    have "State_Get k s' = State_Get k s"
    proof (cases "tget ins k")
      case (Some v)
      then obtain w where w: "coerced_to env doc k v = Some w" using given by blast
      have "sprint env (value_at (sv_values s) k) = sprint env w"
      proof (rule ccontr)
        assume "sprint env (value_at (sv_values s) k) \<noteq> sprint env w"
        with Some w have "\<lparr>pc_Key = k, pc_Value = w, pc_Bind = bind_of doc k, pc_Origin = og\<rparr> \<in> set cs" unfolding mem by blast
        from imageI [OF this, of pc_Key] no show False by simp
      qed
      with get [of k] Some w show ?thesis by simp
    qed (simp add: get)
    with None assms(7) show ?thesis by (simp add: tget_camera_values [OF pr(1)] tget_camera_values [OF assms(6)] pr(2))
  next
    case (Some v)
    from map_of_SomeD [OF this] obtain c where c: "c \<in> set cs" "k = pc_Key c" "v = pc_Value c" by auto
    from new [OF c(1)] c obtain p where p: "tget (pd_State doc) k = Some p" "State_Get k s' = Some v" by auto
    with assms(8) have "of_param env p v" "json_safe p v" "unmarshal (marshal v) = Some (json_back v)" by blast+
    with p Coerce_json_back [of env p v] Some show ?thesis by (simp add: tget_camera_values [OF pr(1)] pr(2) row_value_def)
  qed
  with pr(1) show ?thesis by blast
qed

lemma restarted_values:
  assumes "table_ok (pd_State doc)" "distinct (map sr_Key rows)"
  shows "State_Get k (restarted env doc (camera_values env unmarshal doc rows)) =
    (case tget (camera_values env unmarshal doc rows) k of None \<Rightarrow> tget (Defaults doc) k
     | Some v \<Rightarrow> (case coerced_to env doc k (json_back v) of None \<Rightarrow> tget (Defaults doc) k | Some w \<Rightarrow> Some w))"
proof -
  have ok: "table_ok (map (\<lambda>(k, v). (k, json_back v)) (camera_values env unmarshal doc rows))"
    using camera_values_ok [OF assms(1)] by (simp add: table_ok_map_value)
  show ?thesis
    by (simp add: restarted_def newStateStore_def State_Get_def put_all_valid [OF ok] tget_map_value split: option.split)
qed

lemma camera_value_of_param:
  assumes "distinct (map sr_Key rows)" "\<And>k p. tget (pd_State doc) k = Some p \<Longrightarrow> of_param env p (pa_Default p)"
    and "tget (pd_State doc) k = Some p" "tget (camera_values env unmarshal doc rows) k = Some v"
  shows "of_param env p v"
proof (cases "row_of k rows")
  case None
  with assms(3,4) have "v = pa_Default p" by (simp add: tget_camera_values [OF assms(1)])
  with assms(2) [OF assms(3)] show ?thesis by simp
next
  case (Some r)
  with row_of_key [OF Some] assms(3,4) have "v = pa_Default p \<or> (\<exists>u. Coerce env p u = Inr v)"
    by (auto simp: tget_camera_values [OF assms(1)] row_value_def split: option.splits sum.splits)
  with assms(2) [OF assms(3)] Coerce_of_param show ?thesis by blast
qed

text \<open>A camera is started with the values its rows read as.\<close>

lemma same_after_restart:
  assumes "table_ok (pd_State doc)" "distinct (map sr_Key rows)" "\<And>k p. tget (pd_State doc) k = Some p \<Longrightarrow> of_param env p (pa_Default p)"
    and "carried marshal unmarshal doc (camera_values env unmarshal doc rows)"
  shows "State_Get k (restarted env doc (camera_values env unmarshal doc rows)) = tget (camera_values env unmarshal doc rows) k"
proof (cases "tget (camera_values env unmarshal doc rows) k")
  case None
  then have "tget (Defaults doc) k = None"
    by (simp add: tget_camera_values [OF assms(2)] Defaults_def tget_map_value split: option.splits)
  with None show ?thesis by (simp add: restarted_values [OF assms(1,2)])
next
  case (Some v)
  then have "tget (pd_State doc) k \<noteq> None"
    by (auto simp: tget_camera_values [OF assms(2)] row_value_def dest: row_of_key split: option.splits)
  then obtain p where p: "tget (pd_State doc) k = Some p" by blast
  have "of_param env p v" by (rule camera_value_of_param [OF assms(2,3) p Some])
  with Coerce_json_back carried_value [OF assms(4) p Some] have "Coerce env p (json_back v) = Inr v" by blast
  with p Some show ?thesis by (simp add: restarted_values [OF assms(1,2)] coerced_to_def)
qed

text \<open>What holds between the camera and its rows.\<close>

definition in_step ::
  "value_env \<Rightarrow> (gval \<Rightarrow> string) \<Rightarrow> (string \<Rightarrow> gval option) \<Rightarrow> profile_doc \<Rightarrow> state_store \<Rightarrow> state_row list \<Rightarrow> bool" where
  "in_step env marshal unmarshal doc s rows =
    (distinct (map sr_Key rows) \<and> carried marshal unmarshal doc (camera_values env unmarshal doc rows) \<and>
     (\<forall>k. State_Get k s = tget (camera_values env unmarshal doc rows) k))"

lemma carried_cong: "(\<And>k. tget values k = tget others k) \<Longrightarrow> carried marshal unmarshal doc values = carried marshal unmarshal doc others"
  by (simp add: carried_def)

lemma refused_unchanged: "State_Set env doc ins og s = (s', a) \<Longrightarrow> sa_result a = Inl e \<Longrightarrow> s' = s \<and> sa_reported a = []"
  by (auto simp: State_Set_def split: prod.splits if_splits)

lemma clientChanges_none: "clientChanges env marshal doc ip [] rows = rows"
  by (simp add: clientChanges_def)

lemma accepted_of_param:
  assumes "table_ok ins" "State_Set env doc ins og s = (s', a)" "sa_result a = Inr cs" "tget (pd_State doc) k = Some p" "State_Get k s' = Some v"
    and "\<And>v. State_Get k s = Some v \<Longrightarrow> of_param env p v"
  shows "of_param env p v"
proof (cases "State_Get k s' = State_Get k s")
  case False
  from State_Set_facts [OF assms(1-3)] have "State_Get k s' =
      (case tget ins k of None \<Rightarrow> State_Get k s
       | Some v \<Rightarrow> (case coerced_to env doc k v of None \<Rightarrow> None
                  | Some w \<Rightarrow> if sprint env (value_at (sv_values s) k) = sprint env w then State_Get k s else Some w))" by blast
  with False assms(5) obtain u where "coerced_to env doc k u = Some v"
    by (auto split: option.splits if_splits)
  with assms(4) show ?thesis by (auto simp: coerced_to_Some intro: Coerce_of_param)
qed (use assms(5,6) in simp)

lemma service_in_step:
  assumes "in_service env marshal unmarshal doc stored s rows" "table_ok (pd_State doc)" "distinct (map sr_Key stored)"
    and dflt: "\<And>k p. tget (pd_State doc) k = Some p \<Longrightarrow> of_param env p (pa_Default p)"
  shows "in_step env marshal unmarshal doc s rows"
  using assms(1)
proof induction
  case begun
  then show ?case using same_after_restart [OF assms(2,3) dflt] assms(3) by (simp add: in_step_def)
next
  case (request s rows ins og s' a ip)
  from request.IH have i: "distinct (map sr_Key rows)" "\<forall>k. tget (camera_values env unmarshal doc rows) k = State_Get k s"
    by (simp_all add: in_step_def)
  show ?case
  proof (cases "sa_result a")
    case (Inl e)
    from refused_unchanged [OF request.hyps(4) Inl] request.IH show ?thesis
      by (simp add: clientChanges_none received_changes_def)
  next
    case (Inr cs)
    from State_Set_facts [OF request.hyps(2,4) Inr] request.hyps(3) have "sa_reported a = cs" by simp
    with request.hyps(5) have len: "length cs \<le> 256" by (simp add: maxChanges_def)
    have "of_param env p v" if "tget (pd_State doc) k = Some p" "State_Get k s' = Some v" for k p v
    proof (rule accepted_of_param [OF request.hyps(2,4) Inr that])
      fix w assume "State_Get k s = Some w"
      then have "tget (camera_values env unmarshal doc rows) k = Some w" by (simp add: i(2))
      from camera_value_of_param [OF i(1) _ that(1) this] dflt show "of_param env p w" by blast
    qed
    with carried_value [OF request.hyps(6)] have "\<forall>k p v. tget (pd_State doc) k = Some p \<longrightarrow> State_Get k s' = Some v \<longrightarrow>
      of_param env p v \<and> json_safe p v \<and> unmarshal (marshal v) = Some (json_back v)"
      unfolding State_Get_def by blast
    note c = client_change_stored [OF request.hyps(2,4) Inr request.hyps(3) len i this, of ip]
    then have "tget (camera_values env unmarshal doc (clientChanges env marshal doc ip (received_changes (sa_reported a)) rows)) k = tget (sv_values s') k" for k
      by (simp add: State_Get_def)
    from carried_cong [OF this, of marshal unmarshal doc] c request.hyps(6) show ?thesis by (simp add: in_step_def)
  qed
next
  case (again s rows)
  then have "distinct (map sr_Key rows)" "carried marshal unmarshal doc (camera_values env unmarshal doc rows)" by (simp_all add: in_step_def)
  with same_after_restart [OF assms(2) this(1) dflt this(2)] show ?case by (simp add: in_step_def)
qed


definition two_marshal :: "gval \<Rightarrow> string" where
  "two_marshal v = (if v = GInt 50 then ''50'' else ''70'')"

definition two_unmarshal :: "string \<Rightarrow> gval option" where
  "two_unmarshal t = (if t = ''50'' then Some (GFloat 50) else if t = ''70'' then Some (GFloat 70) else None)"


end
