(* ===== verification/Http_Routes.thy ===== *)
theory Http_Routes
  imports Camera_State Digest_Auth
begin

text \<open>
  The emulated HTTP interface of a camera, \<^verbatim>\<open>backend/internal/engines/httpapi/engine.go\<close> and \<^verbatim>\<open>config.go\<close>: the check of
  its configuration, the choice of the route, the roles, the handlers that read and change parameters and the answer
  to a request. Regular expressions, templates, the decoding of JSON and of forms and the canonical form of header
  names are parameters.
\<close>

section \<open>Configuration\<close>

record route_match =
  rm_Method :: string
  rm_Path :: string
  rm_Query :: "(string, string) table"
  rm_Headers :: "(string, string) table"

datatype http_action = HttpAction
  (ha_Status: int) (ha_Type: string) (ha_Headers: "(string \<times> string) list") (ha_Body: string) (ha_Fixture: string)
  (ha_Handler: string) (ha_From: string) (ha_Key: string) (ha_Stream: string) (ha_Then: "http_action option")

record route =
  ro_ID :: string
  ro_Match :: route_match
  ro_Action :: http_action
  ro_Roles :: "string list"

record http_config =
  hc_Scheme :: string
  hc_Realm :: string
  hc_Server :: string
  hc_Routes :: "route list"
  hc_Unknown :: "http_action option"

definition allowedRoles :: "route \<Rightarrow> string list option" where
  "allowedRoles r =
    (if ro_Roles r \<noteq> [] then Some (ro_Roles r)
     else if ha_Handler (ro_Action r) = ''state.set'' then Some [''admin'', ''operator'']
     else None)"

text \<open>What a template sees of a request and of the handler before it.\<close>

datatype handler_result = NoResult | Values "(string \<times> gval) list" | Changes "param_change list"

record template_data =
  td_Method :: string
  td_Path :: string
  td_Query :: "(string, string) table"
  td_Headers :: "(string, string) table"
  td_Body :: string
  td_ClientIP :: string
  td_Params :: "(string, string) table"
  td_Result :: handler_result

record http_lib =
  hl_regex :: "string \<Rightarrow> (string \<Rightarrow> bool) option"
  hl_check :: "string \<Rightarrow> string \<Rightarrow> (nat \<times> string) option"
  hl_render :: "string \<Rightarrow> template_data \<Rightarrow> string option"
  hl_form :: "string \<Rightarrow> (string, string list) table option"
  hl_json :: "string \<Rightarrow> (string, gval) table option"
  hl_canonical :: "string \<Rightarrow> string"
  hl_snapshot :: "string \<Rightarrow> string option"
  hl_problem :: "config_error \<Rightarrow> string"

datatype http_fault =
    UnknownScheme string | DuplicateRoute string nat | UnknownRole string | BadMethod string | BadRegex string
  | NeverMatches string string | UnknownHasHandler | NoFixtures | NestedHandler | HandlerPlanned string | UnknownHandler string
  | BodyWithHandler | NeedsFrom | ThenWithoutHandler | BadTemplate nat string

type_synonym http_problem = "string \<times> http_fault"

definition is_warning :: "http_problem \<Rightarrow> bool" where
  "is_warning p = (case snd p of NeverMatches _ _ \<Rightarrow> True | _ \<Rightarrow> False)"

definition plannedHandlers :: "string list" where
  "plannedHandlers = [''stream.attach'', ''sd.search'', ''sd.download'', ''reboot'', ''factory_reset'']"

definition upper_byte :: "char \<Rightarrow> char" where
  "upper_byte c = (if is_lower_c (byte c) then char_of (byte c - 32) else c)"

definition method_ok :: "string \<Rightarrow> bool" where
  "method_ok m = (3 \<le> length m \<and> length m \<le> 10 \<and> list_all (\<lambda>c. is_upper_c (byte c)) m)"

definition checkMatcher :: "http_lib \<Rightarrow> string \<Rightarrow> http_fault option" where
  "checkMatcher lib v =
    (case cut_prefix ''~'' v of
       None \<Rightarrow> None
     | Some re \<Rightarrow> (case hl_regex lib re of None \<Rightarrow> Some (BadRegex re) | Some _ \<Rightarrow> None))"

definition matchKey :: "route_match \<Rightarrow> string" where
  "matchKey m =
    map upper_byte (rm_Method m) @ '' '' @ rm_Path m @
    concat (map (\<lambda>(k, v). ''&'' @ k @ ''='' @ v) (sort_key fst (rm_Query m))) @
    concat (map (\<lambda>(k, v). ''|'' @ map lower_char k @ ''='' @ v) (sort_key fst (rm_Headers m)))"

definition handler_fault :: "string \<Rightarrow> string \<Rightarrow> http_problem list" where
  "handler_fault path hn =
    (if hn \<in> {''state.get'', ''state.set'', ''snapshot''} then []
     else if hn \<in> set plannedHandlers then [(path @ ''/handler'', HandlerPlanned hn)]
     else [(path @ ''/handler'', UnknownHandler hn)])"

fun validateAction :: "http_lib \<Rightarrow> string \<Rightarrow> string \<Rightarrow> bool \<Rightarrow> http_action \<Rightarrow> http_problem list" where
  "validateAction lib path name nested (HttpAction st ty hdr body fx hn fr ky sm th) =
    (if fx \<noteq> [] then [(path @ ''/fixture'', NoFixtures)] else []) @
    (if hn \<noteq> [] then
       (if nested then [(path @ ''/handler'', NestedHandler)] else []) @
       handler_fault path hn @
       (if body \<noteq> [] then [(path @ ''/body'', BodyWithHandler)] else []) @
       (if hn = ''state.set'' \<and> fr = [] then [(path @ ''/from'', NeedsFrom)] else []) @
       (case th of None \<Rightarrow> [] | Some a \<Rightarrow> validateAction lib (path @ ''/then'') name True a)
     else if th \<noteq> None then [(path @ ''/then'', ThenWithoutHandler)] else []) @
    (if body \<noteq> [] then (case hl_check lib name body of None \<Rightarrow> [] | Some (line, m) \<Rightarrow> [(path @ ''/body'', BadTemplate line m)]) else [])"

text \<open>The problems of a route, and the identifiers and matches seen so far.\<close>

definition validate_route :: "http_lib \<Rightarrow> nat \<Rightarrow> route \<Rightarrow> (string, nat) table \<times> (string, string) table \<times> http_problem list \<Rightarrow>
    (string, nat) table \<times> (string, string) table \<times> http_problem list" where
  "validate_route lib i r acc =
    (case acc of (ids, matches, probs) \<Rightarrow>
      let base = ''/routes/'' @ nat_str i; m = ro_Match r; key = matchKey m in
      (tput (ro_ID r) i ids,
       (case tget matches key of None \<Rightarrow> tput key (ro_ID r) matches | Some _ \<Rightarrow> matches),
       probs @
       (case tget ids (ro_ID r) of None \<Rightarrow> [] | Some prev \<Rightarrow> [(base @ ''/id'', DuplicateRoute (ro_ID r) prev)]) @
       concat (map (\<lambda>(j, role). if role \<in> {''admin'', ''operator'', ''viewer''} then [] else [(base @ ''/roles/'' @ nat_str j, UnknownRole role)])
         (enumerate 0 (ro_Roles r))) @
       (if rm_Method m \<noteq> [] \<and> \<not> method_ok (rm_Method m) then [(base @ ''/match/method'', BadMethod (rm_Method m))] else []) @
       concat (map (\<lambda>(k, v). case checkMatcher lib v of None \<Rightarrow> [] | Some e \<Rightarrow> [(base @ ''/match/query/'' @ k, e)]) (rm_Query m)) @
       concat (map (\<lambda>(k, v). case checkMatcher lib v of None \<Rightarrow> [] | Some e \<Rightarrow> [(base @ ''/match/headers/'' @ k, e)]) (rm_Headers m)) @
       (case tget matches key of None \<Rightarrow> [] | Some other \<Rightarrow> [(base @ ''/match'', NeverMatches (ro_ID r) other)]) @
       validateAction lib (base @ ''/action'') (ro_ID r) False (ro_Action r)))"

definition parsed :: "http_config \<Rightarrow> http_config" where
  "parsed c = (if hc_Scheme c = [] then c\<lparr>hc_Scheme := ''digest''\<rparr> else c)"

definition validate_http :: "http_lib \<Rightarrow> http_config \<Rightarrow> http_problem list" where
  "validate_http lib c0 =
    (let c = parsed c0 in
     (if hc_Scheme c \<in> {''digest'', ''basic'', ''none''} then [] else [(''/auth/scheme'', UnknownScheme (hc_Scheme c))]) @
     snd (snd (fold (\<lambda>(i, r). validate_route lib i r) (enumerate 0 (hc_Routes c)) ([], [], []))) @
     (case hc_Unknown c of
        None \<Rightarrow> []
      | Some a \<Rightarrow> (if ha_Handler a \<noteq> [] then [(''/unknown/handler'', UnknownHasHandler)] else []) @
                 validateAction lib ''/unknown'' ''unknown'' False a))"

section \<open>Routes\<close>

definition newMatcher :: "http_lib \<Rightarrow> string \<Rightarrow> string list \<Rightarrow> bool" where
  "newMatcher lib spec vs =
    (if spec = ''*'' then vs \<noteq> []
     else if has_prefix ''~'' spec
     then vs \<noteq> [] \<and> (case hl_regex lib (drop 1 spec) of None \<Rightarrow> False | Some re \<Rightarrow> re (hd vs))
     else vs \<noteq> [] \<and> hd vs = spec)"

definition splitPath :: "string \<Rightarrow> string list" where
  "splitPath p = split_on (CHR ''/'') (trim_chars ''/'' p)"

fun match_segments :: "string list \<Rightarrow> string list \<Rightarrow> (string, string) table \<Rightarrow> (string, string) table option" where
  "match_segments (p # ps) (s # ss) params =
    (if has_prefix ''{'' p \<and> has_suffix ''}'' p
     then (if s = [] then None else match_segments ps ss (tput (take (length p - 2) (drop 1 p)) s params))
     else if p \<noteq> s then None
     else match_segments ps ss params)"
| "match_segments ps ss params = Some params"

definition matchPath :: "string list \<Rightarrow> string list \<Rightarrow> (string, string) table option" where
  "matchPath pattern segs = (if length pattern \<noteq> length segs then None else match_segments pattern segs [])"

record web_request =
  wr_Auth :: http_request
  wr_Path :: string
  wr_Query :: "(string, string list) table"
  wr_Header :: "(string, string list) table"
  wr_Body :: "string option"
  wr_ClientIP :: string

definition values_of :: "(string, string list) table \<Rightarrow> string \<Rightarrow> string list" where
  "values_of t k = (case tget t k of None \<Rightarrow> [] | Some vs \<Rightarrow> vs)"

definition canonical_headers :: "http_lib \<Rightarrow> (string, string) table \<Rightarrow> (string, string) table" where
  "canonical_headers lib hs = fold (\<lambda>(k, v). tput (hl_canonical lib k) v) hs []"

definition route_params :: "http_lib \<Rightarrow> web_request \<Rightarrow> route \<Rightarrow> (string, string) table option" where
  "route_params lib q r =
    (let m = ro_Match r in
     if rm_Method m \<noteq> [] \<and> \<not> equal_fold (rm_Method m) (rq_Method (wr_Auth q)) then None
     else case matchPath (splitPath (rm_Path m)) (splitPath (wr_Path q)) of
       None \<Rightarrow> None
     | Some params \<Rightarrow>
         if list_all (\<lambda>(k, v). newMatcher lib v (values_of (wr_Query q) k)) (rm_Query m) \<and>
            list_all (\<lambda>(k, v). newMatcher lib v (values_of (wr_Header q) k)) (canonical_headers lib (rm_Headers m))
         then Some params else None)"

fun match_route :: "http_lib \<Rightarrow> web_request \<Rightarrow> route list \<Rightarrow> (route \<times> (string, string) table) option" where
  "match_route lib q [] = None"
| "match_route lib q (r # rs) = (case route_params lib q r of Some params \<Rightarrow> Some (r, params) | None \<Rightarrow> match_route lib q rs)"

section \<open>Parameters\<close>

datatype param_error = InvalidForm | NotAnObject | NoParameters | UnknownName string | Rejected "(string \<times> config_error) list"

definition first_value :: "(string, string list) table \<Rightarrow> string \<Rightarrow> string" where
  "first_value t k = (case values_of t k of [] \<Rightarrow> [] | v # _ \<Rightarrow> v)"

text \<open>The parameters a list of names asks for; a name that is none stands for those below it.\<close>

fun collect :: "profile_doc \<Rightarrow> state_store \<Rightarrow> string list \<Rightarrow> (string \<times> gval) list \<Rightarrow> (param_error, (string \<times> gval) list) result" where
  "collect doc s [] out = Inr out"
| "collect doc s (n # ns) out =
    (let name = trim_space n in
     if name = [] then collect doc s ns out
     else case State_Get name s of
       Some v \<Rightarrow> collect doc s ns (if name \<in> fst ` set out then out else out @ [(name, v)])
     | None \<Rightarrow>
         (let found = State_List doc (name @ ''.'') s in
          if found = [] then Inl (UnknownName name)
          else collect doc s ns (out @ map (\<lambda>p. (lp_Key p, lp_Value p)) (filter (\<lambda>p. lp_Key p \<notin> fst ` set out) found))))"

definition stateGet :: "http_lib \<Rightarrow> profile_doc \<Rightarrow> state_store \<Rightarrow> web_request \<Rightarrow> string \<Rightarrow> http_action \<Rightarrow> (param_error, (string \<times> gval) list) result" where
  "stateGet lib doc s q body a =
    (let keyParam = (if ha_Key a = [] then ''name'' else ha_Key a) in
     case (if ha_From a = ''form'' then map_option (\<lambda>form. first_value form keyParam) (hl_form lib body)
           else Some (first_value (wr_Query q) keyParam)) of
       None \<Rightarrow> Inl InvalidForm
     | Some raw \<Rightarrow>
         if trim_space raw = [] then Inr (map (\<lambda>p. (lp_Key p, lp_Value p)) (State_List doc [] s))
         else (case collect doc s (split_on (CHR '','') raw) [] of
                 Inl e \<Rightarrow> Inl e
               | Inr out \<Rightarrow> Inr (sort_key fst out)))"

text \<open>The values a request sets; a query key the route matches on is not one.\<close>

definition posted_values :: "http_lib \<Rightarrow> web_request \<Rightarrow> string \<Rightarrow> route \<Rightarrow> http_action \<Rightarrow> (param_error, (string, gval) table) result" where
  "posted_values lib q body r a =
    (if ha_From a = ''query''
     then Inr (map (\<lambda>(k, vs). (k, GStr (hd vs))) (filter (\<lambda>(k, vs). tget (rm_Query (ro_Match r)) k = None \<and> vs \<noteq> []) (wr_Query q)))
     else if ha_From a = ''form''
     then (case hl_form lib body of
             None \<Rightarrow> Inl InvalidForm
           | Some form \<Rightarrow> Inr (map (\<lambda>(k, vs). (k, GStr (hd vs))) (filter (\<lambda>(k, vs). vs \<noteq> []) form)))
     else if ha_From a = ''json'' then (case hl_json lib body of None \<Rightarrow> Inl NotAnObject | Some vs \<Rightarrow> Inr vs)
     else Inr [])"

definition stateSet :: "value_env \<Rightarrow> http_lib \<Rightarrow> profile_doc \<Rightarrow> string \<Rightarrow> web_request \<Rightarrow> string \<Rightarrow> route \<Rightarrow> http_action \<Rightarrow> state_store \<Rightarrow>
    state_store \<times> param_change list \<times> (param_error, param_change list) result" where
  "stateSet env lib doc inst q body r a s =
    (case posted_values lib q body r a of
       Inl e \<Rightarrow> (s, [], Inl e)
     | Inr ins \<Rightarrow>
         if ins = [] then (s, [], Inl NoParameters)
         else case State_Set env doc ins \<lparr>og_Kind = ''client'', og_IP = wr_ClientIP q, og_Engine = inst\<rparr> s of
           (s', ans) \<Rightarrow> (s', sa_reported ans, case sa_result ans of Inl errs \<Rightarrow> Inl (Rejected (sort_key fst errs)) | Inr cs \<Rightarrow> Inr cs))"

definition error_text :: "http_lib \<Rightarrow> param_error \<Rightarrow> string" where
  "error_text lib e =
    (case e of
       InvalidForm \<Rightarrow> ''invalid form body''
     | NotAnObject \<Rightarrow> ''body must be a JSON object''
     | NoParameters \<Rightarrow> ''no parameters to set''
     | UnknownName n \<Rightarrow> ''unknown parameter '' @ n
     | Rejected errs \<Rightarrow> join_with ''; '' (map (\<lambda>(k, p). k @ '': '' @ hl_problem lib p) errs))"

section \<open>Answers\<close>

record response =
  rp_Status :: int
  rp_Headers :: "(string, string) table"
  rp_Body :: string

definition plain_text :: string where "plain_text = ''text/plain; charset=utf-8''"

definition put_headers :: "(string \<times> string) list \<Rightarrow> (string, string) table \<Rightarrow> (string, string) table" where
  "put_headers kvs h = fold (\<lambda>(k, v). tput k v) kvs h"

definition fail_with :: "int \<Rightarrow> string \<Rightarrow> (string, string) table \<Rightarrow> response" where
  "fail_with status m h = \<lparr>rp_Status = status, rp_Headers = tput ''Content-Type'' plain_text h, rp_Body = ''Error: '' @ m @ [CHR 0x0A]\<rparr>"

definition respond :: "http_lib \<Rightarrow> string \<Rightarrow> http_action \<Rightarrow> template_data \<Rightarrow> (string, string) table \<Rightarrow> response" where
  "respond lib meth a data h =
    (case (if ha_Body a = [] then Some [] else hl_render lib (ha_Body a) data) of
       None \<Rightarrow> fail_with 500 ''template error'' h
     | Some out \<Rightarrow>
         (let h = put_headers (map (\<lambda>(k, v). (hl_canonical lib k, v)) (ha_Headers a)) h;
              ct = (if ha_Type a = [] \<and> out \<noteq> [] then plain_text else ha_Type a);
              h = (if ct \<noteq> [] then tput ''Content-Type'' ct h else h) in
          \<lparr>rp_Status = (if ha_Status a = 0 then 200 else ha_Status a), rp_Headers = tput ''Content-Length'' (nat_str (length out)) h,
           rp_Body = (if meth = ''HEAD'' then [] else out)\<rparr>))"

text \<open>Running the action of a route: the store afterwards, what is reported to the service and the answer. \<open>None\<close> is
  the panic of an action without a \<^verbatim>\<open>then\<close>, which the check of the configuration leaves to handlers it does not accept.\<close>

definition run_action :: "value_env \<Rightarrow> http_lib \<Rightarrow> profile_doc \<Rightarrow> string \<Rightarrow> web_request \<Rightarrow> string \<Rightarrow> route \<Rightarrow> template_data \<Rightarrow>
    (string, string) table \<Rightarrow> state_store \<Rightarrow> state_store \<times> param_change list \<times> response option" where
  "run_action env lib doc inst q body r data h s =
    (let a = ro_Action r; meth = rq_Method (wr_Auth q); handler = ha_Handler a;
         next = (\<lambda>d. map_option (\<lambda>t. respond lib meth t d h) (ha_Then a)) in
     if handler = [] then (s, [], Some (respond lib meth a data h))
     else if handler = ''snapshot''
     then (case hl_snapshot lib (if ha_Stream a = [] then ''main'' else ha_Stream a) of
             None \<Rightarrow> (s, [], Some (fail_with 503 ''snapshot unavailable'' h))
           | Some jpeg \<Rightarrow> (s, [], Some \<lparr>rp_Status = 200, rp_Headers = put_headers
               [(''Content-Type'', ''image/jpeg''), (''Content-Length'', nat_str (length jpeg)), (''Cache-Control'', ''no-cache'')] h, rp_Body = jpeg\<rparr>))
     else if handler = ''state.get''
     then (case stateGet lib doc s q body a of
             Inl e \<Rightarrow> (s, [], Some (fail_with 400 (error_text lib e) h))
           | Inr kvs \<Rightarrow> (s, [], if ha_Then a = None
               then Some \<lparr>rp_Status = 200, rp_Headers = tput ''Content-Type'' plain_text h,
                 rp_Body = concat (map (\<lambda>(k, v). k @ ''='' @ sprint env v @ [CHR 0x0A]) kvs)\<rparr>
               else next (data\<lparr>td_Result := Values kvs\<rparr>)))
     else if handler = ''state.set''
     then (case stateSet env lib doc inst q body r a s of
             (s', reported, Inl e) \<Rightarrow> (s', reported, Some (fail_with 400 (error_text lib e) h))
           | (s', reported, Inr cs) \<Rightarrow> (s', reported, if ha_Then a = None
               then Some \<lparr>rp_Status = 200, rp_Headers = tput ''Content-Type'' plain_text h, rp_Body = ''OK'' @ [CHR 0x0A]\<rparr>
               else next (data\<lparr>td_Result := Changes cs\<rparr>)))
     else (s, [], next data))"

section \<open>A request\<close>

definition MaxBodyBytes :: nat where "MaxBodyBytes = 2 ^ 20"

definition readBody :: "web_request \<Rightarrow> string option" where
  "readBody q =
    (if rq_Method (wr_Auth q) \<in> {''GET'', ''HEAD''} then Some []
     else case wr_Body q of None \<Rightarrow> None | Some b \<Rightarrow> if MaxBodyBytes < length b then None else Some b)"

definition requestData :: "web_request \<Rightarrow> string \<Rightarrow> (string, string) table \<Rightarrow> template_data" where
  "requestData q body params =
    \<lparr>td_Method = rq_Method (wr_Auth q), td_Path = wr_Path q,
     td_Query = map (\<lambda>(k, vs). (k, hd vs)) (filter (\<lambda>(k, vs). vs \<noteq> []) (wr_Query q)),
     td_Headers = map (\<lambda>(k, vs). (k, hd vs)) (filter (\<lambda>(k, vs). vs \<noteq> [] \<and> k \<noteq> ''Authorization'') (wr_Header q)),
     td_Body = body, td_ClientIP = wr_ClientIP q, td_Params = params, td_Result = NoResult\<rparr>"

record http_engine =
  he_cfg :: http_config
  he_auth :: authenticator
  he_state :: state_store
  he_requests :: nat
  he_errors :: nat
  he_bytesIn :: nat
  he_bytesOut :: nat

text \<open>What an answer leaves on the counters.\<close>

definition count_response :: "response option \<Rightarrow> http_engine \<Rightarrow> http_engine" where
  "count_response rp e =
    (case rp of
       None \<Rightarrow> e
     | Some p \<Rightarrow> e\<lparr>he_errors := he_errors e + (if 500 \<le> rp_Status p then 1 else 0), he_bytesOut := he_bytesOut e + length (rp_Body p)\<rparr>)"

record http_outcome =
  ho_engine :: http_engine
  ho_route :: string
  ho_reported :: "param_change list"
  ho_response :: "response option"

definition server_header :: "http_config \<Rightarrow> (string, string) table" where
  "server_header c = (if hc_Server c = [] then [] else [(''Server'', hc_Server c)])"

text \<open>\<open>ServeHTTP\<close> of a request at \<open>now\<close>; \<open>None\<close> when the authentication does not end (see \<^verbatim>\<open>Digest_Auth\<close>). The
  challenge of a refused request is a header this model leaves out.\<close>

definition ServeHTTP :: "crypto_env \<Rightarrow> value_env \<Rightarrow> http_lib \<Rightarrow> profile_doc \<Rightarrow> engine_user list \<Rightarrow> string \<Rightarrow> instant \<Rightarrow> web_request \<Rightarrow>
    http_engine \<Rightarrow> http_outcome option" where
  "ServeHTTP cry env lib doc us inst now q e0 =
    (let e = e0\<lparr>he_requests := he_requests e0 + 1\<rparr>; c = he_cfg e;
         h = server_header c;
         done = (\<lambda>e route reported rp. Some \<lparr>ho_engine = count_response rp e, ho_route = route, ho_reported = reported, ho_response = rp\<rparr>);
         text = (\<lambda>status t. Some \<lparr>rp_Status = status, rp_Headers = tput ''Content-Type'' plain_text h, rp_Body = t @ [CHR 0x0A]\<rparr>);
         no_sniff = map_option (\<lambda>p. p\<lparr>rp_Headers := tput ''X-Content-Type-Options'' ''nosniff'' (rp_Headers p)\<rparr>) in
     case check_auth cry us now (wr_Auth q) (he_auth e) of
       None \<Rightarrow> None
     | Some (ans, au) \<Rightarrow>
         (let e = e\<lparr>he_auth := au\<rparr> in
          case aa_user ans of
            None \<Rightarrow> done e ''auth'' [] (text 401 ''401 Unauthorized'')
          | Some u \<Rightarrow>
              (case readBody q of
                 None \<Rightarrow> done e ''unknown'' [] (no_sniff (text 413 ''413 Request Entity Too Large''))
               | Some body \<Rightarrow>
                   (let e = e\<lparr>he_bytesIn := he_bytesIn e + length body\<rparr> in
                    case match_route lib q (hc_Routes c) of
                      None \<Rightarrow>
                        (case hc_Unknown c of
                           Some a \<Rightarrow> done e ''unknown'' [] (Some (respond lib (rq_Method (wr_Auth q)) a (requestData q body []) h))
                         | None \<Rightarrow> done e ''unknown'' [] (no_sniff (text 404 ''404 page not found'')))
                    | Some (r, params) \<Rightarrow>
                        if (case allowedRoles r of None \<Rightarrow> False | Some roles \<Rightarrow> eu_Role u \<notin> set roles)
                        then done e (ro_ID r) [] (text 403 ''403 Forbidden'')
                        else case run_action env lib doc inst q body r (requestData q body params) h (he_state e) of
                          (s', reported, rp) \<Rightarrow> done (e\<lparr>he_state := s'\<rparr>) (ro_ID r) reported rp))))"

definition scheme_of :: "string \<Rightarrow> auth_scheme" where
  "scheme_of s = (if s = ''digest'' then SchemeDigest else if s = ''basic'' then SchemeBasic else SchemeNone)"

text \<open>A configuration that has no errors is taken up with an authenticator of its own.\<close>

definition compile_http :: "http_lib \<Rightarrow> http_config \<Rightarrow> (http_problem, http_config) result" where
  "compile_http lib c = (case List.find (\<lambda>p. \<not> is_warning p) (validate_http lib c) of Some p \<Rightarrow> Inl p | None \<Rightarrow> Inr (parsed c))"

definition Reload_http :: "http_lib \<Rightarrow> string \<Rightarrow> string \<Rightarrow> http_config \<Rightarrow> http_engine \<Rightarrow> http_engine \<times> http_problem option" where
  "Reload_http lib key opq c e =
    (case compile_http lib c of
       Inl p \<Rightarrow> (e, Some p)
     | Inr c \<Rightarrow> (e\<lparr>he_cfg := c, he_auth := newAuthenticator (scheme_of (hc_Scheme c)) (hc_Realm c) key opq\<rparr>, None))"

section \<open>Who may change parameters\<close>

lemma lookup_user_mem: "lookup_user us name = Some u \<Longrightarrow> u \<in> set us"
  by (auto simp: lookup_user_def find_Some_iff)

lemma check_auth_user:
  "check_auth cry us now r au = Some (ans, au') \<Longrightarrow> aa_user ans = Some u \<Longrightarrow> u \<in> set us \<or> au_scheme au = SchemeNone \<and> u = anonymous"
  by (auto simp: check_auth_def finish_check_def Let_def lookup_user_mem split: if_splits option.splits prod.splits)

lemma run_action_changes:
  "run_action env lib doc inst q body r data h s = (s', reported, rp) \<Longrightarrow> s' \<noteq> s \<or> reported \<noteq> [] \<Longrightarrow> ha_Handler (ro_Action r) = ''state.set''"
  by (auto simp: run_action_def Let_def split: if_splits option.splits sum.splits)

lemma allowed_roles_set:
  "ha_Handler (ro_Action r) = ''state.set'' \<Longrightarrow>
    (case allowedRoles r of None \<Rightarrow> False | Some roles \<Rightarrow> role \<notin> set roles) \<longleftrightarrow>
    role \<notin> (if ro_Roles r = [] then {''admin'', ''operator''} else set (ro_Roles r))"
  by (simp add: allowedRoles_def)

text \<open>C11. A request changes parameters of a camera, or has the service told of changes, only when it signed in as an
  account of the camera, its first matching route is one that sets parameters, and the role of the account is one
  the route lists, or administrator or operator when it lists none. Without authentication every request is an
  administrator's.\<close>

theorem changes_authorised:
  assumes "ServeHTTP cry env lib doc us inst now q e = Some out"
    and "he_state (ho_engine out) \<noteq> he_state e \<or> ho_reported out \<noteq> []"
  shows "\<exists>ans au u r params. check_auth cry us now (wr_Auth q) (he_auth e) = Some (ans, au) \<and> aa_user ans = Some u \<and>
    (u \<in> set us \<or> au_scheme (he_auth e) = SchemeNone \<and> u = anonymous) \<and>
    match_route lib q (hc_Routes (he_cfg e)) = Some (r, params) \<and> ha_Handler (ro_Action r) = ''state.set'' \<and>
    eu_Role u \<in> (if ro_Roles r = [] then {''admin'', ''operator''} else set (ro_Roles r))"
proof -
  have keep: "he_state (count_response rp e') = he_state e'" for rp e' by (simp add: count_response_def split: option.split)
  from assms(1) obtain ans au where 1: "check_auth cry us now (wr_Auth q) (he_auth e) = Some (ans, au)"
    by (auto simp: ServeHTTP_def Let_def split: option.splits)
  from assms obtain u where 2: "aa_user ans = Some u"
    by (cases "aa_user ans") (auto simp: ServeHTTP_def Let_def 1 keep)
  from assms obtain body where 3: "readBody q = Some body"
    by (cases "readBody q") (auto simp: ServeHTTP_def Let_def 1 2 keep)
  from assms obtain r params where 4: "match_route lib q (hc_Routes (he_cfg e)) = Some (r, params)"
    by (cases "match_route lib q (hc_Routes (he_cfg e))") (auto simp: ServeHTTP_def Let_def 1 2 3 keep split: option.splits)
  let ?no = "case allowedRoles r of None \<Rightarrow> False | Some roles \<Rightarrow> eu_Role u \<notin> set roles"
  from assms have 5: "\<not> ?no" by (cases ?no) (auto simp: ServeHTTP_def Let_def 1 2 3 4 keep)
  let ?h = "server_header (he_cfg e)"
  obtain s' reported rp where 6: "run_action env lib doc inst q body r (requestData q body params) ?h (he_state e) = (s', reported, rp)"
    by (metis prod_cases3)
  from assms(1) 5 have "he_state (ho_engine out) = s' \<and> ho_reported out = reported"
    unfolding ServeHTTP_def by (auto simp: Let_def 1 2 3 4 6 keep simp del: not_None_eq)
  with assms(2) have s: "ha_Handler (ro_Action r) = ''state.set''" by (intro run_action_changes [OF 6]) auto
  from 5 have "eu_Role u \<in> (if ro_Roles r = [] then {''admin'', ''operator''} else set (ro_Roles r))"
    unfolding allowed_roles_set [OF s] by blast
  with s show ?thesis using 1 2 4 check_auth_user [OF 1 2] by blast
qed

section \<open>An accepted configuration always answers\<close>

definition answers :: "route \<Rightarrow> bool" where
  "answers r = (ha_Handler (ro_Action r) \<in> {[], ''state.get'', ''state.set'', ''snapshot''})"

lemma action_faults:
  "\<not> ha_Handler a \<in> {[], ''state.get'', ''state.set'', ''snapshot''} \<Longrightarrow> \<exists>p\<in>set (validateAction lib path name nested a). \<not> is_warning p"
proof -
  obtain st ty hdr body fx hn fr ky sm th where a: "a = HttpAction st ty hdr body fx hn fr ky sm th" by (rule http_action.exhaust)
  assume "\<not> ha_Handler a \<in> {[], ''state.get'', ''state.set'', ''snapshot''}"
  then have n: "hn \<noteq> []" "hn \<notin> {''state.get'', ''state.set'', ''snapshot''}" by (simp_all add: a)
  let ?p = "if hn \<in> set plannedHandlers then (path @ ''/handler'', HandlerPlanned hn) else (path @ ''/handler'', UnknownHandler hn)"
  have "?p \<in> set (handler_fault path hn)" using n(2) by (simp add: handler_fault_def)
  moreover have "set (handler_fault path hn) \<subseteq> set (validateAction lib path name nested a)"
    unfolding a validateAction.simps if_P [OF n(1)] set_append by blast
  ultimately have "?p \<in> set (validateAction lib path name nested a)" by blast
  moreover have "\<not> is_warning ?p" by (simp add: is_warning_def)
  ultimately show ?thesis by blast
qed

lemma validate_route_keeps:
  "\<exists>new. snd (snd (validate_route lib i r (ids, matches, probs))) = probs @ new \<and>
    (\<not> answers r \<longrightarrow> (\<exists>p\<in>set new. \<not> is_warning p))"
  using action_faults [of "ro_Action r" lib "''/routes/'' @ nat_str i @ ''/action''" "ro_ID r" False]
  by (auto simp: validate_route_def Let_def answers_def)

lemma validate_routes_faults:
  "(\<exists>p\<in>set (snd (snd acc)). \<not> is_warning p) \<or> (\<exists>(i, r)\<in>set irs. \<not> answers r) \<Longrightarrow>
    \<exists>p\<in>set (snd (snd (fold (\<lambda>(i, r). validate_route lib i r) irs acc))). \<not> is_warning p"
proof (induction irs arbitrary: acc)
  case (Cons ir irs)
  obtain i r where ir: "ir = (i, r)" by fastforce
  obtain ids matches probs where acc: "acc = (ids, matches, probs)" by (cases acc) auto
  from validate_route_keeps [of lib i r ids matches probs] obtain new where
    new: "snd (snd (validate_route lib i r acc)) = probs @ new" "\<not> answers r \<longrightarrow> (\<exists>p\<in>set new. \<not> is_warning p)"
    by (auto simp: acc)
  from Cons.prems have "(\<exists>p\<in>set (snd (snd (validate_route lib i r acc))). \<not> is_warning p) \<or> (\<exists>(i, r)\<in>set irs. \<not> answers r)"
    using new(2) unfolding new(1) by (auto simp: ir acc)
  from Cons.IH [OF this] show ?case by (simp add: ir)
qed simp

lemma compiled_answers:
  assumes "compile_http lib c0 = Inr c" "r \<in> set (hc_Routes c)"
  shows "answers r"
proof (rule ccontr)
  assume no: "\<not> answers r"
  have rs: "hc_Routes (parsed c0) = hc_Routes c" using assms(1) by (auto simp: compile_http_def split: option.splits)
  from assms(2) obtain i where i: "i < length (hc_Routes c)" "hc_Routes c ! i = r" by (auto simp: in_set_conv_nth)
  then have "(i, r) \<in> set (enumerate 0 (hc_Routes c))" by (auto simp: in_set_enumerate_eq)
  with no have "\<exists>(i, r)\<in>set (enumerate 0 (hc_Routes c)). \<not> answers r" by blast
  from validate_routes_faults [OF disjI2 [OF this], of lib "([], [], [])"]
  obtain p where "p \<in> set (snd (snd (fold (\<lambda>(i, r). validate_route lib i r) (enumerate 0 (hc_Routes c)) ([], [], []))))" "\<not> is_warning p"
    by blast
  moreover from this have "p \<in> set (validate_http lib c0)" by (simp add: validate_http_def Let_def rs)
  ultimately have "\<exists>p\<in>set (validate_http lib c0). \<not> is_warning p" by blast
  with assms(1) show False by (auto simp: compile_http_def find_None_iff split: option.splits)
qed

lemma match_route_mem: "match_route lib q rs = Some (r, params) \<Longrightarrow> r \<in> set rs"
  by (induction rs) (auto split: option.splits)

lemma run_action_answers: "answers r \<Longrightarrow> snd (snd (run_action env lib doc inst q body r data h s)) \<noteq> None"
  by (auto simp: run_action_def answers_def Let_def split: option.splits sum.splits prod.splits)

text \<open>With a configuration the engine has accepted, every request gets an answer: no action is left without a
  way to respond, whatever the request and whatever the handlers return.\<close>

theorem accepted_config_answers:
  assumes "compile_http lib c0 = Inr (he_cfg e)" "ServeHTTP cry env lib doc us inst now q e = Some out"
  shows "ho_response out \<noteq> None"
proof (cases "match_route lib q (hc_Routes (he_cfg e))")
  case None
  with assms(2) show ?thesis by (auto simp: ServeHTTP_def Let_def split: option.splits prod.splits)
next
  case (Some rp)
  obtain r params where rp: "rp = (r, params)" by fastforce
  from compiled_answers [OF assms(1) match_route_mem [OF Some [unfolded rp]]]
  have "snd (snd (run_action env lib doc inst q body r data h s)) \<noteq> None" for body data h s by (rule run_action_answers)
  note run = this
  from assms(2) obtain ans au where 1: "check_auth cry us now (wr_Auth q) (he_auth e) = Some (ans, au)"
    by (auto simp: ServeHTTP_def Let_def split: option.splits)
  show ?thesis
  proof (cases "aa_user ans")
    case None
    with assms(2) show ?thesis by (auto simp: ServeHTTP_def Let_def 1)
  next
    case u: (Some u)
    show ?thesis
    proof (cases "readBody q")
      case None
      with assms(2) show ?thesis by (auto simp: ServeHTTP_def Let_def 1 u)
    next
      case b: (Some body)
      obtain s' reported p where a: "run_action env lib doc inst q body r (requestData q body params) (server_header (he_cfg e)) (he_state e) = (s', reported, p)"
        by (metis prod_cases3)
      from run [of body "requestData q body params" "server_header (he_cfg e)" "he_state e"] have "p \<noteq> None" by (simp add: a)
      with assms(2) Some show ?thesis
        by (cases "case allowedRoles r of None \<Rightarrow> False | Some roles \<Rightarrow> eu_Role u \<notin> set roles") (auto simp: ServeHTTP_def Let_def 1 u b rp a)
    qed
  qed
qed

section \<open>Reading and changing parameters\<close>

definition asked_names :: "string list \<Rightarrow> string list" where
  "asked_names ns = filter (\<lambda>n. n \<noteq> []) (map trim_space ns)"

text \<open>The parameters a name stands for.\<close>

definition meant :: "state_store \<Rightarrow> string \<Rightarrow> string set" where
  "meant s n = (if State_Get n s \<noteq> None then {n} else {k \<in> set (tkeys (sv_values s)). has_prefix (n @ ''.'') k})"

lemma State_List_keys: "map lp_Key (State_List doc prefix s) = sort (filter (has_prefix prefix) (tkeys (sv_values s)))"
  by (simp add: State_List_def comp_def)

lemma State_List_Nil: "State_List doc prefix s = [] \<longleftrightarrow> {k \<in> set (tkeys (sv_values s)). has_prefix prefix k} = {}"
proof -
  have "State_List doc prefix s = [] \<longleftrightarrow> set (map lp_Key (State_List doc prefix s)) = {}" by simp
  then show ?thesis unfolding State_List_keys by simp
qed

lemma State_List_value:
  "p \<in> set (State_List doc prefix s) \<Longrightarrow> lp_Key p \<in> set (tkeys (sv_values s)) \<and> State_Get (lp_Key p) s = Some (lp_Value p)"
  using tget_None_iff [of "sv_values s"] by (fastforce simp: State_List_def value_at_def State_Get_def)

definition found_ok :: "state_store \<Rightarrow> (string \<times> gval) list \<Rightarrow> bool" where
  "found_ok s out = (distinct (map fst out) \<and> (\<forall>(k, v)\<in>set out. State_Get k s = Some v))"

lemma image_diff_keys: "X \<union> f ` {x \<in> A. f x \<notin> X} = X \<union> f ` A"
  by auto

lemma found_more:
  assumes "found_ok s out" "table_ok (sv_values s)"
  shows "found_ok s (out @ map (\<lambda>p. (lp_Key p, lp_Value p)) (filter (\<lambda>p. lp_Key p \<notin> fst ` set out) (State_List doc prefix s)))"
    and "fst ` set (out @ map (\<lambda>p. (lp_Key p, lp_Value p)) (filter (\<lambda>p. lp_Key p \<notin> fst ` set out) (State_List doc prefix s))) =
      fst ` set out \<union> {k \<in> set (tkeys (sv_values s)). has_prefix prefix k}"
proof -
  have "distinct (map lp_Key (State_List doc prefix s))" unfolding State_List_keys using assms(2) by (simp add: table_ok_def)
  then have "distinct (map lp_Key (filter (\<lambda>p. lp_Key p \<notin> fst ` set out) (State_List doc prefix s)))" by (rule distinct_map_filter)
  then show "found_ok s (out @ map (\<lambda>p. (lp_Key p, lp_Value p)) (filter (\<lambda>p. lp_Key p \<notin> fst ` set out) (State_List doc prefix s)))"
    using assms(1) State_List_value [of _ doc prefix s] by (auto simp: found_ok_def comp_def) (metis fst_conv image_eqI)
  have "lp_Key ` set (State_List doc prefix s) = {k \<in> set (tkeys (sv_values s)). has_prefix prefix k}"
    using arg_cong [OF State_List_keys [of doc prefix s], of set] by auto
  then show "fst ` set (out @ map (\<lambda>p. (lp_Key p, lp_Value p)) (filter (\<lambda>p. lp_Key p \<notin> fst ` set out) (State_List doc prefix s))) =
      fst ` set out \<union> {k \<in> set (tkeys (sv_values s)). has_prefix prefix k}"
    by (simp add: image_Un image_image image_diff_keys)
qed

lemma found_one: "found_ok s out \<Longrightarrow> State_Get n s = Some v \<Longrightarrow> n \<notin> fst ` set out \<Longrightarrow> found_ok s (out @ [(n, v)])"
  by (auto simp: found_ok_def)

lemma collect_facts:
  "collect doc s ns out = Inr out' \<Longrightarrow> found_ok s out \<Longrightarrow> table_ok (sv_values s) \<Longrightarrow>
    found_ok s out' \<and> fst ` set out' = fst ` set out \<union> (\<Union>n\<in>set (asked_names ns). meant s n)"
proof (induction ns arbitrary: out)
  case (Cons m ns)
  let ?n = "trim_space m"
  show ?case
  proof (cases "?n = []")
    case True
    with Cons show ?thesis by (simp add: asked_names_def)
  next
    case ne: False
    show ?thesis
    proof (cases "State_Get ?n s")
      case (Some v)
      let ?out = "if ?n \<in> fst ` set out then out else out @ [(?n, v)]"
      from Cons.prems(1) ne Some have c: "collect doc s ns ?out = Inr out'" by (simp add: Let_def)
      have ok: "found_ok s ?out" "fst ` set ?out = insert ?n (fst ` set out)" using found_one [OF Cons.prems(2) Some] Cons.prems(2) by auto
      from Cons.IH [OF c ok(1) Cons.prems(3)] show ?thesis unfolding ok(2) using ne Some by (auto simp: asked_names_def meant_def)
    next
      case None
      let ?out = "out @ map (\<lambda>p. (lp_Key p, lp_Value p)) (filter (\<lambda>p. lp_Key p \<notin> fst ` set out) (State_List doc (?n @ ''.'') s))"
      from Cons.prems(1) ne None have c: "collect doc s ns ?out = Inr out'" by (simp add: Let_def split: if_splits)
      from Cons.IH [OF c found_more(1) [OF Cons.prems(2,3)] Cons.prems(3)]
      show ?thesis unfolding found_more(2) [OF Cons.prems(2,3)] using ne None by (simp add: asked_names_def meant_def Un_assoc)
    qed
  qed
qed (simp add: asked_names_def)

lemma meant_none: "State_Get n s = None \<Longrightarrow> State_List doc (n @ ''.'') s = [] \<Longrightarrow> meant s n = {}"
  unfolding State_List_Nil by (simp add: meant_def)

lemma collect_unknown:
  "collect doc s ns out = Inl e \<Longrightarrow> \<exists>n\<in>set (asked_names ns). e = UnknownName n \<and> meant s n = {}"
proof (induction ns arbitrary: out)
  case (Cons m ns)
  have more: "\<exists>n\<in>set (asked_names (m # ns)). e = UnknownName n \<and> meant s n = {}" if "collect doc s ns out = Inl e" for out
    using Cons.IH [OF that] by (auto simp: asked_names_def)
  show ?case
  proof (cases "State_Get (trim_space m) s")
    case None
    show ?thesis
    proof (cases "trim_space m \<noteq> [] \<and> State_List doc (trim_space m @ ''.'') s = []")
      case True
      then have "meant s (trim_space m) = {}" using meant_none [OF None, of doc] by blast
      with True Cons.prems None show ?thesis by (auto simp: asked_names_def)
    next
      case False
      with Cons.prems None obtain out' where "collect doc s ns out' = Inl e" by (cases "trim_space m = []") (auto simp: Let_def split: if_splits)
      then show ?thesis by (rule more)
    qed
  next
    case (Some v)
    with Cons.prems obtain out' where "collect doc s ns out' = Inl e" by (cases "trim_space m = []") (auto simp: Let_def split: if_splits)
    then show ?thesis by (rule more)
  qed
qed simp

text \<open>The list of names a request asks for: of its body when the action reads a form, of its query otherwise;
  None for a body that is no form.\<close>

definition asked_text :: "http_lib \<Rightarrow> web_request \<Rightarrow> string \<Rightarrow> http_action \<Rightarrow> string option" where
  "asked_text lib q body a =
    (let key = (if ha_Key a = [] then ''name'' else ha_Key a) in
     if ha_From a = ''form'' then map_option (\<lambda>form. first_value form key) (hl_form lib body)
     else Some (first_value (wr_Query q) key))"

lemma stateGet_asked:
  "stateGet lib doc s q body a = (case asked_text lib q body a of
     None \<Rightarrow> Inl InvalidForm
   | Some raw \<Rightarrow> if trim_space raw = [] then Inr (map (\<lambda>p. (lp_Key p, lp_Value p)) (State_List doc [] s))
       else (case collect doc s (split_on (CHR '','') raw) [] of Inl e \<Rightarrow> Inl e | Inr out \<Rightarrow> Inr (sort_key fst out)))"
  by (simp add: stateGet_def asked_text_def Let_def)

text \<open>C16. Reading parameters, with the names in the query or in a form, answers with the current values, once each and in
  the order of their keys: of every parameter when no name is given, and otherwise of the parameters named, a name that is
  none standing for those below it. It fails only for a body that is no form and for a name that stands for nothing.\<close>

theorem get_answers:
  assumes "table_ok (sv_values s)"
  shows "case (asked_text lib q body a, stateGet lib doc s q body a) of
      (None, r) \<Rightarrow> ha_From a = ''form'' \<and> hl_form lib body = None \<and> r = Inl InvalidForm
    | (Some raw, Inr out) \<Rightarrow> sorted (map fst out) \<and> distinct (map fst out) \<and> (\<forall>(k, v)\<in>set out. State_Get k s = Some v) \<and>
        fst ` set out = (if trim_space raw = [] then set (tkeys (sv_values s)) else \<Union>n\<in>set (asked_names (split_on (CHR '','') raw)). meant s n)
    | (Some raw, Inl e) \<Rightarrow> \<exists>n\<in>set (asked_names (split_on (CHR '','') raw)). e = UnknownName n \<and> meant s n = {}"
proof (cases "asked_text lib q body a")
  case None
  then show ?thesis by (auto simp: stateGet_asked) (auto simp: asked_text_def Let_def split: if_splits)
next
  case raw: (Some raw)
  show ?thesis
  proof (cases "trim_space raw = []")
    case True
    let ?out = "map (\<lambda>p. (lp_Key p, lp_Value p)) (State_List doc [] s)"
    have g: "stateGet lib doc s q body a = Inr ?out" using raw True by (simp add: stateGet_asked)
    have "found_ok s []" by (simp add: found_ok_def)
    from found_more [OF this assms(1), of doc "[]"] have "found_ok s ?out" "fst ` set ?out = set (tkeys (sv_values s))" by (simp_all add: has_prefix_def)
    moreover have "sorted (map fst ?out)" using State_List_keys [of doc "[]" s] by (simp add: comp_def)
    ultimately show ?thesis using True by (simp add: g raw found_ok_def)
  next
    case False
    then have g: "stateGet lib doc s q body a = (case collect doc s (split_on (CHR '','') raw) [] of Inl e \<Rightarrow> Inl e | Inr out \<Rightarrow> Inr (sort_key fst out))"
      using raw by (simp add: stateGet_asked)
    show ?thesis
    proof (cases "collect doc s (split_on (CHR '','') raw) []")
      case (Inl e)
      with collect_unknown [OF Inl] show ?thesis by (simp add: g raw)
    next
      case (Inr out)
      from collect_facts [OF Inr _ assms(1)] False distinct_sort_key [of out] show ?thesis by (simp add: g raw Inr found_ok_def)
    qed
  qed
qed

text \<open>C15. What a client sets is what a client reads: after a request that was accepted, asking for a parameter it set,
  through a query or a form, answers with the coerced value, as it prints.\<close>

theorem set_then_get:
  assumes "stateSet env lib doc inst q body r a s = (s', reported, Inr cs)" "posted_values lib q body r a = Inr ins" "table_ok ins"
    and "tget ins k = Some v" "k \<noteq> []" "trimmed k" "CHR '','' \<notin> set k"
    and "asked_text lib q' body' a' = Some k"
    and "\<And>k p. tget (pd_State doc) k = Some p \<Longrightarrow> State_Get k s \<noteq> None"
  shows "\<exists>w x. coerced_to env doc k v = Some w \<and> stateGet lib doc s' q' body' a' = Inr [(k, x)] \<and> sprint env x = sprint env w"
proof -
  let ?og = "\<lparr>og_Kind = ''client'', og_IP = wr_ClientIP q, og_Engine = inst\<rparr>"
  obtain s2 ans where st: "State_Set env doc ins ?og s = (s2, ans)" by fastforce
  have ins: "ins \<noteq> []" using assms(4) by auto
  with assms(1,2) st have "s' = s2" "sa_result ans = Inr cs" by (auto simp: stateSet_def split: sum.splits)
  with State_Set_facts [OF assms(3) st] assms(4) obtain w where w: "coerced_to env doc k v = Some w"
    "State_Get k s' = (if sprint env (value_at (sv_values s) k) = sprint env w then State_Get k s else Some w)"
    by fastforce
  from w(1) assms(9) have "State_Get k s \<noteq> None" by (auto simp: coerced_to_Some)
  then obtain x where x: "State_Get k s' = Some x" "sprint env x = sprint env w"
    using w(2) by (cases "sprint env (value_at (sv_values s) k) = sprint env w") (auto simp: State_Get_def value_at_def)
  have "stateGet lib doc s' q' body' a' = Inr [(k, x)]"
    using assms(5-8) x(1) by (simp add: stateGet_asked trim_space_id split_on_notin)
  with w(1) x(2) show ?thesis by blast
qed

section \<open>A camera without authentication\<close>

definition demo_route :: route where
  "demo_route = \<lparr>ro_ID = ''set'', ro_Match = \<lparr>rm_Method = [], rm_Path = ''set'', rm_Query = [], rm_Headers = []\<rparr>,
     ro_Action = HttpAction 0 [] [] [] [] ''state.set'' ''query'' [] [] None, ro_Roles = []\<rparr>"

definition demo_config :: http_config where
  "demo_config = \<lparr>hc_Scheme = ''none'', hc_Realm = [], hc_Server = [], hc_Routes = [demo_route], hc_Unknown = None\<rparr>"

definition demo_lib :: http_lib where
  "demo_lib = \<lparr>hl_regex = (\<lambda>s. None), hl_check = (\<lambda>n s. None), hl_render = (\<lambda>t d. None), hl_form = (\<lambda>s. None), hl_json = (\<lambda>s. None),
     hl_canonical = id, hl_snapshot = (\<lambda>s. None), hl_problem = (\<lambda>e. [])\<rparr>"

definition demo_crypto :: crypto_env where
  "demo_crypto = \<lparr>hmac_sum = (\<lambda>k m. []), md5_sum = (\<lambda>s. []), uni_lower = id, map_visit = id\<rparr>"

definition demo_request :: web_request where
  "demo_request = \<lparr>wr_Auth = \<lparr>rq_Authorization = [], rq_Method = ''GET'', rq_RequestURI = ''/set''\<rparr>, wr_Path = ''set'',
     wr_Query = [(''Image.Brightness'', [''70''])], wr_Header = [], wr_Body = None, wr_ClientIP = ''10.0.0.9''\<rparr>"

definition demo_engine :: http_engine where
  "demo_engine = \<lparr>he_cfg = demo_config, he_auth = newAuthenticator SchemeNone [] [] [], he_state = newStateStore plain_env toy_doc [],
     he_requests = 0, he_errors = 0, he_bytesIn = 0, he_bytesOut = 0\<rparr>"

lemma demo_compiles: "compile_http demo_lib demo_config = Inr demo_config"
  by (simp add: compile_http_def validate_http_def parsed_def demo_config_def validate_route_def demo_route_def Let_def handler_fault_def)

lemma demo_text_coerces: "Coerce plain_env bright (GStr ''70'') = Inr (GInt 70)"
proof -
  have "parse_int64 ''70'' = Some 70" by (simp add: parse_int64_def digit_val_def is_digit_c_def byte_def)
  moreover have "trim_space ''70'' = ''70''" by (rule trim_space_id) (simp add: trimmed_def space_seqs_def has_prefix_def has_suffix_def)
  moreover have "float_of_int 70 = 70" using fl_of_int_exact [of 70] by (simp add: float_of_int_def)
  ultimately show ?thesis by (simp add: Coerce_def bright_def toInt_def int_text_def in_range_def)
qed

lemma demo_set:
  "State_Set plain_env toy_doc [(''Image.Brightness'', GStr ''70'')] from_client (newStateStore plain_env toy_doc []) =
   State_Set plain_env toy_doc [(''Image.Brightness'', GInt 70)] from_client (newStateStore plain_env toy_doc [])"
  by (simp add: State_Set_def toy_doc_def demo_text_coerces bright_coerces)

lemma demo_path: "splitPath ''set'' = [''set'']"
proof -
  have "trim_chars ''/'' ''set'' = ''set''" by (simp add: trim_eval)
  then show ?thesis by (simp add: splitPath_def)
qed

lemma demo_serves:
  "\<exists>out. ServeHTTP demo_crypto plain_env demo_lib toy_doc [] ''http'' 0 demo_request demo_engine = Some out \<and>
    State_Get ''Image.Brightness'' (he_state (ho_engine out)) = Some (GInt 70) \<and> length (ho_reported out) = 1"
proof -
  have o: "\<lparr>og_Kind = ''client'', og_IP = ''10.0.0.9'', og_Engine = ''http''\<rparr> = from_client" by (simp add: from_client_def)
  have p: "posted_values demo_lib demo_request [] demo_route (ro_Action demo_route) = Inr [(''Image.Brightness'', GStr ''70'')]"
    by (simp add: posted_values_def demo_request_def demo_route_def)
  have s: "stateSet plain_env demo_lib toy_doc ''http'' demo_request [] demo_route (ro_Action demo_route) (newStateStore plain_env toy_doc []) =
    (\<lparr>sv_values = [(''Image.Brightness'', GInt 70)], sv_watchers = [], sv_next = 0\<rparr>,
     [\<lparr>pc_Key = ''Image.Brightness'', pc_Value = GInt 70, pc_Bind = [], pc_Origin = from_client\<rparr>],
     Inr [\<lparr>pc_Key = ''Image.Brightness'', pc_Value = GInt 70, pc_Bind = [], pc_Origin = from_client\<rparr>])"
    by (simp add: stateSet_def p) (simp add: demo_request_def o demo_set toy_set)
  have m: "match_route demo_lib demo_request (hc_Routes demo_config) = Some (demo_route, [])"
    by (simp add: demo_config_def route_params_def demo_route_def demo_request_def demo_path matchPath_def canonical_headers_def has_prefix_def)
  have a: "check_auth demo_crypto [] 0 (wr_Auth demo_request) (he_auth demo_engine) = Some (\<lparr>aa_user = Some anonymous, aa_stale = False\<rparr>, he_auth demo_engine)"
    by (simp add: check_auth_def demo_engine_def newAuthenticator_def Let_def)
  have b: "readBody demo_request = Some []" by (simp add: readBody_def demo_request_def)
  have r: "allowedRoles demo_route = Some [''admin'', ''operator'']" "eu_Role anonymous = ''admin''"
    by (simp_all add: allowedRoles_def demo_route_def anonymous_def RoleAdmin_def)
  have h: "ha_Handler (ro_Action demo_route) = ''state.set''" "ha_Then (ro_Action demo_route) = None" by (simp_all add: demo_route_def)
  have e: "he_cfg demo_engine = demo_config" "he_state demo_engine = newStateStore plain_env toy_doc []" by (simp_all add: demo_engine_def)
  obtain p' where run: "run_action plain_env demo_lib toy_doc ''http'' demo_request [] demo_route d h' (newStateStore plain_env toy_doc []) =
      (\<lparr>sv_values = [(''Image.Brightness'', GInt 70)], sv_watchers = [], sv_next = 0\<rparr>,
       [\<lparr>pc_Key = ''Image.Brightness'', pc_Value = GInt 70, pc_Bind = [], pc_Origin = from_client\<rparr>], p' d h')" for d h'
    by (simp add: run_action_def Let_def h s)
  show ?thesis
    by (simp add: ServeHTTP_def Let_def a b r e m run) (simp add: count_response_def State_Get_def split: option.split)
qed

theorem changes_authorised_witness:
  "\<exists>out r. ServeHTTP demo_crypto plain_env demo_lib toy_doc [] ''http'' 0 demo_request demo_engine = Some out \<and>
    ho_reported out \<noteq> [] \<and> r \<in> set (hc_Routes (he_cfg demo_engine)) \<and> ha_Handler (ro_Action r) = ''state.set''"
proof -
  obtain out where out: "ServeHTTP demo_crypto plain_env demo_lib toy_doc [] ''http'' 0 demo_request demo_engine = Some out"
    "ho_reported out \<noteq> []"
    using demo_serves by force
  from changes_authorised [OF out(1) disjI2 [OF out(2)]] out show ?thesis by (blast dest: match_route_mem)
qed

theorem accepted_config_answers_witness:
  "\<exists>out. ServeHTTP demo_crypto plain_env demo_lib toy_doc [] ''http'' 0 demo_request demo_engine = Some out \<and> ho_response out \<noteq> None"
proof -
  obtain out where out: "ServeHTTP demo_crypto plain_env demo_lib toy_doc [] ''http'' 0 demo_request demo_engine = Some out"
    using demo_serves by force
  have "compile_http demo_lib demo_config = Inr (he_cfg demo_engine)" by (simp add: demo_compiles) (simp add: demo_engine_def)
  from accepted_config_answers [OF this out] out show ?thesis by blast
qed

definition demo_read :: web_request where
  "demo_read = demo_request\<lparr>wr_Query := [(''name'', [''Image.Brightness''])]\<rparr>"

definition demo_get :: http_action where
  "demo_get = HttpAction 0 [] [] [] [] ''state.get'' [] [] [] None"

lemma demo_key_trimmed: "trimmed ''Image.Brightness''"
  by (simp add: trimmed_def space_seqs_def has_prefix_def has_suffix_def)

lemma demo_store: "sv_values (newStateStore plain_env toy_doc []) = [(''Image.Brightness'', GInt 50)]"
  by (simp add: newStateStore_def toy_doc_def Defaults_def bright_def)

theorem get_answers_witness:
  "case stateGet demo_lib toy_doc (newStateStore plain_env toy_doc []) demo_read [] demo_get of
     Inr out \<Rightarrow> fst ` set out = {''Image.Brightness''} | Inl e \<Rightarrow> False"
proof -
  let ?s = "newStateStore plain_env toy_doc []"
  have t: "table_ok (sv_values ?s)" by (simp add: demo_store table_ok_def tkeys_def)
  have raw: "asked_text demo_lib demo_read [] demo_get = Some ''Image.Brightness''"
    by (simp add: asked_text_def demo_read_def demo_get_def first_value_def values_of_def)
  have n: "split_on (CHR '','') ''Image.Brightness'' = [''Image.Brightness'']" "asked_names [''Image.Brightness''] = [''Image.Brightness'']"
    by (simp_all add: asked_names_def trim_space_id [OF demo_key_trimmed])
  have m: "meant ?s ''Image.Brightness'' = {''Image.Brightness''}" by (simp add: meant_def State_Get_def demo_store)
  from get_answers [OF t, where lib = demo_lib and q = demo_read and body = "[]" and a = demo_get and doc = toy_doc] show ?thesis
    by (simp add: raw n m trim_space_id [OF demo_key_trimmed] split: sum.splits)
qed

theorem set_then_get_witness:
  "\<exists>s' x. stateGet demo_lib toy_doc s' demo_read [] demo_get = Inr [(''Image.Brightness'', x)] \<and> sprint plain_env x = sprint plain_env (GInt 70)"
proof -
  let ?s = "newStateStore plain_env toy_doc []"
  have o: "\<lparr>og_Kind = ''client'', og_IP = ''10.0.0.9'', og_Engine = ''http''\<rparr> = from_client" by (simp add: from_client_def)
  have p: "posted_values demo_lib demo_request [] demo_route (ro_Action demo_route) = Inr [(''Image.Brightness'', GStr ''70'')]"
    by (simp add: posted_values_def demo_request_def demo_route_def)
  have "\<exists>s' reported cs. stateSet plain_env demo_lib toy_doc ''http'' demo_request [] demo_route (ro_Action demo_route) ?s = (s', reported, Inr cs)"
    by (simp add: stateSet_def p) (simp add: demo_request_def o demo_set toy_set)
  then obtain s' reported cs where s: "stateSet plain_env demo_lib toy_doc ''http'' demo_request [] demo_route (ro_Action demo_route) ?s = (s', reported, Inr cs)"
    by blast
  have raw: "asked_text demo_lib demo_read [] demo_get = Some ''Image.Brightness''"
    by (simp add: asked_text_def demo_read_def demo_get_def first_value_def values_of_def)
  have "table_ok [(''Image.Brightness'', GStr ''70'')]" "tget [(''Image.Brightness'', GStr ''70'')] ''Image.Brightness'' = Some (GStr ''70'')"
    by (simp_all add: table_ok_def tkeys_def)
  moreover have "State_Get k ?s \<noteq> None" if "tget (pd_State toy_doc) k = Some q" for k q
    using that by (cases "k = ''Image.Brightness''") (simp_all add: State_Get_def demo_store, simp add: toy_doc_def)
  ultimately have "\<exists>w x. coerced_to plain_env toy_doc ''Image.Brightness'' (GStr ''70'') = Some w \<and>
      stateGet demo_lib toy_doc s' demo_read [] demo_get = Inr [(''Image.Brightness'', x)] \<and> sprint plain_env x = sprint plain_env w"
    by (intro set_then_get [OF s p]) (simp_all add: demo_key_trimmed raw)
  moreover have "coerced_to plain_env toy_doc ''Image.Brightness'' (GStr ''70'') = Some (GInt 70)"
    by (simp add: coerced_to_def demo_text_coerces toy_doc_def)
  ultimately show ?thesis by auto
qed

text \<open>Two matches that differ can have the same key, and the second of them is then warned of as one that never matches.\<close>

lemma matchKey_ambiguous:
  "matchKey \<lparr>rm_Method = [], rm_Path = ''/a'', rm_Query = [(''x'', ''1&y=2'')], rm_Headers = []\<rparr> =
   matchKey \<lparr>rm_Method = [], rm_Path = ''/a'', rm_Query = [(''x'', ''1''), (''y'', ''2'')], rm_Headers = []\<rparr>"
  by (simp add: matchKey_def less_eq_list_code)

end
