(* ===== verification/Net_Spec.thy ===== *)
theory Net_Spec
  imports Camera_Addresses
begin

text \<open>
  The request the service makes to the privileged network helper to start a camera, \<^verbatim>\<open>cameraSpec\<close> of
  \<^verbatim>\<open>backend/internal/app/supervisor.go\<close>, and the check the helper makes of it, \<^verbatim>\<open>backend/internal/netctl/spec.go\<close>.
\<close>

section \<open>The request\<close>

record socket_request =
  sk_Instance :: string
  sk_Name :: string
  sk_Network :: string
  sk_Port :: int

record camera_request =
  cq_ID :: string
  cq_Netns :: string
  cq_Mode :: string
  cq_Parent :: string
  cq_MAC :: string
  cq_IP :: string
  cq_Prefix :: int
  cq_Gateway :: string
  cq_Sockets :: "socket_request list"

definition NetMacvlan_text :: string where "NetMacvlan_text = ''macvlan''"

text \<open>The patterns of the names.\<close>

definition id_char :: "char \<Rightarrow> bool" where
  "id_char c = (is_digit_c (byte c) \<or> is_upper_c (byte c) \<and> c \<notin> set ''ILOU'')"

definition id_ok :: "string \<Rightarrow> bool" where
  "id_ok s = (length s = 26 \<and> list_all id_char s)"

definition dash_char :: "char \<Rightarrow> bool" where
  "dash_char c = (is_lower_c (byte c) \<or> is_digit_c (byte c) \<or> c = CHR ''-'')"

definition netns_ok :: "string \<Rightarrow> bool" where
  "netns_ok s = (has_prefix ''sim-'' s \<and> 1 \<le> length (drop 4 s) \<and> length (drop 4 s) \<le> 40 \<and> list_all dash_char (drop 4 s))"

definition iface_char :: "char \<Rightarrow> bool" where
  "iface_char c = (is_upper_c (byte c) \<or> is_lower_c (byte c) \<or> is_digit_c (byte c) \<or> c \<in> set ''._@-'')"

definition iface_ok :: "string \<Rightarrow> bool" where
  "iface_ok s = (1 \<le> length s \<and> length s \<le> 15 \<and> list_all iface_char s)"

definition socket_ok :: "string \<Rightarrow> bool" where
  "socket_ok s = (1 \<le> length s \<and> length s \<le> 32 \<and> list_all (\<lambda>c. dash_char c \<or> c = CHR ''_'') s)"

datatype request_error =
    BadID string | BadNetns string | BadMode string | BadParent string | BadIP string | BadGateway string | BadIdentity error
  | TooManySockets | BadSocketName string string | BadSocketNetwork string | BadPort int | PortTwice string

definition port_key :: "socket_request \<Rightarrow> string" where
  "port_key so = sk_Network so @ ''/'' @ itoa (sk_Port so)"

fun check_sockets :: "string list \<Rightarrow> socket_request list \<Rightarrow> request_error option" where
  "check_sockets seen [] = None"
| "check_sockets seen (so # sos) =
    (if \<not> socket_ok (sk_Instance so) \<or> \<not> socket_ok (sk_Name so) then Some (BadSocketName (sk_Instance so) (sk_Name so))
     else if sk_Network so \<noteq> ''tcp'' \<and> sk_Network so \<noteq> ''udp'' then Some (BadSocketNetwork (sk_Network so))
     else if sk_Port so < 1 \<or> 65535 < sk_Port so then Some (BadPort (sk_Port so))
     else if port_key so \<in> set seen then Some (PortTwice (port_key so))
     else check_sockets (port_key so # seen) sos)"

definition CameraSpec_Validate :: "node \<Rightarrow> camera_request \<Rightarrow> request_error option" where
  "CameraSpec_Validate n s =
    (if \<not> id_ok (cq_ID s) then Some (BadID (cq_ID s))
     else if \<not> netns_ok (cq_Netns s) then Some (BadNetns (cq_Netns s))
     else if cq_Mode s \<noteq> NetMacvlan_text then Some (BadMode (cq_Mode s))
     else if \<not> iface_ok (cq_Parent s) then Some (BadParent (cq_Parent s))
     else case ParseAddr n (cq_IP s) of
       None \<Rightarrow> Some (BadIP (cq_IP s))
     | Some ip \<Rightarrow>
         (case (if cq_Gateway s = [] then Some NoAddr else ParseAddr n (cq_Gateway s)) of
            None \<Rightarrow> Some (BadGateway (cq_Gateway s))
          | Some gw \<Rightarrow>
              (case NetIdentity_Validate \<lparr>nid_Mode = NetMacvlan, nid_ParentIf = [], nid_MAC = cq_MAC s, nid_IPMode = IPStatic, nid_IP = ip,
                      nid_Prefix = cq_Prefix s, nid_Gateway = gw, nid_DNS = []\<rparr> of
                 Some e \<Rightarrow> Some (BadIdentity e)
               | None \<Rightarrow> if 16 < length (cq_Sockets s) then Some TooManySockets else check_sockets [] (cq_Sockets s))))"

text \<open>The engine of an instance; a reference without an \<^verbatim>\<open>@\<close> is a name alone.\<close>

definition engineOf :: "document \<Rightarrow> string \<Rightarrow> (error, string \<times> string) result" where
  "engineOf doc inst =
    (case tget (dc_Engines doc) inst of
       None \<Rightarrow> Inl (OtherError (msgf ''profile has no engine instance %s'' [AStr inst]))
     | Some None \<Rightarrow> Inl bad_json
     | Some (Some h) \<Rightarrow> (case cut (CHR ''@'') (eh_Engine h) of None \<Rightarrow> Inr (eh_Engine h, []) | Some nr \<Rightarrow> Inr nr))"

definition socket_requests :: "string \<Rightarrow> int \<Rightarrow> descriptor \<Rightarrow> socket_request list" where
  "socket_requests k port e =
    map (\<lambda>(j, so). \<lparr>sk_Instance = k, sk_Name = so_Name so, sk_Network = so_Network so, sk_Port = (if j = 0 then port else so_DefaultPort so)\<rparr>)
      (enumerate (0 :: nat) (de_Sockets e))"

fun spec_sockets :: "node \<Rightarrow> document \<Rightarrow> (string, protocol_row) table \<Rightarrow> (error, socket_request list) result" where
  "spec_sockets n doc [] = Inr []"
| "spec_sockets n doc ((k, p) # ps) =
    (if \<not> cp_Enabled p \<or> cp_Port p = 0 then spec_sockets n doc ps
     else case engineOf doc k of
       Inl e \<Rightarrow> Inl e
     | Inr (name, rng) \<Rightarrow>
         (case Resolve n name rng of
            Inl e \<Rightarrow> Inl e
          | Inr e \<Rightarrow> (case spec_sockets n doc ps of Inl e' \<Rightarrow> Inl e' | Inr sos \<Rightarrow> Inr (socket_requests k (cp_Port p) e @ sos))))"

text \<open>\<open>cameraSpec\<close> with the namespace name \<open>netns\<close> and the default interface \<open>parent\<close> of the node.\<close>

definition cameraSpec :: "node \<Rightarrow> string \<Rightarrow> string \<Rightarrow> string \<Rightarrow> camera_bundle \<Rightarrow> (error, camera_request) result" where
  "cameraSpec n i netns parent b =
    (let s = \<lparr>cq_ID = i, cq_Netns = [], cq_Mode = NetMacvlan_text, cq_Parent = cn_ParentIf (b_net b), cq_MAC = cn_Mac (b_net b),
              cq_IP = cn_Ip (b_net b), cq_Prefix = 0, cq_Gateway = cn_Gateway (b_net b), cq_Sockets = []\<rparr> in
     case (if nd_local n then Inr s
           else if cq_IP s = [] then Inl (OtherError (msg ''the camera has no IP address; edit its network''))
           else case MaskToPrefix (cn_Netmask (b_net b)) of
             Inl m \<Rightarrow> Inl (OtherError m)
           | Inr p \<Rightarrow> Inr (s\<lparr>cq_Prefix := p, cq_Parent := (if cq_Parent s = [] then parent else cq_Parent s), cq_Netns := netns\<rparr>)) of
       Inl e \<Rightarrow> Inl e
     | Inr s \<Rightarrow> (case spec_sockets n (b_doc b) (b_protos b) of Inl e \<Rightarrow> Inl e | Inr sos \<Rightarrow> Inr (s\<lparr>cq_Sockets := sos\<rparr>)))"

section \<open>When the helper accepts it\<close>

lemma port_key_inj:
  assumes "port_key x = port_key y" "sk_Network x \<in> {''tcp'', ''udp''}" "sk_Network y \<in> {''tcp'', ''udp''}"
  shows "(sk_Network x, sk_Port x) = (sk_Network y, sk_Port y)"
  using assms by (auto simp: port_key_def dest: itoa_inj)

lemma check_sockets_None:
  "check_sockets seen sos = None \<longleftrightarrow>
    (\<forall>so\<in>set sos. socket_ok (sk_Instance so) \<and> socket_ok (sk_Name so) \<and> sk_Network so \<in> {''tcp'', ''udp''} \<and> 1 \<le> sk_Port so \<and> sk_Port so \<le> 65535) \<and>
    distinct (map port_key sos) \<and> set (map port_key sos) \<inter> set seen = {}"
  by (induction sos arbitrary: seen) auto

lemma distinct_port_keys:
  assumes "\<forall>so\<in>set sos. sk_Network so \<in> {''tcp'', ''udp''}"
  shows "distinct (map port_key sos) \<longleftrightarrow> distinct (map (\<lambda>so. (sk_Network so, sk_Port so)) sos)"
  using assms
proof (induction sos)
  case (Cons so sos)
  have "port_key so \<in> port_key ` set sos \<longleftrightarrow> (sk_Network so, sk_Port so) \<in> (\<lambda>so. (sk_Network so, sk_Port so)) ` set sos"
  proof
    assume "port_key so \<in> port_key ` set sos"
    then obtain x where x: "x \<in> set sos" "port_key so = port_key x" by blast
    with Cons.prems port_key_inj [OF x(2)] have "(sk_Network so, sk_Port so) = (sk_Network x, sk_Port x)" by simp
    with x(1) show "(sk_Network so, sk_Port so) \<in> (\<lambda>so. (sk_Network so, sk_Port so)) ` set sos" by (rule image_eqI [rotated])
  next
    assume "(sk_Network so, sk_Port so) \<in> (\<lambda>so. (sk_Network so, sk_Port so)) ` set sos"
    then obtain x where "x \<in> set sos" "sk_Network so = sk_Network x" "sk_Port so = sk_Port x" by auto
    then show "port_key so \<in> port_key ` set sos" by (auto simp: port_key_def intro!: image_eqI [of _ _ x])
  qed
  with Cons show ?case by simp
qed simp

lemma Resolve_Builtin: "Resolve n name rng = Inr e \<Longrightarrow> e \<in> {rtsp_Describe, httpapi_Describe, httppush_Describe}"
  by (auto simp: Resolve_def Builtin_def split: option.splits if_splits)

lemma builtin_sockets:
  "e \<in> {rtsp_Describe, httpapi_Describe, httppush_Describe} \<Longrightarrow> so \<in> set (socket_requests k port e) \<Longrightarrow>
    sk_Instance so = k \<and> socket_ok (sk_Name so) \<and> sk_Network so \<in> {''tcp'', ''udp''}"
  by (auto simp: socket_requests_def rtsp_Describe_def httpapi_Describe_def httppush_Describe_def socket_ok_def dash_char_def is_lower_c_def byte_def)

lemma spec_sockets_facts:
  "spec_sockets n doc ps = Inr sos \<Longrightarrow> so \<in> set sos \<Longrightarrow> sk_Instance so \<in> set (tkeys ps) \<and> socket_ok (sk_Name so) \<and> sk_Network so \<in> {''tcp'', ''udp''}"
proof (induction n doc ps arbitrary: sos rule: spec_sockets.induct)
  case (2 n doc k p ps)
  show ?case
  proof (cases "\<not> cp_Enabled p \<or> cp_Port p = 0")
    case True
    with 2 show ?thesis by (auto simp: tkeys_def)
  next
    case False
    with "2.prems"(1) obtain name rng e rest where r: "engineOf doc k = Inr (name, rng)" "Resolve n name rng = Inr e"
      "spec_sockets n doc ps = Inr rest" "sos = socket_requests k (cp_Port p) e @ rest"
      by (auto split: sum.splits)
    from "2.prems"(2) r(4) consider "so \<in> set (socket_requests k (cp_Port p) e)" | "so \<in> set rest" by auto
    then show ?thesis
    proof cases
      case 1
      from builtin_sockets [OF Resolve_Builtin [OF r(2)] this] show ?thesis by (simp add: tkeys_def)
    next
      case 2
      from "2.IH"(2) [OF False r(1) refl r(2,3) this] show ?thesis by (simp add: tkeys_def)
    qed
  qed
qed simp

text \<open>C3. The helper trusts nothing it did not check, yet nothing of the address of a camera the service stored makes
  it refuse: the request for a camera of any run of the service is accepted exactly when its identifier and its names
  have the form the helper knows, it opens at most 16 sockets on ports from 1 to 65535, and no two of them are the same
  port of the same network. The service checks the last only when protocols are changed: a camera created
  from a profile with two engines on one default port is stored and can never start.\<close>

theorem helper_accepts_iff:
  assumes "reach (service_step (\<lambda>n. True)) new_db d" "load i d = Inr b" "\<not> nd_local n" "cameraSpec n i netns parent b = Inr s"
  shows "CameraSpec_Validate n s = None \<longleftrightarrow>
    id_ok i \<and> netns_ok netns \<and> iface_ok (if cn_ParentIf (b_net b) = [] then parent else cn_ParentIf (b_net b)) \<and>
    length (cq_Sockets s) \<le> 16 \<and> (\<forall>so\<in>set (cq_Sockets s). socket_ok (sk_Instance so) \<and> 1 \<le> sk_Port so \<and> sk_Port so \<le> 65535) \<and>
    distinct (map (\<lambda>so. (sk_Network so, sk_Port so)) (cq_Sockets s))"
proof -
  from assms(3,4) obtain p sos where s: "cn_Ip (b_net b) \<noteq> []" "MaskToPrefix (cn_Netmask (b_net b)) = Inr p" "spec_sockets n (b_doc b) (b_protos b) = Inr sos"
    "s = \<lparr>cq_ID = i, cq_Netns = netns, cq_Mode = NetMacvlan_text, cq_Parent = (if cn_ParentIf (b_net b) = [] then parent else cn_ParentIf (b_net b)),
      cq_MAC = cn_Mac (b_net b), cq_IP = cn_Ip (b_net b), cq_Prefix = p, cq_Gateway = cn_Gateway (b_net b), cq_Sockets = sos\<rparr>"
    by (auto simp: cameraSpec_def Let_def split: if_splits sum.splits)
  have "networks_usable d" using addressed.inv_reachable assms(1) by blast
  with tget_Some_mem [OF load_done(3) [OF assms(2)]] have "usable_network (b_net b)" by (auto simp: networks_usable_def)
  with s(1) obtain a q where u: "cn_Ip (b_net b) = ip4_str a" "prefix_ok q" "cn_Netmask (b_net b) = PrefixToMask q" "\<not> special_unicast a"
    "host_of a (nat q) a" "is_ok (ParseMAC (cn_Mac (b_net b)))"
    "cn_Gateway (b_net b) = [] \<or> (\<exists>g. cn_Gateway (b_net b) = ip4_str g \<and> g \<noteq> a \<and> prefix_contains a (nat q) g)"
    unfolding usable_network_def by blast
  have "p = q" using s(2) u(2,3) mask_roundtrip [of q] by (simp add: prefix_ok_def)
  have shown: "ParseAddr n (ip4_str x) = Some (Addr4 x)" for x by (simp add: ParseAddr_def parse_ip4_str)
  have nz: "ip4_str x \<noteq> []" for x using parse_ip4_str [of x] by (auto simp: parse_ip4_def split: option.splits)
  define gw where "gw = (if cn_Gateway (b_net b) = [] then Some NoAddr else ParseAddr n (cn_Gateway (b_net b)))"
  from u(7) obtain g where g: "gw = Some g" "g = NoAddr \<or> (\<exists>x. g = Addr4 x \<and> x \<noteq> a \<and> prefix_contains a (nat q) x)"
    by (auto simp: gw_def shown nz)
  have "NetIdentity_Validate \<lparr>nid_Mode = NetMacvlan, nid_ParentIf = [], nid_MAC = cn_Mac (b_net b), nid_IPMode = IPStatic, nid_IP = Addr4 a,
      nid_Prefix = p, nid_Gateway = g, nid_DNS = []\<rparr> = None"
    unfolding NetIdentity_Validate_iff using u g(2) by (simp add: \<open>p = q\<close>)
  then have v: "CameraSpec_Validate n s = None \<longleftrightarrow> id_ok i \<and> netns_ok netns \<and> iface_ok (cq_Parent s) \<and> length sos \<le> 16 \<and> check_sockets [] sos = None"
    using g(1) by (simp add: CameraSpec_Validate_def s(4) u(1) shown gw_def [symmetric] del: One_nat_def) (auto simp: gw_def)
  have ok: "\<forall>so\<in>set sos. socket_ok (sk_Name so) \<and> sk_Network so \<in> {''tcp'', ''udp''}" using spec_sockets_facts [OF s(3)] by blast
  then have "distinct (map port_key sos) \<longleftrightarrow> distinct (map (\<lambda>so. (sk_Network so, sk_Port so)) sos)" by (intro distinct_port_keys) blast
  with v ok show ?thesis unfolding check_sockets_None by (auto simp: s(4))
qed

lemma lan_engines:
  "engineOf demo_doc ''http'' = Inr (''http-api'', ''1'')" "engineOf demo_doc ''rtsp'' = Inr (''rtsp'', ''1'')"
  "Resolve lan_node ''http-api'' ''1'' = Inr httpapi_Describe" "Resolve lan_node ''rtsp'' ''1'' = Inr rtsp_Describe"
  by (simp_all add: engineOf_def demo_doc_def Resolve_def Builtin_def rtsp_Describe_def httpapi_Describe_def lan_node_def demo_node_def Contract_def cut_def)

lemma cameraSpec_made:
  assumes "\<not> nd_local n" "cn_Ip (b_net b) \<noteq> []" "MaskToPrefix (cn_Netmask (b_net b)) = Inr p" "spec_sockets n (b_doc b) (b_protos b) = Inr sos"
  shows "\<exists>s. cameraSpec n i netns parent b = Inr s \<and> cq_Sockets s = sos"
  using assms by (simp add: cameraSpec_def Let_def)

lemma lan_ports:
  "map sk_Port (socket_requests ''http'' 80 httpapi_Describe) = [80]"
  "map sk_Port (socket_requests ''rtsp'' 554 rtsp_Describe) = [554, 6970, 6971]"
  by (simp_all add: socket_requests_def httpapi_Describe_def rtsp_Describe_def)

lemma lan_sockets:
  "\<exists>x. spec_sockets lan_node demo_doc [(''http'', \<lparr>cp_Enabled = True, cp_Port = 80, cp_Options = ''{}''\<rparr>),
     (''rtsp'', \<lparr>cp_Enabled = True, cp_Port = 554, cp_Options = ''{}''\<rparr>)] = Inr x \<and> map sk_Port x = [80, 554, 6970, 6971]"
  by (simp add: lan_engines lan_ports)

lemma lan_loads: "\<exists>d' b. reach (service_step (\<lambda>n. True)) new_db d' \<and> load ''c1'' d' = Inr b \<and> b_net b = network_of NetMacvlan IPStatic lan_identity \<and>
  b_doc b = demo_doc \<and>
  b_protos b = [(''http'', \<lparr>cp_Enabled = True, cp_Port = 80, cp_Options = ''{}''\<rparr>), (''rtsp'', \<lparr>cp_Enabled = True, cp_Port = 554, cp_Options = ''{}''\<rparr>)]"
proof -
  from lan_moves obtain es d' where c: "UpdateCamera lan_node ''c1'' lan_change demo_db = (Inr es, d')"
    "tget (c_network d') ''c1'' = Some (network_of NetMacvlan IPStatic lan_identity)" "c_protocols d' = c_protocols demo_db"
    "c_profiles d' = c_profiles demo_db" "map_option (\<lambda>c. (cm_ProfileID c, cm_ProfileVersion c)) (tget (c_cameras d') ''c1'') =
        map_option (\<lambda>c. (cm_ProfileID c, cm_ProfileVersion c)) (tget (c_cameras demo_db) ''c1'')" by blast
  from step_update [OF c(1)] demo_reached have r: "reach (service_step (\<lambda>n. True)) new_db d'" by (blast intro: reach_step)
  from c(5) obtain cam where "tget (c_cameras d') ''c1'' = Some cam" "cm_ProfileID cam = ''acme''" "cm_ProfileVersion cam = ''1''"
    by (auto simp: demo_state new_camera_def)
  then have "\<exists>b. load ''c1'' d' = Inr b \<and> b_net b = network_of NetMacvlan IPStatic lan_identity \<and> b_doc b = demo_doc \<and>
    b_protos b = [(''http'', \<lparr>cp_Enabled = True, cp_Port = 80, cp_Options = ''{}''\<rparr>), (''rtsp'', \<lparr>cp_Enabled = True, cp_Port = 554, cp_Options = ''{}''\<rparr>)]"
    by (simp add: load_def GetCamera_def GetCameraNetwork_def GetProfileByRef_def c(2-4) demo_state ListCameraProtocols_def of_camera_def by_key_def)
  with r show ?thesis by blast
qed

theorem helper_accepts_iff_witness:
  "\<exists>(d :: cam_db) b s. load ''c1'' d = Inr b \<and> cameraSpec lan_node ''c1'' ''sim-c1'' ''eth0'' b = Inr s \<and>
    map sk_Port (cq_Sockets s) = [80, 554, 6970, 6971] \<and> CameraSpec_Validate lan_node s \<noteq> None"
proof -
  from lan_loads obtain d' b where d: "reach (service_step (\<lambda>n. True)) new_db d'" "load ''c1'' d' = Inr b"
    "b_net b = network_of NetMacvlan IPStatic lan_identity" "b_doc b = demo_doc"
    "b_protos b = [(''http'', \<lparr>cp_Enabled = True, cp_Port = 80, cp_Options = ''{}''\<rparr>), (''rtsp'', \<lparr>cp_Enabled = True, cp_Port = 554, cp_Options = ''{}''\<rparr>)]" by blast
  have l: "\<not> nd_local lan_node" by (simp add: lan_node_def)
  have net: "cn_Ip (b_net b) \<noteq> []" "MaskToPrefix (cn_Netmask (b_net b)) = Inr 24"
    using mask_roundtrip [of 24] by (simp_all add: d(3) network_of_def lan_identity_def lan_strings)
  obtain x where x: "spec_sockets lan_node (b_doc b) (b_protos b) = Inr x" "map sk_Port x = [80, 554, 6970, 6971]"
    using lan_sockets d(4,5) by metis
  from cameraSpec_made [OF l net x(1), of "''c1''" "''sim-c1''" "''eth0''"] obtain s where s: "cameraSpec lan_node ''c1'' ''sim-c1'' ''eth0'' b = Inr s" "cq_Sockets s = x"
    by (elim exE conjE) (rule that)
  have ports: "map sk_Port (cq_Sockets s) = [80, 554, 6970, 6971]" unfolding s(2) by (rule x(2))
  have "\<not> id_ok ''c1''" by (simp add: id_ok_def)
  then have "CameraSpec_Validate lan_node s \<noteq> None"
    using conjunct1 [OF iffD1 [OF helper_accepts_iff [OF d(1,2) l s(1)]]] by (rule contrapos_nn)
  with d(2) s(1) ports show ?thesis by (intro exI conjI)
qed

end
