(* ===== verification/Spec2Isabelle.thy ===== *)
theory Spec2Isabelle
  imports Domain_Camera Domain_Network Domain_Mask Domain_Users Domain_Admission Job_Wait Sessions Bulk Live_Hub Ipc_Conn Go_Base64 Supervisor_Names Digest_Claims Profile_Streams Camera_Invariants Camera_Whole Camera_Claims Camera_Protocols Camera_Addresses Event_Claims Template_Guard Media_Stream Http_Routes Net_Spec
begin

text \<open>
  \<^bold>\<open>MockVision\<close> simulates IP cameras on a real network. One binary runs as a privileged network helper, as the main
  service with its panel, and as one process for every camera. All Go sources named below are under
  \<^verbatim>\<open>src/backend/internal\<close> unless they start with \<^verbatim>\<open>sdk/\<close>; the tables are those of \<^verbatim>\<open>database/migrations\<close>.

  \<^bold>\<open>How the parts interact.\<close> The service (\<^verbatim>\<open>app/\<close>) keeps cameras, their children, events, users and jobs in SQLite
  (\<^verbatim>\<open>store/db/\<close>). A profile (\<^verbatim>\<open>profile/\<close>) says which parameters, streams, engines and events a camera has. The
  supervisor asks a runtime (\<^verbatim>\<open>netctl/\<close>) to start a camera, then talks to its process in JSON lines (\<^verbatim>\<open>ipc/\<close>): it sends
  the configuration, the camera reports changes of its parameters, events and deliveries. Inside the camera
  (\<^verbatim>\<open>camera/\<close>) engines (\<^verbatim>\<open>engines/\<close>) serve its HTTP interface and push its events, with templates (\<^verbatim>\<open>tmpl/\<close>) from the
  profile. Encoding and imports are jobs (\<^verbatim>\<open>worker/\<close>); the panel hears of changes over a hub (\<^verbatim>\<open>api/hub.go\<close>).

  \<^bold>\<open>Foundations.\<close> \<^verbatim>\<open>Prelude\<close>: results, association tables for Go maps and SQL tables, reachability and the locales
  of machines with an invariant. \<^verbatim>\<open>Go_Text\<close>, \<^verbatim>\<open>Go_Time\<close>, \<^verbatim>\<open>Go_Float\<close>, \<^verbatim>\<open>Go_Base64\<close>, \<^verbatim>\<open>Go_Bucket\<close>: what the code uses of
  Go's strings (bytes, UTF-8, trimming, splitting, numbers), instants and durations with the wrap-around of
  \<^verbatim>\<open>int64\<close>, IEEE doubles as rationals rounded half to even, base64, and the token bucket that paces sign-ins and the messages of
  a camera (\<^verbatim>\<open>app/supervisor.go\<close>).

  \<^bold>\<open>Domain\<close> (\<^verbatim>\<open>domain/*.go\<close>). \<^verbatim>\<open>Domain_Errors\<close> errors and their fields; \<^verbatim>\<open>Domain_Camera\<close> states and transitions, names, tags,
  slugs, restart backoff; \<^verbatim>\<open>Domain_Network\<close> addresses, masks, MACs and the validation of an identity; \<^verbatim>\<open>Domain_Mask\<close>
  identifier masks; \<^verbatim>\<open>Domain_Users\<close> users, events, targets, frame sizes; \<^verbatim>\<open>Domain_Admission\<close> the admission policy.

  \<^bold>\<open>Profiles\<close> (\<^verbatim>\<open>profile/document.go, model.go, validate.go\<close>). \<^verbatim>\<open>Profile_Model\<close> values, \<open>Coerce\<close>, canonical keys, \<open>StreamFor\<close>;
  \<^verbatim>\<open>Profile_Lint\<close> the lint; \<^verbatim>\<open>Profile_Claims\<close> and \<^verbatim>\<open>Profile_Streams\<close>: coerced values have the type and range of their
  parameter, what was accepted is read back, and a profile without lint errors serves its streams whatever is stored.

  \<^bold>\<open>Tables and the camera service.\<close> \<^verbatim>\<open>Camera_Store\<close> the tables (\<^verbatim>\<open>store/db/*.sql.go\<close>), with unique indexes, foreign keys
  and cascades; \<^verbatim>\<open>Camera_Rules\<close> statements, transactions and the locale of what a predicate on the tables must survive;
  \<^verbatim>\<open>Service_Base\<close>, \<^verbatim>\<open>Engine_Catalog\<close> (\<^verbatim>\<open>engines/engines.go\<close>), \<^verbatim>\<open>Media_Params\<close>, \<^verbatim>\<open>Secret_Box\<close> (\<^verbatim>\<open>secret/secret.go\<close>),
  \<^verbatim>\<open>Assets\<close> (\<^verbatim>\<open>app/assets.go\<close>), \<^verbatim>\<open>Camera_Network\<close> and \<^verbatim>\<open>Cameras\<close> (\<^verbatim>\<open>app/cameras.go\<close>), \<^verbatim>\<open>Camera_Edit\<close> (\<^verbatim>\<open>app/camera_edit.go\<close>),
  \<^verbatim>\<open>Targets\<close> (\<^verbatim>\<open>app/targets.go\<close>), \<^verbatim>\<open>Bulk\<close> (\<^verbatim>\<open>app/bulk.go\<close>) the operations. An operation is a function from the database
  to its result and the database; the parts of the node it reads (clock, random bytes, interfaces, settings, the
  cipher, JSON) are fields of the record \<open>node\<close>. \<^verbatim>\<open>Camera_Safety\<close> is the locale \<open>service_machine\<close>: a predicate that every
  statement keeps is kept by every run of the service. \<^verbatim>\<open>Camera_Invariants\<close> interprets it for the schema, the
  renditions, the addresses and the sealed passwords; \<^verbatim>\<open>Camera_Rows\<close> says what each transaction has written and
  \<^verbatim>\<open>Camera_Whole\<close> that every stored camera stays whole. \<^verbatim>\<open>Camera_Claims\<close>, \<^verbatim>\<open>Camera_Protocols\<close>, \<^verbatim>\<open>Camera_Copies\<close>,
  \<^verbatim>\<open>Camera_Accounts\<close>, \<^verbatim>\<open>Camera_Addresses\<close> hold the properties; \<^verbatim>\<open>Camera_Demo\<close> a concrete run for the witnesses.

  \<^bold>\<open>Running cameras.\<close> \<^verbatim>\<open>Supervisor\<close> (\<^verbatim>\<open>app/supervisor.go\<close>) sessions, start, stop, retries, namespace names, the reconciler,
  as a step relation over everything processes and operators can do; \<^verbatim>\<open>Supervisor_Safety\<close>, \<^verbatim>\<open>Supervisor_Claims\<close> and
  \<^verbatim>\<open>Supervisor_Names\<close> its invariants and properties. \<^verbatim>\<open>Net_Spec\<close> (\<^verbatim>\<open>netctl/spec.go\<close> and \<open>cameraSpec\<close>) the request to the
  privileged helper and its check, over every camera the service can have stored. \<^verbatim>\<open>Ipc_Conn\<close> (\<^verbatim>\<open>ipc/conn.go\<close>) the connection.
  \<^verbatim>\<open>Camera_State\<close> (\<^verbatim>\<open>camera/state.go\<close>) the parameters of a running camera, and that a change a client makes survives a
  restart through the report, the rows of the service and the next configuration.

  \<^bold>\<open>Engines.\<close> \<^verbatim>\<open>Digest_Auth\<close> and \<^verbatim>\<open>Digest_Claims\<close> (\<^verbatim>\<open>engines/httpapi/digest.go\<close>) authentication; \<^verbatim>\<open>Http_Routes\<close>
  (\<^verbatim>\<open>engines/httpapi/engine.go, config.go\<close>) the check of the configuration, routes, roles, handlers and answers;
  \<^verbatim>\<open>Template_Guard\<close> (\<^verbatim>\<open>tmpl/tmpl.go\<close>) the guard of the templates; \<^verbatim>\<open>Media_Stream\<close> (\<^verbatim>\<open>media/stream.go\<close>) the frames of a
  stream file. \<^verbatim>\<open>Event_Delivery\<close> (\<^verbatim>\<open>camera/events.go\<close>, \<^verbatim>\<open>engines/httppush/engine.go\<close>) the event bus and the deliveries,
  \<^verbatim>\<open>Event_Log\<close> (\<^verbatim>\<open>app/events.go\<close>) what the service keeps of them, \<^verbatim>\<open>Event_Claims\<close> the whole way from an event to
  the status the panel shows.

  \<^bold>\<open>Users and jobs.\<close> \<^verbatim>\<open>Login_Guard\<close> and \<^verbatim>\<open>Sessions\<close> (\<^verbatim>\<open>app/auth.go, tokens.go\<close>); \<^verbatim>\<open>Job_Store\<close>, \<^verbatim>\<open>Job_Runner\<close>,
  \<^verbatim>\<open>Job_Safety\<close>, \<^verbatim>\<open>Job_Machine\<close>, \<^verbatim>\<open>Job_Wait\<close> (\<^verbatim>\<open>worker/*.go\<close>) the runner as a machine whose steps are its locked regions,
  its invariant, the order that keeps finished jobs as they are, and that no wakeup is lost. \<^verbatim>\<open>Live_Hub\<close> (\<^verbatim>\<open>api/hub.go\<close>,
  \<^verbatim>\<open>api/ws.go\<close>) topics, replay and slow clients.

  \<^bold>\<open>Correspondence.\<close> A Go struct is a record, an enum a datatype, a map or a table an association list with distinct
  keys (\<open>table_ok\<close>), visited in the order of the list where the code ranges over a map in any order. A mutex-protected
  region is one step; what other goroutines do between regions is other steps. A call that fails returns
  \<open>Inl\<close> and the code's early return is the branch. Text of messages is kept as the format and its arguments.
  Passwords, hashes, clocks and identifiers are inputs.

  \<^bold>\<open>Bounds and fuel.\<close> Loops are structural or have a measure, with two exceptions. \<open>prune_oldest\<close> of the replay cache is a
  \<^theory_text>\<open>partial_function\<close>: it does not end when every nonce was first used after the present, and the properties that use
  it show it ends as long as the clock does not go back. The walk of a template has fuel for template calls only,
  as much as the limit of steps; \<open>render_ends\<close> shows it never runs out, since the guard counts every call.

  \<^bold>\<open>Parameters and hypotheses.\<close> Code that is not in the repository is an argument: Argon2id, SHA-256, HMAC, MD5, the AEAD
  cipher, JSON, URL, form and regular expression parsing, \<^verbatim>\<open>text/template\<close> commands, semver ranges, ULIDs, the HTTP client, the JPEG
  segment decoders, Unicode outside ASCII. Hypotheses on them say only what is documented (a sealed text opens
  with its key and context, JSON of a value decodes to it with numbers as doubles, an HMAC has 32 bytes). The numbers of
  NAL unit types are those of the H.264 and H.265 standards, which the library's constants name.

  \<^bold>\<open>Not modelled.\<close> What is input and output without logic of its own: the HTTP handlers of the REST API and its server
  (\<^verbatim>\<open>api/handlers.go, server.go, problem.go, static.go\<close>), reading and writing of files, launching of processes, ffmpeg
  (\<^verbatim>\<open>media/media.go\<close>), the RTSP engine over its library (\<^verbatim>\<open>engines/rtsp\<close>), namespaces, macvlan and ARP (\<^verbatim>\<open>netctl/*_linux.go\<close>),
  privilege dropping and sandboxing (\<^verbatim>\<open>netctl/privdrop, sandbox\<close>), telemetry and metrics, the command line (\<^verbatim>\<open>pkg/cli.go\<close>,
  \<^verbatim>\<open>cmd/\<close>). Left out for its size: packages and the import of profiles (\<^verbatim>\<open>pkg/pkg.go, app/profiles.go, profile/yaml.go\<close>), the
  JSON schemas of the profile, the jobs the service defines (\<^verbatim>\<open>app/jobs.go, prepare.go\<close>), settings, audit and views. The
  frontend is TypeScript and not part of this development.
\<close>

end
